(* ===== verification/Py_Prelude.thy ===== *)
theory Py_Prelude
  imports Main "HOL-Library.Multiset" "HOL-Library.Char_ord" "HOL-Library.List_Lexorder"
    "HOL-Library.Product_Lexorder" "HOL-Library.AList"
begin

section \<open>Python values the components share\<close>

text \<open>
  This theory holds what every component of the development uses: Python strings and
  \<open>str.strip\<close>, the exceptions the code raises and the result type that carries them,
  insertion-ordered dictionaries, \<open>str.join\<close> and the printing of integers, together with
  the rules the component proofs rest on.

  A Python \<open>str\<close> is a \<^typ>\<open>string\<close>, a list of characters. HOL's \<^typ>\<open>char\<close> has 256
  values, which stand for the code points 0 to 255; the order of \<^theory_text>\<open>Char_ord\<close> is
  the order of code points and \<^theory_text>\<open>List_Lexorder\<close> is Python's comparison of
  strings.  A \<open>dict\<close> is an association list with \<open>AList.update\<close>, which overwrites a
  present key in place and appends a new one, as CPython's dictionaries do.
\<close>

named_theorems py_simps \<open>equations that evaluate the shared Python operations\<close>

type_synonym str = string
type_synonym ('k, 'v) dict = "('k \<times> 'v) list"

subsection \<open>Exceptions\<close>

text \<open>
  One constructor per exception class the modelled code raises; \<open>HTTPError\<close> carries its
  status code.  The texts of messages are not modelled; a message that the code stores in a record is, at the place where it
  is stored.
\<close>

datatype exn =
    ValueError
  | TypeError
  | RuntimeError
  | OverflowError
  | KeyError
  | StaleClaimTokenError
  | AuthorityError
  | PolicyValidationError
  | DisputeProtocolError
  | DeliberationError
  | NoAvailableProviderError
  | IntegrityError
  | StaleDataError
  | WorkUnitContractError
  | WorkUnitPersistenceError
  | WorkUnitConflictError
  | WorkUnitClaimError
  | WorkQueueLeaseError
  | WorkQueueReviewError
  | ProjectContractError
  | ProjectStateError
  | ProjectFingerprintError
  | RepositoryError
  | PermissionError
  | RuntimeNotReadyError
  | NotFoundError
  | ContextError
  | CommandAuthorizationError
  | CommandConflictError
  | ProjectNotFoundError
  | ProjectScopeNotFoundError
  | ProjectCompletionEvidenceError
  | ActiveProjectScopeError
  | InvalidTransitionError
  | SideEffectInProgressError
  | SideEffectConflictError
  | LLMCallInProgressError
  | LLMReplayConflictError
  | LLMBudgetExceededError
  | SchemaValidationError
  | AssertionError
  | TimeoutError
  | ConnectionError
  | HTTPError int

type_synonym 'a result = "exn + 'a"

text \<open>
  Subclassing matters in one handler only, the execution engine's \<open>except RuntimeError\<close>;
  of the exceptions that can reach it, \<open>StaleClaimTokenError\<close> is the one subclass.
\<close>

definition is_runtime_error :: "exn \<Rightarrow> bool" where
  "is_runtime_error e \<longleftrightarrow> e = RuntimeError \<or> e = StaleClaimTokenError"

definition bind_res :: "'a result \<Rightarrow> ('a \<Rightarrow> 'b result) \<Rightarrow> 'b result" where
  "bind_res m k = (case m of Inl e \<Rightarrow> Inl e | Inr x \<Rightarrow> k x)"

lemma bind_res_simps [simp]:
  "bind_res (Inl e) k = Inl e"
  "bind_res (Inr x) k = k x"
  by (simp_all add: bind_res_def)

lemma bind_res_Inr_iff:
  "bind_res m k = Inr y \<longleftrightarrow> (\<exists>x. m = Inr x \<and> k x = Inr y)"
  by (cases m) simp_all

lemma bind_res_split:
  "P (bind_res m k) \<longleftrightarrow> (\<forall>e. m = Inl e \<longrightarrow> P (Inl e)) \<and> (\<forall>x. m = Inr x \<longrightarrow> P (k x))"
  by (cases m) simp_all

text \<open>A computation that returns a value with a property, as a test that evaluates.\<close>

definition returns :: "'a result \<Rightarrow> ('a \<Rightarrow> bool) \<Rightarrow> bool" where
  "returns m P = (case m of Inl e \<Rightarrow> False | Inr x \<Rightarrow> P x)"

lemma returns_iff: "returns m P \<longleftrightarrow> (\<exists>x. m = Inr x \<and> P x)"
  by (cases m) (simp_all add: returns_def)

text \<open>A check that raises: \<open>if c: raise e\<close> before the rest of the body.\<close>

definition raise_if :: "bool \<Rightarrow> exn \<Rightarrow> 'a result \<Rightarrow> 'a result" where
  "raise_if c e k = (if c then Inl e else k)"

lemma raise_if_simps [simp]:
  "raise_if True e k = Inl e"
  "raise_if False e k = k"
  by (simp_all add: raise_if_def)

lemma raise_if_Inr_iff [simp]: "raise_if c e k = Inr x \<longleftrightarrow> \<not> c \<and> k = Inr x"
  by (simp add: raise_if_def)

subsection \<open>Whitespace, \<open>strip\<close> and the non-empty checks\<close>

text \<open>
  \<open>str.isspace\<close> on the code points below 256: the ASCII separators 9--13 and 28--32, the
  C1 control NEL (133) and the no-break space (160).
\<close>

definition is_space :: "char \<Rightarrow> bool" where
  "is_space c \<longleftrightarrow>
     (let n = (of_char c :: nat)
      in (9 \<le> n \<and> n \<le> 13) \<or> (28 \<le> n \<and> n \<le> 32) \<or> n = 133 \<or> n = 160)"

definition strip :: "str \<Rightarrow> str" where
  "strip s = rev (dropWhile is_space (rev (dropWhile is_space s)))"

text \<open>\<open>not value.strip()\<close>, the test behind every ``must be non-empty'' check.\<close>

definition blank :: "str \<Rightarrow> bool" where
  "blank s \<longleftrightarrow> strip s = []"

lemma strip_Nil [simp]: "strip [] = []"
  by (simp add: strip_def)

lemma blank_Nil [simp]: "blank []"
  by (simp add: blank_def)

lemma blank_iff: "blank s \<longleftrightarrow> (\<forall>c\<in>set s. is_space c)"
proof -
  have "blank s \<longleftrightarrow> (\<forall>c\<in>set (dropWhile is_space s). is_space c)"
    by (simp add: blank_def strip_def)
  also have "\<dots> \<longleftrightarrow> (\<forall>c\<in>set s. is_space c)"
    by (metis dropWhile_eq_Nil_conv hd_dropWhile hd_in_set set_dropWhileD)
  finally show ?thesis .
qed

lemma strip_idem [simp]: "strip (strip s) = strip s"
proof -
  let ?d = "dropWhile is_space"
  have dd: "?d (?d xs) = ?d xs" for xs :: str
    by (induction xs) (simp_all del: dropWhile_eq_self_iff)
  have keep: "?d (rev (?d (rev xs))) = rev (?d (rev xs))" if "?d xs = xs" for xs :: str
  proof (cases "rev (?d (rev xs))")
    case Nil
    show ?thesis unfolding Nil by simp
  next
    case (Cons a as)
    obtain ys where xs: "xs = rev (?d (rev xs)) @ ys"
      by (metis rev_append rev_rev_ident takeWhile_dropWhile_id)
    with Cons have "xs = a # as @ ys" by simp
    with that have "\<not> is_space a"
      by (metis dropWhile.simps(2) dropWhile_eq_self_iff list.discI list.sel(1))
    with Cons show ?thesis by simp
  qed
  show ?thesis
    unfolding strip_def using keep [OF dd] dd by (simp del: dropWhile_eq_self_iff)
qed

text \<open>An optional string that is present and blank: \<open>v is not None and not v.strip()\<close>.\<close>

definition blank_opt :: "str option \<Rightarrow> bool" where
  "blank_opt v = (case v of None \<Rightarrow> False | Some s \<Rightarrow> blank s)"

lemma blank_opt_simps [simp]:
  "\<not> blank_opt None"
  "blank_opt (Some s) = blank s"
  by (simp_all add: blank_opt_def)

text \<open>Truthiness of an optional string: \<open>not v\<close> for \<open>v: str | None\<close>.\<close>

definition falsy_opt :: "str option \<Rightarrow> bool" where
  "falsy_opt v = (case v of None \<Rightarrow> True | Some s \<Rightarrow> s = [])"

lemma falsy_opt_simps [simp]:
  "falsy_opt None"
  "falsy_opt (Some s) \<longleftrightarrow> s = []"
  by (simp_all add: falsy_opt_def)

subsection \<open>Dictionaries\<close>

abbreviation dict_get :: "('k, 'v) dict \<Rightarrow> 'k \<Rightarrow> 'v option" where
  "dict_get d k \<equiv> map_of d k"

abbreviation dict_set :: "'k \<Rightarrow> 'v \<Rightarrow> ('k, 'v) dict \<Rightarrow> ('k, 'v) dict" where
  "dict_set k v d \<equiv> AList.update k v d"

text \<open>\<open>dict.values()\<close>, in insertion order; keys of a dictionary are distinct.\<close>

definition dict_values :: "('k, 'v) dict \<Rightarrow> 'v list" where
  "dict_values d = map snd d"

definition wf_dict :: "('k, 'v) dict \<Rightarrow> bool" where
  "wf_dict d \<longleftrightarrow> distinct (map fst d)"

lemma dict_get_set [simp]: "dict_get (dict_set k v d) k' = (if k' = k then Some v else dict_get d k')"
  by (simp add: update_conv')

lemma wf_dict_set [simp, intro]: "wf_dict d \<Longrightarrow> wf_dict (dict_set k v d)"
  by (simp add: wf_dict_def distinct_update)

lemma wf_dict_Nil [simp]: "wf_dict []"
  by (simp add: wf_dict_def)

lemma dict_values_set:
  "wf_dict d \<Longrightarrow> x \<in> set (dict_values d) \<longleftrightarrow> (\<exists>k. dict_get d k = Some x)"
  by (force simp: wf_dict_def dict_values_def dest: map_of_SomeD intro: map_of_is_SomeI)

text \<open>The pairs of a mapping in canonical order: \<open>tuple(sorted(d.items()))\<close>.\<close>

definition sorted_items :: "(str, str) dict \<Rightarrow> (str \<times> str) list" where
  "sorted_items d = sort d"

lemma set_sorted_items [simp]: "set (sorted_items d) = set d"
  by (simp add: sorted_items_def)

lemma wf_dict_sorted_items [simp]: "wf_dict (sorted_items d) \<longleftrightarrow> wf_dict d"
proof -
  have "mset (map fst (sorted_items d)) = mset (map fst d)"
    unfolding sorted_items_def mset_map mset_sort ..
  then show ?thesis
    by (metis wf_dict_def mset_eq_imp_distinct_iff)
qed

text \<open>The uniqueness test \<open>len(xs) != len(set(xs))\<close>.\<close>

lemma length_card_iff: "length xs = card (set xs) \<longleftrightarrow> distinct xs"
  by (metis card_distinct distinct_card)

subsection \<open>\<open>str.join\<close>\<close>

fun join :: "str \<Rightarrow> str list \<Rightarrow> str" where
  "join sep [] = []"
| "join sep [x] = x"
| "join sep (x # y # ys) = x @ sep @ join sep (y # ys)"

lemma join_Cons: "join sep (x # xs) = x @ (if xs = [] then [] else sep @ join sep xs)"
  by (cases xs) simp_all

subsection \<open>\<open>str(int)\<close>\<close>

definition digit_char :: "nat \<Rightarrow> char" where
  "digit_char d = char_of (48 + d)"

fun nat_str :: "nat \<Rightarrow> str" where
  "nat_str n = (if n < 10 then [digit_char n] else nat_str (n div 10) @ [digit_char (n mod 10)])"

declare nat_str.simps [simp del]

definition int_str :: "int \<Rightarrow> str" where
  "int_str i = (if i < 0 then CHR ''-'' # nat_str (nat (- i)) else nat_str (nat i))"

definition is_digit :: "char \<Rightarrow> bool" where
  "is_digit c \<longleftrightarrow> (let n = (of_char c :: nat) in 48 \<le> n \<and> n \<le> 57)"

lemma of_char_digit [simp]: "d < 10 \<Longrightarrow> (of_char (digit_char d) :: nat) = 48 + d"
  by (simp add: digit_char_def)

lemma is_digit_digit_char [simp]: "d < 10 \<Longrightarrow> is_digit (digit_char d)"
  by (simp add: is_digit_def)

lemma nat_str_nonempty [simp]: "nat_str n \<noteq> []"
  by (subst nat_str.simps) simp

lemma nat_str_digits: "\<forall>c\<in>set (nat_str n). is_digit c"
proof (induction n rule: nat_str.induct)
  case (1 n)
  then show ?case by (subst nat_str.simps) auto
qed

text \<open>Reading the digits back, which makes the printing injective.\<close>

definition digits_value :: "str \<Rightarrow> nat" where
  "digits_value s = foldl (\<lambda>acc c. acc * 10 + (of_char c - 48)) 0 s"

lemma digits_value_snoc [simp]:
  "digits_value (s @ [c]) = digits_value s * 10 + (of_char c - 48)"
  by (simp add: digits_value_def)

lemma digits_value_nat_str [simp]: "digits_value (nat_str n) = n"
proof (induction n rule: nat_str.induct)
  case (1 n)
  show ?case
  proof (cases "n < 10")
    case True
    then show ?thesis by (subst nat_str.simps) (simp add: digits_value_def)
  next
    case False
    with 1 have "digits_value (nat_str (n div 10)) = n div 10" by simp
    with False show ?thesis by (subst nat_str.simps) simp
  qed
qed

lemma nat_str_inject [simp]: "nat_str m = nat_str n \<longleftrightarrow> m = n"
  by (metis digits_value_nat_str)

lemma int_str_nonempty [simp]: "int_str i \<noteq> []"
  by (simp add: int_str_def)

lemma dash_not_digit [simp]: "\<not> is_digit CHR ''-''"
  by (simp add: is_digit_def)

lemma hd_nat_str_digit: "is_digit (hd (nat_str n))"
  using nat_str_digits [of n] by (cases "nat_str n") simp_all

lemma int_str_inject [simp]: "int_str i = int_str j \<longleftrightarrow> i = j"
proof -
  have "nat_str m \<noteq> CHR ''-'' # s" for m s
    using hd_nat_str_digit [of m] by (cases "nat_str m") auto
  note no_dash = this this [symmetric]
  show ?thesis
    by (auto simp: int_str_def no_dash split: if_splits)
qed

text \<open>A run of digits is delimited by the first character that is not one.\<close>

lemma digits_append_inject:
  assumes "\<forall>c\<in>set u. is_digit c" "\<forall>c\<in>set v. is_digit c"
    and "r = [] \<or> \<not> is_digit (hd r)" "s = [] \<or> \<not> is_digit (hd s)"
    and "u @ r = v @ s"
  shows "u = v \<and> r = s"
proof -
  have tw: "takeWhile is_digit (w @ t) = w"
    if "\<forall>c\<in>set w. is_digit c" "t = [] \<or> \<not> is_digit (hd t)" for w t :: str
    using that by (cases t) (simp_all add: takeWhile_append2 takeWhile_tail)
  from assms tw [of u r] tw [of v s] have "u = v" by simp
  with assms(5) show ?thesis by simp
qed

lemmas [py_simps] = raise_if_def bind_res_def blank_def strip_def is_space_def

subsection \<open>Rows of the object-relational mapper\<close>

text \<open>
  The column \<open>f\<close> of a row after a flush: the \<open>UPDATE\<close> sets the columns whose assigned value
  differs from the value that was read (\<open>seen\<close>), the others keep what the row holds by then.
\<close>

definition written :: "'r \<Rightarrow> 'r \<Rightarrow> 'r \<Rightarrow> ('r \<Rightarrow> 'a) \<Rightarrow> 'a" where
  "written seen new cur f = (if f new \<noteq> f seen then f new else f cur)"

subsection \<open>Lower case\<close>

text \<open>\<open>str.lower\<close> on the letters of ASCII; the texts it is compared with hold no others.\<close>

definition lower_char :: "char \<Rightarrow> char" where
  "lower_char c = (let n = (of_char c :: nat) in if 65 \<le> n \<and> n \<le> 90 then char_of (n + 32) else c)"

subsection \<open>Prefixes\<close>

text \<open>\<open>s.startswith(p)\<close>.\<close>

definition startswith :: "str \<Rightarrow> str \<Rightarrow> bool" where
  "startswith p s \<longleftrightarrow> take (length p) s = p"

lemma startswith_append [simp]: "startswith p (p @ s)"
  by (simp add: startswith_def)

lemma startswith_iff: "startswith p s \<longleftrightarrow> s = p @ drop (length p) s"
  by (metis append_take_drop_id append_eq_conv_conj startswith_def)

end
