(* ===== verification/Py_Float.thy ===== *)
theory Py_Float
  imports Complex_Main
begin

section \<open>Python floats\<close>

text \<open>
  A Python \<open>float\<close> is an IEEE 754 double.  The finite doubles are rational numbers, and an
  arithmetic operation returns the exact rational result rounded to the nearest double,
  ties to even.  \<open>fl\<close> is that rounding, so that \<open>a + b\<close> of the source is
  \<^term>\<open>fl (a + b)\<close> on \<^typ>\<open>rat\<close>, and the literal \<open>0.6\<close> is \<^term>\<open>fl (3 / 5)\<close>.
  Subnormal numbers are covered (the unit in the last place is never below \<open>2 ^ -1074\<close>);
  infinities and NaN are not: no modelled computation leaves the range of the doubles.

  The lemmas give what the components need of rounding: it is monotone, it is the identity
  on doubles, and its error is at most half a unit in the last place.
\<close>

type_synonym float64 = rat

subsection \<open>Rounding to an integer, ties to even\<close>

definition rhe :: "rat \<Rightarrow> int" where
  "rhe x = (let f = \<lfloor>x\<rfloor>; d = x - of_int f
            in if d < 1/2 then f else if d > 1/2 then f + 1 else if even f then f else f + 1)"

lemma rhe_bounds: "of_int (rhe x) - 1/2 \<le> x \<and> x \<le> of_int (rhe x) + 1/2"
proof -
  have "of_int \<lfloor>x\<rfloor> \<le> x" "x < of_int \<lfloor>x\<rfloor> + 1" by linarith+
  then show ?thesis
    by (simp add: rhe_def Let_def split: if_split) linarith
qed

lemma rhe_near: "\<bar>x - of_int (rhe x)\<bar> \<le> 1/2"
  using rhe_bounds [of x] by linarith

lemma rhe_eqI: "\<bar>x - of_int k\<bar> < 1/2 \<Longrightarrow> rhe x = k"
proof -
  assume a: "\<bar>x - of_int k\<bar> < 1/2"
  have "\<bar>of_int (rhe x) - of_int k :: rat\<bar> < 1"
    using a rhe_near [of x] by linarith
  then show ?thesis by linarith
qed

lemma rhe_of_int [simp]: "rhe (of_int k) = k"
  by (rule rhe_eqI) simp

lemma rhe_mono:
  assumes "x \<le> y"
  shows "rhe x \<le> rhe y"
proof -
  have "\<lfloor>x\<rfloor> \<le> \<lfloor>y\<rfloor>" using assms by (rule floor_mono)
  moreover have "rhe z = \<lfloor>z\<rfloor> \<or> rhe z = \<lfloor>z\<rfloor> + 1" for z
    by (simp add: rhe_def Let_def)
  ultimately consider "\<lfloor>x\<rfloor> < \<lfloor>y\<rfloor>" "rhe x \<le> \<lfloor>x\<rfloor> + 1" "\<lfloor>y\<rfloor> \<le> rhe y" | "\<lfloor>x\<rfloor> = \<lfloor>y\<rfloor>"
    by (metis dual_order.refl le_less less_add_one order.strict_implies_order)
  then show ?thesis
  proof cases
    case 1
    then show ?thesis by linarith
  next
    case 2
    with assms show ?thesis by (auto simp: rhe_def Let_def)
  qed
qed

lemma rhe_minus: "rhe (- x) = - rhe x"
proof (cases "x = of_int \<lfloor>x\<rfloor>")
  case True
  then show ?thesis by (metis of_int_minus rhe_of_int)
next
  case False
  have fl: "of_int \<lfloor>x\<rfloor> \<le> x" "x < of_int \<lfloor>x\<rfloor> + 1" by linarith+
  with False have "of_int \<lfloor>x\<rfloor> < x" by (metis order_le_imp_less_or_eq)
  with fl have "\<lfloor>- x\<rfloor> = - \<lfloor>x\<rfloor> - 1"
    by (intro floor_unique) auto
  with fl show ?thesis
    by (auto simp: rhe_def Let_def)
qed

subsection \<open>The binary exponent\<close>

function ilog2 :: "int \<Rightarrow> nat" where
  "ilog2 n = (if n < 2 then 0 else Suc (ilog2 (n div 2)))"
  by pat_completeness auto
termination
  by (relation "measure nat") auto

declare ilog2.simps [simp del]

lemma ilog2_bounds: "0 < n \<Longrightarrow> 2 ^ ilog2 n \<le> n \<and> n < 2 ^ Suc (ilog2 n)"
proof (induction n rule: ilog2.induct)
  case (1 n)
  show ?case
  proof (cases "n < 2")
    case True
    with "1.prems" show ?thesis by (simp add: ilog2.simps [of n])
  next
    case False
    with "1.IH" have "2 ^ ilog2 (n div 2) \<le> n div 2 \<and> n div 2 < 2 ^ Suc (ilog2 (n div 2))"
      by simp
    with False show ?thesis by (simp add: ilog2.simps [of n]) linarith
  qed
qed

definition pow2 :: "int \<Rightarrow> rat" where
  "pow2 k = (if 0 \<le> k then 2 ^ nat k else 1 / 2 ^ nat (- k))"

lemma pow2_powi: "pow2 k = 2 powi k"
  by (auto simp: pow2_def power_int_def field_simps power_inverse)

lemma pow2_pos [simp]: "0 < pow2 k"
  by (simp add: pow2_def)

lemma pow2_nonzero [simp]: "pow2 k \<noteq> 0"
  using pow2_pos [of k] by linarith

lemma pow2_add: "pow2 (j + k) = pow2 j * pow2 k"
  by (simp add: pow2_powi power_int_add)

lemma pow2_less: "j < k \<Longrightarrow> pow2 j < pow2 k"
  by (simp add: pow2_powi power_int_strict_increasing)

lemma pow2_less_iff [simp]: "pow2 j < pow2 k \<longleftrightarrow> j < k"
  using pow2_less [of j k] pow2_less [of k j] by (cases j k rule: linorder_cases) auto

lemma pow2_le_iff [simp]: "pow2 j \<le> pow2 k \<longleftrightarrow> j \<le> k"
  by (simp flip: not_less)

lemma pow2_0 [simp]: "pow2 0 = 1"
  by (simp add: pow2_def)

lemma pow2_div: "pow2 j / pow2 k = pow2 (j - k)"
  by (simp add: pow2_powi power_int_diff)

lemma pow2_div_int: "k \<le> j \<Longrightarrow> pow2 j / pow2 k = of_int (2 ^ nat (j - k))"
  by (simp add: pow2_div) (simp add: pow2_def)

text \<open>\<open>expo x\<close> is the \<open>e\<close> with \<open>2 ^ e \<le> \<bar>x\<bar> < 2 ^ (e + 1)\<close>.\<close>

definition expo :: "rat \<Rightarrow> int" where
  "expo x = (let (p, q) = quotient_of \<bar>x\<bar>; k = int (ilog2 p) - int (ilog2 q)
             in if pow2 k \<le> \<bar>x\<bar> then k else k - 1)"

lemma expo_bounds:
  assumes "x \<noteq> 0"
  shows "pow2 (expo x) \<le> \<bar>x\<bar> \<and> \<bar>x\<bar> < pow2 (expo x + 1)"
proof -
  obtain p q where pq: "quotient_of \<bar>x\<bar> = (p, q)" by fastforce
  have q: "0 < q" and x: "\<bar>x\<bar> = of_int p / of_int q"
    using pq by (auto intro: quotient_of_denom_pos quotient_of_div)
  have "(0::rat) < of_int p / of_int q" using assms x by (metis zero_less_abs_iff)
  with q have p: "0 < p" by (simp add: zero_less_divide_iff)
  define a b where "a = int (ilog2 p)" and "b = int (ilog2 q)"
  have bnd: "pow2 (int (ilog2 n)) \<le> of_int n \<and> of_int n < pow2 (int (ilog2 n) + 1)"
    if "0 < n" for n
  proof -
    have "(of_int (2 ^ ilog2 n) :: rat) \<le> of_int n" "(of_int n :: rat) < of_int (2 ^ Suc (ilog2 n))"
      unfolding of_int_le_iff of_int_less_iff using ilog2_bounds [OF that] by auto
    then show ?thesis by (simp add: pow2_def nat_add_distrib)
  qed
  have P: "pow2 a \<le> of_int p" "of_int p < pow2 (a + 1)"
    and Q: "pow2 b \<le> of_int q" "of_int q < pow2 (b + 1)"
    using bnd [OF p] bnd [OF q] by (simp_all add: a_def b_def)
  have q': "(0::rat) < of_int q" using q by simp
  have up: "\<bar>x\<bar> < pow2 (a - b + 1)"
  proof -
    have "of_int p < pow2 (a - b + 1) * pow2 b"
      using P(2) by (simp flip: pow2_add add: algebra_simps)
    also have "\<dots> \<le> pow2 (a - b + 1) * of_int q"
      using Q(1) by (intro mult_left_mono) (simp_all add: less_imp_le)
    finally show ?thesis unfolding x using q' by (simp add: pos_divide_less_eq)
  qed
  have lo: "pow2 (a - b - 1) \<le> \<bar>x\<bar>"
  proof -
    have "pow2 (a - b - 1) * of_int q \<le> pow2 (a - b - 1) * pow2 (b + 1)"
      using Q(2) by (intro mult_left_mono) (simp_all add: less_imp_le)
    also have "\<dots> = pow2 a" by (simp flip: pow2_add)
    also have "\<dots> \<le> of_int p" by (rule P(1))
    finally show ?thesis unfolding x using q' by (simp add: pos_le_divide_eq)
  qed
  show ?thesis
    using up lo by (auto simp: expo_def pq Let_def a_def [symmetric] b_def [symmetric])
qed

lemma expo_unique:
  assumes "pow2 e \<le> \<bar>x\<bar>" "\<bar>x\<bar> < pow2 (e + 1)"
  shows "expo x = e"
proof -
  have "x \<noteq> 0" using assms(1) pow2_pos [of e] by (metis abs_zero not_le)
  then have "pow2 (expo x) < pow2 (e + 1)" "pow2 e < pow2 (expo x + 1)"
    using expo_bounds [of x] assms by linarith+
  then show ?thesis by simp
qed

lemma expo_mono: "x \<noteq> 0 \<Longrightarrow> \<bar>x\<bar> \<le> \<bar>y\<bar> \<Longrightarrow> expo x \<le> expo y"
proof -
  assume x: "x \<noteq> 0" and le: "\<bar>x\<bar> \<le> \<bar>y\<bar>"
  then have "y \<noteq> 0" by auto
  then have "pow2 (expo x) < pow2 (expo y + 1)"
    using expo_bounds [OF x] expo_bounds [of y] le by linarith
  then show ?thesis by simp
qed

lemma expo_minus [simp]: "expo (- x) = expo x"
  by (simp add: expo_def)

subsection \<open>Rounding to the nearest double\<close>

definition ulp_exp :: "rat \<Rightarrow> int" where
  "ulp_exp x = max (expo x - 52) (-1074)"

definition fl :: "rat \<Rightarrow> float64" where
  "fl x = (if x = 0 then 0 else of_int (rhe (x / pow2 (ulp_exp x))) * pow2 (ulp_exp x))"

definition is_double :: "rat \<Rightarrow> bool" where
  "is_double x \<longleftrightarrow> fl x = x"

lemma fl_0 [simp]: "fl 0 = 0"
  by (simp add: fl_def)

lemma fl_minus: "fl (- x) = - fl x"
  by (simp add: fl_def ulp_exp_def rhe_minus)

text \<open>A multiple of the unit in the last place is not changed.\<close>

lemma fl_multiple:
  assumes "x = of_int m * pow2 (ulp_exp x)"
  shows "fl x = x"
proof (cases "x = 0")
  case False
  have "x / pow2 (ulp_exp x) = of_int m" using assms by (simp add: field_simps)
  with assms False show ?thesis by (simp add: fl_def)
qed simp

lemma fl_le_pow2:
  assumes "0 < x" "x \<le> pow2 e" "ulp_exp x \<le> e"
  shows "fl x \<le> pow2 e"
proof -
  let ?u = "pow2 (ulp_exp x)"
  have "rhe (x / ?u) \<le> rhe (pow2 e / ?u)"
    using assms(2) by (intro rhe_mono divide_right_mono) (simp_all add: less_imp_le)
  also have "\<dots> = 2 ^ nat (e - ulp_exp x)"
    unfolding pow2_div_int [OF assms(3)] by (rule rhe_of_int)
  finally have "of_int (rhe (x / ?u)) \<le> (of_int (2 ^ nat (e - ulp_exp x)) :: rat)"
    unfolding of_int_le_iff .
  then have "of_int (rhe (x / ?u)) \<le> pow2 e / ?u"
    using pow2_div_int [OF assms(3)] by simp
  then show ?thesis
    using assms(1) by (simp add: fl_def pos_le_divide_eq)
qed

lemma fl_ge_pow2:
  assumes "pow2 e \<le> x" "ulp_exp x \<le> e"
  shows "pow2 e \<le> fl x"
proof -
  let ?u = "pow2 (ulp_exp x)"
  have x: "0 < x" using assms(1) pow2_pos [of e] by linarith
  have "rhe (pow2 e / ?u) \<le> rhe (x / ?u)"
    using assms(1) by (intro rhe_mono divide_right_mono) (simp_all add: less_imp_le)
  moreover have "rhe (pow2 e / ?u) = 2 ^ nat (e - ulp_exp x)"
    unfolding pow2_div_int [OF assms(2)] by (rule rhe_of_int)
  ultimately have "(of_int (2 ^ nat (e - ulp_exp x)) :: rat) \<le> of_int (rhe (x / ?u))"
    unfolding of_int_le_iff by simp
  then have "pow2 e / ?u \<le> of_int (rhe (x / ?u))"
    using pow2_div_int [OF assms(2)] by simp
  then show ?thesis
    using x by (simp add: fl_def pos_divide_le_eq)
qed

lemma fl_nonneg: "0 \<le> x \<Longrightarrow> 0 \<le> fl x"
proof (cases "x = 0")
  case False
  assume "0 \<le> x"
  then have "rhe 0 \<le> rhe (x / pow2 (ulp_exp x))"
    by (intro rhe_mono) (simp add: less_imp_le)
  then have "0 \<le> rhe (x / pow2 (ulp_exp x))"
    using rhe_of_int [of 0] by simp
  then show ?thesis using False by (simp add: fl_def less_imp_le)
qed simp

lemma fl_mono_pos:
  assumes "0 < x" "x \<le> y"
  shows "fl x \<le> fl y"
proof (cases "ulp_exp x = ulp_exp y")
  case True
  have "rhe (x / pow2 (ulp_exp y)) \<le> rhe (y / pow2 (ulp_exp y))"
    using assms by (intro rhe_mono divide_right_mono) (simp_all add: less_imp_le)
  then have "(of_int (rhe (x / pow2 (ulp_exp y))) :: rat) \<le> of_int (rhe (y / pow2 (ulp_exp y)))"
    by simp
  then show ?thesis
    using assms True by (simp add: fl_def mult_right_mono less_imp_le)
next
  case False
  have ex: "expo x \<le> expo y" using assms by (intro expo_mono) auto
  with False have lt: "ulp_exp x < ulp_exp y" by (auto simp: ulp_exp_def)
  then have e: "expo y - 52 > -1074" "expo x < expo y" by (auto simp: ulp_exp_def)
  have "x < pow2 (expo x + 1)" using expo_bounds [of x] assms(1) by simp
  also have "\<dots> \<le> pow2 (expo y)" using e(2) by simp
  finally have "fl x \<le> pow2 (expo y)"
    using assms(1) e lt by (intro fl_le_pow2) (auto simp: ulp_exp_def)
  also have "pow2 (expo y) \<le> fl y"
    using expo_bounds [of y] assms e by (intro fl_ge_pow2) (auto simp: ulp_exp_def)
  finally show ?thesis .
qed

lemma fl_mono: "x \<le> y \<Longrightarrow> fl x \<le> fl y"
proof -
  assume le: "x \<le> y"
  consider "0 < x" | "x \<le> 0" "0 \<le> y" | "y < 0" using le by linarith
  then show ?thesis
  proof cases
    case 1
    then show ?thesis using fl_mono_pos le by blast
  next
    case 2
    then have "0 \<le> fl y" "0 \<le> fl (- x)" by (simp_all add: fl_nonneg)
    then show ?thesis by (simp add: fl_minus)
  next
    case 3
    then have "fl (- y) \<le> fl (- x)" using le by (intro fl_mono_pos) auto
    then show ?thesis by (simp add: fl_minus)
  qed
qed

text \<open>The error is at most half a unit in the last place.\<close>

lemma fl_error: "\<bar>fl x - x\<bar> \<le> pow2 (ulp_exp x) / 2"
proof (cases "x = 0")
  case True
  then show ?thesis by (simp add: less_imp_le)
next
  case False
  let ?u = "pow2 (ulp_exp x)"
  have "\<bar>x / ?u - of_int (rhe (x / ?u))\<bar> * ?u \<le> 1/2 * ?u"
    by (intro mult_right_mono rhe_near) (simp add: less_imp_le)
  also have "\<bar>x / ?u - of_int (rhe (x / ?u))\<bar> * ?u = \<bar>(x / ?u - of_int (rhe (x / ?u))) * ?u\<bar>"
    by (simp add: abs_mult less_imp_le)
  also have "(x / ?u - of_int (rhe (x / ?u))) * ?u = x - fl x"
    using False by (simp add: fl_def left_diff_distrib)
  finally show ?thesis by (simp add: abs_minus_commute)
qed

lemma fl_of_pow2: "-1074 \<le> e \<Longrightarrow> fl (pow2 e) = pow2 e"
proof -
  assume e: "-1074 \<le> e"
  have x: "expo (pow2 e) = e" by (rule expo_unique) (simp_all add: less_imp_le)
  have "ulp_exp (pow2 e) \<le> e" using e by (simp add: ulp_exp_def x)
  from pow2_div_int [OF this]
  have "pow2 e = of_int (2 ^ nat (e - ulp_exp (pow2 e))) * pow2 (ulp_exp (pow2 e))"
    by (simp only: nonzero_divide_eq_eq [OF pow2_nonzero])
  then show ?thesis by (rule fl_multiple)
qed

lemma fl_1 [simp]: "fl 1 = 1"
  using fl_of_pow2 [of 0] by simp

text \<open>Rounding is idempotent: its results are doubles.\<close>

lemma fl_rounded_multiple:
  assumes "\<bar>m\<bar> \<le> 2 ^ 53" "-1074 \<le> k"
  shows "fl (of_int m * pow2 k) = of_int m * pow2 k"
proof (cases "m = 0")
  case False
  let ?z = "of_int m * pow2 k"
  show ?thesis
  proof (cases "\<bar>m\<bar> = 2 ^ 53")
    case True
    then have "m = 2 ^ 53 \<or> m = - (2 ^ 53)" by linarith
    moreover have "pow2 53 = of_int (2 ^ 53)" by (simp add: pow2_def)
    ultimately have "of_int m = pow2 53 \<or> of_int m = - pow2 53" by auto
    then have "?z = pow2 (53 + k) \<or> ?z = - pow2 (53 + k)"
      unfolding pow2_add by auto
    then show ?thesis
      using fl_of_pow2 [of "53 + k"] assms(2) by (auto simp: fl_minus)
  next
    case m: False
    with assms(1) have "\<bar>m\<bar> < 2 ^ 53" by simp
    then have "(of_int \<bar>m\<bar> :: rat) < of_int (2 ^ 53)" unfolding of_int_less_iff .
    then have "\<bar>?z\<bar> < pow2 53 * pow2 k"
      by (simp add: abs_mult pow2_def [of 53] less_imp_le)
    then have up: "\<bar>?z\<bar> < pow2 (53 + k)" by (simp add: pow2_add)
    have "?z \<noteq> 0" using False by simp
    then have "pow2 (expo ?z) < pow2 (53 + k)"
      using expo_bounds [of ?z] up by (meson order_le_less_trans)
    then have le: "ulp_exp ?z \<le> k" using assms(2) by (simp add: ulp_exp_def)
    have "?z = of_int (m * 2 ^ nat (k - ulp_exp ?z)) * pow2 (ulp_exp ?z)"
      using pow2_div_int [OF le] by (simp add: nonzero_divide_eq_eq mult.assoc)
    then show ?thesis by (rule fl_multiple)
  qed
qed simp

lemma fl_mantissa:
  assumes "x \<noteq> 0"
  shows "\<bar>rhe (x / pow2 (ulp_exp x))\<bar> \<le> 2 ^ 53"
proof -
  let ?u = "ulp_exp x" and ?m = "rhe (x / pow2 (ulp_exp x))"
  have "\<bar>x / pow2 ?u\<bar> = \<bar>x\<bar> / pow2 ?u"
    by (simp add: abs_divide less_imp_le)
  also have "\<dots> \<le> pow2 (expo x + 1) / pow2 ?u"
    using expo_bounds [OF assms] by (intro divide_right_mono) (auto simp: less_imp_le)
  also have "\<dots> \<le> pow2 53"
    by (simp add: pow2_div ulp_exp_def)
  also have "pow2 53 = of_int (2 ^ 53)" by (simp add: pow2_def)
  finally have b: "x / pow2 ?u \<le> of_int (2 ^ 53)" "of_int (- (2 ^ 53)) \<le> x / pow2 ?u"
    unfolding abs_le_iff of_int_minus by linarith+
  from rhe_mono [OF b(1)] rhe_mono [OF b(2)] show ?thesis
    unfolding rhe_of_int by simp
qed

lemma fl_fl [simp]: "fl (fl x) = fl x"
proof (cases "x = 0")
  case False
  then show ?thesis
    using fl_rounded_multiple [OF fl_mantissa [OF False], of "ulp_exp x"] by (simp add: fl_def ulp_exp_def)
qed simp

text \<open>Scaling a double up by a power of two is exact.\<close>

lemma fl_scale: "is_double x \<Longrightarrow> fl (x * 2 ^ k) = x * 2 ^ k"
proof (cases "x = 0")
  case False
  assume "is_double x"
  with False have x: "x = of_int (rhe (x / pow2 (ulp_exp x))) * pow2 (ulp_exp x)" (is "x = of_int ?m * _")
    by (simp add: is_double_def fl_def)
  have p: "(2::rat) ^ k = pow2 (int k)" by (simp add: pow2_def)
  have "x * 2 ^ k = of_int ?m * pow2 (ulp_exp x + int k)"
    unfolding pow2_add p by (subst x) (rule mult.assoc)
  moreover have "-1074 \<le> ulp_exp x + int k" by (simp add: ulp_exp_def)
  ultimately show ?thesis
    using fl_rounded_multiple [OF fl_mantissa [OF False]] by simp
qed simp

text \<open>
  \<open>round(x, 4)\<close>: CPython rounds the exact value of the double to four decimals, ties to
  even, and returns the nearest double.
\<close>

definition round4 :: "float64 \<Rightarrow> float64" where
  "round4 x = fl (of_int (rhe (x * 10000)) / 10000)"

lemma round4_mono: "x \<le> y \<Longrightarrow> round4 x \<le> round4 y"
  unfolding round4_def by (intro fl_mono divide_right_mono of_int_le_iff [THEN iffD2] rhe_mono) auto

lemma round4_0 [simp]: "round4 0 = 0"
  using rhe_of_int [of 0] by (simp add: round4_def)

lemma round4_1 [simp]: "round4 1 = 1"
  using rhe_of_int [of 10000] by (simp add: round4_def)

text \<open>On values of absolute value at most one, rounding twice is rounding once.\<close>

lemma round4_idem:
  assumes "\<bar>x\<bar> \<le> 1"
  shows "round4 (round4 x) = round4 x"
proof -
  define k where "k = rhe (x * 10000)"
  define y where "y = (of_int k / 10000 :: rat)"
  have ry: "round4 x = fl y" by (simp add: round4_def k_def y_def)
  have "rhe (x * 10000) \<le> rhe (of_int 10000)" "rhe (of_int (- 10000)) \<le> rhe (x * 10000)"
    using assms by (intro rhe_mono; simp add: abs_le_iff)+
  then have "k \<le> 10000" "- 10000 \<le> k"
    unfolding rhe_of_int k_def by simp_all
  then have y1: "\<bar>y\<bar> \<le> 1" by (auto simp: y_def abs_le_iff field_simps)
  have "pow2 (ulp_exp y) \<le> pow2 (-52) \<or> y = 0"
  proof (cases "y = 0")
    case False
    have "expo y \<le> expo 1" using False y1 by (intro expo_mono) auto
    also have "expo 1 = 0" by (rule expo_unique) (simp_all add: pow2_def)
    finally show ?thesis by (simp add: ulp_exp_def)
  qed simp
  then have "\<bar>fl y - y\<bar> \<le> pow2 (-52) / 2"
  proof
    assume "pow2 (ulp_exp y) \<le> pow2 (-52)"
    with fl_error [of y] show ?thesis by linarith
  qed (simp add: less_imp_le)
  then have "\<bar>(fl y - y) * 10000\<bar> \<le> pow2 (-52) / 2 * 10000"
    unfolding abs_mult by (intro mult_mono) (auto simp: less_imp_le)
  also have "\<dots> < 1/2" by (simp add: pow2_def)
  finally have "\<bar>fl y * 10000 - of_int k\<bar> < 1/2"
    by (simp add: y_def left_diff_distrib)
  then have "rhe (fl y * 10000) = k" by (rule rhe_eqI)
  then show ?thesis by (simp add: ry) (simp add: round4_def y_def)
qed

subsection \<open>Formatting: \<open>f"{x:.2f}"\<close> as hundredths\<close>

definition hundredths :: "float64 \<Rightarrow> int" where
  "hundredths x = rhe (x * 100)"

end
