(* ===== verification/Py_Json.thy ===== *)
theory Py_Json
  imports Py_Prelude
begin

section \<open>Canonical JSON: \<open>json.dumps(..., sort_keys=True, separators=(",", ":"))\<close>\<close>

text \<open>
  Every identity of the control plane (request ids, execution ids, grant signatures,
  iteration ids) is a digest of a canonical JSON text.  This theory models the encoder on
  the values the code feeds it (\<open>None\<close>, booleans, integers, strings, lists and
  dictionaries with string keys) and proves what the digests rely on: the text determines
  the value, up to the order of dictionary keys.

  The proof is by unique decomposition: an encoded value followed by a delimiter can be
  read in one way only (\<open>dumps_prefix\<close>).
\<close>

datatype json =
    JNull
  | JBool bool
  | JInt int
  | JStr str
  | JArr "json list"
  | JObj "(str \<times> json) list"

subsection \<open>Strings\<close>

definition hex_digit :: "nat \<Rightarrow> char" where
  "hex_digit d = (if d < 10 then char_of (48 + d) else char_of (87 + d))"

text \<open>
  \<open>ESCAPE_DCT\<close> of \<open>json.encoder\<close>.  With \<open>ensure_ascii=True\<close> everything outside the
  printable ASCII range is written as a \<open>\u00xx\<close> sequence, without it only the control
  characters below 32.
\<close>

definition esc_char :: "bool \<Rightarrow> char \<Rightarrow> str" where
  "esc_char ensure_ascii c =
     (if c = CHR 0x22 then [CHR 0x5C, CHR 0x22]
      else if c = CHR 0x5C then [CHR 0x5C, CHR 0x5C]
      else if c = CHR 0x0A then [CHR 0x5C, CHR ''n'']
      else if c = CHR 0x0D then [CHR 0x5C, CHR ''r'']
      else if c = CHR 0x09 then [CHR 0x5C, CHR ''t'']
      else if c = CHR 0x0C then [CHR 0x5C, CHR ''f'']
      else if c = CHR 0x08 then [CHR 0x5C, CHR ''b'']
      else (let n = (of_char c :: nat)
            in if n < 32 \<or> (ensure_ascii \<and> 126 < n)
               then [CHR 0x5C, CHR ''u'', CHR ''0'', CHR ''0'', hex_digit (n div 16), hex_digit (n mod 16)]
               else [c]))"

definition dumps_str :: "bool \<Rightarrow> str \<Rightarrow> str" where
  "dumps_str a s = CHR 0x22 # concat (map (esc_char a) s) @ [CHR 0x22]"

subsection \<open>Values\<close>

text \<open>
  \<open>dumps_raw\<close> prints the members of an object in the order they are given; \<open>canon\<close>
  sorts them by key at every level, which is what \<open>sort_keys=True\<close> does on the way.
\<close>

fun dumps_raw :: "bool \<Rightarrow> json \<Rightarrow> str" where
  "dumps_raw a JNull = ''null''"
| "dumps_raw a (JBool b) = (if b then ''true'' else ''false'')"
| "dumps_raw a (JInt i) = int_str i"
| "dumps_raw a (JStr s) = dumps_str a s"
| "dumps_raw a (JArr xs) = ''['' @ join '','' (map (dumps_raw a) xs) @ '']''"
| "dumps_raw a (JObj ms) =
     ''{'' @ join '','' (map (\<lambda>(k, v). dumps_str a k @ '':'' @ dumps_raw a v) ms) @ ''}''"

fun canon :: "json \<Rightarrow> json" where
  "canon (JArr xs) = JArr (map canon xs)"
| "canon (JObj ms) = JObj (sort_key fst (map (\<lambda>(k, v). (k, canon v)) ms))"
| "canon v = v"

definition dumps :: "bool \<Rightarrow> json \<Rightarrow> str" where
  "dumps ensure_ascii v = dumps_raw ensure_ascii (canon v)"

text \<open>\<open>str.encode("utf-8")\<close> on code points below 256.\<close>

definition utf8_char :: "char \<Rightarrow> str" where
  "utf8_char c =
     (let n = (of_char c :: nat)
      in if n < 128 then [c] else [char_of (192 + n div 64), char_of (128 + n mod 64)])"

definition utf8 :: "str \<Rightarrow> str" where
  "utf8 s = concat (map utf8_char s)"

subsection \<open>Equality\<close>

text \<open>
  \<open>==\<close> on values that have been through JSON: the order of keys does not matter, and a
  boolean equals the integer it converts to.
\<close>

fun py_num :: "json \<Rightarrow> json" where
  "py_num (JBool b) = JInt (if b then 1 else 0)"
| "py_num (JArr xs) = JArr (map py_num xs)"
| "py_num (JObj ms) = JObj (map (\<lambda>(k, v). (k, py_num v)) ms)"
| "py_num v = v"

subsection \<open>Optional and list fields\<close>

definition jopt :: "str option \<Rightarrow> json" where
  "jopt v = (case v of None \<Rightarrow> JNull | Some s \<Rightarrow> JStr s)"

definition jstrs :: "str list \<Rightarrow> json" where
  "jstrs xs = JArr (map JStr xs)"

text \<open>\<open>[list(item) for item in pairs]\<close>\<close>

definition jpairs :: "(str \<times> str) list \<Rightarrow> json" where
  "jpairs ps = JArr (map (\<lambda>(k, v). JArr [JStr k, JStr v]) ps)"

lemma jopt_inject [simp]: "jopt u = jopt v \<longleftrightarrow> u = v"
  by (auto simp: jopt_def split: option.splits)

lemma jstrs_inject [simp]: "jstrs xs = jstrs ys \<longleftrightarrow> xs = ys"
  by (simp add: jstrs_def inj_map_eq_map inj_def)

lemma jpairs_inject [simp]: "jpairs xs = jpairs ys \<longleftrightarrow> xs = ys"
proof -
  have "inj (\<lambda>(k, v). JArr [JStr k, JStr v])"
    by (auto simp: inj_def)
  then show ?thesis
    by (simp add: jpairs_def inj_map_eq_map)
qed

lemma canon_fields [simp]:
  "canon (jopt v) = jopt v"
  "canon (jstrs xs) = jstrs xs"
  "canon (jpairs ps) = jpairs ps"
  by (auto simp: jopt_def jstrs_def jpairs_def split: option.splits)

subsection \<open>Unique decomposition\<close>

lemma hex_digit_inject [simp]:
  "d < 16 \<Longrightarrow> e < 16 \<Longrightarrow> hex_digit d = hex_digit e \<longleftrightarrow> d = e"
  by (auto simp: hex_digit_def dest!: arg_cong [where f = "of_char :: char \<Rightarrow> nat"] split: if_splits)

lemma of_char_lt_256: "(of_char c :: nat) < 256"
  by (cases c) (simp add: of_char_def horner_sum_bound)

lemma hex_pair_inject:
  fixes c d :: char
  assumes "hex_digit (of_char c div 16) = hex_digit (of_char d div 16)"
    and "hex_digit (of_char c mod 16) = hex_digit (of_char d mod 16)"
  shows "c = d"
proof -
  have "(of_char c :: nat) div 16 < 16" "(of_char d :: nat) div 16 < 16"
    using of_char_lt_256 [of c] of_char_lt_256 [of d] by linarith+
  with assms have "(of_char c :: nat) div 16 = of_char d div 16"
    "(of_char c :: nat) mod 16 = of_char d mod 16"
    by simp_all
  then have "(of_char c :: nat) = of_char d"
    by (metis div_mult_mod_eq)
  then show ?thesis by simp
qed

lemma esc_char_prefix: "esc_char a c @ r = esc_char a d @ s \<Longrightarrow> c = d \<and> r = s"
  by (auto simp: esc_char_def Let_def dest: hex_pair_inject split: if_splits)

lemma esc_char_hd: "esc_char a c = x # xs \<Longrightarrow> x \<noteq> CHR 0x22"
  by (auto simp: esc_char_def Let_def split: if_splits)

lemma esc_char_nonempty: "esc_char a c \<noteq> []"
  by (simp add: esc_char_def Let_def)

lemma esc_not_quote: "esc_char a c @ r \<noteq> CHR 0x22 # s"
  using esc_char_nonempty [of a c] esc_char_hd [of a c] by (cases "esc_char a c") auto

lemma dumps_str_prefix:
  assumes "dumps_str a s @ r = dumps_str a t @ u"
  shows "s = t \<and> r = u"
proof -
  have "concat (map (esc_char a) s) @ CHR 0x22 # r = concat (map (esc_char a) t) @ CHR 0x22 # u"
    using assms by (simp add: dumps_str_def)
  then show ?thesis
  proof (induction s arbitrary: t)
    case Nil
    then show ?case
      by (cases t) (auto simp: esc_not_quote dest: sym)
  next
    case (Cons c s)
    show ?case
    proof (cases t)
      case Nil
      with Cons.prems show ?thesis by (simp add: esc_not_quote)
    next
      case (Cons d t')
      with Cons.prems Cons.IH [of t'] show ?thesis
        by (auto dest!: esc_char_prefix)
    qed
  qed
qed

text \<open>What may follow an encoded value inside a text.\<close>

definition delim :: "str \<Rightarrow> bool" where
  "delim r \<longleftrightarrow> (r = [] \<or> hd r = CHR '','' \<or> hd r = CHR '']'' \<or> hd r = CHR ''}'')"

lemma delim_simps [simp]:
  "delim []"
  "delim (CHR '','' # r)"
  "delim (CHR '']'' # r)"
  "delim (CHR ''}'' # r)"
  by (simp_all add: delim_def)

lemma delim_not_digit: "delim r \<Longrightarrow> r = [] \<or> \<not> is_digit (hd r)"
  by (auto simp: delim_def is_digit_def)

lemma int_str_prefix:
  assumes "int_str i @ r = int_str j @ s" "delim r" "delim s"
  shows "i = j \<and> r = s"
proof -
  have nd: "nat_str m @ u \<noteq> CHR ''-'' # v" for m u v
    using hd_nat_str_digit [of m] by (cases "nat_str m") auto
  have nn: "nat_str m @ r = nat_str n @ s \<Longrightarrow> m = n \<and> r = s" for m n
    using digits_append_inject [OF nat_str_digits nat_str_digits
        delim_not_digit [OF assms(2)] delim_not_digit [OF assms(3)]] nat_str_inject by metis
  from assms(1) show ?thesis
    by (auto simp: int_str_def nd nd [symmetric] dest!: nn split: if_splits)
qed

text \<open>
  \<open>uniq f x\<close>: a printed \<open>x\<close> followed by a delimiter cannot be the beginning of another
  printed value followed by a delimiter.
\<close>

definition uniq :: "('a \<Rightarrow> str) \<Rightarrow> 'a \<Rightarrow> bool" where
  "uniq f x \<longleftrightarrow> (\<forall>y r s. delim r \<longrightarrow> delim s \<longrightarrow> f x @ r = f y @ s \<longrightarrow> x = y \<and> r = s)"

lemma uniqD: "uniq f x \<Longrightarrow> f x @ r = f y @ s \<Longrightarrow> delim r \<Longrightarrow> delim s \<Longrightarrow> x = y \<and> r = s"
  by (auto simp: uniq_def)

text \<open>A comma separated sequence closed by a bracket is then read in one way only.\<close>

lemma join_uniq:
  assumes "\<forall>x\<in>set xs. uniq f x"
    and start: "\<And>x. f x \<noteq> [] \<and> hd (f x) \<noteq> c"
    and c: "c = CHR '']'' \<or> c = CHR ''}''"
    and "join '','' (map f xs) @ c # r = join '','' (map f ys) @ c # s"
  shows "xs = ys \<and> r = s"
  using assms(1,4)
proof (induction xs arbitrary: ys)
  case Nil
  then show ?case
    using start [of "hd ys"] by (cases ys; cases "f (hd ys)") (auto simp: join_Cons)
next
  case (Cons x xs)
  obtain y ys' where ys: "ys = y # ys'"
    using Cons.prems(2) start [of x] by (cases ys; cases "f x") (auto simp: join_Cons)
  let ?tl = "\<lambda>zs t. (if zs = [] then [] else '','' @ join '','' (map f zs)) @ c # t"
  have "f x @ ?tl xs r = f y @ ?tl ys' s"
    using Cons.prems(2) ys by (simp add: join_Cons)
  moreover have "delim (?tl xs r)" "delim (?tl ys' s)"
    using c by auto
  ultimately have xy: "x = y" and tl: "?tl xs r = ?tl ys' s"
    using uniqD [of f x "?tl xs r" y "?tl ys' s"] Cons.prems(1) by simp_all
  show ?case
  proof (cases "xs = [] \<or> ys' = []")
    case True
    with tl c have "xs = [] \<and> ys' = [] \<and> r = s" by (auto split: if_splits)
    with xy ys show ?thesis by simp
  next
    case False
    with tl have "join '','' (map f xs) @ c # r = join '','' (map f ys') @ c # s" by simp
    with Cons.IH [of ys'] Cons.prems(1) have "xs = ys' \<and> r = s" by simp
    with xy ys show ?thesis by simp
  qed
qed

lemma dumps_raw_hd:
  "dumps_raw a v \<noteq> [] \<and> hd (dumps_raw a v) \<notin> {CHR '']'', CHR ''}'', CHR '',''}"
proof (cases v)
  case (JInt i)
  have "is_digit (hd (int_str i)) \<or> hd (int_str i) = CHR ''-''"
    using hd_nat_str_digit by (simp add: int_str_def)
  with JInt show ?thesis by (auto simp: is_digit_def)
qed (auto simp: dumps_str_def)

text \<open>The first character decides the constructor.\<close>

lemma int_str_hd: "int_str i @ r = x # s \<Longrightarrow> is_digit x \<or> x = CHR ''-''"
  using hd_nat_str_digit [of "nat i"] hd_nat_str_digit [of "nat (- i)"]
  by (auto simp: int_str_def Cons_eq_append_conv append_eq_Cons_conv split: if_splits)

lemmas int_str_shape = int_str_hd int_str_hd [OF sym]

lemma dumps_raw_uniq: "uniq (dumps_raw a) v"
proof (induction v)
  case JNull
  show ?case unfolding uniq_def
  proof (intro allI impI)
    fix y r s assume *: "dumps_raw a JNull @ r = dumps_raw a y @ s"
    then show "JNull = y \<and> r = s"
      by (cases y) (auto simp: dumps_str_def is_digit_def dest!: int_str_shape split: if_splits)
  qed
next
  case (JBool b)
  show ?case unfolding uniq_def
  proof (intro allI impI)
    fix y r s assume *: "dumps_raw a (JBool b) @ r = dumps_raw a y @ s"
    then show "JBool b = y \<and> r = s"
      by (cases y; cases b) (auto simp: dumps_str_def is_digit_def dest!: int_str_shape split: if_splits)
  qed
next
  case (JInt i)
  show ?case unfolding uniq_def
  proof (intro allI impI)
    fix y r s assume d: "delim r" "delim s" and *: "dumps_raw a (JInt i) @ r = dumps_raw a y @ s"
    then show "JInt i = y \<and> r = s"
      by (cases y) (auto simp: dumps_str_def is_digit_def dest: int_str_prefix [OF _ d]
          dest!: int_str_shape split: if_splits)
  qed
next
  case (JStr t)
  show ?case unfolding uniq_def
  proof (intro allI impI)
    fix y r s assume *: "dumps_raw a (JStr t) @ r = dumps_raw a y @ s"
    show "JStr t = y \<and> r = s"
    proof (cases y)
      case (JStr u)
      with * dumps_str_prefix [of a t r u s] show ?thesis by simp
    qed (use * in \<open>auto simp: dumps_str_def is_digit_def dest!: int_str_shape split: if_splits\<close>)
  qed
next
  case (JArr xs)
  show ?case unfolding uniq_def
  proof (intro allI impI)
    fix y r s assume *: "dumps_raw a (JArr xs) @ r = dumps_raw a y @ s"
    show "JArr xs = y \<and> r = s"
    proof (cases y)
      case (JArr ys)
      with * have "join '','' (map (dumps_raw a) xs) @ CHR '']'' # r
          = join '','' (map (dumps_raw a) ys) @ CHR '']'' # s"
        by simp
      with JArr.IH dumps_raw_hd [of a] JArr show ?thesis
        using join_uniq [of xs "dumps_raw a" "CHR '']''" r ys s] by auto
    qed (use * in \<open>auto simp: dumps_str_def is_digit_def dest!: int_str_shape split: if_splits\<close>)
  qed
next
  case (JObj ms)
  let ?m = "\<lambda>(k, v). dumps_str a k @ '':'' @ dumps_raw a v"
  have mem: "uniq ?m kv" if "kv \<in> set ms" for kv
  proof -
    obtain k v where kv: "kv = (k, v)" by fastforce
    with that JObj.IH have "uniq (dumps_raw a) v" by fastforce
    then show ?thesis
      unfolding uniq_def kv
      by (auto dest!: dumps_str_prefix simp del: append.append_Nil simp: uniq_def)
  qed
  show ?case unfolding uniq_def
  proof (intro allI impI)
    fix y r s assume *: "dumps_raw a (JObj ms) @ r = dumps_raw a y @ s"
    show "JObj ms = y \<and> r = s"
    proof (cases y)
      case (JObj ns)
      with * have "join '','' (map ?m ms) @ CHR ''}'' # r = join '','' (map ?m ns) @ CHR ''}'' # s"
        by simp
      moreover have "?m x \<noteq> [] \<and> hd (?m x) \<noteq> CHR ''}''" for x
        by (cases x) (simp add: dumps_str_def)
      ultimately show ?thesis
        using join_uniq [of ms ?m "CHR ''}''" r ns s] mem JObj by simp
    qed (use * in \<open>auto simp: dumps_str_def is_digit_def dest!: int_str_shape split: if_splits\<close>)
  qed
qed

lemma dumps_inject: "dumps a v = dumps a w \<longleftrightarrow> canon v = canon w"
  using uniqD [OF dumps_raw_uniq, of a "canon v" "[]" "canon w" "[]"]
  by (auto simp: dumps_def)

text \<open>Two objects with the same keys have the same text only if they agree on every key.\<close>

lemma set_canon_JObj: "canon (JObj ms) = canon (JObj ns) \<Longrightarrow>
    set (map (\<lambda>(k, v). (k, canon v)) ms) = set (map (\<lambda>(k, v). (k, canon v)) ns)"
  by (drule arg_cong [where f = "\<lambda>v. case v of JObj ps \<Rightarrow> set ps | _ \<Rightarrow> {}"]) (simp only: canon.simps json.case set_sort)

lemma same_keys_eq:
  assumes "map fst xs = map fst ys" "distinct (map fst xs)" "set xs = set ys"
  shows "xs = ys"
proof (rule nth_equalityI)
  show "length xs = length ys" using assms(1) by (rule map_eq_imp_length_eq)
next
  fix i assume i: "i < length xs"
  then have k: "fst (xs ! i) = fst (ys ! i)" "ys ! i \<in> set xs"
    using assms(1,3) by (metis length_map nth_map, metis assms(1) length_map nth_mem)
  with i assms(2) show "xs ! i = ys ! i"
    by (metis eq_key_imp_eq_value nth_mem prod.collapse)
qed

lemma canon_JObj_inject:
  assumes "map fst ms = map fst ns" "distinct (map fst ms)"
  shows "canon (JObj ms) = canon (JObj ns) \<longleftrightarrow> map (canon \<circ> snd) ms = map (canon \<circ> snd) ns"
proof
  assume "canon (JObj ms) = canon (JObj ns)"
  from set_canon_JObj [OF this] assms
  have "map (\<lambda>(k, v). (k, canon v)) ms = map (\<lambda>(k, v). (k, canon v)) ns"
    by (intro same_keys_eq) (simp_all add: case_prod_beta comp_def)
  from arg_cong [where f = "map snd", OF this] show "map (canon \<circ> snd) ms = map (canon \<circ> snd) ns"
    by (simp add: case_prod_beta comp_def)
next
  assume eq: "map (canon \<circ> snd) ms = map (canon \<circ> snd) ns"
  have z: "map (\<lambda>(k, v). (k, canon v)) xs = zip (map fst xs) (map (canon \<circ> snd) xs)" for xs
    by (induction xs) auto
  show "canon (JObj ms) = canon (JObj ns)"
    unfolding canon.simps z eq assms(1) ..
qed

subsection \<open>UTF-8\<close>

lemma of_char_char_of_small: "n < 256 \<Longrightarrow> (of_char (char_of n :: char) :: nat) = n"
  by simp

lemma utf8_char_prefix:
  assumes "utf8_char c @ r = utf8_char d @ s"
  shows "c = d \<and> r = s"
proof -
  define m n :: nat where "m = of_char c" and "n = of_char d"
  have b: "m < 256" "n < 256"
    by (simp_all add: m_def n_def of_char_lt_256)
  have code: "(of_char (char_of (192 + k div 64) :: char) :: nat) = 192 + k div 64"
    "(of_char (char_of (128 + k mod 64) :: char) :: nat) = 128 + k mod 64" if "k < 256" for k :: nat
    using that by (auto intro!: of_char_char_of_small)
  have "m = n \<and> r = s"
  proof (cases "m < 128"; cases "n < 128")
    assume "\<not> m < 128" "\<not> n < 128"
    with assms have "char_of (192 + m div 64) = (char_of (192 + n div 64) :: char)"
      "char_of (128 + m mod 64) = (char_of (128 + n mod 64) :: char)" "r = s"
      by (simp_all add: utf8_char_def Let_def m_def n_def)
    then show ?thesis
      by (metis code b add_left_cancel div_mult_mod_eq)
  next
    assume "m < 128" "\<not> n < 128"
    with assms have "c = char_of (192 + n div 64)"
      by (simp add: utf8_char_def Let_def m_def n_def)
    with code(1) [OF b(2)] \<open>m < 128\<close> show ?thesis by (simp add: m_def)
  next
    assume "\<not> m < 128" "n < 128"
    with assms have "d = char_of (192 + m div 64)"
      by (simp add: utf8_char_def Let_def m_def n_def)
    with code(1) [OF b(1)] \<open>n < 128\<close> show ?thesis by (simp add: n_def)
  qed (use assms in \<open>simp add: utf8_char_def Let_def m_def n_def\<close>)
  then show ?thesis by (simp add: m_def n_def)
qed

lemma utf8_char_nonempty [simp]: "utf8_char c \<noteq> []"
  by (simp add: utf8_char_def Let_def)

lemma utf8_inject [simp]: "utf8 s = utf8 t \<longleftrightarrow> s = t"
proof
  show "utf8 s = utf8 t \<Longrightarrow> s = t"
  proof (induction s arbitrary: t)
    case Nil
    then show ?case by (cases t) (auto simp: utf8_def)
  next
    case (Cons c s)
    then show ?case
      by (cases t) (auto simp: utf8_def dest: utf8_char_prefix)
  qed
qed simp

end
