(* ===== verification/Epistemics.thy ===== *)
theory Epistemics
  imports Py_Prelude Py_Float Py_Json
begin

section \<open>Belief revision (\<open>phase4/epistemics\<close>)\<close>

text \<open>
  Hypotheses, evidence and the \<open>BeliefRevisionEngine\<close>.  Floats are doubles rounded by
  \<^const>\<open>fl\<close>; the clock (\<open>datetime.now\<close>) is the argument \<open>now\<close>, in microseconds.
  The lemmas show that confidence stays a probability on the four-decimal grid, that
  evidence moves it in its own direction, and how the status follows from it.
\<close>

type_synonym time = int   \<comment> \<open>an aware datetime, microseconds since the epoch in UTC\<close>

datatype hypothesis_status = PROPOSED | ACTIVE | TESTING | SUPPORTED | WEAKENED | REJECTED | SUPERSEDED

datatype evidence_type = SUPPORTING | CONTRADICTING | OBSERVATION

record evidence =
  evidence_id :: str
  ev_hypothesis_id :: str
  ev_type :: evidence_type
  ev_weight :: float64
  ev_source :: str
  ev_description :: str
  ev_metadata :: "(str \<times> json) list"
  ev_timestamp :: time

text \<open>The field constraint \<open>weight: float = Field(ge=0.0, le=1.0)\<close>.\<close>

definition evidence_ok :: "evidence \<Rightarrow> bool" where
  "evidence_ok e \<longleftrightarrow> 0 \<le> ev_weight e \<and> ev_weight e \<le> 1"

record hypothesis =
  hypothesis_id :: str
  hyp_task_id :: str
  hyp_statement :: str
  hyp_status :: hypothesis_status
  confidence :: float64
  supporting_evidence :: "evidence list"
  contradicting_evidence :: "evidence list"
  alternatives :: "str list"
  hyp_created_at :: time
  hyp_updated_at :: time

record belief_engine =
  supported_threshold :: float64
  weakened_threshold :: float64
  rejected_threshold :: float64
  learning_rate :: float64

definition default_belief_engine :: belief_engine where
  "default_belief_engine =
     \<lparr>supported_threshold = fl (4/5), weakened_threshold = fl (2/5),
      rejected_threshold = fl (3/20), learning_rate = 1\<rparr>"

subsection \<open>Operations\<close>

definition update_confidence :: "hypothesis \<Rightarrow> float64 \<Rightarrow> hypothesis" where
  "update_confidence h delta =
     h\<lparr>confidence := max 0 (min 1 (round4 (fl (confidence h + delta))))\<rparr>"

definition revise_status :: "belief_engine \<Rightarrow> hypothesis \<Rightarrow> hypothesis" where
  "revise_status eng h =
     (if hyp_status h = SUPERSEDED then h
      else if confidence h \<le> rejected_threshold eng then h\<lparr>hyp_status := REJECTED\<rparr>
      else if confidence h < weakened_threshold eng then h\<lparr>hyp_status := WEAKENED\<rparr>
      else if supported_threshold eng \<le> confidence h then h\<lparr>hyp_status := SUPPORTED\<rparr>
      else if hyp_status h = PROPOSED \<or> hyp_status h = SUPPORTED \<or> hyp_status h = WEAKENED
           then h\<lparr>hyp_status := ACTIVE\<rparr>
      else h)"

definition incorporate_evidence :: "belief_engine \<Rightarrow> time \<Rightarrow> hypothesis \<Rightarrow> evidence \<Rightarrow> hypothesis" where
  "incorporate_evidence eng now h ev =
     (let ev = (if ev_hypothesis_id ev \<noteq> hypothesis_id h
                then ev\<lparr>ev_hypothesis_id := hypothesis_id h\<rparr> else ev);
          h1 = (case ev_type ev of
                  SUPPORTING \<Rightarrow>
                    update_confidence (h\<lparr>supporting_evidence := supporting_evidence h @ [ev]\<rparr>)
                      (fl (ev_weight ev * learning_rate eng))
                | CONTRADICTING \<Rightarrow>
                    update_confidence (h\<lparr>contradicting_evidence := contradicting_evidence h @ [ev]\<rparr>)
                      (fl (- ev_weight ev * learning_rate eng))
                | OBSERVATION \<Rightarrow> h)
      in (revise_status eng h1)\<lparr>hyp_updated_at := now\<rparr>)"

definition add_alternative :: "time \<Rightarrow> hypothesis \<Rightarrow> str \<Rightarrow> bool \<Rightarrow> hypothesis" where
  "add_alternative now h alt supersede =
     (let h1 = (if alt \<notin> set (alternatives h) then h\<lparr>alternatives := alternatives h @ [alt]\<rparr> else h);
          h2 = (if supersede then h1\<lparr>hyp_status := SUPERSEDED\<rparr> else h1)
      in h2\<lparr>hyp_updated_at := now\<rparr>)"

text \<open>\<open>batch_revise\<close>: each incorporation reads the clock, so the items carry their instants.\<close>

definition batch_revise :: "belief_engine \<Rightarrow> hypothesis \<Rightarrow> (time \<times> evidence) list \<Rightarrow> hypothesis" where
  "batch_revise eng h evs = foldl (\<lambda>h (now, ev). incorporate_evidence eng now h ev) h evs"

subsection \<open>Frame lemmas\<close>

lemma update_confidence_simps [simp]:
  "hypothesis_id (update_confidence h d) = hypothesis_id h"
  "hyp_status (update_confidence h d) = hyp_status h"
  "supporting_evidence (update_confidence h d) = supporting_evidence h"
  "contradicting_evidence (update_confidence h d) = contradicting_evidence h"
  by (simp_all add: update_confidence_def)

lemma revise_status_simps [simp]:
  "hypothesis_id (revise_status eng h) = hypothesis_id h"
  "confidence (revise_status eng h) = confidence h"
  "supporting_evidence (revise_status eng h) = supporting_evidence h"
  "contradicting_evidence (revise_status eng h) = contradicting_evidence h"
  by (simp_all add: revise_status_def)

lemma incorporate_hypothesis_id [simp]:
  "hypothesis_id (incorporate_evidence eng now h ev) = hypothesis_id h"
  by (simp add: incorporate_evidence_def Let_def split: evidence_type.split)

lemma incorporate_confidence:
  "confidence (incorporate_evidence eng now h ev) =
     (case ev_type ev of
        SUPPORTING \<Rightarrow> max 0 (min 1 (round4 (fl (confidence h + fl (ev_weight ev * learning_rate eng)))))
      | CONTRADICTING \<Rightarrow> max 0 (min 1 (round4 (fl (confidence h + fl (- ev_weight ev * learning_rate eng)))))
      | OBSERVATION \<Rightarrow> confidence h)"
  by (simp add: incorporate_evidence_def Let_def update_confidence_def split: evidence_type.split)

lemma incorporate_status:
  "hyp_status (incorporate_evidence eng now h ev) =
     hyp_status (revise_status eng (h\<lparr>confidence := confidence (incorporate_evidence eng now h ev)\<rparr>))"
proof -
  have eq: "hyp_status (revise_status eng h1) = hyp_status (revise_status eng h2)"
    if "hyp_status h1 = hyp_status h2" "confidence h1 = confidence h2" for h1 h2
    using that by (simp add: revise_status_def)
  show ?thesis
    by (cases "ev_type ev") (auto simp: incorporate_evidence_def Let_def intro!: eq)
qed

subsection \<open>Confidence\<close>

text \<open>
  The invariant the engine keeps: confidence is a probability on the grid of
  \<open>round(_, 4)\<close>.  The default confidence \<open>0.5\<close> is on the grid.
\<close>

definition conf_ok :: "hypothesis \<Rightarrow> bool" where
  "conf_ok h \<longleftrightarrow> 0 \<le> confidence h \<and> confidence h \<le> 1 \<and> round4 (confidence h) = confidence h"

lemma clamp_on_grid:
  assumes "x = max 0 (min 1 (round4 y))"
  shows "0 \<le> x \<and> x \<le> 1 \<and> round4 x = x"
proof -
  define z where "z = max 0 (min 1 y)"
  have "round4 z = max 0 (min 1 (round4 y))"
    unfolding z_def
    using round4_mono [of 0 y] round4_mono [of y 1] round4_mono [of y 0] round4_mono [of 1 y]
    by (cases "y \<le> 0"; cases "1 \<le> y") (auto simp: max_def min_def)
  moreover have "round4 (round4 z) = round4 z"
    by (rule round4_idem) (auto simp: z_def)
  ultimately show ?thesis using assms by auto
qed

lemma incorporate_conf_ok [intro]: "conf_ok h \<Longrightarrow> conf_ok (incorporate_evidence eng now h ev)"
  unfolding conf_ok_def incorporate_confidence
  by (cases "ev_type ev") (simp_all only: evidence_type.case clamp_on_grid [OF refl] conf_ok_def)

lemma add_alternative_confidence [simp]: "confidence (add_alternative now h alt s) = confidence h"
  by (simp add: add_alternative_def Let_def)

lemma add_alternative_conf_ok [intro]: "conf_ok h \<Longrightarrow> conf_ok (add_alternative now h alt s)"
  by (simp add: conf_ok_def)

lemma batch_revise_conf_ok: "conf_ok h \<Longrightarrow> conf_ok (batch_revise eng h evs)"
  unfolding batch_revise_def by (induction evs arbitrary: h) auto

lemma on_grid_double:
  assumes "round4 x = x"
  shows "fl x = x"
proof (cases "x = 0")
  case False
  show ?thesis
    using assms by (metis fl_fl round4_def)
qed simp

text \<open>Evidence moves confidence in its own direction.\<close>

lemma shift_up:
  assumes "conf_ok h" "0 \<le> d"
  shows "confidence h \<le> max 0 (min 1 (round4 (fl (confidence h + d))))"
proof -
  have "confidence h = round4 (fl (confidence h))"
    using assms(1) by (simp add: conf_ok_def on_grid_double)
  also have "\<dots> \<le> round4 (fl (confidence h + d))"
    using assms(2) by (intro round4_mono fl_mono) simp
  finally show ?thesis
    using assms(1) by (auto simp: conf_ok_def)
qed

lemma shift_down:
  assumes "conf_ok h" "d \<le> 0"
  shows "max 0 (min 1 (round4 (fl (confidence h + d)))) \<le> confidence h"
proof -
  have "round4 (fl (confidence h + d)) \<le> round4 (fl (confidence h))"
    using assms(2) by (intro round4_mono fl_mono) simp
  also have "\<dots> = confidence h"
    using assms(1) by (simp add: conf_ok_def on_grid_double)
  finally show ?thesis
    using assms(1) by (auto simp: conf_ok_def)
qed

lemma fl_nonpos: "x \<le> 0 \<Longrightarrow> fl x \<le> 0"
  using fl_mono [of x 0] by simp

subsection \<open>Properties\<close>

text \<open>
  Property (invariant).  Whatever evidence is incorporated, in whatever order and with whatever
  weights and thresholds, the confidence stays a probability on the four-decimal grid, and
  the status of a hypothesis that is not superseded agrees with the thresholds.
\<close>

theorem batch_revise_sound:
  assumes "conf_ok h" "evs \<noteq> []" "hyp_status h \<noteq> SUPERSEDED"
    and "h' = batch_revise eng h evs"
  shows "conf_ok h'
    \<and> (confidence h' \<le> rejected_threshold eng \<longrightarrow> hyp_status h' = REJECTED)
    \<and> (rejected_threshold eng < confidence h' \<and> confidence h' < weakened_threshold eng \<longrightarrow> hyp_status h' = WEAKENED)
    \<and> (rejected_threshold eng < confidence h' \<and> weakened_threshold eng \<le> confidence h'
        \<and> supported_threshold eng \<le> confidence h' \<longrightarrow> hyp_status h' = SUPPORTED)"
proof -
  have st: "hyp_status (incorporate_evidence eng now g ev) \<noteq> SUPERSEDED
      \<and> (let g' = incorporate_evidence eng now g ev in
         (confidence g' \<le> rejected_threshold eng \<longrightarrow> hyp_status g' = REJECTED)
         \<and> (rejected_threshold eng < confidence g' \<and> confidence g' < weakened_threshold eng \<longrightarrow> hyp_status g' = WEAKENED)
         \<and> (rejected_threshold eng < confidence g' \<and> weakened_threshold eng \<le> confidence g'
             \<and> supported_threshold eng \<le> confidence g' \<longrightarrow> hyp_status g' = SUPPORTED))"
    if "hyp_status g \<noteq> SUPERSEDED" for g now ev
    using that unfolding Let_def incorporate_status by (simp add: revise_status_def)
  have ns: "hyp_status (batch_revise eng h es) \<noteq> SUPERSEDED" for es
    using assms(3) st unfolding batch_revise_def by (induction es arbitrary: h) (auto simp: Let_def)
  obtain es now ev where "evs = es @ [(now, ev)]" using assms(2) by (metis rev_exhaust surj_pair)
  then have "h' = incorporate_evidence eng now (batch_revise eng h es) ev"
    using assms(4) by (simp add: batch_revise_def)
  with st [OF ns, of now es ev] show ?thesis
    using incorporate_conf_ok [OF batch_revise_conf_ok [OF assms(1)]] by (simp add: Let_def)
qed

text \<open>
  Property (direction).  With admissible weights and a non-negative learning rate, supporting
  evidence never lowers the confidence, contradicting evidence never raises it, and an
  observation leaves it alone: rounding to doubles and to four decimals cannot turn it
  around.
\<close>

theorem evidence_moves_confidence:
  assumes "conf_ok h" "evidence_ok ev" "0 \<le> learning_rate eng"
  shows "case ev_type ev of
      SUPPORTING \<Rightarrow> confidence h \<le> confidence (incorporate_evidence eng now h ev)
    | CONTRADICTING \<Rightarrow> confidence (incorporate_evidence eng now h ev) \<le> confidence h
    | OBSERVATION \<Rightarrow> confidence (incorporate_evidence eng now h ev) = confidence h"
proof (cases "ev_type ev")
  case SUPPORTING
  have "0 \<le> fl (ev_weight ev * learning_rate eng)"
    using assms(2,3) by (intro fl_nonneg) (simp add: evidence_ok_def)
  from shift_up [OF assms(1) this] SUPPORTING show ?thesis by (simp add: incorporate_confidence)
next
  case CONTRADICTING
  have "fl (- ev_weight ev * learning_rate eng) \<le> 0"
    using assms(2,3) by (intro fl_nonpos) (simp add: evidence_ok_def)
  from shift_down [OF assms(1) this] CONTRADICTING show ?thesis by (simp add: incorporate_confidence)
qed (simp add: incorporate_confidence)

text \<open>
  Property (path dependence).  REJECTED is left only through another band: evidence that lifts
  a rejected hypothesis straight into the middle band leaves it REJECTED, although the same
  band is ACTIVE for a hypothesis that comes from WEAKENED.
\<close>

theorem rejected_sticks_in_middle_band:
  assumes "rejected_threshold eng < confidence (incorporate_evidence eng now h ev)"
    and "weakened_threshold eng \<le> confidence (incorporate_evidence eng now h ev)"
    and "confidence (incorporate_evidence eng now h ev) < supported_threshold eng"
  shows "(hyp_status h = REJECTED \<longrightarrow> hyp_status (incorporate_evidence eng now h ev) = REJECTED)
    \<and> (hyp_status h = WEAKENED \<longrightarrow> hyp_status (incorporate_evidence eng now h ev) = ACTIVE)"
  using assms by (subst (1 2) incorporate_status) (simp add: revise_status_def)

subsection \<open>A concrete hypothesis\<close>

definition demo_belief :: "hypothesis_status \<Rightarrow> float64 \<Rightarrow> hypothesis" where
  "demo_belief st c =
     \<lparr>hypothesis_id = ''h'', hyp_task_id = ''t'', hyp_statement = ''s'', hyp_status = st, confidence = c,
      supporting_evidence = [], contradicting_evidence = [], alternatives = [], hyp_created_at = 0, hyp_updated_at = 0\<rparr>"

definition demo_evidence :: "evidence_type \<Rightarrow> float64 \<Rightarrow> evidence" where
  "demo_evidence ty w =
     \<lparr>evidence_id = ''e'', ev_hypothesis_id = ''h'', ev_type = ty, ev_weight = w, ev_source = ''ci'',
      ev_description = ''d'', ev_metadata = [], ev_timestamp = 0\<rparr>"

lemma demo_conf_ok: "conf_ok (demo_belief st 0)" "conf_ok (demo_belief st 1)"
  by (simp_all add: conf_ok_def demo_belief_def)

theorem batch_revise_sound_witness:
  "conf_ok (batch_revise default_belief_engine (demo_belief PROPOSED 0) [(1, demo_evidence SUPPORTING (1/2))])"
  using batch_revise_sound [OF demo_conf_ok(1) [of PROPOSED] _ _ refl,
      where evs = "[(1, demo_evidence SUPPORTING (1/2))]" and eng = default_belief_engine]
  by (simp add: demo_belief_def)

theorem evidence_moves_confidence_witness:
  "confidence (incorporate_evidence default_belief_engine 1 (demo_belief ACTIVE 1) (demo_evidence CONTRADICTING (1/4))) \<le> 1"
  using evidence_moves_confidence [OF demo_conf_ok(2) [of ACTIVE], of "demo_evidence CONTRADICTING (1/4)" default_belief_engine 1]
  by (simp add: evidence_ok_def demo_evidence_def demo_belief_def default_belief_engine_def)

theorem rejected_sticks_in_middle_band_witness:
  "hyp_status (incorporate_evidence default_belief_engine 1 (demo_belief REJECTED 0) (demo_evidence SUPPORTING (1/2))) = REJECTED
   \<and> hyp_status (incorporate_evidence default_belief_engine 1 (demo_belief WEAKENED 0) (demo_evidence SUPPORTING (1/2))) = ACTIVE"
proof -
  let ?c = "\<lambda>st. confidence (incorporate_evidence default_belief_engine 1 (demo_belief st 0) (demo_evidence SUPPORTING (1/2)))"
  have "?c REJECTED = 1/2" "?c WEAKENED = 1/2"
    "rejected_threshold default_belief_engine < 1/2" "weakened_threshold default_belief_engine \<le> 1/2"
    "1/2 < supported_threshold default_belief_engine"
    by code_simp+
  then show ?thesis
    using rejected_sticks_in_middle_band [of default_belief_engine 1 "demo_belief REJECTED 0" "demo_evidence SUPPORTING (1/2)"]
      rejected_sticks_in_middle_band [of default_belief_engine 1 "demo_belief WEAKENED 0" "demo_evidence SUPPORTING (1/2)"]
    by (simp add: demo_belief_def)
qed

end
