(* ===== verification/Adaptation.thy ===== *)
theory Adaptation
  imports Py_Prelude Epistemics
begin

section \<open>Runtime adaptation (\<open>phase4/adaptation\<close>: models, classifier, anti-tube trigger)\<close>

text \<open>
  Execution failures, their classification and the \<open>AntiTubeTrigger\<close> that turns repeated
  identical failures of one strategy into a pivot request.  The classifier's regular
  expressions are alternations of literal texts searched case-insensitively, so a pattern
  is the list of its literals and a search is a substring test on the lower-cased text.
  Strategy fingerprints enter with their digest already computed; \<open>failure_id\<close>,
  \<open>stack_trace\<close> and the other free fields are carried unread where the code does not
  read them.
\<close>

datatype risk_level = RLOW | RMEDIUM | RHIGH | RCRITICAL

fun risk_value :: "risk_level \<Rightarrow> str" where
  "risk_value RLOW = ''LOW''"
| "risk_value RMEDIUM = ''MEDIUM''"
| "risk_value RHIGH = ''HIGH''"
| "risk_value RCRITICAL = ''CRITICAL''"

datatype failure_category = SAME_FAILURE | REGRESSION | ENVIRONMENT_FAILURE | POLICY_DENIAL | UNKNOWN

datatype adaptation_action = RETRY | PIVOT_REQUEST | HALT_ENVIRONMENT | POLICY_ESCALATION

record execution_failure =
  failure_id :: str
  ef_task_id :: str
  error_type :: str
  error_message :: str
  stack_trace :: "str option"
  exit_code :: "int option"
  failed_tests :: "str list"
  newly_failed_tests :: "str list"
  ef_timestamp :: time

record strategy_fingerprint =
  fingerprint_id :: str
  sf_hypothesis_id :: str
  affected_files :: "str list"
  change_pattern :: str
  summary_hash :: str

record adaptation_result =
  ar_action :: adaptation_action
  ar_category :: failure_category
  ar_fingerprint_hash :: str
  ar_hypothesis_id :: str
  consecutive_same_failures :: int
  ar_reason :: str
  pivot_required :: bool
  ar_timestamp :: time

subsection \<open>Classification\<close>

fun is_prefix :: "str \<Rightarrow> str \<Rightarrow> bool" where
  "is_prefix [] s = True"
| "is_prefix (p # ps) [] = False"
| "is_prefix (p # ps) (c # cs) = (p = c \<and> is_prefix ps cs)"

fun contains :: "str \<Rightarrow> str \<Rightarrow> bool" where
  "contains p [] = (p = [])"
| "contains p (c # cs) = (is_prefix p (c # cs) \<or> contains p cs)"

text \<open>\<open>re.compile("a|b|c", re.I).search(text)\<close> for literal alternatives.\<close>

definition search_any :: "str list \<Rightarrow> str \<Rightarrow> bool" where
  "search_any lits text = (\<exists>l\<in>set lits. contains l (map lower_char text))"

definition ENV_PATTERNS :: "str list list" where
  "ENV_PATTERNS =
     [[''connection refused''],
      [''out of memory'', ''oomkilled''],
      [''no space left on device'', ''disk full''],
      [''network unreachable'', ''host is unreachable'', ''etimedout''],
      [''database connection failed'', ''psycopg2.operationalerror''],
      [''docker daemon'', ''container killed'']]"

definition POLICY_PATTERNS :: "str list list" where
  "POLICY_PATTERNS =
     [[''permission denied''],
      [''unauthorized'', ''forbidden'', ''401'', ''403''],
      [''policy violation'', ''security policy denied''],
      [''sandboxed syscall restricted'']]"

definition is_same_failure :: "execution_failure \<Rightarrow> execution_failure \<Rightarrow> bool" where
  "is_same_failure cur prev =
     (if strip (error_type cur) = strip (error_type prev) \<and> strip (error_type cur) \<noteq> []
         \<and> ((failed_tests cur \<noteq> [] \<and> failed_tests prev \<noteq> []
              \<and> set (failed_tests cur) = set (failed_tests prev))
            \<or> (strip (error_message cur) = strip (error_message prev)
              \<and> strip (error_message cur) \<noteq> []))
      then True
      else failed_tests cur \<noteq> [] \<and> failed_tests prev \<noteq> []
           \<and> set (failed_tests cur) = set (failed_tests prev))"

definition failure_text :: "execution_failure \<Rightarrow> str" where
  "failure_text f = error_type f @ '' '' @ error_message f @ '' ''
     @ (case stack_trace f of None \<Rightarrow> [] | Some t \<Rightarrow> t)"

definition classify :: "execution_failure \<Rightarrow> execution_failure option \<Rightarrow> failure_category" where
  "classify cur prev =
     (if \<exists>p\<in>set POLICY_PATTERNS. search_any p (failure_text cur) then POLICY_DENIAL
      else if \<exists>p\<in>set ENV_PATTERNS. search_any p (failure_text cur) then ENVIRONMENT_FAILURE
      else if newly_failed_tests cur \<noteq> [] then REGRESSION
      else case prev of
             None \<Rightarrow> UNKNOWN
           | Some pf \<Rightarrow> if is_same_failure cur pf then SAME_FAILURE else UNKNOWN)"

subsection \<open>The anti-tube trigger\<close>

record anti_tube =
  same_failure_threshold :: int
  failure_history :: "(str, execution_failure list) dict"
  consecutive_same :: "(str, int) dict"

definition new_anti_tube :: "int \<Rightarrow> anti_tube" where
  "new_anti_tube t = \<lparr>same_failure_threshold = t, failure_history = [], consecutive_same = []\<rparr>"

definition history_of :: "anti_tube \<Rightarrow> str \<Rightarrow> execution_failure list" where
  "history_of a h = (case dict_get (failure_history a) h of None \<Rightarrow> [] | Some fs \<Rightarrow> fs)"

definition evaluate_failure ::
  "time \<Rightarrow> anti_tube \<Rightarrow> strategy_fingerprint \<Rightarrow> execution_failure \<Rightarrow> adaptation_result \<times> anti_tube" where
  "evaluate_failure now a fp f =
     (let h = summary_hash fp;
          hist = history_of a h;
          prev = (if hist = [] then None else Some (last hist));
          cat = classify f prev;
          count = (if cat = SAME_FAILURE
                   then (case dict_get (consecutive_same a) h of None \<Rightarrow> 1 | Some n \<Rightarrow> n) + 1
                   else 1);
          a' = a\<lparr>failure_history := dict_set h (hist @ [f]) (failure_history a),
                 consecutive_same := dict_set h count (consecutive_same a)\<rparr>;
          mk = (\<lambda>act why piv.
             \<lparr>ar_action = act, ar_category = cat, ar_fingerprint_hash = h,
              ar_hypothesis_id = sf_hypothesis_id fp, consecutive_same_failures = count,
              ar_reason = why, pivot_required = piv, ar_timestamp = now\<rparr>)
      in (if cat = ENVIRONMENT_FAILURE
          then mk HALT_ENVIRONMENT ''Infrastructure/environment error encountered. Halt for remediation.'' False
          else if cat = POLICY_DENIAL
          then mk POLICY_ESCALATION ''Security policy denial encountered. Escalation required.'' False
          else if same_failure_threshold a \<le> count
          then mk PIVOT_REQUEST
                 (''Repeated identical failure ('' @ int_str count @ ''x) on strategy '' @ [CHR 0x27]
                   @ change_pattern fp @ [CHR 0x27]
                   @ ''. Anti-tube triggered; forcing Council hypothesis pivot.'') True
          else mk RETRY ''Standard retry permitted under current strategy.'' False,
          a'))"

definition get_failure_count_for_fingerprint :: "anti_tube \<Rightarrow> str \<Rightarrow> int" where
  "get_failure_count_for_fingerprint a h = int (length (history_of a h))"

definition reset_for_fingerprint :: "str \<Rightarrow> anti_tube \<Rightarrow> anti_tube" where
  "reset_for_fingerprint h a =
     a\<lparr>consecutive_same := AList.delete h (consecutive_same a),
       failure_history := AList.delete h (failure_history a)\<rparr>"

subsection \<open>Lemmas\<close>

lemma is_same_failure_refl:
  "strip (error_type f) \<noteq> [] \<and> strip (error_message f) \<noteq> [] \<or> failed_tests f \<noteq> []
     \<Longrightarrow> is_same_failure f f"
  by (auto simp: is_same_failure_def)

lemma is_same_failure_sym: "is_same_failure f g \<Longrightarrow> is_same_failure g f"
  by (auto simp: is_same_failure_def split: if_splits)

lemma evaluate_failure_state:
  assumes "evaluate_failure now a fp f = (r, a')"
  shows "same_failure_threshold a' = same_failure_threshold a"
    and "history_of a' (summary_hash fp) = history_of a (summary_hash fp) @ [f]"
    and "dict_get (consecutive_same a') (summary_hash fp) = Some (consecutive_same_failures r)"
    and "\<And>h. h \<noteq> summary_hash fp \<Longrightarrow> history_of a' h = history_of a h
           \<and> dict_get (consecutive_same a') h = dict_get (consecutive_same a) h"
  using assms by (auto simp: evaluate_failure_def Let_def history_of_def split: if_splits)

text \<open>The action of a result as a function of category, count and threshold.\<close>

definition action_for :: "failure_category \<Rightarrow> int \<Rightarrow> int \<Rightarrow> adaptation_action" where
  "action_for cat n threshold =
     (case cat of ENVIRONMENT_FAILURE \<Rightarrow> HALT_ENVIRONMENT | POLICY_DENIAL \<Rightarrow> POLICY_ESCALATION
      | _ \<Rightarrow> if threshold \<le> n then PIVOT_REQUEST else RETRY)"

lemma evaluate_failure_result:
  assumes "evaluate_failure now a fp f = (r, a')"
  shows "ar_action r = action_for (ar_category r) (consecutive_same_failures r) (same_failure_threshold a)"
    and "pivot_required r \<longleftrightarrow> ar_action r = PIVOT_REQUEST"
    and "ar_category r = classify f (if history_of a (summary_hash fp) = [] then None
           else Some (last (history_of a (summary_hash fp))))"
    and "consecutive_same_failures r = (if ar_category r = SAME_FAILURE
           then (case dict_get (consecutive_same a) (summary_hash fp) of None \<Rightarrow> 1 | Some n \<Rightarrow> n) + 1 else 1)"
proof -
  show "ar_category r = classify f (if history_of a (summary_hash fp) = [] then None
           else Some (last (history_of a (summary_hash fp))))"
    using assms by (auto simp: evaluate_failure_def Let_def split: if_splits)
  then show "ar_action r = action_for (ar_category r) (consecutive_same_failures r) (same_failure_threshold a)"
    "pivot_required r \<longleftrightarrow> ar_action r = PIVOT_REQUEST"
    "consecutive_same_failures r = (if ar_category r = SAME_FAILURE
           then (case dict_get (consecutive_same a) (summary_hash fp) of None \<Rightarrow> 1 | Some n \<Rightarrow> n) + 1 else 1)"
    using assms by (auto simp: evaluate_failure_def Let_def action_for_def
        split: failure_category.splits if_splits)
qed

text \<open>Evaluating a sequence of failures of one strategy, keeping the results.\<close>

fun evaluate_all ::
  "time \<Rightarrow> anti_tube \<Rightarrow> strategy_fingerprint \<Rightarrow> execution_failure list \<Rightarrow> adaptation_result list \<times> anti_tube" where
  "evaluate_all now a fp [] = ([], a)"
| "evaluate_all now a fp (f # fs) =
     (let (r, a1) = evaluate_failure now a fp f; (rs, a2) = evaluate_all now a1 fp fs in (r # rs, a2))"

text \<open>A failure the classifier calls neither a policy denial, nor an environment failure, nor a regression.\<close>

definition plain_failure :: "execution_failure \<Rightarrow> bool" where
  "plain_failure f \<longleftrightarrow> classify f None = UNKNOWN"

lemma classify_plain:
  "plain_failure f \<Longrightarrow> classify f prev = (case prev of None \<Rightarrow> UNKNOWN
     | Some g \<Rightarrow> if is_same_failure f g then SAME_FAILURE else UNKNOWN)"
  unfolding plain_failure_def classify_def
  by (simp only: option.case split: if_splits) (simp_all split: option.split)

lemma evaluate_repeated:
  assumes "plain_failure f" "is_same_failure f f"
    and "history_of a (summary_hash fp) \<noteq> []" "last (history_of a (summary_hash fp)) = f"
    and "dict_get (consecutive_same a) (summary_hash fp) = Some c"
    and "evaluate_all now a fp (replicate n f) = (rs, a')"
  shows "map consecutive_same_failures rs = map (\<lambda>k. c + int k) [1..<Suc n]
    \<and> (\<forall>r\<in>set rs. ar_category r = SAME_FAILURE
        \<and> ar_action r = (if same_failure_threshold a \<le> consecutive_same_failures r then PIVOT_REQUEST else RETRY))"
  using assms(3-6)
proof (induction n arbitrary: a c rs)
  case (Suc n)
  obtain r a1 rs1 where r: "evaluate_failure now a fp f = (r, a1)"
    and rs1: "evaluate_all now a1 fp (replicate n f) = (rs1, a')" "rs = r # rs1"
    using Suc.prems(4) by (auto split: prod.splits)
  have cat: "ar_category r = SAME_FAILURE" "consecutive_same_failures r = c + 1"
    using evaluate_failure_result(3,4) [OF r] classify_plain [OF assms(1)] assms(2) Suc.prems by auto
  have "map consecutive_same_failures rs1 = map (\<lambda>k. (c + 1) + int k) [1..<Suc n]
    \<and> (\<forall>r\<in>set rs1. ar_category r = SAME_FAILURE
        \<and> ar_action r = (if same_failure_threshold a1 \<le> consecutive_same_failures r then PIVOT_REQUEST else RETRY))"
    using evaluate_failure_state(2,3) [OF r] cat by (intro Suc.IH rs1(1)) auto
  moreover have "map (\<lambda>k. (c + 1) + int k) [1..<Suc n] = map (\<lambda>k. c + int k) [2..<Suc (Suc n)]"
    by (simp add: map_Suc_upt [symmetric] comp_def numeral_2_eq_2 del: upt_Suc)
  ultimately show ?case
    using cat rs1(2) evaluate_failure_result(1) [OF r] evaluate_failure_state(1) [OF r]
    by (simp add: upt_conv_Cons action_for_def numeral_2_eq_2 del: upt_Suc)
qed simp

lemma map_counts:
  assumes "\<forall>r\<in>set rs. f r = g (h r)"
  shows "map (\<lambda>r. (h r, f r)) rs = map (\<lambda>c. (c, g c)) (map h rs)"
  using assms by simp

subsection \<open>What the trigger guarantees\<close>

text \<open>
  Property (liveness of the pivot).  On a strategy with no recorded failure, the \<open>n\<close>-th report
  of one and the same plain failure is answered with a retry below the threshold and with
  a pivot request from the threshold on, and the reported count is exactly \<open>n\<close>.
\<close>

theorem repeated_failure_forces_pivot:
  assumes "plain_failure f" and "is_same_failure f f"
    and "history_of a (summary_hash fp) = []"
    and "evaluate_all now a fp (replicate n f) = (rs, a')"
  shows "map (\<lambda>r. (consecutive_same_failures r, ar_action r)) rs
    = map (\<lambda>k. (int k, if same_failure_threshold a \<le> int k then PIVOT_REQUEST else RETRY)) [1..<Suc n]"
proof (cases n)
  case 0
  with assms(4) show ?thesis by simp
next
  case (Suc m)
  obtain r a1 rs1 where r: "evaluate_failure now a fp f = (r, a1)"
    and rs1: "evaluate_all now a1 fp (replicate m f) = (rs1, a')" "rs = r # rs1"
    using assms(4) Suc by (auto split: prod.splits)
  have cat: "ar_category r = UNKNOWN" "consecutive_same_failures r = 1"
    using evaluate_failure_result(3,4) [OF r] assms(1,3) by (auto simp: plain_failure_def)
  have "map consecutive_same_failures rs1 = map (\<lambda>k. 1 + int k) [1..<Suc m]
    \<and> (\<forall>r\<in>set rs1. ar_category r = SAME_FAILURE
        \<and> ar_action r = (if same_failure_threshold a1 \<le> consecutive_same_failures r then PIVOT_REQUEST else RETRY))"
    using evaluate_failure_state(2,3) [OF r] cat
    by (intro evaluate_repeated [OF assms(1,2) _ _ _ rs1(1)]) auto
  then have "map consecutive_same_failures rs1 = map (\<lambda>k. 1 + int k) [1..<Suc m]"
    and acts: "\<forall>r\<in>set rs1. ar_action r
      = (\<lambda>c. if same_failure_threshold a \<le> c then PIVOT_REQUEST else RETRY) (consecutive_same_failures r)"
    using evaluate_failure_state(1) [OF r] by auto
  with map_counts [where g = "\<lambda>c. if same_failure_threshold a \<le> c then PIVOT_REQUEST else RETRY"
      and h = consecutive_same_failures and f = ar_action and rs = rs1]
  have tl: "map (\<lambda>r. (consecutive_same_failures r, ar_action r)) rs1
    = map (\<lambda>c. (c, if same_failure_threshold a \<le> c then PIVOT_REQUEST else RETRY)) (map (\<lambda>k. 1 + int k) [1..<Suc m])"
    by simp
  have "map (\<lambda>k. 1 + int k) [1..<Suc m] = map int [2..<Suc n]"
    using Suc by (simp add: map_Suc_upt [symmetric] comp_def numeral_2_eq_2 del: upt_Suc)
  then have "map (\<lambda>r. (consecutive_same_failures r, ar_action r)) rs1
    = map (\<lambda>c. (c, if same_failure_threshold a \<le> c then PIVOT_REQUEST else RETRY)) (map int [2..<Suc n])"
    using tl by (rule subst)
  moreover have "[1..<Suc n] = 1 # [2..<Suc n]"
    using Suc by (simp add: upt_conv_Cons numeral_2_eq_2 del: upt_Suc)
  ultimately show ?thesis
    using cat evaluate_failure_result(1) [OF r] rs1(2)
    by (simp add: action_for_def comp_def del: upt_Suc)
qed

text \<open>
  Property (its limit).  Only consecutive repetitions are counted: when no failure is the same
  as the one right before it, every report is answered with a retry, however often each
  failure comes back.  Two failures that alternate are retried forever.
\<close>

theorem alternating_failures_retried:
  assumes "2 \<le> same_failure_threshold a"
    and "history_of a (summary_hash fp) = []
      \<or> (fs \<noteq> [] \<longrightarrow> \<not> is_same_failure (hd fs) (last (history_of a (summary_hash fp))))"
    and "\<forall>f\<in>set fs. plain_failure f"
    and "successively (\<lambda>f g. \<not> is_same_failure g f) fs"
    and "evaluate_all now a fp fs = (rs, a')"
  shows "length rs = length fs \<and> (\<forall>r\<in>set rs. ar_action r = RETRY \<and> consecutive_same_failures r = 1)"
  using assms
proof (induction fs arbitrary: a rs)
  case (Cons f fs)
  obtain r a1 rs1 where r: "evaluate_failure now a fp f = (r, a1)"
    and rs1: "evaluate_all now a1 fp fs = (rs1, a')" "rs = r # rs1"
    using Cons.prems(5) by (auto split: prod.splits)
  have "ar_category r = UNKNOWN"
    using evaluate_failure_result(3) [OF r] Cons.prems(2,3) classify_plain [of f] by auto
  moreover from this have "consecutive_same_failures r = 1"
    using evaluate_failure_result(4) [OF r] by simp
  moreover have "length rs1 = length fs \<and> (\<forall>r\<in>set rs1. ar_action r = RETRY \<and> consecutive_same_failures r = 1)"
    using Cons.prems evaluate_failure_state(1,2) [OF r] rs1(1)
    by (intro Cons.IH) (auto simp: successively_Cons)
  ultimately show ?case
    using rs1(2) evaluate_failure_result(1) [OF r] Cons.prems(1) by (auto simp: action_for_def)
qed simp

subsection \<open>Concrete failures\<close>

definition demo_failure :: "str \<Rightarrow> execution_failure" where
  "demo_failure msg = \<lparr>failure_id = ''f'', ef_task_id = ''t1'', error_type = ''AssertionError'',
     error_message = msg, stack_trace = None, exit_code = Some 1, failed_tests = [],
     newly_failed_tests = [], ef_timestamp = 0\<rparr>"

definition demo_fingerprint :: strategy_fingerprint where
  "demo_fingerprint = \<lparr>fingerprint_id = ''p1'', sf_hypothesis_id = ''h1'', affected_files = [''a.py''],
     change_pattern = ''retry loop'', summary_hash = ''abc''\<rparr>"

theorem repeated_failure_forces_pivot_witness:
  "map ar_action (fst (evaluate_all 0 (new_anti_tube 2) demo_fingerprint (replicate 3 (demo_failure ''boom''))))
     = [RETRY, PIVOT_REQUEST, PIVOT_REQUEST]"
proof -
  let ?a = "new_anti_tube 2" and ?f = "demo_failure ''boom''"
  have p: "plain_failure ?f" and s: "is_same_failure ?f ?f" by code_simp+
  have h: "history_of ?a (summary_hash demo_fingerprint) = []" by code_simp
  obtain rs a' where e: "evaluate_all 0 ?a demo_fingerprint (replicate 3 ?f) = (rs, a')" by fastforce
  have "map snd (map (\<lambda>r. (consecutive_same_failures r, ar_action r)) rs)
      = map snd (map (\<lambda>k. (int k, if same_failure_threshold ?a \<le> int k then PIVOT_REQUEST else RETRY)) [1..<Suc 3])"
    using repeated_failure_forces_pivot [OF p s h e] by simp
  then have "map ar_action rs = [RETRY, PIVOT_REQUEST, PIVOT_REQUEST]"
    by (simp add: comp_def new_anti_tube_def upt_rec)
  with e show ?thesis by simp
qed

theorem alternating_failures_retried_witness:
  "let fs = [demo_failure ''x'', demo_failure ''y'', demo_failure ''x'', demo_failure ''y''];
       rs = fst (evaluate_all 0 (new_anti_tube 2) demo_fingerprint fs)
   in length rs = 4 \<and> map ar_action rs = [RETRY, RETRY, RETRY, RETRY]"
proof -
  let ?fs = "[demo_failure ''x'', demo_failure ''y'', demo_failure ''x'', demo_failure ''y'']"
  let ?a = "new_anti_tube 2"
  have t: "2 \<le> same_failure_threshold ?a" by code_simp
  have h: "history_of ?a (summary_hash demo_fingerprint) = []
      \<or> (?fs \<noteq> [] \<longrightarrow> \<not> is_same_failure (hd ?fs) (last (history_of ?a (summary_hash demo_fingerprint))))"
    by code_simp
  have "plain_failure (demo_failure ''x'')" "plain_failure (demo_failure ''y'')" by code_simp+
  then have p: "\<forall>f\<in>set ?fs. plain_failure f" by simp
  have s: "successively (\<lambda>f g. \<not> is_same_failure g f) ?fs" by code_simp
  obtain rs a' where e: "evaluate_all 0 ?a demo_fingerprint ?fs = (rs, a')" by fastforce
  from alternating_failures_retried [OF t h p s e]
  have l: "length rs = 4" and r: "\<forall>r\<in>set rs. ar_action r = RETRY" by auto
  from l obtain w x y z where "rs = [w, x, y, z]"
    by (auto simp: length_Suc_conv eval_nat_numeral)
  with r e show ?thesis by simp
qed

end
