(* ===== verification/Quality_Router.thy ===== *)
theory Quality_Router
  imports Adaptation
begin

section \<open>The quality-first router (\<open>phase4/adaptation/quality_router.py\<close>)\<close>

text \<open>
  Routing of a task to a model endpoint: the minimum safe tier from sensitivity and risk,
  the cheapest available endpoint of the first tier in the preference order that has one,
  and the gate that makes Council verification mandatory.  \<open>uuid4\<close> and the clock are
  arguments; the request's \<open>description\<close> and \<open>metadata\<close> are not read by the code.
\<close>

datatype model_tier = TIER_1_LOCAL_FREE | TIER_2_STANDARD | TIER_3_PREMIUM_FRONTIER

fun tier_value :: "model_tier \<Rightarrow> str" where
  "tier_value TIER_1_LOCAL_FREE = ''TIER_1_LOCAL_FREE''"
| "tier_value TIER_2_STANDARD = ''TIER_2_STANDARD''"
| "tier_value TIER_3_PREMIUM_FRONTIER = ''TIER_3_PREMIUM''"

datatype provider = ROOL_CORE | LIBRECHAT_PROXY | OPENAI | ANTHROPIC | DEEPSEEK

fun provider_value :: "provider \<Rightarrow> str" where
  "provider_value ROOL_CORE = ''rool_core''"
| "provider_value LIBRECHAT_PROXY = ''librechat_proxy''"
| "provider_value OPENAI = ''openai''"
| "provider_value ANTHROPIC = ''anthropic''"
| "provider_value DEEPSEEK = ''deepseek''"

datatype task_sensitivity = ROUTINE | STANDARD | HIGH_STAKES

fun sensitivity_value :: "task_sensitivity \<Rightarrow> str" where
  "sensitivity_value ROUTINE = ''ROUTINE''"
| "sensitivity_value STANDARD = ''STANDARD''"
| "sensitivity_value HIGH_STAKES = ''HIGH_STAKES''"

record model_endpoint =
  ep_provider :: provider
  model_name :: str
  tier :: model_tier
  cost_per_million_tokens :: float64
  is_available :: bool

record routing_request =
  rq_task_id :: str
  rq_sensitivity :: task_sensitivity
  rq_risk_level :: risk_level
  rq_description :: str
  is_code_generation :: bool
  rq_metadata :: "(str \<times> json) list"

record routing_decision =
  rd_decision_id :: str
  rd_task_id :: str
  rd_sensitivity :: task_sensitivity
  rd_risk_level :: risk_level
  selected_provider :: provider
  selected_model :: str
  selected_tier :: model_tier
  requires_council_verification :: bool
  rd_rationale :: str
  fallback_used :: bool
  rd_timestamp :: time

definition DEFAULT_ENDPOINTS :: "model_endpoint list" where
  "DEFAULT_ENDPOINTS =
     [\<lparr>ep_provider = ROOL_CORE, model_name = ''rool-core-local'', tier = TIER_1_LOCAL_FREE,
       cost_per_million_tokens = 0, is_available = True\<rparr>,
      \<lparr>ep_provider = LIBRECHAT_PROXY, model_name = ''librechat-selfhosted'', tier = TIER_1_LOCAL_FREE,
       cost_per_million_tokens = 0, is_available = True\<rparr>,
      \<lparr>ep_provider = DEEPSEEK, model_name = ''deepseek-coder-v2'', tier = TIER_2_STANDARD,
       cost_per_million_tokens = fl (28/100), is_available = True\<rparr>,
      \<lparr>ep_provider = OPENAI, model_name = ''gpt-4o-mini'', tier = TIER_2_STANDARD,
       cost_per_million_tokens = fl (15/100), is_available = True\<rparr>,
      \<lparr>ep_provider = ANTHROPIC, model_name = ''claude-3-5-sonnet'', tier = TIER_3_PREMIUM_FRONTIER,
       cost_per_million_tokens = 3, is_available = True\<rparr>,
      \<lparr>ep_provider = OPENAI, model_name = ''gpt-4o'', tier = TIER_3_PREMIUM_FRONTIER,
       cost_per_million_tokens = 5/2, is_available = True\<rparr>]"

subsection \<open>Routing\<close>

definition determine_target_tier :: "routing_request \<Rightarrow> model_tier" where
  "determine_target_tier r =
     (if rq_sensitivity r = HIGH_STAKES \<or> rq_risk_level r \<in> {RHIGH, RCRITICAL} then TIER_3_PREMIUM_FRONTIER
      else if rq_sensitivity r = STANDARD \<or> rq_risk_level r = RMEDIUM then TIER_2_STANDARD
      else TIER_1_LOCAL_FREE)"

fun tier_preferences :: "model_tier \<Rightarrow> model_tier list" where
  "tier_preferences TIER_3_PREMIUM_FRONTIER = [TIER_3_PREMIUM_FRONTIER]"
| "tier_preferences TIER_2_STANDARD = [TIER_2_STANDARD, TIER_3_PREMIUM_FRONTIER, TIER_1_LOCAL_FREE]"
| "tier_preferences TIER_1_LOCAL_FREE = [TIER_1_LOCAL_FREE, TIER_2_STANDARD, TIER_3_PREMIUM_FRONTIER]"

definition available_in :: "model_endpoint list \<Rightarrow> model_tier \<Rightarrow> model_endpoint list" where
  "available_in eps t = filter (\<lambda>e. tier e = t \<and> is_available e) eps"

text \<open>The loop over the search tiers; \<open>list.sort\<close> is stable, as is \<^const>\<open>sort_key\<close>.\<close>

fun search_tiers :: "model_endpoint list \<Rightarrow> model_tier \<Rightarrow> model_tier list \<Rightarrow> (model_endpoint \<times> bool) result" where
  "search_tiers eps target [] = Inl NoAvailableProviderError"
| "search_tiers eps target (t # ts) =
     (case sort_key cost_per_million_tokens (available_in eps t) of
        [] \<Rightarrow> search_tiers eps target ts
      | e # _ \<Rightarrow> Inr (e, t \<noteq> target))"

definition select_endpoint_with_fallback :: "model_endpoint list \<Rightarrow> model_tier \<Rightarrow> (model_endpoint \<times> bool) result" where
  "select_endpoint_with_fallback eps target = search_tiers eps target (tier_preferences target)"

definition bool_str :: "bool \<Rightarrow> str" where
  "bool_str b = (if b then ''True'' else ''False'')"

definition route :: "time \<Rightarrow> str \<Rightarrow> model_endpoint list \<Rightarrow> routing_request \<Rightarrow> routing_decision result" where
  "route now fresh eps r =
     bind_res (select_endpoint_with_fallback eps (determine_target_tier r)) (\<lambda>(e, fallback).
       let verify = (rq_sensitivity r = HIGH_STAKES
                     \<or> rq_risk_level r \<in> {RHIGH, RCRITICAL}
                     \<or> (is_code_generation r \<and> tier e \<in> {TIER_1_LOCAL_FREE, TIER_2_STANDARD}));
           why = ''Routed to '' @ provider_value (ep_provider e) @ '':'' @ model_name e @ '' (''
                 @ tier_value (tier e) @ ''). Sensitivity='' @ sensitivity_value (rq_sensitivity r)
                 @ '', Risk='' @ risk_value (rq_risk_level r)
                 @ ''. Council verification required='' @ bool_str verify @ ''.''
                 @ (if fallback then '' (Fallback provider selected due to primary tier unavailability).'' else [])
       in Inr \<lparr>rd_decision_id = fresh, rd_task_id = rq_task_id r, rd_sensitivity = rq_sensitivity r,
               rd_risk_level = rq_risk_level r, selected_provider = ep_provider e,
               selected_model = model_name e, selected_tier = tier e,
               requires_council_verification = verify, rd_rationale = why,
               fallback_used = fallback, rd_timestamp = now\<rparr>)"

subsection \<open>Lemmas\<close>

lemma sort_key_hd_min:
  "sort_key f xs = y # ys \<Longrightarrow> y \<in> set xs \<and> (\<forall>x\<in>set xs. f y \<le> f x)"
  by (metis list.set_intros(1) list.simps(9) set_ConsD set_sort sorted_simps(2) sorted_sort_key
      order_refl image_eqI list.set_map)

lemma sort_key_Nil_iff [simp]: "sort_key f xs = [] \<longleftrightarrow> xs = []"
  by (metis length_0_conv length_sort)

lemma search_tiers_Inr:
  assumes "search_tiers eps target ts = Inr (e, b)"
  shows "\<exists>ps t qs. ts = ps @ t # qs \<and> (\<forall>u\<in>set ps. available_in eps u = [])
    \<and> e \<in> set (available_in eps t) \<and> (\<forall>e'\<in>set (available_in eps t). cost_per_million_tokens e \<le> cost_per_million_tokens e')
    \<and> b = (t \<noteq> target)"
  using assms
proof (induction ts)
  case (Cons t ts)
  show ?case
  proof (cases "sort_key cost_per_million_tokens (available_in eps t)")
    case Nil
    then obtain ps u qs where "ts = ps @ u # qs" "\<forall>v\<in>set ps. available_in eps v = []"
      "e \<in> set (available_in eps u)" "\<forall>e'\<in>set (available_in eps u). cost_per_million_tokens e \<le> cost_per_million_tokens e'"
      "b = (u \<noteq> target)"
      using Cons by auto
    with Nil show ?thesis by (intro exI [of _ "t # ps"] exI [of _ u] exI [of _ qs]) simp
  next
    case (Cons e' es)
    with Cons.prems sort_key_hd_min [OF Cons] show ?thesis
      by (intro exI [of _ "[]"] exI [of _ t] exI [of _ ts]) auto
  qed
qed simp

lemma search_tiers_Inl: "search_tiers eps target ts = Inl x \<longleftrightarrow>
    x = NoAvailableProviderError \<and> (\<forall>t\<in>set ts. available_in eps t = [])"
  by (induction ts) (auto split: list.split)

lemma route_Inr:
  assumes "route now fresh eps r = Inr d"
  obtains e where "select_endpoint_with_fallback eps (determine_target_tier r) = Inr (e, fallback_used d)"
    "selected_provider d = ep_provider e" "selected_model d = model_name e" "selected_tier d = tier e"
    "requires_council_verification d = (rq_sensitivity r = HIGH_STAKES \<or> rq_risk_level r \<in> {RHIGH, RCRITICAL}
       \<or> (is_code_generation r \<and> tier e \<in> {TIER_1_LOCAL_FREE, TIER_2_STANDARD}))"
  using assms by (auto simp: route_def bind_res_Inr_iff Let_def)

lemma route_Inl: "route now fresh eps r = Inl x \<longleftrightarrow> select_endpoint_with_fallback eps (determine_target_tier r) = Inl x"
  unfolding route_def
  by (cases "select_endpoint_with_fallback eps (determine_target_tier r)") (auto simp: Let_def split: prod.splits)

subsection \<open>Properties\<close>

text \<open>
  Property (quality gate).  A high-stakes or high-risk task is only ever routed to the premium
  tier, without fallback, and always with council verification; and code generated by a
  cheaper tier always has to be verified.
\<close>

theorem route_quality_gate:
  assumes "route now fresh eps r = Inr d"
  shows "(rq_sensitivity r = HIGH_STAKES \<or> rq_risk_level r \<in> {RHIGH, RCRITICAL} \<longrightarrow>
      selected_tier d = TIER_3_PREMIUM_FRONTIER \<and> \<not> fallback_used d \<and> requires_council_verification d)
    \<and> (is_code_generation r \<and> selected_tier d \<noteq> TIER_3_PREMIUM_FRONTIER \<longrightarrow> requires_council_verification d)"
proof -
  obtain e where e: "select_endpoint_with_fallback eps (determine_target_tier r) = Inr (e, fallback_used d)"
    "selected_tier d = tier e"
    "requires_council_verification d = (rq_sensitivity r = HIGH_STAKES \<or> rq_risk_level r \<in> {RHIGH, RCRITICAL}
       \<or> (is_code_generation r \<and> tier e \<in> {TIER_1_LOCAL_FREE, TIER_2_STANDARD}))"
    using assms by (rule route_Inr)
  have "tier e = TIER_3_PREMIUM_FRONTIER \<and> \<not> fallback_used d" if "determine_target_tier r = TIER_3_PREMIUM_FRONTIER"
    using search_tiers_Inr [OF e(1) [unfolded select_endpoint_with_fallback_def]] that
    by (auto simp: available_in_def Cons_eq_append_conv)
  with e(2,3) show ?thesis by (cases "tier e") (auto simp: determine_target_tier_def)
qed

text \<open>
  Property (selection).  The router raises exactly when no tier of the preference list has an
  available endpoint; otherwise it picks an available endpoint that is cheapest in the
  first tier of the list that has one, and reports a fallback exactly when that is not the
  target tier.
\<close>

theorem route_picks_cheapest:
  "(\<forall>x. route now fresh eps r = Inl x \<longleftrightarrow> x = NoAvailableProviderError
      \<and> (\<forall>t\<in>set (tier_preferences (determine_target_tier r)). available_in eps t = []))
   \<and> (\<forall>d. route now fresh eps r = Inr d \<longrightarrow>
      (\<exists>e ps t qs. tier_preferences (determine_target_tier r) = ps @ t # qs
        \<and> (\<forall>u\<in>set ps. available_in eps u = []) \<and> e \<in> set (available_in eps t)
        \<and> (\<forall>e'\<in>set (available_in eps t). cost_per_million_tokens e \<le> cost_per_million_tokens e')
        \<and> selected_provider d = ep_provider e \<and> selected_model d = model_name e \<and> selected_tier d = t
        \<and> fallback_used d = (t \<noteq> determine_target_tier r)))"
proof (intro conjI allI impI)
  fix x
  show "route now fresh eps r = Inl x \<longleftrightarrow> x = NoAvailableProviderError
      \<and> (\<forall>t\<in>set (tier_preferences (determine_target_tier r)). available_in eps t = [])"
    unfolding route_Inl select_endpoint_with_fallback_def by (rule search_tiers_Inl)
next
  fix d assume "route now fresh eps r = Inr d"
  then obtain e where e: "select_endpoint_with_fallback eps (determine_target_tier r) = Inr (e, fallback_used d)"
    "selected_provider d = ep_provider e" "selected_model d = model_name e" "selected_tier d = tier e"
    by (rule route_Inr)
  from search_tiers_Inr [OF e(1) [unfolded select_endpoint_with_fallback_def]] obtain ps t qs where
    s: "tier_preferences (determine_target_tier r) = ps @ t # qs" "\<forall>u\<in>set ps. available_in eps u = []"
    "e \<in> set (available_in eps t)"
    "\<forall>e'\<in>set (available_in eps t). cost_per_million_tokens e \<le> cost_per_million_tokens e'"
    "fallback_used d = (t \<noteq> determine_target_tier r)" by blast
  have "tier e = t" using s(3) by (simp add: available_in_def)
  with s e(2-4) show "\<exists>e ps t qs. tier_preferences (determine_target_tier r) = ps @ t # qs
        \<and> (\<forall>u\<in>set ps. available_in eps u = []) \<and> e \<in> set (available_in eps t)
        \<and> (\<forall>e'\<in>set (available_in eps t). cost_per_million_tokens e \<le> cost_per_million_tokens e')
        \<and> selected_provider d = ep_provider e \<and> selected_model d = model_name e \<and> selected_tier d = t
        \<and> fallback_used d = (t \<noteq> determine_target_tier r)"
    by (intro exI [of _ e] exI [of _ ps] exI [of _ t] exI [of _ qs]) simp
qed

subsection \<open>Concrete requests\<close>

definition demo_routing :: "task_sensitivity \<Rightarrow> risk_level \<Rightarrow> routing_request" where
  "demo_routing s k = \<lparr>rq_task_id = ''t'', rq_sensitivity = s, rq_risk_level = k, rq_description = ''d'',
     is_code_generation = True, rq_metadata = []\<rparr>"

theorem route_quality_gate_witness:
  "\<exists>d. route 0 ''i'' DEFAULT_ENDPOINTS (demo_routing ROUTINE RHIGH) = Inr d
     \<and> selected_tier d = TIER_3_PREMIUM_FRONTIER \<and> requires_council_verification d"
proof -
  have "returns (route 0 ''i'' DEFAULT_ENDPOINTS (demo_routing ROUTINE RHIGH)) (\<lambda>d. True)" by code_simp
  then obtain d where d: "route 0 ''i'' DEFAULT_ENDPOINTS (demo_routing ROUTINE RHIGH) = Inr d"
    unfolding returns_iff by blast
  from route_quality_gate [OF d] d show ?thesis by (simp add: demo_routing_def)
qed

theorem route_picks_cheapest_witness:
  "\<exists>d. route 0 ''i'' DEFAULT_ENDPOINTS (demo_routing STANDARD RLOW) = Inr d \<and> selected_model d = ''gpt-4o-mini''
     \<and> \<not> fallback_used d \<and> selected_tier d \<in> set (tier_preferences TIER_2_STANDARD)"
proof -
  have "returns (route 0 ''i'' DEFAULT_ENDPOINTS (demo_routing STANDARD RLOW))
    (\<lambda>d. selected_model d = ''gpt-4o-mini'' \<and> \<not> fallback_used d)" by code_simp
  then obtain d where d: "route 0 ''i'' DEFAULT_ENDPOINTS (demo_routing STANDARD RLOW) = Inr d"
    "selected_model d = ''gpt-4o-mini''" "\<not> fallback_used d"
    unfolding returns_iff by blast
  with route_picks_cheapest [of 0 "''i''" DEFAULT_ENDPOINTS "demo_routing STANDARD RLOW"] show ?thesis
    by (auto simp: determine_target_tier_def demo_routing_def)
qed

end
