(* ===== verification/Py_Platform.thy ===== *)
theory Py_Platform
  imports Py_Json Adaptation
begin

section \<open>The platform: environment variables, clock values, digests\<close>

text \<open>
  What the control plane takes from its process: three environment variables, the instants
  of the clock, and three families of functions that are not part of the repository.  The
  keyed digest (\<open>hmac.new(key, msg, sha256).hexdigest()\<close>), the plain digest
  (\<open>hashlib.sha256(msg).hexdigest()\<close>) and the ISO codec of datetimes are fields of the
  \<open>platform\<close> record, so every theorem holds for whatever functions they are; what a theorem
  needs of them is a hypothesis with a name below.  Bytes are strings of code units.
\<close>

text \<open>A \<open>datetime\<close>: naive, or aware with its instant in UTC microseconds.\<close>

datatype datetime = Naive time | Aware time

abbreviation seconds :: "int \<Rightarrow> time" where
  "seconds n \<equiv> n * 1000000"

record platform =
  DOR_AUTHORITY_SIGNING_KEY :: "str option"
  DOR_ENV :: "str option"
  IS_PRODUCTION :: "str option"
  hmac_sha256_hex :: "str \<Rightarrow> str \<Rightarrow> str"     \<comment> \<open>key, message\<close>
  sha256_hex :: "str \<Rightarrow> str"
  isoformat :: "time \<Rightarrow> str"                  \<comment> \<open>of an aware UTC datetime\<close>
  fromisoformat :: "str \<Rightarrow> datetime option"   \<comment> \<open>\<open>None\<close>: raises \<open>ValueError\<close>\<close>

definition is_ascii :: "str \<Rightarrow> bool" where
  "is_ascii s \<longleftrightarrow> (\<forall>c\<in>set s. (of_char c :: nat) < 128)"

text \<open>Documented behaviour: a hex digest is a non-empty ASCII string.\<close>

definition hex_digests :: "platform \<Rightarrow> bool" where
  "hex_digests pf \<longleftrightarrow>
     (\<forall>k m. hmac_sha256_hex pf k m \<noteq> [] \<and> is_ascii (hmac_sha256_hex pf k m))
     \<and> (\<forall>m. \<not> blank (sha256_hex pf m))"

text \<open>
  The instants a \<open>datetime\<close> can hold, years 1 to 9999; arithmetic that leaves them raises
  \<open>OverflowError\<close>.
\<close>

definition datetime_range :: "time \<Rightarrow> bool" where
  "datetime_range t \<longleftrightarrow> - seconds 62135596800 \<le> t \<and> t < seconds 253402300800"

text \<open>Documented behaviour: \<open>fromisoformat\<close> is an inverse of \<open>isoformat\<close>.\<close>

definition iso_inverse :: "platform \<Rightarrow> bool" where
  "iso_inverse pf \<longleftrightarrow> (\<forall>t. datetime_range t \<longrightarrow>
     fromisoformat pf (isoformat pf t) = Some (Aware t) \<and> \<not> blank (isoformat pf t))"

text \<open>
  Two JSON values with different canonical texts and one digest.  No property assumes that
  SHA-256 is injective, which it is not; where the code relies on a digest, a collision
  between the very texts at hand is a case of the statement.
\<close>

definition sha_collides :: "platform \<Rightarrow> json \<Rightarrow> json \<Rightarrow> bool" where
  "sha_collides pf v w \<longleftrightarrow> canon v \<noteq> canon w \<and> sha256_hex pf (utf8 (dumps True v)) = sha256_hex pf (utf8 (dumps True w))"

lemma digest_inject:
  "sha256_hex pf (utf8 (dumps True v)) = sha256_hex pf (utf8 (dumps True w)) \<longleftrightarrow> canon v = canon w \<or> sha_collides pf v w"
  unfolding sha_collides_def by (metis dumps_inject)

text \<open>\<open>hmac.compare_digest\<close> on two \<open>str\<close>: both must be ASCII.\<close>

definition compare_digest :: "str \<Rightarrow> str \<Rightarrow> bool result" where
  "compare_digest a b = (if is_ascii a \<and> is_ascii b then Inr (a = b) else Inl TypeError)"

lemma compare_digest_True [simp]: "compare_digest a b = Inr True \<longleftrightarrow> a = b \<and> is_ascii a"
  by (auto simp: compare_digest_def)

subsection \<open>\<open>base64.b64decode(s, altchars=b"-_", validate=True)\<close>\<close>

text \<open>
  Both alphabets are accepted (\<open>-_\<close> are translated to \<open>+/\<close> before decoding).  Strict
  decoding wants complete groups of four, padding at the end of the last group only.
\<close>

definition b64_value :: "char \<Rightarrow> nat option" where
  "b64_value c =
     (let n = (of_char c :: nat)
      in if 65 \<le> n \<and> n \<le> 90 then Some (n - 65)
         else if 97 \<le> n \<and> n \<le> 122 then Some (n - 71)
         else if 48 \<le> n \<and> n \<le> 57 then Some (n + 4)
         else if c = CHR ''+'' \<or> c = CHR ''-'' then Some 62
         else if c = CHR ''/'' \<or> c = CHR ''_'' then Some 63
         else None)"

definition b64_group :: "char list \<Rightarrow> nat option" where
  "b64_group cs = foldl (\<lambda>acc c. case (acc, b64_value c) of (Some n, Some v) \<Rightarrow> Some (n * 64 + v) | _ \<Rightarrow> None)
     (Some 0) cs"

fun b64decode :: "str \<Rightarrow> str option" where
  "b64decode [] = Some []"
| "b64decode (a # b # c # d # r) =
     (if c = CHR ''='' \<and> d = CHR ''='' \<and> r = []
      then map_option (\<lambda>n. [char_of (n div 16)]) (b64_group [a, b])
      else if d = CHR ''='' \<and> r = []
      then map_option (\<lambda>n. [char_of (n div 1024), char_of (n div 4 mod 256)]) (b64_group [a, b, c])
      else (case (b64_group [a, b, c, d], b64decode r) of
              (Some n, Some bs) \<Rightarrow>
                Some (char_of (n div 65536) # char_of (n div 256 mod 256) # char_of (n mod 256) # bs)
            | _ \<Rightarrow> None))"
| "b64decode _ = None"

subsection \<open>A platform that satisfies the hypotheses\<close>

text \<open>
  A concrete instance of the parameters, on which the hypotheses hold and on which the
  models can be run: the digests spell out their input in hexadecimal, and an instant is
  printed as its number of microseconds.
\<close>

definition hexlify :: "str \<Rightarrow> str" where
  "hexlify s = concat (map (\<lambda>c. let n = (of_char c :: nat) in [hex_digit (n div 16), hex_digit (n mod 16)]) s)"

definition read_int :: "str \<Rightarrow> int" where
  "read_int s = (case s of [] \<Rightarrow> 0
     | c # r \<Rightarrow> if c = CHR ''-'' then - int (digits_value r) else int (digits_value s))"

definition demo_platform :: platform where
  "demo_platform =
     \<lparr>DOR_AUTHORITY_SIGNING_KEY = None, DOR_ENV = Some ''test'', IS_PRODUCTION = None,
      hmac_sha256_hex = (\<lambda>k m. ''a'' @ hexlify k @ hexlify m), sha256_hex = (\<lambda>m. ''h'' @ hexlify m),
      isoformat = int_str, fromisoformat = (\<lambda>s. Some (Aware (read_int s)))\<rparr>"

lemma demo_platform_sel [simp]:
  "isoformat demo_platform = int_str"
  "fromisoformat demo_platform s = Some (Aware (read_int s))"
  "DOR_AUTHORITY_SIGNING_KEY demo_platform = None"
  by (simp_all add: demo_platform_def)

lemma hex_digit_ascii: "d < 16 \<Longrightarrow> (of_char (hex_digit d) :: nat) < 128"
  by (simp add: hex_digit_def)

lemma hexlify_ascii: "is_ascii (hexlify s)"
proof (induction s)
  case (Cons c s)
  have "(of_char c :: nat) div 16 < 16" using of_char_lt_256 [of c] by (simp add: div_less_iff_less_mult)
  with Cons show ?case
    by (auto simp: hexlify_def is_ascii_def Let_def intro: hex_digit_ascii)
qed (simp add: hexlify_def is_ascii_def)

lemma hexlify_inject: "hexlify s = hexlify t \<longleftrightarrow> s = t"
proof (induction s arbitrary: t)
  case Nil
  show ?case by (cases t) (simp_all add: hexlify_def Let_def)
next
  case (Cons c s)
  show ?case
  proof (cases t)
    case (Cons d u)
    then show ?thesis using Cons.IH [of u] hex_pair_inject [of c d] by (auto simp: hexlify_def Let_def)
  qed (simp add: hexlify_def Let_def)
qed

lemma digit_not_space: "is_digit c \<Longrightarrow> \<not> is_space c"
  by (auto simp: is_digit_def is_space_def Let_def)

lemma int_str_not_blank: "\<not> blank (int_str i)"
proof -
  have "\<not> is_space (hd (int_str i))"
    using hd_nat_str_digit digit_not_space by (auto simp: int_str_def is_space_def Let_def)
  then show ?thesis unfolding blank_iff by (metis hd_in_set int_str_nonempty)
qed

lemma read_int_int_str [simp]: "read_int (int_str i) = i"
proof (cases "i < 0")
  case True
  then show ?thesis by (simp add: read_int_def int_str_def)
next
  case False
  have "hd (nat_str (nat i)) \<noteq> CHR ''-''" using hd_nat_str_digit [of "nat i"] by auto
  moreover obtain c r where "nat_str (nat i) = c # r" by (meson nat_str_nonempty neq_Nil_conv)
  moreover from this have "digits_value (c # r) = nat i" by (metis digits_value_nat_str)
  ultimately show ?thesis using False by (simp add: read_int_def int_str_def)
qed

lemma demo_platform_digests [simp]: "hex_digests demo_platform"
  using hexlify_ascii
  by (auto simp: hex_digests_def demo_platform_def is_ascii_def blank_iff is_space_def Let_def)

lemma demo_no_sha_collision [simp]: "\<not> sha_collides demo_platform v w"
  by (auto simp: sha_collides_def demo_platform_def hexlify_inject dumps_inject)

lemma demo_platform_iso [simp]: "iso_inverse demo_platform"
  by (simp add: iso_inverse_def demo_platform_def int_str_not_blank)

end
