(* ===== verification/Py_Fnmatch.thy ===== *)
theory Py_Fnmatch
  imports Py_Prelude
begin

section \<open>\<open>fnmatch.fnmatchcase\<close>\<close>

text \<open>
  The authority engine matches a resource against a rule's pattern with the standard
  library's \<open>fnmatchcase\<close>.  The library translates the pattern to a regular expression;
  here the pattern is translated to tokens, with the library's rules for character
  classes: a leading \<open>!\<close> negates, a \<open>]\<close> right after the opening stands for itself, a
  hyphen between two characters is a range, an empty range is dropped (and can leave a
  class that matches nothing, or a \<open>!\<close> that negates), and an unclosed \<open>[\<close> is literal.
\<close>

datatype fn_token =
    Star
  | AnyChar
  | Lit char
  | Class bool "(char \<times> char) list"   \<comment> \<open>negated?, inclusive ranges\<close>

subsection \<open>Character classes\<close>

text \<open>
  The text after an opening \<open>[\<close>: the class body and the rest after the closing bracket,
  or nothing when the class is not closed.
\<close>

definition skip_char :: "char \<Rightarrow> str \<Rightarrow> str \<times> str" where
  "skip_char c r = (if r \<noteq> [] \<and> hd r = c then ([c], tl r) else ([], r))"

definition class_split :: "str \<Rightarrow> (str \<times> str) option" where
  "class_split r =
     (let (bang, r1) = skip_char (CHR ''!'') r;
          (lead, r2) = skip_char (CHR '']'') r1
      in case dropWhile (\<lambda>c. c \<noteq> CHR '']'') r2 of
           [] \<Rightarrow> None
         | _ # after \<Rightarrow> Some (bang @ lead @ takeWhile (\<lambda>c. c \<noteq> CHR '']'') r2, after))"

lemma skip_char_length: "length (snd (skip_char c r)) \<le> length r"
  by (simp add: skip_char_def)

lemma dropWhile_Cons_length: "dropWhile P s = c # t \<Longrightarrow> length t < length s"
  using length_dropWhile_le [of P s] by simp

lemma class_split_shorter:
  assumes "class_split r = Some (b, after)"
  shows "length after < length r"
proof -
  obtain bang r1 where 1: "skip_char (CHR ''!'') r = (bang, r1)" by fastforce
  obtain lead r2 where 2: "skip_char (CHR '']'') r1 = (lead, r2)" by fastforce
  obtain c where "dropWhile (\<lambda>c. c \<noteq> CHR '']'') r2 = c # after"
    using assms by (auto simp: class_split_def 1 2 split: list.splits)
  then have "length after < length r2"
    by (rule dropWhile_Cons_length)
  with skip_char_length [of "CHR ''!''" r] skip_char_length [of "CHR '']''" r1] 1 2
  show ?thesis by simp
qed

text \<open>
  The chunks between the hyphens that form ranges.  The first chunk is at least one
  character (two when the class is negated), the search for the next hyphen starts three
  characters after the last, and an empty last chunk is a literal hyphen.
\<close>

fun chunks_from :: "str \<Rightarrow> str \<Rightarrow> str list" where
  "chunks_from acc [] = [rev acc]"
| "chunks_from acc (c # cs) =
     (if c = CHR ''-'' \<and> acc \<noteq> []
      then (case cs of
              [] \<Rightarrow> [rev (CHR ''-'' # acc)]
            | [d] \<Rightarrow> [rev acc, [d]]
            | d # e # fs \<Rightarrow> rev acc # chunks_from [e, d] fs)
      else chunks_from (c # acc) cs)"

definition class_chunks :: "str \<Rightarrow> str list" where
  "class_chunks stuff =
     (case stuff of
        c # d # cs \<Rightarrow> if c = CHR ''!'' then chunks_from [d, c] cs else chunks_from [c] (d # cs)
      | _ \<Rightarrow> [stuff])"

text \<open>Empty ranges (\<open>z-a\<close>) are removed from the right.\<close>

fun drop_empty_ranges :: "str list \<Rightarrow> str list" where
  "drop_empty_ranges [] = []"
| "drop_empty_ranges [c] = [c]"
| "drop_empty_ranges (c # cs) =
     (case drop_empty_ranges cs of
        [] \<Rightarrow> [c]
      | d # ds \<Rightarrow> if last c > hd d then (butlast c @ tl d) # ds else c # d # ds)"

text \<open>
  The regular-expression class that the chunks, joined by hyphens, denote.  \<open>prev\<close> is the
  last character read, which a hyphen turns into the start of a range.
\<close>

definition singles :: "str \<Rightarrow> (char \<times> char) list" where
  "singles s = map (\<lambda>c. (c, c)) s"

fun chunk_ranges :: "str list \<Rightarrow> (char \<times> char) list" where
  "chunk_ranges [] = []"
| "chunk_ranges [c] = singles c"
| "chunk_ranges (c # d # ds) =
     (if c = [] then singles ''-'' @ chunk_ranges (d # ds)
      else singles (butlast c) @ (last c, hd d) # chunk_ranges (tl d # ds))"

definition class_token :: "str \<Rightarrow> fn_token" where
  "class_token stuff =
     (let cs = (if CHR ''-'' \<in> set stuff then drop_empty_ranges (class_chunks stuff) else [stuff])
      in case cs of
           (c # c') # ds \<Rightarrow>
             if c = CHR ''!'' then Class True (chunk_ranges (c' # ds))
             else Class False (chunk_ranges (hd cs # ds))
         | _ \<Rightarrow> Class False [])"

subsection \<open>Patterns\<close>

function fn_tokens :: "str \<Rightarrow> fn_token list" where
  "fn_tokens [] = []"
| "fn_tokens (c # cs) =
     (if c = CHR ''*'' then Star # fn_tokens cs
      else if c = CHR ''?'' then AnyChar # fn_tokens cs
      else if c = CHR ''['' then
        (case class_split cs of
           None \<Rightarrow> Lit c # fn_tokens cs
         | Some (stuff, after) \<Rightarrow> class_token stuff # fn_tokens after)
      else Lit c # fn_tokens cs)"
  by pat_completeness auto
termination
  by (relation "measure length") (auto dest: class_split_shorter)

fun token_matches :: "fn_token \<Rightarrow> char \<Rightarrow> bool" where
  "token_matches Star c = False"
| "token_matches AnyChar c = True"
| "token_matches (Lit d) c = (c = d)"
| "token_matches (Class neg rs) c = (neg \<noteq> list_ex (\<lambda>(lo, hi). lo \<le> c \<and> c \<le> hi) rs)"

function tokens_match :: "fn_token list \<Rightarrow> str \<Rightarrow> bool" where
  "tokens_match [] s = (s = [])"
| "tokens_match (t # ts) s =
     (if t = Star
      then tokens_match ts s \<or> (case s of [] \<Rightarrow> False | _ # s' \<Rightarrow> tokens_match (t # ts) s')
      else (case s of [] \<Rightarrow> False | c # s' \<Rightarrow> token_matches t c \<and> tokens_match ts s'))"
  by pat_completeness auto
termination
  by (relation "measures [\<lambda>(ts, s). length s, \<lambda>(ts, s). length ts]") auto

definition fnmatchcase :: "str \<Rightarrow> str \<Rightarrow> bool" where
  "fnmatchcase name pat = tokens_match (fn_tokens pat) name"

subsection \<open>What patterns mean\<close>

declare tokens_match.simps(2) [simp del]

lemma tokens_match_Lit [simp]:
  "tokens_match (Lit d # ts) s \<longleftrightarrow> (\<exists>s'. s = d # s' \<and> tokens_match ts s')"
  by (cases s) (auto simp: tokens_match.simps(2))

text \<open>A star stands for any text: some split of the name matches the rest.\<close>

lemma tokens_match_Star:
  "tokens_match (Star # ts) s \<longleftrightarrow> (\<exists>u v. s = u @ v \<and> tokens_match ts v)"
proof (induction s)
  case Nil
  then show ?case by (simp add: tokens_match.simps(2) [of Star])
next
  case (Cons c s)
  have "tokens_match (Star # ts) (c # s) \<longleftrightarrow> tokens_match ts (c # s) \<or> tokens_match (Star # ts) s"
    by (simp add: tokens_match.simps(2) [of Star])
  also have "\<dots> \<longleftrightarrow> (\<exists>u v. c # s = u @ v \<and> tokens_match ts v)"
    using Cons.IH by (metis append_Cons append_Nil append_eq_Cons_conv)
  finally show ?case .
qed

definition meta_free :: "str \<Rightarrow> bool" where
  "meta_free p \<longleftrightarrow> CHR ''*'' \<notin> set p \<and> CHR ''?'' \<notin> set p \<and> CHR ''['' \<notin> set p"

lemma fn_tokens_meta_free: "meta_free p \<Longrightarrow> fn_tokens (p @ q) = map Lit p @ fn_tokens q"
  by (induction p) (auto simp: meta_free_def)

lemma tokens_match_Lits:
  "tokens_match (map Lit p @ ts) s \<longleftrightarrow> (\<exists>s'. s = p @ s' \<and> tokens_match ts s')"
  by (induction p arbitrary: s) auto

lemma fnmatchcase_literal: "meta_free p \<Longrightarrow> fnmatchcase s p \<longleftrightarrow> s = p"
  using fn_tokens_meta_free [of p "[]"] tokens_match_Lits [of p "[]" s]
  by (simp add: fnmatchcase_def)

lemma fnmatchcase_prefix_star:
  "meta_free p \<Longrightarrow> fnmatchcase s (p @ ''*'') \<longleftrightarrow> (\<exists>t. s = p @ t)"
  by (simp add: fnmatchcase_def fn_tokens_meta_free tokens_match_Lits tokens_match_Star)

lemma fnmatchcase_star [simp]: "fnmatchcase s ''*''"
  by (simp add: fnmatchcase_def tokens_match_Star)

end
