(* ===== verification/Council_Dispute.thy ===== *)
theory Council_Dispute
  imports Epistemics
begin

section \<open>The dispute protocol (\<open>phase4/council/models.py\<close>, \<open>dispute.py\<close>)\<close>

text \<open>
  Disputes against hypotheses and the \<open>DisputeProtocol\<close> that manages them.  The protocol's
  state is its belief engine and the dictionary of disputes; the hypothesis that
  \<open>resolve_with_evidence\<close> revises in place is passed in and returned.  Fresh identifiers
  (\<open>uuid4\<close>) and the clock are arguments.
\<close>

datatype dispute_status = DOPEN | RESOLVED | DISMISSED

record dispute =
  dispute_id :: str
  d_hypothesis_id :: str
  raised_by_agent_id :: str
  d_reason :: str
  d_status :: dispute_status
  resolving_evidence :: "evidence option"
  resolution_note :: "str option"
  d_created_at :: time
  resolved_at :: "time option"

record dispute_protocol =
  dp_engine :: belief_engine
  disputes :: "(str, dispute) dict"

definition new_protocol :: "belief_engine \<Rightarrow> dispute_protocol" where
  "new_protocol eng = \<lparr>dp_engine = eng, disputes = []\<rparr>"

subsection \<open>Operations\<close>

definition get_dispute :: "dispute_protocol \<Rightarrow> str \<Rightarrow> dispute result" where
  "get_dispute p did = (case dict_get (disputes p) did of
      None \<Rightarrow> Inl DisputeProtocolError | Some d \<Rightarrow> Inr d)"

text \<open>\<open>raise_dispute\<close>; \<open>fresh\<close> is the identifier the model's default factory draws.\<close>

definition raise_dispute ::
  "dispute_protocol \<Rightarrow> time \<Rightarrow> str \<Rightarrow> hypothesis \<Rightarrow> str \<Rightarrow> str \<Rightarrow> str option
     \<Rightarrow> (dispute \<times> dispute_protocol) result" where
  "raise_dispute p now fresh h agent reason did =
     raise_if (blank reason) DisputeProtocolError
       (case did of
          Some i \<Rightarrow>
            (case dict_get (disputes p) i of
               Some existing \<Rightarrow>
                 if d_hypothesis_id existing = hypothesis_id h
                    \<and> raised_by_agent_id existing = agent
                    \<and> d_reason existing = strip reason
                 then Inr (existing, p)
                 else Inl DisputeProtocolError
             | None \<Rightarrow>
                 (let d = \<lparr>dispute_id = i, d_hypothesis_id = hypothesis_id h,
                           raised_by_agent_id = agent, d_reason = strip reason, d_status = DOPEN,
                           resolving_evidence = None, resolution_note = None,
                           d_created_at = now, resolved_at = None\<rparr>
                  in Inr (d, p\<lparr>disputes := dict_set i d (disputes p)\<rparr>)))
        | None \<Rightarrow>
            (let d = \<lparr>dispute_id = fresh, d_hypothesis_id = hypothesis_id h,
                      raised_by_agent_id = agent, d_reason = strip reason, d_status = DOPEN,
                      resolving_evidence = None, resolution_note = None,
                      d_created_at = now, resolved_at = None\<rparr>
             in Inr (d, p\<lparr>disputes := dict_set fresh d (disputes p)\<rparr>)))"

definition resolve_with_evidence ::
  "dispute_protocol \<Rightarrow> time \<Rightarrow> str \<Rightarrow> hypothesis \<Rightarrow> evidence \<Rightarrow> str
     \<Rightarrow> (dispute \<times> dispute_protocol \<times> hypothesis) result" where
  "resolve_with_evidence p now did h ev note =
     bind_res (get_dispute p did) (\<lambda>d.
       raise_if (d_status d \<noteq> DOPEN) DisputeProtocolError
       (raise_if (ev_hypothesis_id ev \<noteq> hypothesis_id h) DisputeProtocolError
       (raise_if (blank note) DisputeProtocolError
         (let d' = d\<lparr>resolving_evidence := Some ev, resolution_note := Some (strip note),
                     d_status := RESOLVED, resolved_at := Some now\<rparr>
          in Inr (d', p\<lparr>disputes := dict_set did d' (disputes p)\<rparr>,
                  incorporate_evidence (dp_engine p) now h ev)))))"

definition dismiss_dispute ::
  "dispute_protocol \<Rightarrow> time \<Rightarrow> str \<Rightarrow> str \<Rightarrow> (dispute \<times> dispute_protocol) result" where
  "dismiss_dispute p now did justification =
     bind_res (get_dispute p did) (\<lambda>d.
       raise_if (d_status d \<noteq> DOPEN) DisputeProtocolError
       (raise_if (length (strip justification) < 10) DisputeProtocolError
         (let d' = d\<lparr>resolution_note := Some (''DISMISSED: '' @ strip justification),
                     d_status := DISMISSED, resolved_at := Some now\<rparr>
          in Inr (d', p\<lparr>disputes := dict_set did d' (disputes p)\<rparr>))))"

definition get_open_disputes_for_hypothesis :: "dispute_protocol \<Rightarrow> str \<Rightarrow> dispute list" where
  "get_open_disputes_for_hypothesis p hid =
     filter (\<lambda>d. d_hypothesis_id d = hid \<and> d_status d = DOPEN) (dict_values (disputes p))"

definition has_active_disputes :: "dispute_protocol \<Rightarrow> str \<Rightarrow> bool" where
  "has_active_disputes p hid \<longleftrightarrow> length (get_open_disputes_for_hypothesis p hid) > 0"

subsection \<open>Invariant\<close>

text \<open>
  The dictionary is a dictionary, a dispute is stored under its own identifier, and only a
  dispute that is not open carries a resolution.
\<close>

definition dispute_ok :: "dispute \<Rightarrow> bool" where
  "dispute_ok d \<longleftrightarrow> (d_status d = DOPEN \<longleftrightarrow> resolved_at d = None)
     \<and> (d_status d = RESOLVED \<longleftrightarrow> resolving_evidence d \<noteq> None)
     \<and> (d_status d = DOPEN \<longrightarrow> resolution_note d = None)"

definition protocol_inv :: "dispute_protocol \<Rightarrow> bool" where
  "protocol_inv p \<longleftrightarrow> wf_dict (disputes p)
     \<and> (\<forall>i d. dict_get (disputes p) i = Some d \<longrightarrow> dispute_id d = i \<and> dispute_ok d)"

lemma protocol_inv_new [simp]: "protocol_inv (new_protocol eng)"
  by (simp add: protocol_inv_def new_protocol_def)

lemma protocol_inv_set:
  "protocol_inv p \<Longrightarrow> dispute_id d = i \<Longrightarrow> dispute_ok d
     \<Longrightarrow> protocol_inv (p\<lparr>disputes := dict_set i d (disputes p)\<rparr>)"
  by (simp add: protocol_inv_def)

lemma protocol_invD:
  "protocol_inv p \<Longrightarrow> dict_get (disputes p) i = Some d \<Longrightarrow> dispute_id d = i \<and> dispute_ok d"
  by (simp add: protocol_inv_def)

lemma raise_dispute_inv:
  "protocol_inv p \<Longrightarrow> raise_dispute p now fresh h agent reason did = Inr (d, p') \<Longrightarrow> protocol_inv p'"
  by (auto simp: raise_dispute_def Let_def dispute_ok_def intro!: protocol_inv_set
      split: option.splits if_splits)

lemma get_dispute_Inr [simp]:
  "get_dispute p did = Inr d \<longleftrightarrow> dict_get (disputes p) did = Some d"
  by (simp add: get_dispute_def split: option.split)

lemma resolve_Inr:
  "resolve_with_evidence p now did h ev note = Inr (d', p', h') \<longleftrightarrow>
     (\<exists>d. dict_get (disputes p) did = Some d \<and> d_status d = DOPEN
        \<and> ev_hypothesis_id ev = hypothesis_id h \<and> \<not> blank note
        \<and> d' = d\<lparr>resolving_evidence := Some ev, resolution_note := Some (strip note),
                 d_status := RESOLVED, resolved_at := Some now\<rparr>
        \<and> p' = p\<lparr>disputes := dict_set did d' (disputes p)\<rparr>
        \<and> h' = incorporate_evidence (dp_engine p) now h ev)"
  by (auto simp: resolve_with_evidence_def bind_res_Inr_iff Let_def)

lemma dismiss_Inr:
  "dismiss_dispute p now did justification = Inr (d', p') \<longleftrightarrow>
     (\<exists>d. dict_get (disputes p) did = Some d \<and> d_status d = DOPEN
        \<and> 10 \<le> length (strip justification)
        \<and> d' = d\<lparr>resolution_note := Some (''DISMISSED: '' @ strip justification),
                 d_status := DISMISSED, resolved_at := Some now\<rparr>
        \<and> p' = p\<lparr>disputes := dict_set did d' (disputes p)\<rparr>)"
  by (auto simp: dismiss_dispute_def bind_res_Inr_iff Let_def)

lemma resolve_inv:
  "protocol_inv p \<Longrightarrow> resolve_with_evidence p now did h ev note = Inr (d', p', h') \<Longrightarrow> protocol_inv p'"
  by (auto simp: resolve_Inr dispute_ok_def dest: protocol_invD intro!: protocol_inv_set)

lemma dismiss_inv:
  "protocol_inv p \<Longrightarrow> dismiss_dispute p now did just = Inr (d', p') \<Longrightarrow> protocol_inv p'"
  by (auto simp: dismiss_Inr dispute_ok_def dest: protocol_invD intro!: protocol_inv_set)

lemmas dispute_ops_inv = raise_dispute_inv resolve_inv dismiss_inv

lemma has_active_iff:
  assumes "protocol_inv p"
  shows "has_active_disputes p hid \<longleftrightarrow>
     (\<exists>i d. dict_get (disputes p) i = Some d \<and> d_hypothesis_id d = hid \<and> d_status d = DOPEN)"
proof -
  have "wf_dict (disputes p)" using assms by (simp add: protocol_inv_def)
  then have mem: "d \<in> set (dict_values (disputes p)) \<longleftrightarrow> (\<exists>i. dict_get (disputes p) i = Some d)" for d
    by (rule dict_values_set)
  have "has_active_disputes p hid \<longleftrightarrow>
      (\<exists>d\<in>set (dict_values (disputes p)). d_hypothesis_id d = hid \<and> d_status d = DOPEN)"
    by (simp add: has_active_disputes_def get_open_disputes_for_hypothesis_def filter_empty_conv)
  then show ?thesis using mem by blast
qed

end
