(* ===== verification/Council_Session.thy ===== *)
theory Council_Session
  imports Council_Dispute
begin

section \<open>The deliberation session (\<open>phase4/council/session.py\<close>)\<close>

text \<open>
  A \<open>DeliberationSession\<close> as a record and its methods as functions that return the new
  session or the exception.  A method that raises leaves the session as it was: the one
  write that can precede a raise, \<open>votes.setdefault\<close> in \<open>cast_vote\<close>, changes nothing
  when the duplicate check after it fails, because that check needs a vote already there.

  \<open>council_op\<close>, \<open>apply_op\<close> and the relation \<open>council_step\<close> give the session as a state
  machine; the invariants are proved over its reachable states.
\<close>

datatype session_state = OPEN | IN_DISPUTE | DECISION_READY | DEADLOCKED

record vote =
  v_agent_id :: str
  v_hypothesis_id :: str
  approved :: bool
  rationale :: "str option"
  v_timestamp :: time

record history_entry =
  he_timestamp :: time
  he_round :: int
  he_state :: session_state
  he_message :: str

record session =
  session_id :: str
  s_hypothesis :: hypothesis
  max_rounds :: int
  approval_threshold :: float64
  current_round :: int
  s_state :: session_state
  protocol :: dispute_protocol
  votes :: "(int, vote list) dict"
  history :: "history_entry list"

text \<open>\<open>f"{x:.2f}"\<close> for a non-negative float.\<close>

definition fmt_2f :: "float64 \<Rightarrow> str" where
  "fmt_2f x = (let h = nat (hundredths x)
               in nat_str (h div 100) @ ''.'' @ [digit_char (h mod 100 div 10), digit_char (h mod 10)])"

definition record_history :: "time \<Rightarrow> str \<Rightarrow> session \<Rightarrow> session" where
  "record_history now msg s =
     s\<lparr>history := history s @
        [\<lparr>he_timestamp = now, he_round = current_round s, he_state = s_state s, he_message = msg\<rparr>]\<rparr>"

subsection \<open>Operations\<close>

definition new_session ::
  "time \<Rightarrow> str \<Rightarrow> hypothesis \<Rightarrow> int \<Rightarrow> float64 \<Rightarrow> dispute_protocol \<Rightarrow> str option \<Rightarrow> session result" where
  "new_session now fresh h rounds threshold p sid =
     raise_if (rounds < 1) DeliberationError
       (Inr (record_history now ''Session initialized in OPEN state.''
          \<lparr>session_id = (if falsy_opt sid then fresh else the sid), s_hypothesis = h,
           max_rounds = rounds, approval_threshold = threshold, current_round = 1,
           s_state = OPEN, protocol = p, votes = [(1, [])], history = []\<rparr>))"

definition session_raise_dispute ::
  "time \<Rightarrow> str \<Rightarrow> str \<Rightarrow> str \<Rightarrow> str option \<Rightarrow> session \<Rightarrow> (dispute \<times> session) result" where
  "session_raise_dispute now fresh agent reason did s =
     raise_if (s_state s \<in> {DECISION_READY, DEADLOCKED}) DeliberationError
       (bind_res (raise_dispute (protocol s) now fresh (s_hypothesis s) agent reason did)
         (\<lambda>(d, p). Inr (d, record_history now
             (''Dispute '' @ dispute_id d @ '' raised by agent '' @ agent @ ''.'')
             (s\<lparr>protocol := p, s_state := IN_DISPUTE\<rparr>))))"

definition sync_state_after_dispute_update :: "session \<Rightarrow> session" where
  "sync_state_after_dispute_update s =
     (if \<not> has_active_disputes (protocol s) (hypothesis_id (s_hypothesis s))
         \<and> s_state s = IN_DISPUTE
      then s\<lparr>s_state := OPEN\<rparr> else s)"

definition session_resolve_dispute ::
  "time \<Rightarrow> str \<Rightarrow> evidence \<Rightarrow> str \<Rightarrow> session \<Rightarrow> (dispute \<times> session) result" where
  "session_resolve_dispute now did ev note s =
     bind_res (resolve_with_evidence (protocol s) now did (s_hypothesis s) ev note)
       (\<lambda>(d, p, h). Inr (d, sync_state_after_dispute_update
          (record_history now (''Dispute '' @ did @ '' resolved with evidence.'')
            (s\<lparr>protocol := p, s_hypothesis := h\<rparr>))))"

definition session_dismiss_dispute ::
  "time \<Rightarrow> str \<Rightarrow> str \<Rightarrow> session \<Rightarrow> (dispute \<times> session) result" where
  "session_dismiss_dispute now did justification s =
     bind_res (dismiss_dispute (protocol s) now did justification)
       (\<lambda>(d, p). Inr (d, sync_state_after_dispute_update
          (record_history now (''Dispute '' @ did @ '' formally dismissed.'') (s\<lparr>protocol := p\<rparr>))))"

definition round_votes :: "session \<Rightarrow> vote list" where
  "round_votes s = (case dict_get (votes s) (current_round s) of None \<Rightarrow> [] | Some vs \<Rightarrow> vs)"

definition cast_vote ::
  "time \<Rightarrow> str \<Rightarrow> bool \<Rightarrow> str option \<Rightarrow> session \<Rightarrow> (vote \<times> session) result" where
  "cast_vote now agent approve why s =
     raise_if (s_state s = IN_DISPUTE) DeliberationError
     (raise_if (s_state s \<in> {DECISION_READY, DEADLOCKED}) DeliberationError
     (raise_if (\<exists>v\<in>set (round_votes s). v_agent_id v = agent) DeliberationError
       (let v = \<lparr>v_agent_id = agent, v_hypothesis_id = hypothesis_id (s_hypothesis s),
                 approved = approve, rationale = why, v_timestamp = now\<rparr>
        in Inr (v, s\<lparr>votes := dict_set (current_round s) (round_votes s @ [v]) (votes s)\<rparr>))))"

definition approvals :: "vote list \<Rightarrow> nat" where
  "approvals vs = length (filter approved vs)"

text \<open>\<open>approvals / total_votes\<close>, a float division.\<close>

definition approval_ratio :: "vote list \<Rightarrow> float64" where
  "approval_ratio vs = fl (of_nat (approvals vs) / of_nat (length vs))"

definition conclude_round :: "time \<Rightarrow> session \<Rightarrow> (session_state \<times> session) result" where
  "conclude_round now s =
     raise_if (s_state s = IN_DISPUTE) DeliberationError
     (if s_state s \<in> {DECISION_READY, DEADLOCKED} then Inr (s_state s, s)
      else
        (let vs = round_votes s; total = length vs
         in raise_if (vs = []) DeliberationError
            (if approval_threshold s \<le> approval_ratio vs
                \<and> hyp_status (s_hypothesis s) \<noteq> REJECTED
             then Inr (DECISION_READY, record_history now
                    (''Round '' @ int_str (current_round s) @ '' reached decision ('' @
                      nat_str (approvals vs) @ ''/'' @ nat_str total @ '' approved, ratio='' @
                      fmt_2f (approval_ratio vs) @ '').'')
                    (s\<lparr>s_state := DECISION_READY\<rparr>))
             else if max_rounds s \<le> current_round s
             then Inr (DEADLOCKED, record_history now
                    (''Max rounds ('' @ int_str (max_rounds s) @
                      '') exceeded without consensus. Session marked DEADLOCKED.'')
                    (s\<lparr>s_state := DEADLOCKED\<rparr>))
             else Inr (OPEN, record_history now
                    (''Advanced to round '' @ int_str (current_round s + 1) @ '' (Open).'')
                    (s\<lparr>current_round := current_round s + 1,
                       votes := dict_set (current_round s + 1) [] (votes s), s_state := OPEN\<rparr>)))))"

subsection \<open>The session as a state machine\<close>

datatype council_op =
    RaiseDispute time str str str "str option"
  | ResolveDispute time str evidence str
  | DismissDispute time str str
  | CastVote time str bool "str option"
  | ConcludeRound time

fun apply_op :: "session \<Rightarrow> council_op \<Rightarrow> session result" where
  "apply_op s (RaiseDispute now fresh agent reason did) =
     map_sum id snd (session_raise_dispute now fresh agent reason did s)"
| "apply_op s (ResolveDispute now did ev note) = map_sum id snd (session_resolve_dispute now did ev note s)"
| "apply_op s (DismissDispute now did just) = map_sum id snd (session_dismiss_dispute now did just s)"
| "apply_op s (CastVote now agent ok why) = map_sum id snd (cast_vote now agent ok why s)"
| "apply_op s (ConcludeRound now) = map_sum id snd (conclude_round now s)"

inductive council_step :: "session \<Rightarrow> session \<Rightarrow> bool" where
  step: "apply_op s op = Inr s' \<Longrightarrow> council_step s s'"

text \<open>Sessions that own their dispute protocol: it starts empty, as the constructor's default.\<close>

inductive reachable :: "session \<Rightarrow> bool" where
  init: "new_session now fresh h rounds threshold (new_protocol eng) sid = Inr s \<Longrightarrow> reachable s"
| advance: "reachable s \<Longrightarrow> council_step s s' \<Longrightarrow> reachable s'"

lemma map_sum_Inr [simp]: "map_sum f g m = Inr y \<longleftrightarrow> (\<exists>x. m = Inr x \<and> y = g x)"
  by (cases m) auto

inductive_cases council_stepE: "council_step s s'"

subsection \<open>Frame lemmas\<close>

lemma record_history_simps [simp]:
  "session_id (record_history now m s) = session_id s"
  "s_hypothesis (record_history now m s) = s_hypothesis s"
  "max_rounds (record_history now m s) = max_rounds s"
  "approval_threshold (record_history now m s) = approval_threshold s"
  "current_round (record_history now m s) = current_round s"
  "s_state (record_history now m s) = s_state s"
  "protocol (record_history now m s) = protocol s"
  "votes (record_history now m s) = votes s"
  "round_votes (record_history now m s) = round_votes s"
  by (simp_all add: record_history_def round_votes_def)

lemma sync_simps [simp]:
  "s_hypothesis (sync_state_after_dispute_update s) = s_hypothesis s"
  "max_rounds (sync_state_after_dispute_update s) = max_rounds s"
  "approval_threshold (sync_state_after_dispute_update s) = approval_threshold s"
  "current_round (sync_state_after_dispute_update s) = current_round s"
  "protocol (sync_state_after_dispute_update s) = protocol s"
  "votes (sync_state_after_dispute_update s) = votes s"
  "round_votes (sync_state_after_dispute_update s) = round_votes s"
  by (simp_all add: sync_state_after_dispute_update_def round_votes_def)

lemma round_votes_update [simp]:
  "round_votes (s\<lparr>protocol := p\<rparr>) = round_votes s"
  "round_votes (s\<lparr>s_hypothesis := h\<rparr>) = round_votes s"
  "round_votes (s\<lparr>s_state := st\<rparr>) = round_votes s"
  by (simp_all add: round_votes_def)

lemma apply_op_frame:
  "apply_op s op = Inr s' \<Longrightarrow>
     max_rounds s' = max_rounds s \<and> approval_threshold s' = approval_threshold s
     \<and> hypothesis_id (s_hypothesis s') = hypothesis_id (s_hypothesis s)"
  by (cases op)
    (auto simp: session_raise_dispute_def session_resolve_dispute_def session_dismiss_dispute_def
      cast_vote_def conclude_round_def bind_res_Inr_iff resolve_Inr Let_def split: if_splits)

subsection \<open>Invariant\<close>

abbreviation sess_hyp :: "session \<Rightarrow> str" where
  "sess_hyp s \<equiv> hypothesis_id (s_hypothesis s)"

definition ballots_ok :: "session \<Rightarrow> bool" where
  "ballots_ok s \<longleftrightarrow> (\<forall>r vs. dict_get (votes s) r = Some vs \<longrightarrow>
      distinct (map v_agent_id vs) \<and> 1 \<le> r \<and> r \<le> current_round s)"

definition decided_ok :: "session \<Rightarrow> bool" where
  "decided_ok s \<longleftrightarrow> (s_state s = DECISION_READY \<longrightarrow>
      round_votes s \<noteq> [] \<and> approval_threshold s \<le> approval_ratio (round_votes s)
      \<and> hyp_status (s_hypothesis s) \<noteq> REJECTED)"

definition own_disputes :: "session \<Rightarrow> bool" where
  "own_disputes s \<longleftrightarrow>
     (\<forall>i d. dict_get (disputes (protocol s)) i = Some d \<longrightarrow> d_hypothesis_id d = sess_hyp s)"

definition quiet_ok :: "session \<Rightarrow> bool" where
  "quiet_ok s \<longleftrightarrow> (s_state s \<noteq> IN_DISPUTE \<longrightarrow>
      (\<forall>i d. dict_get (disputes (protocol s)) i = Some d \<longrightarrow> d_status d \<noteq> DOPEN))"

definition session_inv :: "session \<Rightarrow> bool" where
  "session_inv s \<longleftrightarrow> protocol_inv (protocol s) \<and> own_disputes s \<and> quiet_ok s \<and> ballots_ok s
     \<and> decided_ok s \<and> 1 \<le> current_round s \<and> current_round s \<le> max_rounds s"

lemmas session_inv_defs = session_inv_def own_disputes_def quiet_ok_def ballots_ok_def decided_ok_def

lemma new_session_inv:
  "new_session now fresh h rounds threshold (new_protocol eng) sid = Inr s \<Longrightarrow> session_inv s"
  by (auto simp: new_session_def session_inv_defs) (simp_all add: new_protocol_def split: if_splits)

lemma quiet_no_active:
  "protocol_inv (protocol s) \<Longrightarrow> own_disputes s \<Longrightarrow>
     has_active_disputes (protocol s) (sess_hyp s) \<longleftrightarrow>
     (\<exists>i d. dict_get (disputes (protocol s)) i = Some d \<and> d_status d = DOPEN)"
  by (auto simp: has_active_iff own_disputes_def)

text \<open>A dispute that is still open can only be closed while the session is in dispute.\<close>

lemma open_dispute_state:
  "session_inv s \<Longrightarrow> dict_get (disputes (protocol s)) i = Some d \<Longrightarrow> d_status d = DOPEN
     \<Longrightarrow> s_state s = IN_DISPUTE"
  by (auto simp: session_inv_def quiet_ok_def)

lemma raise_dispute_keeps_own:
  assumes "raise_dispute p now fresh h agent reason did = Inr (d, p')"
    and "\<forall>i d. dict_get (disputes p) i = Some d \<longrightarrow> d_hypothesis_id d = hypothesis_id h"
  shows "\<forall>i d. dict_get (disputes p') i = Some d \<longrightarrow> d_hypothesis_id d = hypothesis_id h"
  using assms by (auto simp: raise_dispute_def Let_def split: option.splits if_splits)

lemma session_raise_dispute_inv:
  assumes "session_inv s" "session_raise_dispute now fresh agent reason did s = Inr (d, s')"
  shows "session_inv s'"
proof -
  obtain p where p: "raise_dispute (protocol s) now fresh (s_hypothesis s) agent reason did = Inr (d, p)"
    and s': "s' = record_history now (''Dispute '' @ dispute_id d @ '' raised by agent '' @ agent @ ''.'')
      (s\<lparr>protocol := p, s_state := IN_DISPUTE\<rparr>)"
    using assms(2) by (auto simp: session_raise_dispute_def bind_res_Inr_iff)
  with assms(1) raise_dispute_inv [OF _ p] raise_dispute_keeps_own [OF p] show ?thesis
    by (simp add: session_inv_defs)
qed

lemma closing_dispute_inv:
  assumes inv: "session_inv s" and d: "dict_get (disputes (protocol s)) i = Some d" "d_status d = DOPEN"
    and d': "d_hypothesis_id d' = d_hypothesis_id d"
    and p': "protocol s' = (protocol s)\<lparr>disputes := dict_set i d' (disputes (protocol s))\<rparr>"
      "protocol_inv (protocol s')"
    and frame: "sess_hyp s' = sess_hyp s" "votes s' = votes s" "current_round s' = current_round s"
      "max_rounds s' = max_rounds s" "s_state s' = IN_DISPUTE"
  shows "session_inv (sync_state_after_dispute_update s')"
proof -
  have own: "own_disputes s'"
    using inv d d' p'(1) frame(1) by (auto simp: session_inv_def own_disputes_def)
  with inv p' frame show ?thesis
    using quiet_no_active [OF p'(2) own]
    by (auto simp: session_inv_defs sync_state_after_dispute_update_def)
qed

lemma session_resolve_dispute_inv:
  assumes "session_inv s" "session_resolve_dispute now did ev note s = Inr (d', s')"
  shows "session_inv s'"
proof -
  obtain p h where r: "resolve_with_evidence (protocol s) now did (s_hypothesis s) ev note = Inr (d', p, h)"
    and s': "s' = sync_state_after_dispute_update
      (record_history now (''Dispute '' @ did @ '' resolved with evidence.'') (s\<lparr>protocol := p, s_hypothesis := h\<rparr>))"
    using assms(2) by (auto simp: session_resolve_dispute_def bind_res_Inr_iff)
  from r obtain d where d: "dict_get (disputes (protocol s)) did = Some d" "d_status d = DOPEN"
    "d_hypothesis_id d' = d_hypothesis_id d" "p = (protocol s)\<lparr>disputes := dict_set did d' (disputes (protocol s))\<rparr>"
    "hypothesis_id h = sess_hyp s"
    by (auto simp: resolve_Inr)
  have "protocol_inv p" using assms(1) resolve_inv [OF _ r] by (simp add: session_inv_def)
  with d s' show ?thesis
    using open_dispute_state [OF assms(1) d(1,2)]
    by (auto intro!: closing_dispute_inv [OF assms(1) d(1,2)])
qed

lemma session_dismiss_dispute_inv:
  assumes "session_inv s" "session_dismiss_dispute now did just s = Inr (d', s')"
  shows "session_inv s'"
proof -
  obtain p where r: "dismiss_dispute (protocol s) now did just = Inr (d', p)"
    and s': "s' = sync_state_after_dispute_update
      (record_history now (''Dispute '' @ did @ '' formally dismissed.'') (s\<lparr>protocol := p\<rparr>))"
    using assms(2) by (auto simp: session_dismiss_dispute_def bind_res_Inr_iff)
  from r obtain d where d: "dict_get (disputes (protocol s)) did = Some d" "d_status d = DOPEN"
    "d_hypothesis_id d' = d_hypothesis_id d" "p = (protocol s)\<lparr>disputes := dict_set did d' (disputes (protocol s))\<rparr>"
    by (auto simp: dismiss_Inr)
  have "protocol_inv p" using assms(1) dismiss_inv [OF _ r] by (simp add: session_inv_def)
  with d s' show ?thesis
    using open_dispute_state [OF assms(1) d(1,2)]
    by (auto intro!: closing_dispute_inv [OF assms(1) d(1,2)])
qed

lemma cast_vote_inv:
  assumes "session_inv s" "cast_vote now agent ok why s = Inr (v, s')"
  shows "session_inv s'"
proof -
  have v: "v_agent_id v = agent" and s': "s' = s\<lparr>votes := dict_set (current_round s) (round_votes s @ [v]) (votes s)\<rparr>"
    and st: "s_state s \<notin> {IN_DISPUTE, DECISION_READY, DEADLOCKED}"
    and new: "\<forall>v\<in>set (round_votes s). v_agent_id v \<noteq> agent"
    using assms(2) by (auto simp: cast_vote_def Let_def)
  have "distinct (map v_agent_id (round_votes s))"
    using assms(1) by (auto simp: session_inv_def ballots_ok_def round_votes_def split: option.splits)
  with new v have "distinct (map v_agent_id (round_votes s @ [v]))" by auto
  with assms(1) st show ?thesis
    by (auto simp: session_inv_defs s')
qed

lemma conclude_roundE:
  assumes "conclude_round now s = Inr (st, s')"
  obtains (idle) "s_state s \<in> {DECISION_READY, DEADLOCKED}" "s' = s" "st = s_state s"
  | (decided) m where "s_state s = OPEN" "round_votes s \<noteq> []"
      "approval_threshold s \<le> approval_ratio (round_votes s)" "hyp_status (s_hypothesis s) \<noteq> REJECTED"
      "st = DECISION_READY" "s' = record_history now m (s\<lparr>s_state := DECISION_READY\<rparr>)"
  | (deadlocked) m where "s_state s = OPEN" "round_votes s \<noteq> []" "max_rounds s \<le> current_round s"
      "st = DEADLOCKED" "s' = record_history now m (s\<lparr>s_state := DEADLOCKED\<rparr>)"
  | (advanced) m where "s_state s = OPEN" "round_votes s \<noteq> []" "current_round s < max_rounds s"
      "st = OPEN"
      "s' = record_history now m (s\<lparr>current_round := current_round s + 1,
         votes := dict_set (current_round s + 1) [] (votes s), s_state := OPEN\<rparr>)"
proof -
  note def = assms [unfolded conclude_round_def Let_def raise_if_Inr_iff]
  show thesis
  proof (cases "s_state s \<in> {DECISION_READY, DEADLOCKED}")
    case True
    with def show ?thesis by (intro idle) auto
  next
    case False
    with def have o: "s_state s = OPEN" by (cases "s_state s") auto
    from def o have vs: "round_votes s \<noteq> []" by auto
    consider (d) "approval_threshold s \<le> approval_ratio (round_votes s) \<and> hyp_status (s_hypothesis s) \<noteq> REJECTED"
      | (x) "\<not> (approval_threshold s \<le> approval_ratio (round_votes s) \<and> hyp_status (s_hypothesis s) \<noteq> REJECTED)"
          "max_rounds s \<le> current_round s"
      | (a) "\<not> (approval_threshold s \<le> approval_ratio (round_votes s) \<and> hyp_status (s_hypothesis s) \<noteq> REJECTED)"
          "current_round s < max_rounds s"
      by linarith
    then show ?thesis
    proof cases
      case d
      with def o vs show ?thesis by (intro decided) (auto simp del: append.simps)
    next
      case x
      with def o vs show ?thesis by (intro deadlocked) (auto simp del: append.simps)
    next
      case a
      with def o vs show ?thesis by (intro advanced) (auto simp del: append.simps)
    qed
  qed
qed

lemma conclude_round_inv:
  assumes inv: "session_inv s" and c: "conclude_round now s = Inr (st, s')"
  shows "session_inv s'"
  using c
proof (cases rule: conclude_roundE)
  case (advanced m)
  have "ballots_ok s" using inv by (simp add: session_inv_def)
  then have old: "distinct (map v_agent_id vs) \<and> 1 \<le> r \<and> r \<le> current_round s + 1"
    if "dict_get (votes s) r = Some vs" for r vs
    using that by (force simp: ballots_ok_def)
  have "ballots_ok s'"
    unfolding ballots_ok_def advanced(5)
    using inv old by (auto simp: session_inv_def)
  with inv advanced show ?thesis
    by (simp add: session_inv_def own_disputes_def quiet_ok_def decided_ok_def)
qed (use inv in \<open>auto simp: session_inv_defs\<close>)

lemma apply_op_inv: "session_inv s \<Longrightarrow> apply_op s op = Inr s' \<Longrightarrow> session_inv s'"
  by (cases op)
    (auto intro: session_raise_dispute_inv session_resolve_dispute_inv session_dismiss_dispute_inv
      cast_vote_inv conclude_round_inv)

lemma reachable_inv: "reachable s \<Longrightarrow> session_inv s"
  by (induction rule: reachable.induct) (auto elim!: council_stepE intro: new_session_inv apply_op_inv)

subsection \<open>What the session guarantees\<close>

text \<open>
  C35 (safety).  A session reaches \<open>DECISION_READY\<close> only with every dispute on its
  hypothesis closed, a concluded round whose voters are pairwise distinct and whose
  approval ratio meets the threshold, within the round budget, and with a hypothesis that
  belief revision has not rejected.
\<close>

theorem decision_ready_safe:
  assumes "reachable s" and "s_state s = DECISION_READY"
  shows "\<not> has_active_disputes (protocol s) (sess_hyp s)
    \<and> round_votes s \<noteq> [] \<and> distinct (map v_agent_id (round_votes s))
    \<and> approval_threshold s \<le> approval_ratio (round_votes s)
    \<and> hyp_status (s_hypothesis s) \<noteq> REJECTED
    \<and> 1 \<le> current_round s \<and> current_round s \<le> max_rounds s"
proof -
  have inv: "session_inv s" using assms(1) by (rule reachable_inv)
  then have "\<not> has_active_disputes (protocol s) (sess_hyp s)"
    using assms(2) quiet_no_active [of s] by (auto simp: session_inv_def quiet_ok_def)
  moreover have "distinct (map v_agent_id (round_votes s))"
    using inv by (auto simp: session_inv_def ballots_ok_def round_votes_def split: option.splits)
  ultimately show ?thesis
    using inv assms(2) by (simp add: session_inv_def decided_ok_def)
qed

text \<open>
  Executions: a caller that catches the exceptions issues operations one after the other.
\<close>

fun council_run :: "session \<Rightarrow> council_op list \<Rightarrow> session" where
  "council_run s [] = s"
| "council_run s (op # ops) =
     council_run (case apply_op s op of Inl _ \<Rightarrow> s | Inr s' \<Rightarrow> s') ops"

text \<open>The rounds a run concludes: calls of \<open>conclude_round\<close> that do something.\<close>

fun concluded :: "session \<Rightarrow> council_op list \<Rightarrow> nat" where
  "concluded s [] = 0"
| "concluded s (op # ops) =
     (case apply_op s op of
        Inl _ \<Rightarrow> concluded s ops
      | Inr s' \<Rightarrow>
          (case op of
             ConcludeRound _ \<Rightarrow> (if s_state s = OPEN then 1 else 0) + concluded s' ops
           | _ \<Rightarrow> concluded s' ops))"

lemma council_run_inv: "session_inv s \<Longrightarrow> session_inv (council_run s ops)"
  by (induction ops arbitrary: s) (auto intro: apply_op_inv split: sum.split)

definition terminal :: "session \<Rightarrow> bool" where
  "terminal s \<longleftrightarrow> s_state s = DECISION_READY \<or> s_state s = DEADLOCKED"

text \<open>In a terminal state every operation raises, except that \<open>conclude_round\<close> is a no-op.\<close>

lemma terminal_apply_op:
  assumes "session_inv s" "terminal s" "apply_op s op = Inr s'"
  shows "s' = s"
proof (cases op)
  case (ResolveDispute now did ev msg)
  with assms(3) obtain d where "dict_get (disputes (protocol s)) did = Some d" "d_status d = DOPEN"
    by (auto simp: session_resolve_dispute_def bind_res_Inr_iff resolve_Inr)
  with open_dispute_state [OF assms(1)] assms(2) show ?thesis by (auto simp: terminal_def)
next
  case (DismissDispute now did just)
  with assms(3) obtain d where "dict_get (disputes (protocol s)) did = Some d" "d_status d = DOPEN"
    by (auto simp: session_dismiss_dispute_def bind_res_Inr_iff dismiss_Inr)
  with open_dispute_state [OF assms(1)] assms(2) show ?thesis by (auto simp: terminal_def)
next
  case (ConcludeRound now)
  with assms show ?thesis by (auto simp: terminal_def elim: conclude_roundE)
qed (use assms in \<open>auto simp: terminal_def session_raise_dispute_def cast_vote_def\<close>)

lemma terminal_run: "session_inv s \<Longrightarrow> terminal s \<Longrightarrow> council_run s ops = s \<and> concluded s ops = 0"
proof (induction ops)
  case (Cons op ops)
  then show ?case
    using terminal_apply_op [OF Cons.prems]
    by (cases "apply_op s op") (auto simp: terminal_def split: council_op.split)
qed simp

text \<open>Each round that is concluded spends one of the rounds that are left.\<close>

definition rounds_left :: "session \<Rightarrow> nat" where
  "rounds_left s = (if terminal s then 0 else nat (max_rounds s - current_round s) + 1)"

lemma rounds_left_step:
  assumes "session_inv s" "apply_op s op = Inr s'"
  shows "(case op of ConcludeRound _ \<Rightarrow> if s_state s = OPEN then 1 else 0 | _ \<Rightarrow> 0) + rounds_left s'
    \<le> rounds_left s"
proof (cases "terminal s")
  case True
  with terminal_apply_op [OF assms(1) True assms(2)] show ?thesis
    by (auto simp: terminal_def split: council_op.split)
next
  case False
  show ?thesis
  proof (cases op)
    case (ConcludeRound now)
    with assms(2) obtain st where "conclude_round now s = Inr (st, s')" by auto
    then show ?thesis
      using assms(1) False ConcludeRound
      by (cases rule: conclude_roundE) (auto simp: rounds_left_def terminal_def session_inv_def)
  qed (use assms(2) False in \<open>auto simp: rounds_left_def terminal_def session_raise_dispute_def
      session_resolve_dispute_def session_dismiss_dispute_def cast_vote_def Let_def bind_res_Inr_iff
      sync_state_after_dispute_update_def split: if_splits\<close>)
qed

lemma concluded_bound: "session_inv s \<Longrightarrow> concluded s ops \<le> rounds_left s"
proof (induction ops arbitrary: s)
  case (Cons op ops)
  show ?case
  proof (cases "apply_op s op")
    case (Inl e)
    with Cons show ?thesis by simp
  next
    case (Inr s')
    have "concluded s' ops \<le> rounds_left s'"
      using Cons.IH [OF apply_op_inv [OF Cons.prems Inr]] .
    with rounds_left_step [OF Cons.prems Inr] Inr show ?thesis
      by (auto split: council_op.splits)
  qed
qed simp

text \<open>
  C37 (termination).  Whatever sequence of operations is issued on a session (disputes,
  evidence, votes, conclusions, failing calls included), at most \<open>max_rounds\<close> rounds are
  ever concluded, and once the session is terminal nothing changes it any more.
\<close>

theorem deliberation_bounded:
  assumes "reachable s"
  shows "concluded s ops \<le> nat (max_rounds s)
    \<and> (terminal s \<longrightarrow> council_run s ops = s)"
proof -
  have inv: "session_inv s" using assms by (rule reachable_inv)
  have "rounds_left s \<le> nat (max_rounds s)"
    using inv by (auto simp: rounds_left_def session_inv_def)
  then show ?thesis
    using concluded_bound [OF inv, of ops] terminal_run [OF inv, of ops] by auto
qed

text \<open>
  Property (a defect).  \<open>raise_dispute\<close> is idempotent on the identifier of a dispute: given an
  identifier that is already known it returns the stored dispute, also when that one is
  resolved or dismissed, and the session then goes to \<open>IN_DISPUTE\<close> although no dispute
  is open.  In that state every vote and every conclusion raises, and so does every
  attempt to close a dispute: only a further dispute gets the session going again.
\<close>

theorem reraised_dispute_wedges:
  assumes "session_inv s" and "s_state s = OPEN"
    and "dict_get (disputes (protocol s)) i = Some d"
    and "d_reason d = strip r" and "\<not> blank r"
  shows "\<exists>s'. session_raise_dispute now fresh (raised_by_agent_id d) r (Some i) s = Inr (d, s')
    \<and> s_state s' = IN_DISPUTE
    \<and> \<not> has_active_disputes (protocol s') (sess_hyp s')
    \<and> (\<forall>op. (\<forall>t f a x y. op \<noteq> RaiseDispute t f a x y) \<longrightarrow> (\<exists>e. apply_op s' op = Inl e))"
proof -
  let ?s' = "record_history now
    (''Dispute '' @ dispute_id d @ '' raised by agent '' @ raised_by_agent_id d @ ''.'')
    (s\<lparr>s_state := IN_DISPUTE\<rparr>)"
  have own: "d_hypothesis_id d = sess_hyp s"
    using assms(1,3) by (simp add: session_inv_def own_disputes_def)
  have call: "session_raise_dispute now fresh (raised_by_agent_id d) r (Some i) s = Inr (d, ?s')"
    using assms own by (simp add: session_raise_dispute_def raise_dispute_def)
  have none_open: "d_status e \<noteq> DOPEN" if "dict_get (disputes (protocol s)) j = Some e" for j e
    using assms(1,2) that by (auto simp: session_inv_def quiet_ok_def)
  have "\<not> has_active_disputes (protocol ?s') (sess_hyp ?s')"
    using none_open assms(1) by (auto simp: has_active_iff session_inv_def)
  moreover have "\<exists>e. apply_op ?s' op = Inl e" if "\<forall>t f a x y. op \<noteq> RaiseDispute t f a x y" for op
    using that none_open
    by (cases op) (auto simp: session_resolve_dispute_def session_dismiss_dispute_def cast_vote_def
        conclude_round_def resolve_with_evidence_def dismiss_dispute_def get_dispute_def
        split: option.split)
  ultimately show ?thesis using call by auto
qed

subsection \<open>Concrete sessions\<close>

definition demo_hypothesis :: hypothesis where
  "demo_hypothesis =
     \<lparr>hypothesis_id = ''h1'', hyp_task_id = ''t1'', hyp_statement = ''cache the index'',
      hyp_status = PROPOSED, confidence = 1/2, supporting_evidence = [],
      contradicting_evidence = [], alternatives = [], hyp_created_at = 0, hyp_updated_at = 0\<rparr>"

definition demo_session :: session where
  "demo_session = projr (new_session 0 ''u0'' demo_hypothesis 2 (fl (3/5))
     (new_protocol default_belief_engine) (Some ''s1''))"

definition demo_ready :: session where
  "demo_ready = council_run demo_session [CastVote 1 ''ada'' True None, ConcludeRound 2]"

definition demo_disputed :: session where
  "demo_disputed = council_run demo_session
     [RaiseDispute 1 ''u1'' ''bo'' ''no rollback plan'' (Some ''d1''),
      DismissDispute 2 ''d1'' ''covered by the runbook'']"

lemma reachable_run: "reachable s \<Longrightarrow> reachable (council_run s ops)"
proof (induction ops arbitrary: s)
  case (Cons op ops)
  have "reachable s'" if "apply_op s op = Inr s'" for s'
    using reachable.advance [OF Cons.prems council_step.step [OF that]] .
  with Cons show ?case by (simp split: sum.split)
qed simp

lemma demo_session_reachable: "reachable demo_session"
  by (rule reachable.init [where now = 0 and fresh = "''u0''" and h = demo_hypothesis and rounds = 2
        and threshold = "fl (3/5)" and eng = default_belief_engine and sid = "Some ''s1''"])
    (simp add: demo_session_def new_session_def)

lemmas demo_defs = demo_session_def demo_hypothesis_def new_session_def new_protocol_def

theorem decision_ready_safe_witness:
  "reachable demo_ready \<and> s_state demo_ready = DECISION_READY
    \<and> \<not> has_active_disputes (protocol demo_ready) (sess_hyp demo_ready)"
proof -
  have r: "reachable demo_ready"
    unfolding demo_ready_def by (rule reachable_run) (rule demo_session_reachable)
  have st: "s_state demo_ready = DECISION_READY" by code_simp
  from decision_ready_safe [OF r st] r st show ?thesis by simp
qed

theorem deliberation_bounded_witness:
  "reachable demo_ready \<and> concluded demo_ready [ConcludeRound 5] \<le> nat (max_rounds demo_ready)
    \<and> council_run demo_ready [ConcludeRound 5] = demo_ready"
proof -
  have r: "reachable demo_ready"
    unfolding demo_ready_def by (rule reachable_run) (rule demo_session_reachable)
  have t: "terminal demo_ready" by code_simp
  from deliberation_bounded [OF r, of "[ConcludeRound 5]"] r t show ?thesis by simp
qed

theorem reraised_dispute_wedges_witness:
  "\<exists>s'. session_raise_dispute 3 ''u2'' ''bo'' ''no rollback plan'' (Some ''d1'') demo_disputed
      = Inr (the (dict_get (disputes (protocol demo_disputed)) ''d1''), s')
    \<and> s_state s' = IN_DISPUTE \<and> \<not> has_active_disputes (protocol s') (sess_hyp s')
    \<and> (\<exists>e. apply_op s' (CastVote 4 ''ada'' True None) = Inl e)"
proof -
  let ?d = "the (dict_get (disputes (protocol demo_disputed)) ''d1'')"
  have inv: "session_inv demo_disputed"
    unfolding demo_disputed_def by (intro reachable_inv reachable_run demo_session_reachable)
  have st: "s_state demo_disputed = OPEN" by code_simp
  have ex: "dict_get (disputes (protocol demo_disputed)) ''d1'' \<noteq> None" by code_simp
  then have d: "dict_get (disputes (protocol demo_disputed)) ''d1'' = Some ?d" by simp
  have r: "d_reason ?d = strip ''no rollback plan''" by code_simp
  have nb: "\<not> blank ''no rollback plan''" by code_simp
  have by_bo: "raised_by_agent_id ?d = ''bo''" by code_simp
  from reraised_dispute_wedges [OF inv st d r nb, of 3 "''u2''"] show ?thesis
    unfolding by_bo by blast
qed

end
