(* ===== verification/Authority_Adapter.thy ===== *)
theory Authority_Adapter
  imports Council_Session Adaptation
begin

section \<open>Decision readiness (\<open>phase4/authority/adapter.py\<close>)\<close>

text \<open>
  \<open>CouncilDecisionAdapter.evaluate\<close> turns a deliberation session into the
  \<open>DecisionReadiness\<close> report that the authority engine's gate reads.  The fresh report
  identifier and the clock reading are arguments; the report's \<open>created_at\<close> is the
  instant itself, which the code prints with \<open>isoformat\<close>.
\<close>

record decision_readiness =
  report_id :: str
  dr_session_id :: str
  dr_hypothesis_id :: str
  dr_task_id :: str
  dr_session_state :: session_state
  dr_hypothesis_status :: hypothesis_status
  dr_confidence :: float64
  open_critical_disputes :: nat
  total_disputes :: nat
  dr_risk_level :: risk_level
  evidence_verified :: bool
  evidence_count :: nat
  evaluated_revision :: str
  is_decision_ready :: bool
  dr_summary :: str
  dr_created_at :: time

fun hypothesis_status_value :: "hypothesis_status \<Rightarrow> str" where
  "hypothesis_status_value PROPOSED = ''PROPOSED''"
| "hypothesis_status_value ACTIVE = ''ACTIVE''"
| "hypothesis_status_value TESTING = ''TESTING''"
| "hypothesis_status_value SUPPORTED = ''SUPPORTED''"
| "hypothesis_status_value WEAKENED = ''WEAKENED''"
| "hypothesis_status_value REJECTED = ''REJECTED''"
| "hypothesis_status_value SUPERSEDED = ''SUPERSEDED''"

fun session_state_value :: "session_state \<Rightarrow> str" where
  "session_state_value OPEN = ''OPEN''"
| "session_state_value IN_DISPUTE = ''IN_DISPUTE''"
| "session_state_value DECISION_READY = ''DECISION_READY''"
| "session_state_value DEADLOCKED = ''DEADLOCKED''"

text \<open>\<open>f"{b}"\<close> for a \<open>bool\<close>.\<close>

definition py_bool :: "bool \<Rightarrow> str" where
  "py_bool b = (if b then ''True'' else ''False'')"

text \<open>
  The evidence check of \<open>evaluate\<close>: with a revision map every supporting evidence must be
  recorded at the current revision; without one the revision only has to be non-blank.
\<close>

definition evidence_check :: "(str, str) dict option \<Rightarrow> str \<Rightarrow> evidence list \<Rightarrow> bool" where
  "evidence_check revs cur evs =
     (case revs of
        Some m \<Rightarrow> (\<forall>e\<in>set evs. dict_get m (evidence_id e) = Some cur)
      | None \<Rightarrow> \<not> blank cur)"

definition council_evaluate ::
  "str \<Rightarrow> time \<Rightarrow> session \<Rightarrow> str \<Rightarrow> risk_level \<Rightarrow> (str, str) dict option \<Rightarrow> decision_readiness" where
  "council_evaluate fresh now s cur risk revs =
     (let h = s_hypothesis s;
          opened = length (get_open_disputes_for_hypothesis (protocol s) (hypothesis_id h));
          total = length (filter (\<lambda>d. d_hypothesis_id d = hypothesis_id h) (dict_values (disputes (protocol s))));
          verified = evidence_check revs cur (supporting_evidence h);
          ready = (s_state s = DECISION_READY \<and> opened = 0
                   \<and> hyp_status h \<in> {ACTIVE, SUPPORTED} \<and> verified)
      in \<lparr>report_id = fresh, dr_session_id = session_id s, dr_hypothesis_id = hypothesis_id h,
          dr_task_id = hyp_task_id h, dr_session_state = s_state s,
          dr_hypothesis_status = hyp_status h, dr_confidence = confidence h,
          open_critical_disputes = opened, total_disputes = total, dr_risk_level = risk,
          evidence_verified = verified, evidence_count = length (supporting_evidence h),
          evaluated_revision = cur, is_decision_ready = ready,
          dr_summary = ''Council session '' @ session_id s @ '' evaluated for hypothesis '' @ hypothesis_id h
            @ '' (Confidence: '' @ fmt_2f (confidence h) @ '', Status: '' @ hypothesis_status_value (hyp_status h)
            @ '', State: '' @ session_state_value (s_state s) @ '', Open Disputes: '' @ nat_str opened
            @ '', Risk: '' @ risk_value risk @ '', Evidence Verified: '' @ py_bool verified @ '').'',
          dr_created_at = now\<rparr>)"

subsection \<open>What a ready report means\<close>

lemma council_evaluate_simps [simp]:
  "is_decision_ready (council_evaluate fresh now s cur risk revs) \<longleftrightarrow>
     s_state s = DECISION_READY
     \<and> get_open_disputes_for_hypothesis (protocol s) (hypothesis_id (s_hypothesis s)) = []
     \<and> hyp_status (s_hypothesis s) \<in> {ACTIVE, SUPPORTED}
     \<and> evidence_check revs cur (supporting_evidence (s_hypothesis s))"
  "evidence_verified (council_evaluate fresh now s cur risk revs) \<longleftrightarrow>
     evidence_check revs cur (supporting_evidence (s_hypothesis s))"
  "dr_risk_level (council_evaluate fresh now s cur risk revs) = risk"
  "open_critical_disputes (council_evaluate fresh now s cur risk revs)
     = length (get_open_disputes_for_hypothesis (protocol s) (hypothesis_id (s_hypothesis s)))"
  by (simp_all add: council_evaluate_def Let_def)

end
