(* ===== verification/Authority_Models.thy ===== *)
theory Authority_Models
  imports Py_Platform Py_Fnmatch Authority_Adapter
begin

section \<open>Authority requests, rules, policies and decisions (\<open>phase4/authority/models.py\<close>)\<close>

text \<open>
  The frozen dataclasses as records, their \<open>__post_init__\<close> checks as functions that return
  the record or raise, and \<open>AuthorityRequest.create\<close>, which derives the request identifier
  from the canonical JSON of the request.  \<open>unique_keys\<close> is the check
  \<open>len(keys) != len(set(keys))\<close>.
\<close>

datatype decision = ALLOW | DENY

fun decision_value :: "decision \<Rightarrow> str" where
  "decision_value ALLOW = ''allow''"
| "decision_value DENY = ''deny''"

record authority_request =
  ar_request_id :: str
  ar_agent_identity :: str
  ar_action :: str
  ar_resource :: str
  ar_context_packet_id :: str
  ar_requested_at :: str
  ar_agent_role :: "str option"
  ar_context :: "(str \<times> str) list"
  ar_parameters :: "(str \<times> str) list"
  ar_organization_id :: "str option"
  ar_actor_id :: "str option"
  ar_capability :: "str option"

definition unique_keys :: "(str \<times> 'v) list \<Rightarrow> bool" where
  "unique_keys ps \<longleftrightarrow> length (map fst ps) = card (set (map fst ps))"

lemma unique_keys_iff: "unique_keys ps \<longleftrightarrow> distinct (map fst ps)"
  unfolding unique_keys_def by (rule length_card_iff)

definition check_request :: "authority_request \<Rightarrow> authority_request result" where
  "check_request r =
     raise_if (\<exists>v\<in>{ar_request_id r, ar_agent_identity r, ar_action r, ar_resource r,
                    ar_context_packet_id r, ar_requested_at r}. blank v) ValueError
     (raise_if (blank_opt (ar_agent_role r)) ValueError
     (raise_if (blank_opt (ar_organization_id r) \<or> blank_opt (ar_actor_id r) \<or> blank_opt (ar_capability r)) ValueError
     (raise_if (\<not> unique_keys (ar_context r) \<or> \<not> unique_keys (ar_parameters r)) ValueError
       (Inr r))))"

text \<open>
  \<open>AuthorityRequest.create\<close>.  The mappings come as dictionaries with string values; absent
  mappings are empty ones.  \<open>json.dumps\<close> with its default \<open>ensure_ascii=True\<close> yields ASCII,
  which \<open>encode()\<close> leaves as it is.
\<close>

definition identity_payload ::
  "str \<Rightarrow> str \<Rightarrow> str \<Rightarrow> str \<Rightarrow> str option \<Rightarrow> (str \<times> str) list \<Rightarrow> (str \<times> str) list
     \<Rightarrow> str option \<Rightarrow> str option \<Rightarrow> str option \<Rightarrow> json" where
  "identity_payload agent act res packet role ctx params org actor capab =
     JObj [(''agent_identity'', JStr agent), (''action'', JStr act), (''resource'', JStr res),
           (''context_packet_id'', JStr packet), (''agent_role'', jopt role),
           (''context'', jpairs ctx), (''parameters'', jpairs params),
           (''organization_id'', jopt org), (''actor_id'', jopt actor), (''capability'', jopt capab)]"

definition create_request ::
  "platform \<Rightarrow> time \<Rightarrow> str \<Rightarrow> str \<Rightarrow> str \<Rightarrow> str \<Rightarrow> str option \<Rightarrow> (str, str) dict \<Rightarrow> (str, str) dict
     \<Rightarrow> str option \<Rightarrow> str option \<Rightarrow> str option \<Rightarrow> str option \<Rightarrow> authority_request result" where
  "create_request pf now agent act res packet role ctx params rid org actor capab =
     (let canonical_context = sorted_items ctx; canonical_parameters = sorted_items params;
          encoded = utf8 (dumps True (identity_payload agent act res packet role canonical_context
                      canonical_parameters org actor capab));
          canonical_request_id = sha256_hex pf encoded
      in check_request
           \<lparr>ar_request_id = (if falsy_opt rid then canonical_request_id else the rid),
            ar_agent_identity = agent, ar_action = act, ar_resource = res,
            ar_context_packet_id = packet, ar_requested_at = isoformat pf now,
            ar_agent_role = role, ar_context = canonical_context, ar_parameters = canonical_parameters,
            ar_organization_id = org, ar_actor_id = actor, ar_capability = capab\<rparr>)"

subsection \<open>Rules and policies\<close>

record authority_rule =
  rule_id :: str
  rule_action :: str
  resource_pattern :: str
  effect :: decision
  rule_agent_identity :: "str option"
  rule_agent_role :: "str option"
  required_context :: "(str \<times> str) list"
  priority :: int

definition check_rule :: "authority_rule \<Rightarrow> authority_rule result" where
  "check_rule r =
     raise_if (blank (rule_id r) \<or> blank (rule_action r) \<or> blank (resource_pattern r)) ValueError
     (raise_if (blank_opt (rule_agent_identity r)) ValueError
     (raise_if (blank_opt (rule_agent_role r)) ValueError
     (raise_if (\<not> unique_keys (required_context r)) ValueError
       (Inr r))))"

record authority_policy =
  policy_id :: str
  policy_version :: str
  rules :: "authority_rule list"

definition check_policy :: "authority_policy \<Rightarrow> authority_policy result" where
  "check_policy p =
     raise_if (blank (policy_id p) \<or> blank (policy_version p)) ValueError
     (raise_if (length (map rule_id (rules p)) \<noteq> card (set (map rule_id (rules p)))) ValueError
       (Inr p))"

lemma check_policy_Inr:
  "check_policy p = Inr q \<longleftrightarrow> q = p \<and> \<not> blank (policy_id p) \<and> \<not> blank (policy_version p)
     \<and> distinct (map rule_id (rules p))"
  unfolding check_policy_def length_card_iff by auto

subsection \<open>Decisions\<close>

text \<open>
  The three provenance fields are not part of the dataclass constructor; the token is an
  opaque object of which only the presence is ever observed.
\<close>

record authority_decision =
  ad_request_id :: str
  ad_decision :: decision
  ad_agent_identity :: str
  ad_action :: str
  ad_resource :: str
  ad_context_packet_id :: str
  ad_policy_id :: str
  ad_policy_version :: str
  ad_matched_rule_ids :: "str list"
  ad_reason :: str
  ad_evaluated_at :: str
  ad_parameters :: "(str \<times> str) list"
  ad_organization_id :: "str option"
  ad_actor_id :: "str option"
  ad_capability :: "str option"
  provenance_token :: bool
  provenance_issuer :: str
  provenance_signature :: str

definition check_decision :: "authority_decision \<Rightarrow> authority_decision result" where
  "check_decision d =
     raise_if (\<exists>v\<in>{ad_request_id d, ad_agent_identity d, ad_action d, ad_resource d, ad_context_packet_id d,
                    ad_policy_id d, ad_policy_version d, ad_reason d, ad_evaluated_at d}. blank v) ValueError
     (raise_if (blank_opt (ad_organization_id d) \<or> blank_opt (ad_actor_id d) \<or> blank_opt (ad_capability d)) ValueError
     (raise_if (\<not> unique_keys (ad_parameters d)) ValueError
       (Inr d)))"

definition allowed :: "authority_decision \<Rightarrow> bool" where
  "allowed d \<longleftrightarrow> ad_decision d = ALLOW"

definition provenance_verified :: "authority_decision \<Rightarrow> bool" where
  "provenance_verified d \<longleftrightarrow> provenance_token d \<and> provenance_signature d \<noteq> []"

subsection \<open>Request identity\<close>

text \<open>
  The canonical JSON of a request determines every field it covers; the order in which a
  caller's mapping holds its items does not matter.
\<close>

lemma identity_payload_inject:
  "dumps True (identity_payload a1 b1 c1 d1 e1 f1 g1 h1 i1 j1)
     = dumps True (identity_payload a2 b2 c2 d2 e2 f2 g2 h2 i2 j2)
   \<longleftrightarrow> (a1, b1, c1, d1, e1, f1, g1, h1, i1, j1) = (a2, b2, c2, d2, e2, f2, g2, h2, i2, j2)"
  unfolding dumps_inject identity_payload_def by (subst canon_JObj_inject) auto

lemma sorted_items_mset: "mset d = mset e \<Longrightarrow> sorted_items d = sorted_items e"
  unfolding sorted_items_def by (rule properties_for_sort) simp_all

lemma check_request_Inr:
  "check_request r = Inr q \<longleftrightarrow> q = r
     \<and> \<not> blank (ar_request_id r) \<and> \<not> blank (ar_agent_identity r) \<and> \<not> blank (ar_action r)
     \<and> \<not> blank (ar_resource r) \<and> \<not> blank (ar_context_packet_id r) \<and> \<not> blank (ar_requested_at r)
     \<and> \<not> blank_opt (ar_agent_role r) \<and> \<not> blank_opt (ar_organization_id r)
     \<and> \<not> blank_opt (ar_actor_id r) \<and> \<not> blank_opt (ar_capability r)
     \<and> distinct (map fst (ar_context r)) \<and> distinct (map fst (ar_parameters r))"
  by (auto simp: check_request_def unique_keys_iff)

text \<open>
  Property (identity).  Two requests created without an explicit identifier have the same
  identifier when they ask for the same thing, whatever the time and whatever the order of
  their context and parameter items; and requests that differ in any covered field have
  different identifiers, unless SHA-256 collides on their canonical texts.
\<close>

theorem request_id_canonical:
  assumes "create_request pf t ag ac re pk ro ctx params None org actor cap = Inr r"
    and "create_request pf t' ag' ac' re' pk' ro' ctx' params' None org' actor' cap' = Inr r'"
  shows "((ag, ac, re, pk, ro, org, actor, cap) = (ag', ac', re', pk', ro', org', actor', cap')
            \<and> mset ctx = mset ctx' \<and> mset params = mset params' \<longrightarrow> ar_request_id r = ar_request_id r')
    \<and> (ar_request_id r = ar_request_id r' \<longrightarrow>
         r = r'\<lparr>ar_requested_at := ar_requested_at r\<rparr>
         \<or> sha_collides pf (identity_payload ag ac re pk ro (sorted_items ctx) (sorted_items params) org actor cap)
              (identity_payload ag' ac' re' pk' ro' (sorted_items ctx') (sorted_items params') org' actor' cap'))"
proof -
  let ?m = "utf8 (dumps True (identity_payload ag ac re pk ro (sorted_items ctx) (sorted_items params) org actor cap))"
  let ?m' = "utf8 (dumps True (identity_payload ag' ac' re' pk' ro' (sorted_items ctx') (sorted_items params') org' actor' cap'))"
  have r: "r = \<lparr>ar_request_id = sha256_hex pf ?m, ar_agent_identity = ag, ar_action = ac, ar_resource = re,
      ar_context_packet_id = pk, ar_requested_at = isoformat pf t, ar_agent_role = ro,
      ar_context = sorted_items ctx, ar_parameters = sorted_items params,
      ar_organization_id = org, ar_actor_id = actor, ar_capability = cap\<rparr>"
    using assms(1) by (simp add: create_request_def Let_def check_request_Inr)
  have r': "r' = \<lparr>ar_request_id = sha256_hex pf ?m', ar_agent_identity = ag', ar_action = ac', ar_resource = re',
      ar_context_packet_id = pk', ar_requested_at = isoformat pf t', ar_agent_role = ro',
      ar_context = sorted_items ctx', ar_parameters = sorted_items params',
      ar_organization_id = org', ar_actor_id = actor', ar_capability = cap'\<rparr>"
    using assms(2) by (simp add: create_request_def Let_def check_request_Inr)
  show ?thesis
  proof (cases "?m = ?m'")
    case True
    then have "(ag, ac, re, pk, ro, sorted_items ctx, sorted_items params, org, actor, cap)
      = (ag', ac', re', pk', ro', sorted_items ctx', sorted_items params', org', actor', cap')"
      unfolding utf8_inject by (rule identity_payload_inject [THEN iffD1])
    with True show ?thesis unfolding r r' by simp
  next
    case False
    have "sha_collides pf (identity_payload ag ac re pk ro (sorted_items ctx) (sorted_items params) org actor cap)
        (identity_payload ag' ac' re' pk' ro' (sorted_items ctx') (sorted_items params') org' actor' cap')"
      if "ar_request_id r = ar_request_id r'"
      using False that unfolding r r' by (simp add: sha_collides_def dumps_inject)
    with False show ?thesis
      using sorted_items_mset [of ctx ctx'] sorted_items_mset [of params params'] by fastforce
  qed
qed

lemma create_request_ok:
  assumes "hex_digests pf" "\<not> blank ag" "\<not> blank ac" "\<not> blank re" "\<not> blank pk" "\<not> blank (isoformat pf t)"
    and "\<not> blank_opt ro" "\<not> blank_opt org" "\<not> blank_opt actor" "\<not> blank_opt cap" "wf_dict ctx" "wf_dict params"
  shows "\<exists>r. create_request pf t ag ac re pk ro ctx params None org actor cap = Inr r
    \<and> ar_requested_at r = isoformat pf t"
  using assms wf_dict_sorted_items [of ctx] wf_dict_sorted_items [of params]
  by (simp add: create_request_def Let_def check_request_Inr hex_digests_def wf_dict_def)

theorem request_id_canonical_witness:
  "\<exists>r r'. create_request demo_platform 1 ''agent'' ''deploy'' ''svc/a'' ''packet'' None [(''b'', ''2''), (''a'', ''1'')] []
            None (Some ''org'') None None = Inr r
    \<and> create_request demo_platform 2 ''agent'' ''deploy'' ''svc/a'' ''packet'' None [(''a'', ''1''), (''b'', ''2'')] []
            None (Some ''org'') None None = Inr r'
    \<and> ar_request_id r = ar_request_id r' \<and> ar_requested_at r \<noteq> ar_requested_at r'"
proof -
  let ?c = "\<lambda>t ctx. create_request demo_platform t ''agent'' ''deploy'' ''svc/a'' ''packet'' None ctx []
            None (Some ''org'') None None"
  have "\<exists>r. ?c 1 [(''b'', ''2''), (''a'', ''1'')] = Inr r \<and> ar_requested_at r = isoformat demo_platform 1"
    "\<exists>r. ?c 2 [(''a'', ''1''), (''b'', ''2'')] = Inr r \<and> ar_requested_at r = isoformat demo_platform 2"
    by (rule create_request_ok;
        simp add: blank_iff is_space_def wf_dict_def int_str_not_blank [unfolded blank_iff is_space_def])+
  then obtain r r' where "?c 1 [(''b'', ''2''), (''a'', ''1'')] = Inr r" "ar_requested_at r = isoformat demo_platform 1"
    "?c 2 [(''a'', ''1''), (''b'', ''2'')] = Inr r'" "ar_requested_at r' = isoformat demo_platform 2"
    by blast
  with request_id_canonical [OF this(1,3)] show ?thesis by auto
qed

end
