(* ===== verification/Authority_Grants.thy ===== *)
theory Authority_Grants
  imports Authority_Models
begin

section \<open>Signed authority credentials (\<open>phase4/authority/grants.py\<close>)\<close>

text \<open>
  The signing key, the canonical bytes that are signed, decision provenance and
  \<open>VerifiedAuthorityGrant\<close>.  Fresh grant identifiers (\<open>secrets.token_hex\<close>) and the clock
  are arguments.  The lemmas show when a grant verifies, and that nobody without a
  collision of the keyed digest can alter a signed field, lengthen a grant's life or turn
  one kind of signed object into another.
\<close>

definition DEFAULT_GRANT_TTL_SECONDS :: int where
  "DEFAULT_GRANT_TTL_SECONDS = 300"

definition PROVENANCE_VERSION :: str where
  "PROVENANCE_VERSION = ''p4-authority-grant-v1''"

definition ISSUER_ID :: str where
  "ISSUER_ID = ''phase4.ai-3''"

definition load_signing_key :: "platform \<Rightarrow> str result" where
  "load_signing_key pf =
     (let env = (case DOR_ENV pf of None \<Rightarrow> ''development'' | Some e \<Rightarrow> e);
          is_prod_env = (map lower_char env = ''production'')
      in case DOR_AUTHORITY_SIGNING_KEY pf of
           None \<Rightarrow> if \<not> is_prod_env then Inr (replicate 32 (CHR ''0'')) else Inl RuntimeError
         | Some encoded \<Rightarrow>
             (let padded = encoded @ replicate (nat ((- int (length encoded)) mod 4)) (CHR ''='')
              in case b64decode padded of
                   None \<Rightarrow> Inl RuntimeError
                 | Some key \<Rightarrow> raise_if (length key < 32) RuntimeError (Inr key)))"

definition canonical_bytes :: "str \<Rightarrow> json \<Rightarrow> str" where
  "canonical_bytes kind payload =
     utf8 (dumps False (JObj [(''kind'', JStr kind), (''payload'', payload), (''version'', JStr PROVENANCE_VERSION)]))"

definition signature_for :: "platform \<Rightarrow> str \<Rightarrow> json \<Rightarrow> str result" where
  "signature_for pf kind payload =
     bind_res (load_signing_key pf) (\<lambda>key. Inr (hmac_sha256_hex pf key (canonical_bytes kind payload)))"

definition sign_configured_provenance :: "platform \<Rightarrow> str \<Rightarrow> json \<Rightarrow> str result" where
  "sign_configured_provenance pf kind payload =
     raise_if (DOR_AUTHORITY_SIGNING_KEY pf = None) RuntimeError (signature_for pf kind payload)"

definition verify_configured_provenance :: "platform \<Rightarrow> str \<Rightarrow> json \<Rightarrow> str \<Rightarrow> bool result" where
  "verify_configured_provenance pf kind payload signature =
     (if signature = [] then Inr False
      else case sign_configured_provenance pf kind payload of
             Inl e \<Rightarrow> if is_runtime_error e then Inr False else Inl e
           | Inr expected \<Rightarrow> compare_digest signature expected)"

subsection \<open>Decision provenance\<close>

definition decision_payload :: "authority_decision \<Rightarrow> json" where
  "decision_payload d =
     JObj [(''request_id'', JStr (ad_request_id d)), (''decision'', JStr (decision_value (ad_decision d))),
           (''agent_identity'', JStr (ad_agent_identity d)), (''action'', JStr (ad_action d)),
           (''resource'', JStr (ad_resource d)), (''context_packet_id'', JStr (ad_context_packet_id d)),
           (''policy_id'', JStr (ad_policy_id d)), (''policy_version'', JStr (ad_policy_version d)),
           (''matched_rule_ids'', jstrs (ad_matched_rule_ids d)), (''reason'', JStr (ad_reason d)),
           (''evaluated_at'', JStr (ad_evaluated_at d)), (''parameters'', jpairs (ad_parameters d)),
           (''organization_id'', jopt (ad_organization_id d)), (''actor_id'', jopt (ad_actor_id d)),
           (''capability'', jopt (ad_capability d))]"

definition attach_decision_provenance :: "platform \<Rightarrow> authority_decision \<Rightarrow> authority_decision result" where
  "attach_decision_provenance pf d =
     bind_res (signature_for pf ''authority-decision'' (decision_payload d))
       (\<lambda>sig. Inr (d\<lparr>provenance_issuer := ISSUER_ID, provenance_signature := sig\<rparr>))"

definition decision_has_valid_provenance :: "platform \<Rightarrow> authority_decision \<Rightarrow> bool result" where
  "decision_has_valid_provenance pf d =
     (if provenance_issuer d \<noteq> ISSUER_ID then Inr False
      else if provenance_signature d = [] then Inr False
      else bind_res (signature_for pf ''authority-decision'' (decision_payload d))
             (\<lambda>expected. compare_digest (provenance_signature d) expected))"

subsection \<open>Timestamps\<close>

definition aware_utc :: "time \<Rightarrow> datetime option \<Rightarrow> time result" where
  "aware_utc now v = (case v of None \<Rightarrow> Inr now | Some (Aware t) \<Rightarrow> Inr t | Some (Naive t) \<Rightarrow> Inl ValueError)"

definition parse_timestamp :: "platform \<Rightarrow> str \<Rightarrow> time option" where
  "parse_timestamp pf s = (case fromisoformat pf s of Some (Aware t) \<Rightarrow> Some t | _ \<Rightarrow> None)"

subsection \<open>Grants\<close>

record authority_grant =
  g_request_id :: str
  g_agent_identity :: str
  g_action :: str
  g_resource :: str
  g_context_packet_id :: str
  g_policy_id :: str
  g_policy_version :: str
  g_matched_rule_ids :: "str list"
  g_decision :: str
  g_parameters :: "(str \<times> str) list"
  g_organization_id :: "str option"
  g_actor_id :: "str option"
  g_capability :: "str option"
  issuer_id :: str
  grant_id :: str
  issued_at :: str
  expires_at :: str
  g_signature :: str

definition signed_payload :: "authority_grant \<Rightarrow> json" where
  "signed_payload g =
     JObj [(''request_id'', JStr (g_request_id g)), (''agent_identity'', JStr (g_agent_identity g)),
           (''action'', JStr (g_action g)), (''resource'', JStr (g_resource g)),
           (''context_packet_id'', JStr (g_context_packet_id g)), (''policy_id'', JStr (g_policy_id g)),
           (''policy_version'', JStr (g_policy_version g)), (''matched_rule_ids'', jstrs (g_matched_rule_ids g)),
           (''decision'', JStr (g_decision g)), (''parameters'', jpairs (g_parameters g)),
           (''organization_id'', jopt (g_organization_id g)), (''actor_id'', jopt (g_actor_id g)),
           (''capability'', jopt (g_capability g)), (''issuer_id'', JStr (issuer_id g)),
           (''grant_id'', JStr (grant_id g)), (''issued_at'', JStr (issued_at g)),
           (''expires_at'', JStr (expires_at g))]"

definition from_decision ::
  "platform \<Rightarrow> time \<Rightarrow> str \<Rightarrow> authority_decision \<Rightarrow> int \<Rightarrow> datetime option \<Rightarrow> authority_grant result" where
  "from_decision pf now fresh d ttl_seconds at_opt =
     bind_res (decision_has_valid_provenance pf d) (\<lambda>valid.
     raise_if (\<not> valid) ValueError
     (raise_if (decision_value (ad_decision d) \<noteq> ''allow'') ValueError
     (raise_if (\<not> (1 \<le> ttl_seconds \<and> ttl_seconds \<le> DEFAULT_GRANT_TTL_SECONDS)) ValueError
     (bind_res (aware_utc now at_opt) (\<lambda>issued.
        let expires = issued + seconds ttl_seconds
        in raise_if (\<not> datetime_range expires) OverflowError
           (let g = \<lparr>g_request_id = ad_request_id d, g_agent_identity = ad_agent_identity d,
                     g_action = ad_action d, g_resource = ad_resource d,
                     g_context_packet_id = ad_context_packet_id d, g_policy_id = ad_policy_id d,
                     g_policy_version = ad_policy_version d, g_matched_rule_ids = ad_matched_rule_ids d,
                     g_decision = decision_value (ad_decision d), g_parameters = ad_parameters d,
                     g_organization_id = ad_organization_id d, g_actor_id = ad_actor_id d,
                     g_capability = ad_capability d, issuer_id = ISSUER_ID, grant_id = fresh,
                     issued_at = isoformat pf issued, expires_at = isoformat pf expires, g_signature = []\<rparr>
            in bind_res (signature_for pf ''authority-grant'' (signed_payload g))
                 (\<lambda>sig. Inr (g\<lparr>g_signature := sig\<rparr>))))))))"

definition verify_grant :: "platform \<Rightarrow> time \<Rightarrow> authority_grant \<Rightarrow> datetime option \<Rightarrow> bool result" where
  "verify_grant pf now g at_opt =
     (if issuer_id g \<noteq> ISSUER_ID \<or> grant_id g = [] \<or> g_signature g = [] then Inr False
      else case (parse_timestamp pf (issued_at g), parse_timestamp pf (expires_at g)) of
        (Some issued, Some expires) \<Rightarrow>
          if expires \<le> issued then Inr False
          else bind_res (aware_utc now at_opt) (\<lambda>instant.
            if instant < issued \<or> expires \<le> instant then Inr False
            else bind_res (signature_for pf ''authority-grant'' (signed_payload g))
                   (\<lambda>expected. compare_digest (g_signature g) expected))
      | _ \<Rightarrow> Inr False)"

text \<open>
  \<open>binds\<close>, on the fields of an execution request that it reads.
\<close>

record bound_fields =
  bf_request_id :: str
  bf_agent_identity :: str
  bf_action :: str
  bf_resource :: str
  bf_context_packet_id :: str
  bf_parameters :: "(str \<times> str) list"
  bf_organization_id :: "str option"
  bf_actor_id :: "str option"
  bf_capability :: "str option"

definition grant_fields :: "authority_grant \<Rightarrow> bound_fields" where
  "grant_fields g =
     \<lparr>bf_request_id = g_request_id g, bf_agent_identity = g_agent_identity g, bf_action = g_action g,
      bf_resource = g_resource g, bf_context_packet_id = g_context_packet_id g,
      bf_parameters = g_parameters g, bf_organization_id = g_organization_id g,
      bf_actor_id = g_actor_id g, bf_capability = g_capability g\<rparr>"

definition binds :: "platform \<Rightarrow> time \<Rightarrow> authority_grant \<Rightarrow> bound_fields \<Rightarrow> datetime option \<Rightarrow> bool result" where
  "binds pf now g r at_opt = bind_res (verify_grant pf now g at_opt) (\<lambda>ok. Inr (ok \<and> grant_fields g = r))"

subsection \<open>The signed text determines what was signed\<close>

lemma canonical_bytes_inject:
  "canonical_bytes k p = canonical_bytes l q \<longleftrightarrow> k = l \<and> canon p = canon q"
  unfolding canonical_bytes_def utf8_inject dumps_inject by (subst canon_JObj_inject) auto

lemma decision_value_inject [simp]: "decision_value a = decision_value b \<longleftrightarrow> a = b"
  by (cases a; cases b) simp_all

lemma decision_value_allow [simp]: "decision_value a = ''allow'' \<longleftrightarrow> a = ALLOW"
  by (cases a) simp_all

lemma signed_payload_inject:
  "canon (signed_payload g) = canon (signed_payload h) \<longleftrightarrow> g\<lparr>g_signature := []\<rparr> = h\<lparr>g_signature := []\<rparr>"
  unfolding signed_payload_def by (cases g; cases h) (subst canon_JObj_inject, auto)

lemma decision_payload_update [simp]:
  "decision_payload (d\<lparr>provenance_issuer := i, provenance_signature := s\<rparr>) = decision_payload d"
  by (simp add: decision_payload_def)

lemma signed_payload_update [simp]: "signed_payload (g\<lparr>g_signature := s\<rparr>) = signed_payload g"
  by (simp add: signed_payload_def)

text \<open>These two messages are distinct and have one keyed digest under the configured key.\<close>

definition mac_collides :: "platform \<Rightarrow> str \<Rightarrow> str \<Rightarrow> bool" where
  "mac_collides pf m m' \<longleftrightarrow> (\<exists>key. load_signing_key pf = Inr key \<and> m \<noteq> m'
      \<and> hmac_sha256_hex pf key m = hmac_sha256_hex pf key m')"

lemma signature_for_inject:
  assumes "signature_for pf k p = Inr s" "signature_for pf l q = Inr s"
  shows "(k = l \<and> canon p = canon q) \<or> mac_collides pf (canonical_bytes k p) (canonical_bytes l q)"
proof (cases "canonical_bytes k p = canonical_bytes l q")
  case True
  then show ?thesis by (simp add: canonical_bytes_inject)
next
  case False
  with assms have "mac_collides pf (canonical_bytes k p) (canonical_bytes l q)"
    unfolding signature_for_def mac_collides_def by (auto simp: bind_res_Inr_iff)
  then show ?thesis ..
qed

subsection \<open>Verification\<close>

lemma verify_grant_True:
  "verify_grant pf now g at_opt = Inr True \<longleftrightarrow>
     issuer_id g = ISSUER_ID \<and> grant_id g \<noteq> [] \<and> g_signature g \<noteq> [] \<and> is_ascii (g_signature g)
     \<and> signature_for pf ''authority-grant'' (signed_payload g) = Inr (g_signature g)
     \<and> (\<exists>issued expires instant. parse_timestamp pf (issued_at g) = Some issued
          \<and> parse_timestamp pf (expires_at g) = Some expires \<and> aware_utc now at_opt = Inr instant
          \<and> issued \<le> instant \<and> instant < expires)"
  by (cases "aware_utc now at_opt") (auto simp: verify_grant_def bind_res_Inr_iff split: option.splits)

lemma decision_provenance_True:
  "decision_has_valid_provenance pf d = Inr True \<longleftrightarrow>
     provenance_issuer d = ISSUER_ID \<and> provenance_signature d \<noteq> [] \<and> is_ascii (provenance_signature d)
     \<and> signature_for pf ''authority-decision'' (decision_payload d) = Inr (provenance_signature d)"
  by (auto simp: decision_has_valid_provenance_def bind_res_Inr_iff)

lemma binds_True:
  "binds pf now g r at_opt = Inr True \<longleftrightarrow> verify_grant pf now g at_opt = Inr True \<and> grant_fields g = r"
  by (auto simp: binds_def bind_res_Inr_iff)

text \<open>What a grant that was issued looks like.\<close>

lemma from_decisionE:
  assumes "from_decision pf now fresh d ttl at_opt = Inr g"
  obtains issued where "decision_has_valid_provenance pf d = Inr True" "ad_decision d = ALLOW"
    "1 \<le> ttl" "ttl \<le> 300" "aware_utc now at_opt = Inr issued" "datetime_range (issued + seconds ttl)"
    "issuer_id g = ISSUER_ID" "grant_id g = fresh" "g_decision g = ''allow''"
    "issued_at g = isoformat pf issued" "expires_at g = isoformat pf (issued + seconds ttl)"
    "signature_for pf ''authority-grant'' (signed_payload g) = Inr (g_signature g)"
    "grant_fields g = \<lparr>bf_request_id = ad_request_id d, bf_agent_identity = ad_agent_identity d,
       bf_action = ad_action d, bf_resource = ad_resource d, bf_context_packet_id = ad_context_packet_id d,
       bf_parameters = ad_parameters d, bf_organization_id = ad_organization_id d,
       bf_actor_id = ad_actor_id d, bf_capability = ad_capability d\<rparr>"
  using assms unfolding from_decision_def
  by (auto simp: bind_res_Inr_iff Let_def DEFAULT_GRANT_TTL_SECONDS_def grant_fields_def signed_payload_def
      intro!: that)

lemma signature_for_hex: "hex_digests pf \<Longrightarrow> signature_for pf k p = Inr s \<Longrightarrow> s \<noteq> [] \<and> is_ascii s"
  by (auto simp: signature_for_def bind_res_Inr_iff hex_digests_def)

lemma parse_isoformat: "iso_inverse pf \<Longrightarrow> datetime_range t \<Longrightarrow> parse_timestamp pf (isoformat pf t) = Some t"
  by (simp add: iso_inverse_def parse_timestamp_def)

subsection \<open>Properties of grants\<close>

text \<open>
  Property (round trip and bound).  A grant that \<open>from_decision\<close> issues verifies exactly during
  its lifetime, which starts when it is issued and lasts the requested one to 300 seconds.
\<close>

theorem issued_grant_window:
  assumes "hex_digests pf" "iso_inverse pf"
    and "from_decision pf now fresh d ttl at_opt = Inr g" and "fresh \<noteq> []"
    and "aware_utc now at_opt = Inr issued" "datetime_range issued"
  shows "1 \<le> ttl \<and> ttl \<le> 300
    \<and> (\<forall>t. verify_grant pf t g None = Inr (issued \<le> t \<and> t < issued + seconds ttl))"
proof -
  obtain i where g: "1 \<le> ttl" "ttl \<le> 300" "aware_utc now at_opt = Inr i"
    "datetime_range (i + seconds ttl)" "issuer_id g = ISSUER_ID" "grant_id g = fresh"
    "issued_at g = isoformat pf i" "expires_at g = isoformat pf (i + seconds ttl)"
    and sig: "signature_for pf ''authority-grant'' (signed_payload g) = Inr (g_signature g)"
    using assms(3) by (rule from_decisionE)
  have "i = issued" using g(3) assms(5) by simp
  with g(4,7,8) assms(2,6) have "parse_timestamp pf (issued_at g) = Some issued"
    "parse_timestamp pf (expires_at g) = Some (issued + seconds ttl)"
    by (simp_all add: parse_isoformat)
  with g sig assms(4) signature_for_hex [OF assms(1) sig] show ?thesis
    by (auto simp: verify_grant_def aware_utc_def compare_digest_def)
qed

text \<open>
  C27 (integrity).  Two grants that both verify and carry the same signature are the same
  grant in every field, or the keyed digest collides on exactly their two signed texts: no
  field of a grant can be altered while its signature is kept.
\<close>

theorem grant_tamper_evident:
  assumes "verify_grant pf t g at_g = Inr True" "verify_grant pf u h at_h = Inr True"
    and "g_signature g = g_signature h"
  shows "g = h \<or> mac_collides pf (canonical_bytes ''authority-grant'' (signed_payload g))
      (canonical_bytes ''authority-grant'' (signed_payload h))"
proof -
  have "signature_for pf ''authority-grant'' (signed_payload g) = Inr (g_signature g)"
    "signature_for pf ''authority-grant'' (signed_payload h) = Inr (g_signature g)"
    using assms by (simp_all add: verify_grant_True)
  from signature_for_inject [OF this] have "g\<lparr>g_signature := []\<rparr> = h\<lparr>g_signature := []\<rparr>
      \<or> mac_collides pf (canonical_bytes ''authority-grant'' (signed_payload g)) (canonical_bytes ''authority-grant'' (signed_payload h))"
    by (simp add: signed_payload_inject)
  with assms(3) show ?thesis by (cases g; cases h) auto
qed

text \<open>
  Property (separation).  The signature of an authority decision, which is written to audit
  sinks, is not the signature of any grant, unless the keyed digest collides on the two
  signed texts.
\<close>

theorem decision_signature_not_grant:
  assumes "decision_has_valid_provenance pf d = Inr True" "verify_grant pf t g at_g = Inr True"
  shows "provenance_signature d \<noteq> g_signature g \<or> mac_collides pf (canonical_bytes ''authority-decision'' (decision_payload d))
      (canonical_bytes ''authority-grant'' (signed_payload g))"
  using assms signature_for_inject [of pf "''authority-decision''" "decision_payload d" "provenance_signature d"
      "''authority-grant''" "signed_payload g"]
  by (auto simp: decision_provenance_True verify_grant_True)

text \<open>
  Property (error paths of the key).  In production without a configured key nothing is signed;
  detached provenance is refused without a key in any environment; and a key that is used
  has at least 32 bytes.
\<close>

theorem signing_key_fail_closed:
  "(map lower_char e = ''production'' \<and> DOR_AUTHORITY_SIGNING_KEY pf = None \<and> DOR_ENV pf = Some e \<longrightarrow>
      signature_for pf kind payload = Inl RuntimeError)
   \<and> (DOR_AUTHORITY_SIGNING_KEY pf = None \<longrightarrow>
        sign_configured_provenance pf kind payload = Inl RuntimeError
        \<and> verify_configured_provenance pf kind payload sig = Inr False)
   \<and> (load_signing_key pf = Inr key \<longrightarrow> 32 \<le> length key)
   \<and> (\<forall>err. load_signing_key pf = Inl err \<longrightarrow> err = RuntimeError)"
  by (auto simp: signature_for_def load_signing_key_def sign_configured_provenance_def Let_def
      verify_configured_provenance_def is_runtime_error_def raise_if_def
      split: option.splits if_splits)

subsection \<open>A concrete grant\<close>

lemma demo_key: "load_signing_key demo_platform = Inr (replicate 32 (CHR ''0''))"
  by (simp add: load_signing_key_def demo_platform_def lower_char_def)

lemma demo_range: "datetime_range 5" "datetime_range 1000000"
  by (simp_all add: datetime_range_def)

definition demo_raw_decision :: authority_decision where
  "demo_raw_decision =
     \<lparr>ad_request_id = ''q1'', ad_decision = ALLOW, ad_agent_identity = ''agent'', ad_action = ''deploy'',
      ad_resource = ''svc/web'', ad_context_packet_id = ''c1'', ad_policy_id = ''p'', ad_policy_version = ''1'',
      ad_matched_rule_ids = [''r1''], ad_reason = ''ok'', ad_evaluated_at = ''5'', ad_parameters = [],
      ad_organization_id = Some ''org'', ad_actor_id = None, ad_capability = None,
      provenance_token = True, provenance_issuer = [], provenance_signature = []\<rparr>"

lemma attach_ok:
  assumes "load_signing_key pf = Inr key" "hex_digests pf"
  shows "\<exists>d'. attach_decision_provenance pf d = Inr d' \<and> ad_decision d' = ad_decision d
    \<and> decision_has_valid_provenance pf d' = Inr True"
  using assms
  by (simp add: attach_decision_provenance_def signature_for_def decision_provenance_True hex_digests_def)

lemma from_decision_ok:
  assumes "decision_has_valid_provenance pf d = Inr True" "ad_decision d = ALLOW" "1 \<le> ttl" "ttl \<le> 300"
    and "datetime_range (now + seconds ttl)"
  shows "\<exists>g. from_decision pf now fresh d ttl None = Inr g"
proof -
  obtain key where "load_signing_key pf = Inr key"
    using assms(1) by (auto simp: decision_provenance_True signature_for_def bind_res_Inr_iff)
  with assms show ?thesis
    by (simp add: from_decision_def DEFAULT_GRANT_TTL_SECONDS_def aware_utc_def signature_for_def Let_def)
qed

lemma demo_from_decision:
  "\<exists>d g. decision_has_valid_provenance demo_platform d = Inr True
     \<and> from_decision demo_platform 1000000 ''g1'' d 60 None = Inr g"
proof -
  obtain d where d: "decision_has_valid_provenance demo_platform d = Inr True" "ad_decision d = ALLOW"
    using attach_ok [OF demo_key demo_platform_digests, of demo_raw_decision] by (auto simp: demo_raw_decision_def)
  then show ?thesis
    using from_decision_ok [OF d, of 60 1000000 "''g1''"] by (auto simp: datetime_range_def)
qed

lemma demo_no_collision: "\<not> mac_collides demo_platform m m'"
  by (auto simp: mac_collides_def demo_platform_def hexlify_inject)

theorem issued_grant_window_witness:
  "\<exists>d g. from_decision demo_platform 1000000 ''g1'' d 60 None = Inr g
     \<and> verify_grant demo_platform 1000000 g None = Inr True
     \<and> verify_grant demo_platform 60999999 g None = Inr True
     \<and> verify_grant demo_platform 61000000 g None = Inr False"
proof -
  obtain d g where g: "from_decision demo_platform 1000000 ''g1'' d 60 None = Inr g"
    using demo_from_decision by blast
  from issued_grant_window [OF demo_platform_digests demo_platform_iso g, of 1000000] g demo_range show ?thesis
    by (intro exI [of _ d] exI [of _ g]) (simp add: aware_utc_def)
qed

lemma demo_verified: "\<exists>g. verify_grant demo_platform 1000000 g None = Inr True"
proof -
  obtain d g where g: "from_decision demo_platform 1000000 ''g1'' d 60 None = Inr g"
    using demo_from_decision by blast
  from g show ?thesis
    by (rule from_decisionE)
      (auto simp: verify_grant_True aware_utc_def parse_timestamp_def
        dest: signature_for_hex [OF demo_platform_digests] intro!: exI [of _ g])
qed

theorem grant_tamper_evident_witness:
  "\<exists>g. verify_grant demo_platform 1000000 g None = Inr True
     \<and> verify_grant demo_platform 1000000 (g\<lparr>g_resource := ''x'' @ g_resource g\<rparr>) None \<noteq> Inr True"
proof -
  obtain g where g: "verify_grant demo_platform 1000000 g None = Inr True" using demo_verified ..
  let ?h = "g\<lparr>g_resource := ''x'' @ g_resource g\<rparr>"
  have "?h \<noteq> g" by (cases g) simp
  with g show ?thesis
    using grant_tamper_evident [of demo_platform 1000000 ?h None 1000000 g None] demo_no_collision by auto
qed

theorem decision_signature_not_grant_witness:
  "\<exists>d g. decision_has_valid_provenance demo_platform d = Inr True
     \<and> verify_grant demo_platform 1000000 g None = Inr True \<and> provenance_signature d \<noteq> g_signature g"
proof -
  obtain d g where "decision_has_valid_provenance demo_platform d = Inr True"
    "verify_grant demo_platform 1000000 g None = Inr True"
    using demo_from_decision demo_verified by blast
  with decision_signature_not_grant [OF this] demo_no_collision show ?thesis by blast
qed

theorem signing_key_fail_closed_witness:
  "signature_for (demo_platform\<lparr>DOR_ENV := Some ''Production''\<rparr>) ''k'' JNull = Inl RuntimeError
   \<and> sign_configured_provenance demo_platform ''k'' JNull = Inl RuntimeError
   \<and> load_signing_key demo_platform = Inr (replicate 32 (CHR ''0''))"
proof -
  have "map lower_char ''Production'' = ''production''" by code_simp
  then show ?thesis
    using signing_key_fail_closed [of "''Production''" "demo_platform\<lparr>DOR_ENV := Some ''Production''\<rparr>" "''k''" JNull]
      signing_key_fail_closed [of "''test''" demo_platform "''k''" JNull]
    by (simp add: demo_key)
qed

end
