(* ===== verification/Authority_Engine.thy ===== *)
theory Authority_Engine
  imports Authority_Grants
begin

section \<open>The authority engine (\<open>phase4/authority/engine.py\<close>, \<open>audit.py\<close>)\<close>

text \<open>
  \<open>AuthorityEngine.evaluate\<close> and \<open>issue_grant\<close> with the audit trail and the audit sinks.
  A sink is a function on a state of its own that may raise; \<open>evaluate\<close> therefore returns
  the engine also when it raises, because the decision is appended to the trail before the
  sink sees it.  The lemmas show that a decision is an ALLOW exactly when an allow rule
  matches, no deny rule does and the readiness gate passes, that the decision does not
  depend on the order of the policy's rules, and that every decision is audited.
\<close>

subsection \<open>Audit sinks\<close>

type_synonym 'k audit_sink = "authority_decision \<Rightarrow> 'k \<Rightarrow> unit result \<times> 'k"

definition null_sink :: "'k audit_sink" where
  "null_sink d k = (Inr (), k)"

definition recording_sink :: "authority_decision list audit_sink" where
  "recording_sink d ds = (Inr (), ds @ [d])"

definition recording_clear :: "authority_decision list \<Rightarrow> authority_decision list" where
  "recording_clear ds = []"

fun composite_audit_sink :: "'k audit_sink list \<Rightarrow> 'k audit_sink" where
  "composite_audit_sink [] d k = (Inr (), k)"
| "composite_audit_sink (s # ss) d k =
     (case s d k of (Inl e, k') \<Rightarrow> (Inl e, k') | (Inr _, k') \<Rightarrow> composite_audit_sink ss d k')"

definition as_sink :: "'k audit_sink option \<Rightarrow> 'k audit_sink" where
  "as_sink s = (case s of None \<Rightarrow> null_sink | Some f \<Rightarrow> f)"

subsection \<open>Engine\<close>

record 'k authority_engine =
  ae_policy :: authority_policy
  ae_audit :: "authority_decision list"
  ae_sink :: "'k audit_sink"
  ae_sink_state :: 'k
  max_allowed_risk :: risk_level

text \<open>
  The constructor.  \<open>_validate_policy\<close> rejects effects outside ALLOW and DENY, which the
  type excludes; the policy itself has passed \<^const>\<open>check_policy\<close>.
\<close>

definition new_engine :: "authority_policy \<Rightarrow> 'k audit_sink option \<Rightarrow> 'k \<Rightarrow> risk_level \<Rightarrow> 'k authority_engine" where
  "new_engine p s k risk =
     \<lparr>ae_policy = p, ae_audit = [], ae_sink = as_sink s, ae_sink_state = k, max_allowed_risk = risk\<rparr>"

definition matches :: "authority_rule \<Rightarrow> authority_request \<Rightarrow> bool" where
  "matches rule req \<longleftrightarrow>
     rule_action rule = ar_action req \<and> fnmatchcase (ar_resource req) (resource_pattern rule)
     \<and> (case rule_agent_identity rule of None \<Rightarrow> True | Some i \<Rightarrow> i = ar_agent_identity req)
     \<and> (case rule_agent_role rule of None \<Rightarrow> True | Some r \<Rightarrow> ar_agent_role req = Some r)
     \<and> (\<forall>(key, expected)\<in>set (required_context rule). dict_get (ar_context req) key = Some expected)"

fun risk_order :: "risk_level \<Rightarrow> int" where
  "risk_order RLOW = 1"
| "risk_order RMEDIUM = 2"
| "risk_order RHIGH = 3"
| "risk_order RCRITICAL = 4"

definition is_risk_acceptable :: "risk_level \<Rightarrow> risk_level \<Rightarrow> bool" where
  "is_risk_acceptable limit risk \<longleftrightarrow> risk_order risk \<le> risk_order limit"

definition check_readiness_gate :: "risk_level \<Rightarrow> decision_readiness \<Rightarrow> str option" where
  "check_readiness_gate limit rep =
     (if open_critical_disputes rep > 0
      then Some (''unresolved critical disputes ('' @ nat_str (open_critical_disputes rep) @ '' open)'')
      else if \<not> evidence_verified rep then Some ''evidence failed verification against current revision''
      else if \<not> is_risk_acceptable limit (dr_risk_level rep)
      then Some (''risk level '' @ risk_value (dr_risk_level rep) @ '' exceeds policy threshold '' @ risk_value limit)
      else if \<not> is_decision_ready rep then Some ''deliberation session is not in decision ready state''
      else None)"

text \<open>The matched rules, \<open>matched.sort(key=lambda rule: (-rule.priority, rule.rule_id))\<close>.\<close>

definition matched_rules :: "authority_policy \<Rightarrow> authority_request \<Rightarrow> authority_rule list" where
  "matched_rules p req = sort_key (\<lambda>r. (- priority r, rule_id r)) (filter (\<lambda>r. matches r req) (rules p))"

definition decide_request ::
  "authority_policy \<Rightarrow> risk_level \<Rightarrow> authority_request \<Rightarrow> decision_readiness option \<Rightarrow> decision \<times> str" where
  "decide_request p limit req report =
     (let matched = matched_rules p req;
          denies = filter (\<lambda>r. effect r = DENY) matched;
          allows = filter (\<lambda>r. effect r = ALLOW) matched;
          gate_failed_reason = (case report of None \<Rightarrow> None | Some rep \<Rightarrow> check_readiness_gate limit rep)
      in case gate_failed_reason of
           Some why \<Rightarrow> (DENY, ''council/epistemics readiness gate failure: '' @ why)
         | None \<Rightarrow>
             if denies \<noteq> [] then (DENY, ''explicit deny rule matched; deny takes precedence'')
             else if allows \<noteq> [] then (ALLOW, ''explicit allow rule matched and no deny rule matched'')
             else (DENY, ''no applicable authority rule matched; fail closed''))"

definition build_decision ::
  "platform \<Rightarrow> time \<Rightarrow> authority_policy \<Rightarrow> risk_level \<Rightarrow> authority_request \<Rightarrow> decision_readiness option
     \<Rightarrow> authority_decision result" where
  "build_decision pf now p limit req report =
     bind_res (check_decision
       \<lparr>ad_request_id = ar_request_id req, ad_decision = fst (decide_request p limit req report),
        ad_agent_identity = ar_agent_identity req, ad_action = ar_action req, ad_resource = ar_resource req,
        ad_context_packet_id = ar_context_packet_id req, ad_policy_id = policy_id p,
        ad_policy_version = policy_version p, ad_matched_rule_ids = map rule_id (matched_rules p req),
        ad_reason = snd (decide_request p limit req report), ad_evaluated_at = isoformat pf now,
        ad_parameters = ar_parameters req, ad_organization_id = ar_organization_id req,
        ad_actor_id = ar_actor_id req, ad_capability = ar_capability req,
        provenance_token = False, provenance_issuer = [], provenance_signature = []\<rparr>)
     (\<lambda>d. attach_decision_provenance pf (d\<lparr>provenance_token := True\<rparr>))"

definition evaluate_request ::
  "platform \<Rightarrow> time \<Rightarrow> authority_request \<Rightarrow> decision_readiness option \<Rightarrow> 'k authority_engine
     \<Rightarrow> authority_decision result \<times> 'k authority_engine" where
  "evaluate_request pf now req report eng =
     (case build_decision pf now (ae_policy eng) (max_allowed_risk eng) req report of
        Inl e \<Rightarrow> (Inl e, eng)
      | Inr d \<Rightarrow>
          (case ae_sink eng d (ae_sink_state eng) of
             (r, k) \<Rightarrow> (bind_res r (\<lambda>_. Inr d), eng\<lparr>ae_audit := ae_audit eng @ [d], ae_sink_state := k\<rparr>)))"

definition issue_grant ::
  "platform \<Rightarrow> time \<Rightarrow> time \<Rightarrow> str \<Rightarrow> authority_request \<Rightarrow> decision_readiness option \<Rightarrow> 'k authority_engine
     \<Rightarrow> authority_grant result \<times> 'k authority_engine" where
  "issue_grant pf now now' fresh req report eng =
     (case evaluate_request pf now req report eng of
        (Inl e, eng') \<Rightarrow> (Inl e, eng')
      | (Inr d, eng') \<Rightarrow>
          if ad_decision d \<noteq> ALLOW then (Inl AuthorityError, eng')
          else (from_decision pf now' fresh d DEFAULT_GRANT_TTL_SECONDS None, eng'))"

subsection \<open>The policy semantics that \<open>evaluate\<close> implements\<close>

text \<open>
  The contract of the engine, over the set of rules: somebody allows the request, nobody
  denies it, and a readiness report, when there is one, passes every check of the gate.
\<close>

definition gate_passes :: "risk_level \<Rightarrow> decision_readiness option \<Rightarrow> bool" where
  "gate_passes limit report \<longleftrightarrow> (case report of None \<Rightarrow> True
     | Some rep \<Rightarrow> open_critical_disputes rep = 0 \<and> evidence_verified rep
         \<and> risk_order (dr_risk_level rep) \<le> risk_order limit \<and> is_decision_ready rep)"

definition permitted :: "authority_rule set \<Rightarrow> risk_level \<Rightarrow> authority_request \<Rightarrow> decision_readiness option \<Rightarrow> bool" where
  "permitted R limit req report \<longleftrightarrow> gate_passes limit report
     \<and> (\<exists>r\<in>R. matches r req \<and> effect r = ALLOW) \<and> \<not> (\<exists>r\<in>R. matches r req \<and> effect r = DENY)"

lemma set_matched_rules [simp]: "set (matched_rules p req) = {r \<in> set (rules p). matches r req}"
  by (simp add: matched_rules_def)

lemma gate_passes_iff:
  "gate_passes limit report \<longleftrightarrow> (case report of None \<Rightarrow> None | Some rep \<Rightarrow> check_readiness_gate limit rep) = None"
  by (auto simp: gate_passes_def check_readiness_gate_def is_risk_acceptable_def split: option.splits)

lemma decide_request_allow:
  "fst (decide_request p limit req report) = ALLOW \<longleftrightarrow> permitted (set (rules p)) limit req report"
  unfolding permitted_def gate_passes_iff decide_request_def Let_def
  by (auto simp: filter_empty_conv split: option.split)

lemma decide_reason_not_blank: "\<not> blank (snd (decide_request p limit req report))"
  by (auto simp: decide_request_def Let_def blank_iff is_space_def split: option.splits)

lemma check_decision_Inr: "check_decision d = Inr e \<Longrightarrow> e = d"
  by (auto simp: check_decision_def)

lemma build_decisionE:
  assumes "build_decision pf now p limit req report = Inr d"
  obtains "ad_request_id d = ar_request_id req" "ad_agent_identity d = ar_agent_identity req"
    "ad_action d = ar_action req" "ad_resource d = ar_resource req"
    "ad_context_packet_id d = ar_context_packet_id req" "ad_parameters d = ar_parameters req"
    "ad_organization_id d = ar_organization_id req" "ad_actor_id d = ar_actor_id req"
    "ad_capability d = ar_capability req"
    "ad_policy_id d = policy_id p" "ad_policy_version d = policy_version p"
    "(ad_decision d, ad_reason d) = decide_request p limit req report"
    "ad_matched_rule_ids d = map rule_id (matched_rules p req)"
    "provenance_token d" "provenance_issuer d = ISSUER_ID"
    "signature_for pf ''authority-decision'' (decision_payload d) = Inr (provenance_signature d)"
  using assms unfolding build_decision_def attach_decision_provenance_def bind_res_Inr_iff
  by (auto dest!: check_decision_Inr simp: decision_payload_def)

lemma evaluate_request_Inr:
  "evaluate_request pf now req report eng = (Inr d, eng') \<longleftrightarrow>
     build_decision pf now (ae_policy eng) (max_allowed_risk eng) req report = Inr d
     \<and> (\<exists>k. ae_sink eng d (ae_sink_state eng) = (Inr (), k)
          \<and> eng' = eng\<lparr>ae_audit := ae_audit eng @ [d], ae_sink_state := k\<rparr>)"
  by (auto simp: evaluate_request_def bind_res_Inr_iff split: sum.splits prod.splits)

lemma build_decision_ok:
  assumes "check_request req = Inr req" "check_policy p = Inr p" "load_signing_key pf = Inr key"
    and "iso_inverse pf" "datetime_range now"
  shows "\<exists>d. build_decision pf now p limit req report = Inr d"
  using assms decide_reason_not_blank [of p limit req report]
  by (simp add: build_decision_def check_decision_def check_request_Inr check_policy_Inr unique_keys_iff
      attach_decision_provenance_def signature_for_def iso_inverse_def raise_if_def)

subsection \<open>Properties\<close>

text \<open>
  C25 (refinement).  The decision of \<open>evaluate\<close> is an ALLOW exactly when the policy permits
  the request: an allow rule matches, no deny rule matches whatever the priorities, and the
  readiness gate passes.  With no matching rule the request is denied.
\<close>

theorem evaluate_implements_policy:
  assumes "evaluate_request pf now req report eng = (Inr d, eng')"
  shows "ad_decision d = ALLOW \<longleftrightarrow> permitted (set (rules (ae_policy eng))) (max_allowed_risk eng) req report"
proof -
  from assms have "build_decision pf now (ae_policy eng) (max_allowed_risk eng) req report = Inr d"
    by (simp add: evaluate_request_Inr)
  then have "(ad_decision d, ad_reason d) = decide_request (ae_policy eng) (max_allowed_risk eng) req report"
    by (rule build_decisionE)
  then show ?thesis by (metis decide_request_allow fst_conv)
qed

text \<open>
  Property (totality).  On a valid request and policy, with a usable key and a sink that does not
  raise, \<open>evaluate\<close> returns a decision: it is bound to the request, its provenance verifies,
  and it is the one new entry of the audit trail.
\<close>

theorem evaluate_total:
  assumes "check_request req = Inr req" "check_policy (ae_policy eng) = Inr (ae_policy eng)"
    and "load_signing_key pf = Inr key" "hex_digests pf" "iso_inverse pf" "datetime_range now"
    and "\<forall>d k. fst (ae_sink eng d k) = Inr ()"
  shows "\<exists>d eng'. evaluate_request pf now req report eng = (Inr d, eng')
    \<and> ad_request_id d = ar_request_id req \<and> ad_parameters d = ar_parameters req
    \<and> decision_has_valid_provenance pf d = Inr True \<and> provenance_verified d
    \<and> ae_audit eng' = ae_audit eng @ [d]"
proof -
  obtain d where d: "build_decision pf now (ae_policy eng) (max_allowed_risk eng) req report = Inr d"
    using build_decision_ok [OF assms(1-3,5,6)] by blast
  obtain k where "ae_sink eng d (ae_sink_state eng) = (Inr (), k)"
    using assms(7) by (metis prod.collapse)
  with d have ev: "evaluate_request pf now req report eng
      = (Inr d, eng\<lparr>ae_audit := ae_audit eng @ [d], ae_sink_state := k\<rparr>)"
    by (simp add: evaluate_request_Inr)
  from d have f: "ad_request_id d = ar_request_id req" "ad_parameters d = ar_parameters req"
    "provenance_token d" "provenance_issuer d = ISSUER_ID"
    and sig: "signature_for pf ''authority-decision'' (decision_payload d) = Inr (provenance_signature d)"
    by (auto elim: build_decisionE)
  from signature_for_hex [OF assms(4) sig] f sig
  have "decision_has_valid_provenance pf d = Inr True" "provenance_verified d"
    by (simp_all add: decision_provenance_True provenance_verified_def)
  with ev f show ?thesis by auto
qed

lemma matched_rules_order:
  assumes "mset (rules p) = mset (rules q)" "distinct (map rule_id (rules p))"
  shows "matched_rules p req = matched_rules q req"
proof -
  let ?k = "\<lambda>r. (- priority r, rule_id r)"
  let ?f = "filter (\<lambda>r. matches r req)"
  have m: "mset (?f (rules p)) = mset (?f (rules q))" using assms(1) by simp
  have "inj_on ?k (set (?f (rules p)))"
    using assms(2) by (auto simp: inj_on_def distinct_map)
  with m show ?thesis
    unfolding matched_rules_def
    by (intro sort_key_inj_key_eq) simp_all
qed

text \<open>
  Property (determinism).  The order in which a policy lists its rules does not matter: two
  policies with the same rules produce the same decision, matched rule identifiers, reason
  and signature included.
\<close>

theorem evaluate_order_independent:
  assumes "mset (rules (ae_policy eng)) = mset rs" "distinct (map rule_id (rules (ae_policy eng)))"
  shows "fst (evaluate_request pf now req report eng)
    = fst (evaluate_request pf now req report (eng\<lparr>ae_policy := (ae_policy eng)\<lparr>rules := rs\<rparr>\<rparr>))"
proof -
  have m: "matched_rules ((ae_policy eng)\<lparr>rules := rs\<rparr>) req = matched_rules (ae_policy eng) req"
    using assms by (intro matched_rules_order [symmetric]) simp_all
  then have "decide_request ((ae_policy eng)\<lparr>rules := rs\<rparr>) l req report = decide_request (ae_policy eng) l req report" for l
    by (simp add: decide_request_def)
  with m show ?thesis
    by (simp add: evaluate_request_def build_decision_def split: sum.splits prod.splits)
qed

text \<open>Calls of \<open>evaluate\<close> one after the other, with what each returned or raised.\<close>

fun evaluate_seq ::
  "platform \<Rightarrow> (time \<times> authority_request \<times> decision_readiness option) list \<Rightarrow> 'k authority_engine
     \<Rightarrow> authority_decision result list \<times> 'k authority_engine" where
  "evaluate_seq pf [] eng = ([], eng)"
| "evaluate_seq pf ((now, req, report) # calls) eng =
     (case evaluate_request pf now req report eng of
        (r, eng1) \<Rightarrow> (case evaluate_seq pf calls eng1 of (rs, eng2) \<Rightarrow> (r # rs, eng2)))"

definition returned :: "'a result list \<Rightarrow> 'a list" where
  "returned rs = concat (map (\<lambda>r. case r of Inl e \<Rightarrow> [] | Inr d \<Rightarrow> [d]) rs)"

lemma returned_simps [simp]:
  "returned [] = []"
  "returned (Inl e # rs) = returned rs"
  "returned (Inr d # rs) = d # returned rs"
  by (simp_all add: returned_def)

lemma evaluate_request_recording:
  assumes "evaluate_request pf now req report eng = (r, eng')" "ae_sink eng = recording_sink"
  shows "ae_sink eng' = recording_sink \<and> ae_audit eng' = ae_audit eng @ returned [r]
    \<and> ae_sink_state eng' = ae_sink_state eng @ returned [r]"
  using assms by (auto simp: evaluate_request_def recording_sink_def returned_def split: sum.splits)

text \<open>
  Property (audit completeness).  With a recording sink, after any sequence of calls both the
  engine's trail and the sink have grown by exactly the decisions that were returned,
  ALLOW and DENY alike, in the order of the calls.
\<close>

theorem audit_trail_complete:
  assumes "evaluate_seq pf calls eng = (rs, eng')" "ae_sink eng = recording_sink"
  shows "ae_audit eng' = ae_audit eng @ returned rs \<and> ae_sink_state eng' = ae_sink_state eng @ returned rs
    \<and> length rs = length calls"
  using assms
proof (induction pf calls eng arbitrary: rs rule: evaluate_seq.induct)
  case (2 pf now req report calls eng)
  obtain r eng1 where r: "evaluate_request pf now req report eng = (r, eng1)" by fastforce
  obtain rs1 where rs1: "evaluate_seq pf calls eng1 = (rs1, eng')" "rs = r # rs1"
    using "2.prems"(1) r by (auto split: prod.splits)
  note step = evaluate_request_recording [OF r "2.prems"(2)]
  have "ae_audit eng' = ae_audit eng1 @ returned rs1 \<and> ae_sink_state eng' = ae_sink_state eng1 @ returned rs1
      \<and> length rs1 = length calls"
    using "2.IH" [OF r [symmetric] rs1(1)] step by simp
  with step rs1(2) show ?case by (cases r) simp_all
qed simp

subsection \<open>A concrete policy\<close>

definition demo_rule :: "str \<Rightarrow> str \<Rightarrow> decision \<Rightarrow> int \<Rightarrow> authority_rule" where
  "demo_rule i pat eff prio =
     \<lparr>rule_id = i, rule_action = ''deploy'', resource_pattern = pat, effect = eff,
      rule_agent_identity = None, rule_agent_role = None, required_context = [(''env'', ''test'')], priority = prio\<rparr>"

definition demo_policy :: authority_policy where
  "demo_policy = \<lparr>policy_id = ''p'', policy_version = ''1'',
     rules = [demo_rule ''r1'' ''svc/*'' ALLOW 9, demo_rule ''r2'' ''svc/prod'' DENY 0]\<rparr>"

definition demo_request :: "str \<Rightarrow> authority_request" where
  "demo_request res =
     \<lparr>ar_request_id = ''q1'', ar_agent_identity = ''agent'', ar_action = ''deploy'', ar_resource = res,
      ar_context_packet_id = ''c1'', ar_requested_at = ''0'', ar_agent_role = None,
      ar_context = [(''env'', ''test'')], ar_parameters = [], ar_organization_id = Some ''org'',
      ar_actor_id = None, ar_capability = None\<rparr>"

definition demo_engine :: "authority_decision list authority_engine" where
  "demo_engine = new_engine demo_policy (Some recording_sink) [] RHIGH"

lemma demo_engine_sel [simp]:
  "ae_policy demo_engine = demo_policy"
  "ae_sink demo_engine = recording_sink"
  "max_allowed_risk demo_engine = RHIGH"
  "ae_audit demo_engine = []"
  "ae_sink_state demo_engine = []"
  by (simp_all add: demo_engine_def new_engine_def as_sink_def)

lemma demo_policy_ok: "check_policy demo_policy = Inr demo_policy"
  by (simp add: check_policy_Inr demo_policy_def demo_rule_def blank_iff is_space_def)

lemma demo_request_ok: "\<not> blank res \<Longrightarrow> check_request (demo_request res) = Inr (demo_request res)"
  by (simp add: check_request_Inr demo_request_def blank_iff is_space_def)

lemma demo_evaluate:
  assumes "\<not> blank res"
  shows "\<exists>d eng'. evaluate_request demo_platform 5 (demo_request res) report demo_engine = (Inr d, eng')"
  using build_decision_ok [OF demo_request_ok [OF assms] demo_policy_ok demo_key demo_platform_iso demo_range(1)]
  by (simp add: evaluate_request_Inr recording_sink_def)

lemma demo_permitted:
  "permitted (set (rules demo_policy)) RHIGH (demo_request ''svc/web'') None"
  "\<not> permitted (set (rules demo_policy)) RHIGH (demo_request ''svc/prod'') None"
  by code_simp+

lemma demo_not_blank: "\<not> blank ''svc/web''" "\<not> blank ''svc/prod''"
  by (simp_all add: blank_iff is_space_def)

theorem evaluate_implements_policy_witness:
  "(\<exists>d e. evaluate_request demo_platform 5 (demo_request ''svc/web'') None demo_engine = (Inr d, e) \<and> ad_decision d = ALLOW)
   \<and> (\<exists>d e. evaluate_request demo_platform 5 (demo_request ''svc/prod'') None demo_engine = (Inr d, e) \<and> ad_decision d \<noteq> ALLOW)"
proof -
  obtain d e where d: "evaluate_request demo_platform 5 (demo_request ''svc/web'') None demo_engine = (Inr d, e)"
    using demo_evaluate [OF demo_not_blank(1)] by blast
  obtain d' e' where d': "evaluate_request demo_platform 5 (demo_request ''svc/prod'') None demo_engine = (Inr d', e')"
    using demo_evaluate [OF demo_not_blank(2)] by blast
  from d d' show ?thesis
    using evaluate_implements_policy [OF d] evaluate_implements_policy [OF d'] demo_permitted by simp
qed

theorem evaluate_total_witness:
  "\<exists>d eng'. evaluate_request demo_platform 5 (demo_request ''svc/web'') None demo_engine = (Inr d, eng')
    \<and> decision_has_valid_provenance demo_platform d = Inr True \<and> ae_audit eng' = [d]"
proof -
  have "check_policy (ae_policy demo_engine) = Inr (ae_policy demo_engine)" by (simp add: demo_policy_ok)
  from evaluate_total [OF demo_request_ok [OF demo_not_blank(1)] this demo_key demo_platform_digests
      demo_platform_iso demo_range(1)]
  show ?thesis by (simp add: recording_sink_def) blast
qed

theorem evaluate_order_independent_witness:
  "fst (evaluate_request demo_platform 5 (demo_request ''svc/web'') None demo_engine)
    = fst (evaluate_request demo_platform 5 (demo_request ''svc/web'') None
        (demo_engine\<lparr>ae_policy := demo_policy\<lparr>rules := rev (rules demo_policy)\<rparr>\<rparr>))"
  using evaluate_order_independent [of demo_engine "rev (rules demo_policy)" demo_platform 5
      "demo_request ''svc/web''" None]
  by (simp add: demo_policy_def demo_rule_def)

theorem audit_trail_complete_witness:
  "\<exists>d e. evaluate_seq demo_platform [(5, demo_request ''svc/prod'', None)] demo_engine = ([Inr d], e)
    \<and> ae_audit e = [d] \<and> ae_sink_state e = [d]"
proof -
  obtain d e where d: "evaluate_request demo_platform 5 (demo_request ''svc/prod'') None demo_engine = (Inr d, e)"
    using demo_evaluate [OF demo_not_blank(2)] by blast
  then have s: "evaluate_seq demo_platform [(5, demo_request ''svc/prod'', None)] demo_engine = ([Inr d], e)"
    by simp
  from audit_trail_complete [OF s] s show ?thesis by simp
qed

end
