(* ===== verification/Execution_Models.thy ===== *)
theory Execution_Models
  imports Authority_Grants
begin

section \<open>Execution requests, dispatches and results (\<open>phase4/execution/models.py\<close>)\<close>

text \<open>
  The execution side of the control plane: requests, the governed dispatch that ties a
  request to a verified grant, results, and \<open>execution_id_for\<close>, the digest that makes an
  execution idempotent.  Clock readings are arguments, one per call of \<open>datetime.now\<close>.
\<close>

datatype execution_status = ES_SUCCEEDED | ES_FAILED | ES_REJECTED | ES_REPLAYED | ES_ABANDONED

fun execution_status_value :: "execution_status \<Rightarrow> str" where
  "execution_status_value ES_SUCCEEDED = ''succeeded''"
| "execution_status_value ES_FAILED = ''failed''"
| "execution_status_value ES_REJECTED = ''rejected''"
| "execution_status_value ES_REPLAYED = ''replayed''"
| "execution_status_value ES_ABANDONED = ''abandoned''"

record execution_request =
  xr_request_id :: str
  xr_agent_identity :: str
  xr_action :: str
  xr_resource :: str
  xr_context_packet_id :: str
  xr_organization_id :: str
  xr_parameters :: "(str \<times> str) list"
  idempotency_key :: "str option"
  xr_actor_id :: "str option"
  xr_capability :: "str option"

definition check_execution_request :: "execution_request \<Rightarrow> execution_request result" where
  "check_execution_request r =
     raise_if (\<exists>v\<in>{xr_request_id r, xr_agent_identity r, xr_action r, xr_resource r,
                    xr_context_packet_id r, xr_organization_id r}. blank v) ValueError
     (raise_if (\<not> unique_keys (xr_parameters r)) ValueError
     (raise_if (blank_opt (idempotency_key r)) ValueError
       (Inr r)))"

definition create_execution_request ::
  "str \<Rightarrow> str \<Rightarrow> str \<Rightarrow> str \<Rightarrow> str \<Rightarrow> str \<Rightarrow> (str, str) dict \<Rightarrow> str option \<Rightarrow> str option \<Rightarrow> str option
     \<Rightarrow> execution_request result" where
  "create_execution_request rid agent act res packet org params key actor capab =
     check_execution_request
       \<lparr>xr_request_id = rid, xr_agent_identity = agent, xr_action = act, xr_resource = res,
        xr_context_packet_id = packet, xr_organization_id = org, xr_parameters = sorted_items params,
        idempotency_key = key, xr_actor_id = actor, xr_capability = capab\<rparr>"

text \<open>The fields that \<open>VerifiedAuthorityGrant.binds\<close> compares.\<close>

definition request_fields :: "execution_request \<Rightarrow> bound_fields" where
  "request_fields r =
     \<lparr>bf_request_id = xr_request_id r, bf_agent_identity = xr_agent_identity r, bf_action = xr_action r,
      bf_resource = xr_resource r, bf_context_packet_id = xr_context_packet_id r,
      bf_parameters = xr_parameters r, bf_organization_id = Some (xr_organization_id r),
      bf_actor_id = xr_actor_id r, bf_capability = xr_capability r\<rparr>"

record governed_dispatch =
  gd_request :: execution_request
  gd_grant :: authority_grant
  dispatch_token :: bool

definition issue_dispatch ::
  "platform \<Rightarrow> time \<Rightarrow> execution_request \<Rightarrow> authority_grant \<Rightarrow> governed_dispatch result" where
  "issue_dispatch pf now req g =
     bind_res (binds pf now g (request_fields req) None) (\<lambda>ok.
       raise_if (\<not> ok) ValueError (Inr \<lparr>gd_request = req, gd_grant = g, dispatch_token = True\<rparr>))"

text \<open>\<open>is_verified\<close> reads the clock twice, in \<open>grant.verified\<close> and in \<open>grant.binds\<close>.\<close>

definition is_verified :: "platform \<Rightarrow> time \<Rightarrow> time \<Rightarrow> governed_dispatch \<Rightarrow> bool result" where
  "is_verified pf now now' d =
     (if \<not> dispatch_token d then Inr False
      else bind_res (verify_grant pf now (gd_grant d) None) (\<lambda>ok.
        if \<not> ok then Inr False else binds pf now' (gd_grant d) (request_fields (gd_request d)) None))"

record execution_result =
  er_execution_id :: str
  er_request_id :: str
  er_policy_id :: str
  er_policy_version :: str
  er_agent_identity :: str
  er_action :: str
  er_resource :: str
  er_context_packet_id :: str
  er_status :: execution_status
  er_adapter_id :: str
  er_output :: "(str \<times> str) list"
  er_error :: "str option"
  executed_at :: str

definition succeeded :: "execution_result \<Rightarrow> bool" where
  "succeeded r \<longleftrightarrow> er_status r = ES_SUCCEEDED"

definition terminal_result :: "execution_result \<Rightarrow> bool" where
  "terminal_result r \<longleftrightarrow> er_status r \<in> {ES_SUCCEEDED, ES_FAILED, ES_REJECTED, ES_REPLAYED, ES_ABANDONED}"

definition execution_payload :: "execution_request \<Rightarrow> authority_decision \<Rightarrow> json" where
  "execution_payload r d =
     JObj [(''request_id'', JStr (xr_request_id r)), (''agent_identity'', JStr (xr_agent_identity r)),
           (''action'', JStr (xr_action r)), (''resource'', JStr (xr_resource r)),
           (''context_packet_id'', JStr (xr_context_packet_id r)),
           (''organization_id'', JStr (xr_organization_id r)),
           (''parameters'', jpairs (sort (xr_parameters r))), (''idempotency_key'', jopt (idempotency_key r)),
           (''actor_id'', jopt (xr_actor_id r)), (''capability'', jopt (xr_capability r)),
           (''authority_decision'', JStr (decision_value (ad_decision d))),
           (''policy_id'', JStr (ad_policy_id d)), (''policy_version'', JStr (ad_policy_version d)),
           (''matched_rule_ids'', jstrs (ad_matched_rule_ids d))]"

definition execution_id_for :: "platform \<Rightarrow> execution_request \<Rightarrow> authority_decision \<Rightarrow> str" where
  "execution_id_for pf r d = sha256_hex pf (utf8 (dumps True (execution_payload r d)))"

subsection \<open>Identity of executions\<close>

lemma execution_payload_inject:
  "canon (execution_payload r d) = canon (execution_payload s e) \<longleftrightarrow>
     r\<lparr>xr_parameters := sort (xr_parameters r)\<rparr> = s\<lparr>xr_parameters := sort (xr_parameters s)\<rparr>
     \<and> ad_decision d = ad_decision e \<and> ad_policy_id d = ad_policy_id e
     \<and> ad_policy_version d = ad_policy_version e \<and> ad_matched_rule_ids d = ad_matched_rule_ids e"
  unfolding execution_payload_def by (cases r; cases s) (subst canon_JObj_inject, auto)

text \<open>
  Property (idempotency key).  Two authorised executions have the same identifier exactly when
  they agree on the whole request up to the order of parameters, on the decision, the
  policy and its version, and on the matched rules; unless SHA-256 collides.
\<close>

theorem execution_id_identifies:
  "execution_id_for pf r d = execution_id_for pf s e \<longleftrightarrow>
     (r\<lparr>xr_parameters := sort (xr_parameters r)\<rparr> = s\<lparr>xr_parameters := sort (xr_parameters s)\<rparr>
      \<and> ad_decision d = ad_decision e \<and> ad_policy_id d = ad_policy_id e
      \<and> ad_policy_version d = ad_policy_version e \<and> ad_matched_rule_ids d = ad_matched_rule_ids e)
     \<or> (let m = utf8 (dumps True (execution_payload r d)); m' = utf8 (dumps True (execution_payload s e))
        in m \<noteq> m' \<and> sha256_hex pf m = sha256_hex pf m')"
  unfolding execution_payload_inject [symmetric] execution_id_for_def Let_def utf8_inject dumps_inject
  by (metis dumps_inject)

end
