(* ===== verification/Replay_Ledger.thy ===== *)
theory Replay_Ledger
  imports Execution_Models
begin

section \<open>The execution replay ledger (\<open>phase4/execution/replay_ledger.py\<close>)\<close>

text \<open>
  The fenced state machine \<open>EMPTY \<rightarrow> PENDING \<rightarrow> SUCCEEDED / FAILED / ABANDONED\<close> that makes
  executions idempotent.  \<open>ledger_ops\<close> is the protocol \<open>ExecutionReplayLedger\<close> as a record
  of operations on a state; the locale \<open>replay_ledger\<close> is its contract, with the facts that
  clients use proved once; the in-memory ledger is interpreted at the end.  Fresh fencing
  tokens and clock readings are arguments.
\<close>

definition DEFAULT_CLAIM_LEASE_SECONDS :: int where
  "DEFAULT_CLAIM_LEASE_SECONDS = 300"

datatype ledger_status = LS_PENDING | LS_SUCCEEDED | LS_FAILED | LS_ABANDONED

datatype claim_kind = ACQUIRED | ALREADY_SUCCEEDED | IN_FLIGHT

record ledger_record =
  lr_execution_id :: str
  lr_status :: ledger_status
  lr_result :: "execution_result option"
  lr_grant_id :: "str option"
  lr_request_id :: "str option"
  lr_lease_expires_at :: "time option"
  lr_fencing_token :: "str option"

record claim_outcome =
  co_kind :: claim_kind
  co_record :: "ledger_record option"

definition lease_expired :: "time option \<Rightarrow> time \<Rightarrow> bool" where
  "lease_expired v now \<longleftrightarrow> (case v of None \<Rightarrow> True | Some t \<Rightarrow> t \<le> now)"

text \<open>The record a successful claim creates, and the three ways to close it.\<close>

definition pending_record :: "str \<Rightarrow> str option \<Rightarrow> str option \<Rightarrow> time \<Rightarrow> str \<Rightarrow> ledger_record" where
  "pending_record eid grant req lease token =
     \<lparr>lr_execution_id = eid, lr_status = LS_PENDING, lr_result = None, lr_grant_id = grant,
      lr_request_id = req, lr_lease_expires_at = Some lease, lr_fencing_token = Some token\<rparr>"

definition closed_record :: "ledger_status \<Rightarrow> execution_result option \<Rightarrow> ledger_record \<Rightarrow> ledger_record" where
  "closed_record st res r =
     r\<lparr>lr_status := st, lr_result := res, lr_lease_expires_at := None, lr_fencing_token := None\<rparr>"

subsection \<open>The in-memory ledger\<close>

record memory_ledger =
  claim_lease_seconds :: int
  records :: "(str, ledger_record) dict"

definition new_memory_ledger :: "int \<Rightarrow> memory_ledger result" where
  "new_memory_ledger lease = raise_if (lease < 1) ValueError (Inr \<lparr>claim_lease_seconds = lease, records = []\<rparr>)"

definition mem_try_claim ::
  "memory_ledger \<Rightarrow> time \<Rightarrow> str \<Rightarrow> str \<Rightarrow> str option \<Rightarrow> str option \<Rightarrow> datetime option
     \<Rightarrow> (claim_outcome \<times> memory_ledger) result" where
  "mem_try_claim l now token eid grant req at_opt =
     raise_if (blank eid) ValueError
     (bind_res (aware_utc now at_opt) (\<lambda>instant.
        let lease = instant + seconds (claim_lease_seconds l)
        in raise_if (\<not> datetime_range lease) OverflowError
           (let acquired = (let r = pending_record eid grant req lease token
                            in Inr (\<lparr>co_kind = ACQUIRED, co_record = Some r\<rparr>,
                                    l\<lparr>records := dict_set eid r (records l)\<rparr>))
            in case dict_get (records l) eid of
                 None \<Rightarrow> acquired
               | Some r \<Rightarrow>
                   if lr_status r = LS_SUCCEEDED
                   then Inr (\<lparr>co_kind = ALREADY_SUCCEEDED, co_record = Some r\<rparr>, l)
                   else if lr_status r = LS_PENDING \<and> \<not> lease_expired (lr_lease_expires_at r) instant
                   then Inr (\<lparr>co_kind = IN_FLIGHT, co_record = Some r\<rparr>, l)
                   else acquired)))"

definition mem_pending :: "memory_ledger \<Rightarrow> str \<Rightarrow> str \<Rightarrow> ledger_record result" where
  "mem_pending l eid token =
     (case dict_get (records l) eid of
        None \<Rightarrow> Inl RuntimeError
      | Some r \<Rightarrow>
          raise_if (lr_status r \<noteq> LS_PENDING) RuntimeError
          (raise_if (token = [] \<or> lr_fencing_token r \<noteq> Some token) StaleClaimTokenError
            (Inr r)))"

definition mem_complete_succeeded ::
  "memory_ledger \<Rightarrow> str \<Rightarrow> execution_result \<Rightarrow> str \<Rightarrow> memory_ledger result" where
  "mem_complete_succeeded l eid res token =
     raise_if (er_status res \<noteq> ES_SUCCEEDED) ValueError
     (bind_res (mem_pending l eid token) (\<lambda>r.
        Inr (l\<lparr>records := dict_set eid (closed_record LS_SUCCEEDED (Some res) r) (records l)\<rparr>)))"

definition mem_complete_failed ::
  "memory_ledger \<Rightarrow> str \<Rightarrow> execution_result \<Rightarrow> str \<Rightarrow> memory_ledger result" where
  "mem_complete_failed l eid res token =
     raise_if (er_status res \<noteq> ES_FAILED) ValueError
     (bind_res (mem_pending l eid token) (\<lambda>r.
        Inr (l\<lparr>records := dict_set eid (closed_record LS_FAILED (Some res) r) (records l)\<rparr>)))"

definition mem_abandon :: "memory_ledger \<Rightarrow> str \<Rightarrow> str \<Rightarrow> memory_ledger result" where
  "mem_abandon l eid token =
     (case dict_get (records l) eid of
        None \<Rightarrow> Inr l
      | Some r \<Rightarrow>
          if lr_status r \<noteq> LS_PENDING then Inr l
          else raise_if (token = [] \<or> lr_fencing_token r \<noteq> Some token) StaleClaimTokenError
                 (Inr (l\<lparr>records := dict_set eid (closed_record LS_ABANDONED (lr_result r) r) (records l)\<rparr>)))"

definition mem_get :: "memory_ledger \<Rightarrow> str \<Rightarrow> ledger_record option" where
  "mem_get l eid = dict_get (records l) eid"

subsection \<open>The protocol\<close>

record 'l ledger_ops =
  try_claim :: "'l \<Rightarrow> time \<Rightarrow> str \<Rightarrow> str \<Rightarrow> str option \<Rightarrow> str option \<Rightarrow> datetime option
                  \<Rightarrow> (claim_outcome \<times> 'l) result"
  complete_succeeded :: "'l \<Rightarrow> time \<Rightarrow> str \<Rightarrow> execution_result \<Rightarrow> str \<Rightarrow> 'l result"
  complete_failed :: "'l \<Rightarrow> time \<Rightarrow> str \<Rightarrow> execution_result \<Rightarrow> str \<Rightarrow> 'l result"
  abandon :: "'l \<Rightarrow> time \<Rightarrow> str \<Rightarrow> str \<Rightarrow> 'l result"
  get_record :: "'l \<Rightarrow> str \<Rightarrow> ledger_record option"
  ledger_organization :: "'l \<Rightarrow> str option"

definition memory_ops :: "memory_ledger ledger_ops" where
  "memory_ops =
     \<lparr>try_claim = mem_try_claim,
      complete_succeeded = (\<lambda>l now. mem_complete_succeeded l),
      complete_failed = (\<lambda>l now. mem_complete_failed l),
      abandon = (\<lambda>l now. mem_abandon l),
      get_record = mem_get,
      ledger_organization = (\<lambda>l. None)\<rparr>"

subsection \<open>Abstract specification\<close>

text \<open>
  The ledger as a map from execution identifiers to records.  A claim is granted when there
  is no record, when the last attempt failed or was abandoned, or when the lease of the
  pending claim is over; only the holder of the current token closes a claim.  A token
  mismatch is a \<open>RuntimeError\<close> here: \<open>norm_exn\<close> forgets the subclass that only the
  in-memory ledger raises.
\<close>

type_synonym ledger_map = "str \<Rightarrow> ledger_record option"

definition norm_exn :: "exn \<Rightarrow> exn" where
  "norm_exn e = (if is_runtime_error e then RuntimeError else e)"

definition claimable :: "ledger_record option \<Rightarrow> time \<Rightarrow> bool" where
  "claimable cur t \<longleftrightarrow> (case cur of None \<Rightarrow> True
     | Some r \<Rightarrow> lr_status r \<in> {LS_FAILED, LS_ABANDONED}
         \<or> lr_status r = LS_PENDING \<and> lease_expired (lr_lease_expires_at r) t)"

definition refused_kind :: "ledger_record option \<Rightarrow> claim_kind" where
  "refused_kind cur = (if map_option lr_status cur = Some LS_SUCCEEDED then ALREADY_SUCCEEDED else IN_FLIGHT)"

definition owned :: "ledger_record option \<Rightarrow> str \<Rightarrow> bool" where
  "owned cur token \<longleftrightarrow> (case cur of None \<Rightarrow> False
     | Some r \<Rightarrow> lr_status r = LS_PENDING \<and> token \<noteq> [] \<and> lr_fencing_token r = Some token)"

definition spec_claim ::
  "int \<Rightarrow> ledger_map \<Rightarrow> time \<Rightarrow> str \<Rightarrow> str \<Rightarrow> str option \<Rightarrow> str option \<Rightarrow> datetime option
     \<Rightarrow> (claim_outcome \<times> ledger_map) result" where
  "spec_claim lease_secs m now token eid grant req at_opt =
     raise_if (blank eid) ValueError
     (bind_res (aware_utc now at_opt) (\<lambda>t.
        raise_if (\<not> datetime_range (t + seconds lease_secs)) OverflowError
        (if claimable (m eid) t
         then let r = pending_record eid grant req (t + seconds lease_secs) token
              in Inr (\<lparr>co_kind = ACQUIRED, co_record = Some r\<rparr>, m(eid \<mapsto> r))
         else Inr (\<lparr>co_kind = refused_kind (m eid), co_record = m eid\<rparr>, m))))"

definition spec_complete ::
  "ledger_status \<Rightarrow> execution_status \<Rightarrow> ledger_map \<Rightarrow> str \<Rightarrow> execution_result \<Rightarrow> str \<Rightarrow> ledger_map result" where
  "spec_complete st want m eid res token =
     raise_if (er_status res \<noteq> want) ValueError
     (raise_if (\<not> owned (m eid) token) RuntimeError
       (Inr (m(eid := map_option (closed_record st (Some res)) (m eid)))))"

definition spec_abandon :: "ledger_map \<Rightarrow> str \<Rightarrow> str \<Rightarrow> ledger_map result" where
  "spec_abandon m eid token =
     (if map_option lr_status (m eid) \<noteq> Some LS_PENDING then Inr m
      else raise_if (\<not> owned (m eid) token) RuntimeError
             (Inr (m(eid := map_option (closed_record LS_ABANDONED None) (m eid)))))"

text \<open>Calls on a ledger, in the order in which its lock or its transactions put them.\<close>

datatype ledger_call =
    Claim time str str "str option" "str option" "datetime option"
  | Succeed time str execution_result str
  | Fail time str execution_result str
  | Abandon time str str

datatype call_outcome = Claimed claim_outcome | Completed | Raised exn

fun spec_call :: "int \<Rightarrow> ledger_map \<Rightarrow> ledger_call \<Rightarrow> call_outcome \<times> ledger_map" where
  "spec_call ls m (Claim now tok eid g r at_opt) =
     (case spec_claim ls m now tok eid g r at_opt of Inl e \<Rightarrow> (Raised e, m) | Inr (out, m') \<Rightarrow> (Claimed out, m'))"
| "spec_call ls m (Succeed now eid res tok) =
     (case spec_complete LS_SUCCEEDED ES_SUCCEEDED m eid res tok of Inl e \<Rightarrow> (Raised e, m) | Inr m' \<Rightarrow> (Completed, m'))"
| "spec_call ls m (Fail now eid res tok) =
     (case spec_complete LS_FAILED ES_FAILED m eid res tok of Inl e \<Rightarrow> (Raised e, m) | Inr m' \<Rightarrow> (Completed, m'))"
| "spec_call ls m (Abandon now eid tok) =
     (case spec_abandon m eid tok of Inl e \<Rightarrow> (Raised e, m) | Inr m' \<Rightarrow> (Completed, m'))"

fun spec_run :: "int \<Rightarrow> ledger_map \<Rightarrow> ledger_call list \<Rightarrow> call_outcome list \<times> ledger_map" where
  "spec_run ls m [] = ([], m)"
| "spec_run ls m (c # cs) =
     (case spec_call ls m c of (out, m1) \<Rightarrow> (case spec_run ls m1 cs of (outs, m2) \<Rightarrow> (out # outs, m2)))"

fun ledger_call_step :: "'l ledger_ops \<Rightarrow> 'l \<Rightarrow> ledger_call \<Rightarrow> call_outcome \<times> 'l" where
  "ledger_call_step ops l (Claim now tok eid g r at_opt) =
     (case try_claim ops l now tok eid g r at_opt of Inl e \<Rightarrow> (Raised (norm_exn e), l) | Inr (out, l') \<Rightarrow> (Claimed out, l'))"
| "ledger_call_step ops l (Succeed now eid res tok) =
     (case complete_succeeded ops l now eid res tok of Inl e \<Rightarrow> (Raised (norm_exn e), l) | Inr l' \<Rightarrow> (Completed, l'))"
| "ledger_call_step ops l (Fail now eid res tok) =
     (case complete_failed ops l now eid res tok of Inl e \<Rightarrow> (Raised (norm_exn e), l) | Inr l' \<Rightarrow> (Completed, l'))"
| "ledger_call_step ops l (Abandon now eid tok) =
     (case abandon ops l now eid tok of Inl e \<Rightarrow> (Raised (norm_exn e), l) | Inr l' \<Rightarrow> (Completed, l'))"

fun ledger_run :: "'l ledger_ops \<Rightarrow> 'l \<Rightarrow> ledger_call list \<Rightarrow> call_outcome list \<times> 'l" where
  "ledger_run ops l [] = ([], l)"
| "ledger_run ops l (c # cs) =
     (case ledger_call_step ops l c of (out, l1) \<Rightarrow> (case ledger_run ops l1 cs of (outs, l2) \<Rightarrow> (out # outs, l2)))"

subsection \<open>Facts about the specification\<close>

lemma spec_claim_Inr:
  "spec_claim ls m now tok eid g r at_opt = Inr (out, m') \<longleftrightarrow>
     \<not> blank eid \<and> (\<exists>t. aware_utc now at_opt = Inr t \<and> datetime_range (t + seconds ls)
       \<and> (if claimable (m eid) t
          then out = \<lparr>co_kind = ACQUIRED, co_record = Some (pending_record eid g r (t + seconds ls) tok)\<rparr>
               \<and> m' = m(eid \<mapsto> pending_record eid g r (t + seconds ls) tok)
          else out = \<lparr>co_kind = refused_kind (m eid), co_record = m eid\<rparr> \<and> m' = m))"
proof (cases "aware_utc now at_opt")
  case (Inr t)
  then show ?thesis by (cases "claimable (m eid) t") (auto simp: spec_claim_def Let_def)
qed (simp add: spec_claim_def)

lemma spec_complete_Inr:
  "spec_complete st want m eid res tok = Inr m' \<longleftrightarrow>
     er_status res = want \<and> owned (m eid) tok \<and> m' = m(eid := map_option (closed_record st (Some res)) (m eid))"
  by (auto simp: spec_complete_def)

lemma spec_abandon_Inr:
  "spec_abandon m eid tok = Inr m' \<longleftrightarrow>
     (if map_option lr_status (m eid) \<noteq> Some LS_PENDING then m' = m
      else owned (m eid) tok \<and> m' = m(eid := map_option (closed_record LS_ABANDONED None) (m eid)))"
  by (auto simp: spec_abandon_def)

lemma spec_claim_other:
  assumes "spec_claim ls m now tok i g r at_opt = Inr (out, m')" "m' eid \<noteq> m eid"
  shows "i = eid \<and> (\<exists>t. aware_utc now at_opt = Inr t \<and> claimable (m eid) t
    \<and> m' eid = Some (pending_record eid g r (t + seconds ls) tok))"
  using assms by (auto simp: spec_claim_Inr split: if_splits)

lemma spec_call_other:
  "spec_call ls m c = (out, m') \<Longrightarrow> m' eid = m eid \<or> (case c of
     Claim now tok i g r at_opt \<Rightarrow> i = eid \<and> (\<exists>t. aware_utc now at_opt = Inr t \<and> claimable (m eid) t
        \<and> m' eid = Some (pending_record eid g r (t + seconds ls) tok))
   | Succeed now i res tok \<Rightarrow> i = eid \<and> owned (m eid) tok \<and> er_status res = ES_SUCCEEDED
        \<and> m' eid = map_option (closed_record LS_SUCCEEDED (Some res)) (m eid)
   | Fail now i res tok \<Rightarrow> i = eid \<and> owned (m eid) tok
        \<and> m' eid = map_option (closed_record LS_FAILED (Some res)) (m eid)
   | Abandon now i tok \<Rightarrow> i = eid \<and> owned (m eid) tok
        \<and> m' eid = map_option (closed_record LS_ABANDONED None) (m eid))"
  by (cases c)
    (auto simp: spec_complete_Inr spec_abandon_Inr dest: spec_claim_other split: sum.splits if_splits)

lemma spec_call_succeeded_stable:
  assumes "spec_call ls m c = (out, m')" "m eid = Some rec" "lr_status rec = LS_SUCCEEDED"
  shows "m' eid = Some rec"
  using spec_call_other [OF assms(1), of eid] assms(2,3)
  by (auto simp: claimable_def owned_def split: ledger_call.splits)

lemma spec_succeeded_stable:
  "m eid = Some rec \<Longrightarrow> lr_status rec = LS_SUCCEEDED \<Longrightarrow> snd (spec_run ls m cs) eid = Some rec"
proof (induction cs arbitrary: m)
  case (Cons c cs)
  obtain out m1 where "spec_call ls m c = (out, m1)" by fastforce
  with Cons spec_call_succeeded_stable [of ls m c out m1 eid rec] show ?case
    by (simp split: prod.split)  (metis snd_conv)
qed simp

text \<open>A token that is not the current one stays dead as long as it is not issued again.\<close>

definition issues :: "str \<Rightarrow> str \<Rightarrow> ledger_call \<Rightarrow> bool" where
  "issues eid tok c \<longleftrightarrow> (case c of Claim now tok' i g r at_opt \<Rightarrow> i = eid \<and> tok' = tok | _ \<Rightarrow> False)"

lemma spec_call_fenced:
  assumes "spec_call ls m c = (out, m')" "\<not> owned (m eid) tok" "\<not> issues eid tok c"
  shows "\<not> owned (m' eid) tok"
  using spec_call_other [OF assms(1), of eid] assms(2,3)
  by (auto simp: owned_def issues_def pending_record_def closed_record_def
      split: ledger_call.splits option.splits)

lemma spec_fenced:
  "\<not> owned (m eid) tok \<Longrightarrow> \<forall>c\<in>set cs. \<not> issues eid tok c \<Longrightarrow> \<not> owned (snd (spec_run ls m cs) eid) tok"
proof (induction cs arbitrary: m)
  case (Cons c cs)
  obtain out m1 where "spec_call ls m c = (out, m1)" by fastforce
  with Cons spec_call_fenced [of ls m c out m1 eid tok] show ?case
    by (simp split: prod.split) (metis snd_conv)
qed simp

text \<open>During its lease a claim is exclusive: nobody else acquires it.\<close>

definition respects_lease :: "str \<Rightarrow> str \<Rightarrow> time \<Rightarrow> ledger_call \<Rightarrow> bool" where
  "respects_lease eid tok until c \<longleftrightarrow> (case c of
     Claim now t i g r at_opt \<Rightarrow> \<forall>u. aware_utc now at_opt = Inr u \<longrightarrow> u < until
   | Succeed now i res t \<Rightarrow> i = eid \<longrightarrow> t \<noteq> tok
   | Fail now i res t \<Rightarrow> i = eid \<longrightarrow> t \<noteq> tok
   | Abandon now i t \<Rightarrow> i = eid \<longrightarrow> t \<noteq> tok)"

lemma spec_call_exclusive:
  assumes "spec_call ls m c = (out, m')" "m eid = Some (pending_record eid g r until tok)"
    and "respects_lease eid tok until c"
  shows "m' eid = m eid"
  using spec_call_other [OF assms(1), of eid] assms(2,3)
  by (force simp: owned_def respects_lease_def pending_record_def claimable_def lease_expired_def
      split: ledger_call.splits)

lemma spec_exclusive:
  "m eid = Some (pending_record eid g r until tok) \<Longrightarrow> \<forall>c\<in>set cs. respects_lease eid tok until c
     \<Longrightarrow> snd (spec_run ls m cs) eid = m eid"
proof (induction cs arbitrary: m)
  case (Cons c cs)
  obtain out m1 where "spec_call ls m c = (out, m1)" by fastforce
  with Cons spec_call_exclusive [of ls m c out m1 eid g r until tok] show ?case
    by (simp split: prod.split) (metis snd_conv)
qed simp

subsection \<open>The contract of a ledger\<close>

locale replay_ledger =
  fixes ops :: "'l ledger_ops"
    and inv :: "'l \<Rightarrow> bool"
    and lease :: "'l \<Rightarrow> int"
  assumes claim_refines: "inv l \<Longrightarrow>
      map_sum norm_exn (apsnd (get_record ops)) (try_claim ops l now tok eid g r at_opt)
        = spec_claim (lease l) (get_record ops l) now tok eid g r at_opt"
    and succeed_refines: "inv l \<Longrightarrow>
      map_sum norm_exn (get_record ops) (complete_succeeded ops l now eid res tok)
        = spec_complete LS_SUCCEEDED ES_SUCCEEDED (get_record ops l) eid res tok"
    and fail_refines: "inv l \<Longrightarrow>
      map_sum norm_exn (get_record ops) (complete_failed ops l now eid res tok)
        = spec_complete LS_FAILED ES_FAILED (get_record ops l) eid res tok"
    and abandon_refines: "inv l \<Longrightarrow>
      map_sum norm_exn (get_record ops) (abandon ops l now eid tok) = spec_abandon (get_record ops l) eid tok"
    and claim_inv: "inv l \<Longrightarrow> try_claim ops l now tok eid g r at_opt = Inr (out, l') \<Longrightarrow> inv l' \<and> lease l' = lease l"
    and succeed_inv: "inv l \<Longrightarrow> complete_succeeded ops l now eid res tok = Inr l' \<Longrightarrow> inv l' \<and> lease l' = lease l"
    and fail_inv: "inv l \<Longrightarrow> complete_failed ops l now eid res tok = Inr l' \<Longrightarrow> inv l' \<and> lease l' = lease l"
    and abandon_inv: "inv l \<Longrightarrow> abandon ops l now eid tok = Inr l' \<Longrightarrow> inv l' \<and> lease l' = lease l"
begin

lemma step_refines:
  assumes "inv l" "ledger_call_step ops l c = (out, l')"
  shows "spec_call (lease l) (get_record ops l) c = (out, get_record ops l') \<and> inv l' \<and> lease l' = lease l"
proof (cases c)
  case (Claim now tok eid g r at_opt)
  then show ?thesis
    using assms claim_refines [OF assms(1), of now tok eid g r at_opt, symmetric]
    by (cases "try_claim ops l now tok eid g r at_opt") (auto dest: claim_inv)
next
  case (Succeed now eid res tok)
  then show ?thesis
    using assms succeed_refines [OF assms(1), of now eid res tok, symmetric]
    by (cases "complete_succeeded ops l now eid res tok") (auto dest: succeed_inv)
next
  case (Fail now eid res tok)
  then show ?thesis
    using assms fail_refines [OF assms(1), of now eid res tok, symmetric]
    by (cases "complete_failed ops l now eid res tok") (auto dest: fail_inv)
next
  case (Abandon now eid tok)
  then show ?thesis
    using assms abandon_refines [OF assms(1), of now eid tok, symmetric]
    by (cases "abandon ops l now eid tok") (auto dest: abandon_inv)
qed

lemma run_refines:
  assumes "inv l" "ledger_run ops l cs = (outs, l')"
  shows "spec_run (lease l) (get_record ops l) cs = (outs, get_record ops l') \<and> inv l' \<and> lease l' = lease l"
  using assms
proof (induction cs arbitrary: l outs)
  case (Cons c cs)
  obtain out l1 where c: "ledger_call_step ops l c = (out, l1)" by fastforce
  obtain outs1 where cs: "ledger_run ops l1 cs = (outs1, l')" "outs = out # outs1"
    using Cons.prems(2) c by (auto split: prod.splits)
  from step_refines [OF Cons.prems(1) c] Cons.IH [OF _ cs(1)] cs(2) show ?case by simp
qed simp

lemma succeeded_stable:
  assumes "inv l" "get_record ops l eid = Some rec" "lr_status rec = LS_SUCCEEDED" "ledger_run ops l cs = (outs, l')"
  shows "get_record ops l' eid = Some rec"
  using spec_succeeded_stable [of "get_record ops l" eid rec "lease l" cs] run_refines [OF assms(1,4)] assms(2,3)
  by simp

lemma stale_token_fenced:
  assumes "inv l" "\<not> owned (get_record ops l eid) tok" "\<forall>c\<in>set cs. \<not> issues eid tok c"
    and "ledger_run ops l cs = (outs, l')"
  shows "\<exists>e e'. complete_succeeded ops l' now eid res tok = Inl e \<and> complete_failed ops l' now eid res tok = Inl e'"
proof -
  have r: "spec_run (lease l) (get_record ops l) cs = (outs, get_record ops l')" and i: "inv l'"
    using run_refines [OF assms(1,4)] by simp_all
  have "\<not> owned (get_record ops l' eid) tok"
    using spec_fenced [of "get_record ops l" eid tok cs "lease l"] r assms(2,3) by simp
  with succeed_refines [OF i, of now eid res tok] fail_refines [OF i, of now eid res tok] show ?thesis
    by (cases "complete_succeeded ops l' now eid res tok"; cases "complete_failed ops l' now eid res tok")
      (auto simp: spec_complete_def raise_if_def split: if_splits)
qed

lemma lease_exclusive:
  assumes "inv l" "try_claim ops l now tok eid g r at_opt = Inr (\<lparr>co_kind = ACQUIRED, co_record = Some rec\<rparr>, l1)"
    and "aware_utc now at_opt = Inr t"
    and "\<forall>c\<in>set cs. respects_lease eid tok (t + seconds (lease l)) c" "ledger_run ops l1 cs = (outs, l')"
  shows "get_record ops l' eid = Some rec \<and> owned (Some rec) tok = (tok \<noteq> [])"
proof -
  have cl: "inv l1" "lease l1 = lease l" using claim_inv [OF assms(1,2)] by simp_all
  have "spec_claim (lease l) (get_record ops l) now tok eid g r at_opt
      = Inr (\<lparr>co_kind = ACQUIRED, co_record = Some rec\<rparr>, get_record ops l1)"
    using claim_refines [OF assms(1), of now tok eid g r at_opt] assms(2) by simp
  with assms(3) have rec: "rec = pending_record eid g r (t + seconds (lease l)) tok" "get_record ops l1 eid = Some rec"
    by (auto simp: spec_claim_Inr refused_kind_def split: if_splits)
  with spec_exclusive [of "get_record ops l1" eid g r "t + seconds (lease l)" tok cs "lease l1"]
    run_refines [OF cl(1) assms(5)] assms(4)
  show ?thesis by (simp add: owned_def pending_record_def)
qed

end

subsection \<open>The in-memory ledger fulfils it\<close>

text \<open>Pending records carry no result; that is all the representation needs.\<close>

definition mem_inv :: "memory_ledger \<Rightarrow> bool" where
  "mem_inv l \<longleftrightarrow> (\<forall>eid r. dict_get (records l) eid = Some r \<and> lr_status r = LS_PENDING \<longrightarrow> lr_result r = None)"

lemma memory_ops_sel [simp]:
  "try_claim memory_ops = mem_try_claim"
  "complete_succeeded memory_ops l now = mem_complete_succeeded l"
  "complete_failed memory_ops l now = mem_complete_failed l"
  "abandon memory_ops l now = mem_abandon l"
  "get_record memory_ops = mem_get"
  "ledger_organization memory_ops l = None"
  by (simp_all add: memory_ops_def)

lemma mem_get_set [simp]: "mem_get (l\<lparr>records := dict_set eid r (records l)\<rparr>) = (mem_get l)(eid \<mapsto> r)"
  by (auto simp: mem_get_def)

lemma norm_exn_simps [simp]:
  "norm_exn ValueError = ValueError" "norm_exn OverflowError = OverflowError"
  "norm_exn RuntimeError = RuntimeError" "norm_exn StaleClaimTokenError = RuntimeError"
  by (simp_all add: norm_exn_def is_runtime_error_def)

lemma aware_utc_Inl: "aware_utc now v = Inl e \<Longrightarrow> e = ValueError"
  by (auto simp: aware_utc_def split: option.splits datetime.splits)

lemma mem_claim_refines:
  "map_sum norm_exn (apsnd mem_get) (mem_try_claim l now tok eid g r at_opt)
     = spec_claim (claim_lease_seconds l) (mem_get l) now tok eid g r at_opt"
proof (cases "aware_utc now at_opt")
  case (Inl e)
  then show ?thesis using aware_utc_Inl [OF Inl] by (simp add: mem_try_claim_def spec_claim_def raise_if_def)
next
  case (Inr t)
  show ?thesis
  proof (cases "dict_get (records l) eid")
    case None
    with Inr show ?thesis
      by (simp add: mem_try_claim_def spec_claim_def raise_if_def claimable_def Let_def) (simp add: mem_get_def claimable_def)
  next
    case (Some rec)
    with Inr show ?thesis
      by (cases "lr_status rec"; cases "lease_expired (lr_lease_expires_at rec) t")
        (simp_all add: mem_try_claim_def spec_claim_def raise_if_def claimable_def refused_kind_def Let_def,
         simp_all add: mem_get_def)
  qed
qed

lemma mem_pending_cases:
  "mem_pending l eid tok = (case mem_get l eid of None \<Rightarrow> Inl RuntimeError
     | Some r \<Rightarrow> if owned (Some r) tok then Inr r
         else Inl (if lr_status r = LS_PENDING then StaleClaimTokenError else RuntimeError))"
  by (auto simp: mem_pending_def mem_get_def owned_def raise_if_def split: option.splits)

lemma mem_complete_refines:
  "map_sum norm_exn mem_get (mem_complete_succeeded l eid res tok)
     = spec_complete LS_SUCCEEDED ES_SUCCEEDED (mem_get l) eid res tok"
  "map_sum norm_exn mem_get (mem_complete_failed l eid res tok)
     = spec_complete LS_FAILED ES_FAILED (mem_get l) eid res tok"
  by (auto simp: mem_complete_succeeded_def mem_complete_failed_def spec_complete_def mem_pending_cases raise_if_def
      split: option.splits) (auto simp: owned_def)

lemma mem_abandon_refines:
  "mem_inv l \<Longrightarrow> map_sum norm_exn mem_get (mem_abandon l eid tok) = spec_abandon (mem_get l) eid tok"
  by (cases "dict_get (records l) eid")
    (simp_all add: mem_abandon_def spec_abandon_def mem_inv_def raise_if_def, simp_all add: mem_get_def owned_def)

lemma mem_inv_set: "mem_inv l \<Longrightarrow> lr_status r = LS_PENDING \<longrightarrow> lr_result r = None
    \<Longrightarrow> mem_inv (l\<lparr>records := dict_set eid r (records l)\<rparr>)"
  by (auto simp: mem_inv_def)

lemma mem_inv_new: "new_memory_ledger n = Inr l \<Longrightarrow> mem_inv l \<and> mem_get l eid = None \<and> claim_lease_seconds l = n"
  by (auto simp: new_memory_ledger_def mem_inv_def mem_get_def)

lemma closed_record_sel [simp]:
  "lr_status (closed_record st res r) = st" "lr_result (closed_record st res r) = res"
  by (simp_all add: closed_record_def)

lemma pending_record_sel [simp]:
  "lr_status (pending_record e g r t k) = LS_PENDING" "lr_result (pending_record e g r t k) = None"
  "lr_fencing_token (pending_record e g r t k) = Some k" "lr_execution_id (pending_record e g r t k) = e"
  by (simp_all add: pending_record_def)

interpretation mem: replay_ledger memory_ops mem_inv claim_lease_seconds
proof (unfold_locales, goal_cases)
  case (5 l now tok eid g r at_opt out l')
  then show ?case
    by (cases "aware_utc now at_opt")
      (auto simp: mem_try_claim_def Let_def intro!: mem_inv_set split: option.splits if_splits)
next
  case (6 l now eid res tok l')
  then show ?case by (auto simp: mem_complete_succeeded_def bind_res_Inr_iff intro!: mem_inv_set)
next
  case (7 l now eid res tok l')
  then show ?case by (auto simp: mem_complete_failed_def bind_res_Inr_iff intro!: mem_inv_set)
next
  case (8 l now eid tok l')
  then show ?case by (auto simp: mem_abandon_def intro!: mem_inv_set split: option.splits if_splits)
qed (simp_all add: mem_claim_refines mem_complete_refines mem_abandon_refines)

subsection \<open>Properties of the in-memory ledger\<close>

text \<open>
  Property (fencing).  Once a worker's token is no longer the current one of an execution
  (another worker reclaimed it, or it was closed), then after any further calls that do not
  hand out the same token again the stale worker can neither complete the execution
  successfully nor as failed.
\<close>

theorem stale_worker_cannot_complete:
  assumes "mem_inv l" "\<not> owned (mem_get l eid) tok" "\<forall>c\<in>set cs. \<not> issues eid tok c"
    and "ledger_run memory_ops l cs = (outs, l')"
  shows "\<exists>e e'. mem_complete_succeeded l' eid res tok = Inl e \<and> mem_complete_failed l' eid res tok = Inl e'"
  using mem.stale_token_fenced [of l eid tok cs outs l'] assms by simp

text \<open>
  Property (mutual exclusion).  After a claim is acquired at instant \<open>t\<close>, whatever sequence of
  calls follows, as long as claims happen before the lease is over and nobody closes the
  execution with the owner's token, the record is still the owner's.
\<close>

theorem claim_exclusive_during_lease:
  assumes "mem_inv l" "mem_try_claim l now tok eid g r at_opt = Inr (\<lparr>co_kind = ACQUIRED, co_record = Some rec\<rparr>, l1)"
    and "aware_utc now at_opt = Inr t"
    and "\<forall>c\<in>set cs. respects_lease eid tok (t + seconds (claim_lease_seconds l)) c"
    and "ledger_run memory_ops l1 cs = (outs, l')"
  shows "mem_get l' eid = Some rec \<and> lr_status rec = LS_PENDING \<and> lr_fencing_token rec = Some tok"
proof -
  have rec: "rec = pending_record eid g r (t + seconds (claim_lease_seconds l)) tok"
    using mem_claim_refines [of l now tok eid g r at_opt] assms(2,3)
    by (auto simp: spec_claim_Inr refused_kind_def dest!: sym [of "Inr _"] split: if_splits)
  with mem.lease_exclusive [of l now tok eid g r at_opt rec l1 t cs outs l'] assms show ?thesis by simp
qed

text \<open>
  Property (finality).  A recorded success is final: no later sequence of calls changes its
  record, and every later claim that does not raise answers \<open>ALREADY_SUCCEEDED\<close> with it.
\<close>

theorem success_is_final:
  assumes "mem_inv l" "mem_complete_succeeded l eid res tok = Inr l1" "ledger_run memory_ops l1 cs = (outs, l')"
    and "mem_try_claim l' now tok' eid g r at_opt = Inr (out, l'')"
  shows "co_kind out = ALREADY_SUCCEEDED \<and> map_option lr_result (co_record out) = Some (Some res) \<and> l'' = l'"
proof -
  obtain rec where r: "mem_pending l eid tok = Inr rec" "l1 = l\<lparr>records := dict_set eid (closed_record LS_SUCCEEDED (Some res) rec) (records l)\<rparr>"
    using assms(2) by (auto simp: mem_complete_succeeded_def bind_res_Inr_iff)
  have i: "mem_inv l1" using r(2) assms(1) by (simp add: mem_inv_set)
  have "mem_get l' eid = Some (closed_record LS_SUCCEEDED (Some res) rec)"
    using mem.succeeded_stable [of l1 eid "closed_record LS_SUCCEEDED (Some res) rec" cs outs l'] i r(2) assms(3) by simp
  with assms(4) show ?thesis
    by (cases "aware_utc now at_opt") (auto simp: mem_try_claim_def mem_get_def Let_def)
qed

subsection \<open>A concrete run\<close>

definition demo_result :: "execution_status \<Rightarrow> str \<Rightarrow> execution_result" where
  "demo_result st out =
     \<lparr>er_execution_id = ''e1'', er_request_id = ''q1'', er_policy_id = ''p'', er_policy_version = ''1'',
      er_agent_identity = ''agent'', er_action = ''deploy'', er_resource = ''svc/web'',
      er_context_packet_id = ''c1'', er_status = st, er_adapter_id = ''ad'', er_output = [(''out'', out)],
      er_error = None, executed_at = ''7''\<rparr>"

definition demo_ledger :: memory_ledger where
  "demo_ledger = \<lparr>claim_lease_seconds = 300, records = []\<rparr>"

definition demo_claimed :: memory_ledger where
  "demo_claimed = demo_ledger\<lparr>records := [(''e1'', pending_record ''e1'' None None 300000000 ''A'')]\<rparr>"

definition demo_reclaimed :: memory_ledger where
  "demo_reclaimed = demo_ledger\<lparr>records := [(''e1'', pending_record ''e1'' None None 700000000 ''B'')]\<rparr>"

lemma demo_ledger_inv: "mem_inv demo_ledger" "mem_inv demo_claimed" "mem_inv demo_reclaimed"
  by (auto simp: mem_inv_def demo_ledger_def demo_claimed_def demo_reclaimed_def)

text \<open>Worker B claims at 400 s, after A's lease of 300 s; A comes back late.\<close>

lemma demo_run:
  "ledger_run memory_ops demo_claimed [Claim 400000000 ''B'' ''e1'' None None None]
     = ([Claimed \<lparr>co_kind = ACQUIRED, co_record = Some (pending_record ''e1'' None None 700000000 ''B'')\<rparr>], demo_reclaimed)"
  by (simp add: mem_try_claim_def demo_claimed_def demo_reclaimed_def demo_ledger_def blank_iff is_space_def
      aware_utc_def datetime_range_def lease_expired_def Let_def pending_record_def)

theorem stale_worker_cannot_complete_witness:
  "\<not> owned (mem_get demo_reclaimed ''e1'') ''A''
   \<and> (\<exists>e. mem_complete_succeeded demo_reclaimed ''e1'' (demo_result ES_SUCCEEDED ''x'') ''A'' = Inl e)"
proof -
  have "\<not> owned (mem_get demo_reclaimed ''e1'') ''A''"
    by (simp add: mem_get_def demo_reclaimed_def owned_def)
  with stale_worker_cannot_complete [of demo_reclaimed "''e1''" "''A''" "[]" "[]" demo_reclaimed
      "demo_result ES_SUCCEEDED ''x''"] demo_ledger_inv(3)
  show ?thesis by auto
qed

theorem claim_exclusive_during_lease_witness:
  "\<exists>outs l'. ledger_run memory_ops demo_claimed [Claim 299999999 ''B'' ''e1'' None None None] = (outs, l')
     \<and> mem_get l' ''e1'' = Some (pending_record ''e1'' None None 300000000 ''A'')"
proof -
  obtain outs l' where run: "ledger_run memory_ops demo_claimed [Claim 299999999 ''B'' ''e1'' None None None] = (outs, l')"
    by fastforce
  have "mem_try_claim demo_ledger 0 ''A'' ''e1'' None None None
    = Inr (\<lparr>co_kind = ACQUIRED, co_record = Some (pending_record ''e1'' None None 300000000 ''A'')\<rparr>, demo_claimed)"
    by (simp add: mem_try_claim_def demo_claimed_def demo_ledger_def blank_iff is_space_def aware_utc_def
        datetime_range_def Let_def)
  from claim_exclusive_during_lease [OF demo_ledger_inv(1) this _ _ run, of 0] run show ?thesis
    by (auto simp: aware_utc_def respects_lease_def demo_ledger_def)
qed

theorem success_is_final_witness:
  "\<exists>l1 out l'. mem_complete_succeeded demo_claimed ''e1'' (demo_result ES_SUCCEEDED ''x'') ''A'' = Inr l1
     \<and> mem_try_claim l1 400000000 ''B'' ''e1'' None None None = Inr (out, l') \<and> co_kind out = ALREADY_SUCCEEDED"
proof -
  obtain l1 rec where l1: "mem_complete_succeeded demo_claimed ''e1'' (demo_result ES_SUCCEEDED ''x'') ''A'' = Inr l1"
    and g: "dict_get (records l1) ''e1'' = Some rec" "lr_status rec = LS_SUCCEEDED" "claim_lease_seconds l1 = 300"
    by (simp add: mem_complete_succeeded_def mem_pending_def demo_claimed_def demo_ledger_def demo_result_def)
  have c: "mem_try_claim l1 400000000 ''B'' ''e1'' None None None = Inr (\<lparr>co_kind = ALREADY_SUCCEEDED, co_record = Some rec\<rparr>, l1)"
    using g by (simp add: mem_try_claim_def blank_iff is_space_def aware_utc_def datetime_range_def)
  from success_is_final [OF demo_ledger_inv(2) l1 ledger_run.simps(1) c] l1 c show ?thesis by blast
qed

end
