(* ===== verification/Durable_Ledger.thy ===== *)
theory Durable_Ledger
  imports Replay_Ledger
begin

section \<open>The durable replay ledger (\<open>phase4/execution/durable_ledger.py\<close>)\<close>

text \<open>
  \<open>SqlAlchemyReplayLedger\<close> over a table with primary key \<open>(organization_id,
  execution_id)\<close>.  Every operation reads a row first and writes later in the same
  transaction; the write is modelled as a function of the row that was read and of the
  table as it is at that later moment, so that commits of other workers in between can be
  put between the two.  The operations themselves are the case where nothing happens in
  between.  Claims write with a compare-and-set statement; completions go through the ORM,
  which writes the changed columns of the row with that primary key.

  \<open>apply_tenant_context\<close> only sets the database session's tenant and has no counterpart.
  A stored JSON value is read back as it was written.
\<close>

record ledger_row =
  r_organization_id :: str
  r_execution_id :: str
  r_status :: str
  r_grant_id :: "str option"
  r_request_id :: "str option"
  r_result_json :: "json option"
  r_started_at :: datetime
  r_completed_at :: "datetime option"
  r_lease_expires_at :: "datetime option"
  r_fencing_token :: "str option"
  r_error_text :: "str option"

subsection \<open>Results as JSON\<close>

definition result_to_json :: "execution_result \<Rightarrow> json" where
  "result_to_json r =
     JObj [(''execution_id'', JStr (er_execution_id r)), (''request_id'', JStr (er_request_id r)),
           (''authority_policy_id'', JStr (er_policy_id r)), (''authority_policy_version'', JStr (er_policy_version r)),
           (''agent_identity'', JStr (er_agent_identity r)), (''action'', JStr (er_action r)),
           (''resource'', JStr (er_resource r)), (''context_packet_id'', JStr (er_context_packet_id r)),
           (''status'', JStr (execution_status_value (er_status r))), (''adapter_id'', JStr (er_adapter_id r)),
           (''output'', jpairs (er_output r)), (''error'', jopt (er_error r)),
           (''executed_at'', JStr (executed_at r))]"

definition execution_status_of :: "str \<Rightarrow> execution_status result" where
  "execution_status_of s =
     (if s = ''succeeded'' then Inr ES_SUCCEEDED else if s = ''failed'' then Inr ES_FAILED
      else if s = ''rejected'' then Inr ES_REJECTED else if s = ''replayed'' then Inr ES_REPLAYED
      else if s = ''abandoned'' then Inr ES_ABANDONED else Inl ValueError)"

text \<open>
  \<open>payload["key"]\<close> for a string value, \<open>payload.get\<close> for an optional one and for the list
  of pairs.  A value of another JSON type has no counterpart among the declared types of
  \<open>ExecutionResult\<close>; it is a \<open>TypeError\<close> here.
\<close>

definition req_str :: "(str \<times> json) list \<Rightarrow> str \<Rightarrow> str result" where
  "req_str ms k = (case map_of ms k of None \<Rightarrow> Inl KeyError | Some (JStr s) \<Rightarrow> Inr s | Some _ \<Rightarrow> Inl TypeError)"

definition opt_str :: "(str \<times> json) list \<Rightarrow> str \<Rightarrow> str option result" where
  "opt_str ms k = (case map_of ms k of None \<Rightarrow> Inr None | Some JNull \<Rightarrow> Inr None
     | Some (JStr s) \<Rightarrow> Inr (Some s) | Some _ \<Rightarrow> Inl TypeError)"

fun json_pairs :: "json list \<Rightarrow> (str \<times> str) list result" where
  "json_pairs [] = Inr []"
| "json_pairs (JArr [JStr k, JStr v] # xs) = bind_res (json_pairs xs) (\<lambda>ps. Inr ((k, v) # ps))"
| "json_pairs (_ # xs) = Inl TypeError"

definition opt_pairs :: "(str \<times> json) list \<Rightarrow> str \<Rightarrow> (str \<times> str) list result" where
  "opt_pairs ms k = (case map_of ms k of None \<Rightarrow> Inr [] | Some JNull \<Rightarrow> Inr []
     | Some (JArr xs) \<Rightarrow> json_pairs xs | Some _ \<Rightarrow> Inl TypeError)"

definition result_from_json :: "json option \<Rightarrow> execution_result option result" where
  "result_from_json payload =
     (case payload of
        None \<Rightarrow> Inr None
      | Some JNull \<Rightarrow> Inr None
      | Some (JObj ms) \<Rightarrow>
          if ms = [] then Inr None
          else
            bind_res (req_str ms ''execution_id'') (\<lambda>eid.
            bind_res (req_str ms ''request_id'') (\<lambda>rid.
            bind_res (req_str ms ''authority_policy_id'') (\<lambda>pid.
            bind_res (req_str ms ''authority_policy_version'') (\<lambda>pver.
            bind_res (req_str ms ''agent_identity'') (\<lambda>agent.
            bind_res (req_str ms ''action'') (\<lambda>act.
            bind_res (req_str ms ''resource'') (\<lambda>res.
            bind_res (req_str ms ''context_packet_id'') (\<lambda>packet.
            bind_res (req_str ms ''status'') (\<lambda>sv.
            bind_res (execution_status_of sv) (\<lambda>st.
            bind_res (req_str ms ''adapter_id'') (\<lambda>adapter.
            bind_res (opt_pairs ms ''output'') (\<lambda>out.
            bind_res (opt_str ms ''error'') (\<lambda>err.
            bind_res (req_str ms ''executed_at'') (\<lambda>ex.
              Inr (Some \<lparr>er_execution_id = eid, er_request_id = rid, er_policy_id = pid, er_policy_version = pver,
                         er_agent_identity = agent, er_action = act, er_resource = res,
                         er_context_packet_id = packet, er_status = st, er_adapter_id = adapter,
                         er_output = out, er_error = err, executed_at = ex\<rparr>)))))))))))))))
      | Some _ \<Rightarrow> Inl TypeError)"

subsection \<open>Rows as records\<close>

fun ledger_status_value :: "ledger_status \<Rightarrow> str" where
  "ledger_status_value LS_PENDING = ''pending''"
| "ledger_status_value LS_SUCCEEDED = ''succeeded''"
| "ledger_status_value LS_FAILED = ''failed''"
| "ledger_status_value LS_ABANDONED = ''abandoned''"

definition ledger_status_of :: "str \<Rightarrow> ledger_status result" where
  "ledger_status_of s =
     (if s = ''pending'' then Inr LS_PENDING else if s = ''succeeded'' then Inr LS_SUCCEEDED
      else if s = ''failed'' then Inr LS_FAILED else if s = ''abandoned'' then Inr LS_ABANDONED
      else Inl ValueError)"

definition db_aware_utc :: "datetime option \<Rightarrow> time option" where
  "db_aware_utc v = (case v of None \<Rightarrow> None | Some (Naive t) \<Rightarrow> Some t | Some (Aware t) \<Rightarrow> Some t)"

definition storage_utc :: "bool \<Rightarrow> time \<Rightarrow> datetime" where
  "storage_utc sqlite t = (if sqlite then Naive t else Aware t)"

definition to_record :: "ledger_row \<Rightarrow> ledger_record result" where
  "to_record row =
     bind_res (ledger_status_of (r_status row)) (\<lambda>st.
     bind_res (result_from_json (r_result_json row)) (\<lambda>res.
       Inr \<lparr>lr_execution_id = r_execution_id row, lr_status = st, lr_result = res,
            lr_grant_id = r_grant_id row, lr_request_id = r_request_id row,
            lr_lease_expires_at = db_aware_utc (r_lease_expires_at row),
            lr_fencing_token = r_fencing_token row\<rparr>))"

subsection \<open>Operations\<close>

record sql_ledger =
  sl_organization_id :: str
  sl_claim_lease_seconds :: int
  sl_sqlite :: bool
  sl_table :: "(str \<times> str, ledger_row) dict"

definition new_sql_ledger :: "bool \<Rightarrow> (str \<times> str, ledger_row) dict \<Rightarrow> str \<Rightarrow> int \<Rightarrow> sql_ledger result" where
  "new_sql_ledger sqlite table org lease =
     raise_if (lease < 1) ValueError
     (raise_if (strip org = [] \<or> 128 < length (strip org)) ValueError
       (Inr \<lparr>sl_organization_id = strip org, sl_claim_lease_seconds = lease, sl_sqlite = sqlite, sl_table = table\<rparr>))"

definition get_row :: "sql_ledger \<Rightarrow> str \<Rightarrow> ledger_row option" where
  "get_row l eid = dict_get (sl_table l) (sl_organization_id l, eid)"

definition put_row :: "sql_ledger \<Rightarrow> str \<Rightarrow> ledger_row \<Rightarrow> sql_ledger" where
  "put_row l eid row = l\<lparr>sl_table := dict_set (sl_organization_id l, eid) row (sl_table l)\<rparr>"

definition outcome_after_conflict :: "sql_ledger \<Rightarrow> str \<Rightarrow> (claim_outcome \<times> sql_ledger) result" where
  "outcome_after_conflict l eid =
     (case get_row l eid of
        None \<Rightarrow> Inl RuntimeError
      | Some row \<Rightarrow> bind_res (to_record row) (\<lambda>rec.
          Inr (\<lparr>co_kind = (if r_status row = ''succeeded'' then ALREADY_SUCCEEDED else IN_FLIGHT),
                co_record = Some rec\<rparr>, l)))"

text \<open>
  The part of \<open>try_claim\<close> after the row was read: \<open>snap\<close> is what was read, \<open>l\<close> the table
  when the statement runs.  An insert that meets a row raises \<open>IntegrityError\<close>, which is
  caught; an update that matches no row has \<open>rowcount\<close> 0.
\<close>

definition sql_claim_commit ::
  "sql_ledger \<Rightarrow> ledger_row option \<Rightarrow> time \<Rightarrow> str \<Rightarrow> str \<Rightarrow> str option \<Rightarrow> str option
     \<Rightarrow> (claim_outcome \<times> sql_ledger) result" where
  "sql_claim_commit l snap instant token eid grant req =
     (let lease = instant + seconds (sl_claim_lease_seconds l);
          fresh_row = \<lparr>r_organization_id = sl_organization_id l, r_execution_id = eid, r_status = ''pending'',
            r_grant_id = grant, r_request_id = req, r_result_json = None,
            r_started_at = storage_utc (sl_sqlite l) instant, r_completed_at = None,
            r_lease_expires_at = Some (storage_utc (sl_sqlite l) lease),
            r_fencing_token = Some token, r_error_text = None\<rparr>;
          reset = (\<lambda>row. row\<lparr>r_grant_id := grant, r_request_id := req, r_result_json := None,
            r_started_at := storage_utc (sl_sqlite l) instant, r_completed_at := None,
            r_lease_expires_at := Some (storage_utc (sl_sqlite l) lease),
            r_fencing_token := Some token, r_error_text := None\<rparr>);
          acquired = \<lparr>co_kind = ACQUIRED, co_record = Some (pending_record eid grant req lease token)\<rparr>
      in case snap of
           None \<Rightarrow>
             (case get_row l eid of
                None \<Rightarrow> Inr (acquired, put_row l eid fresh_row)
              | Some _ \<Rightarrow> outcome_after_conflict l eid)
         | Some row \<Rightarrow>
             if r_status row = ''succeeded''
             then bind_res (to_record row) (\<lambda>rec. Inr (\<lparr>co_kind = ALREADY_SUCCEEDED, co_record = Some rec\<rparr>, l))
             else if r_status row = ''pending''
             then (if (case db_aware_utc (r_lease_expires_at row) of None \<Rightarrow> False | Some t \<Rightarrow> instant < t)
                   then bind_res (to_record row) (\<lambda>rec. Inr (\<lparr>co_kind = IN_FLIGHT, co_record = Some rec\<rparr>, l))
                   else (case get_row l eid of
                           Some cur \<Rightarrow>
                             if r_status cur = ''pending'' \<and> r_fencing_token cur = r_fencing_token row
                             then Inr (acquired, put_row l eid (reset cur))
                             else outcome_after_conflict l eid
                         | None \<Rightarrow> outcome_after_conflict l eid))
             else if r_status row \<in> {''failed'', ''abandoned''}
             then (case get_row l eid of
                     Some cur \<Rightarrow>
                       if r_status cur = r_status row
                       then Inr (acquired, put_row l eid (reset (cur\<lparr>r_status := ''pending''\<rparr>)))
                       else outcome_after_conflict l eid
                   | None \<Rightarrow> outcome_after_conflict l eid)
             else Inl RuntimeError)"

definition sql_try_claim ::
  "sql_ledger \<Rightarrow> time \<Rightarrow> str \<Rightarrow> str \<Rightarrow> str option \<Rightarrow> str option \<Rightarrow> datetime option
     \<Rightarrow> (claim_outcome \<times> sql_ledger) result" where
  "sql_try_claim l now token eid grant req at_opt =
     raise_if (eid = [] \<or> blank eid) ValueError
     (bind_res (aware_utc now at_opt) (\<lambda>instant.
        raise_if (\<not> datetime_range (instant + seconds (sl_claim_lease_seconds l))) OverflowError
          (sql_claim_commit l (get_row l eid) instant token eid grant req)))"

definition sql_pending :: "ledger_row option \<Rightarrow> str \<Rightarrow> ledger_row result" where
  "sql_pending snap token =
     (case snap of
        None \<Rightarrow> Inl RuntimeError
      | Some row \<Rightarrow>
          raise_if (r_status row \<noteq> ''pending'') RuntimeError
          (raise_if (token = [] \<or> r_fencing_token row \<noteq> Some token) RuntimeError (Inr row)))"

text \<open>
  The ORM's flush: the attributes that were assigned a value other than the loaded one are
  written to the row with this primary key.
\<close>

definition flush_row :: "ledger_row \<Rightarrow> ledger_row \<Rightarrow> ledger_row \<Rightarrow> ledger_row" where
  "flush_row snap new cur =
     cur\<lparr>r_status := (if r_status new \<noteq> r_status snap then r_status new else r_status cur),
         r_result_json := (if r_result_json new \<noteq> r_result_json snap then r_result_json new else r_result_json cur),
         r_completed_at := (if r_completed_at new \<noteq> r_completed_at snap then r_completed_at new else r_completed_at cur),
         r_lease_expires_at := (if r_lease_expires_at new \<noteq> r_lease_expires_at snap
                                then r_lease_expires_at new else r_lease_expires_at cur),
         r_fencing_token := (if r_fencing_token new \<noteq> r_fencing_token snap
                             then r_fencing_token new else r_fencing_token cur),
         r_error_text := (if r_error_text new \<noteq> r_error_text snap then r_error_text new else r_error_text cur)\<rparr>"

definition flush_commit :: "sql_ledger \<Rightarrow> str \<Rightarrow> ledger_row \<Rightarrow> ledger_row \<Rightarrow> sql_ledger result" where
  "flush_commit l eid snap new =
     (case get_row l eid of
        None \<Rightarrow> Inl StaleDataError
      | Some cur \<Rightarrow> Inr (put_row l eid (flush_row snap new cur)))"

text \<open>The two completions after the row was read; \<open>complete_succeeded\<close> clears the error text.\<close>

definition sql_succeed_commit ::
  "sql_ledger \<Rightarrow> ledger_row option \<Rightarrow> time \<Rightarrow> str \<Rightarrow> execution_result \<Rightarrow> str \<Rightarrow> sql_ledger result" where
  "sql_succeed_commit l snap now eid res token =
     raise_if (er_status res \<noteq> ES_SUCCEEDED) ValueError
     (bind_res (sql_pending snap token) (\<lambda>row.
        flush_commit l eid row
          (row\<lparr>r_status := ''succeeded'', r_result_json := Some (result_to_json res),
               r_completed_at := Some (storage_utc (sl_sqlite l) now), r_lease_expires_at := None,
               r_fencing_token := None, r_error_text := None\<rparr>)))"

definition sql_fail_commit ::
  "sql_ledger \<Rightarrow> ledger_row option \<Rightarrow> time \<Rightarrow> str \<Rightarrow> execution_result \<Rightarrow> str \<Rightarrow> sql_ledger result" where
  "sql_fail_commit l snap now eid res token =
     raise_if (er_status res \<noteq> ES_FAILED) ValueError
     (bind_res (sql_pending snap token) (\<lambda>row.
        flush_commit l eid row
          (row\<lparr>r_status := ''failed'', r_result_json := Some (result_to_json res),
               r_completed_at := Some (storage_utc (sl_sqlite l) now), r_lease_expires_at := None,
               r_fencing_token := None, r_error_text := er_error res\<rparr>)))"

definition sql_abandon_commit ::
  "sql_ledger \<Rightarrow> ledger_row option \<Rightarrow> time \<Rightarrow> str \<Rightarrow> str \<Rightarrow> sql_ledger result" where
  "sql_abandon_commit l snap now eid token =
     (case snap of
        None \<Rightarrow> Inr l
      | Some row \<Rightarrow>
          if r_status row \<noteq> ''pending'' then Inr l
          else raise_if (token = [] \<or> r_fencing_token row \<noteq> Some token) RuntimeError
            (flush_commit l eid row
              (row\<lparr>r_status := ''abandoned'', r_completed_at := Some (storage_utc (sl_sqlite l) now),
                   r_result_json := None, r_lease_expires_at := None, r_fencing_token := None\<rparr>)))"

definition sql_complete_succeeded ::
  "sql_ledger \<Rightarrow> time \<Rightarrow> str \<Rightarrow> execution_result \<Rightarrow> str \<Rightarrow> sql_ledger result" where
  "sql_complete_succeeded l now eid res token = sql_succeed_commit l (get_row l eid) now eid res token"

definition sql_complete_failed ::
  "sql_ledger \<Rightarrow> time \<Rightarrow> str \<Rightarrow> execution_result \<Rightarrow> str \<Rightarrow> sql_ledger result" where
  "sql_complete_failed l now eid res token = sql_fail_commit l (get_row l eid) now eid res token"

definition sql_abandon :: "sql_ledger \<Rightarrow> time \<Rightarrow> str \<Rightarrow> str \<Rightarrow> sql_ledger result" where
  "sql_abandon l now eid token = sql_abandon_commit l (get_row l eid) now eid token"

definition sql_get :: "sql_ledger \<Rightarrow> str \<Rightarrow> ledger_record option result" where
  "sql_get l eid = (case get_row l eid of None \<Rightarrow> Inr None | Some row \<Rightarrow> map_sum id Some (to_record row))"

text \<open>The record \<open>get\<close> returns, when the stored row can be read.\<close>

definition sql_lookup :: "sql_ledger \<Rightarrow> str \<Rightarrow> ledger_record option" where
  "sql_lookup l eid = (case sql_get l eid of Inl e \<Rightarrow> None | Inr r \<Rightarrow> r)"

definition sql_ops :: "sql_ledger ledger_ops" where
  "sql_ops =
     \<lparr>try_claim = sql_try_claim, complete_succeeded = sql_complete_succeeded,
      complete_failed = sql_complete_failed, abandon = sql_abandon, get_record = sql_lookup,
      ledger_organization = (\<lambda>l. Some (sl_organization_id l))\<rparr>"

subsection \<open>Codecs\<close>

lemma json_pairs_jpairs: "json_pairs (map (\<lambda>(k, v). JArr [JStr k, JStr v]) ps) = Inr ps"
  by (induction ps) auto

lemma execution_status_roundtrip [simp]: "execution_status_of (execution_status_value st) = Inr st"
  by (cases st) (simp_all add: execution_status_of_def)

lemma ledger_status_of_Inr: "ledger_status_of s = Inr st \<longleftrightarrow> s = ledger_status_value st"
  by (cases st) (auto simp: ledger_status_of_def)

lemma db_storage [simp]: "db_aware_utc (Some (storage_utc b t)) = Some t" "db_aware_utc None = None"
  by (simp_all add: db_aware_utc_def storage_utc_def)

lemma result_json_roundtrip: "result_from_json (Some (result_to_json r)) = Inr (Some r)"
  by (cases r) (simp add: result_from_json_def result_to_json_def req_str_def opt_pairs_def opt_str_def
      jpairs_def json_pairs_jpairs jopt_def split: option.split)

subsection \<open>Representation\<close>

definition sql_inv :: "sql_ledger \<Rightarrow> bool" where
  "sql_inv l \<longleftrightarrow> (\<forall>eid row. get_row l eid = Some row \<longrightarrow> r_execution_id row = eid \<and> (\<exists>rec. to_record row = Inr rec))"

lemma get_put_row [simp]: "get_row (put_row l eid row) i = (if i = eid then Some row else get_row l i)"
  by (simp add: get_row_def put_row_def)

lemma put_row_sel [simp]:
  "sl_claim_lease_seconds (put_row l eid row) = sl_claim_lease_seconds l"
  "sl_organization_id (put_row l eid row) = sl_organization_id l"
  "sl_sqlite (put_row l eid row) = sl_sqlite l"
  by (simp_all add: put_row_def)

lemma sql_lookup_None [simp]: "get_row l eid = None \<Longrightarrow> sql_lookup l eid = None"
  by (simp add: sql_lookup_def sql_get_def)

lemma sql_lookup_Some [simp]: "get_row l eid = Some row \<Longrightarrow> to_record row = Inr rec \<Longrightarrow> sql_lookup l eid = Some rec"
  by (simp add: sql_lookup_def sql_get_def)

lemma sql_lookup_put [simp]:
  "to_record row = Inr rec \<Longrightarrow> sql_lookup (put_row l eid row) = (sql_lookup l)(eid \<mapsto> rec)"
  by (auto simp: sql_lookup_def sql_get_def)

lemma sql_inv_put:
  "sql_inv l \<Longrightarrow> r_execution_id row = eid \<Longrightarrow> to_record row = Inr rec \<Longrightarrow> sql_inv (put_row l eid row)"
  by (auto simp: sql_inv_def)

lemma sql_inv_row:
  assumes "sql_inv l" "get_row l eid = Some row"
  obtains rec where "to_record row = Inr rec" "r_execution_id row = eid" "r_status row = ledger_status_value (lr_status rec)"
    "lr_execution_id rec = eid" "lr_fencing_token rec = r_fencing_token row"
    "lr_lease_expires_at rec = db_aware_utc (r_lease_expires_at row)"
    "lr_grant_id rec = r_grant_id row" "lr_request_id rec = r_request_id row"
  using assms unfolding sql_inv_def by (force simp: to_record_def bind_res_Inr_iff ledger_status_of_Inr)

lemma value_eq_iff [simp]:
  "ledger_status_value st = ''pending'' \<longleftrightarrow> st = LS_PENDING"
  "ledger_status_value st = ''succeeded'' \<longleftrightarrow> st = LS_SUCCEEDED"
  "ledger_status_value st = ''failed'' \<longleftrightarrow> st = LS_FAILED"
  "ledger_status_value st = ''abandoned'' \<longleftrightarrow> st = LS_ABANDONED"
  by (cases st; simp)+

lemma to_record_pending:
  "to_record row = Inr (pending_record eid g r t tok)"
  if "r_execution_id row = eid" "r_status row = ''pending''" "r_result_json row = None" "r_grant_id row = g"
    "r_request_id row = r" "db_aware_utc (r_lease_expires_at row) = Some t" "r_fencing_token row = Some tok"
  using that by (simp add: to_record_def ledger_status_of_def result_from_json_def pending_record_def)

lemma flush_row_same [simp]:
  "flush_row row (row\<lparr>r_status := a, r_result_json := b, r_completed_at := c, r_lease_expires_at := d,
     r_fencing_token := e, r_error_text := f\<rparr>) row
   = row\<lparr>r_status := a, r_result_json := b, r_completed_at := c, r_lease_expires_at := d,
     r_fencing_token := e, r_error_text := f\<rparr>"
  "flush_row row (row\<lparr>r_status := a, r_completed_at := c, r_result_json := b, r_lease_expires_at := d,
     r_fencing_token := e\<rparr>) row
   = row\<lparr>r_status := a, r_completed_at := c, r_result_json := b, r_lease_expires_at := d, r_fencing_token := e\<rparr>"
  by (simp_all add: flush_row_def)

lemma to_record_closed:
  assumes "to_record row = Inr rec" "ledger_status_of st = Inr ls"
    and "r_status row' = st" "result_from_json (r_result_json row') = Inr res" "r_lease_expires_at row' = None"
    and "r_fencing_token row' = None" "r_grant_id row' = r_grant_id row" "r_request_id row' = r_request_id row"
    and "r_execution_id row' = r_execution_id row"
  shows "to_record row' = Inr (closed_record ls res rec)"
  using assms by (auto simp: to_record_def bind_res_Inr_iff closed_record_def)

subsection \<open>Refinement of the specification\<close>

lemma sql_claim_refines:
  assumes "sql_inv l"
  shows "map_sum norm_exn (apsnd sql_lookup) (sql_try_claim l now tok eid g r at_opt)
    = spec_claim (sl_claim_lease_seconds l) (sql_lookup l) now tok eid g r at_opt"
proof (cases "aware_utc now at_opt")
  case (Inl e)
  then show ?thesis using aware_utc_Inl [OF Inl] by (simp add: sql_try_claim_def spec_claim_def raise_if_def)
next
  case (Inr t)
  show ?thesis
  proof (cases "get_row l eid")
    case None
    with Inr show ?thesis
      by (simp add: sql_try_claim_def sql_claim_commit_def spec_claim_def raise_if_def claimable_def Let_def to_record_pending)
  next
    case (Some row)
    from sql_inv_row [OF assms Some] obtain rec where rec: "to_record row = Inr rec" "r_execution_id row = eid"
      "r_status row = ledger_status_value (lr_status rec)"
      "lr_lease_expires_at rec = db_aware_utc (r_lease_expires_at row)" by blast
    from rec Some Inr show ?thesis
      by (cases "lr_status rec")
        (simp_all add: sql_try_claim_def sql_claim_commit_def spec_claim_def raise_if_def claimable_def
          refused_kind_def lease_expired_def to_record_pending Let_def not_less split: option.split)
  qed
qed

lemma sql_claim_inv:
  assumes "sql_inv l" "sql_try_claim l now tok eid g r at_opt = Inr (out, l')"
  shows "sql_inv l' \<and> sl_claim_lease_seconds l' = sl_claim_lease_seconds l"
proof -
  obtain t where t: "sql_claim_commit l (get_row l eid) t tok eid g r = Inr (out, l')"
    using assms(2) by (cases "aware_utc now at_opt") (auto simp: sql_try_claim_def)
  show ?thesis
  proof (cases "get_row l eid")
    case None
    with t assms(1) show ?thesis
      by (auto simp: sql_claim_commit_def Let_def intro!: sql_inv_put to_record_pending)
  next
    case (Some row)
    from sql_inv_row [OF assms(1) Some] obtain rec where rec: "to_record row = Inr rec" "r_execution_id row = eid"
      "r_status row = ledger_status_value (lr_status rec)" by blast
    from rec Some t assms(1) show ?thesis
      by (cases "lr_status rec")
        (auto simp: sql_claim_commit_def Let_def split: if_splits intro!: sql_inv_put to_record_pending)
  qed
qed

lemma sql_pending_cases:
  assumes "sql_inv l"
  shows "sql_pending (get_row l eid) tok = (if owned (sql_lookup l eid) tok then Inr (the (get_row l eid)) else Inl RuntimeError)"
proof (cases "get_row l eid")
  case (Some row)
  from sql_inv_row [OF assms Some] obtain rec where "to_record row = Inr rec"
    "r_status row = ledger_status_value (lr_status rec)" "lr_fencing_token rec = r_fencing_token row" by blast
  with Some show ?thesis by (auto simp: sql_pending_def owned_def raise_if_def)
qed (simp add: sql_pending_def owned_def)

lemma sql_complete_step:
  assumes "sql_inv l" "owned (sql_lookup l eid) tok" "ledger_status_of st = Inr ls"
    and "row' = (the (get_row l eid))\<lparr>r_status := st, r_result_json := js, r_completed_at := c,
          r_lease_expires_at := None, r_fencing_token := None, r_error_text := err\<rparr>"
    and "result_from_json js = Inr res"
  shows "sql_lookup (put_row l eid row') = (sql_lookup l)(eid := map_option (closed_record ls res) (sql_lookup l eid))
    \<and> sql_inv (put_row l eid row')"
proof -
  obtain row where row: "get_row l eid = Some row"
    using assms(2) by (cases "get_row l eid") (auto simp: owned_def)
  from sql_inv_row [OF assms(1) row] obtain rec where rec: "to_record row = Inr rec" "r_execution_id row = eid" by blast
  have "to_record row' = Inr (closed_record ls res rec)"
    using assms(3-5) row by (intro to_record_closed [OF rec(1)]) simp_all
  with row rec assms(1,4) show ?thesis by (auto intro: sql_inv_put)
qed

lemma flush_commit_same:
  "get_row l eid = Some row \<Longrightarrow> flush_row row new row = new \<Longrightarrow> flush_commit l eid row new = Inr (put_row l eid new)"
  by (simp add: flush_commit_def)

lemma owned_row: "owned (sql_lookup l eid) tok \<Longrightarrow> get_row l eid = Some (the (get_row l eid))"
  by (cases "get_row l eid") (auto simp: owned_def)

lemma sql_succeed_eq:
  assumes "sql_inv l"
  shows "sql_complete_succeeded l now eid res tok =
    raise_if (er_status res \<noteq> ES_SUCCEEDED) ValueError
     (raise_if (\<not> owned (sql_lookup l eid) tok) RuntimeError
       (Inr (put_row l eid ((the (get_row l eid))\<lparr>r_status := ''succeeded'', r_result_json := Some (result_to_json res),
          r_completed_at := Some (storage_utc (sl_sqlite l) now), r_lease_expires_at := None,
          r_fencing_token := None, r_error_text := None\<rparr>))))"
  unfolding sql_complete_succeeded_def sql_succeed_commit_def sql_pending_cases [OF assms]
  by (simp add: raise_if_def flush_commit_same [OF owned_row])

lemma sql_fail_eq:
  assumes "sql_inv l"
  shows "sql_complete_failed l now eid res tok =
    raise_if (er_status res \<noteq> ES_FAILED) ValueError
     (raise_if (\<not> owned (sql_lookup l eid) tok) RuntimeError
       (Inr (put_row l eid ((the (get_row l eid))\<lparr>r_status := ''failed'', r_result_json := Some (result_to_json res),
          r_completed_at := Some (storage_utc (sl_sqlite l) now), r_lease_expires_at := None,
          r_fencing_token := None, r_error_text := er_error res\<rparr>))))"
  unfolding sql_complete_failed_def sql_fail_commit_def sql_pending_cases [OF assms]
  by (simp add: raise_if_def flush_commit_same [OF owned_row])

lemma sql_abandon_eq:
  assumes "sql_inv l"
  shows "sql_abandon l now eid tok =
    (if map_option lr_status (sql_lookup l eid) \<noteq> Some LS_PENDING then Inr l
     else raise_if (\<not> owned (sql_lookup l eid) tok) RuntimeError
       (Inr (put_row l eid ((the (get_row l eid))\<lparr>r_status := ''abandoned'', r_result_json := None,
          r_completed_at := Some (storage_utc (sl_sqlite l) now), r_lease_expires_at := None,
          r_fencing_token := None, r_error_text := r_error_text (the (get_row l eid))\<rparr>))))"
proof (cases "get_row l eid")
  case (Some row)
  from sql_inv_row [OF assms Some] obtain rec where "to_record row = Inr rec"
    "r_status row = ledger_status_value (lr_status rec)" "lr_fencing_token rec = r_fencing_token row" by blast
  with Some show ?thesis
    by (cases row) (auto simp: sql_abandon_def sql_abandon_commit_def owned_def raise_if_def flush_commit_def flush_row_def)
qed (simp add: sql_abandon_def sql_abandon_commit_def)

lemma sql_ops_sel [simp]:
  "try_claim sql_ops = sql_try_claim" "complete_succeeded sql_ops = sql_complete_succeeded"
  "complete_failed sql_ops = sql_complete_failed" "abandon sql_ops = sql_abandon"
  "get_record sql_ops = sql_lookup" "ledger_organization sql_ops l = Some (sl_organization_id l)"
  by (simp_all add: sql_ops_def)

lemmas sql_status_of = ledger_status_of_Inr [THEN iffD2, OF ledger_status_value.simps(2) [symmetric]]
  ledger_status_of_Inr [THEN iffD2, OF ledger_status_value.simps(3) [symmetric]]
  ledger_status_of_Inr [THEN iffD2, OF ledger_status_value.simps(4) [symmetric]]

interpretation sql: replay_ledger sql_ops sql_inv sl_claim_lease_seconds
proof (unfold_locales, goal_cases)
  case (2 l now eid res tok)
  then show ?case
    by (auto simp: sql_succeed_eq spec_complete_def raise_if_def result_json_roundtrip
        sql_complete_step [OF _ _ sql_status_of(1) refl])
next
  case (3 l now eid res tok)
  then show ?case
    by (auto simp: sql_fail_eq spec_complete_def raise_if_def result_json_roundtrip
        sql_complete_step [OF _ _ sql_status_of(2) refl])
next
  case (4 l now eid tok)
  then show ?case
    using sql_complete_step [OF _ _ sql_status_of(3) refl, where l = l and eid = eid and tok = tok and js = None
        and c = "Some (storage_utc (sl_sqlite l) now)" and err = "r_error_text (the (get_row l eid))"
        and res = None]
    by (auto simp: sql_abandon_eq spec_abandon_def raise_if_def result_from_json_def)
next
  case (6 l now eid res tok l')
  then show ?case
    by (auto simp: sql_succeed_eq sql_complete_step [OF _ _ sql_status_of(1) refl result_json_roundtrip])
next
  case (7 l now eid res tok l')
  then show ?case
    by (auto simp: sql_fail_eq sql_complete_step [OF _ _ sql_status_of(2) refl result_json_roundtrip])
next
  case (8 l now eid tok l')
  then show ?case
    using sql_complete_step [OF _ _ sql_status_of(3) refl, where l = l and eid = eid and tok = tok and js = None
        and c = "Some (storage_utc (sl_sqlite l) now)" and err = "r_error_text (the (get_row l eid))"
        and res = None]
    by (auto simp: sql_abandon_eq result_from_json_def split: if_splits)
qed (auto simp: sql_claim_refines dest: sql_claim_inv)

subsection \<open>Properties\<close>

text \<open>
  C26 (refinement).  Call by call, the durable ledger behaves as the in-memory one: from
  states that hold the same records and have the same lease, every sequence of calls gives
  the same claim outcomes and errors (a token mismatch is a \<open>RuntimeError\<close> in both) and
  leads to states that again hold the same records.
\<close>

theorem durable_ledger_equivalent:
  assumes "sql_inv l" "mem_inv m" "sql_lookup l = mem_get m" "sl_claim_lease_seconds l = claim_lease_seconds m"
    and "ledger_run sql_ops l cs = (outs, l')" "ledger_run memory_ops m cs = (outs', m')"
  shows "outs = outs' \<and> sql_lookup l' = mem_get m'"
  using sql.run_refines [OF assms(1,5)] mem.run_refines [OF assms(2,6)] assms(3,4) by simp

text \<open>
  Property (round trip).  What a completion stores, the next claim reads back: the result in
  the JSON column, and instants through the dialect's timestamp column.
\<close>

theorem ledger_codec_roundtrip:
  "result_from_json (Some (result_to_json r)) = Inr (Some r) \<and> db_aware_utc (Some (storage_utc sqlite t)) = Some t"
  by (simp add: result_json_roundtrip)

lemma conflict_in_flight:
  assumes "get_row l eid = Some row" "r_status row = ''pending''" "outcome_after_conflict l eid = Inr (out, l')"
  shows "co_kind out = IN_FLIGHT \<and> l' = l"
  using assms by (auto simp: outcome_after_conflict_def bind_res_Inr_iff)

lemma sql_claim_acquired:
  assumes "sql_claim_commit l (get_row l eid) t tok eid g r = Inr (out, l1)" "co_kind out = ACQUIRED"
  shows "(\<exists>row. get_row l1 eid = Some row \<and> r_status row = ''pending'' \<and> r_fencing_token row = Some tok)
    \<and> (\<forall>snap. get_row l eid = Some snap \<longrightarrow> r_status snap \<noteq> ''succeeded'')"
proof (cases "get_row l eid")
  case None
  with assms show ?thesis by (auto simp: sql_claim_commit_def Let_def)
next
  case (Some snap)
  with assms show ?thesis
    by (auto simp: sql_claim_commit_def Let_def bind_res_Inr_iff outcome_after_conflict_def split: if_splits option.splits)
qed

text \<open>
  Property (election).  Two workers that read the same row, or both read that there is none, and
  then both try to claim: when the first one acquires the execution, the second one, which
  writes afterwards, is told \<open>IN_FLIGHT\<close> and changes nothing.
\<close>

theorem concurrent_claims_elect_one:
  assumes "sql_claim_commit l (get_row l eid) t tok eid g r = Inr (out, l1)" "co_kind out = ACQUIRED"
    and "\<forall>snap. get_row l eid = Some snap \<longrightarrow> r_fencing_token snap \<noteq> Some tok"
    and "sql_claim_commit l1 (get_row l eid) t' tok' eid g' r' = Inr (out', l2)"
  shows "co_kind out' = IN_FLIGHT \<and> l2 = l1"
proof -
  obtain row where row: "get_row l1 eid = Some row" "r_status row = ''pending''" "r_fencing_token row = Some tok"
    and snap: "\<forall>snap. get_row l eid = Some snap \<longrightarrow> r_status snap \<noteq> ''succeeded''"
    using sql_claim_acquired [OF assms(1,2)] by blast
  show ?thesis
  proof (cases "get_row l eid")
    case None
    with row assms(4) show ?thesis
      using conflict_in_flight [OF row(1,2)] by (simp add: sql_claim_commit_def Let_def)
  next
    case (Some s)
    with row snap assms(3,4) show ?thesis
      using conflict_in_flight [OF row(1,2)]
      by (auto simp: sql_claim_commit_def Let_def bind_res_Inr_iff split: if_splits)
  qed
qed

text \<open>
  C38 (a limit of the fencing).  Completions check the token on the row they read and write
  by primary key.  When worker B reclaims the execution between the read and the write of
  worker A, whose lease is over, A's completion is committed over B's claim: the stored
  result is A's, and B can no longer complete.
\<close>

theorem stale_completion_overwrites:
  assumes "sql_inv l" "get_row l eid = Some snap" "sql_pending (Some snap) tokA = Inr snap"
    and "r_result_json snap = None" "er_status res = ES_SUCCEEDED"
    and "sql_claim_commit l (get_row l eid) t tokB eid g r = Inr (out, l1)" "co_kind out = ACQUIRED"
  shows "\<exists>l2. sql_succeed_commit l1 (Some snap) now eid res tokA = Inr l2
    \<and> map_option lr_result (sql_lookup l2 eid) = Some (Some res)
    \<and> sql_complete_succeeded l2 now' eid res' tokB \<in> {Inl ValueError, Inl RuntimeError}"
proof -
  obtain row where row: "get_row l1 eid = Some row" "r_status row = ''pending''" "r_fencing_token row = Some tokB"
    using sql_claim_acquired [OF assms(6,7)] by blast
  have snap: "r_status snap = ''pending''" "r_fencing_token snap = Some tokA"
    using assms(3) by (auto simp: sql_pending_def)
  let ?new = "snap\<lparr>r_status := ''succeeded'', r_result_json := Some (result_to_json res),
     r_completed_at := Some (storage_utc (sl_sqlite l1) now), r_lease_expires_at := None,
     r_fencing_token := None, r_error_text := None\<rparr>"
  have c: "sql_succeed_commit l1 (Some snap) now eid res tokA = Inr (put_row l1 eid (flush_row snap ?new row))"
    using assms(3,5) row(1) by (simp add: sql_succeed_commit_def flush_commit_def)
  have f: "r_status (flush_row snap ?new row) = ''succeeded''" "r_fencing_token (flush_row snap ?new row) = None"
    "r_result_json (flush_row snap ?new row) = Some (result_to_json res)"
    using snap assms(4) by (simp_all add: flush_row_def)
  then have "\<exists>rec. to_record (flush_row snap ?new row) = Inr rec \<and> lr_result rec = Some res"
    by (simp add: to_record_def ledger_status_of_def result_json_roundtrip)
  with c f show ?thesis
    by (auto simp: sql_complete_succeeded_def sql_succeed_commit_def sql_pending_def raise_if_def)
qed

subsection \<open>A concrete table\<close>

definition demo_row :: ledger_row where
  "demo_row = \<lparr>r_organization_id = ''org'', r_execution_id = ''e1'', r_status = ''pending'', r_grant_id = None,
     r_request_id = None, r_result_json = None, r_started_at = Naive 0, r_completed_at = None,
     r_lease_expires_at = Some (Naive 300000000), r_fencing_token = Some ''A'', r_error_text = None\<rparr>"

definition demo_sql :: "(str \<times> str, ledger_row) dict \<Rightarrow> sql_ledger" where
  "demo_sql table = \<lparr>sl_organization_id = ''org'', sl_claim_lease_seconds = 300, sl_sqlite = True, sl_table = table\<rparr>"

lemma demo_sql_rows [simp]:
  "get_row (demo_sql []) eid = None"
  "get_row (demo_sql [((''org'', ''e1''), demo_row)]) eid = (if eid = ''e1'' then Some demo_row else None)"
  by (auto simp: get_row_def demo_sql_def)

lemma demo_sql_inv: "sql_inv (demo_sql [])" "sql_inv (demo_sql [((''org'', ''e1''), demo_row)])"
  by (simp_all add: sql_inv_def) (simp add: demo_row_def to_record_def ledger_status_of_def result_from_json_def)

theorem durable_ledger_equivalent_witness:
  "fst (ledger_run sql_ops (demo_sql []) [Claim 0 ''A'' ''e1'' None None None, Claim 5 ''B'' ''e1'' None None None])
     = fst (ledger_run memory_ops demo_ledger [Claim 0 ''A'' ''e1'' None None None, Claim 5 ''B'' ''e1'' None None None])"
proof -
  have "sql_lookup (demo_sql []) = mem_get demo_ledger"
    by (auto simp: mem_get_def demo_ledger_def)
  moreover have "sl_claim_lease_seconds (demo_sql []) = claim_lease_seconds demo_ledger"
    by (simp add: demo_sql_def demo_ledger_def)
  ultimately show ?thesis
    using durable_ledger_equivalent [OF demo_sql_inv(1) demo_ledger_inv(1) _ _ surjective_pairing surjective_pairing]
    by blast
qed

lemma demo_sql_claim:
  "\<exists>out l1. sql_claim_commit (demo_sql [((''org'', ''e1''), demo_row)])
       (get_row (demo_sql [((''org'', ''e1''), demo_row)]) ''e1'') 400000000 ''B'' ''e1'' None None = Inr (out, l1)
     \<and> co_kind out = ACQUIRED"
  by (simp add: sql_claim_commit_def Let_def) (simp add: demo_row_def db_aware_utc_def)

theorem concurrent_claims_elect_one_witness:
  "\<exists>out l1 out' l2. sql_claim_commit (demo_sql []) None 1 ''A'' ''e1'' None None = Inr (out, l1) \<and> co_kind out = ACQUIRED
     \<and> sql_claim_commit l1 None 2 ''B'' ''e1'' None None = Inr (out', l2) \<and> co_kind out' = IN_FLIGHT"
proof -
  obtain out l1 where 1: "sql_claim_commit (demo_sql []) (get_row (demo_sql []) ''e1'') 1 ''A'' ''e1'' None None = Inr (out, l1)"
      "co_kind out = ACQUIRED"
    and row: "\<exists>row rec. get_row l1 ''e1'' = Some row \<and> to_record row = Inr rec"
    by (simp add: sql_claim_commit_def Let_def to_record_pending)
  obtain out' l2 where 2: "sql_claim_commit l1 (get_row (demo_sql []) ''e1'') 2 ''B'' ''e1'' None None = Inr (out', l2)"
    using row by (auto simp: sql_claim_commit_def Let_def outcome_after_conflict_def)
  from concurrent_claims_elect_one [OF 1 _ 2] 1 2 show ?thesis by auto
qed

theorem stale_completion_overwrites_witness:
  "\<exists>out l1 l2. sql_claim_commit (demo_sql [((''org'', ''e1''), demo_row)]) (Some demo_row) 400000000 ''B'' ''e1'' None None
       = Inr (out, l1) \<and> co_kind out = ACQUIRED
     \<and> sql_succeed_commit l1 (Some demo_row) 400000001 ''e1'' (demo_result ES_SUCCEEDED ''from A'') ''A'' = Inr l2
     \<and> map_option lr_result (sql_lookup l2 ''e1'') = Some (Some (demo_result ES_SUCCEEDED ''from A''))"
proof -
  let ?l = "demo_sql [((''org'', ''e1''), demo_row)]"
  obtain out l1 where c: "sql_claim_commit ?l (get_row ?l ''e1'') 400000000 ''B'' ''e1'' None None = Inr (out, l1)"
    "co_kind out = ACQUIRED" using demo_sql_claim by blast
  have g: "get_row ?l ''e1'' = Some demo_row" by simp
  have "sql_pending (Some demo_row) ''A'' = Inr demo_row" "r_result_json demo_row = None"
    by (simp_all add: sql_pending_def demo_row_def)
  moreover have "er_status (demo_result ES_SUCCEEDED ''from A'') = ES_SUCCEEDED" by (simp add: demo_result_def)
  ultimately obtain l2 where
    "sql_succeed_commit l1 (Some demo_row) 400000001 ''e1'' (demo_result ES_SUCCEEDED ''from A'') ''A'' = Inr l2"
    "map_option lr_result (sql_lookup l2 ''e1'') = Some (Some (demo_result ES_SUCCEEDED ''from A''))"
    using stale_completion_overwrites [OF demo_sql_inv(2) g _ _ _ c] by blast
  with c g show ?thesis by metis
qed

end
