(* ===== verification/Execution_Engine.thy ===== *)
theory Execution_Engine
  imports Durable_Ledger
begin

section \<open>The execution engine (\<open>phase4/execution/engine.py\<close>, \<open>adapters.py\<close>)\<close>

text \<open>
  \<open>ExecutionEngine.execute\<close> over any ledger (a \<open>ledger_ops\<close> record) and any adapters.
  What adapters act upon is a world of type \<open>'w\<close> that is passed through, so that ``the
  adapter was not invoked'' can be stated as ``the world is unchanged''.  The clock is a
  function \<open>clk\<close> from the number of the reading to the instant: 0 for \<open>grant.binds\<close>, 1 for
  \<open>GovernedDispatch.issue\<close>, 2 for the claim, 3 and 4 inside the adapter, 5 for the
  result's timestamp, 6 for the completion.  Requests are always \<open>ExecutionRequest\<close>s here.
\<close>

subsection \<open>Adapters\<close>

text \<open>
  An adapter returns its output, refuses (\<open>None\<close>) or raises; an exception is represented
  by the text \<open>f"{type(exc).__name__}: {exc}"\<close> that the engine stores.
\<close>

type_synonym adapter_outcome = "str + (str \<times> str) list option"

record 'w adapter =
  adapter_id :: str
  adapter_action :: str
  adapter_execute :: "platform \<Rightarrow> time \<times> time \<Rightarrow> execution_request \<Rightarrow> governed_dispatch \<Rightarrow> 'w
                        \<Rightarrow> adapter_outcome \<times> 'w"

datatype handler_outcome =
    HResult "(str \<times> str) list"
  | HMapping "(str, str) dict"
  | HOther
  | HRaises str

text \<open>
  \<open>StaticExecutionAdapter\<close>.  \<open>describe\<close> is the text of an exception raised by the
  verification itself; the identity test \<open>dispatch.request is request\<close> is equality here.
\<close>

definition static_execute ::
  "(exn \<Rightarrow> str) \<Rightarrow> (execution_request \<Rightarrow> 'w \<Rightarrow> handler_outcome \<times> 'w) \<Rightarrow> platform \<Rightarrow> time \<times> time
     \<Rightarrow> execution_request \<Rightarrow> governed_dispatch \<Rightarrow> 'w \<Rightarrow> adapter_outcome \<times> 'w" where
  "static_execute describe handler pf ts req dispatch w =
     (case is_verified pf (fst ts) (snd ts) dispatch of
        Inl e \<Rightarrow> (Inl (describe e), w)
      | Inr ok \<Rightarrow>
          if \<not> ok \<or> gd_request dispatch \<noteq> req then (Inr None, w)
          else (case handler req w of
                  (HResult out, w') \<Rightarrow> (Inr (Some out), w')
                | (HMapping m, w') \<Rightarrow> (Inr (Some (sorted_items m)), w')
                | (HOther, w') \<Rightarrow> (Inl ''TypeError: adapter handler must return AdapterResult or a mapping'', w')
                | (HRaises msg, w') \<Rightarrow> (Inl msg, w')))"

definition static_adapter ::
  "(exn \<Rightarrow> str) \<Rightarrow> str \<Rightarrow> str \<Rightarrow> (execution_request \<Rightarrow> 'w \<Rightarrow> handler_outcome \<times> 'w) \<Rightarrow> 'w adapter result" where
  "static_adapter describe aid act handler =
     raise_if (blank aid \<or> blank act) ValueError
       (Inr \<lparr>adapter_id = aid, adapter_action = act, adapter_execute = static_execute describe handler\<rparr>)"

subsection \<open>The engine\<close>

record ('l, 'w) execution_engine =
  ee_adapters :: "(str, 'w adapter) dict"
  ee_ledger :: 'l
  ee_audit :: "execution_result list"

definition production_env :: "platform \<Rightarrow> bool" where
  "production_env pf \<longleftrightarrow>
     map lower_char (strip (case DOR_ENV pf of None \<Rightarrow> [] | Some e \<Rightarrow> e)) = ''production''
     \<or> map lower_char (strip (case IS_PRODUCTION pf of None \<Rightarrow> [] | Some e \<Rightarrow> e)) \<in> {''1'', ''true'', ''yes'', ''on''}"

definition register_adapter ::
  "'w adapter \<Rightarrow> ('l, 'w) execution_engine \<Rightarrow> ('l, 'w) execution_engine result" where
  "register_adapter ad eng =
     raise_if (blank (adapter_id ad) \<or> blank (adapter_action ad)) ValueError
     (raise_if (dict_get (ee_adapters eng) (adapter_action ad) \<noteq> None) ValueError
       (Inr (eng\<lparr>ee_adapters := dict_set (adapter_action ad) ad (ee_adapters eng)\<rparr>)))"

fun register_all :: "'w adapter list \<Rightarrow> ('l, 'w) execution_engine \<Rightarrow> ('l, 'w) execution_engine result" where
  "register_all [] eng = Inr eng"
| "register_all (ad # ads) eng = bind_res (register_adapter ad eng) (register_all ads)"

text \<open>
  The constructor; \<open>in_memory\<close> says that no ledger was passed or an \<open>InMemoryReplayLedger\<close>.
\<close>

definition new_execution_engine ::
  "platform \<Rightarrow> bool \<Rightarrow> 'l \<Rightarrow> 'w adapter list \<Rightarrow> ('l, 'w) execution_engine result" where
  "new_execution_engine pf in_memory l ads =
     raise_if (production_env pf \<and> in_memory) RuntimeError
       (register_all ads \<lparr>ee_adapters = [], ee_ledger = l, ee_audit = []\<rparr>)"

datatype authority = NoAuthority | RawDecision authority_decision | Grant authority_grant

subsection \<open>Results\<close>

definition build_result ::
  "str \<Rightarrow> execution_request \<Rightarrow> str \<Rightarrow> str \<Rightarrow> execution_status \<Rightarrow> str \<Rightarrow> (str \<times> str) list \<Rightarrow> str option \<Rightarrow> str
     \<Rightarrow> execution_result" where
  "build_result eid req pid pver st aid out err ts =
     \<lparr>er_execution_id = eid, er_request_id = xr_request_id req, er_policy_id = pid, er_policy_version = pver,
      er_agent_identity = xr_agent_identity req, er_action = xr_action req, er_resource = xr_resource req,
      er_context_packet_id = xr_context_packet_id req, er_status = st, er_adapter_id = aid,
      er_output = out, er_error = err, executed_at = ts\<rparr>"

definition record_result ::
  "execution_result \<Rightarrow> ('l, 'w) execution_engine \<Rightarrow> execution_result result \<times> ('l, 'w) execution_engine" where
  "record_result r eng = (Inr r, eng\<lparr>ee_audit := ee_audit eng @ [r]\<rparr>)"

definition rejected ::
  "platform \<Rightarrow> time \<Rightarrow> execution_request \<Rightarrow> str \<Rightarrow> authority_decision option \<Rightarrow> ('l, 'w) execution_engine
     \<Rightarrow> execution_result result \<times> ('l, 'w) execution_engine" where
  "rejected pf now req why dec eng =
     record_result
       (case dec of
          None \<Rightarrow> build_result (''rejected:'' @ xr_request_id req) req ''none'' ''none'' ES_REJECTED ''none'' []
                    (Some why) (isoformat pf now)
        | Some d \<Rightarrow> build_result (execution_id_for pf req d) req (ad_policy_id d) (ad_policy_version d) ES_REJECTED
                      ''none'' [] (Some why) (isoformat pf now))
       eng"

definition replay_result :: "platform \<Rightarrow> time \<Rightarrow> execution_result \<Rightarrow> execution_result" where
  "replay_result pf now previous =
     previous\<lparr>er_status := ES_REPLAYED, er_error := Some ''idempotent replay; adapter was not invoked again'',
              executed_at := isoformat pf now\<rparr>"

text \<open>The decision that \<open>execute\<close> rebuilds from a verified grant.\<close>

definition grant_decision :: "authority_grant \<Rightarrow> authority_decision" where
  "grant_decision g =
     \<lparr>ad_request_id = g_request_id g, ad_decision = ALLOW, ad_agent_identity = g_agent_identity g,
      ad_action = g_action g, ad_resource = g_resource g, ad_context_packet_id = g_context_packet_id g,
      ad_policy_id = g_policy_id g, ad_policy_version = g_policy_version g,
      ad_matched_rule_ids = g_matched_rule_ids g, ad_reason = ''verified AI-3 authority grant'',
      ad_evaluated_at = ''verified-grant'', ad_parameters = g_parameters g,
      ad_organization_id = g_organization_id g, ad_actor_id = g_actor_id g, ad_capability = g_capability g,
      provenance_token = False, provenance_issuer = [], provenance_signature = []\<rparr>"

subsection \<open>\<open>execute\<close>\<close>

text \<open>
  The adapter runs while the claim is held and without any lock on the ledger, so other
  workers act on the ledger before the completion, and again before the claim is abandoned;
  either write can also meet a failing database, whose transaction is then rolled back.  A
  \<open>ledger_env\<close> says what happens there: at index 0 before and to the completion, at index 1
  before and to the call of \<open>abandon\<close>.
\<close>

type_synonym ledger_env = "nat \<Rightarrow> ledger_call list \<times> exn option"

definition others :: "'l ledger_ops \<Rightarrow> ledger_env \<Rightarrow> nat \<Rightarrow> 'l \<Rightarrow> 'l" where
  "others ops env i l = snd (ledger_run ops l (fst (env i)))"

definition db_write :: "ledger_env \<Rightarrow> nat \<Rightarrow> 'a result \<Rightarrow> 'a result" where
  "db_write env i r = (case snd (env i) of None \<Rightarrow> r | Some e \<Rightarrow> Inl e)"

definition alone :: ledger_env where
  "alone = (\<lambda>_. ([], None))"

text \<open>
  The completion of a claim: a terminal ledger error is followed by an attempt to abandon
  the claim, whose own error is only logged, and is raised again.
\<close>

definition finish_execution ::
  "'l ledger_ops \<Rightarrow> time \<Rightarrow> ledger_env \<Rightarrow> str \<Rightarrow> str \<Rightarrow> execution_result \<Rightarrow> ('l, 'w) execution_engine
     \<Rightarrow> execution_result result \<times> ('l, 'w) execution_engine" where
  "finish_execution ops now env eid token r eng =
     (let l1 = others ops env 0 (ee_ledger eng)
      in case db_write env 0 (if er_status r = ES_SUCCEEDED then complete_succeeded ops l1 now eid r token
                              else complete_failed ops l1 now eid r token) of
           Inr l \<Rightarrow> record_result r (eng\<lparr>ee_ledger := l\<rparr>)
         | Inl e \<Rightarrow>
             (let l2 = others ops env 1 l1
              in (Inl e, eng\<lparr>ee_ledger := (case db_write env 1 (abandon ops l2 now eid token) of
                                              Inr l \<Rightarrow> l | Inl _ \<Rightarrow> l2)\<rparr>)))"

definition run_adapter ::
  "platform \<Rightarrow> (nat \<Rightarrow> time) \<Rightarrow> execution_request \<Rightarrow> governed_dispatch \<Rightarrow> authority_decision \<Rightarrow> 'w adapter \<Rightarrow> 'w
     \<Rightarrow> execution_result \<times> 'w" where
  "run_adapter pf clk req dispatch d ad w =
     (case adapter_execute ad pf (clk 3, clk 4) req dispatch w of
        (out, w') \<Rightarrow>
          (let res = build_result (execution_id_for pf req d) req (ad_policy_id d) (ad_policy_version d)
           in (case out of
                 Inr (Some outp) \<Rightarrow> res ES_SUCCEEDED (adapter_id ad) outp None (isoformat pf (clk 5))
               | Inr None \<Rightarrow> res ES_FAILED (adapter_id ad) []
                   (Some ''adapter rejected execution without a verified governed dispatch'') (isoformat pf (clk 5))
               | Inl msg \<Rightarrow> res ES_FAILED (adapter_id ad) [] (Some msg) (isoformat pf (clk 5)), w')))"

definition claimed_execution ::
  "platform \<Rightarrow> 'l ledger_ops \<Rightarrow> (nat \<Rightarrow> time) \<Rightarrow> ledger_env \<Rightarrow> execution_request \<Rightarrow> governed_dispatch \<Rightarrow> authority_decision
     \<Rightarrow> 'w adapter \<Rightarrow> claim_outcome \<Rightarrow> ('l, 'w) execution_engine \<Rightarrow> 'w
     \<Rightarrow> (execution_result result \<times> ('l, 'w) execution_engine) \<times> 'w" where
  "claimed_execution pf ops clk env req dispatch d ad claim eng w =
     (case co_kind claim of
        ALREADY_SUCCEEDED \<Rightarrow>
          (case Option.bind (co_record claim) lr_result of
             None \<Rightarrow> (rejected pf (clk 5) req ''successful replay has no stored result'' (Some d) eng, w)
           | Some previous \<Rightarrow> (record_result (replay_result pf (clk 5) previous) eng, w))
      | IN_FLIGHT \<Rightarrow> (rejected pf (clk 5) req ''execution already in flight for this execution_id'' (Some d) eng, w)
      | ACQUIRED \<Rightarrow>
          (let token = Option.bind (co_record claim) lr_fencing_token
           in if falsy_opt token
              then (rejected pf (clk 5) req ''acquired claim missing fencing token'' (Some d) eng, w)
              else (case run_adapter pf clk req dispatch d ad w of
                      (r, w') \<Rightarrow> (finish_execution ops (clk 6) env (execution_id_for pf req d) (the token) r eng, w'))))"

text \<open>
  The first half of \<open>execute\<close>, up to the choice of the adapter: it ends the call with a
  rejection or an exception (\<open>Inl\<close>), or yields the grant, the decision rebuilt from it, the
  governed dispatch and the adapter.
\<close>

definition admit ::
  "platform \<Rightarrow> 'l ledger_ops \<Rightarrow> (nat \<Rightarrow> time) \<Rightarrow> execution_request \<Rightarrow> authority \<Rightarrow> ('l, 'w) execution_engine
     \<Rightarrow> (execution_result result \<times> ('l, 'w) execution_engine)
        + (authority_grant \<times> authority_decision \<times> governed_dispatch \<times> 'w adapter)" where
  "admit pf ops clk req auth eng =
     (if ledger_organization ops (ee_ledger eng) \<notin> {None, Some (xr_organization_id req)}
      then Inl (rejected pf (clk 5) req ''execution replay ledger belongs to another organization'' None eng)
      else case auth of
        Grant g \<Rightarrow>
          (case binds pf (clk 0) g (request_fields req) None of
             Inl e \<Rightarrow> Inl (Inl e, eng)
           | Inr bound \<Rightarrow>
               if \<not> bound
               then Inl (rejected pf (clk 5) req ''authority grant is not bound to the execution request'' None eng)
               else if g_decision g \<noteq> ''allow''
               then Inl (rejected pf (clk 5) req ''authority decision is not ALLOW; execution denied'' None eng)
               else (case check_decision (grant_decision g) of
                       Inl e \<Rightarrow> Inl (Inl e, eng)
                     | Inr d \<Rightarrow>
                         (case issue_dispatch pf (clk 1) req g of
                            Inl e \<Rightarrow> Inl (Inl e, eng)
                          | Inr dispatch \<Rightarrow>
                              (case dict_get (ee_adapters eng) (xr_action req) of
                                 None \<Rightarrow> Inl (rejected pf (clk 5) req
                                           ''no execution adapter registered for action'' (Some d) eng)
                               | Some ad \<Rightarrow> Inr (g, d, dispatch, ad)))))
      | _ \<Rightarrow> Inl (rejected pf (clk 5) req
                   ''missing authority: execution requires a verified authority grant'' None eng))"

definition execute ::
  "platform \<Rightarrow> 'l ledger_ops \<Rightarrow> (nat \<Rightarrow> time) \<Rightarrow> ledger_env \<Rightarrow> str \<Rightarrow> execution_request \<Rightarrow> authority
     \<Rightarrow> ('l, 'w) execution_engine \<Rightarrow> 'w \<Rightarrow> (execution_result result \<times> ('l, 'w) execution_engine) \<times> 'w" where
  "execute pf ops clk env fresh req auth eng w =
     (case admit pf ops clk req auth eng of
        Inl out \<Rightarrow> (out, w)
      | Inr (g, d, dispatch, ad) \<Rightarrow>
          (case try_claim ops (ee_ledger eng) (clk 2) fresh (execution_id_for pf req d)
                  (Some (grant_id g)) (Some (xr_request_id req)) None of
             Inl e \<Rightarrow> ((Inl e, eng), w)
           | Inr (claim, l) \<Rightarrow>
               claimed_execution pf ops clk env req dispatch d ad claim (eng\<lparr>ee_ledger := l\<rparr>) w))"

subsection \<open>How \<open>execute\<close> can end\<close>

text \<open>A call that was refused: it raised, or it returned an audited rejection.\<close>

definition refusal ::
  "('l, 'w) execution_engine \<Rightarrow> execution_result result \<Rightarrow> ('l, 'w) execution_engine \<Rightarrow> bool" where
  "refusal eng r eng' \<longleftrightarrow> ee_ledger eng' = ee_ledger eng \<and> ee_adapters eng' = ee_adapters eng
     \<and> (case r of Inl e \<Rightarrow> ee_audit eng' = ee_audit eng
        | Inr x \<Rightarrow> er_status x = ES_REJECTED \<and> ee_audit eng' = ee_audit eng @ [x])"

lemma refusal_raise [simp]: "refusal eng (Inl e) eng"
  by (simp add: refusal_def)

lemma rejected_refusal: "rejected pf now req why dec eng = (r, eng') \<Longrightarrow> refusal eng r eng'"
  by (auto simp: rejected_def record_result_def build_result_def refusal_def split: option.splits)

lemma admit_Inl: "admit pf ops clk req auth eng = Inl (r, eng') \<Longrightarrow> refusal eng r eng'"
  unfolding admit_def
  by (auto dest: rejected_refusal split: if_splits authority.splits sum.splits option.splits)

lemma admit_Inr:
  assumes "admit pf ops clk req auth eng = Inr (g, d, dispatch, ad)"
  shows "auth = Grant g \<and> binds pf (clk 0) g (request_fields req) None = Inr True
    \<and> binds pf (clk 1) g (request_fields req) None = Inr True \<and> g_decision g = ''allow''
    \<and> d = grant_decision g \<and> dispatch = \<lparr>gd_request = req, gd_grant = g, dispatch_token = True\<rparr>
    \<and> dict_get (ee_adapters eng) (xr_action req) = Some ad"
  using assms unfolding admit_def
  by (auto simp: issue_dispatch_def bind_res_Inr_iff check_decision_def
      split: if_splits authority.splits sum.splits option.splits)

lemma execute_cases:
  assumes "execute pf ops clk env fresh req auth eng w = ((r, eng'), w')"
  obtains (refused) "w' = w" "refusal eng r eng'"
    | (claimed) g dispatch ad claim l where "admit pf ops clk req auth eng = Inr (g, grant_decision g, dispatch, ad)"
      "try_claim ops (ee_ledger eng) (clk 2) fresh (execution_id_for pf req (grant_decision g))
         (Some (grant_id g)) (Some (xr_request_id req)) None = Inr (claim, l)"
      "claimed_execution pf ops clk env req dispatch (grant_decision g) ad claim (eng\<lparr>ee_ledger := l\<rparr>) w = ((r, eng'), w')"
proof (cases "admit pf ops clk req auth eng")
  case (Inl out)
  with assms show ?thesis by (intro refused) (auto simp: execute_def dest: admit_Inl)
next
  case (Inr x)
  then obtain g d dispatch ad where a: "admit pf ops clk req auth eng = Inr (g, d, dispatch, ad)" by (cases x) auto
  then have "d = grant_decision g" by (simp add: admit_Inr)
  with a assms refused claimed show ?thesis by (auto simp: execute_def split: sum.splits)
qed

text \<open>After a claim: a rejection, a replay, or the adapter ran and its result was completed.\<close>

lemma claimed_cases:
  assumes "claimed_execution pf ops clk env req dispatch d ad claim eng w = ((r, eng'), w')"
  obtains (rejects) "w' = w" "refusal eng r eng'"
    | (replays) rec prev where "w' = w" "co_kind claim = ALREADY_SUCCEEDED" "co_record claim = Some rec" "lr_result rec = Some prev"
      "(r, eng') = record_result (replay_result pf (clk 5) prev) eng"
    | (runs) rec tok x where "co_kind claim = ACQUIRED" "co_record claim = Some rec" "lr_fencing_token rec = Some tok" "tok \<noteq> []"
      "run_adapter pf clk req dispatch d ad w = (x, w')"
      "finish_execution ops (clk 6) env (execution_id_for pf req d) tok x eng = (r, eng')"
  using assms unfolding claimed_execution_def Let_def
  by (auto simp: falsy_opt_def dest: rejected_refusal split: claim_kind.splits option.splits if_splits prod.splits bind_splits)

subsection \<open>What \<open>execute\<close> does to the ledger\<close>

lemma ledger_run_append:
  "ledger_run ops l (cs @ ds) =
     (case ledger_run ops l cs of (o1, l1) \<Rightarrow> (case ledger_run ops l1 ds of (o2, l2) \<Rightarrow> (o1 @ o2, l2)))"
  by (induction cs arbitrary: l) (auto split: prod.splits)

text \<open>Its effect on the ledger is that of a sequence of protocol calls.\<close>

lemma others_run: "\<exists>os. ledger_run ops l (fst (env i)) = (os, others ops env i l)"
  by (simp add: others_def) (metis prod.collapse)

lemma finish_calls:
  assumes "finish_execution ops now env eid tok x eng = (r, eng')"
  shows "\<exists>cs. snd (ledger_run ops (ee_ledger eng) cs) = ee_ledger eng'"
proof -
  define l1 where "l1 = others ops env 0 (ee_ledger eng)"
  define l2 where "l2 = others ops env 1 l1"
  define c where "c = (if er_status x = ES_SUCCEEDED then complete_succeeded ops l1 now eid x tok
    else complete_failed ops l1 now eid x tok)"
  obtain o1 o2 where o: "ledger_run ops (ee_ledger eng) (fst (env 0)) = (o1, l1)" "ledger_run ops l1 (fst (env 1)) = (o2, l2)"
    using others_run unfolding l1_def l2_def by metis
  have fin: "(r, eng') = (case db_write env 0 c of Inr l \<Rightarrow> record_result x (eng\<lparr>ee_ledger := l\<rparr>)
      | Inl e \<Rightarrow> (Inl e, eng\<lparr>ee_ledger := (case db_write env 1 (abandon ops l2 now eid tok) of Inr l \<Rightarrow> l | Inl _ \<Rightarrow> l2)\<rparr>))"
    using assms unfolding finish_execution_def Let_def c_def l1_def l2_def by simp
  show ?thesis
  proof (cases "db_write env 0 c")
    case (Inr l)
    then have "c = Inr l" by (simp add: db_write_def split: option.splits)
    with Inr fin o show ?thesis
      by (intro exI [of _ "fst (env 0) @ [if er_status x = ES_SUCCEEDED then Succeed now eid x tok else Fail now eid x tok]"])
        (simp add: record_result_def ledger_run_append c_def split: if_splits)
  next
    case (Inl e)
    with fin o show ?thesis
      by (intro exI [of _ "fst (env 0) @ fst (env 1) @ (if snd (env 1) = None then [Abandon now eid tok] else [])"])
        (auto simp: db_write_def ledger_run_append split: sum.splits option.splits)
  qed
qed

lemma execute_calls:
  assumes "execute pf ops clk env fresh req auth eng w = ((r, eng'), w')"
  shows "\<exists>cs. snd (ledger_run ops (ee_ledger eng) cs) = ee_ledger eng'"
  using assms
proof (cases rule: execute_cases)
  case refused
  then show ?thesis by (intro exI [of _ "[]"]) (simp add: refusal_def)
next
  case (claimed g dispatch ad claim l)
  have "\<exists>cs. snd (ledger_run ops l cs) = ee_ledger eng'"
    using claimed(3)
  proof (cases rule: claimed_cases)
    case rejects
    then show ?thesis by (intro exI [of _ "[]"]) (simp add: refusal_def)
  next
    case replays
    then show ?thesis by (intro exI [of _ "[]"]) (simp add: record_result_def)
  next
    case runs
    from finish_calls [OF runs(6)] show ?thesis by simp
  qed
  then obtain cs where "snd (ledger_run ops l cs) = ee_ledger eng'" ..
  then show ?thesis
    using claimed(2)
    by (intro exI [of _ "Claim (clk 2) fresh (execution_id_for pf req (grant_decision g)) (Some (grant_id g))
        (Some (xr_request_id req)) None # cs"]) (auto split: prod.split)
qed

text \<open>A sequence of calls of \<open>execute\<close>, each with its own platform state, clock and token.\<close>

type_synonym exec_call = "platform \<times> (nat \<Rightarrow> time) \<times> ledger_env \<times> str \<times> execution_request \<times> authority"

fun execute_seq ::
  "'l ledger_ops \<Rightarrow> exec_call list \<Rightarrow> ('l, 'w) execution_engine \<Rightarrow> 'w
     \<Rightarrow> (execution_result result list \<times> ('l, 'w) execution_engine) \<times> 'w" where
  "execute_seq ops [] eng w = (([], eng), w)"
| "execute_seq ops ((pf, clk, env, fresh, req, auth) # cs) eng w =
     (case execute pf ops clk env fresh req auth eng w of
        ((r, eng1), w1) \<Rightarrow> (case execute_seq ops cs eng1 w1 of ((rs, eng2), w2) \<Rightarrow> ((r # rs, eng2), w2)))"

lemma execute_seq_calls:
  assumes "execute_seq ops calls eng w = ((rs, eng'), w')"
  shows "\<exists>cs. snd (ledger_run ops (ee_ledger eng) cs) = ee_ledger eng'"
  using assms
proof (induction ops calls eng w arbitrary: rs rule: execute_seq.induct)
  case (1 ops eng w)
  then show ?case by (intro exI [of _ "[]"]) simp
next
  case (2 ops pf clk env fresh req auth calls eng w)
  obtain r eng1 w1 where e: "execute pf ops clk env fresh req auth eng w = ((r, eng1), w1)" by (metis prod.collapse)
  with "2.prems" obtain rs1 where s: "execute_seq ops calls eng1 w1 = ((rs1, eng'), w')"
    by (auto split: prod.splits)
  obtain cs ds where "snd (ledger_run ops (ee_ledger eng) cs) = ee_ledger eng1"
    "snd (ledger_run ops (ee_ledger eng1) ds) = ee_ledger eng'"
    using execute_calls [OF e] "2.IH" [OF e [symmetric] refl s] by blast
  then show ?case by (intro exI [of _ "cs @ ds"]) (auto simp: ledger_run_append split: prod.splits)
qed

text \<open>The records after an abandonment: only the holder of the token closes its claim.\<close>

definition abandoned_by :: "str \<Rightarrow> str \<Rightarrow> ledger_map \<Rightarrow> ledger_map" where
  "abandoned_by eid tok m = (if owned (m eid) tok
     then m(eid := map_option (closed_record LS_ABANDONED None) (m eid)) else m)"

context replay_ledger
begin

lemma run_inv: "inv l \<Longrightarrow> inv (snd (ledger_run ops l cs))"
  using run_refines [of l cs "fst (ledger_run ops l cs)" "snd (ledger_run ops l cs)"] by simp

lemma run_succeeded:
  "inv l \<Longrightarrow> get_record ops l eid = Some rec \<Longrightarrow> lr_status rec = LS_SUCCEEDED
     \<Longrightarrow> get_record ops (snd (ledger_run ops l cs)) eid = Some rec"
  using succeeded_stable [of l eid rec cs "fst (ledger_run ops l cs)" "snd (ledger_run ops l cs)"] by simp

lemma execute_inv:
  "inv (ee_ledger eng) \<Longrightarrow> execute pf ops clk env fresh req auth eng w = ((r, eng'), w') \<Longrightarrow> inv (ee_ledger eng')"
  using execute_calls run_inv by metis

lemma execute_seq_inv:
  "inv (ee_ledger eng) \<Longrightarrow> execute_seq ops calls eng w = ((rs, eng'), w') \<Longrightarrow> inv (ee_ledger eng')"
  using execute_seq_calls run_inv by metis

lemma execute_seq_succeeded:
  "inv (ee_ledger eng) \<Longrightarrow> execute_seq ops calls eng w = ((rs, eng'), w')
     \<Longrightarrow> get_record ops (ee_ledger eng) eid = Some rec \<Longrightarrow> lr_status rec = LS_SUCCEEDED
     \<Longrightarrow> get_record ops (ee_ledger eng') eid = Some rec"
  using execute_seq_calls run_succeeded by metis

text \<open>
  A completion goes through exactly when the claim is still held; an abandonment closes the
  record exactly then, and otherwise leaves every record as it is.
\<close>

lemma complete_iff_owned:
  assumes "inv l" "er_status x \<in> {ES_SUCCEEDED, ES_FAILED}"
    and "c = (if er_status x = ES_SUCCEEDED then complete_succeeded ops l now eid x tok
              else complete_failed ops l now eid x tok)"
  shows "if owned (get_record ops l eid) tok
    then \<exists>l'. c = Inr l' \<and> get_record ops l' = (get_record ops l)(eid :=
           map_option (closed_record (if er_status x = ES_SUCCEEDED then LS_SUCCEEDED else LS_FAILED) (Some x))
             (get_record ops l eid))
    else \<exists>e. c = Inl e \<and> is_runtime_error e"
  using assms succeed_refines [OF assms(1), of now eid x tok] fail_refines [OF assms(1), of now eid x tok]
  by (cases "complete_succeeded ops l now eid x tok"; cases "complete_failed ops l now eid x tok")
    (auto simp: spec_complete_def raise_if_def norm_exn_def is_runtime_error_def split: if_splits)

lemma abandon_records:
  assumes "inv l"
  shows "get_record ops (case abandon ops l now eid tok of Inr l' \<Rightarrow> l' | Inl _ \<Rightarrow> l)
    = abandoned_by eid tok (get_record ops l)"
  using abandon_refines [OF assms, of now eid tok]
  by (cases "abandon ops l now eid tok")
    (auto simp: spec_abandon_def raise_if_def abandoned_by_def owned_def split: if_splits option.splits)

lemma abandoned_claimable: "claimable (map_option (closed_record LS_ABANDONED None) r) t"
  by (cases r) (simp_all add: claimable_def)

lemma others_inv: "inv l \<Longrightarrow> inv (others ops env i l)"
  by (simp add: others_def run_inv)

lemma finish_execution_cases:
  assumes "inv (ee_ledger eng)" "er_status x \<in> {ES_SUCCEEDED, ES_FAILED}"
    and "finish_execution ops now env eid tok x eng = (res, eng')"
    and "l1 = others ops env 0 (ee_ledger eng)" "l2 = others ops env 1 l1"
  obtains (recorded) "snd (env 0) = None" "owned (get_record ops l1 eid) tok" "res = Inr x" "ee_audit eng' = ee_audit eng @ [x]"
      "get_record ops (ee_ledger eng') = (get_record ops l1)(eid :=
         map_option (closed_record (if er_status x = ES_SUCCEEDED then LS_SUCCEEDED else LS_FAILED) (Some x)) (get_record ops l1 eid))"
    | (refused) e where "res = Inl e" "ee_audit eng' = ee_audit eng"
      "case snd (env 0) of None \<Rightarrow> is_runtime_error e \<and> \<not> owned (get_record ops l1 eid) tok | Some f \<Rightarrow> e = f"
      "get_record ops (ee_ledger eng')
         = (if snd (env 1) = None then abandoned_by eid tok (get_record ops l2) else get_record ops l2)"
proof -
  have inv: "inv l1" "inv l2" using assms(1,4,5) by (simp_all add: others_inv)
  define c where "c = (if er_status x = ES_SUCCEEDED then complete_succeeded ops l1 now eid x tok
    else complete_failed ops l1 now eid x tok)"
  note c = complete_iff_owned [OF inv(1) assms(2) c_def]
  have fin: "(res, eng') = (case db_write env 0 c of Inr l \<Rightarrow> record_result x (eng\<lparr>ee_ledger := l\<rparr>)
      | Inl e \<Rightarrow> (Inl e, eng\<lparr>ee_ledger := (case db_write env 1 (abandon ops l2 now eid tok) of Inr l \<Rightarrow> l | Inl _ \<Rightarrow> l2)\<rparr>))"
    using assms(3) unfolding finish_execution_def Let_def c_def assms(4,5) by simp
  show ?thesis
  proof (cases "snd (env 0) = None \<and> owned (get_record ops l1 eid) tok")
    case True
    with c fin show ?thesis by (intro recorded) (auto simp: db_write_def record_result_def)
  next
    case False
    with c obtain e where e: "db_write env 0 c = Inl e"
      "case snd (env 0) of None \<Rightarrow> is_runtime_error e \<and> \<not> owned (get_record ops l1 eid) tok | Some f \<Rightarrow> e = f"
      by (cases "snd (env 0)") (auto simp: db_write_def)
    with fin abandon_records [OF inv(2), of now eid tok] show ?thesis
      by (intro refused [of e]) (auto simp: db_write_def split: option.split)
  qed
qed

lemma acquired_record:
  assumes "inv l" "try_claim ops l now tok eid g r None = Inr (claim, l')" "co_kind claim = ACQUIRED"
  shows "\<exists>t. co_record claim = Some (pending_record eid g r t tok)
    \<and> get_record ops l' eid = Some (pending_record eid g r t tok) \<and> inv l'"
  using claim_refines [OF assms(1), of now tok eid g r None, symmetric] assms(2,3) claim_inv [OF assms(1,2)]
  by (auto simp: spec_claim_Inr refused_kind_def split: if_splits)

lemma succeeded_claim:
  assumes "inv l" "try_claim ops l now tok eid g r None = Inr (claim, l')"
    and "get_record ops l eid = Some rec" "lr_status rec = LS_SUCCEEDED"
  shows "co_kind claim = ALREADY_SUCCEEDED \<and> co_record claim = Some rec"
  using claim_refines [OF assms(1), of now tok eid g r None, symmetric] assms(2-4)
  by (auto simp: spec_claim_Inr refused_kind_def claimable_def split: if_splits)

text \<open>When the adapter runs, its result is returned, stored and audited.\<close>

lemma run_adapter_status: "run_adapter pf clk req dispatch d ad w = (x, w') \<Longrightarrow>
    er_status x \<in> {ES_SUCCEEDED, ES_FAILED} \<and> er_execution_id x = execution_id_for pf req d"
  by (auto simp: run_adapter_def build_result_def Let_def split: prod.splits sum.splits option.splits)

lemma runs_owner:
  assumes "inv l0" "try_claim ops l0 now fresh eid g r None = Inr (claim, l)"
    and "co_kind claim = ACQUIRED" "co_record claim = Some rec" "lr_fencing_token rec = Some tok" "tok \<noteq> []"
  shows "tok = fresh \<and> owned (get_record ops l eid) fresh \<and> inv l"
  using acquired_record [OF assms(1-3)] assms(4-6) by (auto simp: owned_def)

lemma runs_completes:
  assumes "inv (ee_ledger eng)"
    and "try_claim ops (ee_ledger eng) now fresh (execution_id_for pf req d) g r None = Inr (claim, l)"
    and "co_kind claim = ACQUIRED" "co_record claim = Some rec" "lr_fencing_token rec = Some tok" "tok \<noteq> []"
    and "run_adapter pf clk req dispatch d ad w = (x, w')"
    and "finish_execution ops now' env (execution_id_for pf req d) tok x (eng\<lparr>ee_ledger := l\<rparr>) = (Inr y, eng')"
  shows "y = x \<and> ee_audit eng' = ee_audit eng @ [x]
    \<and> (\<exists>rc. get_record ops (ee_ledger eng') (er_execution_id x) = Some rc \<and> lr_result rc = Some x
        \<and> lr_status rc = (if er_status x = ES_SUCCEEDED then LS_SUCCEEDED else LS_FAILED))"
proof -
  have "inv (ee_ledger (eng\<lparr>ee_ledger := l\<rparr>))" using runs_owner [OF assms(1-6)] by simp
  moreover have "er_status x \<in> {ES_SUCCEEDED, ES_FAILED}" using run_adapter_status [OF assms(7)] by simp
  ultimately show ?thesis
    using assms(8) refl refl
    by (cases rule: finish_execution_cases)
      (use run_adapter_status [OF assms(7)] in \<open>auto simp: owned_def split: option.splits\<close>)
qed

lemma execute_success_recorded:
  assumes "inv (ee_ledger eng)" "execute pf ops clk env fresh req auth eng w = ((Inr x, eng'), w')" "er_status x = ES_SUCCEEDED"
  shows "\<exists>rc. get_record ops (ee_ledger eng') (er_execution_id x) = Some rc \<and> lr_status rc = LS_SUCCEEDED \<and> lr_result rc = Some x"
  using assms(2)
proof (cases rule: execute_cases)
  case refused
  with assms(3) show ?thesis by (simp add: refusal_def)
next
  case (claimed g dispatch ad claim l)
  from claimed(3) show ?thesis
  proof (cases rule: claimed_cases)
    case rejects
    with assms(3) show ?thesis by (simp add: refusal_def)
  next
    case replays
    with assms(3) show ?thesis by (simp add: record_result_def replay_result_def)
  next
    case (runs rec tok y)
    with runs_completes [OF assms(1) claimed(2) runs(1-5) runs(6)] assms(3) show ?thesis by auto
  qed
qed

text \<open>What becomes of an adapter run; \<open>l\<close> is the ledger right after the claim.\<close>

lemma execute_closes:
  assumes "inv (ee_ledger eng)" "execute pf ops clk env fresh req auth eng w = ((r, eng'), w')" "w' \<noteq> w"
  shows "\<exists>g claim l l1 l2. auth = Grant g
    \<and> try_claim ops (ee_ledger eng) (clk 2) fresh (execution_id_for pf req (grant_decision g))
        (Some (grant_id g)) (Some (xr_request_id req)) None = Inr (claim, l) \<and> co_kind claim = ACQUIRED
    \<and> l1 = others ops env 0 l \<and> l2 = others ops env 1 l1
    \<and> (let eid = execution_id_for pf req (grant_decision g)
       in (\<exists>x. snd (env 0) = None \<and> owned (get_record ops l1 eid) fresh
            \<and> r = Inr x \<and> er_status x \<in> {ES_SUCCEEDED, ES_FAILED} \<and> er_execution_id x = eid
            \<and> ee_audit eng' = ee_audit eng @ [x]
            \<and> get_record ops (ee_ledger eng') = (get_record ops l1)(eid := map_option (closed_record
                 (if er_status x = ES_SUCCEEDED then LS_SUCCEEDED else LS_FAILED) (Some x)) (get_record ops l1 eid)))
        \<or> (\<exists>e. (case snd (env 0) of None \<Rightarrow> is_runtime_error e \<and> \<not> owned (get_record ops l1 eid) fresh | Some f \<Rightarrow> e = f)
            \<and> r = Inl e \<and> ee_audit eng' = ee_audit eng
            \<and> (if snd (env 1) = None \<and> owned (get_record ops l2 eid) fresh
               then get_record ops (ee_ledger eng') = (get_record ops l2)(eid := map_option (closed_record LS_ABANDONED None) (get_record ops l2 eid))
                 \<and> (\<forall>t. claimable (get_record ops (ee_ledger eng') eid) t)
               else get_record ops (ee_ledger eng') = get_record ops l2)))"
  using assms(2)
proof (cases rule: execute_cases)
  case refused
  with assms(3) show ?thesis by simp
next
  case (claimed g dispatch ad claim l)
  from claimed(3) show ?thesis
  proof (cases rule: claimed_cases)
    case (runs rec tok y)
    have o: "tok = fresh" "inv l" using runs_owner [OF assms(1) claimed(2) runs(1-4)] by simp_all
    have "inv (ee_ledger (eng\<lparr>ee_ledger := l\<rparr>))" using o by simp
    moreover have "er_status y \<in> {ES_SUCCEEDED, ES_FAILED}"
      using run_adapter_status [OF runs(5)] by simp
    ultimately show ?thesis
      using runs(6) refl refl
    proof (cases rule: finish_execution_cases)
      case recorded
      with run_adapter_status [OF runs(5)] o claimed(2) runs(1) admit_Inr [OF claimed(1)] show ?thesis by (simp add: Let_def)
    next
      case (refused e)
      with o claimed(2) runs(1) admit_Inr [OF claimed(1)] show ?thesis
        by (cases "snd (env 0)") (auto simp: Let_def abandoned_by_def abandoned_claimable)
    qed
  qed (use assms(3) in simp_all)
qed

text \<open>A call for an execution that has succeeded never reaches an adapter.\<close>

lemma execute_after_success:
  assumes "inv (ee_ledger eng)" "get_record ops (ee_ledger eng) (execution_id_for pf req (grant_decision g)) = Some rc"
    and "lr_status rc = LS_SUCCEEDED" "lr_result rc = Some x"
    and "execute pf ops clk env fresh req (Grant g) eng w = ((r, eng'), w')"
  shows "w' = w \<and> (case r of Inl e \<Rightarrow> True | Inr y \<Rightarrow> er_status y = ES_REJECTED
      \<or> y = replay_result pf (clk 5) x)"
  using assms(5)
proof (cases rule: execute_cases)
  case refused
  then show ?thesis by (auto simp: refusal_def split: sum.splits)
next
  case (claimed g' dispatch ad claim l)
  have "g' = g" using admit_Inr [OF claimed(1)] by simp
  with claimed(2) have c: "co_kind claim = ALREADY_SUCCEEDED" "co_record claim = Some rc"
    using succeeded_claim [OF assms(1) _ assms(2,3)] by blast+
  from claimed(3) show ?thesis
  proof (cases rule: claimed_cases)
    case rejects
    then show ?thesis by (auto simp: refusal_def split: sum.splits)
  next
    case replays
    with c assms(4) show ?thesis by (simp add: record_result_def)
  qed (use c in simp)
qed

end

subsection \<open>Properties\<close>

text \<open>
  Property (safety).  An adapter acts on the world only under a grant that verifies and is bound
  to this very request at both checks of the engine, whose decision is \<open>allow\<close>, and whose
  execution identifier the caller has just acquired in the ledger.  A missing authority and
  a bare decision never get there.
\<close>

theorem adapter_requires_bound_grant:
  assumes "execute pf ops clk env fresh req auth eng w = ((r, eng'), w')" "w' \<noteq> w"
  shows "\<exists>g claim l. auth = Grant g \<and> grant_fields g = request_fields req \<and> g_decision g = ''allow''
    \<and> verify_grant pf (clk 0) g None = Inr True \<and> verify_grant pf (clk 1) g None = Inr True
    \<and> try_claim ops (ee_ledger eng) (clk 2) fresh (execution_id_for pf req (grant_decision g))
         (Some (grant_id g)) (Some (xr_request_id req)) None = Inr (claim, l)
    \<and> co_kind claim = ACQUIRED"
  using assms(1)
proof (cases rule: execute_cases)
  case refused
  with assms(2) show ?thesis by simp
next
  case (claimed g dispatch ad claim l)
  from claimed(3) have "co_kind claim = ACQUIRED"
    by (cases rule: claimed_cases) (use assms(2) in simp_all)
  with claimed(2) admit_Inr [OF claimed(1)] show ?thesis by (auto simp: binds_True)
qed

text \<open>
  Property (the adapter's own check).  The handler of a \<open>StaticExecutionAdapter\<close> runs only if the
  dispatch was issued for this request and its grant still verifies and binds when the
  adapter is called.
\<close>

theorem static_handler_requires_dispatch:
  assumes "static_execute describe handler pf (t, t') req dispatch w = (out, w')" "w' \<noteq> w"
  shows "dispatch_token dispatch \<and> gd_request dispatch = req \<and> verify_grant pf t (gd_grant dispatch) None = Inr True
    \<and> binds pf t' (gd_grant dispatch) (request_fields req) None = Inr True"
  using assms
  by (auto simp: static_execute_def is_verified_def bind_res_Inr_iff split: sum.splits if_splits prod.splits)

text \<open>
  C24 (idempotence).  With the durable ledger: once a call has returned a SUCCEEDED result,
  then after any further calls, a call for the same execution identifier does not touch
  the world, and what it returns is a rejection or the replay of the first result, with
  the same output.  Between a claim and its completion other workers may call the ledger, one
  call at a time; a worker inside a completion is the subject of
  \<open>stale_completion_overwrites\<close>.
\<close>

theorem success_never_reexecuted:
  assumes "sql_inv (ee_ledger eng)" "execute pf sql_ops clk env fresh req (Grant g) eng w = ((Inr x, eng1), w1)"
    and "er_status x = ES_SUCCEEDED" "execute_seq sql_ops calls eng1 w1 = ((rs, eng2), w2)"
    and "execution_id_for pf' req' (grant_decision g') = er_execution_id x"
    and "execute pf' sql_ops clk' env' fresh' req' (Grant g') eng2 w2 = ((r, eng3), w3)"
  shows "w3 = w2 \<and> (\<forall>y. r = Inr y \<longrightarrow> er_status y = ES_REJECTED
      \<or> er_status y = ES_REPLAYED \<and> er_output y = er_output x \<and> er_execution_id y = er_execution_id x)"
proof -
  obtain rc where rc: "sql_lookup (ee_ledger eng1) (er_execution_id x) = Some rc" "lr_status rc = LS_SUCCEEDED" "lr_result rc = Some x"
    using sql.execute_success_recorded [OF assms(1-3)] by auto
  have i1: "sql_inv (ee_ledger eng1)" using sql.execute_inv [OF assms(1,2)] .
  have "sql_lookup (ee_ledger eng2) (execution_id_for pf' req' (grant_decision g')) = Some rc"
    using sql.execute_seq_succeeded [OF i1 assms(4)] rc(1,2) assms(5) by simp
  with sql.execute_after_success [OF sql.execute_seq_inv [OF i1 assms(4)] _ rc(2,3) assms(6)]
  show ?thesis by (auto simp: replay_result_def split: sum.splits)
qed

text \<open>
  C36 (what becomes of an adapter run).  An adapter runs only after its claim was acquired
  under the fresh token; \<open>l1\<close> is the durable ledger when the completion reaches it, after
  whatever calls other workers made meanwhile, \<open>l2\<close> when \<open>abandon\<close> does.  If the claim
  is still held at \<open>l1\<close> and the database does not fail, the call returns a SUCCEEDED or
  FAILED result, which is stored as the record of the execution and audited.  If the claim
  was lost, the call raises a \<open>RuntimeError\<close>; if the database fails, its exception is
  raised.  Then nothing is audited, and the only record the call can still change is its
  own, if it holds it at \<open>l2\<close>: it becomes ABANDONED with no result, and the next call can claim
  the execution at once and run the adapter again.
\<close>

theorem adapter_run_outcome:
  assumes "sql_inv (ee_ledger eng)" "execute pf sql_ops clk env fresh req auth eng w = ((r, eng'), w')" "w' \<noteq> w"
  shows "\<exists>g claim l l1 l2. auth = Grant g
    \<and> sql_try_claim (ee_ledger eng) (clk 2) fresh (execution_id_for pf req (grant_decision g))
        (Some (grant_id g)) (Some (xr_request_id req)) None = Inr (claim, l) \<and> co_kind claim = ACQUIRED
    \<and> l1 = others sql_ops env 0 l \<and> l2 = others sql_ops env 1 l1
    \<and> (let eid = execution_id_for pf req (grant_decision g)
       in (\<exists>x. snd (env 0) = None \<and> owned (sql_lookup l1 eid) fresh
            \<and> r = Inr x \<and> er_status x \<in> {ES_SUCCEEDED, ES_FAILED} \<and> er_execution_id x = eid
            \<and> ee_audit eng' = ee_audit eng @ [x]
            \<and> sql_lookup (ee_ledger eng') = (sql_lookup l1)(eid := map_option (closed_record
                 (if er_status x = ES_SUCCEEDED then LS_SUCCEEDED else LS_FAILED) (Some x)) (sql_lookup l1 eid)))
        \<or> (\<exists>e. (case snd (env 0) of None \<Rightarrow> is_runtime_error e \<and> \<not> owned (sql_lookup l1 eid) fresh | Some f \<Rightarrow> e = f)
            \<and> r = Inl e \<and> ee_audit eng' = ee_audit eng
            \<and> (if snd (env 1) = None \<and> owned (sql_lookup l2 eid) fresh
               then sql_lookup (ee_ledger eng') = (sql_lookup l2)(eid := map_option (closed_record LS_ABANDONED None) (sql_lookup l2 eid))
                 \<and> (\<forall>t. claimable (sql_lookup (ee_ledger eng') eid) t)
               else sql_lookup (ee_ledger eng') = sql_lookup l2)))"
  using sql.execute_closes [OF assms] unfolding sql_ops_sel .

lemma option_text_cases:
  "[] \<notin> T \<Longrightarrow> f [] = [] \<Longrightarrow> f (case v of None \<Rightarrow> [] | Some e \<Rightarrow> e) \<in> T \<longleftrightarrow> map_option f v \<in> Some ` T" for T :: "str set"
  by (cases v) auto

lemma register_all_error: "register_all ads eng = Inl e \<Longrightarrow> e = ValueError"
  by (induction ads arbitrary: eng) (auto simp: register_adapter_def raise_if_def bind_res_def split: sum.splits if_splits)

text \<open>
  C39 (two notions of production).  Without a configured signing key, an environment in
  which the execution engine insists on a durable ledger, as production does, and grants
  are still signed with the fallback key of 32 ASCII zeros, with which anyone can sign one,
  is exactly this: \<open>DOR_ENV\<close> in lower case is not \<open>production\<close>, but becomes it when blanks
  around it are dropped, or \<open>IS_PRODUCTION\<close> says 1, true, yes or on, whatever its case and
  blanks.
\<close>

theorem production_flag_uses_fallback_key:
  assumes "DOR_AUTHORITY_SIGNING_KEY pf = None"
  shows "(new_execution_engine pf True l ads = Inl RuntimeError \<and> load_signing_key pf = Inr (replicate 32 (CHR ''0'')))
    \<longleftrightarrow> (DOR_ENV pf = None \<or> map lower_char (the (DOR_ENV pf)) \<noteq> ''production'')
      \<and> (map_option (\<lambda>e. map lower_char (strip e)) (DOR_ENV pf) = Some ''production''
        \<or> map_option (\<lambda>e. map lower_char (strip e)) (IS_PRODUCTION pf) \<in> Some ` {''1'', ''true'', ''yes'', ''on''})"
proof -
  have l: "map lower_char (strip []) = []" "map lower_char ''development'' \<noteq> ''production''"
    by code_simp+
  have engine: "new_execution_engine pf True l ads = Inl RuntimeError \<longleftrightarrow> production_env pf"
    by (auto simp: new_execution_engine_def raise_if_def dest: register_all_error)
  have key: "load_signing_key pf = Inr (replicate 32 (CHR ''0''))
      \<longleftrightarrow> DOR_ENV pf = None \<or> map lower_char (the (DOR_ENV pf)) \<noteq> ''production''"
    using assms l by (auto simp: load_signing_key_def Let_def split: option.split)
  have flag: "production_env pf \<longleftrightarrow> map_option (\<lambda>e. map lower_char (strip e)) (DOR_ENV pf) = Some ''production''
      \<or> map_option (\<lambda>e. map lower_char (strip e)) (IS_PRODUCTION pf) \<in> Some ` {''1'', ''true'', ''yes'', ''on''}"
    using option_text_cases [of "{''production''}" "\<lambda>e. map lower_char (strip e)" "DOR_ENV pf"]
      option_text_cases [of "{''1'', ''true'', ''yes'', ''on''}" "\<lambda>e. map lower_char (strip e)" "IS_PRODUCTION pf"] l(1)
    by (simp add: production_env_def)
  show ?thesis unfolding engine key flag by (rule conj_commute)
qed

subsection \<open>A concrete execution\<close>

definition demo_raw_grant :: authority_grant where
  "demo_raw_grant =
     \<lparr>g_request_id = ''q1'', g_agent_identity = ''agent'', g_action = ''deploy'', g_resource = ''svc/web'',
      g_context_packet_id = ''c1'', g_policy_id = ''p'', g_policy_version = ''1'', g_matched_rule_ids = [''r1''],
      g_decision = ''allow'', g_parameters = [], g_organization_id = Some ''org'', g_actor_id = None,
      g_capability = None, issuer_id = ISSUER_ID, grant_id = ''g1'', issued_at = int_str 1000000,
      expires_at = int_str 61000000, g_signature = []\<rparr>"

definition demo_grant :: authority_grant where
  "demo_grant = demo_raw_grant\<lparr>g_signature := hmac_sha256_hex demo_platform (replicate 32 (CHR ''0''))
     (canonical_bytes ''authority-grant'' (signed_payload demo_raw_grant))\<rparr>"

definition demo_xreq :: execution_request where
  "demo_xreq =
     \<lparr>xr_request_id = ''q1'', xr_agent_identity = ''agent'', xr_action = ''deploy'', xr_resource = ''svc/web'',
      xr_context_packet_id = ''c1'', xr_organization_id = ''org'', xr_parameters = [], idempotency_key = None,
      xr_actor_id = None, xr_capability = None\<rparr>"

text \<open>An adapter that counts how often its handler runs.\<close>

definition demo_adapter :: "nat adapter" where
  "demo_adapter = \<lparr>adapter_id = ''ad'', adapter_action = ''deploy'',
     adapter_execute = static_execute (\<lambda>e. []) (\<lambda>req w. (HMapping [(''status'', ''ok'')], Suc w))\<rparr>"

definition demo_exec_engine :: "(sql_ledger, nat) execution_engine" where
  "demo_exec_engine = \<lparr>ee_adapters = [(''deploy'', demo_adapter)], ee_ledger = demo_sql [], ee_audit = []\<rparr>"

abbreviation demo_clk :: "nat \<Rightarrow> time" where
  "demo_clk \<equiv> \<lambda>_. 2000000"

lemma demo_grant_verifies: "1000000 \<le> t \<Longrightarrow> t < 61000000 \<Longrightarrow> verify_grant demo_platform t demo_grant None = Inr True"
proof -
  assume t: "1000000 \<le> t" "t < 61000000"
  have "signature_for demo_platform ''authority-grant'' (signed_payload demo_grant) = Inr (g_signature demo_grant)"
    by (simp add: signature_for_def demo_key demo_grant_def)
  with t signature_for_hex [OF demo_platform_digests this] show ?thesis
    by (simp add: verify_grant_True) (simp add: demo_grant_def demo_raw_grant_def aware_utc_def parse_timestamp_def)
qed

lemma demo_grant_binds: "binds demo_platform 2000000 demo_grant (request_fields demo_xreq) None = Inr True"
  by (simp add: binds_True demo_grant_verifies)
    (simp add: grant_fields_def request_fields_def demo_grant_def demo_raw_grant_def demo_xreq_def)

text \<open>Any grant that is bound to the request during the run gets the adapter invoked once.\<close>

definition demo_usable :: "authority_grant \<Rightarrow> bool" where
  "demo_usable g \<longleftrightarrow> verify_grant demo_platform 2000000 g None = Inr True \<and> grant_fields g = request_fields demo_xreq
     \<and> g_decision g = ''allow'' \<and> check_decision (grant_decision g) = Inr (grant_decision g)"

lemma demo_admit:
  assumes "demo_usable g"
  shows "admit demo_platform sql_ops demo_clk demo_xreq (Grant g) demo_exec_engine
    = Inr (g, grant_decision g, \<lparr>gd_request = demo_xreq, gd_grant = g, dispatch_token = True\<rparr>, demo_adapter)"
proof -
  have "binds demo_platform 2000000 g (request_fields demo_xreq) None = Inr True"
    using assms by (simp add: binds_True demo_usable_def)
  moreover have "xr_action demo_xreq = ''deploy''" "xr_organization_id demo_xreq = ''org''"
    by (simp_all add: demo_xreq_def)
  ultimately show ?thesis
    using assms by (simp add: admit_def issue_dispatch_def demo_usable_def demo_exec_engine_def demo_sql_def)
qed

lemma demo_exec_claim:
  assumes "demo_usable g"
  shows "\<exists>claim l rec. sql_try_claim (demo_sql []) 2000000 ''T'' (execution_id_for demo_platform demo_xreq (grant_decision g))
      (Some (grant_id g)) (Some (xr_request_id demo_xreq)) None = Inr (claim, l) \<and> co_kind claim = ACQUIRED
    \<and> co_record claim = Some rec \<and> lr_fencing_token rec = Some ''T''"
proof -
  let ?eid = "execution_id_for demo_platform demo_xreq (grant_decision g)"
  have "\<not> blank ?eid"
    using demo_platform_digests by (simp add: execution_id_for_def hex_digests_def)
  then have "\<not> blank ?eid" "?eid \<noteq> []" using blank_Nil by metis+
  then show ?thesis
    by (auto simp: sql_try_claim_def aware_utc_def datetime_range_def sql_claim_commit_def Let_def demo_sql_def get_row_def)
qed

lemma demo_run_adapter:
  assumes "demo_usable g"
  shows "\<exists>x. run_adapter demo_platform demo_clk demo_xreq \<lparr>gd_request = demo_xreq, gd_grant = g, dispatch_token = True\<rparr>
      (grant_decision g) demo_adapter 0 = (x, 1) \<and> er_status x = ES_SUCCEEDED"
proof -
  have "verify_grant demo_platform 2000000 g None = Inr True" "binds demo_platform 2000000 g (request_fields demo_xreq) None = Inr True"
    using assms by (simp_all add: binds_True demo_usable_def)
  then show ?thesis
    by (simp add: run_adapter_def demo_adapter_def static_execute_def is_verified_def build_result_def Let_def)
qed

lemma demo_execution_world:
  assumes "demo_usable g"
  shows "\<exists>r eng1. execute demo_platform sql_ops demo_clk env ''T'' demo_xreq (Grant g) demo_exec_engine 0 = ((r, eng1), 1)
    \<and> (env = alone \<longrightarrow> (\<exists>x. r = Inr x \<and> er_status x = ES_SUCCEEDED
         \<and> er_execution_id x = execution_id_for demo_platform demo_xreq (grant_decision g)))"
proof -
  let ?eid = "execution_id_for demo_platform demo_xreq (grant_decision g)"
  obtain claim l rec where c: "sql_try_claim (demo_sql []) 2000000 ''T'' ?eid (Some (grant_id g)) (Some (xr_request_id demo_xreq)) None
      = Inr (claim, l)" "co_kind claim = ACQUIRED" "co_record claim = Some rec" "lr_fencing_token rec = Some ''T''"
    using demo_exec_claim [OF assms] by blast
  obtain x where x: "run_adapter demo_platform demo_clk demo_xreq \<lparr>gd_request = demo_xreq, gd_grant = g, dispatch_token = True\<rparr>
      (grant_decision g) demo_adapter 0 = (x, 1)" "er_status x = ES_SUCCEEDED"
    using demo_run_adapter [OF assms] by blast
  obtain res eng1 where f: "finish_execution sql_ops 2000000 env ?eid ''T'' x (demo_exec_engine\<lparr>ee_ledger := l\<rparr>) = (res, eng1)"
    by fastforce
  have inv: "sql_inv (ee_ledger demo_exec_engine)" by (simp add: demo_exec_engine_def demo_sql_inv)
  have c': "try_claim sql_ops (ee_ledger demo_exec_engine) 2000000 ''T'' ?eid (Some (grant_id g))
      (Some (xr_request_id demo_xreq)) None = Inr (claim, l)"
    using c(1) by (simp add: demo_exec_engine_def)
  have o: "owned (sql_lookup l ?eid) ''T''" "sql_inv l"
    using sql.runs_owner [OF inv c' c(2,3,4)] by simp_all
  have "env = alone \<longrightarrow> res = Inr x"
  proof
    assume env: "env = alone"
    have "sql_inv (ee_ledger (demo_exec_engine\<lparr>ee_ledger := l\<rparr>))" "er_status x \<in> {ES_SUCCEEDED, ES_FAILED}"
      using o x by simp_all
    then show "res = Inr x"
      using f refl refl by (cases rule: sql.finish_execution_cases) (use o env in \<open>simp_all add: alone_def others_def\<close>)
  qed
  with demo_admit [OF assms] c' c x f sql.run_adapter_status [OF x(1)] show ?thesis
    by (simp add: execute_def claimed_execution_def)
qed

lemma demo_execution_of:
  assumes "demo_usable g"
  shows "\<exists>x eng1. execute demo_platform sql_ops demo_clk alone ''T'' demo_xreq (Grant g) demo_exec_engine 0 = ((Inr x, eng1), 1)
     \<and> er_status x = ES_SUCCEEDED \<and> er_execution_id x = execution_id_for demo_platform demo_xreq (grant_decision g)"
  using demo_execution_world [OF assms, of alone] by blast

lemma demo_grant_usable: "demo_usable demo_grant"
proof -
  have "g_decision demo_grant = ''allow''" "check_decision (grant_decision demo_grant) = Inr (grant_decision demo_grant)"
    by (simp_all add: demo_grant_def demo_raw_grant_def check_decision_def grant_decision_def blank_iff is_space_def
        unique_keys_iff)
  with demo_grant_binds show ?thesis by (simp add: demo_usable_def binds_True)
qed

lemmas demo_execution = demo_execution_of [OF demo_grant_usable]

theorem adapter_requires_bound_grant_witness:
  "\<exists>r eng1. execute demo_platform sql_ops demo_clk alone ''T'' demo_xreq (Grant demo_grant) demo_exec_engine 0 = ((r, eng1), 1)
     \<and> verify_grant demo_platform 2000000 demo_grant None = Inr True"
proof -
  obtain x eng1 where e: "execute demo_platform sql_ops demo_clk alone ''T'' demo_xreq (Grant demo_grant) demo_exec_engine 0 = ((Inr x, eng1), 1)"
    using demo_execution by blast
  from adapter_requires_bound_grant [OF e] e show ?thesis by auto
qed

theorem static_handler_requires_dispatch_witness:
  "\<exists>out. static_execute (\<lambda>e. []) (\<lambda>req w. (HMapping [], Suc w)) demo_platform (2000000, 2000000) demo_xreq
       \<lparr>gd_request = demo_xreq, gd_grant = demo_grant, dispatch_token = True\<rparr> 0 = (out, 1)
     \<and> binds demo_platform 2000000 demo_grant (request_fields demo_xreq) None = Inr True"
proof -
  have e: "static_execute (\<lambda>e. []) (\<lambda>req w. (HMapping [], Suc w)) demo_platform (2000000, 2000000) demo_xreq
      \<lparr>gd_request = demo_xreq, gd_grant = demo_grant, dispatch_token = True\<rparr> 0 = (Inr (Some (sorted_items [])), 1)"
    by (simp add: static_execute_def is_verified_def demo_grant_verifies demo_grant_binds)
  from static_handler_requires_dispatch [OF e] e show ?thesis by simp
qed

theorem success_never_reexecuted_witness:
  "\<exists>x eng1 r eng2. execute demo_platform sql_ops demo_clk alone ''T'' demo_xreq (Grant demo_grant) demo_exec_engine 0 = ((Inr x, eng1), 1)
     \<and> execute demo_platform sql_ops demo_clk alone ''U'' demo_xreq (Grant demo_grant) eng1 1 = ((r, eng2), 1)"
proof -
  obtain x eng1 where e: "execute demo_platform sql_ops demo_clk alone ''T'' demo_xreq (Grant demo_grant) demo_exec_engine 0 = ((Inr x, eng1), 1)"
    "er_status x = ES_SUCCEEDED" "execution_id_for demo_platform demo_xreq (grant_decision demo_grant) = er_execution_id x"
    using demo_execution by metis
  obtain r eng2 w2 where e2: "execute demo_platform sql_ops demo_clk alone ''U'' demo_xreq (Grant demo_grant) eng1 1 = ((r, eng2), w2)"
    by (metis prod.collapse)
  have "sql_inv (ee_ledger demo_exec_engine)" by (simp add: demo_exec_engine_def demo_sql_inv)
  from success_never_reexecuted [OF this e(1,2) execute_seq.simps(1) e(3) e2] e(1) e2 show ?thesis by auto
qed

text \<open>The database fails at the completion; the claim is abandoned and free again.\<close>

abbreviation failing_commit :: ledger_env where
  "failing_commit \<equiv> \<lambda>i. ([], if i = 0 then Some StaleDataError else None)"

theorem adapter_run_outcome_witness:
  "\<exists>eng1. execute demo_platform sql_ops demo_clk failing_commit ''T'' demo_xreq (Grant demo_grant) demo_exec_engine 0
       = ((Inl StaleDataError, eng1), 1)
     \<and> ee_audit eng1 = []"
proof -
  obtain r eng1 where e: "execute demo_platform sql_ops demo_clk failing_commit ''T'' demo_xreq (Grant demo_grant) demo_exec_engine 0
      = ((r, eng1), 1)"
    using demo_execution_world [OF demo_grant_usable, of failing_commit] by blast
  have "sql_inv (ee_ledger demo_exec_engine)" by (simp add: demo_exec_engine_def demo_sql_inv)
  from adapter_run_outcome [OF this e] have "r = Inl StaleDataError \<and> ee_audit eng1 = ee_audit demo_exec_engine"
    by (auto simp: Let_def)
  with e show ?thesis by (simp add: demo_exec_engine_def)
qed

theorem production_flag_uses_fallback_key_witness:
  "new_execution_engine (demo_platform\<lparr>DOR_ENV := None, IS_PRODUCTION := Some '' Yes ''\<rparr>) True (demo_sql []) [demo_adapter]
     = Inl RuntimeError
   \<and> load_signing_key (demo_platform\<lparr>DOR_ENV := None, IS_PRODUCTION := Some '' Yes ''\<rparr>) = Inr (replicate 32 (CHR ''0''))"
proof -
  have "map lower_char (strip '' Yes '') = ''yes''" "map lower_char ''development'' \<noteq> ''production''"
    by code_simp+
  with production_flag_uses_fallback_key [of "demo_platform\<lparr>DOR_ENV := None, IS_PRODUCTION := Some '' Yes ''\<rparr>"
      "demo_sql []" "[demo_adapter]"] show ?thesis by simp
qed

end
