(* ===== verification/Outcome_Engine.thy ===== *)
theory Outcome_Engine
  imports Execution_Models
begin

section \<open>Outcomes (\<open>phase4/outcome/models.py\<close>, \<open>engine.py\<close>)\<close>

text \<open>
  The \<open>OutcomeEngine\<close> turns execution results into immutable outcome records, once per
  outcome identifier.  The identifier is a digest of the execution, the status, the
  output, the error and the state transitions; the lemmas show that processing is
  idempotent, that a stored record never changes, and that the record which is returned
  describes the result that was passed in, unless the digest collides.
\<close>

datatype outcome_status = OS_SUCCEEDED | OS_FAILED | OS_REJECTED | OS_REPLAYED | OS_UNKNOWN

fun outcome_status_value :: "outcome_status \<Rightarrow> str" where
  "outcome_status_value OS_SUCCEEDED = ''succeeded''"
| "outcome_status_value OS_FAILED = ''failed''"
| "outcome_status_value OS_REJECTED = ''rejected''"
| "outcome_status_value OS_REPLAYED = ''replayed''"
| "outcome_status_value OS_UNKNOWN = ''unknown''"

record state_transition =
  subject_id :: str
  from_state :: str
  to_state :: str

record outcome_record =
  outcome_id :: str
  oc_execution_id :: str
  oc_request_id :: str
  oc_status :: outcome_status
  transitions :: "state_transition list"
  provenance_id :: str
  produced_at :: str
  oc_error :: "str option"

definition outcome_terminal :: "outcome_record \<Rightarrow> bool" where
  "outcome_terminal rec \<longleftrightarrow> oc_status rec \<noteq> OS_UNKNOWN"

text \<open>The dictionary lookup has no entry for ABANDONED.\<close>

definition outcome_status_for :: "execution_result \<Rightarrow> bool \<Rightarrow> outcome_status result" where
  "outcome_status_for r unknown =
     (if unknown then Inr OS_UNKNOWN
      else case er_status r of
             ES_SUCCEEDED \<Rightarrow> Inr OS_SUCCEEDED
           | ES_FAILED \<Rightarrow> Inr OS_FAILED
           | ES_REJECTED \<Rightarrow> Inr OS_REJECTED
           | ES_REPLAYED \<Rightarrow> Inr OS_REPLAYED
           | ES_ABANDONED \<Rightarrow> Inl KeyError)"

definition transition_json :: "state_transition \<Rightarrow> json" where
  "transition_json t =
     JObj [(''subject_id'', JStr (subject_id t)), (''from_state'', JStr (from_state t)), (''to_state'', JStr (to_state t))]"

definition outcome_payload :: "execution_result \<Rightarrow> outcome_status \<Rightarrow> state_transition list \<Rightarrow> json" where
  "outcome_payload r st ts =
     JObj [(''execution_id'', JStr (er_execution_id r)), (''status'', JStr (outcome_status_value st)),
           (''adapter_id'', JStr (er_adapter_id r)), (''output'', jpairs (er_output r)),
           (''error'', jopt (er_error r)), (''transitions'', JArr (map transition_json ts))]"

definition outcome_id_for :: "platform \<Rightarrow> execution_result \<Rightarrow> outcome_status \<Rightarrow> state_transition list \<Rightarrow> str" where
  "outcome_id_for pf r st ts = sha256_hex pf (utf8 (dumps True (outcome_payload r st ts)))"

definition provenance_id_for :: "platform \<Rightarrow> execution_result \<Rightarrow> str" where
  "provenance_id_for pf r = sha256_hex pf (utf8 (dumps True
     (JObj [(''execution_id'', JStr (er_execution_id r)), (''request_id'', JStr (er_request_id r)),
            (''authority_policy_id'', JStr (er_policy_id r)), (''authority_policy_version'', JStr (er_policy_version r))])))"

definition ALLOWED_STATES :: "str set" where
  "ALLOWED_STATES = {''pending'', ''confirmed''}"

definition validate_transition ::
  "execution_result \<Rightarrow> (str \<times> str) option \<Rightarrow> outcome_status \<Rightarrow> state_transition list result" where
  "validate_transition r transition st =
     (case transition of
        None \<Rightarrow> Inr []
      | Some (src, dst) \<Rightarrow>
          raise_if (st \<noteq> OS_SUCCEEDED) ValueError
          (raise_if (src \<notin> ALLOWED_STATES) ValueError
          (raise_if (dst \<notin> ALLOWED_STATES) ValueError
          (raise_if ((src, dst) \<noteq> (''pending'', ''confirmed'')) ValueError
            (Inr [\<lparr>subject_id = er_resource r, from_state = src, to_state = dst\<rparr>])))))"

type_synonym outcome_engine = "(str, outcome_record) dict"

definition process ::
  "platform \<Rightarrow> execution_result \<Rightarrow> (str \<times> str) option \<Rightarrow> bool \<Rightarrow> outcome_engine
     \<Rightarrow> (outcome_record \<times> outcome_engine) result" where
  "process pf r transition force_unknown eng =
     bind_res (outcome_status_for r force_unknown) (\<lambda>st.
     bind_res (validate_transition r transition st) (\<lambda>ts.
       let oid = outcome_id_for pf r st ts
       in case dict_get eng oid of
            Some existing \<Rightarrow> Inr (existing, eng)
          | None \<Rightarrow>
              (let rec = \<lparr>outcome_id = oid, oc_execution_id = er_execution_id r, oc_request_id = er_request_id r,
                          oc_status = st, transitions = ts, provenance_id = provenance_id_for pf r,
                          produced_at = executed_at r, oc_error = er_error r\<rparr>
               in Inr (rec, dict_set oid rec eng))))"

definition get_outcome :: "outcome_engine \<Rightarrow> str \<Rightarrow> outcome_record option" where
  "get_outcome eng oid = dict_get eng oid"

subsection \<open>Identity of outcomes\<close>

lemma outcome_status_value_inject [simp]: "outcome_status_value a = outcome_status_value b \<longleftrightarrow> a = b"
  by (cases a; cases b) simp_all

lemma canon_transition_inject: "canon (transition_json s) = canon (transition_json t) \<longleftrightarrow> s = t"
  unfolding transition_json_def by (cases s; cases t) (subst canon_JObj_inject, auto)

lemma outcome_payload_inject:
  assumes "canon (outcome_payload r st ts) = canon (outcome_payload q su us)"
  shows "er_execution_id r = er_execution_id q \<and> st = su \<and> er_adapter_id r = er_adapter_id q
    \<and> er_output r = er_output q \<and> er_error r = er_error q \<and> ts = us"
proof -
  have ts: "map (\<lambda>t. canon (transition_json t)) ts = map (\<lambda>t. canon (transition_json t)) us \<longleftrightarrow> ts = us"
    by (rule inj_map_eq_map) (simp add: inj_def canon_transition_inject)
  show ?thesis
    using assms unfolding outcome_payload_def
    by (subst (asm) canon_JObj_inject) (simp_all add: comp_def ts)
qed

lemma outcome_id_inject:
  assumes "outcome_id_for pf r st ts = outcome_id_for pf q su us"
  shows "(er_execution_id r = er_execution_id q \<and> st = su \<and> er_adapter_id r = er_adapter_id q
      \<and> er_output r = er_output q \<and> er_error r = er_error q \<and> ts = us)
    \<or> sha_collides pf (outcome_payload r st ts) (outcome_payload q su us)"
  using assms outcome_payload_inject [of r st ts q su us] by (auto simp: outcome_id_for_def digest_inject)

subsection \<open>The store\<close>

text \<open>Every record was made from one of the results that were processed.\<close>

definition outcome_inv :: "platform \<Rightarrow> execution_result set \<Rightarrow> outcome_engine \<Rightarrow> bool" where
  "outcome_inv pf R eng \<longleftrightarrow> (\<forall>oid rec. dict_get eng oid = Some rec \<longrightarrow>
     outcome_id rec = oid \<and> (\<exists>r\<in>R. oid = outcome_id_for pf r (oc_status rec) (transitions rec)
       \<and> oc_execution_id rec = er_execution_id r \<and> oc_error rec = er_error r))"

lemma process_Inr:
  assumes "process pf r tr fu eng = Inr (rec, eng')"
  obtains st ts where "outcome_status_for r fu = Inr st" "validate_transition r tr st = Inr ts"
    "dict_get eng' (outcome_id_for pf r st ts) = Some rec"
    "\<forall>i. dict_get eng i \<noteq> None \<longrightarrow> dict_get eng' i = dict_get eng i"
    "dict_get eng (outcome_id_for pf r st ts) = Some rec \<and> eng' = eng
     \<or> dict_get eng (outcome_id_for pf r st ts) = None \<and> eng' = dict_set (outcome_id_for pf r st ts) rec eng
       \<and> outcome_id rec = outcome_id_for pf r st ts \<and> oc_status rec = st \<and> transitions rec = ts
       \<and> oc_execution_id rec = er_execution_id r \<and> oc_error rec = er_error r"
proof -
  obtain st ts where p: "outcome_status_for r fu = Inr st" "validate_transition r tr st = Inr ts"
    using assms by (auto simp: process_def bind_res_Inr_iff)
  with assms that [OF p] show ?thesis
    by (cases "dict_get eng (outcome_id_for pf r st ts)") (auto simp: process_def Let_def)
qed

lemma process_inv: "outcome_inv pf R eng \<Longrightarrow> process pf r tr fu eng = Inr (rec, eng') \<Longrightarrow> outcome_inv pf (insert r R) eng'"
proof (erule process_Inr, elim disjE conjE)
  fix st ts assume inv: "outcome_inv pf R eng"
  show "outcome_inv pf (insert r R) eng'" if "eng' = eng" using inv that by (auto simp: outcome_inv_def)
  assume rec: "eng' = dict_set (outcome_id_for pf r st ts) rec eng" "outcome_id rec = outcome_id_for pf r st ts"
    "oc_status rec = st" "transitions rec = ts" "oc_execution_id rec = er_execution_id r" "oc_error rec = er_error r"
  show "outcome_inv pf (insert r R) eng'"
    unfolding outcome_inv_def
  proof (intro allI impI)
    fix oid x assume x: "dict_get eng' oid = Some x"
    show "outcome_id x = oid \<and> (\<exists>r\<in>insert r R. oid = outcome_id_for pf r (oc_status x) (transitions x)
        \<and> oc_execution_id x = er_execution_id r \<and> oc_error x = er_error r)"
    proof (cases "oid = outcome_id_for pf r st ts")
      case False
      with x rec(1) have "dict_get eng oid = Some x" by simp
      with inv show ?thesis unfolding outcome_inv_def by blast
    qed (use x rec in simp)
  qed
qed

text \<open>A sequence of calls; one that raises leaves the store as it was.\<close>

definition process_step ::
  "platform \<Rightarrow> outcome_engine \<Rightarrow> execution_result \<times> (str \<times> str) option \<times> bool \<Rightarrow> outcome_engine" where
  "process_step pf eng c =
     (case process pf (fst c) (fst (snd c)) (snd (snd c)) eng of Inl e \<Rightarrow> eng | Inr (rec, eng') \<Rightarrow> eng')"

lemma process_step_keeps:
  "dict_get eng i = Some rec \<Longrightarrow> dict_get (process_step pf eng c) i = Some rec"
  by (auto simp: process_step_def split: sum.splits elim!: process_Inr)

lemma process_steps_keep:
  "dict_get eng i = Some rec \<Longrightarrow> dict_get (foldl (process_step pf) eng cs) i = Some rec"
  by (induction cs arbitrary: eng) (simp_all add: process_step_keeps)

lemma outcome_inv_mono: "outcome_inv pf R eng \<Longrightarrow> R \<subseteq> S \<Longrightarrow> outcome_inv pf S eng"
  unfolding outcome_inv_def by blast

lemma process_step_inv: "outcome_inv pf R eng \<Longrightarrow> outcome_inv pf (insert (fst c) R) (process_step pf eng c)"
  by (auto simp: process_step_def process_inv elim: outcome_inv_mono split: sum.splits)

lemma process_steps_inv: "outcome_inv pf R eng \<Longrightarrow> outcome_inv pf (R \<union> fst ` set cs) (foldl (process_step pf) eng cs)"
proof (induction cs arbitrary: R eng)
  case (Cons c cs)
  from Cons.IH [OF process_step_inv [OF Cons.prems], of c] show ?case by simp
qed simp

subsection \<open>Properties\<close>

text \<open>
  Property (idempotence).  Processing a result again, after any other results, returns the very
  record that the first call returned and stores nothing, even if the result's timestamp
  has changed in between.
\<close>

theorem process_idempotent:
  assumes "process pf r tr fu eng = Inr (rec, eng1)" "eng2 = foldl (process_step pf) eng1 cs"
  shows "process pf (r\<lparr>executed_at := ts\<rparr>) tr fu eng2 = Inr (rec, eng2)"
proof -
  obtain st us where p: "outcome_status_for r fu = Inr st" "validate_transition r tr st = Inr us"
    "dict_get eng1 (outcome_id_for pf r st us) = Some rec"
    using assms(1) by (rule process_Inr)
  from p(3) have "dict_get eng2 (outcome_id_for pf r st us) = Some rec"
    unfolding assms(2) by (rule process_steps_keep)
  moreover have "outcome_status_for (r\<lparr>executed_at := ts\<rparr>) fu = outcome_status_for r fu"
    "validate_transition (r\<lparr>executed_at := ts\<rparr>) tr st = validate_transition r tr st"
    "outcome_id_for pf (r\<lparr>executed_at := ts\<rparr>) st us = outcome_id_for pf r st us"
    by (simp_all add: outcome_status_for_def validate_transition_def outcome_id_for_def outcome_payload_def
        cong: option.case_cong)
  ultimately show ?thesis using p by (simp add: process_def)
qed

text \<open>
  Property (the record is about the result).  Whatever was processed before, the record that is
  returned carries the execution, status, error and transitions of the result at hand,
  and it has a state transition only if the execution succeeded; unless SHA-256 collides on
  the texts of this result and of one that was processed before.
\<close>

theorem process_returns_own_outcome:
  assumes "process pf r tr fu (foldl (process_step pf) [] cs) = Inr (rec, eng')"
  shows "(oc_execution_id rec = er_execution_id r \<and> outcome_status_for r fu = Inr (oc_status rec)
      \<and> oc_error rec = er_error r \<and> validate_transition r tr (oc_status rec) = Inr (transitions rec)
      \<and> (transitions rec \<noteq> [] \<longrightarrow> er_status r = ES_SUCCEEDED))
    \<or> (\<exists>q\<in>fst ` set cs. \<exists>st ts. sha_collides pf (outcome_payload r st ts) (outcome_payload q (oc_status rec) (transitions rec)))"
proof -
  obtain st ts where p: "outcome_status_for r fu = Inr st" "validate_transition r tr st = Inr ts"
    and new: "dict_get (foldl (process_step pf) [] cs) (outcome_id_for pf r st ts) = Some rec
      \<or> oc_status rec = st \<and> transitions rec = ts \<and> oc_execution_id rec = er_execution_id r \<and> oc_error rec = er_error r"
    using assms by (rule process_Inr) auto
  have t: "ts \<noteq> [] \<longrightarrow> er_status r = ES_SUCCEEDED"
    using p(1,2) by (auto simp: validate_transition_def outcome_status_for_def
        split: option.splits if_splits execution_status.splits)
  have "outcome_inv pf ({} \<union> fst ` set cs) (foldl (process_step pf) [] cs)"
    by (rule process_steps_inv) (simp add: outcome_inv_def)
  note inv = this
  from new show ?thesis
  proof
    assume "dict_get (foldl (process_step pf) [] cs) (outcome_id_for pf r st ts) = Some rec"
    with inv obtain q where
      q: "outcome_id_for pf r st ts = outcome_id_for pf q (oc_status rec) (transitions rec)"
        "oc_execution_id rec = er_execution_id q" "oc_error rec = er_error q" "q \<in> fst ` set cs"
      unfolding outcome_inv_def Un_empty_left by blast
    from outcome_id_inject [OF q(1)] show ?thesis
    proof
      assume "sha_collides pf (outcome_payload r st ts) (outcome_payload q (oc_status rec) (transitions rec))"
      with q(4) show ?thesis by blast
    qed (use q(2,3) p t in auto)
  qed (use p t in auto)
qed

subsection \<open>A concrete outcome\<close>

definition demo_exec_result :: "execution_status \<Rightarrow> execution_result" where
  "demo_exec_result st =
     \<lparr>er_execution_id = ''e1'', er_request_id = ''q1'', er_policy_id = ''p'', er_policy_version = ''1'',
      er_agent_identity = ''agent'', er_action = ''deploy'', er_resource = ''svc/web'',
      er_context_packet_id = ''c1'', er_status = st, er_adapter_id = ''ad'', er_output = [],
      er_error = None, executed_at = ''7''\<rparr>"

lemma demo_process:
  "\<exists>rec eng. process demo_platform (demo_exec_result ES_SUCCEEDED) (Some (''pending'', ''confirmed'')) False []
     = Inr (rec, eng)"
  by (simp add: process_def outcome_status_for_def validate_transition_def ALLOWED_STATES_def
      demo_exec_result_def Let_def)

theorem process_idempotent_witness:
  "\<exists>rec eng. process demo_platform (demo_exec_result ES_SUCCEEDED) (Some (''pending'', ''confirmed'')) False [] = Inr (rec, eng)
     \<and> process demo_platform (demo_exec_result ES_SUCCEEDED\<lparr>executed_at := ''9''\<rparr>) (Some (''pending'', ''confirmed'')) False eng
         = Inr (rec, eng)"
proof -
  obtain rec eng where p: "process demo_platform (demo_exec_result ES_SUCCEEDED) (Some (''pending'', ''confirmed'')) False []
      = Inr (rec, eng)" using demo_process by blast
  from process_idempotent [OF p, of eng "[]"] p show ?thesis by auto
qed

theorem process_returns_own_outcome_witness:
  "\<exists>rec eng. process demo_platform (demo_exec_result ES_SUCCEEDED) (Some (''pending'', ''confirmed'')) False [] = Inr (rec, eng)
     \<and> oc_execution_id rec = ''e1''"
proof -
  obtain rec eng where p: "process demo_platform (demo_exec_result ES_SUCCEEDED) (Some (''pending'', ''confirmed'')) False []
      = Inr (rec, eng)" using demo_process by blast
  from process_returns_own_outcome [of demo_platform _ _ _ "[]" rec eng] p show ?thesis
    by (auto simp: demo_exec_result_def)
qed

end
