(* ===== verification/Planner.thy ===== *)
theory Planner
  imports Outcome_Engine
begin

section \<open>Continuation planner (\<open>phase4/planner/models.py\<close>, \<open>engine.py\<close>)\<close>

text \<open>
  The planner proposes a retry of a failed or rejected outcome.  It stores every proposal
  under the digest of the request and the reason and answers a repeated request from the
  store.  The lemmas show that the store is invisible: every answer is the one a planner
  without a store would give, unless the digest collides, and no answer exceeds the retry
  budget.
\<close>

datatype plan_status = PROPOSED | TERMINATED

record continuation_policy =
  cp_max_retries :: int
  retryable_statuses :: "outcome_status list"

definition check_continuation_policy :: "continuation_policy \<Rightarrow> continuation_policy result" where
  "check_continuation_policy p = raise_if (cp_max_retries p < 0) ValueError (Inr p)"

definition default_continuation_policy :: continuation_policy where
  "default_continuation_policy = \<lparr>cp_max_retries = 0, retryable_statuses = [OS_FAILED, OS_REJECTED]\<rparr>"

record plan_request =
  pr_outcome :: outcome_record
  request_fingerprint :: str
  pr_action :: str
  pr_resource :: str
  pr_context_packet_id :: str
  pr_parameters :: "(str \<times> str) list"
  attempt :: int

definition check_plan_request :: "plan_request \<Rightarrow> plan_request result" where
  "check_plan_request q =
     raise_if (blank (request_fingerprint q)) ValueError
     (raise_if (\<exists>v\<in>{pr_action q, pr_resource q, pr_context_packet_id q}. blank v) ValueError
     (raise_if (attempt q < 0) ValueError
     (raise_if (\<not> unique_keys (pr_parameters q)) ValueError (Inr q))))"

lemma check_plan_request_Inr:
  "check_plan_request q = Inr q' \<longleftrightarrow> q' = q \<and> \<not> blank (request_fingerprint q) \<and> \<not> blank (pr_action q)
     \<and> \<not> blank (pr_resource q) \<and> \<not> blank (pr_context_packet_id q) \<and> 0 \<le> attempt q
     \<and> distinct (map fst (pr_parameters q))"
  by (auto simp: check_plan_request_def unique_keys_iff)

record agent_action_proposal =
  proposal_id :: str
  ap_outcome_id :: str
  ap_request_id :: str
  ap_request_fingerprint :: str
  ap_action :: str
  ap_resource :: str
  ap_context_packet_id :: str
  ap_parameters :: "(str \<times> str) list"
  ap_attempt :: int
  ap_reason :: str
  ap_status :: plan_status

definition proposal_executable :: "agent_action_proposal \<Rightarrow> bool" where
  "proposal_executable p = False"

definition proposal_payload :: "plan_request \<Rightarrow> str \<Rightarrow> json" where
  "proposal_payload q why =
     JObj [(''outcome_id'', JStr (outcome_id (pr_outcome q))), (''request_id'', JStr (oc_request_id (pr_outcome q))),
           (''request_fingerprint'', JStr (request_fingerprint q)), (''action'', JStr (pr_action q)),
           (''resource'', JStr (pr_resource q)), (''context_packet_id'', JStr (pr_context_packet_id q)),
           (''parameters'', jpairs (sort (pr_parameters q))), (''attempt'', JInt (attempt q)), (''reason'', JStr why)]"

definition proposal_id_for :: "platform \<Rightarrow> plan_request \<Rightarrow> str \<Rightarrow> str" where
  "proposal_id_for pf q why = sha256_hex pf (utf8 (dumps True (proposal_payload q why)))"

record agent_planner =
  planner_policy :: continuation_policy
  proposals :: "(str, agent_action_proposal) dict"

definition new_planner :: "continuation_policy option \<Rightarrow> agent_planner" where
  "new_planner p =
     \<lparr>planner_policy = (case p of None \<Rightarrow> default_continuation_policy | Some p \<Rightarrow> p), proposals = []\<rparr>"

text \<open>
  \<open>plan\<close> returns \<open>None\<close> or a proposal, and the planner with its store updated; it raises
  nothing.
\<close>

definition plan :: "platform \<Rightarrow> plan_request \<Rightarrow> agent_planner \<Rightarrow> agent_action_proposal option \<times> agent_planner" where
  "plan pf q pl =
     (let st = oc_status (pr_outcome q)
      in if st = OS_UNKNOWN then (None, pl)
         else if st = OS_SUCCEEDED then (None, pl)
         else if st \<notin> set (retryable_statuses (planner_policy pl)) then (None, pl)
         else let next_attempt = attempt q + 1
              in if next_attempt > cp_max_retries (planner_policy pl) then (None, pl)
                 else let why = ''retry after '' @ outcome_status_value st @ '' outcome'';
                          pid = proposal_id_for pf q why
                      in case dict_get (proposals pl) pid of
                           Some existing \<Rightarrow> (Some existing, pl)
                         | None \<Rightarrow>
                             let p = \<lparr>proposal_id = pid, ap_outcome_id = outcome_id (pr_outcome q),
                                      ap_request_id = oc_request_id (pr_outcome q),
                                      ap_request_fingerprint = request_fingerprint q, ap_action = pr_action q,
                                      ap_resource = pr_resource q, ap_context_packet_id = pr_context_packet_id q,
                                      ap_parameters = sort (pr_parameters q), ap_attempt = next_attempt,
                                      ap_reason = why, ap_status = PROPOSED\<rparr>
                             in (Some p, pl\<lparr>proposals := dict_set pid p (proposals pl)\<rparr>))"

definition get_proposal :: "agent_planner \<Rightarrow> str \<Rightarrow> agent_action_proposal option" where
  "get_proposal pl pid = dict_get (proposals pl) pid"

subsection \<open>The planner without a store\<close>

definition retry_reason :: "plan_request \<Rightarrow> str" where
  "retry_reason q = ''retry after '' @ outcome_status_value (oc_status (pr_outcome q)) @ '' outcome''"

definition retry_proposal :: "platform \<Rightarrow> plan_request \<Rightarrow> str \<Rightarrow> agent_action_proposal" where
  "retry_proposal pf q why =
     \<lparr>proposal_id = proposal_id_for pf q why, ap_outcome_id = outcome_id (pr_outcome q),
      ap_request_id = oc_request_id (pr_outcome q), ap_request_fingerprint = request_fingerprint q,
      ap_action = pr_action q, ap_resource = pr_resource q, ap_context_packet_id = pr_context_packet_id q,
      ap_parameters = sort (pr_parameters q), ap_attempt = attempt q + 1, ap_reason = why, ap_status = PROPOSED\<rparr>"

definition retry_allowed :: "continuation_policy \<Rightarrow> plan_request \<Rightarrow> bool" where
  "retry_allowed pol q \<longleftrightarrow> oc_status (pr_outcome q) \<notin> {OS_UNKNOWN, OS_SUCCEEDED}
     \<and> oc_status (pr_outcome q) \<in> set (retryable_statuses pol) \<and> attempt q < cp_max_retries pol"

definition plan_spec :: "platform \<Rightarrow> continuation_policy \<Rightarrow> plan_request \<Rightarrow> agent_action_proposal option" where
  "plan_spec pf pol q = (if retry_allowed pol q then Some (retry_proposal pf q (retry_reason q)) else None)"

lemma plan_alt:
  "plan pf q pl =
     (if retry_allowed (planner_policy pl) q
      then let p = retry_proposal pf q (retry_reason q)
           in case dict_get (proposals pl) (proposal_id p) of
                Some existing \<Rightarrow> (Some existing, pl)
              | None \<Rightarrow> (Some p, pl\<lparr>proposals := dict_set (proposal_id p) p (proposals pl)\<rparr>)
      else (None, pl))"
  by (auto simp: plan_def retry_allowed_def retry_proposal_def retry_reason_def Let_def split: option.splits)

lemma proposal_payload_inject:
  assumes "canon (proposal_payload q why) = canon (proposal_payload q' why')"
  shows "retry_proposal pf q why = retry_proposal pf q' why'"
proof -
  have "outcome_id (pr_outcome q) = outcome_id (pr_outcome q')
      \<and> oc_request_id (pr_outcome q) = oc_request_id (pr_outcome q')
      \<and> request_fingerprint q = request_fingerprint q' \<and> pr_action q = pr_action q' \<and> pr_resource q = pr_resource q'
      \<and> pr_context_packet_id q = pr_context_packet_id q' \<and> sort (pr_parameters q) = sort (pr_parameters q')
      \<and> attempt q = attempt q' \<and> why = why'"
    using assms unfolding proposal_payload_def by (subst (asm) canon_JObj_inject) simp_all
  then show ?thesis
    by (simp add: retry_proposal_def proposal_id_for_def proposal_payload_def)
qed

lemma proposal_id_inject:
  assumes "proposal_id_for pf q why = proposal_id_for pf q' why'"
    and "\<not> sha_collides pf (proposal_payload q why) (proposal_payload q' why')"
  shows "retry_proposal pf q why = retry_proposal pf q' why'"
  using assms by (intro proposal_payload_inject) (simp add: proposal_id_for_def digest_inject)

text \<open>What the store holds: proposals made by \<open>plan\<close> under the policy for earlier requests, by their identifier.\<close>

definition planner_inv :: "platform \<Rightarrow> plan_request set \<Rightarrow> agent_planner \<Rightarrow> bool" where
  "planner_inv pf Q pl \<longleftrightarrow> (\<forall>pid p. dict_get (proposals pl) pid = Some p \<longrightarrow>
     (\<exists>q\<in>Q. retry_allowed (planner_policy pl) q \<and> p = retry_proposal pf q (retry_reason q) \<and> pid = proposal_id p))"

lemma planner_inv_new [simp]: "planner_inv pf Q (new_planner p)"
  by (simp add: planner_inv_def new_planner_def)

lemma plan_policy [simp]: "planner_policy (snd (plan pf q pl)) = planner_policy pl"
  by (simp add: plan_alt Let_def split: option.split)

lemma plan_inv: "planner_inv pf Q pl \<Longrightarrow> planner_inv pf (insert q Q) (snd (plan pf q pl))"
  by (auto simp: planner_inv_def plan_alt Let_def split: option.split)

definition plan_all :: "platform \<Rightarrow> plan_request list \<Rightarrow> agent_planner \<Rightarrow> agent_planner" where
  "plan_all pf qs pl = foldl (\<lambda>pl q. snd (plan pf q pl)) pl qs"

lemma plan_all_inv:
  "planner_inv pf Q pl \<Longrightarrow> planner_inv pf (Q \<union> set qs) (plan_all pf qs pl) \<and> planner_policy (plan_all pf qs pl) = planner_policy pl"
  unfolding plan_all_def
proof (induction qs arbitrary: Q pl)
  case (Cons q qs)
  from Cons.IH [OF plan_inv [OF Cons.prems], of q] show ?case by simp
qed simp

lemma plan_implements_spec:
  assumes "planner_inv pf Q pl"
    and "\<forall>q'\<in>Q. \<not> sha_collides pf (proposal_payload q (retry_reason q)) (proposal_payload q' (retry_reason q'))"
  shows "fst (plan pf q pl) = plan_spec pf (planner_policy pl) q"
proof (cases "retry_allowed (planner_policy pl) q")
  case True
  let ?p = "retry_proposal pf q (retry_reason q)"
  show ?thesis
  proof (cases "dict_get (proposals pl) (proposal_id ?p)")
    case (Some e)
    with assms(1) obtain q' where e: "e = retry_proposal pf q' (retry_reason q')" and q': "q' \<in> Q" "proposal_id ?p = proposal_id e"
      by (auto simp: planner_inv_def)
    then have "proposal_id_for pf q (retry_reason q) = proposal_id_for pf q' (retry_reason q')"
      by (simp add: retry_proposal_def)
    from proposal_id_inject [OF this] assms(2) q'(1) True Some e show ?thesis
      by (simp add: plan_alt plan_spec_def Let_def)
  qed (use True in \<open>simp add: plan_alt plan_spec_def Let_def\<close>)
qed (simp add: plan_alt plan_spec_def)

subsection \<open>Properties\<close>

text \<open>
  Property (refinement).  The planner is deterministic in its request: after any sequence of
  earlier calls it answers as the planner without a store does, that is with the retry
  that carries the request's own identity, attempt and sorted parameters when the policy
  allows one and with \<open>None\<close> otherwise, unless SHA-256 collides on the texts of this request
  and of an earlier one.
\<close>

theorem plan_deterministic:
  assumes "\<forall>q'\<in>set qs. \<not> sha_collides pf (proposal_payload q (retry_reason q)) (proposal_payload q' (retry_reason q'))"
  shows "fst (plan pf q (plan_all pf qs (new_planner (Some pol)))) = plan_spec pf pol q"
proof -
  have "planner_policy (new_planner (Some pol)) = pol" by (simp add: new_planner_def)
  moreover have "planner_inv pf ({} \<union> set qs) (plan_all pf qs (new_planner (Some pol)))"
    using plan_all_inv [OF planner_inv_new] by blast
  ultimately show ?thesis
    using plan_all_inv [OF planner_inv_new, of pf "{}" qs "Some pol"] plan_implements_spec [of pf "set qs"] assms by simp
qed

definition demo_outcome :: outcome_record where
  "demo_outcome = \<lparr>outcome_id = ''o1'', oc_execution_id = ''e1'', oc_request_id = ''r1'', oc_status = OS_FAILED,
     transitions = [], provenance_id = ''p1'', produced_at = ''t'', oc_error = Some ''boom''\<rparr>"

definition demo_plan_request :: plan_request where
  "demo_plan_request = \<lparr>pr_outcome = demo_outcome, request_fingerprint = ''fp'', pr_action = ''deploy'',
     pr_resource = ''svc'', pr_context_packet_id = ''ctx'', pr_parameters = [], attempt = 0\<rparr>"

theorem plan_deterministic_witness:
  "let pol = \<lparr>cp_max_retries = 1, retryable_statuses = [OS_FAILED]\<rparr>
   in (\<forall>q'\<in>set [demo_plan_request]. \<not> sha_collides demo_platform (proposal_payload demo_plan_request (retry_reason demo_plan_request))
         (proposal_payload q' (retry_reason q')))
      \<and> fst (plan demo_platform demo_plan_request (plan_all demo_platform [demo_plan_request] (new_planner (Some pol))))
          = Some (retry_proposal demo_platform demo_plan_request ''retry after failed outcome'')"
  using
    plan_deterministic [of "[demo_plan_request]" demo_platform demo_plan_request "\<lparr>cp_max_retries = 1, retryable_statuses = [OS_FAILED]\<rparr>"]
  by (simp add: Let_def plan_spec_def retry_allowed_def retry_reason_def demo_plan_request_def demo_outcome_def)

end
