(* ===== verification/Orchestrator.thy ===== *)
theory Orchestrator
  imports Planner Py_Float
begin

section \<open>Orchestrator (\<open>phase4/orchestrator/models.py\<close>, \<open>engine.py\<close>)\<close>

text \<open>
  The orchestrator looks at an outcome and at the authority decision behind it and either
  stops or hands the request back to the planner, within two budgets.  \<open>run_loop\<close> repeats
  this with a repair adapter.  An adapter is a stateful object: it is modelled as a
  function from its state and the request to an answer (a proposal, \<open>None\<close> or an
  exception) and its next state, so that the code's own adapters and any other one fit.
\<close>

datatype orchestration_directive = CONTINUE | STOP

datatype orchestration_state =
    OR_ACTIVE | OR_COMPLETED | OR_AUTHORITY_DENIED | OR_AUTHORITY_UNVERIFIED | OR_OUTCOME_UNKNOWN
  | OR_DUPLICATE_OUTCOME | OR_DEPTH_LIMIT_REACHED | OR_RETRY_LIMIT_REACHED

definition state_terminal :: "orchestration_state \<Rightarrow> bool" where
  "state_terminal s \<longleftrightarrow> s \<noteq> OR_ACTIVE"

datatype decision_reason =
    PLANNING_REQUIRED | OUTCOME_SUCCEEDED | DR_AUTHORITY_DENIED | AUTHORITY_MISSING | AUTHORITY_INVALID
  | DR_OUTCOME_UNKNOWN | DR_DUPLICATE_OUTCOME | REPLAYED_OUTCOME | DR_DEPTH_LIMIT_REACHED | DR_RETRY_LIMIT_REACHED

record loop_bounds =
  max_depth :: int
  max_retries :: int

definition check_loop_bounds :: "loop_bounds \<Rightarrow> loop_bounds result" where
  "check_loop_bounds b =
     raise_if (max_depth b < 1) ValueError (raise_if (max_retries b < 0) ValueError (Inr b))"

record iteration_identity =
  run_id :: str
  number :: int
  retry_count :: int

definition check_iteration :: "iteration_identity \<Rightarrow> iteration_identity result" where
  "check_iteration i =
     raise_if (blank (run_id i)) ValueError
     (raise_if (number i < 1) ValueError
     (raise_if (retry_count i < 0) ValueError
     (raise_if (retry_count i \<noteq> number i - 1) ValueError (Inr i))))"

definition iteration_id :: "platform \<Rightarrow> iteration_identity \<Rightarrow> str" where
  "iteration_id pf i = sha256_hex pf (utf8 (dumps True
     (JObj [(''run_id'', JStr (run_id i)), (''number'', JInt (number i)), (''retry_count'', JInt (retry_count i))])))"

record orchestration_observation =
  iteration :: iteration_identity
  ob_plan_request :: plan_request
  authority_decision :: "authority_decision option"
  processed_outcome_ids :: "str list"

abbreviation ob_outcome :: "orchestration_observation \<Rightarrow> outcome_record" where
  "ob_outcome ob \<equiv> pr_outcome (ob_plan_request ob)"

definition duplicate_outcome :: "orchestration_observation \<Rightarrow> bool" where
  "duplicate_outcome ob \<longleftrightarrow> outcome_id (ob_outcome ob) \<in> set (processed_outcome_ids ob)"

definition check_observation :: "orchestration_observation \<Rightarrow> orchestration_observation result" where
  "check_observation ob =
     raise_if (blank (outcome_id (ob_outcome ob)) \<or> blank (oc_request_id (ob_outcome ob))) ValueError
     (raise_if (attempt (ob_plan_request ob) \<noteq> retry_count (iteration ob)) ValueError
     (raise_if (case authority_decision ob of
                  None \<Rightarrow> False
                | Some d \<Rightarrow> ad_request_id d \<noteq> oc_request_id (ob_outcome ob)
                    \<or> ad_action d \<noteq> pr_action (ob_plan_request ob)
                    \<or> ad_resource d \<noteq> pr_resource (ob_plan_request ob)
                    \<or> ad_context_packet_id d \<noteq> pr_context_packet_id (ob_plan_request ob)) ValueError
     (raise_if (\<exists>i\<in>set (processed_outcome_ids ob). blank i) ValueError
     (raise_if (length (processed_outcome_ids ob) \<noteq> card (set (processed_outcome_ids ob))) ValueError
       (Inr ob)))))"

record planner_handoff =
  ho_run_id :: str
  ho_iteration_id :: str
  ho_plan_request :: plan_request
  boundary :: str

definition check_handoff :: "planner_handoff \<Rightarrow> planner_handoff result" where
  "check_handoff h =
     raise_if (blank (ho_run_id h) \<or> blank (ho_iteration_id h)) ValueError
     (raise_if (boundary h \<noteq> ''AI-6'') ValueError (Inr h))"

subsection \<open>The safety gates\<close>

definition classify_outcome ::
  "orchestration_observation \<Rightarrow> loop_bounds \<Rightarrow> orchestration_directive \<times> orchestration_state \<times> decision_reason" where
  "classify_outcome ob b =
     (if duplicate_outcome ob then (STOP, OR_DUPLICATE_OUTCOME, DR_DUPLICATE_OUTCOME)
      else case authority_decision ob of
        None \<Rightarrow> (STOP, OR_AUTHORITY_UNVERIFIED, AUTHORITY_MISSING)
      | Some d \<Rightarrow>
          if ad_decision d = DENY then (STOP, OR_AUTHORITY_DENIED, DR_AUTHORITY_DENIED)
          else if ad_decision d \<noteq> ALLOW then (STOP, OR_AUTHORITY_UNVERIFIED, AUTHORITY_INVALID)
          else let st = oc_status (ob_outcome ob)
               in if st = OS_UNKNOWN then (STOP, OR_OUTCOME_UNKNOWN, DR_OUTCOME_UNKNOWN)
                  else if st = OS_SUCCEEDED then (STOP, OR_COMPLETED, OUTCOME_SUCCEEDED)
                  else if st = OS_REPLAYED then (STOP, OR_DUPLICATE_OUTCOME, REPLAYED_OUTCOME)
                  else if st \<notin> {OS_FAILED, OS_REJECTED} then (STOP, OR_OUTCOME_UNKNOWN, DR_OUTCOME_UNKNOWN)
                  else if number (iteration ob) \<ge> max_depth b
                  then (STOP, OR_DEPTH_LIMIT_REACHED, DR_DEPTH_LIMIT_REACHED)
                  else if retry_count (iteration ob) \<ge> max_retries b
                  then (STOP, OR_RETRY_LIMIT_REACHED, DR_RETRY_LIMIT_REACHED)
                  else (CONTINUE, OR_ACTIVE, PLANNING_REQUIRED))"

record orchestration_decision =
  od_observation :: orchestration_observation
  od_bounds :: loop_bounds
  directive :: orchestration_directive
  od_state :: orchestration_state
  od_reason :: decision_reason
  handoff :: "planner_handoff option"

definition od_terminal :: "orchestration_decision \<Rightarrow> bool" where
  "od_terminal d \<longleftrightarrow> state_terminal (od_state d)"

text \<open>
  The constructor's check.  \<open>same\<close> is the answer of the identity test
  \<open>self.handoff.plan_request is self.observation.plan_request\<close>, which is about objects and
  not about their values.
\<close>

definition check_orchestration_decision ::
  "platform \<Rightarrow> bool \<Rightarrow> orchestration_decision \<Rightarrow> orchestration_decision result" where
  "check_orchestration_decision pf same d =
     raise_if ((directive d, od_state d, od_reason d) \<noteq> classify_outcome (od_observation d) (od_bounds d)) ValueError
     (if directive d = CONTINUE
      then (case handoff d of
              None \<Rightarrow> Inl ValueError
            | Some h \<Rightarrow>
                raise_if (boundary h \<noteq> ''AI-6'') ValueError
                (raise_if (ho_run_id h \<noteq> run_id (iteration (od_observation d))) ValueError
                (raise_if (ho_iteration_id h \<noteq> iteration_id pf (iteration (od_observation d))) ValueError
                (raise_if (\<not> same) ValueError
                (raise_if (state_terminal (od_state d)) ValueError (Inr d))))))
      else raise_if (handoff d \<noteq> None) ValueError
           (raise_if (\<not> state_terminal (od_state d)) ValueError (Inr d)))"

text \<open>In \<open>decide\<close> the handoff carries the observation's own request object.\<close>

definition decide :: "platform \<Rightarrow> orchestration_observation \<Rightarrow> loop_bounds \<Rightarrow> orchestration_decision result" where
  "decide pf ob b =
     (let (dir, st, why) = classify_outcome ob b
      in bind_res
           (if dir = CONTINUE
            then bind_res (check_handoff \<lparr>ho_run_id = run_id (iteration ob),
                             ho_iteration_id = iteration_id pf (iteration ob),
                             ho_plan_request = ob_plan_request ob, boundary = ''AI-6''\<rparr>) (\<lambda>h. Inr (Some h))
            else Inr None)
           (\<lambda>ho. check_orchestration_decision pf True
              \<lparr>od_observation = ob, od_bounds = b, directive = dir, od_state = st, od_reason = why, handoff = ho\<rparr>))"

subsection \<open>Repair adapters\<close>

type_synonym 's repair_adapter = "'s \<Rightarrow> plan_request \<Rightarrow> agent_action_proposal option result \<times> 's"

record static_repair =
  max_repairs :: int
  repair_calls :: int

definition new_static_repair :: "int \<Rightarrow> static_repair" where
  "new_static_repair n = \<lparr>max_repairs = n, repair_calls = 0\<rparr>"

definition static_propose :: "platform \<Rightarrow> static_repair repair_adapter" where
  "static_propose pf s q =
     (if repair_calls s \<ge> max_repairs s then (Inr None, s)
      else let n = repair_calls s + 1
           in (Inr (Some \<lparr>proposal_id = proposal_id_for pf q (''repair-'' @ int_str n),
                          ap_outcome_id = outcome_id (pr_outcome q), ap_request_id = oc_request_id (pr_outcome q),
                          ap_request_fingerprint = request_fingerprint q, ap_action = pr_action q,
                          ap_resource = pr_resource q, ap_context_packet_id = pr_context_packet_id q,
                          ap_parameters = pr_parameters q, ap_attempt = attempt q + 1,
                          ap_reason = ''bounded repair continuation proposal #'' @ int_str n,
                          ap_status = PROPOSED\<rparr>), s\<lparr>repair_calls := n\<rparr>))"

text \<open>
  \<open>ParallelRepairAdapter\<close>.  Every strategy is submitted and, since leaving the \<open>with\<close> block
  waits for the pool, every strategy runs, also when an early answer is returned.  The
  thread pool decides two orders: \<open>runs\<close>, in which the calls take effect on the
  strategies' common state (each call being one step), and \<open>finished\<close>, in which
  \<open>as_completed\<close> yields the futures.  The first proposal or the first exception in the
  second order is the answer.
\<close>

record 's parallel_repair =
  strategies :: "(str, 's repair_adapter) dict"
  max_workers :: int

definition new_parallel_repair :: "(str, 's repair_adapter) dict \<Rightarrow> int \<Rightarrow> 's parallel_repair result" where
  "new_parallel_repair ss w =
     raise_if (ss = []) ValueError (raise_if (w < 1) ValueError (Inr \<lparr>strategies = ss, max_workers = w\<rparr>))"

fun run_strategies ::
  "(str \<times> 's repair_adapter) list \<Rightarrow> plan_request \<Rightarrow> 's
     \<Rightarrow> (str, agent_action_proposal option result) dict \<times> 's" where
  "run_strategies [] q s = ([], s)"
| "run_strategies ((n, f) # fs) q s =
     (let (r, s') = f s q; (rs, s'') = run_strategies fs q s' in ((n, r) # rs, s''))"

fun first_proposal :: "agent_action_proposal option result list \<Rightarrow> agent_action_proposal option result" where
  "first_proposal [] = Inr None"
| "first_proposal (Inl e # rs) = Inl e"
| "first_proposal (Inr (Some p) # rs) = Inr (Some p)"
| "first_proposal (Inr None # rs) = first_proposal rs"

definition parallel_propose ::
  "(str \<times> 's repair_adapter) list \<Rightarrow> str list \<Rightarrow> 's repair_adapter" where
  "parallel_propose runs finished s q =
     (let (outs, s') = run_strategies runs q s
      in (first_proposal (map (\<lambda>n. the (dict_get outs n)) finished), s'))"

text \<open>What the pool guarantees: each strategy runs once and is yielded once.\<close>

definition pool_schedule :: "'s parallel_repair \<Rightarrow> (str \<times> 's repair_adapter) list \<Rightarrow> str list \<Rightarrow> bool" where
  "pool_schedule pr runs finished \<longleftrightarrow> distinct (map fst runs) \<and> set runs = set (strategies pr)
     \<and> distinct finished \<and> set finished = fst ` set (strategies pr)"

subsection \<open>Backoff\<close>

record exponential_backoff =
  backoff_base :: float64
  backoff_cap :: float64

definition new_backoff :: "float64 \<Rightarrow> float64 \<Rightarrow> exponential_backoff result" where
  "new_backoff base cap =
     raise_if (base \<le> 0) ValueError
     (raise_if (cap < base) ValueError (Inr \<lparr>backoff_base = base, backoff_cap = cap\<rparr>))"

text \<open>
  The integer \<open>2 ** (retry_count - 1)\<close> is converted to a double before the product, which
  raises \<open>OverflowError\<close> from \<open>2 ** 1024\<close> on.  A product above the largest double is
  infinity in the code and a larger rational here; \<open>min\<close> returns the cap for both.
\<close>

definition delay :: "exponential_backoff \<Rightarrow> int \<Rightarrow> float64 result" where
  "delay bo n =
     (if n < 1 then Inr 0
      else raise_if (n - 1 \<ge> 1024) OverflowError
             (let x = fl (backoff_base bo * 2 ^ nat (n - 1))
              in Inr (if x < backoff_cap bo then x else backoff_cap bo)))"

subsection \<open>The engine\<close>

record 's orchestrator_engine =
  oe_adapter :: "'s repair_adapter"
  oe_adapter_state :: 's
  oe_bounds :: loop_bounds
  oe_backoff :: exponential_backoff

text \<open>The engine of \<open>OrchestratorEngine()\<close>, all arguments at their defaults.\<close>

definition default_orchestrator :: "platform \<Rightarrow> static_repair orchestrator_engine" where
  "default_orchestrator pf =
     \<lparr>oe_adapter = static_propose pf, oe_adapter_state = new_static_repair 2,
      oe_bounds = \<lparr>max_depth = 3, max_retries = 2\<rparr>, oe_backoff = \<lparr>backoff_base = 1, backoff_cap = 8\<rparr>\<rparr>"

definition retry_delay :: "'s orchestrator_engine \<Rightarrow> int \<Rightarrow> float64 result" where
  "retry_delay eng n = delay (oe_backoff eng) n"

definition advance :: "platform \<Rightarrow> 's orchestrator_engine \<Rightarrow> orchestration_observation \<Rightarrow> orchestration_decision result" where
  "advance pf eng ob = decide pf ob (oe_bounds eng)"

text \<open>The two nested \<open>dataclasses.replace\<close> calls; each runs its class's checks again.\<close>

definition advance_observation :: "orchestration_observation \<Rightarrow> orchestration_observation result" where
  "advance_observation ob =
     (let nr = retry_count (iteration ob) + 1
      in bind_res (check_iteration ((iteration ob)\<lparr>number := nr + 1, retry_count := nr\<rparr>)) (\<lambda>i.
         bind_res (check_plan_request ((ob_plan_request ob)\<lparr>attempt := nr\<rparr>)) (\<lambda>q.
           check_observation (ob\<lparr>iteration := i, ob_plan_request := q\<rparr>))))"

fun loop_steps ::
  "nat \<Rightarrow> platform \<Rightarrow> 's repair_adapter \<Rightarrow> loop_bounds \<Rightarrow> 's \<Rightarrow> orchestration_observation
     \<Rightarrow> (orchestration_observation \<times> orchestration_decision) result \<times> 's" where
  "loop_steps 0 pf ad b s ob = (bind_res (decide pf ob b) (\<lambda>d. Inr (ob, d)), s)"
| "loop_steps (Suc n) pf ad b s ob =
     (case decide pf ob b of
        Inl e \<Rightarrow> (Inl e, s)
      | Inr d \<Rightarrow>
          if directive d \<noteq> CONTINUE then (Inr (ob, d), s)
          else (case ad s (ob_plan_request ob) of
                  (Inl e, s') \<Rightarrow> (Inl e, s')
                | (Inr None, s') \<Rightarrow> (bind_res (decide pf ob b) (\<lambda>d. Inr (ob, d)), s')
                | (Inr (Some p), s') \<Rightarrow>
                    (case advance_observation ob of
                       Inl e \<Rightarrow> (Inl e, s')
                     | Inr ob' \<Rightarrow> loop_steps n pf ad b s' ob')))"

text \<open>\<open>range(max_steps)\<close> is empty for a negative bound; the default is 20.\<close>

definition run_loop ::
  "platform \<Rightarrow> int \<Rightarrow> orchestration_observation \<Rightarrow> 's orchestrator_engine
     \<Rightarrow> (orchestration_observation \<times> orchestration_decision) result \<times> 's orchestrator_engine" where
  "run_loop pf max_steps ob eng =
     (let (r, s) = loop_steps (nat max_steps) pf (oe_adapter eng) (oe_bounds eng) (oe_adapter_state eng) ob
      in (r, eng\<lparr>oe_adapter_state := s\<rparr>))"

subsection \<open>What the gates decide\<close>

definition continuable :: "orchestration_observation \<Rightarrow> loop_bounds \<Rightarrow> bool" where
  "continuable ob b \<longleftrightarrow> \<not> duplicate_outcome ob
     \<and> (\<exists>d. authority_decision ob = Some d \<and> ad_decision d = ALLOW)
     \<and> oc_status (ob_outcome ob) \<in> {OS_FAILED, OS_REJECTED}
     \<and> number (iteration ob) < max_depth b \<and> retry_count (iteration ob) < max_retries b"

lemma classify_continuable:
  "continuable ob b \<Longrightarrow> classify_outcome ob b = (CONTINUE, OR_ACTIVE, PLANNING_REQUIRED)"
  by (auto simp: continuable_def classify_outcome_def)

lemma classify_stop:
  "\<not> continuable ob b \<Longrightarrow> \<exists>st why. classify_outcome ob b = (STOP, st, why) \<and> st \<noteq> OR_ACTIVE"
  by (cases "oc_status (ob_outcome ob)")
     (auto simp: continuable_def classify_outcome_def not_less split: option.split)

text \<open>The observations the code can build: every constructor check has passed.\<close>

definition valid_observation :: "orchestration_observation \<Rightarrow> bool" where
  "valid_observation ob \<longleftrightarrow> check_iteration (iteration ob) = Inr (iteration ob)
     \<and> check_plan_request (ob_plan_request ob) = Inr (ob_plan_request ob) \<and> check_observation ob = Inr ob"

lemma check_iteration_Inr:
  "check_iteration i = Inr i' \<longleftrightarrow> i' = i \<and> \<not> blank (run_id i) \<and> 1 \<le> number i \<and> retry_count i = number i - 1"
  by (auto simp: check_iteration_def)

lemma check_observation_Inr:
  "check_observation ob = Inr ob' \<longleftrightarrow> ob' = ob
     \<and> \<not> blank (outcome_id (ob_outcome ob)) \<and> \<not> blank (oc_request_id (ob_outcome ob))
     \<and> attempt (ob_plan_request ob) = retry_count (iteration ob)
     \<and> (\<forall>d. authority_decision ob = Some d \<longrightarrow>
          ad_request_id d = oc_request_id (ob_outcome ob) \<and> ad_action d = pr_action (ob_plan_request ob)
          \<and> ad_resource d = pr_resource (ob_plan_request ob)
          \<and> ad_context_packet_id d = pr_context_packet_id (ob_plan_request ob))
     \<and> (\<forall>i\<in>set (processed_outcome_ids ob). \<not> blank i) \<and> distinct (processed_outcome_ids ob)"
  by (auto simp: check_observation_def length_card_iff split: option.splits)

lemmas observation_checks = check_iteration_Inr check_plan_request_Inr check_observation_Inr

definition the_decision :: "platform \<Rightarrow> orchestration_observation \<Rightarrow> loop_bounds \<Rightarrow> orchestration_decision" where
  "the_decision pf ob b =
     (case classify_outcome ob b of (dir, st, why) \<Rightarrow>
        \<lparr>od_observation = ob, od_bounds = b, directive = dir, od_state = st, od_reason = why,
         handoff = (if dir = CONTINUE
                    then Some \<lparr>ho_run_id = run_id (iteration ob), ho_iteration_id = iteration_id pf (iteration ob),
                               ho_plan_request = ob_plan_request ob, boundary = ''AI-6''\<rparr>
                    else None)\<rparr>)"

lemma decide_total:
  assumes "hex_digests pf" "\<not> blank (run_id (iteration ob))"
  shows "decide pf ob b = Inr (the_decision pf ob b)"
proof -
  have "\<not> blank (iteration_id pf (iteration ob))"
    using assms(1) by (simp add: iteration_id_def hex_digests_def)
  with assms(2) classify_continuable [of ob b] classify_stop [of ob b] show ?thesis
    by (cases "continuable ob b")
       (auto simp: decide_def the_decision_def check_handoff_def check_orchestration_decision_def state_terminal_def)
qed

lemma the_decision_continue [simp]: "directive (the_decision pf ob b) = CONTINUE \<longleftrightarrow> continuable ob b"
  using classify_continuable [of ob b] classify_stop [of ob b]
  by (cases "continuable ob b") (auto simp: the_decision_def)

lemma the_decision_terminal [simp]: "od_terminal (the_decision pf ob b) \<longleftrightarrow> \<not> continuable ob b"
  using classify_continuable [of ob b] classify_stop [of ob b]
  by (cases "continuable ob b") (auto simp: the_decision_def od_terminal_def state_terminal_def)

subsection \<open>The loop\<close>

text \<open>The observation after \<open>k\<close> retries; nothing but the three counters changes.\<close>

definition advanced :: "nat \<Rightarrow> orchestration_observation \<Rightarrow> orchestration_observation" where
  "advanced k ob =
     ob\<lparr>iteration := (iteration ob)\<lparr>number := number (iteration ob) + int k,
                                    retry_count := retry_count (iteration ob) + int k\<rparr>,
        ob_plan_request := (ob_plan_request ob)\<lparr>attempt := attempt (ob_plan_request ob) + int k\<rparr>\<rparr>"

lemma advanced_0 [simp]: "advanced 0 ob = ob"
  by (simp add: advanced_def)

lemma advanced_advanced: "advanced j (advanced k ob) = advanced (k + j) ob"
  by (simp add: advanced_def algebra_simps)

lemma valid_advanced [simp]: "valid_observation ob \<Longrightarrow> valid_observation (advanced k ob)"
  by (auto simp: valid_observation_def observation_checks advanced_def)

lemma advance_observation_valid:
  "valid_observation ob \<Longrightarrow> advance_observation ob = Inr (advanced 1 ob)"
  by (auto simp: advance_observation_def Let_def bind_res_Inr_iff valid_observation_def observation_checks advanced_def)

lemma valid_run_id: "valid_observation ob \<Longrightarrow> \<not> blank (run_id (iteration ob))"
  by (simp add: valid_observation_def observation_checks)

text \<open>An adapter that answers and does not raise.\<close>

definition never_raises :: "'s repair_adapter \<Rightarrow> bool" where
  "never_raises ad \<longleftrightarrow> (\<forall>s q. \<exists>r s'. ad s q = (Inr r, s'))"

lemma loop_steps_Suc:
  assumes "hex_digests pf" "valid_observation ob"
  shows "loop_steps (Suc n) pf ad b s ob =
     (if \<not> continuable ob b then (Inr (ob, the_decision pf ob b), s)
      else case ad s (ob_plan_request ob) of
             (Inl e, s') \<Rightarrow> (Inl e, s')
           | (Inr None, s') \<Rightarrow> (Inr (ob, the_decision pf ob b), s')
           | (Inr (Some p), s') \<Rightarrow> loop_steps n pf ad b s' (advanced 1 ob))"
  using decide_total [OF assms(1) valid_run_id [OF assms(2)], of b] advance_observation_valid [OF assms(2)]
  by (auto simp: split: sum.splits option.splits prod.splits)

declare loop_steps.simps(2) [simp del]

text \<open>Where the loop stops: after some retries, each of them within the budgets.\<close>

lemma loop_steps_spec:
  assumes "hex_digests pf" "never_raises ad" "valid_observation ob"
  shows "\<exists>k s'. loop_steps n pf ad b s ob = (Inr (advanced k ob, the_decision pf (advanced k ob) b), s')
    \<and> k \<le> n \<and> (\<forall>j<k. continuable (advanced j ob) b)
    \<and> (k < n \<and> continuable (advanced k ob) b \<longrightarrow> (\<exists>t t'. ad t (ob_plan_request (advanced k ob)) = (Inr None, t')))"
  using assms(3)
proof (induction n arbitrary: s ob)
  case 0
  then show ?case using decide_total [OF assms(1) valid_run_id, of ob b] by (intro exI [of _ 0]) simp
next
  case (Suc n)
  show ?case
  proof (cases "continuable ob b")
    case False
    with Suc.prems assms(1) show ?thesis by (intro exI [of _ 0]) (simp add: loop_steps_Suc)
  next
    case True
    obtain r s1 where ad: "ad s (ob_plan_request ob) = (Inr r, s1)"
      using assms(2) by (auto simp: never_raises_def) (metis surj_pair)
    show ?thesis
    proof (cases r)
      case None
      with ad True Suc.prems assms(1) show ?thesis by (intro exI [of _ 0]) (auto simp: loop_steps_Suc)
    next
      case (Some p)
      with ad True Suc.prems assms(1)
      have step: "loop_steps (Suc n) pf ad b s ob = loop_steps n pf ad b s1 (advanced 1 ob)"
        by (simp only: loop_steps_Suc) simp
      from Suc.IH [of "advanced 1 ob" s1] Suc.prems obtain k s' where
        k: "loop_steps n pf ad b s1 (advanced 1 ob)
              = (Inr (advanced (Suc k) ob, the_decision pf (advanced (Suc k) ob) b), s')"
          "k \<le> n" "\<forall>j<k. continuable (advanced (Suc j) ob) b"
          "k < n \<and> continuable (advanced (Suc k) ob) b \<longrightarrow>
             (\<exists>t t'. ad t (ob_plan_request (advanced (Suc k) ob)) = (Inr None, t'))"
        by (auto simp: advanced_advanced)
      have "\<forall>j<Suc k. continuable (advanced j ob) b"
        using True k(3) by (auto simp: less_Suc_eq_0_disj)
      with step k show ?thesis by (intro exI [of _ "Suc k"]) auto
    qed
  qed
qed

lemma continuable_advanced:
  "continuable (advanced k ob) b \<longleftrightarrow> continuable ob b
     \<and> number (iteration ob) + int k < max_depth b \<and> retry_count (iteration ob) + int k < max_retries b"
  by (auto simp: continuable_def duplicate_outcome_def advanced_def)

lemma advanced_frame:
  "authority_decision (advanced k ob) = authority_decision ob"
  "ob_outcome (advanced k ob) = ob_outcome ob"
  "processed_outcome_ids (advanced k ob) = processed_outcome_ids ob"
  "run_id (iteration (advanced k ob)) = run_id (iteration ob)"
  "number (iteration (advanced k ob)) = number (iteration ob) + int k"
  "retry_count (iteration (advanced k ob)) = retry_count (iteration ob) + int k"
  by (simp_all add: advanced_def)

lemma run_loop_fst:
  "fst (run_loop pf m ob eng) = fst (loop_steps (nat m) pf (oe_adapter eng) (oe_bounds eng) (oe_adapter_state eng) ob)"
  by (simp add: run_loop_def case_prod_beta)

subsection \<open>Repair adapters and backoff\<close>

lemma run_strategies_outs:
  "run_strategies fs q s = (outs, s') \<Longrightarrow> map fst outs = map fst fs
     \<and> (\<forall>n r. (n, r) \<in> set outs \<longrightarrow> (\<exists>f t t'. (n, f) \<in> set fs \<and> f t q = (r, t')))"
  by (induction fs arbitrary: s outs s') (fastforce split: prod.splits)+

lemma first_proposal_cases:
  "first_proposal rs = Inr None \<Longrightarrow> r \<in> set rs \<Longrightarrow> r = Inr None"
  "first_proposal rs = Inr (Some p) \<Longrightarrow> Inr (Some p) \<in> set rs"
  "first_proposal rs = Inl e \<Longrightarrow> Inl e \<in> set rs"
  by (induction rs rule: first_proposal.induct) auto

text \<open>
  Whatever the pool's schedule is, the answer of the parallel adapter is a proposal of one
  of its strategies or an exception of one of them, and \<open>None\<close> only if every strategy
  answered \<open>None\<close>.
\<close>

lemma parallel_propose_sound:
  assumes "pool_schedule pr runs finished"
  shows "case fst (parallel_propose runs finished s q) of
      Inl e \<Rightarrow> \<exists>(n, f)\<in>set (strategies pr). \<exists>t t'. f t q = (Inl e, t')
    | Inr (Some p) \<Rightarrow> \<exists>(n, f)\<in>set (strategies pr). \<exists>t t'. f t q = (Inr (Some p), t')
    | Inr None \<Rightarrow> \<forall>(n, f)\<in>set (strategies pr). \<exists>t t'. f t q = (Inr None, t')"
proof -
  obtain outs s' where o: "run_strategies runs q s = (outs, s')" by (metis surj_pair)
  note outs = run_strategies_outs [OF o]
  let ?rs = "map (\<lambda>n. the (dict_get outs n)) finished"
  have runs: "distinct (map fst runs)" "set runs = set (strategies pr)" "set finished = fst ` set runs"
    using assms by (auto simp: pool_schedule_def)
  have same: "f = g" if "(n, f) \<in> set runs" "(n, g) \<in> set runs" for n f g
    using runs(1) that by (metis eq_key_imp_eq_value)
  have called: "\<exists>f t t'. (n, f) \<in> set (strategies pr) \<and> f t q = (the (dict_get outs n), t')"
    if n: "n \<in> set finished" for n
  proof -
    from n runs(3) outs have "n \<in> fst ` set outs" by (metis list.set_map)
    then obtain r where "dict_get outs n = Some r" by (metis map_of_eq_None_iff not_None_eq)
    with outs runs(2) show ?thesis by (metis map_of_SomeD option.sel)
  qed
  have member: "\<exists>(n, f)\<in>set (strategies pr). \<exists>t t'. f t q = (r, t')" if "r \<in> set ?rs" for r
    using that called by fastforce
  have every: "\<exists>t t'. f t q = (Inr None, t')"
    if "first_proposal ?rs = Inr None" "(n, f) \<in> set (strategies pr)" for n f
  proof -
    from that(2) runs have n: "n \<in> set finished" by force
    with first_proposal_cases(1) [OF that(1)] have "the (dict_get outs n) = Inr None" by simp
    with called [OF n] same that(2) runs(2) show ?thesis by metis
  qed
  show ?thesis
    using o first_proposal_cases(2,3) [of ?rs] member every
    by (auto simp: parallel_propose_def split: sum.split option.split)
qed

lemma static_never_raises: "never_raises (static_propose pf)"
  by (simp add: never_raises_def static_propose_def Let_def)

lemma static_propose_exhausted:
  "repair_calls s \<ge> max_repairs s \<Longrightarrow> static_propose pf s q = (Inr None, s)"
  by (simp add: static_propose_def)

lemma static_propose_more:
  "repair_calls s < max_repairs s \<Longrightarrow>
     \<exists>p. static_propose pf s q = (Inr (Some p), s\<lparr>repair_calls := repair_calls s + 1\<rparr>)"
  by (simp add: static_propose_def Let_def)

lemma delay_alt:
  assumes "is_double (backoff_base bo)" "1 \<le> n" "n \<le> 1024"
  shows "delay bo n = Inr (min (backoff_cap bo) (backoff_base bo * 2 ^ nat (n - 1)))"
  using assms by (simp add: delay_def fl_scale min_def Let_def not_less)

subsection \<open>Properties\<close>

text \<open>
  Property (safety).  \<open>decide\<close> never raises on an observation with a run identifier, and it
  continues exactly when the outcome is new, the authority decision is present and allows,
  the outcome failed or was rejected and both budgets have room; otherwise the decision is
  terminal.  Only a continuing decision carries a handoff, and the handoff is the
  observation's own plan request.
\<close>

theorem decide_continue_iff:
  assumes "hex_digests pf" "\<not> blank (run_id (iteration ob))"
  shows "\<exists>d. decide pf ob b = Inr d \<and> (directive d = CONTINUE \<longleftrightarrow> continuable ob b)
    \<and> (od_terminal d \<longleftrightarrow> \<not> continuable ob b)
    \<and> map_option ho_plan_request (handoff d) = (if continuable ob b then Some (ob_plan_request ob) else None)"
  using decide_total [OF assms, of b] the_decision_continue [of pf ob b] the_decision_terminal [of pf ob b]
  by (auto simp: the_decision_def split: prod.splits)

definition demo_authority :: authority_decision where
  "demo_authority = \<lparr>ad_request_id = ''r1'', ad_decision = ALLOW, ad_agent_identity = ''a'', ad_action = ''deploy'',
     ad_resource = ''svc'', ad_context_packet_id = ''ctx'', ad_policy_id = ''p'', ad_policy_version = ''1'',
     ad_matched_rule_ids = [''x''], ad_reason = ''ok'', ad_evaluated_at = ''t'', ad_parameters = [],
     ad_organization_id = None, ad_actor_id = None, ad_capability = None, provenance_token = True,
     provenance_issuer = ''i'', provenance_signature = ''s''\<rparr>"

definition demo_observation :: orchestration_observation where
  "demo_observation = \<lparr>iteration = \<lparr>run_id = ''run'', number = 1, retry_count = 0\<rparr>,
     ob_plan_request = demo_plan_request, authority_decision = Some demo_authority, processed_outcome_ids = []\<rparr>"

lemma demo_observation_valid [simp]:
  "valid_observation demo_observation"
  "\<not> blank (run_id (iteration demo_observation))"
  "number (iteration demo_observation) = 1" "retry_count (iteration demo_observation) = 0"
  by (simp_all add: valid_observation_def observation_checks demo_observation_def demo_plan_request_def
      demo_outcome_def demo_authority_def blank_iff is_space_def Let_def)

lemma demo_observation_continuable:
  "continuable demo_observation b \<longleftrightarrow> 1 < max_depth b \<and> 0 < max_retries b"
  by (auto simp: continuable_def duplicate_outcome_def demo_observation_def demo_plan_request_def
      demo_outcome_def demo_authority_def)

theorem decide_continue_iff_witness:
  "hex_digests demo_platform \<and> \<not> blank (run_id (iteration demo_observation))
   \<and> (\<exists>d. decide demo_platform demo_observation \<lparr>max_depth = 3, max_retries = 2\<rparr> = Inr d \<and> directive d = CONTINUE)
   \<and> (\<exists>d. decide demo_platform demo_observation \<lparr>max_depth = 1, max_retries = 2\<rparr> = Inr d \<and> od_terminal d)"
  using decide_continue_iff [OF demo_platform_digests demo_observation_valid(2), of "\<lparr>max_depth = 3, max_retries = 2\<rparr>"]
    decide_continue_iff [OF demo_platform_digests demo_observation_valid(2), of "\<lparr>max_depth = 1, max_retries = 2\<rparr>"]
  by (auto simp: demo_observation_continuable)

text \<open>
  C23 (invariant).  Whatever its adapter proposes, as long as it does not raise, the loop
  returns an observation that satisfies every contract check and carries the same outcome,
  authority decision, run and processed outcomes; it has made at most \<open>max_steps\<close> retries
  and none beyond the depth and retry budgets, and the decision that is returned is the
  gates' decision on that observation.
\<close>

theorem run_loop_safe:
  assumes "hex_digests pf" "never_raises (oe_adapter eng)" "valid_observation ob"
  shows "\<exists>ob' d. fst (run_loop pf m ob eng) = Inr (ob', d) \<and> valid_observation ob'
    \<and> ob_outcome ob' = ob_outcome ob \<and> authority_decision ob' = authority_decision ob
    \<and> run_id (iteration ob') = run_id (iteration ob) \<and> processed_outcome_ids ob' = processed_outcome_ids ob
    \<and> number (iteration ob) \<le> number (iteration ob')
    \<and> number (iteration ob') \<le> number (iteration ob) + max 0 m
    \<and> number (iteration ob') \<le> max (number (iteration ob)) (max_depth (oe_bounds eng))
    \<and> retry_count (iteration ob') \<le> max (retry_count (iteration ob)) (max_retries (oe_bounds eng))
    \<and> decide pf ob' (oe_bounds eng) = Inr d"
proof -
  from loop_steps_spec [OF assms, of "nat m" "oe_bounds eng" "oe_adapter_state eng"]
  obtain k s' where k: "loop_steps (nat m) pf (oe_adapter eng) (oe_bounds eng) (oe_adapter_state eng) ob
      = (Inr (advanced k ob, the_decision pf (advanced k ob) (oe_bounds eng)), s')"
    and le: "k \<le> nat m" and cont: "\<forall>j<k. continuable (advanced j ob) (oe_bounds eng)"
    by blast
  have budget: "k = 0 \<or> number (iteration ob) + int k \<le> max_depth (oe_bounds eng)
      \<and> retry_count (iteration ob) + int k \<le> max_retries (oe_bounds eng)"
    using cont [rule_format, of "k - 1"] by (cases k) (auto simp: continuable_advanced)
  have "decide pf (advanced k ob) (oe_bounds eng) = Inr (the_decision pf (advanced k ob) (oe_bounds eng))"
    by (intro decide_total assms(1) valid_run_id valid_advanced assms(3))
  with k le budget assms(3) show ?thesis
    by (intro exI conjI) (auto simp: run_loop_fst advanced_frame)
qed

theorem run_loop_safe_witness:
  "never_raises (oe_adapter (default_orchestrator demo_platform)) \<and> valid_observation demo_observation
   \<and> (\<exists>ob' d. fst (run_loop demo_platform 20 demo_observation (default_orchestrator demo_platform)) = Inr (ob', d)
        \<and> number (iteration ob') \<le> 3)"
proof -
  have nr: "never_raises (oe_adapter (default_orchestrator demo_platform))"
    by (simp add: default_orchestrator_def static_never_raises)
  with run_loop_safe [OF demo_platform_digests nr demo_observation_valid(1), of 20] show ?thesis
    by (auto simp: default_orchestrator_def)
qed

text \<open>
  Property (liveness).  With an adapter that always proposes and enough steps for the smaller
  budget, the loop ends in a terminal decision after using up exactly the smaller budget.
\<close>

theorem run_loop_stops:
  assumes "hex_digests pf" "\<forall>s q. \<exists>p s'. oe_adapter eng s q = (Inr (Some p), s')" "valid_observation ob"
    and "continuable ob (oe_bounds eng)"
    and "min (max_depth (oe_bounds eng) - number (iteration ob)) (max_retries (oe_bounds eng) - retry_count (iteration ob)) \<le> m"
  shows "\<exists>ob' d. fst (run_loop pf m ob eng) = Inr (ob', d) \<and> directive d = STOP \<and> od_terminal d
    \<and> number (iteration ob') - number (iteration ob)
        = min (max_depth (oe_bounds eng) - number (iteration ob)) (max_retries (oe_bounds eng) - retry_count (iteration ob))"
proof -
  let ?b = "oe_bounds eng"
  have "never_raises (oe_adapter eng)" using assms(2) unfolding never_raises_def by metis
  from loop_steps_spec [OF assms(1) this assms(3), of "nat m" ?b "oe_adapter_state eng"]
  obtain k s' where k: "loop_steps (nat m) pf (oe_adapter eng) ?b (oe_adapter_state eng) ob
      = (Inr (advanced k ob, the_decision pf (advanced k ob) ?b), s')"
    and le: "k \<le> nat m" and cont: "\<forall>j<k. continuable (advanced j ob) ?b"
    and last: "k < nat m \<and> continuable (advanced k ob) ?b \<longrightarrow>
       (\<exists>t t'. oe_adapter eng t (ob_plan_request (advanced k ob)) = (Inr None, t'))"
    by blast
  have no_none: "oe_adapter eng t q \<noteq> (Inr None, t')" for t q t'
    using assms(2) by (metis Inr_inject Pair_inject option.distinct(1))
  have b1: "k = 0 \<or> int k \<le> max_depth ?b - number (iteration ob) \<and> int k \<le> max_retries ?b - retry_count (iteration ob)"
    using cont [rule_format, of "k - 1"] by (cases k) (auto simp: continuable_advanced)
  have b0: "0 < max_depth ?b - number (iteration ob)" "0 < max_retries ?b - retry_count (iteration ob)"
    using assms(4) by (auto simp: continuable_def)
  have "k = nat m \<or> \<not> continuable (advanced k ob) ?b" using last no_none le by force
  then have stop: "\<not> continuable (advanced k ob) ?b"
    and num: "int k = min (max_depth ?b - number (iteration ob)) (max_retries ?b - retry_count (iteration ob))"
    using assms(4,5) b0 b1 by (auto simp: continuable_advanced min_def split: if_splits)
  have "directive (the_decision pf (advanced k ob) ?b) = STOP"
    using stop by (metis orchestration_directive.exhaust the_decision_continue)
  with k stop num show ?thesis
    by (intro exI conjI) (auto simp: run_loop_fst advanced_frame)
qed

theorem run_loop_stops_witness:
  "\<exists>eng :: unit orchestrator_engine. \<exists>ob' d.
     fst (run_loop demo_platform 20 demo_observation eng) = Inr (ob', d) \<and> od_terminal d
     \<and> number (iteration ob') = 3 \<and> oe_bounds eng = \<lparr>max_depth = 3, max_retries = 5\<rparr>"
proof -
  let ?eng = "\<lparr>oe_adapter = (\<lambda>s q. (Inr (Some (retry_proposal demo_platform q ''again'')), ())), oe_adapter_state = (),
      oe_bounds = \<lparr>max_depth = 3, max_retries = 5\<rparr>, oe_backoff = \<lparr>backoff_base = 1, backoff_cap = 8\<rparr>\<rparr>"
  have "\<exists>ob' d. fst (run_loop demo_platform 20 demo_observation ?eng) = Inr (ob', d) \<and> directive d = STOP \<and> od_terminal d
      \<and> number (iteration ob') - number (iteration demo_observation)
        = min (max_depth (oe_bounds ?eng) - number (iteration demo_observation))
              (max_retries (oe_bounds ?eng) - retry_count (iteration demo_observation))"
    by (rule run_loop_stops) (simp_all add: demo_observation_continuable)
  then show ?thesis by (intro exI [of _ ?eng]) auto
qed

text \<open>
  Property (error).  The loop's result need not be terminal: an engine with the default adapter
  serves one failing observation to its end, and the next one, its adapter having used up
  its two repairs, comes back unchanged with the directive to continue.
\<close>

theorem run_loop_left_open:
  assumes "hex_digests pf" "valid_observation ob" "continuable ob \<lparr>max_depth = 3, max_retries = 2\<rparr>"
    and "number (iteration ob) = 1" "0 < m"
    and "eng' = snd (run_loop pf 20 ob (default_orchestrator pf))"
  shows "\<exists>d. fst (run_loop pf m ob eng') = Inr (ob, d) \<and> directive d = CONTINUE \<and> \<not> od_terminal d"
proof -
  let ?b = "\<lparr>max_depth = 3, max_retries = 2\<rparr>"
  have c: "continuable (advanced k ob) ?b \<longleftrightarrow> k < 2" for k
    using assms(2,3,4) by (auto simp: continuable_advanced valid_observation_def observation_checks)
  note step = loop_steps_Suc [OF assms(1) valid_advanced [OF assms(2)]]
  obtain p where p: "static_propose pf \<lparr>max_repairs = 2, repair_calls = 0\<rparr> (ob_plan_request (advanced 0 ob))
      = (Inr (Some p), \<lparr>max_repairs = 2, repair_calls = 1\<rparr>)"
    using static_propose_more [of "\<lparr>max_repairs = 2, repair_calls = 0\<rparr>"] by fastforce
  obtain p' where p': "static_propose pf \<lparr>max_repairs = 2, repair_calls = 1\<rparr> (ob_plan_request (advanced 1 ob))
      = (Inr (Some p'), \<lparr>max_repairs = 2, repair_calls = 2\<rparr>)"
    using static_propose_more [of "\<lparr>max_repairs = 2, repair_calls = 1\<rparr>"] by fastforce
  have "snd (loop_steps (Suc (Suc (Suc k))) pf (static_propose pf) ?b \<lparr>max_repairs = 2, repair_calls = 0\<rparr> (advanced 0 ob))
      = \<lparr>max_repairs = 2, repair_calls = 2\<rparr>" for k
    using p p' by (simp add: step c advanced_advanced del: advanced_0)
  from this [of 17] have "snd (loop_steps (nat 20) pf (static_propose pf) ?b \<lparr>max_repairs = 2, repair_calls = 0\<rparr> ob)
      = \<lparr>max_repairs = 2, repair_calls = 2\<rparr>"
    by simp
  then have eng': "eng' = (default_orchestrator pf)\<lparr>oe_adapter_state := \<lparr>max_repairs = 2, repair_calls = 2\<rparr>\<rparr>"
    unfolding assms(6) by (simp add: run_loop_def default_orchestrator_def new_static_repair_def case_prod_beta)
  obtain m' where "nat m = Suc m'" using assms(5) by (cases "nat m") auto
  with c [of 0] show ?thesis
    by (simp add: run_loop_fst eng' default_orchestrator_def static_propose_exhausted loop_steps_Suc [OF assms(1,2)])
qed

theorem run_loop_left_open_witness:
  "\<exists>d. fst (run_loop demo_platform 20 demo_observation
        (snd (run_loop demo_platform 20 demo_observation (default_orchestrator demo_platform)))) = Inr (demo_observation, d)
     \<and> directive d = CONTINUE"
proof -
  have c: "continuable demo_observation \<lparr>max_depth = 3, max_retries = 2\<rparr>" by (simp add: demo_observation_continuable)
  from run_loop_left_open [OF demo_platform_digests demo_observation_valid(1) c demo_observation_valid(3), of 20]
  show ?thesis by auto
qed

text \<open>
  Property (bounds).  For the first 1024 retries the delay is exactly the doubled base, cut off
  at the cap (no rounding), hence between base and cap and never decreasing; beyond that
  the integer power no longer converts to a double and \<open>delay\<close> raises \<open>OverflowError\<close>.
\<close>

theorem backoff_delay_bounds:
  assumes "new_backoff base cap = Inr bo" "is_double base"
  shows "(1 \<le> n \<and> n \<le> 1024 \<longrightarrow> delay bo n = Inr (min cap (base * 2 ^ nat (n - 1)))
           \<and> base \<le> min cap (base * 2 ^ nat (n - 1)))
    \<and> (1 \<le> i \<and> i \<le> n \<and> n \<le> 1024 \<longrightarrow> (\<exists>d d'. delay bo i = Inr d \<and> delay bo n = Inr d' \<and> d \<le> d'))
    \<and> (1024 < n \<longrightarrow> delay bo n = Inl OverflowError)"
proof -
  have bo: "bo = \<lparr>backoff_base = base, backoff_cap = cap\<rparr>" and pos: "0 < base" "base \<le> cap"
    using assms(1) by (auto simp: new_backoff_def)
  have d: "delay bo n = Inr (min cap (base * 2 ^ nat (n - 1)))" if "1 \<le> n" "n \<le> 1024" for n
    using delay_alt [of bo n] that assms(2) by (simp add: bo)
  have "base * 2 ^ nat (i - 1) \<le> base * 2 ^ nat (n - 1)" if "i \<le> n" for i
    using that pos(1) by (intro mult_left_mono power_increasing) auto
  then have mono: "min cap (base * 2 ^ nat (i - 1)) \<le> min cap (base * 2 ^ nat (n - 1))" if "i \<le> n" for i
    using that by (intro min.mono) auto
  have "base * 1 \<le> base * 2 ^ nat (n - 1)" using pos(1) by (intro mult_left_mono) auto
  then have "base \<le> min cap (base * 2 ^ nat (n - 1))" using pos by simp
  with d mono show ?thesis by (auto simp: delay_def)
qed

theorem backoff_delay_bounds_witness:
  "\<exists>bo. new_backoff 1 8 = Inr bo \<and> delay bo 3 = Inr 4 \<and> delay bo 1025 = Inl OverflowError"
proof -
  have n: "new_backoff 1 8 = Inr \<lparr>backoff_base = 1, backoff_cap = 8\<rparr>" by (simp add: new_backoff_def)
  have "is_double 1" by (simp add: is_double_def)
  from backoff_delay_bounds [OF n this, of 3 1] backoff_delay_bounds [OF n this, of 1025 1] n show ?thesis
    by auto
qed

end
