(* ===== verification/Runtime_Queue.thy ===== *)
theory Runtime_Queue
  imports Py_Platform
begin

section \<open>Durable queue (\<open>infrastructure/runtime/queue.py\<close>)\<close>

text \<open>
  The database queue of the workers: messages with leases, bounded retries and a
  dead-letter state.  The table \<open>runtime_queue_messages\<close> is a list of rows shared by all
  organizations; a transaction is a function on it.  Where the code reads in one statement
  and writes in a later one without holding a lock (\<open>claim\<close>, \<open>requeue_expired\<close>), what the
  other clients commit in between is an argument \<open>env\<close> of the operation; without other
  clients it is the identity.  \<open>fail\<close> reads its row \<open>FOR UPDATE\<close>, so it is one step.

  The clock reading and the drawn \<open>uuid4\<close> values are arguments.  The callbacks of \<open>claim\<close>
  are functions that return a value.  Order among rows with equal sort keys, which SQL
  leaves open, is the order of the table.
\<close>

datatype queue_status = Q_PENDING | Q_LEASED | Q_COMPLETED | Q_DEAD_LETTER

type_synonym payload = "(str, json) dict"

record queue_row =
  q_org :: str
  q_id :: str
  q_topic :: str
  q_payload :: payload
  q_status :: queue_status
  q_attempts :: int
  available_at :: time
  q_lease_until :: "time option"
  q_lease_id :: "str option"
  q_worker_id :: "str option"
  q_last_error :: "str option"
  q_created_at :: time
  updated_at :: time

type_synonym queue_table = "queue_row list"

record queue_message =
  m_id :: str
  m_org :: str
  m_topic :: str
  m_payload :: payload
  m_attempts :: int
  m_lease_id :: "str option"
  m_status :: queue_status
  m_lease_until :: "time option"
  m_worker_id :: "str option"
  m_last_error :: "str option"

definition message_of :: "queue_row \<Rightarrow> queue_message" where
  "message_of r =
     \<lparr>m_id = q_id r, m_org = q_org r, m_topic = q_topic r, m_payload = q_payload r, m_attempts = q_attempts r,
      m_lease_id = q_lease_id r, m_status = q_status r, m_lease_until = q_lease_until r,
      m_worker_id = q_worker_id r, m_last_error = q_last_error r\<rparr>"

record database_queue =
  dq_organization_id :: str
  lease_seconds :: int
  max_attempts :: int

definition new_queue :: "str \<Rightarrow> int \<Rightarrow> int \<Rightarrow> database_queue result" where
  "new_queue org lease attempts =
     raise_if (lease < 1) ValueError
     (raise_if (attempts < 1) ValueError
     (raise_if (strip org = [] \<or> length (strip org) > 128) ValueError
       (Inr \<lparr>dq_organization_id = strip org, lease_seconds = lease, max_attempts = attempts\<rparr>)))"

subsection \<open>SQL on the table\<close>

text \<open>\<open>UPDATE ... SET f WHERE P\<close>; its row count is \<open>hits P\<close>.\<close>

definition upd :: "(queue_row \<Rightarrow> bool) \<Rightarrow> (queue_row \<Rightarrow> queue_row) \<Rightarrow> queue_table \<Rightarrow> queue_table" where
  "upd P f t = map (\<lambda>r. if P r then f r else r) t"

definition hits :: "(queue_row \<Rightarrow> bool) \<Rightarrow> queue_table \<Rightarrow> nat" where
  "hits P t = length (filter P t)"

abbreviation row_key :: "queue_row \<Rightarrow> str \<times> str" where
  "row_key r \<equiv> (q_org r, q_id r)"

definition find_row :: "str \<Rightarrow> str \<Rightarrow> queue_table \<Rightarrow> queue_row option" where
  "find_row org mid t = find (\<lambda>r. row_key r = (org, mid)) t"

text \<open>\<open>now + timedelta(seconds=n)\<close>.\<close>

definition after_seconds :: "time \<Rightarrow> int \<Rightarrow> time result" where
  "after_seconds now n = raise_if (\<not> datetime_range (now + seconds n)) OverflowError (Inr (now + seconds n))"

text \<open>\<open>==\<close> on two payloads.\<close>

definition payload_eq :: "payload \<Rightarrow> payload \<Rightarrow> bool" where
  "payload_eq p p' \<longleftrightarrow> canon (py_num (JObj p)) = canon (py_num (JObj p'))"

subsection \<open>Publication\<close>

text \<open>
  \<open>bound\<close> is the organization the caller's session is bound to.  The insert itself happens
  at the commit (\<open>insert_row\<close>), where a taken primary key raises.
\<close>

definition enqueue_in_session ::
  "database_queue \<Rightarrow> str option \<Rightarrow> time \<Rightarrow> str \<Rightarrow> str \<Rightarrow> payload \<Rightarrow> str option \<Rightarrow> (str \<times> queue_row) result" where
  "enqueue_in_session q bound now uuid topic p mid =
     raise_if (case bound of None \<Rightarrow> False | Some b \<Rightarrow> b \<noteq> dq_organization_id q) RuntimeError
     (let i = (if falsy_opt mid then uuid else the mid)
      in Inr (i, \<lparr>q_org = dq_organization_id q, q_id = i, q_topic = topic, q_payload = p, q_status = Q_PENDING,
                  q_attempts = 0, available_at = now, q_lease_until = None, q_lease_id = None, q_worker_id = None,
                  q_last_error = None, q_created_at = now, updated_at = now\<rparr>))"

definition insert_row :: "queue_row \<Rightarrow> queue_table \<Rightarrow> queue_table result" where
  "insert_row r t = raise_if (row_key r \<in> row_key ` set t) IntegrityError (Inr (t @ [r]))"

definition queue_get :: "database_queue \<Rightarrow> str \<Rightarrow> queue_table \<Rightarrow> queue_message option" where
  "queue_get q mid t = map_option message_of (find_row (dq_organization_id q) mid t)"

text \<open>
  When the commit raises, \<open>message_id\<close> has already been assigned, so the test for \<open>None\<close> in
  the handler never fires and a collision of a drawn identifier is compared like a given
  one.
\<close>

definition publish ::
  "database_queue \<Rightarrow> time \<Rightarrow> str \<Rightarrow> str \<Rightarrow> payload \<Rightarrow> str option \<Rightarrow> queue_table \<Rightarrow> str result \<times> queue_table" where
  "publish q now uuid topic p mid t =
     (case enqueue_in_session q None now uuid topic p mid of
        Inl e \<Rightarrow> (Inl e, t)
      | Inr (i, r) \<Rightarrow>
          (case insert_row r t of
             Inr t' \<Rightarrow> (Inr i, t')
           | Inl e \<Rightarrow>
               (case queue_get q i t of
                  None \<Rightarrow> (Inl ValueError, t)
                | Some ex \<Rightarrow>
                    if m_topic ex \<noteq> topic \<or> \<not> payload_eq (m_payload ex) p then (Inl ValueError, t)
                    else (Inr i, t))))"

subsection \<open>Claims\<close>

definition message_expired :: "time \<Rightarrow> queue_row \<Rightarrow> bool" where
  "message_expired now r \<longleftrightarrow> (case q_lease_until r of None \<Rightarrow> False | Some u \<Rightarrow> u < now)"

text \<open>\<open>status = 'pending' OR (status = 'leased' AND lease_until < now)\<close>\<close>

definition open_row :: "time \<Rightarrow> queue_row \<Rightarrow> bool" where
  "open_row now r \<longleftrightarrow> q_status r = Q_PENDING \<or> q_status r = Q_LEASED \<and> message_expired now r"

definition exhausted_row :: "database_queue \<Rightarrow> time \<Rightarrow> str \<Rightarrow> queue_row \<Rightarrow> bool" where
  "exhausted_row q now topic r \<longleftrightarrow> q_topic r = topic \<and> q_org r = dq_organization_id q
     \<and> q_attempts r \<ge> max_attempts q \<and> open_row now r"

definition claimable_row :: "database_queue \<Rightarrow> time \<Rightarrow> str \<Rightarrow> queue_row \<Rightarrow> bool" where
  "claimable_row q now topic r \<longleftrightarrow> q_topic r = topic \<and> q_org r = dq_organization_id q
     \<and> available_at r \<le> now \<and> q_attempts r < max_attempts q \<and> open_row now r"

definition bury :: "time \<Rightarrow> queue_row \<Rightarrow> queue_row" where
  "bury now r = r\<lparr>q_status := Q_DEAD_LETTER, q_worker_id := None, q_lease_id := None, q_lease_until := None, updated_at := now\<rparr>"

definition candidates ::
  "database_queue \<Rightarrow> time \<Rightarrow> str \<Rightarrow> (payload \<Rightarrow> bool) option \<Rightarrow> (payload \<Rightarrow> 'k :: linorder) option
     \<Rightarrow> queue_table \<Rightarrow> queue_row list" where
  "candidates q now topic eligible order_key t =
     (let rows = sort_key (\<lambda>r. (q_created_at r, q_id r)) (filter (claimable_row q now topic) t);
          cs = filter (\<lambda>r. case eligible of None \<Rightarrow> True | Some f \<Rightarrow> f (q_payload r)) rows
      in case order_key of None \<Rightarrow> cs | Some k \<Rightarrow> sort_key (\<lambda>r. k (q_payload r)) cs)"

text \<open>The compare-and-set: the row still has the status, the attempts and the lease that were read.\<close>

definition unchanged :: "queue_row \<Rightarrow> queue_row \<Rightarrow> bool" where
  "unchanged seen r \<longleftrightarrow> q_org r = q_org seen \<and> q_id r = q_id seen \<and> q_status r = q_status seen
     \<and> q_attempts r = q_attempts seen \<and> q_lease_id r = q_lease_id seen"

definition leased_to :: "str \<Rightarrow> str \<Rightarrow> time \<Rightarrow> time \<Rightarrow> int \<Rightarrow> queue_row \<Rightarrow> queue_row" where
  "leased_to worker lease until now n r = r\<lparr>q_status := Q_LEASED, q_worker_id := Some worker, q_attempts := n,
     q_lease_id := Some lease, q_lease_until := Some until, updated_at := now\<rparr>"

text \<open>
  One transaction of the loop.  The rows it buries first stay locked until it ends; the
  rest of the table is what the other clients have made of it when the compare-and-set
  runs.  \<open>None\<close> is a lost race, after which the transaction is rolled back.
\<close>

definition claim_once ::
  "database_queue \<Rightarrow> time \<Rightarrow> str \<Rightarrow> str \<Rightarrow> (payload \<Rightarrow> bool) option \<Rightarrow> (payload \<Rightarrow> 'k :: linorder) option
     \<Rightarrow> str \<Rightarrow> (queue_table \<Rightarrow> queue_table) \<Rightarrow> queue_table
     \<Rightarrow> queue_message option result option \<times> queue_table" where
  "claim_once q now topic worker eligible order_key uuid env t =
     (let buried = row_key ` set (filter (exhausted_row q now topic) t);
          bury_all = upd (\<lambda>r. row_key r \<in> buried) (bury now)
      in case candidates q now topic eligible order_key (bury_all t) of
           [] \<Rightarrow> (Some (Inr None), bury_all (env t))
         | seen # _ \<Rightarrow>
             (case after_seconds now (lease_seconds q) of
                Inl e \<Rightarrow> (Some (Inl e), env t)
              | Inr until \<Rightarrow>
                  if hits (unchanged seen) (bury_all (env t)) = 1
                  then (Some (Inr (Some \<lparr>m_id = q_id seen, m_org = q_org seen, m_topic = topic,
                                         m_payload = q_payload seen, m_attempts = q_attempts seen + 1,
                                         m_lease_id = Some uuid, m_status = Q_LEASED, m_lease_until = Some until,
                                         m_worker_id = Some worker, m_last_error = None\<rparr>)),
                        upd (unchanged seen) (leased_to worker uuid until now (q_attempts seen + 1)) (bury_all (env t)))
                  else (None, env t)))"

fun claim_loop ::
  "nat \<Rightarrow> database_queue \<Rightarrow> time \<Rightarrow> str \<Rightarrow> str \<Rightarrow> (payload \<Rightarrow> bool) option \<Rightarrow> (payload \<Rightarrow> 'k :: linorder) option
     \<Rightarrow> (nat \<Rightarrow> str) \<Rightarrow> (nat \<Rightarrow> queue_table \<Rightarrow> queue_table) \<Rightarrow> queue_table
     \<Rightarrow> queue_message option result \<times> queue_table" where
  "claim_loop 0 q now topic worker eligible order_key uuids env t = (Inl RuntimeError, t)"
| "claim_loop (Suc n) q now topic worker eligible order_key uuids env t =
     (case claim_once q now topic worker eligible order_key (uuids n) (env n) t of
        (Some r, t') \<Rightarrow> (r, t')
      | (None, t') \<Rightarrow> claim_loop n q now topic worker eligible order_key uuids env t')"

definition queue_claim ::
  "database_queue \<Rightarrow> time \<Rightarrow> str \<Rightarrow> str \<Rightarrow> (payload \<Rightarrow> bool) option \<Rightarrow> (payload \<Rightarrow> 'k :: linorder) option
     \<Rightarrow> (nat \<Rightarrow> str) \<Rightarrow> (nat \<Rightarrow> queue_table \<Rightarrow> queue_table) \<Rightarrow> queue_table
     \<Rightarrow> queue_message option result \<times> queue_table" where
  "queue_claim q now topic worker eligible order_key uuids env t =
     (if blank worker then (Inl ValueError, t)
      else claim_loop 100 q now topic worker eligible order_key uuids env t)"

subsection \<open>Operations of the lease holder\<close>

definition held_by :: "database_queue \<Rightarrow> str \<Rightarrow> str \<Rightarrow> str \<Rightarrow> queue_row \<Rightarrow> bool" where
  "held_by q mid worker lease r \<longleftrightarrow> q_id r = mid \<and> q_org r = dq_organization_id q \<and> q_status r = Q_LEASED
     \<and> q_worker_id r = Some worker \<and> q_lease_id r = Some lease"

definition heartbeat ::
  "database_queue \<Rightarrow> time \<Rightarrow> str \<Rightarrow> str \<Rightarrow> str \<Rightarrow> queue_table \<Rightarrow> unit result \<times> queue_table" where
  "heartbeat q now mid worker lease t =
     (if lease = [] then (Inl ValueError, t)
      else case after_seconds now (lease_seconds q) of
             Inl e \<Rightarrow> (Inl e, t)
           | Inr until \<Rightarrow>
               (let P = (\<lambda>r. held_by q mid worker lease r
                             \<and> (case q_lease_until r of None \<Rightarrow> False | Some u \<Rightarrow> u \<ge> now))
                in if hits P t \<noteq> 1 then (Inl ValueError, t)
                   else (Inr (), upd P (\<lambda>r. r\<lparr>q_lease_until := Some until, updated_at := now\<rparr>) t)))"

text \<open>
  With a result, the payload of the row gets a \<open>completion_result\<close>; the update of a
  \<open>dict\<close> literal overwrites a present key in place.
\<close>

definition transition_row ::
  "database_queue \<Rightarrow> time \<Rightarrow> str \<Rightarrow> str \<Rightarrow> str \<Rightarrow> queue_status \<Rightarrow> str option \<Rightarrow> json option \<Rightarrow> queue_table
     \<Rightarrow> unit result \<times> queue_table" where
  "transition_row q now mid worker lease status err res t =
     (if lease = [] then (Inl ValueError, t)
      else let found = find_row (dq_organization_id q) mid t
           in if res \<noteq> None \<and> found = None then (Inl ValueError, t)
              else let f = (\<lambda>r. r\<lparr>q_status := status, q_lease_id := None, q_lease_until := None, updated_at := now,
                                  q_last_error := err,
                                  q_payload := (case res of
                                                  None \<Rightarrow> q_payload r
                                                | Some v \<Rightarrow> dict_set ''completion_result'' v (q_payload (the found)))\<rparr>)
                   in if hits (held_by q mid worker lease) t \<noteq> 1 then (Inl ValueError, t)
                      else (Inr (), upd (held_by q mid worker lease) f t))"

definition ack ::
  "database_queue \<Rightarrow> time \<Rightarrow> str \<Rightarrow> str \<Rightarrow> str \<Rightarrow> json option \<Rightarrow> queue_table \<Rightarrow> unit result \<times> queue_table" where
  "ack q now mid worker lease res t = transition_row q now mid worker lease Q_COMPLETED None res t"

definition failed_row :: "time \<Rightarrow> str \<Rightarrow> bool \<Rightarrow> time \<Rightarrow> queue_row \<Rightarrow> queue_row" where
  "failed_row now err exhausted av r =
     r\<lparr>q_status := (if exhausted then Q_DEAD_LETTER else Q_PENDING), q_worker_id := None, q_lease_id := None,
       q_lease_until := None, available_at := av, q_last_error := Some err, updated_at := now\<rparr>"

definition queue_fail ::
  "database_queue \<Rightarrow> time \<Rightarrow> str \<Rightarrow> str \<Rightarrow> str \<Rightarrow> str \<Rightarrow> int \<Rightarrow> bool \<Rightarrow> queue_table \<Rightarrow> unit result \<times> queue_table" where
  "queue_fail q now mid worker lease err retry_after retry t =
     (if retry_after < 0 then (Inl ValueError, t)
      else case find_row (dq_organization_id q) mid t of
             None \<Rightarrow> (Inl ValueError, t)
           | Some row \<Rightarrow>
               if \<not> held_by q mid worker lease row then (Inl ValueError, t)
               else let exhausted = (\<not> retry \<or> q_attempts row \<ge> max_attempts q)
                    in case (if exhausted then Inr (available_at row) else after_seconds now retry_after) of
                         Inl e \<Rightarrow> (Inl e, t)
                       | Inr av \<Rightarrow>
                           (Inr (), upd (\<lambda>r. row_key r = row_key row) (failed_row now err exhausted av) t))"

subsection \<open>Recovery and reports\<close>

text \<open>
  The objects are loaded first and written at the commit, by primary key and without a
  check of what the row holds by then.  A leased row has every written column set to
  another value than the loaded one, so all of them are written.
\<close>

definition expired_rows :: "database_queue \<Rightarrow> time \<Rightarrow> nat \<Rightarrow> queue_table \<Rightarrow> queue_row list" where
  "expired_rows q now limit t = take limit (sort_key updated_at
     (filter (\<lambda>r. q_org r = dq_organization_id q \<and> q_status r = Q_LEASED \<and> message_expired now r) t))"

definition requeue_row :: "database_queue \<Rightarrow> time \<Rightarrow> queue_row \<Rightarrow> queue_row \<Rightarrow> queue_row" where
  "requeue_row q now loaded r =
     r\<lparr>q_status := (if q_attempts loaded \<ge> max_attempts q then Q_DEAD_LETTER else Q_PENDING), q_worker_id := None,
       q_lease_id := None, q_lease_until := None, available_at := now, updated_at := now\<rparr>"

definition requeue_expired ::
  "database_queue \<Rightarrow> time \<Rightarrow> nat \<Rightarrow> (queue_table \<Rightarrow> queue_table) \<Rightarrow> queue_table \<Rightarrow> nat \<times> queue_table" where
  "requeue_expired q now limit env t =
     (let rows = expired_rows q now limit t
      in (length rows, fold (\<lambda>l. upd (\<lambda>r. row_key r = row_key l) (requeue_row q now l)) rows (env t)))"

definition of_topic :: "database_queue \<Rightarrow> str option \<Rightarrow> queue_table \<Rightarrow> queue_table" where
  "of_topic q topic t =
     filter (\<lambda>r. q_org r = dq_organization_id q \<and> (case topic of None \<Rightarrow> True | Some x \<Rightarrow> q_topic r = x)) t"

definition dead_letter_count :: "database_queue \<Rightarrow> str option \<Rightarrow> queue_table \<Rightarrow> nat" where
  "dead_letter_count q topic t = length (filter (\<lambda>r. q_status r = Q_DEAD_LETTER) (of_topic q topic t))"

definition queue_list :: "database_queue \<Rightarrow> str option \<Rightarrow> queue_table \<Rightarrow> queue_message list" where
  "queue_list q topic t = map message_of (sort_key q_created_at (of_topic q topic t))"

definition pending_count :: "database_queue \<Rightarrow> str option \<Rightarrow> queue_table \<Rightarrow> nat" where
  "pending_count q topic t = length (filter (\<lambda>m. m_status m = Q_PENDING) (queue_list q topic t))"

subsection \<open>Lemmas on updates\<close>

lemma map_key_upd:
  "(\<And>r. row_key (f r) = row_key r) \<Longrightarrow> map row_key (upd P f t) = map row_key t"
  by (simp add: upd_def)

lemma set_upd: "set (upd P f t) = (\<lambda>r. if P r then f r else r) ` set t"
  by (simp add: upd_def)

lemma upd_none: "(\<And>r. r \<in> set t \<Longrightarrow> \<not> P r) \<Longrightarrow> upd P f t = t"
  by (simp add: upd_def map_idI)

lemma distinct_keys_inj: "distinct (map row_key t) \<Longrightarrow> r \<in> set t \<Longrightarrow> r' \<in> set t \<Longrightarrow> row_key r = row_key r' \<Longrightarrow> r = r'"
  by (meson distinct_map inj_onD)

lemma find_row_Some: "find_row org mid t = Some r \<Longrightarrow> r \<in> set t \<and> row_key r = (org, mid)"
  by (auto simp: find_row_def find_Some_iff)

lemma find_row_iff:
  assumes "distinct (map row_key t)"
  shows "find_row org mid t = Some r \<longleftrightarrow> r \<in> set t \<and> row_key r = (org, mid)"
proof
  assume r: "r \<in> set t \<and> row_key r = (org, mid)"
  then obtain r' where "find_row org mid t = Some r'"
    by (metis (mono_tags, lifting) find_None_iff find_row_def option.exhaust)
  with find_row_Some [OF this] r distinct_keys_inj [OF assms] show "find_row org mid t = Some r" by metis
qed (rule find_row_Some)

lemma find_row_None: "find_row org mid t = None \<longleftrightarrow> (org, mid) \<notin> row_key ` set t"
  by (auto simp: find_row_def find_None_iff)

text \<open>A condition that pins the primary key is met at most once.\<close>

lemma hits_one:
  assumes "distinct (map row_key t)" "\<And>r. P r \<Longrightarrow> row_key r = k"
  shows "hits P t = (if \<exists>r\<in>set t. P r then 1 else 0)"
  using assms
proof (induction t)
  case (Cons a t)
  show ?case
  proof (cases "P a")
    case True
    have new: "row_key a \<notin> row_key ` set t" using Cons.prems(1) by simp
    have "\<not> P r" if "r \<in> set t" for r
    proof
      assume "P r"
      from assms(2) [OF this] assms(2) [OF True] have "row_key r = row_key a" by simp
      moreover from that have "row_key r \<in> row_key ` set t" by (rule imageI)
      ultimately show False using new by (simp only:)
    qed
    then have "filter P t = []" by (simp add: filter_empty_conv)
    with True show ?thesis by (simp add: hits_def)
  next
    case False
    with Cons show ?thesis by (simp add: hits_def)
  qed
qed (simp add: hits_def)

lemma find_row_upd:
  assumes "\<And>r. row_key (f r) = row_key r"
  shows "find_row org mid (upd P f t) = map_option (\<lambda>r. if P r then f r else r) (find_row org mid t)"
  using assms by (induction t) (auto simp: find_row_def upd_def)

subsection \<open>The invariant\<close>

definition row_ok :: "int \<Rightarrow> queue_row \<Rightarrow> bool" where
  "row_ok m r \<longleftrightarrow> 0 \<le> q_attempts r \<and> q_attempts r \<le> m
     \<and> (q_status r = Q_LEASED \<longleftrightarrow> q_lease_id r \<noteq> None) \<and> (q_lease_id r = None \<longleftrightarrow> q_lease_until r = None)
     \<and> (q_status r = Q_LEASED \<longrightarrow> q_worker_id r \<noteq> None)"

definition table_ok :: "int \<Rightarrow> queue_table \<Rightarrow> bool" where
  "table_ok m t \<longleftrightarrow> distinct (map row_key t) \<and> (\<forall>r\<in>set t. row_ok m r)"

lemma table_ok_Nil [simp]: "table_ok m []"
  by (simp add: table_ok_def)

lemma table_ok_upd:
  assumes "table_ok m t" "\<And>r. row_key (f r) = row_key r" "\<And>r. r \<in> set t \<Longrightarrow> P r \<Longrightarrow> row_ok m (f r)"
  shows "table_ok m (upd P f t)"
  using assms map_key_upd [of f P t] by (auto simp: table_ok_def set_upd)

lemma key_bury [simp]: "row_key (bury now r) = row_key r"
  by (simp add: bury_def)

lemma key_leased_to [simp]: "row_key (leased_to w l u now n r) = row_key r"
  by (simp add: leased_to_def)

lemma key_requeue [simp]: "row_key (requeue_row q now l r) = row_key r"
  by (simp add: requeue_row_def)

lemma row_ok_bury [simp]: "row_ok m r \<Longrightarrow> row_ok m (bury now r)"
  by (simp add: row_ok_def bury_def)

lemma row_ok_leased [simp]: "0 \<le> n \<Longrightarrow> n \<le> m \<Longrightarrow> row_ok m (leased_to w l u now n r)"
  by (simp add: row_ok_def leased_to_def)

lemma row_ok_requeue [simp]: "row_ok m r \<Longrightarrow> row_ok m (requeue_row q now l r)"
  by (simp add: row_ok_def requeue_row_def)

text \<open>The rows a claim buries, and the table after that.\<close>

definition bury_exhausted :: "database_queue \<Rightarrow> time \<Rightarrow> str \<Rightarrow> queue_table \<Rightarrow> queue_table \<Rightarrow> queue_table" where
  "bury_exhausted q now topic t =
     upd (\<lambda>r. row_key r \<in> row_key ` set (filter (exhausted_row q now topic) t)) (bury now)"

lemma table_ok_bury_exhausted: "table_ok m t' \<Longrightarrow> table_ok m (bury_exhausted q now topic t t')"
  unfolding bury_exhausted_def by (rule table_ok_upd) (auto simp: table_ok_def)

lemma set_candidates:
  "set (candidates q now topic eligible order_key t) =
     {r \<in> set t. claimable_row q now topic r \<and> (case eligible of None \<Rightarrow> True | Some f \<Rightarrow> f (q_payload r))}"
  by (auto simp: candidates_def Let_def split: option.splits)

text \<open>One transaction of a claim, as its four outcomes.\<close>

lemma claim_once_cases:
  assumes "claim_once q now topic w el ok u env t = (r, t')"
  obtains
    (empty) "r = Some (Inr None)" "t' = bury_exhausted q now topic t (env t)"
      "candidates q now topic el ok (bury_exhausted q now topic t t) = []"
  | (overflow) "r = Some (Inl OverflowError)" "t' = env t"
  | (won) seen until cs where
      "candidates q now topic el ok (bury_exhausted q now topic t t) = seen # cs"
      "hits (unchanged seen) (bury_exhausted q now topic t (env t)) = 1"
      "until = now + seconds (lease_seconds q)"
      "r = Some (Inr (Some \<lparr>m_id = q_id seen, m_org = q_org seen, m_topic = topic, m_payload = q_payload seen,
         m_attempts = q_attempts seen + 1, m_lease_id = Some u, m_status = Q_LEASED, m_lease_until = Some until,
         m_worker_id = Some w, m_last_error = None\<rparr>))"
      "t' = upd (unchanged seen) (leased_to w u until now (q_attempts seen + 1)) (bury_exhausted q now topic t (env t))"
  | (lost) seen cs where "r = None" "t' = env t"
      "candidates q now topic el ok (bury_exhausted q now topic t t) = seen # cs"
      "hits (unchanged seen) (bury_exhausted q now topic t (env t)) \<noteq> 1"
proof (cases "candidates q now topic el ok (bury_exhausted q now topic t t)")
  case Nil
  with assms empty show ?thesis by (simp add: claim_once_def bury_exhausted_def Let_def)
next
  case (Cons seen cs)
  note c = Cons [unfolded bury_exhausted_def]
  show ?thesis
  proof (cases "datetime_range (now + seconds (lease_seconds q))")
    case False
    with assms overflow c show ?thesis by (simp add: claim_once_def Let_def after_seconds_def)
  next
    case True
    with assms c won [OF Cons] lost [OF _ _ Cons] show ?thesis
      by (auto simp: claim_once_def Let_def after_seconds_def bury_exhausted_def split: if_splits)
  qed
qed

lemma candidate_in_table:
  assumes "candidates q now topic el ok (bury_exhausted q now topic t t) = seen # cs"
  shows "seen \<in> set t" "claimable_row q now topic seen"
proof -
  have s: "seen \<in> set (bury_exhausted q now topic t t)" "claimable_row q now topic seen"
    using assms set_candidates [of q now topic el ok "bury_exhausted q now topic t t"] by auto
  then have "q_status seen \<noteq> Q_DEAD_LETTER" by (auto simp: claimable_row_def open_row_def)
  with s(1) show "seen \<in> set t" "claimable_row q now topic seen"
    using s(2) by (auto simp: bury_exhausted_def set_upd bury_def split: if_splits)
qed

lemma table_ok_claim_once:
  assumes "claim_once q now topic w el ok u env t = (r, t')" "table_ok (max_attempts q) t"
    "table_ok (max_attempts q) (env t)"
  shows "table_ok (max_attempts q) t'"
  using assms(1)
proof (cases rule: claim_once_cases)
  case (won seen until cs)
  from candidate_in_table [OF won(1)] assms(2) have "0 \<le> q_attempts seen + 1" "q_attempts seen + 1 \<le> max_attempts q"
    by (auto simp: table_ok_def row_ok_def claimable_row_def)
  then show ?thesis unfolding won(5)
    by (intro table_ok_upd table_ok_bury_exhausted assms(3)) simp_all
qed (use assms(3) in \<open>simp_all add: table_ok_bury_exhausted\<close>)

lemma table_ok_claim_loop:
  assumes "claim_loop n q now topic w el ok us env t = (r, t')" "table_ok (max_attempts q) t"
    "\<And>i t. table_ok (max_attempts q) t \<Longrightarrow> table_ok (max_attempts q) (env i t)"
  shows "table_ok (max_attempts q) t'"
  using assms(1,2)
proof (induction n arbitrary: t)
  case (Suc n)
  obtain r1 t1 where c: "claim_once q now topic w el ok (us n) (env n) t = (r1, t1)" by fastforce
  from table_ok_claim_once [OF c Suc.prems(2) assms(3)] Suc.prems have "table_ok (max_attempts q) t1" by simp
  with c Suc show ?case by (auto split: option.splits)
qed simp

lemma table_ok_claim:
  assumes "queue_claim q now topic w el ok us env t = (r, t')" "table_ok (max_attempts q) t"
    "\<And>i t. table_ok (max_attempts q) t \<Longrightarrow> table_ok (max_attempts q) (env i t)"
  shows "table_ok (max_attempts q) t'"
  using assms table_ok_claim_loop [of 100 q now topic w el ok us env t r t']
  by (auto simp: queue_claim_def simp del: claim_loop.simps split: if_splits)

subsection \<open>Runs of the queue\<close>

text \<open>
  The clients of a table, whatever organization they work for, agree on \<open>max_attempts\<close>.
  \<open>queue_step m org t l t'\<close> is one call by a client of \<open>org\<close>; the label \<open>l\<close> is the message
  and the lease a claim has handed out.  \<open>queue_run\<close> keeps the log of these labels; the
  identifiers \<open>uuid4\<close> draws for leases do not repeat in it.
\<close>

type_synonym claim_label = "(str \<times> str) \<times> str"

inductive queue_step :: "int \<Rightarrow> str \<Rightarrow> queue_table \<Rightarrow> claim_label option \<Rightarrow> queue_table \<Rightarrow> bool"
  for m org where
  step_publish: "max_attempts q = m \<Longrightarrow> dq_organization_id q = org \<Longrightarrow>
    publish q now u topic p mid t = (res, t') \<Longrightarrow> queue_step m org t None t'"
| step_enqueue: "max_attempts q = m \<Longrightarrow> dq_organization_id q = org \<Longrightarrow>
    enqueue_in_session q b now u topic p mid = Inr (i, r) \<Longrightarrow> insert_row r t = Inr t' \<Longrightarrow> queue_step m org t None t'"
| step_claim: "max_attempts q = m \<Longrightarrow> dq_organization_id q = org \<Longrightarrow>
    queue_claim q now topic w el (ok :: (payload \<Rightarrow> int \<times> str) option) us (\<lambda>_. id) t = (Inr (Some msg), t') \<Longrightarrow>
    m_lease_id msg = Some l \<Longrightarrow> queue_step m org t (Some ((m_org msg, m_id msg), l)) t'"
| step_no_claim: "max_attempts q = m \<Longrightarrow> dq_organization_id q = org \<Longrightarrow>
    queue_claim q now topic w el (ok :: (payload \<Rightarrow> int \<times> str) option) us (\<lambda>_. id) t = (res, t') \<Longrightarrow>
    (\<forall>msg. res \<noteq> Inr (Some msg)) \<Longrightarrow> queue_step m org t None t'"
| step_heartbeat: "max_attempts q = m \<Longrightarrow> dq_organization_id q = org \<Longrightarrow>
    heartbeat q now mid w l t = (ures, t') \<Longrightarrow> queue_step m org t None t'"
| step_ack: "max_attempts q = m \<Longrightarrow> dq_organization_id q = org \<Longrightarrow>
    ack q now mid w l v t = (ures, t') \<Longrightarrow> queue_step m org t None t'"
| step_fail: "max_attempts q = m \<Longrightarrow> dq_organization_id q = org \<Longrightarrow>
    queue_fail q now mid w l err after retry t = (ures, t') \<Longrightarrow> queue_step m org t None t'"
| step_requeue: "max_attempts q = m \<Longrightarrow> dq_organization_id q = org \<Longrightarrow>
    requeue_expired q now limit id t = (n, t') \<Longrightarrow> queue_step m org t None t'"

inductive queue_run :: "int \<Rightarrow> queue_table \<Rightarrow> claim_label list \<Rightarrow> bool" for m where
  run_start: "queue_run m [] []"
| run_step: "queue_run m t hist \<Longrightarrow> queue_step m org t None t' \<Longrightarrow> queue_run m t' hist"
| run_claim: "queue_run m t hist \<Longrightarrow> queue_step m org t (Some (k, l)) t' \<Longrightarrow> l \<notin> snd ` set hist \<Longrightarrow>
    queue_run m t' (hist @ [(k, l)])"

text \<open>What a call does to one row that is in the table.\<close>

definition live :: "queue_row \<Rightarrow> bool" where
  "live r \<longleftrightarrow> q_status r = Q_PENDING \<or> q_status r = Q_LEASED"

definition claims_row :: "claim_label option \<Rightarrow> queue_row \<Rightarrow> bool" where
  "claims_row lab r \<longleftrightarrow> (\<exists>l. lab = Some (row_key r, l))"

definition row_move :: "int \<Rightarrow> str \<Rightarrow> claim_label option \<Rightarrow> queue_row \<Rightarrow> queue_row \<Rightarrow> bool" where
  "row_move m org lab r r' \<longleftrightarrow> row_key r' = row_key r \<and> (row_ok m r \<longrightarrow> row_ok m r')
     \<and> (if claims_row lab r
        then live r \<and> q_org r = org \<and> q_attempts r < m \<and> q_status r' = Q_LEASED \<and> q_attempts r' = q_attempts r + 1
             \<and> q_lease_id r' = map_option snd lab
        else q_attempts r' = q_attempts r
             \<and> (r' = r \<or> live r \<and> q_org r = org
                  \<and> (q_status r' \<noteq> Q_LEASED \<and> q_lease_id r' = None
                     \<or> q_status r' = Q_LEASED \<and> q_status r = Q_LEASED \<and> q_lease_id r' = q_lease_id r)))"

definition new_row :: "str \<Rightarrow> queue_table \<Rightarrow> queue_row \<Rightarrow> bool" where
  "new_row org t r \<longleftrightarrow> row_key r \<notin> row_key ` set t \<and> q_org r = org \<and> q_status r = Q_PENDING \<and> q_attempts r = 0
     \<and> q_lease_id r = None \<and> q_lease_until r = None"

definition table_move :: "int \<Rightarrow> str \<Rightarrow> claim_label option \<Rightarrow> queue_table \<Rightarrow> queue_table \<Rightarrow> bool" where
  "table_move m org lab t t' \<longleftrightarrow>
     (\<exists>g new. t' = map g t @ new \<and> (\<forall>r\<in>set t. row_move m org lab r (g r))
        \<and> (new = [] \<or> (\<exists>r. new = [r] \<and> new_row org t r)) \<and> (\<forall>k l. lab = Some (k, l) \<longrightarrow> k \<in> row_key ` set t))"

lemma row_move_refl [simp]: "\<not> claims_row lab r \<Longrightarrow> row_move m org lab r r"
  by (simp add: row_move_def)

lemma not_claims_None [simp]: "\<not> claims_row None r"
  by (simp add: claims_row_def)

lemma table_move_refl [simp]: "table_move m org None t t"
  unfolding table_move_def by (intro exI [of _ id] exI [of _ "[]"]) simp

lemma table_move_upd:
  assumes "\<And>r. r \<in> set t \<Longrightarrow> P r \<Longrightarrow> row_move m org None r (f r)"
  shows "table_move m org None t (upd P f t)"
  unfolding table_move_def upd_def using assms by (intro exI [of _ "\<lambda>r. if P r then f r else r"] exI [of _ "[]"]) auto

lemma table_move_append:
  "new_row org t r \<Longrightarrow> table_move m org None t (t @ [r])"
  unfolding table_move_def by (intro exI [of _ id] exI [of _ "[r]"]) auto

subsection \<open>Every call moves its rows\<close>

lemma insert_row_move:
  assumes "enqueue_in_session q b now u topic p mid = Inr (i, r)" "insert_row r t = Inr t'"
  shows "table_move m (dq_organization_id q) None t t'"
proof -
  from assms have "t' = t @ [r]" "new_row (dq_organization_id q) t r"
    by (auto simp: enqueue_in_session_def insert_row_def new_row_def Let_def)
  then show ?thesis by (simp add: table_move_append)
qed

lemma publish_move:
  assumes "publish q now u topic p mid t = (res, t')"
  shows "table_move m (dq_organization_id q) None t t'"
proof (cases "enqueue_in_session q None now u topic p mid")
  case (Inr x)
  then obtain i r where e: "enqueue_in_session q None now u topic p mid = Inr (i, r)" by (cases x) simp
  show ?thesis
  proof (cases "insert_row r t")
    case Inl
    with e assms have "t' = t" by (auto simp: publish_def split: option.splits if_splits)
    then show ?thesis by simp
  next
    case (Inr t1)
    with e assms have "t' = t1" by (simp add: publish_def)
    with insert_row_move [OF e] Inr show ?thesis by simp
  qed
qed (use assms in \<open>simp add: publish_def\<close>)

lemma heartbeat_move:
  assumes "heartbeat q now mid w l t = (res, t')"
  shows "table_move m (dq_organization_id q) None t t'"
proof -
  have "t' = t \<or> (\<exists>P u. t' = upd P (\<lambda>r. r\<lparr>q_lease_until := Some u, updated_at := now\<rparr>) t \<and> (\<forall>r. P r \<longrightarrow> held_by q mid w l r))"
    using assms by (fastforce simp: heartbeat_def Let_def split: if_splits sum.splits)
  then show ?thesis
    by (auto intro!: table_move_upd simp: row_move_def live_def row_ok_def held_by_def)
qed

lemma transition_move:
  assumes "transition_row q now mid w l st err v t = (res, t')" "st \<noteq> Q_LEASED"
  shows "table_move m (dq_organization_id q) None t t'"
  using assms
  by (auto simp: transition_row_def Let_def row_move_def live_def row_ok_def held_by_def intro!: table_move_upd split: if_splits)

lemma queue_fail_cases:
  assumes "queue_fail q now mid w l err after retry t = (res, t')"
  obtains (raised) e where "res = Inl e" "t' = t"
  | (failed) row ex av where "res = Inr ()" "find_row (dq_organization_id q) mid t = Some row" "held_by q mid w l row"
      "ex \<longleftrightarrow> \<not> retry \<or> max_attempts q \<le> q_attempts row" "t' = upd (\<lambda>r. row_key r = row_key row) (failed_row now err ex av) t"
proof (cases "find_row (dq_organization_id q) mid t")
  case None
  with assms raised show ?thesis by (auto simp: queue_fail_def split: if_splits)
next
  case (Some row)
  show ?thesis
  proof (cases "held_by q mid w l row \<and> \<not> after < 0")
    case False
    with assms raised Some show ?thesis by (auto simp: queue_fail_def split: if_splits)
  next
    case True
    let ?ex = "\<not> retry \<or> max_attempts q \<le> q_attempts row"
    show ?thesis
    proof (cases "if ?ex then Inr (available_at row) else after_seconds now after")
      case (Inl e)
      with assms Some True have "res = Inl e" "t' = t" by (simp_all add: queue_fail_def Let_def)
      then show ?thesis by (rule raised)
    next
      case (Inr av)
      with assms Some True have "res = Inr ()" "t' = upd (\<lambda>r. row_key r = row_key row) (failed_row now err ?ex av) t"
        by (simp_all add: queue_fail_def Let_def)
      with failed Some True show ?thesis by blast
    qed
  qed
qed

lemma fail_move:
  assumes "queue_fail q now mid w l err after retry t = (res, t')" "distinct (map row_key t)"
  shows "table_move m (dq_organization_id q) None t t'"
  using assms(1)
proof (cases rule: queue_fail_cases)
  case (failed row ex av)
  have "r = row" if "r \<in> set t" "row_key r = row_key row" for r
    using that find_row_Some [OF failed(2)] distinct_keys_inj [OF assms(2), of r row] by simp
  with failed(3) show ?thesis unfolding failed(5)
    by (intro table_move_upd) (auto simp: row_move_def live_def row_ok_def held_by_def failed_row_def)
qed simp

text \<open>Writing the loaded rows back one by one is one update of the rows with their keys.\<close>

lemma fold_upd_keys:
  assumes "distinct (map row_key ls)" "\<And>l r. row_key (f l r) = row_key r"
  shows "fold (\<lambda>l. upd (\<lambda>r. row_key r = row_key l) (f l)) ls t
    = map (\<lambda>r. case find (\<lambda>l. row_key l = row_key r) ls of None \<Rightarrow> r | Some l \<Rightarrow> f l r) t"
  using assms(1)
proof (induction ls arbitrary: t)
  case (Cons l ls)
  have none: "find (\<lambda>x. row_key x = row_key l) ls = None"
    using Cons.prems by (simp add: find_None_iff image_iff) metis
  have "(case find (\<lambda>x. row_key x = row_key (if row_key r = row_key l then f l r else r)) ls of
           None \<Rightarrow> (if row_key r = row_key l then f l r else r)
         | Some x \<Rightarrow> f x (if row_key r = row_key l then f l r else r))
      = (case find (\<lambda>x. row_key x = row_key r) (l # ls) of None \<Rightarrow> r | Some x \<Rightarrow> f x r)" for r
    using none assms(2) [of l r] by (cases "row_key r = row_key l") auto
  note point = this
  have "distinct (map row_key ls)" using Cons.prems by simp
  from Cons.IH [OF this, of "upd (\<lambda>r. row_key r = row_key l) (f l) t"] show ?case
    unfolding fold_Cons comp_def by (simp only: upd_def [abs_def] map_map comp_def point)
qed simp

lemma expired_rows_set:
  "l \<in> set (expired_rows q now limit t) \<Longrightarrow>
     l \<in> set t \<and> q_org l = dq_organization_id q \<and> q_status l = Q_LEASED \<and> message_expired now l"
  unfolding expired_rows_def by (drule in_set_takeD) auto

lemma distinct_expired_rows:
  assumes "distinct (map row_key t)"
  shows "distinct (map row_key (expired_rows q now limit t))"
proof -
  let ?f = "filter (\<lambda>r. q_org r = dq_organization_id q \<and> q_status r = Q_LEASED \<and> message_expired now r) t"
  have "mset (map row_key (sort_key updated_at ?f)) = mset (map row_key ?f)" by simp
  from mset_eq_imp_distinct_iff [OF this] distinct_map_filter [OF assms]
  have "distinct (map row_key (sort_key updated_at ?f))" by simp
  then show ?thesis unfolding expired_rows_def take_map [symmetric] by (rule distinct_take)
qed

lemma requeue_move:
  assumes "requeue_expired q now limit id t = (n, t')" "distinct (map row_key t)"
  shows "table_move m (dq_organization_id q) None t t'"
proof -
  let ?ls = "expired_rows q now limit t"
  let ?g = "\<lambda>r. case find (\<lambda>l. row_key l = row_key r) ?ls of None \<Rightarrow> r | Some l \<Rightarrow> requeue_row q now l r"
  have t': "t' = map ?g t"
    using assms(1) fold_upd_keys [OF distinct_expired_rows [OF assms(2)], of "requeue_row q now" q now limit t]
    by (simp add: requeue_expired_def Let_def)
  have "row_move m (dq_organization_id q) None r (?g r)" if r: "r \<in> set t" for r
  proof (cases "find (\<lambda>l. row_key l = row_key r) ?ls")
    case (Some l)
    then have "l \<in> set ?ls" "row_key l = row_key r" by (auto simp: find_Some_iff)
    with expired_rows_set [OF this(1)] r have "l = r" by (intro distinct_keys_inj [OF assms(2)]) auto
    with Some expired_rows_set [OF \<open>l \<in> set ?ls\<close>] show ?thesis
      by (auto simp: row_move_def live_def row_ok_def requeue_row_def)
  qed simp
  then show ?thesis unfolding table_move_def t' by (intro exI [of _ ?g] exI [of _ "[]"]) simp
qed

text \<open>Without other clients the compare-and-set never loses.\<close>

lemma candidate_still_there:
  assumes "candidates q now topic el ok (bury_exhausted q now topic t t) = seen # cs" "distinct (map row_key t)"
  shows "hits (unchanged seen) (bury_exhausted q now topic t t) = 1"
proof -
  have "distinct (map row_key (bury_exhausted q now topic t t))"
    using assms(2) unfolding bury_exhausted_def by (subst map_key_upd) simp_all
  moreover have "seen \<in> set (bury_exhausted q now topic t t)"
    using assms(1) set_candidates [of q now topic el ok "bury_exhausted q now topic t t"] by auto
  ultimately show ?thesis
    by (subst hits_one [where k = "row_key seen"]) (auto simp: unchanged_def)
qed

lemma queue_claim_alone:
  assumes "distinct (map row_key t)" "\<not> blank w"
  shows "\<exists>r t'. claim_once q now topic w el ok (us 99) id t = (Some r, t')
    \<and> queue_claim q now topic w el ok us (\<lambda>_. id) t = (r, t')"
proof -
  obtain r t' where c: "claim_once q now topic w el ok (us 99) id t = (r, t')" by fastforce
  then have "r \<noteq> None"
  proof (cases rule: claim_once_cases)
    case (lost seen cs)
    from candidate_still_there [OF lost(3) assms(1)] lost(4) show ?thesis by simp
  qed simp_all
  then obtain x where x: "r = Some x" by blast
  have n: "(100 :: nat) = Suc 99" by simp
  show ?thesis using c x assms(2) unfolding queue_claim_def n claim_loop.simps by simp
qed

lemma claim_once_move:
  assumes "claim_once q now topic w el ok u id t = (Some r, t')" "distinct (map row_key t)"
  shows "case r of
      Inr (Some msg) \<Rightarrow> m_lease_id msg = Some u
        \<and> table_move (max_attempts q) (dq_organization_id q) (Some ((m_org msg, m_id msg), u)) t t'
    | _ \<Rightarrow> table_move (max_attempts q) (dq_organization_id q) None t t'"
proof -
  let ?B = "\<lambda>r. row_key r \<in> row_key ` set (filter (exhausted_row q now topic) t)"
  have ex: "exhausted_row q now topic r" if "r \<in> set t" "?B r" for r
  proof -
    from that(2) obtain r' where r': "row_key r = row_key r'" "r' \<in> set t" "exhausted_row q now topic r'" by auto
    from distinct_keys_inj [OF assms(2) that(1) r'(2,1)] r'(3) show ?thesis by simp
  qed
  have bury: "row_move (max_attempts q) (dq_organization_id q) lab r (bury now r)"
    if "r \<in> set t" "?B r" "\<not> claims_row lab r" for r lab
    using ex [OF that(1,2)] that(3)
    by (auto simp: row_move_def live_def row_ok_def bury_def exhausted_row_def open_row_def)
  from assms(1) show ?thesis
  proof (cases rule: claim_once_cases)
    case empty
    have "table_move (max_attempts q) (dq_organization_id q) None t t'"
      unfolding empty(2) bury_exhausted_def id_apply by (intro table_move_upd bury) simp_all
    with empty show ?thesis by simp
  next
    case (won seen until cs)
    note seen = candidate_in_table [OF won(1)]
    let ?lab = "Some (row_key seen, u)"
    let ?g = "\<lambda>r. if row_key r = row_key seen then leased_to w u until now (q_attempts seen + 1) seen
                   else if ?B r then bury now r else r"
    have nb: "\<not> ?B seen"
    proof
      assume "?B seen"
      from ex [OF seen(1) this] seen(2) show False by (simp add: exhausted_row_def claimable_row_def)
    qed
    have g: "(let r' = (if ?B r then bury now r else r) in
          if unchanged seen r' then leased_to w u until now (q_attempts seen + 1) r' else r') = ?g r" if r: "r \<in> set t" for r
    proof (cases "row_key r = row_key seen")
      case True
      then have "r = seen" by (rule distinct_keys_inj [OF assms(2) r seen(1)])
      with nb show ?thesis by (simp add: unchanged_def Let_def)
    next
      case False
      then have "\<not> unchanged seen r" "\<not> unchanged seen (bury now r)" by (auto simp: unchanged_def bury_def)
      then show ?thesis using False by (auto simp: Let_def)
    qed
    have t': "t' = map ?g t"
      unfolding won(5) bury_exhausted_def upd_def map_map comp_def id_apply
      by (rule map_cong [OF refl]) (rule g [unfolded Let_def])
    have "row_move (max_attempts q) (dq_organization_id q) ?lab r (?g r)" if r: "r \<in> set t" for r
    proof (cases "row_key r = row_key seen")
      case True
      then have "r = seen" by (rule distinct_keys_inj [OF assms(2) r seen(1)])
      with seen(2) show ?thesis
        by (auto simp: row_move_def claims_row_def live_def row_ok_def leased_to_def claimable_row_def open_row_def)
    next
      case False
      then have "\<not> claims_row ?lab r" by (auto simp: claims_row_def)
      then show ?thesis using False bury [OF r] by auto
    qed
    then have "table_move (max_attempts q) (dq_organization_id q) ?lab t t'"
      unfolding table_move_def t' using seen(1) by (intro exI [of _ ?g] exI [of _ "[]"]) auto
    with won(4) show ?thesis by simp
  qed simp_all
qed

lemma claim_move:
  assumes "queue_claim q now topic w el ok us (\<lambda>_. id) t = (r, t')" "distinct (map row_key t)"
  shows "case r of
      Inr (Some msg) \<Rightarrow> m_lease_id msg = Some (us 99)
        \<and> table_move (max_attempts q) (dq_organization_id q) (Some ((m_org msg, m_id msg), us 99)) t t'
    | _ \<Rightarrow> table_move (max_attempts q) (dq_organization_id q) None t t'"
proof (cases "blank w")
  case True
  with assms(1) show ?thesis by (auto simp: queue_claim_def)
next
  case False
  from queue_claim_alone [OF assms(2) this, of q now topic el ok us] assms(1)
  have "claim_once q now topic w el ok (us 99) id t = (Some r, t')" by auto
  from claim_once_move [OF this assms(2)] show ?thesis .
qed

lemma queue_step_move:
  assumes "queue_step m org t lab t'" "distinct (map row_key t)"
  shows "table_move m org lab t t'"
  using assms
proof (induction rule: queue_step.induct)
  case (step_claim q now topic w el ok us t msg t' l)
  from claim_move [OF step_claim(3,5)] step_claim show ?case by simp
next
  case (step_no_claim q now topic w el ok us t res t')
  from claim_move [OF step_no_claim(3,5)] step_no_claim show ?case by (auto split: sum.splits option.splits)
next
  case (step_ack q now mid w l v t ures t')
  from step_ack(3) show ?case unfolding ack_def step_ack(1,2) [symmetric] by (rule transition_move) simp
qed (auto intro: publish_move insert_row_move heartbeat_move fail_move requeue_move)

lemma table_move_ok:
  assumes "table_move m org lab t t'" "table_ok m t" "0 \<le> m"
  shows "table_ok m t'"
proof -
  obtain g new where t': "t' = map g t @ new" and g: "\<forall>r\<in>set t. row_move m org lab r (g r)"
    and new: "new = [] \<or> (\<exists>r. new = [r] \<and> new_row org t r)"
    using assms(1) by (auto simp: table_move_def)
  have keys: "map row_key (map g t) = map row_key t" using g by (simp add: row_move_def)
  from new assms(2) have "distinct (map row_key t @ map row_key new)"
    by (elim disjE exE conjE) (auto simp: table_ok_def new_row_def)
  then have "distinct (map row_key t')" unfolding t' map_append keys .
  moreover have "row_ok m r" if "r \<in> set t'" for r
    using that g new assms(2,3) by (auto simp: t' table_ok_def row_move_def new_row_def row_ok_def)
  ultimately show ?thesis by (simp add: table_ok_def)
qed

lemma queue_step_ok: "queue_step m org t lab t' \<Longrightarrow> table_ok m t \<Longrightarrow> 0 \<le> m \<Longrightarrow> table_ok m t'"
  by (rule table_move_ok [OF queue_step_move]) (auto simp: table_ok_def)

text \<open>What the log says about the table.\<close>

definition deliveries :: "str \<times> str \<Rightarrow> claim_label list \<Rightarrow> str list" where
  "deliveries k hist = map snd (filter (\<lambda>(k', l). k' = k) hist)"

definition log_ok :: "queue_table \<Rightarrow> claim_label list \<Rightarrow> bool" where
  "log_ok t hist \<longleftrightarrow> fst ` set hist \<subseteq> row_key ` set t \<and> distinct (map snd hist)
     \<and> (\<forall>r\<in>set t. q_attempts r = int (length (deliveries (row_key r) hist))
          \<and> (q_status r = Q_LEASED \<longrightarrow> deliveries (row_key r) hist \<noteq> []
               \<and> q_lease_id r = Some (last (deliveries (row_key r) hist))))"

lemma deliveries_none: "k \<notin> fst ` set hist \<Longrightarrow> deliveries k hist = []"
  by (force simp: deliveries_def filter_empty_conv)

lemma deliveries_snoc [simp]:
  "deliveries k (hist @ [(k', l)]) = deliveries k hist @ (if k' = k then [l] else [])"
  by (simp add: deliveries_def)

lemma log_ok_row:
  assumes "row_move m org lab r r'" "q_attempts r = int (length (deliveries (row_key r) hist))"
    "q_status r = Q_LEASED \<longrightarrow> deliveries (row_key r) hist \<noteq> [] \<and> q_lease_id r = Some (last (deliveries (row_key r) hist))"
    "hist' = hist @ (case lab of None \<Rightarrow> [] | Some e \<Rightarrow> [e])"
  shows "q_attempts r' = int (length (deliveries (row_key r') hist'))
    \<and> (q_status r' = Q_LEASED \<longrightarrow> deliveries (row_key r') hist' \<noteq> []
         \<and> q_lease_id r' = Some (last (deliveries (row_key r') hist')))"
proof (cases "claims_row lab r")
  case True
  then obtain l where lab: "lab = Some (row_key r, l)" by (auto simp: claims_row_def)
  with True assms(1) have r': "row_key r' = row_key r" "q_attempts r' = q_attempts r + 1" "q_lease_id r' = Some l"
    by (auto simp: row_move_def)
  show ?thesis using assms(2) unfolding assms(4) lab r'(1) by (simp add: r'(2,3))
next
  case False
  with assms(4) have "deliveries (row_key r) hist' = deliveries (row_key r) hist"
    by (cases lab) (auto simp: claims_row_def)
  moreover from False assms(1) have "row_key r' = row_key r" "q_attempts r' = q_attempts r"
    "q_status r' = Q_LEASED \<longrightarrow> q_status r = Q_LEASED \<and> q_lease_id r' = q_lease_id r"
    by (auto simp: row_move_def)
  ultimately show ?thesis using assms(2,3) by simp
qed

lemma log_ok_move:
  assumes "table_move m org lab t t'" "log_ok t hist" "hist' = hist @ (case lab of None \<Rightarrow> [] | Some e \<Rightarrow> [e])"
    "distinct (map snd hist')"
  shows "log_ok t' hist'"
proof -
  obtain g new where t': "t' = map g t @ new" and g: "\<forall>r\<in>set t. row_move m org lab r (g r)"
    and new: "new = [] \<or> (\<exists>r. new = [r] \<and> new_row org t r)" and lab: "\<forall>k l. lab = Some (k, l) \<longrightarrow> k \<in> row_key ` set t"
    using assms(1) by (auto simp: table_move_def)
  have keys: "row_key ` g ` set t = row_key ` set t"
    using g unfolding image_image by (intro image_cong) (auto simp: row_move_def)
  have in_t: "fst ` set hist' \<subseteq> row_key ` set t"
    using assms(2,3) lab by (auto simp: log_ok_def split: option.splits)
  have "row_key ` set t' = row_key ` set t \<union> row_key ` set new" unfolding t' set_append image_Un set_map keys ..
  with in_t have "fst ` set hist' \<subseteq> row_key ` set t'" by blast
  moreover have "q_attempts r = int (length (deliveries (row_key r) hist'))
      \<and> (q_status r = Q_LEASED \<longrightarrow> deliveries (row_key r) hist' \<noteq> []
           \<and> q_lease_id r = Some (last (deliveries (row_key r) hist')))" if r: "r \<in> set t'" for r
  proof (cases "r \<in> set new")
    case True
    with new have n: "new_row org t r" by auto
    then have "row_key r \<notin> fst ` set hist'" using in_t by (auto simp: new_row_def)
    with n show ?thesis by (simp add: deliveries_none new_row_def)
  next
    case False
    with r obtain r0 where r0: "r0 \<in> set t" "r = g r0" by (auto simp: t')
    show ?thesis unfolding r0(2)
      by (rule log_ok_row [OF bspec [OF g r0(1)] _ _ assms(3)]) (use assms(2) r0(1) in \<open>auto simp: log_ok_def\<close>)
  qed
  ultimately show ?thesis using assms(4) by (simp add: log_ok_def)
qed

lemma queue_run_ok: "queue_run m t hist \<Longrightarrow> 0 \<le> m \<Longrightarrow> table_ok m t \<and> log_ok t hist"
proof (induction rule: queue_run.induct)
  case run_start
  show ?case by (simp add: log_ok_def)
next
  case (run_step t hist org t')
  then have ok: "table_ok m t" "log_ok t hist" by auto
  have "table_move m org None t t'" using run_step(2) ok(1) by (auto intro: queue_step_move simp: table_ok_def)
  from table_move_ok [OF this ok(1) \<open>0 \<le> m\<close>] log_ok_move [OF this ok(2), of hist] ok(2) show ?case
    by (simp add: log_ok_def)
next
  case (run_claim t hist org k l t')
  then have ok: "table_ok m t" "log_ok t hist" by auto
  have "table_move m org (Some (k, l)) t t'" using run_claim(2) ok(1) by (auto intro: queue_step_move simp: table_ok_def)
  from table_move_ok [OF this ok(1) \<open>0 \<le> m\<close>] log_ok_move [OF this ok(2), of "hist @ [(k, l)]"] ok(2) run_claim(3)
  show ?case by (simp add: log_ok_def)
qed

subsection \<open>Who may act on a row\<close>

lemma hits_none: "(\<And>r. r \<in> set t \<Longrightarrow> \<not> P r) \<Longrightarrow> hits P t = 0"
  by (simp add: hits_def filter_empty_conv)

text \<open>A caller that does not hold the lease is turned away and changes nothing.\<close>

lemma not_holder_rejected:
  assumes "\<forall>r\<in>set t. \<not> held_by q mid w l r"
  shows "\<exists>e. heartbeat q now mid w l t = (Inl e, t)"
    "ack q now mid w l v t = (Inl ValueError, t)"
    "queue_fail q now mid w l err after retry t = (Inl ValueError, t)"
proof -
  have h: "hits (\<lambda>r. held_by q mid w l r \<and> P r) t = 0" for P
    using assms by (intro hits_none) simp
  show "\<exists>e. heartbeat q now mid w l t = (Inl e, t)"
    using h by (auto simp: heartbeat_def Let_def split: sum.split)
  have "hits (held_by q mid w l) t = 0" using h [of "\<lambda>_. True"] by simp
  then show "ack q now mid w l v t = (Inl ValueError, t)"
    by (simp add: ack_def transition_row_def Let_def)
  show "queue_fail q now mid w l err after retry t = (Inl ValueError, t)"
    using assms find_row_Some by (auto simp: queue_fail_def split: option.splits)
qed

lemma held_row_unique:
  assumes "distinct (map row_key t)" "r \<in> set t" "held_by q mid w l r"
  shows "find_row (dq_organization_id q) mid t = Some r" "hits (held_by q mid w l) t = 1"
proof -
  show "find_row (dq_organization_id q) mid t = Some r"
    using assms by (subst find_row_iff [OF assms(1)]) (simp add: held_by_def)
  show "hits (held_by q mid w l) t = 1"
    using assms by (subst hits_one [OF assms(1), where k = "(dq_organization_id q, mid)"]) (auto simp: held_by_def)
qed

lemma ack_Inr:
  assumes "ack q now mid w l v t = (Inr (), t')" "distinct (map row_key t)"
  obtains r where "find_row (dq_organization_id q) mid t = Some r" "held_by q mid w l r"
    "find_row (dq_organization_id q) mid t' = Some (r\<lparr>q_status := Q_COMPLETED, q_lease_id := None, q_lease_until := None,
       updated_at := now, q_last_error := None,
       q_payload := (case v of None \<Rightarrow> q_payload r | Some x \<Rightarrow> dict_set ''completion_result'' x (q_payload r))\<rparr>)"
proof -
  have one: "hits (held_by q mid w l) t = 1" using assms(1)
    by (auto simp: ack_def transition_row_def Let_def split: if_splits)
  then obtain r where r: "r \<in> set t" "held_by q mid w l r"
    by (metis hits_none zero_neq_one)
  note f = held_row_unique(1) [OF assms(2) r]
  show ?thesis
  proof (rule that [OF f r(2)])
    show "find_row (dq_organization_id q) mid t' = Some (r\<lparr>q_status := Q_COMPLETED, q_lease_id := None, q_lease_until := None,
       updated_at := now, q_last_error := None,
       q_payload := (case v of None \<Rightarrow> q_payload r | Some x \<Rightarrow> dict_set ''completion_result'' x (q_payload r))\<rparr>)"
      using assms(1) f r(2)
      by (cases v) (auto simp: ack_def transition_row_def Let_def find_row_upd split: if_splits)
  qed
qed

subsection \<open>The order of claims\<close>

lemma sort_key_hd:
  fixes k :: "'a \<Rightarrow> 'k :: linorder"
  assumes "sort_key k xs = a # as" "x \<in> set xs"
  shows "k a \<le> k x"
proof -
  have "sorted (map k (a # as))" unfolding assms(1) [symmetric] by (rule sorted_sort_key)
  moreover have "x \<in> set (a # as)" unfolding assms(1) [symmetric] using assms(2) by simp
  ultimately show ?thesis by auto
qed

text \<open>A stable sort of a sorted list puts the lexicographic minimum first.\<close>

lemma sort_key_hd_stable:
  fixes k :: "'a \<Rightarrow> 'k :: linorder" and j :: "'a \<Rightarrow> 'j :: linorder"
  assumes "sort_key k xs = a # as" "sorted (map j xs)" "x \<in> set xs"
  shows "(k a, j a) \<le> (k x, j x)"
proof (cases "k x = k a")
  case True
  have "filter (\<lambda>y. k y = k a) xs = filter (\<lambda>y. k y = k a) (sort_key k xs)"
    by (simp add: sort_key_stable)
  also have "\<dots> = a # filter (\<lambda>y. k y = k a) as" unfolding assms(1) by simp
  finally have f: "filter (\<lambda>y. k y = k a) xs = a # filter (\<lambda>y. k y = k a) as" .
  have "sorted (map j (filter (\<lambda>y. k y = k a) xs))" using assms(2) by (rule sorted_filter)
  moreover have "x \<in> set (filter (\<lambda>y. k y = k a) xs)" using assms(3) True by simp
  ultimately have "j a \<le> j x" unfolding f by auto
  with True show ?thesis by (simp add: less_eq_prod_def)
next
  case False
  with sort_key_hd [OF assms(1,3)] show ?thesis by (auto simp: less_eq_prod_def)
qed

text \<open>The place of a row in the order of service.\<close>

definition served_before :: "(payload \<Rightarrow> 'k :: linorder) option \<Rightarrow> queue_row \<Rightarrow> queue_row \<Rightarrow> bool" where
  "served_before ok r r' \<longleftrightarrow>
     (case ok of
        None \<Rightarrow> (q_created_at r, q_id r) \<le> (q_created_at r', q_id r')
      | Some k \<Rightarrow> (k (q_payload r), q_created_at r, q_id r) \<le> (k (q_payload r'), q_created_at r', q_id r'))"

lemma candidates_hd:
  assumes "candidates q now topic el ok t = a # as" "x \<in> set (candidates q now topic el ok t)"
  shows "served_before ok a x"
proof -
  let ?j = "\<lambda>r. (q_created_at r, q_id r)"
  let ?cs = "filter (\<lambda>r. case el of None \<Rightarrow> True | Some f \<Rightarrow> f (q_payload r)) (sort_key ?j (filter (claimable_row q now topic) t))"
  have s: "sorted (map ?j ?cs)" by (rule sorted_filter) (rule sorted_sort_key)
  show ?thesis
  proof (cases ok)
    case None
    with assms have c: "?cs = a # as" "x \<in> set ?cs" by (simp_all add: candidates_def Let_def)
    from s [unfolded c(1)] c(2) [unfolded c(1)] have "?j a \<le> ?j x" by auto
    with None show ?thesis by (simp add: served_before_def)
  next
    case (Some k)
    with assms(1) have c: "sort_key (\<lambda>r. k (q_payload r)) ?cs = a # as" by (simp add: candidates_def Let_def)
    from Some assms(2) have "x \<in> set ?cs" by (auto simp: candidates_def Let_def)
    from sort_key_hd_stable [OF c s this] Some show ?thesis by (simp add: served_before_def)
  qed
qed

lemma candidates_bury:
  assumes "distinct (map row_key t)"
  shows "set (candidates q now topic el ok (bury_exhausted q now topic t t)) = set (candidates q now topic el ok t)"
proof -
  have "r \<in> set (bury_exhausted q now topic t t) \<longleftrightarrow> r \<in> set t" if c: "claimable_row q now topic r" for r
  proof -
    have live: "q_status r \<noteq> Q_DEAD_LETTER" using c by (auto simp: claimable_row_def open_row_def)
    have "row_key r \<notin> row_key ` set (filter (exhausted_row q now topic) t)" if "r \<in> set t"
    proof
      assume "row_key r \<in> row_key ` set (filter (exhausted_row q now topic) t)"
      then obtain r' where r': "row_key r = row_key r'" "r' \<in> set t" "exhausted_row q now topic r'" by auto
      from distinct_keys_inj [OF assms that r'(2,1)] r'(3) c show False
        by (simp add: claimable_row_def exhausted_row_def)
    qed
    then show ?thesis using live unfolding bury_exhausted_def set_upd
      by (auto simp: bury_def image_iff split: if_splits)
  qed
  then show ?thesis unfolding set_candidates by blast
qed

lemma map_keep_filter:
  "(\<And>r. r \<in> set t \<Longrightarrow> P (g r) = P r) \<Longrightarrow> (\<And>r. r \<in> set t \<Longrightarrow> P r \<Longrightarrow> g r = r) \<Longrightarrow> filter P (map g t) = filter P t"
  by (induction t) auto

lemma step_frame:
  assumes "table_move m org lab t t'"
  shows "filter (\<lambda>r. q_org r \<noteq> org) t' = filter (\<lambda>r. q_org r \<noteq> org) t"
    "r \<in> set t \<Longrightarrow> \<not> live r \<Longrightarrow> r \<in> set t'"
proof -
  obtain g new where t': "t' = map g t @ new" and g: "\<forall>r\<in>set t. row_move m org lab r (g r)"
    and new: "new = [] \<or> (\<exists>r. new = [r] \<and> new_row org t r)"
    using assms by (auto simp: table_move_def)
  have org: "q_org (g r) = q_org r" "q_org r \<noteq> org \<Longrightarrow> g r = r" "\<not> live r \<Longrightarrow> g r = r" if "r \<in> set t" for r
    using bspec [OF g that] by (auto simp: row_move_def split: if_splits)
  have "filter (\<lambda>r. q_org r \<noteq> org) new = []" using new by (auto simp: new_row_def)
  then show "filter (\<lambda>r. q_org r \<noteq> org) t' = filter (\<lambda>r. q_org r \<noteq> org) t"
    unfolding t' filter_append using map_keep_filter [of t "\<lambda>r. q_org r \<noteq> org" g] org by simp
  show "r \<in> set t \<Longrightarrow> \<not> live r \<Longrightarrow> r \<in> set t'"
    using org(3) [of r] by (force simp: t')
qed

subsection \<open>Properties\<close>

text \<open>
  C16 (bounds).  In every run of the queue a message is handed out at most \<open>max_attempts\<close>
  times, and the attempts column of a row is exactly the number of times it was.
\<close>

theorem deliveries_bounded:
  assumes "queue_run m t hist" "0 \<le> m"
  shows "int (length (deliveries k hist)) \<le> m
    \<and> (\<forall>r\<in>set t. q_attempts r = int (length (deliveries (row_key r) hist)))"
proof -
  note ok = queue_run_ok [OF assms]
  have a: "q_attempts r = int (length (deliveries (row_key r) hist))" "q_attempts r \<le> m" if "r \<in> set t" for r
    using ok that by (auto simp: table_ok_def row_ok_def log_ok_def)
  have "int (length (deliveries k hist)) \<le> m"
  proof (cases "k \<in> row_key ` set t")
    case True
    then obtain r where "r \<in> set t" "k = row_key r" by (rule imageE) simp
    with a [of r] show ?thesis by simp
  next
    case False
    then have "k \<notin> fst ` set hist" using ok by (auto simp: log_ok_def)
    with assms(2) show ?thesis by (simp add: deliveries_none)
  qed
  with a(1) show ?thesis by simp
qed

definition demo_queue :: database_queue where
  "demo_queue = \<lparr>dq_organization_id = ''o'', lease_seconds = 60, max_attempts = 2\<rparr>"

definition demo_message :: queue_row where
  "demo_message = \<lparr>q_org = ''o'', q_id = ''m'', q_topic = ''t'', q_payload = [], q_status = Q_PENDING, q_attempts = 0,
     available_at = 0, q_lease_until = None, q_lease_id = None, q_worker_id = None, q_last_error = None,
     q_created_at = 0, updated_at = 0\<rparr>"

definition demo_leased :: "str \<Rightarrow> time \<Rightarrow> int \<Rightarrow> queue_row" where
  "demo_leased l now n = leased_to ''w'' l (now + 60000000) now n demo_message"

lemmas demo_queue_defs = demo_queue_def demo_message_def demo_leased_def leased_to_def

lemma demo_publish: "publish demo_queue 0 ''u'' ''t'' [] (Some ''m'') [] = (Inr ''m'', [demo_message])"
  by (simp add: publish_def enqueue_in_session_def insert_row_def demo_queue_defs Let_def)

lemma demo_worker_not_blank: "\<not> blank ''w''"
  by (simp add: blank_iff is_space_def Let_def)

lemma demo_claim_loop:
  assumes "claim_once q now topic w el ok (us 99) (env 99) t = (Some r, t')" "\<not> blank w"
  shows "queue_claim q now topic w el ok us env t = (r, t')"
proof -
  have n: "(100 :: nat) = Suc 99" by simp
  show ?thesis using assms unfolding queue_claim_def n claim_loop.simps by simp
qed

lemmas demo_eval = claim_once_def candidates_def claimable_row_def exhausted_row_def open_row_def message_expired_def
  after_seconds_def datetime_range_def hits_def unchanged_def upd_def bury_def demo_queue_defs Let_def

lemma demo_claim:
  "claim_once demo_queue 1 ''t'' ''w'' None (None :: (payload \<Rightarrow> int \<times> str) option) ''l1'' id [demo_message]
     = (Some (Inr (Some (message_of (demo_leased ''l1'' 1 1)))), [demo_leased ''l1'' 1 1])"
  by (simp add: demo_eval message_of_def)

lemma demo_reclaim:
  "claim_once demo_queue 70000000 ''t'' ''w'' None (None :: (payload \<Rightarrow> int \<times> str) option) ''l2'' id [demo_leased ''l1'' 1 1]
     = (Some (Inr (Some (message_of (demo_leased ''l2'' 70000000 2)))), [demo_leased ''l2'' 70000000 2])"
  by (simp add: demo_eval message_of_def)

text \<open>A run: publish, claim, and a second claim once the first lease has expired.\<close>

lemma demo_queue_run: "queue_run 2 [demo_leased ''l2'' 70000000 2] [((''o'', ''m''), ''l1''), ((''o'', ''m''), ''l2'')]"
proof -
  have q: "max_attempts demo_queue = 2" "dq_organization_id demo_queue = ''o''" by (simp_all add: demo_queue_def)
  have 1: "queue_run 2 [demo_message] []"
    by (rule run_step [OF run_start step_publish [OF q demo_publish]])
  have "queue_step 2 ''o'' [demo_message] (Some ((m_org (message_of (demo_leased ''l1'' 1 1)), m_id (message_of (demo_leased ''l1'' 1 1))), ''l1''))
      [demo_leased ''l1'' 1 1]"
    by (rule step_claim [OF q demo_claim_loop [OF demo_claim demo_worker_not_blank]])
       (simp add: message_of_def demo_queue_defs)
  then have "queue_step 2 ''o'' [demo_message] (Some ((''o'', ''m''), ''l1'')) [demo_leased ''l1'' 1 1]"
    by (simp add: message_of_def demo_queue_defs)
  from run_claim [OF 1 this] have 2: "queue_run 2 [demo_leased ''l1'' 1 1] [((''o'', ''m''), ''l1'')]" by simp
  have "queue_step 2 ''o'' [demo_leased ''l1'' 1 1]
      (Some ((m_org (message_of (demo_leased ''l2'' 70000000 2)), m_id (message_of (demo_leased ''l2'' 70000000 2))), ''l2''))
      [demo_leased ''l2'' 70000000 2]"
    by (rule step_claim [OF q demo_claim_loop [OF demo_reclaim demo_worker_not_blank]])
       (simp add: message_of_def demo_queue_defs)
  then have "queue_step 2 ''o'' [demo_leased ''l1'' 1 1] (Some ((''o'', ''m''), ''l2'')) [demo_leased ''l2'' 70000000 2]"
    by (simp add: message_of_def demo_queue_defs)
  from run_claim [OF 2 this] show ?thesis by simp
qed

theorem deliveries_bounded_witness:
  "queue_run 2 [demo_leased ''l2'' 70000000 2] [((''o'', ''m''), ''l1''), ((''o'', ''m''), ''l2'')]
   \<and> int (length (deliveries (''o'', ''m'') [((''o'', ''m''), ''l1''), ((''o'', ''m''), ''l2'')])) \<le> 2"
  using demo_queue_run deliveries_bounded [OF demo_queue_run, of "(''o'', ''m'')"] by simp

text \<open>
  Property (safety).  A lease is valid only as long as it is the last one handed out for its
  message: with an earlier one, \<open>heartbeat\<close>, \<open>ack\<close> and \<open>fail\<close> raise and leave the table as
  it is, whatever worker name is used.
\<close>

theorem stale_lease_rejected:
  assumes "queue_run m t hist" "0 \<le> m" "l \<noteq> last (deliveries (dq_organization_id q, mid) hist)"
  shows "(\<exists>e. heartbeat q now mid w l t = (Inl e, t)) \<and> ack q now mid w l v t = (Inl ValueError, t)
    \<and> queue_fail q now mid w l err after retry t = (Inl ValueError, t)"
proof -
  note ok = queue_run_ok [OF assms(1,2)]
  have "\<forall>r\<in>set t. \<not> held_by q mid w l r"
  proof (intro ballI notI)
    fix r assume r: "r \<in> set t" "held_by q mid w l r"
    then have "row_key r = (dq_organization_id q, mid)" "q_lease_id r = Some l" "q_status r = Q_LEASED"
      by (simp_all add: held_by_def)
    with ok r(1) assms(3) show False by (auto simp: log_ok_def)
  qed
  from not_holder_rejected [OF this] show ?thesis by blast
qed

theorem stale_lease_rejected_witness:
  "''l1'' \<noteq> last (deliveries (dq_organization_id demo_queue, ''m'') [((''o'', ''m''), ''l1''), ((''o'', ''m''), ''l2'')])
   \<and> ack demo_queue 70000001 ''m'' ''w'' ''l1'' None [demo_leased ''l2'' 70000000 2] = (Inl ValueError, [demo_leased ''l2'' 70000000 2])"
proof -
  have l: "''l1'' \<noteq> last (deliveries (dq_organization_id demo_queue, ''m'') [((''o'', ''m''), ''l1''), ((''o'', ''m''), ''l2'')])"
    by (simp add: deliveries_def demo_queue_def)
  with stale_lease_rejected [OF demo_queue_run _ l] show ?thesis by simp
qed

text \<open>
  Property (invariant).  A call by a client of one organization leaves every other
  organization's rows as they are, and a completed or dead-lettered message is never
  touched again.
\<close>

theorem queue_isolation:
  assumes "queue_step m org t lab t'" "table_ok m t"
  shows "filter (\<lambda>r. q_org r \<noteq> org) t' = filter (\<lambda>r. q_org r \<noteq> org) t
    \<and> (\<forall>r\<in>set t. q_status r \<in> {Q_COMPLETED, Q_DEAD_LETTER} \<longrightarrow> r \<in> set t')"
proof -
  have "table_move m org lab t t'" using assms by (auto intro: queue_step_move simp: table_ok_def)
  from step_frame [OF this] show ?thesis by (auto simp: live_def)
qed

theorem queue_isolation_witness:
  "\<exists>t'. queue_step 2 ''o'' [demo_message\<lparr>q_org := ''x''\<rparr>] None t' \<and> [demo_message\<lparr>q_org := ''x''\<rparr>] = filter (\<lambda>r. q_org r \<noteq> ''o'') t'"
proof -
  let ?t = "[demo_message\<lparr>q_org := ''x''\<rparr>]"
  have "publish demo_queue 0 ''u'' ''t'' [] (Some ''m'') ?t = (Inr ''m'', ?t @ [demo_message])"
    by (simp add: publish_def enqueue_in_session_def insert_row_def demo_queue_defs Let_def)
  from step_publish [OF _ _ this, of 2 "''o''"] have s: "queue_step 2 ''o'' ?t None (?t @ [demo_message])"
    by (simp add: demo_queue_def)
  have "table_ok 2 ?t" by (simp add: table_ok_def row_ok_def demo_message_def)
  from s queue_isolation [OF s this] show ?thesis by (auto simp: demo_message_def)
qed

text \<open>
  Property (functional).  Without other clients a claim never runs into contention: it returns
  \<open>None\<close> exactly when no row is claimable_row and eligible, and otherwise leases the one that is
  first by order key, creation time and identifier, with its attempts raised by one.
\<close>

theorem claim_takes_next:
  assumes "distinct (map row_key t)" "\<not> blank w" "datetime_range (now + seconds (lease_seconds q))"
    and "queue_claim q now topic w el ok us (\<lambda>_. id) t = (res, t')"
    and "el_ok = (\<lambda>r. claimable_row q now topic r \<and> (case el of None \<Rightarrow> True | Some f \<Rightarrow> f (q_payload r)))"
  shows "res = Inr None \<and> (\<forall>r\<in>set t. \<not> el_ok r)
    \<or> (\<exists>r\<in>set t. el_ok r \<and> (\<forall>r'\<in>set t. el_ok r' \<longrightarrow> served_before ok r r')
        \<and> (\<exists>msg. res = Inr (Some msg) \<and> m_id msg = q_id r \<and> m_org msg = q_org r \<and> m_payload msg = q_payload r
             \<and> m_attempts msg = q_attempts r + 1 \<and> m_lease_id msg = Some (us 99)))"
proof -
  have elig: "set (candidates q now topic el ok (bury_exhausted q now topic t t)) = {r \<in> set t. el_ok r}"
    using candidates_bury [OF assms(1), of q now topic el ok] by (simp add: set_candidates assms(5))
  from queue_claim_alone [OF assms(1,2), of q now topic el ok us] assms(4)
  have "claim_once q now topic w el ok (us 99) id t = (Some res, t')" by auto
  then show ?thesis
  proof (cases rule: claim_once_cases)
    case empty
    with elig show ?thesis by auto
  next
    case overflow
    then have "claim_once q now topic w el ok (us 99) id t = (Some (Inl OverflowError), t')" 
      using \<open>claim_once q now topic w el ok (us 99) id t = (Some res, t')\<close> by simp
    then show ?thesis using assms(3)
      by (auto simp: claim_once_def Let_def after_seconds_def split: list.splits if_splits)
  next
    case (won seen until cs)
    have "seen \<in> {r \<in> set t. el_ok r}" unfolding elig [symmetric] won(1) by simp
    moreover have "served_before ok seen r'" if "r' \<in> set t" "el_ok r'" for r'
      by (rule candidates_hd [OF won(1)]) (use that elig in simp)
    ultimately show ?thesis using won(4) by auto
  qed simp
qed

theorem claim_takes_next_witness:
  "\<exists>msg t'. queue_claim demo_queue 1 ''t'' ''w'' None (None :: (payload \<Rightarrow> int \<times> str) option) (\<lambda>_. ''l1'') (\<lambda>_. id) [demo_message]
      = (Inr (Some msg), t') \<and> m_id msg = ''m'' \<and> m_attempts msg = 1"
proof -
  have d: "distinct (map row_key [demo_message])" "datetime_range (1 + seconds (lease_seconds demo_queue))"
    by (simp_all add: datetime_range_def demo_queue_def)
  obtain res t' where c: "queue_claim demo_queue 1 ''t'' ''w'' None (None :: (payload \<Rightarrow> int \<times> str) option) (\<lambda>_. ''l1'') (\<lambda>_. id) [demo_message]
      = (res, t')" by fastforce
  have "claimable_row demo_queue 1 ''t'' demo_message" by (simp add: claimable_row_def open_row_def demo_queue_defs)
  with claim_takes_next [OF d(1) demo_worker_not_blank d(2) c refl] c show ?thesis by (auto simp: demo_message_def)
qed

text \<open>
  Property (safety).  Two claimants that read the same table never get the same message: when
  one has committed its claim before the other's compare-and-set, the other loses or gets
  another message.
\<close>

theorem claims_elect_one:
  assumes "distinct (map row_key t)"
    and "claim_once q nowb topicb wb elb okb ub id t = (Some (Inr (Some mb)), tb)"
    and "claim_once q nowa topica wa ela oka ua (\<lambda>_. tb) t = (Some (Inr (Some ma)), ta)"
  shows "m_id ma \<noteq> m_id mb"
proof
  assume same: "m_id ma = m_id mb"
  from assms(2) obtain sb cb where sb: "sb \<in> set t" "claimable_row q nowb topicb sb" "m_id mb = q_id sb"
    "m_org mb = q_org sb"
    by (cases rule: claim_once_cases) (use candidate_in_table in fastforce)+
  have tb: "table_move (max_attempts q) (dq_organization_id q) (Some (row_key sb, ub)) t tb"
    using claim_once_move [OF assms(2,1)] sb(3,4) by simp
  from assms(3) show False
  proof (cases rule: claim_once_cases)
    case (won sa until ca)
    note sa = candidate_in_table [OF won(1)]
    from won(4) have "m_id ma = q_id sa" by simp
    with same sb(2,3) sa(2) have "row_key sa = row_key sb" by (simp add: claimable_row_def)
    from distinct_keys_inj [OF assms(1) sa(1) sb(1) this] have "sa = sb" .
    obtain r where r: "r \<in> set tb" "row_key r = row_key sa" "q_attempts r = q_attempts sa"
    proof -
      from won(2) obtain r' where "r' \<in> set (bury_exhausted q nowa topica t tb)" "unchanged sa r'"
        using hits_none [of "bury_exhausted q nowa topica t tb" "unchanged sa"] by fastforce
      then show ?thesis using that
        by (auto simp: bury_exhausted_def set_upd unchanged_def bury_def split: if_splits)
    qed
    obtain g new where g: "tb = map g t @ new" "\<forall>r\<in>set t. row_move (max_attempts q) (dq_organization_id q) (Some (row_key sb, ub)) r (g r)"
      "new = [] \<or> (\<exists>r. new = [r] \<and> new_row (dq_organization_id q) t r)"
      using tb by (auto simp: table_move_def)
    have "r \<notin> set new" using r(2) g(3) sa(1) by (auto simp: new_row_def)
    with r(1) g(1) obtain r0 where r0: "r0 \<in> set t" "r = g r0" by auto
    have mv: "row_move (max_attempts q) (dq_organization_id q) (Some (row_key sb, ub)) r0 r"
      using g(2) r0 by simp
    then have "row_key r0 = row_key sb" using r(2) \<open>sa = sb\<close> by (simp add: row_move_def)
    from distinct_keys_inj [OF assms(1) r0(1) sb(1) this] have "r0 = sb" .
    with mv have "q_attempts r = q_attempts sb + 1" by (simp add: row_move_def claims_row_def)
    with r(3) \<open>sa = sb\<close> show False by simp
  qed simp_all
qed

text \<open>Two rows and two workers: both claims succeed, on different rows.\<close>

theorem claims_elect_one_witness:
  "let t = [demo_message, demo_message\<lparr>q_id := ''n'', q_payload := [(''k'', JNull)]\<rparr>];
       b = claim_once demo_queue 1 ''t'' ''w'' None (None :: (payload \<Rightarrow> int \<times> str) option) ''l1'' id t;
       a = claim_once demo_queue 1 ''t'' ''w'' (Some (\<lambda>p. p \<noteq> [])) (None :: (payload \<Rightarrow> int \<times> str) option) ''l2'' (\<lambda>_. snd b) t
   in \<exists>ma mb. fst b = Some (Inr (Some mb)) \<and> fst a = Some (Inr (Some ma)) \<and> m_id ma \<noteq> m_id mb"
proof -
  let ?t = "[demo_message, demo_message\<lparr>q_id := ''n'', q_payload := [(''k'', JNull)]\<rparr>]"
  obtain mb tb where b: "claim_once demo_queue 1 ''t'' ''w'' None (None :: (payload \<Rightarrow> int \<times> str) option) ''l1'' id ?t
      = (Some (Inr (Some mb)), tb)" and tb: "tb = [demo_leased ''l1'' 1 1, demo_message\<lparr>q_id := ''n'', q_payload := [(''k'', JNull)]\<rparr>]"
    by (simp add: demo_eval)
  obtain ma ta where a: "claim_once demo_queue 1 ''t'' ''w'' (Some (\<lambda>p. p \<noteq> [])) (None :: (payload \<Rightarrow> int \<times> str) option) ''l2'' (\<lambda>_. tb) ?t
      = (Some (Inr (Some ma)), ta)"
    unfolding tb by (simp add: demo_eval)
  have "distinct (map row_key ?t)" by (simp add: demo_message_def)
  from claims_elect_one [OF this b a] a b show ?thesis by (simp add: Let_def)
qed

subsection \<open>Publishing again\<close>

lemma payload_eq_refl [simp]: "payload_eq p p"
  by (simp add: payload_eq_def)

lemma payload_eq_keys: "payload_eq p p' \<Longrightarrow> fst ` set p = fst ` set p'"
proof -
  assume "payload_eq p p'"
  then have "canon (JObj (map (\<lambda>(k, v). (k, py_num v)) p)) = canon (JObj (map (\<lambda>(k, v). (k, py_num v)) p'))"
    by (simp add: payload_eq_def)
  from arg_cong [where f = "(`) fst", OF set_canon_JObj [OF this]] show ?thesis
    by (simp add: image_image case_prod_beta)
qed

lemma publish_taken:
  assumes "find_row (dq_organization_id q) i t = Some r" "i \<noteq> []"
  shows "publish q now u topic p (Some i) t =
    (if q_topic r = topic \<and> payload_eq (q_payload r) p then (Inr i, t) else (Inl ValueError, t))"
proof -
  have "(dq_organization_id q, i) \<in> row_key ` set t" using find_row_Some [OF assms(1)] by force
  with assms show ?thesis
    by (auto simp: publish_def enqueue_in_session_def insert_row_def queue_get_def message_of_def Let_def)
qed

text \<open>
  Property (error).  Publication under a given identifier can be repeated as long as the message
  has not been completed with a result.  After that the stored payload also holds the
  result, and repeating the very same publication raises \<open>ValueError\<close>.
\<close>

theorem publish_repeat:
  assumes "distinct (map row_key t)" "find_row (dq_organization_id q) i t = Some r" "i \<noteq> []"
    and "''completion_result'' \<notin> fst ` set (q_payload r)"
    and "ack q now' i w l (Some v) t = (Inr (), t')"
  shows "publish q now u (q_topic r) (q_payload r) (Some i) t = (Inr i, t)
    \<and> publish q now u (q_topic r) (q_payload r) (Some i) t' = (Inl ValueError, t')"
proof -
  from assms(5,1) obtain r' where "find_row (dq_organization_id q) i t = Some r'" and f: "find_row (dq_organization_id q) i t'
      = Some (r'\<lparr>q_status := Q_COMPLETED, q_lease_id := None, q_lease_until := None, updated_at := now', q_last_error := None,
         q_payload := dict_set ''completion_result'' v (q_payload r')\<rparr>)"
    by (rule ack_Inr) simp
  with assms(2) have "r' = r" by simp
  have "\<not> payload_eq (dict_set ''completion_result'' v (q_payload r)) (q_payload r)"
    using payload_eq_keys [of "dict_set ''completion_result'' v (q_payload r)" "q_payload r"] assms(4)
    unfolding dom_update by blast
  with publish_taken [OF assms(2,3)] publish_taken [OF f assms(3)] \<open>r' = r\<close> show ?thesis by simp
qed

theorem publish_repeat_witness:
  "\<exists>t'. ack demo_queue 2 ''m'' ''w'' ''l1'' (Some JNull) [demo_leased ''l1'' 1 1] = (Inr (), t')
     \<and> publish demo_queue 3 ''u'' ''t'' [] (Some ''m'') [demo_leased ''l1'' 1 1] = (Inr ''m'', [demo_leased ''l1'' 1 1])
     \<and> publish demo_queue 3 ''u'' ''t'' [] (Some ''m'') t' = (Inl ValueError, t')"
proof -
  obtain t' where a: "ack demo_queue 2 ''m'' ''w'' ''l1'' (Some JNull) [demo_leased ''l1'' 1 1] = (Inr (), t')"
    by (simp add: ack_def transition_row_def find_row_def held_by_def hits_def demo_queue_defs Let_def)
  have "distinct (map row_key [demo_leased ''l1'' 1 1])" by simp
  moreover have "find_row (dq_organization_id demo_queue) ''m'' [demo_leased ''l1'' 1 1] = Some (demo_leased ''l1'' 1 1)"
    by (simp add: find_row_def demo_queue_defs)
  ultimately show ?thesis using publish_repeat [OF _ _ _ _ a, of "demo_leased ''l1'' 1 1" 3 "''u''"] a
    by (auto simp: demo_queue_defs)
qed

subsection \<open>Two races\<close>

text \<open>
  Property (error).  \<open>requeue_expired\<close> writes back what it has loaded: when the lease holder
  acknowledges between the load and the commit, the acknowledged message returns to the
  queue as pending and will be delivered again.
\<close>

theorem requeue_resurrects:
  assumes "distinct (map row_key t)" "r \<in> set (expired_rows q now limit t)" "q_attempts r < max_attempts q"
    and "ack q now' (q_id r) w l v t = (Inr (), t1)"
    and "requeue_expired q now limit (\<lambda>_. t1) t = (n, t2)"
  shows "map_option q_status (find_row (q_org r) (q_id r) t1) = Some Q_COMPLETED
    \<and> map_option q_status (find_row (q_org r) (q_id r) t2) = Some Q_PENDING"
proof -
  let ?ls = "expired_rows q now limit t"
  note d = distinct_expired_rows [OF assms(1), of q now limit]
  have org: "q_org r = dq_organization_id q" using expired_rows_set [OF assms(2)] by simp
  from assms(4,1) obtain r1 where f1: "find_row (q_org r) (q_id r) t1 = Some r1" and st: "q_status r1 = Q_COMPLETED"
    by (rule ack_Inr) (simp add: org)
  have k1: "row_key r1 = row_key r" using find_row_Some [OF f1] by simp
  let ?g = "\<lambda>r. case find (\<lambda>l. row_key l = row_key r) ?ls of None \<Rightarrow> r | Some l \<Rightarrow> requeue_row q now l r"
  have t2: "t2 = map ?g t1"
    using assms(5) fold_upd_keys [OF d, of "requeue_row q now" t1] by (simp add: requeue_expired_def Let_def)
  have kg: "row_key (?g x) = row_key x" for x by (simp add: requeue_row_def split: option.split)
  have "find_row o' i (map ?g xs) = map_option ?g (find_row o' i xs)" for o' i xs
    unfolding find_row_def by (induction xs) (use kg in auto)
  then have f2: "find_row (q_org r) (q_id r) t2 = Some (?g r1)" using f1 t2 by simp
  have "find (\<lambda>l. row_key l = row_key r1) ?ls = Some r"
    unfolding k1 using find_row_iff [OF d, of "q_org r" "q_id r" r] assms(2) unfolding find_row_def by simp
  with f1 f2 st assms(3) show ?thesis by (simp add: requeue_row_def)
qed

lemma demo_expired: "expired_rows demo_queue 70000000 100 [demo_leased ''l1'' 1 1] = [demo_leased ''l1'' 1 1]"
  by (simp add: expired_rows_def message_expired_def demo_queue_defs)

theorem requeue_resurrects_witness:
  "\<exists>t1 n t2. ack demo_queue 2 ''m'' ''w'' ''l1'' None [demo_leased ''l1'' 1 1] = (Inr (), t1)
     \<and> requeue_expired demo_queue 70000000 100 (\<lambda>_. t1) [demo_leased ''l1'' 1 1] = (n, t2)
     \<and> map_option q_status (find_row ''o'' ''m'' t2) = Some Q_PENDING"
proof -
  let ?t = "[demo_leased ''l1'' 1 1]"
  obtain t1 where a: "ack demo_queue 2 (q_id (demo_leased ''l1'' 1 1)) ''w'' ''l1'' None ?t = (Inr (), t1)"
    by (simp add: ack_def transition_row_def find_row_def held_by_def hits_def demo_queue_defs Let_def)
  obtain n t2 where rq: "requeue_expired demo_queue 70000000 100 (\<lambda>_. t1) ?t = (n, t2)" by fastforce
  have "demo_leased ''l1'' 1 1 \<in> set (expired_rows demo_queue 70000000 100 ?t)" by (simp add: demo_expired)
  from requeue_resurrects [OF _ this _ a rq] a rq show ?thesis by (auto simp: demo_queue_defs)
qed

text \<open>
  The compare-and-set of a claim does not look at \<open>lease_until\<close>: a claimant that has seen
  the lease expire by its own clock takes the message over even when the holder's
  heartbeat, with a clock reading before the expiry, was accepted in between.
\<close>

lemma heartbeat_race:
  assumes "heartbeat demo_queue 50 ''m'' ''w'' ''l1'' [demo_leased ''l1'' 1 1] = (Inr (), t1)"
  shows "\<exists>msg t2. claim_once demo_queue 70000000 ''t'' ''w2'' None (None :: (payload \<Rightarrow> int \<times> str) option) ''l2'' (\<lambda>_. t1)
      [demo_leased ''l1'' 1 1] = (Some (Inr (Some msg)), t2) \<and> m_id msg = ''m''"
proof -
  have "t1 = [(demo_leased ''l1'' 1 1)\<lparr>q_lease_until := Some 60000050, updated_at := 50\<rparr>]"
    using assms by (simp add: heartbeat_def held_by_def demo_eval)
  then show ?thesis by (simp add: demo_eval)
qed

end
