(* ===== verification/Org_Authority.thy ===== *)
theory Org_Authority
  imports Py_Platform "HOL-Library.Sublist"
begin

section \<open>Organizations, roles and authorization (\<open>domain/authority.py\<close>, \<open>services/authorization_service.py\<close>)\<close>

text \<open>
  The control plane's own authority: actors of an organization hold capabilities through
  role assignments, the authorization service decides a request from the stored tables, and
  every decision and mutation leaves an event.  Modelled are the domain objects with their
  checks, the resolution of capabilities, the repositories for actors, roles, assignments,
  events and command receipts, the authorization service, the audit events and the runtime
  boundary that changes roles (\<open>runtime/authority.py\<close>, \<open>runtime/context.py\<close>).

  An operation returns its result or exception and the tables after it.  The identifier
  (a \<open>uuid4\<close>) and the time stamp of an event are an argument \<open>stamp\<close>.  The time stamps of
  actors and of assignments, which nothing reads, are left out.
\<close>

subsection \<open>Capabilities, roles and assignments\<close>

definition check_capability :: "str \<Rightarrow> unit result" where
  "check_capability c = raise_if (c = [] \<or> strip c \<noteq> c) ValueError (raise_if (CHR ''.'' \<notin> set c) ValueError (Inr ()))"

record role_definition =
  rd_id :: str
  rd_name :: str
  rd_organization_id :: str
  rd_capabilities :: "str set"
  rd_description :: str
  rd_status :: str

definition check_role :: "role_definition \<Rightarrow> role_definition result" where
  "check_role r =
     raise_if (rd_id r = [] \<or> rd_name r = [] \<or> rd_organization_id r = []) ValueError
     (raise_if (rd_status r \<notin> {''active'', ''inactive''}) ValueError
     (raise_if (\<exists>c\<in>rd_capabilities r. check_capability c \<noteq> Inr ()) ValueError (Inr r)))"

definition role_grants :: "role_definition \<Rightarrow> str \<Rightarrow> bool" where
  "role_grants r c \<longleftrightarrow> rd_status r = ''active'' \<and> c \<in> rd_capabilities r"

record role_assignment =
  ra_actor_id :: str
  ra_organization_id :: str
  ra_role_definition_id :: str
  ra_status :: str

definition check_assignment :: "role_assignment \<Rightarrow> role_assignment result" where
  "check_assignment a =
     raise_if (ra_actor_id a = [] \<or> ra_organization_id a = [] \<or> ra_role_definition_id a = []) ValueError
     (raise_if (ra_status a \<notin> {''active'', ''inactive'', ''revoked''}) ValueError (Inr a))"

text \<open>\<open>resolve_effective_capabilities\<close>: a loop over the assignments.\<close>

definition resolve_effective_capabilities ::
  "str \<Rightarrow> str \<Rightarrow> role_assignment list \<Rightarrow> (str \<Rightarrow> role_definition option) \<Rightarrow> str set" where
  "resolve_effective_capabilities actor org as roles =
     (if actor = [] \<or> org = [] then {}
      else fold (\<lambda>a eff.
             if ra_actor_id a \<noteq> actor \<or> ra_organization_id a \<noteq> org \<or> ra_status a \<noteq> ''active'' then eff
             else case roles (ra_role_definition_id a) of
                    None \<Rightarrow> eff
                  | Some r \<Rightarrow> if rd_organization_id r \<noteq> org \<or> rd_status r \<noteq> ''active'' then eff else eff \<union> rd_capabilities r) as {})"

subsection \<open>Tables\<close>

record actor_row =
  act_id :: str
  act_organization_id :: str
  act_type :: str
  act_identity :: str
  act_status :: str

record role_row =
  rr_id :: str
  rr_organization_id :: str
  rr_name :: str
  rr_description :: str
  rr_capabilities :: "str list"
  rr_status :: str

record event_row =
  ev_id :: str
  ev_type :: str
  ev_aggregate_id :: str
  ev_aggregate_type :: str
  ev_organization_id :: str
  ev_actor_id :: str
  ev_timestamp :: time
  ev_correlation_id :: str
  ev_metadata :: json
  ev_sequence :: int

record command_row =
  cm_id :: str
  cm_organization_id :: str
  cm_actor_id :: str
  cm_type :: str
  cm_payload :: json
  cm_aggregate_id :: "str option"
  cm_created_at :: time

text \<open>The rows of \<open>role_assignments\<close> have the columns of an assignment.\<close>

record organization_row =
  og_id :: str
  og_name :: str
  og_description :: str

record org_db =
  organizations :: "organization_row list"
  actors :: "actor_row list"
  role_rows :: "role_row list"
  assignments :: "role_assignment list"
  event_rows :: "event_row list"
  command_rows :: "command_row list"

subsection \<open>Repositories\<close>

definition get_organization :: "str \<Rightarrow> 'z org_db_scheme \<Rightarrow> organization_row option" where
  "get_organization i db = find (\<lambda>x. og_id x = i) (organizations db)"

definition add_organization :: "organization_row \<Rightarrow> 'z org_db_scheme \<Rightarrow> 'z org_db_scheme result" where
  "add_organization og db = raise_if (get_organization (og_id og) db \<noteq> None) IntegrityError (Inr (db\<lparr>organizations := organizations db @ [og]\<rparr>))"

text \<open>\<open>ORDER BY name, id\<close>, as two stable sorts.\<close>

definition list_organizations :: "'z org_db_scheme \<Rightarrow> organization_row list" where
  "list_organizations db = sort_key og_name (sort_key og_id (organizations db))"

definition update_organization :: "organization_row \<Rightarrow> 'z org_db_scheme \<Rightarrow> 'z org_db_scheme result" where
  "update_organization og db =
     raise_if (get_organization (og_id og) db = None) RepositoryError
       (Inr (db\<lparr>organizations := map (\<lambda>x. if og_id x = og_id og then og else x) (organizations db)\<rparr>))"

definition ACTOR_TYPES :: "str list" where
  "ACTOR_TYPES = [''HUMAN'', ''DIGITAL_EMPLOYEE'', ''SERVICE'', ''EXTERNAL'']"

definition get_actor :: "str \<Rightarrow> str \<Rightarrow> 'z org_db_scheme \<Rightarrow> actor_row option result" where
  "get_actor actor org db =
     (case find (\<lambda>r. act_id r = actor \<and> act_organization_id r = org) (actors db) of
        None \<Rightarrow> Inr None
      | Some r \<Rightarrow> raise_if (act_type r \<notin> set ACTOR_TYPES) KeyError (Inr (Some r)))"

definition add_actor :: "actor_row \<Rightarrow> 'z org_db_scheme \<Rightarrow> 'z org_db_scheme result" where
  "add_actor r db =
     raise_if (\<exists>x\<in>set (actors db). act_id x = act_id r \<and> act_organization_id x = act_organization_id r) IntegrityError
       (Inr (db\<lparr>actors := actors db @ [r]\<rparr>))"

definition role_to_row :: "role_definition \<Rightarrow> role_row" where
  "role_to_row r = \<lparr>rr_id = rd_id r, rr_organization_id = rd_organization_id r, rr_name = rd_name r, rr_description = rd_description r,
     rr_capabilities = sorted_list_of_set (rd_capabilities r), rr_status = rd_status r\<rparr>"

definition role_from_row :: "role_row \<Rightarrow> role_definition result" where
  "role_from_row r = check_role \<lparr>rd_id = rr_id r, rd_name = rr_name r, rd_organization_id = rr_organization_id r,
     rd_capabilities = set (rr_capabilities r), rd_description = rr_description r, rd_status = rr_status r\<rparr>"

definition add_role_definition :: "role_definition \<Rightarrow> 'z org_db_scheme \<Rightarrow> 'z org_db_scheme result" where
  "add_role_definition r db =
     raise_if (\<exists>x\<in>set (role_rows db). rr_id x = rd_id r) IntegrityError (Inr (db\<lparr>role_rows := role_rows db @ [role_to_row r]\<rparr>))"

definition role_row_of :: "str \<Rightarrow> str \<Rightarrow> 'z org_db_scheme \<Rightarrow> role_row option" where
  "role_row_of i org db = find (\<lambda>r. rr_id r = i \<and> rr_organization_id r = org) (role_rows db)"

definition get_role_definition :: "str \<Rightarrow> str \<Rightarrow> 'z org_db_scheme \<Rightarrow> role_definition option result" where
  "get_role_definition i org db =
     (case role_row_of i org db of None \<Rightarrow> Inr None | Some r \<Rightarrow> bind_res (role_from_row r) (\<lambda>r. Inr (Some r)))"

definition get_role_definition_organization :: "str \<Rightarrow> 'z org_db_scheme \<Rightarrow> str option" where
  "get_role_definition_organization i db = map_option rr_organization_id (find (\<lambda>r. rr_id r = i) (role_rows db))"

abbreviation assignment_key :: "role_assignment \<Rightarrow> str \<times> str \<times> str" where
  "assignment_key a \<equiv> (ra_actor_id a, ra_organization_id a, ra_role_definition_id a)"

definition assign_role :: "role_assignment \<Rightarrow> 'z org_db_scheme \<Rightarrow> 'z org_db_scheme result" where
  "assign_role a db =
     bind_res (get_role_definition (ra_role_definition_id a) (ra_organization_id a) db) (\<lambda>role.
       case role of
         None \<Rightarrow> Inl ValueError
       | Some r \<Rightarrow>
           raise_if (rd_status r \<noteq> ''active'') ValueError
           (raise_if (\<not> (\<exists>x\<in>set (actors db). act_id x = ra_actor_id a \<and> act_organization_id x = ra_organization_id a)) ValueError
           (raise_if (assignment_key a \<in> assignment_key ` set (assignments db)) IntegrityError
             (Inr (db\<lparr>assignments := assignments db @ [a]\<rparr>)))))"

fun read_assignments :: "role_assignment list \<Rightarrow> role_assignment list result" where
  "read_assignments [] = Inr []"
| "read_assignments (a # as) = bind_res (check_assignment a) (\<lambda>a. bind_res (read_assignments as) (\<lambda>as. Inr (a # as)))"

definition get_assignments :: "str \<Rightarrow> str \<Rightarrow> 'z org_db_scheme \<Rightarrow> role_assignment list result" where
  "get_assignments actor org db = read_assignments
     (sort_key ra_role_definition_id (filter (\<lambda>a. ra_actor_id a = actor \<and> ra_organization_id a = org) (assignments db)))"

definition get_assignment :: "str \<Rightarrow> str \<Rightarrow> str \<Rightarrow> 'z org_db_scheme \<Rightarrow> role_assignment option result" where
  "get_assignment actor org role db =
     (case find (\<lambda>a. assignment_key a = (actor, org, role)) (assignments db) of
        None \<Rightarrow> Inr None
      | Some a \<Rightarrow> bind_res (check_assignment a) (\<lambda>a. Inr (Some a)))"

definition set_role_definition_status :: "str \<Rightarrow> str \<Rightarrow> str \<Rightarrow> 'z org_db_scheme \<Rightarrow> 'z org_db_scheme result" where
  "set_role_definition_status i org status db =
     raise_if (status \<notin> {''active'', ''inactive''}) ValueError
     (raise_if (role_row_of i org db = None) ValueError
       (Inr (db\<lparr>role_rows := map (\<lambda>r. if rr_id r = i then r\<lparr>rr_status := status\<rparr> else r) (role_rows db)\<rparr>)))"

text \<open>
  A status change reads the assignment in \<open>snap\<close>, checks the status it read, and flushes
  later, on the table as it is then: the ORM updates the row with this primary key if the
  status differs from the one that was read, and writes nothing otherwise.  The statement
  takes no lock before that and does not look at the status again.
\<close>

definition set_assignment_status ::
  "str \<Rightarrow> str \<Rightarrow> str \<Rightarrow> str \<Rightarrow> 'z org_db_scheme \<Rightarrow> 'z org_db_scheme \<Rightarrow> 'z org_db_scheme result" where
  "set_assignment_status actor org role status snap db =
     raise_if (status \<notin> {''active'', ''inactive'', ''revoked''}) ValueError
     (case find (\<lambda>a. assignment_key a = (actor, org, role)) (assignments snap) of
        None \<Rightarrow> Inl ValueError
      | Some a \<Rightarrow>
          raise_if (ra_status a = ''revoked'' \<and> status \<noteq> ''revoked'') ValueError
            (if status = ra_status a then Inr db
             else raise_if (\<forall>x\<in>set (assignments db). assignment_key x \<noteq> (actor, org, role)) StaleDataError
               (Inr (db\<lparr>assignments := map (\<lambda>x. if assignment_key x = (actor, org, role) then x\<lparr>ra_status := status\<rparr> else x) (assignments db)\<rparr>))))"

definition revoke_assignment :: "str \<Rightarrow> str \<Rightarrow> str \<Rightarrow> 'z org_db_scheme \<Rightarrow> 'z org_db_scheme \<Rightarrow> 'z org_db_scheme result" where
  "revoke_assignment actor org role = set_assignment_status actor org role ''revoked''"

text \<open>The dictionary of the roles that exist, read in the order of a set of identifiers.\<close>

fun read_roles :: "str \<Rightarrow> 'z org_db_scheme \<Rightarrow> str list \<Rightarrow> (str \<Rightarrow> role_definition option) result" where
  "read_roles org db [] = Inr (\<lambda>_. None)"
| "read_roles org db (i # is) =
     bind_res (get_role_definition i org db) (\<lambda>r. bind_res (read_roles org db is) (\<lambda>m. Inr (case r of None \<Rightarrow> m | Some r \<Rightarrow> m(i \<mapsto> r))))"

definition get_effective_capabilities :: "str \<Rightarrow> str \<Rightarrow> 'z org_db_scheme \<Rightarrow> str set result" where
  "get_effective_capabilities actor org db =
     bind_res (get_assignments actor org db) (\<lambda>as.
     bind_res (read_roles org db (remdups (map ra_role_definition_id as))) (\<lambda>roles.
       Inr (resolve_effective_capabilities actor org as roles)))"

definition append_event :: "event_row \<Rightarrow> 'z org_db_scheme \<Rightarrow> 'z org_db_scheme result" where
  "append_event e db =
     (let same = filter (\<lambda>x. ev_aggregate_id x = ev_aggregate_id e \<and> ev_organization_id x = ev_organization_id e) (event_rows db);
          seq = fold (\<lambda>x m. max m (ev_sequence x)) same 0 + 1
      in raise_if (\<exists>x\<in>set (event_rows db). ev_id x = ev_id e) IntegrityError
           (Inr (db\<lparr>event_rows := event_rows db @ [e\<lparr>ev_sequence := seq\<rparr>]\<rparr>)))"

definition for_aggregate :: "str \<Rightarrow> str \<Rightarrow> 'z org_db_scheme \<Rightarrow> event_row list" where
  "for_aggregate i org db = sort_key ev_sequence (filter (\<lambda>e. ev_aggregate_id e = i \<and> ev_organization_id e = org) (event_rows db))"

definition get_command :: "str \<Rightarrow> 'z org_db_scheme \<Rightarrow> command_row option" where
  "get_command i db = find (\<lambda>c. cm_id c = i) (command_rows db)"

definition add_command :: "command_row \<Rightarrow> 'z org_db_scheme \<Rightarrow> 'z org_db_scheme result" where
  "add_command c db = raise_if (get_command (cm_id c) db \<noteq> None) IntegrityError (Inr (db\<lparr>command_rows := command_rows db @ [c]\<rparr>))"

subsection \<open>Decisions\<close>

record org_decision =
  od_allowed :: bool
  od_reason :: str
  od_reason_code :: str
  od_actor_id :: str
  od_principal_id :: str
  od_organization_id :: str
  od_capability_id :: str
  od_resource_id :: "str option"
  od_resource_organization_id :: "str option"

definition CANONICAL_REASON_CODES :: "str list" where
  "CANONICAL_REASON_CODES = [''capability_granted'', ''capability_not_granted'', ''actor_not_in_organization'', ''actor_inactive'',
     ''resource_not_accessible'', ''command_organization_mismatch'', ''principal_actor_mismatch'', ''invalid_capability'']"

text \<open>The identifiers are never \<open>None\<close> here: every caller passes strings, and the empty one is refused alike.\<close>

definition check_org_decision :: "org_decision \<Rightarrow> org_decision result" where
  "check_org_decision d =
     raise_if (blank (od_reason d)) ValueError
     (raise_if (od_reason_code d \<notin> set CANONICAL_REASON_CODES) ValueError
     (raise_if (od_allowed d \<noteq> (od_reason_code d = ''capability_granted'')) ValueError
     (raise_if (od_actor_id d = [] \<or> od_principal_id d = [] \<or> od_organization_id d = []) ValueError
     (raise_if (od_capability_id d = []) ValueError
     (raise_if (od_resource_id d \<noteq> None \<and> od_resource_organization_id d = None \<and> od_reason_code d \<noteq> ''resource_not_accessible'') ValueError
       (Inr d))))))"

definition decision_canonical :: "org_decision \<Rightarrow> json" where
  "decision_canonical d = JObj [(''allowed'', JBool (od_allowed d)), (''reason'', JStr (od_reason d)),
     (''reason_code'', JStr (od_reason_code d)), (''actor_id'', JStr (od_actor_id d)),
     (''principal_id'', JStr (od_principal_id d)), (''organization_id'', JStr (od_organization_id d)),
     (''capability_id'', JStr (od_capability_id d)), (''resource_id'', jopt (od_resource_id d)),
     (''resource_organization_id'', jopt (od_resource_organization_id d))]"

definition decision_fingerprint :: "platform \<Rightarrow> org_decision \<Rightarrow> str" where
  "decision_fingerprint pf d = sha256_hex pf (utf8 (dumps True (decision_canonical d)))"

definition authorize ::
  "str \<Rightarrow> str \<Rightarrow> str \<Rightarrow> str \<Rightarrow> str option \<Rightarrow> str option \<Rightarrow> 'z org_db_scheme \<Rightarrow> org_decision result" where
  "authorize pid actor org cap res res_org db =
     (let decision = (\<lambda>allowed reason code. check_org_decision
            \<lparr>od_allowed = allowed, od_reason = reason, od_reason_code = code, od_actor_id = actor, od_principal_id = pid,
             od_organization_id = org, od_capability_id = cap, od_resource_id = res, od_resource_organization_id = res_org\<rparr>)
      in if pid \<noteq> actor
         then decision False ''Principal does not identify the requested actor'' ''principal_actor_mismatch''
         else if check_capability cap \<noteq> Inr () then decision False ''Capability is not canonical'' ''invalid_capability''
         else if res \<noteq> None \<and> res_org \<noteq> Some org
         then decision False ''Target resource is not accessible in this organization'' ''resource_not_accessible''
         else bind_res (get_actor actor org db) (\<lambda>found.
           case found of
             None \<Rightarrow> decision False ''Actor is not a member of the organization'' ''actor_not_in_organization''
           | Some a \<Rightarrow>
               if act_status a \<noteq> ''active'' then decision False ''Actor is not active'' ''actor_inactive''
               else bind_res (get_effective_capabilities actor org db) (\<lambda>effective.
                 if cap \<notin> effective
                 then decision False ''Actor does not hold the requested capability'' ''capability_not_granted''
                 else decision True ''Capability granted by effective role authority'' ''capability_granted'')))"

subsection \<open>Audit events\<close>

text \<open>\<open>stamp\<close> is the identifier and the time stamp the event is created with; \<open>append\<close> sets the sequence number.\<close>

type_synonym stamp = "str \<times> time"

definition audit_metadata :: "platform \<Rightarrow> org_decision \<Rightarrow> (str \<times> json) list" where
  "audit_metadata pf d = [(''principal_id'', JStr (od_principal_id d)), (''capability_id'', JStr (od_capability_id d)),
     (''resource_id'', jopt (od_resource_id d)), (''resource_organization_id'', jopt (od_resource_organization_id d)),
     (''allowed'', JBool (od_allowed d)), (''reason_code'', JStr (od_reason_code d)), (''reason'', JStr (od_reason d)),
     (''decision_fingerprint'', JStr (decision_fingerprint pf d))]"

definition create_authorization_audit_event ::
  "platform \<Rightarrow> stamp \<Rightarrow> org_decision \<Rightarrow> str \<Rightarrow> str \<Rightarrow> bool \<Rightarrow> str \<Rightarrow> event_row result" where
  "create_authorization_audit_event pf st d command_id command_type allowed agg =
     raise_if (allowed \<noteq> od_allowed d) ValueError
       (Inr \<lparr>ev_id = fst st, ev_type = (if allowed then ''AUTHORIZATION_GRANTED'' else ''AUTHORIZATION_DENIED''),
          ev_aggregate_id = (if falsy_opt (od_resource_id d) then command_id else the (od_resource_id d)),
          ev_aggregate_type = agg, ev_organization_id = od_organization_id d, ev_actor_id = od_actor_id d,
          ev_timestamp = snd st, ev_correlation_id = command_id,
          ev_metadata = JObj ([(''command_id'', JStr command_id), (''command_type'', JStr command_type)] @ audit_metadata pf d),
          ev_sequence = 0\<rparr>)"

definition AUTHORITY_EVENT_TYPES :: "(str, str) dict" where
  "AUTHORITY_EVENT_TYPES =
     [(''role_created'', ''AUTHORITY_ROLE_CREATED''), (''role_activated'', ''AUTHORITY_ROLE_ACTIVATED''),
      (''role_deactivated'', ''AUTHORITY_ROLE_DEACTIVATED''), (''role_assigned'', ''AUTHORITY_ROLE_ASSIGNED''),
      (''role_assignment_activated'', ''AUTHORITY_ROLE_ASSIGNMENT_ACTIVATED''),
      (''role_assignment_deactivated'', ''AUTHORITY_ROLE_ASSIGNMENT_DEACTIVATED''), (''role_revoked'', ''AUTHORITY_ROLE_REVOKED'')]"

definition create_authority_mutation_audit_event ::
  "platform \<Rightarrow> stamp \<Rightarrow> org_decision \<Rightarrow> str \<Rightarrow> str \<Rightarrow> str \<Rightarrow> str option \<Rightarrow> event_row result" where
  "create_authority_mutation_audit_event pf st d command_id action role target =
     raise_if (\<not> od_allowed d) ValueError
     (case dict_get AUTHORITY_EVENT_TYPES action of
        None \<Rightarrow> Inl ValueError
      | Some ty \<Rightarrow> Inr \<lparr>ev_id = fst st, ev_type = ty, ev_aggregate_id = role, ev_aggregate_type = ''role_definition'',
          ev_organization_id = od_organization_id d, ev_actor_id = od_actor_id d, ev_timestamp = snd st,
          ev_correlation_id = command_id,
          ev_metadata = JObj ([(''command_id'', JStr command_id), (''action'', JStr action), (''role_definition_id'', JStr role),
            (''target_actor_id'', jopt target)] @ audit_metadata pf d), ev_sequence = 0\<rparr>)"

subsection \<open>Context and authority runtime\<close>

text \<open>
  \<open>Database.session\<close>: opening a session for an organization checks its identifier.  The row
  security that PostgreSQL adds to the filters of the repositories is not modelled.
\<close>

definition in_session :: "str \<Rightarrow> 'a result \<Rightarrow> 'a result" where
  "in_session org r = raise_if (blank org \<or> 128 < length (strip org)) ValueError r"

text \<open>A transaction: its writes are kept when it returns, and rolled back when it raises.\<close>

definition transaction :: "str \<Rightarrow> ('s \<Rightarrow> ('a \<times> 's) result) \<Rightarrow> 's \<Rightarrow> 'a result \<times> 's" where
  "transaction org t db = (case in_session org (t db) of Inl e \<Rightarrow> (Inl e, db) | Inr (x, db') \<Rightarrow> (Inr x, db'))"

text \<open>\<open>ready\<close> is the flag of the booted runtime.\<close>

definition runtime_create_organization :: "bool \<Rightarrow> organization_row \<Rightarrow> 'z org_db_scheme \<Rightarrow> unit result \<times> 'z org_db_scheme" where
  "runtime_create_organization ready og db =
     (case raise_if (\<not> ready) RuntimeNotReadyError
             (raise_if (get_organization (og_id og) db \<noteq> None) RepositoryError (add_organization og db)) of
        Inl e \<Rightarrow> (Inl e, db) | Inr db' \<Rightarrow> (Inr (), db'))"

definition runtime_register_actor :: "bool \<Rightarrow> actor_row \<Rightarrow> str \<Rightarrow> 'z org_db_scheme \<Rightarrow> unit result \<times> 'z org_db_scheme" where
  "runtime_register_actor ready a org db =
     (if \<not> ready then (Inl RuntimeNotReadyError, db)
      else transaction org (\<lambda>db.
        raise_if (get_organization org db = None) NotFoundError
        (bind_res (get_actor (act_id a) org db) (\<lambda>found.
           raise_if (found \<noteq> None) RepositoryError
             (bind_res (add_actor (a\<lparr>act_organization_id := org\<rparr>) db) (\<lambda>db'. Inr ((), db')))))) db)"

record principal_claims =
  pr_id :: str
  pr_metadata :: "(str, json) dict"

record org_context =
  cx_principal_id :: str
  cx_actor_id :: str
  cx_organization_id :: str

text \<open>\<open>establish_context\<close> of \<open>runtime/context.py\<close>; \<open>actor_org\<close> is the organization the actor object carries.\<close>

definition bind_context :: "principal_claims \<Rightarrow> actor_row \<Rightarrow> str option \<Rightarrow> str \<Rightarrow> org_context result" where
  "bind_context pr a actor_org org =
     raise_if ((case dict_get (pr_metadata pr) ''actor_id'' of None \<Rightarrow> JStr (pr_id pr) | Some v \<Rightarrow> v) \<noteq> JStr (act_id a)) ContextError
     (raise_if (actor_org \<noteq> None \<and> actor_org \<noteq> Some org) ContextError
     (raise_if (act_status a \<noteq> ''active'') ContextError
       (Inr \<lparr>cx_principal_id = pr_id pr, cx_actor_id = act_id a, cx_organization_id = org\<rparr>)))"

definition runtime_establish_context :: "bool \<Rightarrow> principal_claims \<Rightarrow> str \<Rightarrow> str \<Rightarrow> 'z org_db_scheme \<Rightarrow> org_context result" where
  "runtime_establish_context ready pr org actor db =
     raise_if (\<not> ready) RuntimeNotReadyError
     (in_session org
       (raise_if (get_organization org db = None) NotFoundError
         (bind_res (get_actor actor org db) (\<lambda>found.
            case found of None \<Rightarrow> Inl ContextError | Some a \<Rightarrow> bind_context pr a (Some org) org))))"

definition authority_authorize :: "org_context \<Rightarrow> str \<Rightarrow> str option \<Rightarrow> str option \<Rightarrow> 'z org_db_scheme \<Rightarrow> org_decision result" where
  "authority_authorize cx cap res res_org db =
     in_session (cx_organization_id cx)
       (authorize (cx_principal_id cx) (cx_actor_id cx) (cx_organization_id cx) cap res res_org db)"

text \<open>\<open>_deny\<close> writes the audit event in a transaction of its own and raises.\<close>

definition authority_deny ::
  "platform \<Rightarrow> stamp \<Rightarrow> org_decision \<Rightarrow> str \<Rightarrow> str \<Rightarrow> str \<Rightarrow> 'z org_db_scheme \<Rightarrow> 'a result \<times> 'z org_db_scheme" where
  "authority_deny pf st d command_id action agg db =
     (case transaction (od_organization_id d) (\<lambda>db.
             bind_res (create_authorization_audit_event pf st d command_id action False agg) (\<lambda>ev.
             bind_res (append_event ev db) (\<lambda>db'. Inr ((), db')))) db of
        (Inl e, db') \<Rightarrow> (Inl e, db')
      | (Inr _, db') \<Rightarrow> (Inl CommandAuthorizationError, db'))"

text \<open>
  Every operation authorizes in one transaction and changes the tables, with the audit
  event, in another.  \<open>env 0\<close> is what other clients commit in between, \<open>env 1\<close> what they
  commit inside the second one, between its read and its writes; a change is a function of
  the tables it read and of those it writes.  \<open>command_id\<close> is the caller's identifier or,
  when it gives none, a new \<open>uuid4\<close>.
\<close>

definition authority_change ::
  "platform \<Rightarrow> bool \<Rightarrow> stamp \<Rightarrow> org_context \<Rightarrow> str \<Rightarrow> str \<Rightarrow> str \<Rightarrow> str \<Rightarrow> str \<Rightarrow> str
     \<Rightarrow> (org_decision \<Rightarrow> 'z org_db_scheme \<Rightarrow> 'z org_db_scheme \<Rightarrow> ('a \<times> 'z org_db_scheme) result)
     \<Rightarrow> (nat \<Rightarrow> 'z org_db_scheme \<Rightarrow> 'z org_db_scheme) \<Rightarrow> 'z org_db_scheme \<Rightarrow> 'a result \<times> 'z org_db_scheme" where
  "authority_change pf ready st cx cap res res_org command_id action agg change env db =
     (case raise_if (\<not> ready) RuntimeNotReadyError (authority_authorize cx cap (Some res) (Some res_org) db) of
        Inl e \<Rightarrow> (Inl e, env 0 db)
      | Inr d \<Rightarrow>
          if \<not> od_allowed d then authority_deny pf st d command_id action agg (env 0 db)
          else transaction (cx_organization_id cx) (change d (env 0 db)) (env 1 (env 0 db)))"

text \<open>
  The change of a role table followed by its audit event.  The changes other than that of an
  assignment's status have no condition that another client could undo before their
  statement (rows are not deleted, and the keys of new ones are unique), so each of them
  takes place as a whole at its write.
\<close>

definition audited ::
  "platform \<Rightarrow> stamp \<Rightarrow> str \<Rightarrow> str \<Rightarrow> str \<Rightarrow> str option \<Rightarrow> 'a \<Rightarrow> ('z org_db_scheme \<Rightarrow> 'z org_db_scheme \<Rightarrow> 'z org_db_scheme result)
     \<Rightarrow> org_decision \<Rightarrow> 'z org_db_scheme \<Rightarrow> 'z org_db_scheme \<Rightarrow> ('a \<times> 'z org_db_scheme) result" where
  "audited pf st command_id action role target x mutate d snap db =
     bind_res (mutate snap db) (\<lambda>db1.
     bind_res (create_authority_mutation_audit_event pf st d command_id action role target) (\<lambda>ev.
     bind_res (append_event ev db1) (\<lambda>db2. Inr (x, db2))))"

definition runtime_create_role_definition ::
  "platform \<Rightarrow> bool \<Rightarrow> stamp \<Rightarrow> org_context \<Rightarrow> role_definition \<Rightarrow> str \<Rightarrow> (nat \<Rightarrow> 'z org_db_scheme \<Rightarrow> 'z org_db_scheme) \<Rightarrow> 'z org_db_scheme
     \<Rightarrow> role_definition result \<times> 'z org_db_scheme" where
  "runtime_create_role_definition pf ready st cx role command_id =
     authority_change pf ready st cx ''authority.role.create'' (rd_id role) (rd_organization_id role) command_id ''role_created'' ''workflow''
       (audited pf st command_id ''role_created'' (rd_id role) None role (\<lambda>_. add_role_definition role))"

definition runtime_assign_role ::
  "platform \<Rightarrow> bool \<Rightarrow> stamp \<Rightarrow> org_context \<Rightarrow> role_assignment \<Rightarrow> str \<Rightarrow> (nat \<Rightarrow> 'z org_db_scheme \<Rightarrow> 'z org_db_scheme) \<Rightarrow> 'z org_db_scheme
     \<Rightarrow> role_assignment result \<times> 'z org_db_scheme" where
  "runtime_assign_role pf ready st cx a command_id =
     authority_change pf ready st cx ''authority.role.assign'' (ra_role_definition_id a) (ra_organization_id a) command_id ''role_assigned'' ''workflow''
       (audited pf st command_id ''role_assigned'' (ra_role_definition_id a) (Some (ra_actor_id a)) a (\<lambda>_. assign_role a))"

definition runtime_set_role_status ::
  "platform \<Rightarrow> bool \<Rightarrow> stamp \<Rightarrow> org_context \<Rightarrow> str \<Rightarrow> str \<Rightarrow> str \<Rightarrow> str \<Rightarrow> str \<Rightarrow> (nat \<Rightarrow> 'z org_db_scheme \<Rightarrow> 'z org_db_scheme) \<Rightarrow> 'z org_db_scheme
     \<Rightarrow> unit result \<times> 'z org_db_scheme" where
  "runtime_set_role_status pf ready st cx role status cap action command_id =
     authority_change pf ready st cx cap role (cx_organization_id cx) command_id action ''workflow''
       (audited pf st command_id action role None () (\<lambda>_. set_role_definition_status role (cx_organization_id cx) status))"

definition runtime_activate_role ::
  "platform \<Rightarrow> bool \<Rightarrow> stamp \<Rightarrow> org_context \<Rightarrow> str \<Rightarrow> str \<Rightarrow> (nat \<Rightarrow> 'z org_db_scheme \<Rightarrow> 'z org_db_scheme) \<Rightarrow> 'z org_db_scheme
     \<Rightarrow> unit result \<times> 'z org_db_scheme" where
  "runtime_activate_role pf ready st cx role command_id =
     runtime_set_role_status pf ready st cx role ''active'' ''authority.role.activate'' ''role_activated'' command_id"

definition runtime_deactivate_role ::
  "platform \<Rightarrow> bool \<Rightarrow> stamp \<Rightarrow> org_context \<Rightarrow> str \<Rightarrow> str \<Rightarrow> (nat \<Rightarrow> 'z org_db_scheme \<Rightarrow> 'z org_db_scheme) \<Rightarrow> 'z org_db_scheme
     \<Rightarrow> unit result \<times> 'z org_db_scheme" where
  "runtime_deactivate_role pf ready st cx role command_id =
     runtime_set_role_status pf ready st cx role ''inactive'' ''authority.role.deactivate'' ''role_deactivated'' command_id"

definition runtime_set_assignment_status ::
  "platform \<Rightarrow> bool \<Rightarrow> stamp \<Rightarrow> org_context \<Rightarrow> str \<Rightarrow> str \<Rightarrow> str \<Rightarrow> str \<Rightarrow> str \<Rightarrow> str \<Rightarrow> (nat \<Rightarrow> 'z org_db_scheme \<Rightarrow> 'z org_db_scheme) \<Rightarrow> 'z org_db_scheme
     \<Rightarrow> unit result \<times> 'z org_db_scheme" where
  "runtime_set_assignment_status pf ready st cx actor role status cap action command_id =
     authority_change pf ready st cx cap role (cx_organization_id cx) command_id action ''workflow''
       (audited pf st command_id action role (Some actor) () (set_assignment_status actor (cx_organization_id cx) role status))"

definition runtime_activate_assignment ::
  "platform \<Rightarrow> bool \<Rightarrow> stamp \<Rightarrow> org_context \<Rightarrow> str \<Rightarrow> str \<Rightarrow> str \<Rightarrow> (nat \<Rightarrow> 'z org_db_scheme \<Rightarrow> 'z org_db_scheme) \<Rightarrow> 'z org_db_scheme
     \<Rightarrow> unit result \<times> 'z org_db_scheme" where
  "runtime_activate_assignment pf ready st cx actor role command_id =
     runtime_set_assignment_status pf ready st cx actor role ''active'' ''authority.role.activate'' ''role_assignment_activated'' command_id"

definition runtime_deactivate_assignment ::
  "platform \<Rightarrow> bool \<Rightarrow> stamp \<Rightarrow> org_context \<Rightarrow> str \<Rightarrow> str \<Rightarrow> str \<Rightarrow> (nat \<Rightarrow> 'z org_db_scheme \<Rightarrow> 'z org_db_scheme) \<Rightarrow> 'z org_db_scheme
     \<Rightarrow> unit result \<times> 'z org_db_scheme" where
  "runtime_deactivate_assignment pf ready st cx actor role command_id =
     runtime_set_assignment_status pf ready st cx actor role ''inactive'' ''authority.role.deactivate'' ''role_assignment_deactivated'' command_id"

definition runtime_revoke_assignment ::
  "platform \<Rightarrow> bool \<Rightarrow> stamp \<Rightarrow> org_context \<Rightarrow> str \<Rightarrow> str \<Rightarrow> str \<Rightarrow> (nat \<Rightarrow> 'z org_db_scheme \<Rightarrow> 'z org_db_scheme) \<Rightarrow> 'z org_db_scheme
     \<Rightarrow> unit result \<times> 'z org_db_scheme" where
  "runtime_revoke_assignment pf ready st cx actor role command_id =
     runtime_set_assignment_status pf ready st cx actor role ''revoked'' ''authority.role.revoke'' ''role_revoked'' command_id"

definition require_capability ::
  "platform \<Rightarrow> bool \<Rightarrow> stamp \<Rightarrow> org_context \<Rightarrow> str \<Rightarrow> str \<Rightarrow> str \<Rightarrow> str \<Rightarrow> str \<Rightarrow> str \<Rightarrow> (nat \<Rightarrow> 'z org_db_scheme \<Rightarrow> 'z org_db_scheme) \<Rightarrow> 'z org_db_scheme
     \<Rightarrow> org_decision result \<times> 'z org_db_scheme" where
  "require_capability pf ready st cx cap command_id command_type res res_org agg env db =
     (if ready \<and> (\<exists>v\<in>{command_id, command_type, res, res_org, agg}. blank v) then (Inl ValueError, env 0 db)
      else authority_change pf ready st cx cap res res_org command_id command_type agg
             (\<lambda>d _ db. bind_res (create_authorization_audit_event pf st d command_id command_type True agg) (\<lambda>ev.
                     bind_res (append_event ev db) (\<lambda>db'. Inr (d, db')))) env db)"

text \<open>The requests of the authority runtime, with the method each one calls and the capability it needs.\<close>

datatype role_request =
    CreateRole role_definition
  | AssignRole role_assignment
  | ActivateRole str
  | DeactivateRole str
  | ActivateAssignment str str
  | DeactivateAssignment str str
  | RevokeAssignment str str

fun request_capability :: "role_request \<Rightarrow> str" where
  "request_capability (CreateRole r) = ''authority.role.create''"
| "request_capability (AssignRole a) = ''authority.role.assign''"
| "request_capability (ActivateRole i) = ''authority.role.activate''"
| "request_capability (DeactivateRole i) = ''authority.role.deactivate''"
| "request_capability (ActivateAssignment a i) = ''authority.role.activate''"
| "request_capability (DeactivateAssignment a i) = ''authority.role.deactivate''"
| "request_capability (RevokeAssignment a i) = ''authority.role.revoke''"

fun target_role :: "role_request \<Rightarrow> str" where
  "target_role (CreateRole r) = rd_id r"
| "target_role (AssignRole a) = ra_role_definition_id a"
| "target_role (ActivateRole i) = i"
| "target_role (DeactivateRole i) = i"
| "target_role (ActivateAssignment a i) = i"
| "target_role (DeactivateAssignment a i) = i"
| "target_role (RevokeAssignment a i) = i"

abbreviation discard :: "'a result \<times> 's \<Rightarrow> unit result \<times> 's" where
  "discard rs \<equiv> (map_sum id (\<lambda>_. ()) (fst rs), snd rs)"

fun authority_op ::
  "platform \<Rightarrow> bool \<Rightarrow> stamp \<Rightarrow> org_context \<Rightarrow> role_request \<Rightarrow> str \<Rightarrow> (nat \<Rightarrow> 'z org_db_scheme \<Rightarrow> 'z org_db_scheme) \<Rightarrow> 'z org_db_scheme
     \<Rightarrow> unit result \<times> 'z org_db_scheme" where
  "authority_op pf ready st cx (CreateRole r) c env db = discard (runtime_create_role_definition pf ready st cx r c env db)"
| "authority_op pf ready st cx (AssignRole a) c env db = discard (runtime_assign_role pf ready st cx a c env db)"
| "authority_op pf ready st cx (ActivateRole i) c env db = runtime_activate_role pf ready st cx i c env db"
| "authority_op pf ready st cx (DeactivateRole i) c env db = runtime_deactivate_role pf ready st cx i c env db"
| "authority_op pf ready st cx (ActivateAssignment a i) c env db = runtime_activate_assignment pf ready st cx a i c env db"
| "authority_op pf ready st cx (DeactivateAssignment a i) c env db = runtime_deactivate_assignment pf ready st cx a i c env db"
| "authority_op pf ready st cx (RevokeAssignment a i) c env db = runtime_revoke_assignment pf ready st cx a i c env db"

subsection \<open>The tables' invariant\<close>

abbreviation actor_key :: "actor_row \<Rightarrow> str \<times> str" where
  "actor_key a \<equiv> (act_id a, act_organization_id a)"

abbreviation role_key :: "role_row \<Rightarrow> str \<times> str" where
  "role_key r \<equiv> (rr_id r, rr_organization_id r)"

definition events_of :: "str \<Rightarrow> str \<Rightarrow> event_row list \<Rightarrow> event_row list" where
  "events_of i org es = filter (\<lambda>e. ev_aggregate_id e = i \<and> ev_organization_id e = org) es"

definition gap_free :: "event_row list \<Rightarrow> bool" where
  "gap_free es \<longleftrightarrow> (\<forall>i org. map ev_sequence (events_of i org es) = map int [1..<Suc (length (events_of i org es))])"

definition valid_role_row :: "role_row \<Rightarrow> bool" where
  "valid_role_row r \<longleftrightarrow> (\<exists>x. role_from_row r = Inr x)"

definition org_inv :: "'z org_db_scheme \<Rightarrow> bool" where
  "org_inv db \<longleftrightarrow>
     distinct (map actor_key (actors db)) \<and> (\<forall>a\<in>set (actors db). act_type a \<in> set ACTOR_TYPES)
     \<and> distinct (map rr_id (role_rows db)) \<and> (\<forall>r\<in>set (role_rows db). valid_role_row r)
     \<and> distinct (map assignment_key (assignments db)) \<and> (\<forall>a\<in>set (assignments db). check_assignment a = Inr a)
     \<and> (\<forall>a\<in>set (assignments db). (ra_actor_id a, ra_organization_id a) \<in> actor_key ` set (actors db)
          \<and> (ra_role_definition_id a, ra_organization_id a) \<in> role_key ` set (role_rows db))
     \<and> distinct (map ev_id (event_rows db)) \<and> gap_free (event_rows db)"

text \<open>What the tables grant: an active assignment to an active role of the same organization that lists the capability.\<close>

definition holds_capability :: "str \<Rightarrow> str \<Rightarrow> str \<Rightarrow> 'z org_db_scheme \<Rightarrow> bool" where
  "holds_capability actor org cap db \<longleftrightarrow>
     (\<exists>a\<in>set (assignments db). \<exists>r\<in>set (role_rows db). ra_actor_id a = actor \<and> ra_organization_id a = org \<and> ra_status a = ''active''
        \<and> rr_id r = ra_role_definition_id a \<and> rr_organization_id r = org \<and> rr_status r = ''active'' \<and> cap \<in> set (rr_capabilities r))"

definition active_member :: "str \<Rightarrow> str \<Rightarrow> 'z org_db_scheme \<Rightarrow> bool" where
  "active_member actor org db \<longleftrightarrow> (\<exists>a\<in>set (actors db). actor_key a = (actor, org) \<and> act_status a = ''active'')"

subsection \<open>Resolution\<close>

lemma find_unique:
  assumes "distinct (map f xs)" "x \<in> set xs" "f x = k"
  shows "find (\<lambda>y. f y = k) xs = Some x"
  using assms by (induction xs) (auto simp: image_iff)

lemma find_weaken:
  assumes "x \<in> set xs" "P x" "\<And>y. y \<in> set xs \<Longrightarrow> P y \<Longrightarrow> y = x"
  shows "find P xs = Some x"
proof -
  obtain z where z: "find P xs = Some z" using assms(1,2) by (cases "find P xs") (auto simp: find_None_iff)
  then have "z \<in> set xs" "P z" by (auto simp: find_Some_iff)
  with assms(3) z show ?thesis by blast
qed

lemma role_from_row_Inr: "role_from_row r = Inr x \<Longrightarrow> x = \<lparr>rd_id = rr_id r, rd_name = rr_name r, rd_organization_id = rr_organization_id r,
     rd_capabilities = set (rr_capabilities r), rd_description = rr_description r, rd_status = rr_status r\<rparr>"
  by (simp add: role_from_row_def check_role_def)

lemma role_row_of_eq:
  assumes "org_inv db" "r \<in> set (role_rows db)" "rr_id r = i" "rr_organization_id r = org"
  shows "role_row_of i org db = Some r"
  unfolding role_row_of_def
  by (rule find_weaken) (use assms in \<open>auto simp: org_inv_def distinct_map inj_on_def\<close>)

lemma role_row_of_Some:
  "role_row_of i org db = Some r \<Longrightarrow> r \<in> set (role_rows db) \<and> rr_id r = i \<and> rr_organization_id r = org"
  by (auto simp: role_row_of_def find_Some_iff)

lemma get_role_definition_eq:
  assumes "org_inv db"
  shows "get_role_definition i org db = Inr (map_option (\<lambda>r. projr (role_from_row r)) (role_row_of i org db))"
proof (cases "role_row_of i org db")
  case (Some r)
  then have "valid_role_row r" using role_row_of_Some [OF Some] assms by (simp add: org_inv_def)
  then show ?thesis using Some by (auto simp: get_role_definition_def valid_role_row_def)
qed (simp add: get_role_definition_def)

lemma read_assignments_ok: "\<forall>a\<in>set as. check_assignment a = Inr a \<Longrightarrow> read_assignments as = Inr as"
  by (induction as) auto

lemma read_roles_ok:
  assumes "org_inv db"
  shows "read_roles org db is = Inr (\<lambda>i. if i \<in> set is then map_option (\<lambda>r. projr (role_from_row r)) (role_row_of i org db) else None)"
  by (induction "is") (auto simp: get_role_definition_eq [OF assms] fun_eq_iff split: option.splits)

lemma fold_union: "fold (\<lambda>a eff. if P a then eff else eff \<union> f a) as S = S \<union> (\<Union>a\<in>{a \<in> set as. \<not> P a}. f a)"
  by (induction as arbitrary: S) auto

lemma resolve_eq:
  assumes "actor \<noteq> []" "org \<noteq> []"
  shows "resolve_effective_capabilities actor org as roles =
    {c. \<exists>a\<in>set as. \<exists>r. ra_actor_id a = actor \<and> ra_organization_id a = org \<and> ra_status a = ''active''
       \<and> roles (ra_role_definition_id a) = Some r \<and> rd_organization_id r = org \<and> role_grants r c}"
proof -
  define P where "P a \<longleftrightarrow> \<not> (ra_actor_id a = actor \<and> ra_organization_id a = org \<and> ra_status a = ''active''
    \<and> (\<exists>r. roles (ra_role_definition_id a) = Some r \<and> rd_organization_id r = org \<and> rd_status r = ''active''))" for a :: role_assignment
  have "(\<lambda>a eff. if ra_actor_id a \<noteq> actor \<or> ra_organization_id a \<noteq> org \<or> ra_status a \<noteq> ''active'' then eff
             else case roles (ra_role_definition_id a) of
                    None \<Rightarrow> eff
                  | Some r \<Rightarrow> if rd_organization_id r \<noteq> org \<or> rd_status r \<noteq> ''active'' then eff else eff \<union> rd_capabilities r)
     = (\<lambda>a eff. if P a then eff else eff \<union> rd_capabilities (the (roles (ra_role_definition_id a))))"
    by (auto simp: P_def fun_eq_iff split: option.splits)
  then have "resolve_effective_capabilities actor org as roles
      = (\<Union>a\<in>{a \<in> set as. \<not> P a}. rd_capabilities (the (roles (ra_role_definition_id a))))"
    using assms by (simp add: resolve_effective_capabilities_def fold_union)
  then show ?thesis by (auto simp: P_def role_grants_def)
qed

lemma get_effective_eq:
  assumes "org_inv db" "actor \<noteq> []" "org \<noteq> []"
  shows "get_effective_capabilities actor org db = Inr {c. holds_capability actor org c db}"
proof -
  let ?as = "sort_key ra_role_definition_id (filter (\<lambda>a. ra_actor_id a = actor \<and> ra_organization_id a = org) (assignments db))"
  have as: "get_assignments actor org db = Inr ?as"
    using assms(1) by (auto simp: get_assignments_def org_inv_def intro: read_assignments_ok)
  have row: "(\<exists>x. map_option (\<lambda>r. projr (role_from_row r)) (role_row_of i org db) = Some x \<and> rd_organization_id x = org \<and> role_grants x c)
     \<longleftrightarrow> (\<exists>r\<in>set (role_rows db). rr_id r = i \<and> rr_organization_id r = org \<and> rr_status r = ''active'' \<and> c \<in> set (rr_capabilities r))" for i c
  proof -
    have p: "rd_organization_id (projr (role_from_row r)) = rr_organization_id r \<and> (role_grants (projr (role_from_row r)) c
        \<longleftrightarrow> rr_status r = ''active'' \<and> c \<in> set (rr_capabilities r))" if m: "r \<in> set (role_rows db)" for r
    proof -
      obtain x where "role_from_row r = Inr x" using m assms(1) by (auto simp: org_inv_def valid_role_row_def)
      then show ?thesis using role_from_row_Inr [of r x] by (simp add: role_grants_def)
    qed
    show ?thesis
    proof (cases "role_row_of i org db")
      case None
      then show ?thesis using role_row_of_eq [OF assms(1)] by force
    next
      case (Some r)
      then have r: "r \<in> set (role_rows db)" "rr_id r = i" "rr_organization_id r = org" using role_row_of_Some by blast+
      have u: "r' = r" if "r' \<in> set (role_rows db)" "rr_id r' = i" "rr_organization_id r' = org" for r'
        using role_row_of_eq [OF assms(1) that] Some by simp
      show ?thesis using Some r p [OF r(1)] by (auto dest: u)
    qed
  qed
  have "resolve_effective_capabilities actor org ?as
      (\<lambda>i. if i \<in> set (remdups (map ra_role_definition_id ?as)) then map_option (\<lambda>r. projr (role_from_row r)) (role_row_of i org db) else None)
    = {c. \<exists>a\<in>set ?as. ra_actor_id a = actor \<and> ra_organization_id a = org \<and> ra_status a = ''active''
       \<and> (\<exists>x. map_option (\<lambda>r. projr (role_from_row r)) (role_row_of (ra_role_definition_id a) org db) = Some x \<and> rd_organization_id x = org \<and> role_grants x c)}"
    unfolding resolve_eq [OF assms(2,3)] by (rule Collect_cong, rule bex_cong) auto
  also have "\<dots> = {c. holds_capability actor org c db}"
    unfolding row holds_capability_def by auto
  finally show ?thesis
    by (simp add: get_effective_capabilities_def as read_roles_ok [OF assms(1)])
qed

lemma get_actor_eq:
  assumes "org_inv db"
  shows "get_actor actor org db = Inr (find (\<lambda>a. actor_key a = (actor, org)) (actors db))"
proof (cases "find (\<lambda>a. act_id a = actor \<and> act_organization_id a = org) (actors db)")
  case (Some a)
  then have "a \<in> set (actors db)" by (auto simp: find_Some_iff)
  then have "act_type a \<in> set ACTOR_TYPES" using assms by (simp add: org_inv_def)
  then show ?thesis using Some by (simp add: get_actor_def)
qed (simp add: get_actor_def)

lemma active_member_iff:
  assumes "org_inv db"
  shows "active_member actor org db \<longleftrightarrow> (\<exists>a. find (\<lambda>a. actor_key a = (actor, org)) (actors db) = Some a \<and> act_status a = ''active'')"
proof
  assume "active_member actor org db"
  then obtain a where a: "a \<in> set (actors db)" "actor_key a = (actor, org)" "act_status a = ''active''"
    by (auto simp: active_member_def)
  then have "find (\<lambda>a. actor_key a = (actor, org)) (actors db) = Some a"
    using assms by (intro find_unique) (auto simp: org_inv_def)
  with a(3) show "\<exists>a. find (\<lambda>a. actor_key a = (actor, org)) (actors db) = Some a \<and> act_status a = ''active''" by blast
qed (auto simp: active_member_def find_Some_iff)

lemma holds_canonical:
  assumes "org_inv db" "holds_capability actor org cap db"
  shows "check_capability cap = Inr ()"
proof -
  obtain r where r: "r \<in> set (role_rows db)" "cap \<in> set (rr_capabilities r)" using assms(2) by (auto simp: holds_capability_def)
  then obtain x where "role_from_row r = Inr x" using assms(1) by (auto simp: org_inv_def valid_role_row_def)
  then show ?thesis using r(2) by (auto simp: role_from_row_def check_role_def)
qed

text \<open>The decisions \<open>authorize\<close> can return for a request, in the order of its tests.\<close>

definition authorization_outcome :: "str \<Rightarrow> str \<Rightarrow> str \<Rightarrow> str \<Rightarrow> str option \<Rightarrow> str option \<Rightarrow> 'z org_db_scheme \<Rightarrow> str" where
  "authorization_outcome pid actor org cap res res_org db =
     (if pid \<noteq> actor then ''principal_actor_mismatch''
      else if check_capability cap \<noteq> Inr () then ''invalid_capability''
      else if res \<noteq> None \<and> res_org \<noteq> Some org then ''resource_not_accessible''
      else if actor_key ` set (actors db) \<inter> {(actor, org)} = {} then ''actor_not_in_organization''
      else if \<not> active_member actor org db then ''actor_inactive''
      else if \<not> holds_capability actor org cap db then ''capability_not_granted''
      else ''capability_granted'')"

definition reason_of :: "str \<Rightarrow> str" where
  "reason_of code =
     (if code = ''principal_actor_mismatch'' then ''Principal does not identify the requested actor''
      else if code = ''invalid_capability'' then ''Capability is not canonical''
      else if code = ''resource_not_accessible'' then ''Target resource is not accessible in this organization''
      else if code = ''actor_not_in_organization'' then ''Actor is not a member of the organization''
      else if code = ''actor_inactive'' then ''Actor is not active''
      else if code = ''capability_not_granted'' then ''Actor does not hold the requested capability''
      else ''Capability granted by effective role authority'')"

lemma check_org_decision_Inr:
  "check_org_decision d = Inr d' \<longleftrightarrow> d' = d \<and> \<not> blank (od_reason d) \<and> od_reason_code d \<in> set CANONICAL_REASON_CODES
     \<and> (od_allowed d \<longleftrightarrow> od_reason_code d = ''capability_granted'') \<and> od_actor_id d \<noteq> [] \<and> od_principal_id d \<noteq> [] \<and> od_organization_id d \<noteq> []
     \<and> od_capability_id d \<noteq> [] \<and> (od_resource_id d = None \<or> od_resource_organization_id d \<noteq> None \<or> od_reason_code d = ''resource_not_accessible'')"
  by (auto simp: check_org_decision_def)

lemma canonical_codes [simp]:
  "''principal_actor_mismatch'' \<in> set CANONICAL_REASON_CODES" "''invalid_capability'' \<in> set CANONICAL_REASON_CODES"
  "''resource_not_accessible'' \<in> set CANONICAL_REASON_CODES" "''actor_not_in_organization'' \<in> set CANONICAL_REASON_CODES"
  "''actor_inactive'' \<in> set CANONICAL_REASON_CODES" "''capability_not_granted'' \<in> set CANONICAL_REASON_CODES"
  "''capability_granted'' \<in> set CANONICAL_REASON_CODES" "''command_organization_mismatch'' \<in> set CANONICAL_REASON_CODES"
  by (simp_all add: CANONICAL_REASON_CODES_def)

lemma reasons_not_blank [simp]:
  "\<not> blank ''Principal does not identify the requested actor''" "\<not> blank ''Capability is not canonical''"
  "\<not> blank ''Target resource is not accessible in this organization''" "\<not> blank ''Actor is not a member of the organization''"
  "\<not> blank ''Actor is not active''" "\<not> blank ''Actor does not hold the requested capability''"
  "\<not> blank ''Capability granted by effective role authority''" "\<not> blank ''Command organization does not match runtime context''"
  by (simp_all add: blank_iff is_space_def Let_def)

lemma reason_of_not_blank [simp]: "\<not> blank (reason_of code)"
  by (simp add: reason_of_def)

lemma outcome_canonical [simp]: "authorization_outcome pid actor org cap res res_org db \<in> set CANONICAL_REASON_CODES"
  by (simp add: authorization_outcome_def)

lemma authorize_fields:
  assumes "authorize pid actor org cap res res_org db = Inr d"
  shows "check_org_decision d = Inr d" "od_actor_id d = actor" "od_principal_id d = pid" "od_organization_id d = org" "od_capability_id d = cap"
    "od_resource_id d = res" "od_resource_organization_id d = res_org"
proof -
  have "\<exists>al reason code. check_org_decision \<lparr>od_allowed = al, od_reason = reason, od_reason_code = code, od_actor_id = actor,
    od_principal_id = pid, od_organization_id = org, od_capability_id = cap, od_resource_id = res, od_resource_organization_id = res_org\<rparr> = Inr d"
    using assms unfolding authorize_def Let_def
    by (cases "get_actor actor org db"; cases "get_effective_capabilities actor org db") (auto split: if_splits option.splits)
  then obtain al reason code where c: "check_org_decision \<lparr>od_allowed = al, od_reason = reason, od_reason_code = code, od_actor_id = actor,
    od_principal_id = pid, od_organization_id = org, od_capability_id = cap, od_resource_id = res, od_resource_organization_id = res_org\<rparr> = Inr d"
    by blast
  then have d: "d = \<lparr>od_allowed = al, od_reason = reason, od_reason_code = code, od_actor_id = actor,
    od_principal_id = pid, od_organization_id = org, od_capability_id = cap, od_resource_id = res, od_resource_organization_id = res_org\<rparr>"
    by (simp only: check_org_decision_Inr)
  with c show "check_org_decision d = Inr d" "od_actor_id d = actor" "od_principal_id d = pid" "od_organization_id d = org"
    "od_capability_id d = cap" "od_resource_id d = res" "od_resource_organization_id d = res_org" by simp_all
qed

lemma authorize_eq:
  fixes pid cap :: str and res res_org :: "str option"
  assumes "org_inv db" "actor \<noteq> []" "org \<noteq> []"
  defines "code \<equiv> authorization_outcome pid actor org cap res res_org db"
  shows "authorize pid actor org cap res res_org db = check_org_decision
    \<lparr>od_allowed = (code = ''capability_granted''), od_reason = reason_of code, od_reason_code = code, od_actor_id = actor,
     od_principal_id = pid, od_organization_id = org, od_capability_id = cap, od_resource_id = res, od_resource_organization_id = res_org\<rparr>"
proof -
  have none: "actor_key ` set (actors db) \<inter> {(actor, org)} = {} \<longleftrightarrow> find (\<lambda>a. actor_key a = (actor, org)) (actors db) = None"
    by (auto simp: find_None_iff)
  show ?thesis
    unfolding code_def authorize_def authorization_outcome_def Let_def none get_actor_eq [OF assms(1)] active_member_iff [OF assms(1)]
      get_effective_eq [OF assms(1-3)]
    by (cases "find (\<lambda>a. actor_key a = (actor, org)) (actors db)") (simp_all add: reason_of_def)
qed

lemma authorize_outcome:
  assumes "org_inv db" "pid \<noteq> []" "actor \<noteq> []" "org \<noteq> []" "cap \<noteq> []"
    and "res = None \<or> res_org \<noteq> None \<or> pid = actor \<and> check_capability cap = Inr ()"
  shows "\<exists>d. authorize pid actor org cap res res_org db = Inr d
    \<and> od_reason_code d = authorization_outcome pid actor org cap res res_org db \<and> (od_allowed d \<longleftrightarrow> od_reason_code d = ''capability_granted'')"
proof -
  have "res = None \<or> res_org \<noteq> None \<or> authorization_outcome pid actor org cap res res_org db = ''resource_not_accessible''"
    using assms(6) by (auto simp: authorization_outcome_def)
  then show ?thesis
    unfolding authorize_eq [OF assms(1,3,4)] using assms(2-5) by (simp add: check_org_decision_Inr)
qed

lemma get_effective_ok: "org_inv db \<Longrightarrow> \<exists>eff. get_effective_capabilities actor org db = Inr eff"
  by (simp add: get_effective_capabilities_def get_assignments_def read_roles_ok)
    (subst read_assignments_ok, auto simp: org_inv_def)

lemma check_org_decision_empty:
  "od_actor_id d = [] \<or> od_organization_id d = [] \<Longrightarrow> check_org_decision d = Inl ValueError"
  by (auto simp: check_org_decision_def raise_if_def)

lemma authorize_empty:
  assumes "org_inv db" "actor = [] \<or> org = []"
  shows "authorize pid actor org cap res res_org db = Inl ValueError"
proof -
  obtain eff where "get_effective_capabilities actor org db = Inr eff" using get_effective_ok [OF assms(1)] by blast
  with assms(2) show ?thesis
    unfolding authorize_def Let_def get_actor_eq [OF assms(1)]
    by (auto simp: check_org_decision_empty split: option.split)
qed

lemma outcome_granted:
  assumes "org_inv db"
  shows "authorization_outcome pid actor org cap res res_org db = ''capability_granted'' \<longleftrightarrow>
    pid = actor \<and> (res = None \<or> res_org = Some org) \<and> active_member actor org db \<and> holds_capability actor org cap db"
  using holds_canonical [OF assms, of actor org cap] by (auto simp: authorization_outcome_def active_member_def)

lemma authorize_allowed:
  assumes "authorize pid actor org cap res res_org db = Inr d" "org_inv db" "od_allowed d"
  shows "pid = actor \<and> (res = None \<or> res_org = Some org) \<and> active_member actor org db \<and> holds_capability actor org cap db"
proof -
  from authorize_fields [OF assms(1)] have f: "pid \<noteq> []" "actor \<noteq> []" "org \<noteq> []" "cap \<noteq> []" by (auto simp: check_org_decision_Inr)
  from assms(1,3) have "authorization_outcome pid actor org cap res res_org db = ''capability_granted''"
    unfolding authorize_eq [OF assms(2) f(2,3)] check_org_decision_Inr by auto
  then show ?thesis unfolding outcome_granted [OF assms(2)] .
qed

subsection \<open>The event log\<close>

lemma fold_max_upt: "fold (\<lambda>q m. max m q) (map int [1..<Suc n]) 0 = int n"
  by (induction n) auto

lemma gap_free_max:
  assumes "gap_free es"
  shows "fold (\<lambda>x m. max m (ev_sequence x)) (events_of i org es) 0 = int (length (events_of i org es))"
proof -
  let ?n = "length (events_of i org es)"
  have "fold (\<lambda>x m. max m (ev_sequence x)) (events_of i org es) 0 = fold (\<lambda>q m. max m q) (map ev_sequence (events_of i org es)) 0"
    by (simp add: fold_map comp_def)
  also have "\<dots> = fold (\<lambda>q m. max m q) (map int [1..<Suc ?n]) 0" using assms by (simp add: gap_free_def)
  also have "\<dots> = int ?n" by (rule fold_max_upt)
  finally show ?thesis .
qed

lemma events_of_append [simp]: "events_of i org (xs @ ys) = events_of i org xs @ events_of i org ys"
  by (simp add: events_of_def)

lemma append_event_eq:
  assumes "append_event ev db = Inr db'" "gap_free (event_rows db)"
  obtains n where "db' = db\<lparr>event_rows := event_rows db @ [ev\<lparr>ev_sequence := n\<rparr>]\<rparr>" "ev_id ev \<notin> ev_id ` set (event_rows db)"
    "gap_free (event_rows db')"
proof -
  let ?i = "ev_aggregate_id ev" and ?o = "ev_organization_id ev"
  let ?e = "ev\<lparr>ev_sequence := int (length (events_of ?i ?o (event_rows db))) + 1\<rparr>"
  have f: "fold (\<lambda>x m. max m (ev_sequence x)) (filter (\<lambda>x. ev_aggregate_id x = ?i \<and> ev_organization_id x = ?o) (event_rows db)) 0
      = int (length (events_of ?i ?o (event_rows db)))"
    using gap_free_max [OF assms(2)] by (simp only: events_of_def)
  have db': "db' = db\<lparr>event_rows := event_rows db @ [?e]\<rparr>" and n: "ev_id ev \<notin> ev_id ` set (event_rows db)"
    using assms(1) unfolding append_event_def Let_def f by auto
  moreover have "gap_free (event_rows db @ [?e])"
    unfolding gap_free_def
  proof (intro allI)
    fix i org
    show "map ev_sequence (events_of i org (event_rows db @ [?e])) = map int [1..<Suc (length (events_of i org (event_rows db @ [?e])))]"
      using assms(2) by (simp add: gap_free_def events_of_def)
  qed
  ultimately show thesis by (intro that) simp_all
qed

lemma for_aggregate_eq:
  assumes "gap_free (event_rows db)"
  shows "for_aggregate i org db = events_of i org (event_rows db)"
proof -
  have "sorted (map ev_sequence (events_of i org (event_rows db)))"
    using assms unfolding gap_free_def by (simp add: sorted_wrt_map del: upt_Suc)
  then show ?thesis by (simp add: for_aggregate_def events_of_def sort_key_id_if_sorted)
qed

subsection \<open>How the tables evolve\<close>

definition revoked_keys :: "'z org_db_scheme \<Rightarrow> (str \<times> str \<times> str) set" where
  "revoked_keys db = assignment_key ` set (filter (\<lambda>a. ra_status a = ''revoked'') (assignments db))"

definition evolves :: "'z org_db_scheme \<Rightarrow> 'z org_db_scheme \<Rightarrow> bool" where
  "evolves db db' \<longleftrightarrow> (org_inv db \<longrightarrow> org_inv db' \<and> prefix (event_rows db) (event_rows db'))"

lemma evolves_refl [simp]: "evolves db db"
  by (simp add: evolves_def)

lemma evolves_trans: "evolves db db1 \<Longrightarrow> evolves db1 db2 \<Longrightarrow> evolves db db2"
  by (fastforce simp: evolves_def intro: prefix_order.trans)

text \<open>The rows of the other organizations.\<close>

definition foreign_authority :: "str \<Rightarrow> 'z org_db_scheme \<Rightarrow> role_row list \<times> role_assignment list" where
  "foreign_authority org db =
     (filter (\<lambda>r. rr_organization_id r \<noteq> org) (role_rows db), filter (\<lambda>a. ra_organization_id a \<noteq> org) (assignments db))"

lemma append_event_evolves:
  assumes "append_event ev db = Inr db'"
  shows "evolves db db'"
  unfolding evolves_def
proof
  assume inv: "org_inv db"
  then have "gap_free (event_rows db)" by (simp add: org_inv_def)
  from append_event_eq [OF assms this] obtain n where n: "db' = db\<lparr>event_rows := event_rows db @ [ev\<lparr>ev_sequence := n\<rparr>]\<rparr>"
    "ev_id ev \<notin> ev_id ` set (event_rows db)" "gap_free (event_rows db')" by blast
  then show "org_inv db' \<and> prefix (event_rows db) (event_rows db')"
    using inv by (simp add: org_inv_def)
qed

text \<open>
  What the runtime needs of a change of the role tables, whatever tables it read: it keeps
  the invariant, writes no other table and touches the rows of one organization only.
\<close>

locale table_mutation =
  fixes args_ok :: "'x \<Rightarrow> bool" and org_of :: "'x \<Rightarrow> str" and mutate :: "'x \<Rightarrow> 'z org_db_scheme \<Rightarrow> 'z org_db_scheme \<Rightarrow> 'z org_db_scheme result"
  assumes keeps: "args_ok x \<Longrightarrow> org_inv db \<Longrightarrow> mutate x snap db = Inr db' \<Longrightarrow> org_inv db'"
    and logs_nothing: "mutate x snap db = Inr db' \<Longrightarrow> event_rows db' = event_rows db"
    and own_rows: "org_inv db \<Longrightarrow> mutate x snap db = Inr db' \<Longrightarrow> foreign_authority (org_of x) db' = foreign_authority (org_of x) db"
begin

lemma mutate_evolves: "args_ok x \<Longrightarrow> mutate x snap db = Inr db' \<Longrightarrow> evolves db db'"
  using keeps logs_nothing by (fastforce simp: evolves_def)

lemma audited_evolves:
  assumes "args_ok x" "audited pf st c action role target y (mutate x) d snap db = Inr (z, db')"
  shows "evolves db db'"
proof -
  from assms(2) obtain db1 ev where "mutate x snap db = Inr db1" "append_event ev db1 = Inr db'"
    by (auto simp: audited_def bind_res_Inr_iff)
  then show ?thesis using mutate_evolves [OF assms(1)] append_event_evolves evolves_trans by blast
qed

lemma audited_effect:
  assumes "args_ok x" "audited pf st c action role target y (mutate x) d snap db = Inr (z, db')" "org_inv db"
  obtains db1 ev ty n where "mutate x snap db = Inr db1" "create_authority_mutation_audit_event pf st d c action role target = Inr ev"
    "dict_get AUTHORITY_EVENT_TYPES action = Some ty" "ev_type ev = ty"
    "event_rows db' = event_rows db @ [ev\<lparr>ev_sequence := n\<rparr>]" "foreign_authority (org_of x) db' = foreign_authority (org_of x) db" "z = y"
    "db1 = db'\<lparr>event_rows := event_rows db\<rparr>"
proof -
  from assms(2) obtain db1 ev where m: "mutate x snap db = Inr db1" "append_event ev db1 = Inr db'"
    "create_authority_mutation_audit_event pf st d c action role target = Inr ev" "z = y"
    by (auto simp: audited_def bind_res_Inr_iff)
  have "gap_free (event_rows db1)" using keeps [OF assms(1,3) m(1)] by (simp add: org_inv_def)
  from append_event_eq [OF m(2) this] obtain n where n: "db' = db1\<lparr>event_rows := event_rows db1 @ [ev\<lparr>ev_sequence := n\<rparr>]\<rparr>" by blast
  from m(3) obtain ty where "dict_get AUTHORITY_EVENT_TYPES action = Some ty" "ev_type ev = ty"
    by (auto simp: create_authority_mutation_audit_event_def split: option.splits)
  then show thesis
    using m n own_rows [OF assms(3) m(1)] logs_nothing [OF m(1)]
    by (intro that) (auto simp: foreign_authority_def)
qed

end

lemma role_roundtrip:
  assumes "check_role r = Inr r" "finite (rd_capabilities r)"
  shows "role_from_row (role_to_row r) = Inr r"
  using assms by (cases r) (simp add: role_from_row_def role_to_row_def)

lemma map_key_update:
  assumes "\<And>x. f (g x) = f x"
  shows "map f (map (\<lambda>x. if P x then g x else x) xs) = map f xs"
  using assms by simp

lemma filter_map_other:
  assumes "\<And>x. x \<in> set xs \<Longrightarrow> P x \<Longrightarrow> \<not> Q x" "\<And>x. P x \<Longrightarrow> Q (g x) \<longleftrightarrow> Q x"
  shows "filter Q (map (\<lambda>x. if P x then g x else x) xs) = filter Q xs"
  using assms by (induction xs) auto

lemma role_status_valid:
  assumes "valid_role_row r" "status \<in> {''active'', ''inactive''}"
  shows "valid_role_row (r\<lparr>rr_status := status\<rparr>)"
proof -
  have "\<forall>c\<in>set (rr_capabilities r). check_capability c = Inr ()" "rr_id r \<noteq> []" "rr_name r \<noteq> []" "rr_organization_id r \<noteq> []"
    using assms(1) by (auto simp: valid_role_row_def role_from_row_def check_role_def)
  then show ?thesis using assms(2) by (auto simp: valid_role_row_def role_from_row_def check_role_def)
qed

lemma org_inv_roles:
  assumes "org_inv db" "map role_key rs = map role_key (role_rows db)" "\<forall>r\<in>set rs. valid_role_row r"
  shows "org_inv (db\<lparr>role_rows := rs\<rparr>)"
proof -
  have "map rr_id rs = map rr_id (role_rows db)" using arg_cong [OF assms(2), of "map fst"] by (simp add: comp_def)
  moreover have "role_key ` set rs = role_key ` set (role_rows db)" using arg_cong [OF assms(2), of set] by simp
  ultimately show ?thesis using assms(1,3) by (simp add: org_inv_def)
qed

lemma org_inv_assignments:
  assumes "org_inv db" "map assignment_key as = map assignment_key (assignments db)" "\<forall>a\<in>set as. check_assignment a = Inr a"
  shows "org_inv (db\<lparr>assignments := as\<rparr>)"
proof -
  have k: "assignment_key ` set as = assignment_key ` set (assignments db)" using arg_cong [OF assms(2), of set] by simp
  have "(ra_actor_id a, ra_organization_id a) \<in> actor_key ` set (actors db) \<and> (ra_role_definition_id a, ra_organization_id a) \<in> role_key ` set (role_rows db)"
    if "a \<in> set as" for a
  proof -
    have "assignment_key a \<in> assignment_key ` set (assignments db)" using that k by blast
    then obtain b where "b \<in> set (assignments db)" "assignment_key a = assignment_key b" by blast
    then show ?thesis using assms(1) by (simp add: org_inv_def)
  qed
  then show ?thesis using assms by (simp add: org_inv_def)
qed

lemma check_assignment_Inr:
  "check_assignment a = Inr b \<longleftrightarrow> b = a \<and> ra_actor_id a \<noteq> [] \<and> ra_organization_id a \<noteq> [] \<and> ra_role_definition_id a \<noteq> []
     \<and> ra_status a \<in> {''active'', ''inactive'', ''revoked''}"
  by (auto simp: check_assignment_def)

interpretation add_role: table_mutation "\<lambda>r. check_role r = Inr r \<and> finite (rd_capabilities r)" rd_organization_id "\<lambda>r _. add_role_definition r"
  by unfold_locales
    (auto simp: add_role_definition_def org_inv_def foreign_authority_def valid_role_row_def role_roundtrip,
     auto simp: role_to_row_def)

interpretation assign: table_mutation "\<lambda>a. check_assignment a = Inr a" ra_organization_id "\<lambda>a _. assign_role a"
proof
  fix a snap db db'
  assume a: "check_assignment a = Inr a" and inv: "org_inv db" and m: "assign_role a db = Inr db'"
  from m obtain r where r: "get_role_definition (ra_role_definition_id a) (ra_organization_id a) db = Inr (Some r)"
    by (auto simp: assign_role_def bind_res_Inr_iff split: option.splits)
  then obtain row where "role_row_of (ra_role_definition_id a) (ra_organization_id a) db = Some row"
    by (auto simp: get_role_definition_eq [OF inv])
  then have "row \<in> set (role_rows db)" "rr_id row = ra_role_definition_id a" "rr_organization_id row = ra_organization_id a"
    by (auto dest: role_row_of_Some)
  then have "(ra_role_definition_id a, ra_organization_id a) \<in> role_key ` set (role_rows db)"
    by (intro image_eqI [where x = row]) simp_all
  moreover have "db' = db\<lparr>assignments := assignments db @ [a]\<rparr>" "assignment_key a \<notin> assignment_key ` set (assignments db)"
    "(ra_actor_id a, ra_organization_id a) \<in> actor_key ` set (actors db)"
    using m r by (auto simp: assign_role_def image_iff) metis
  ultimately show "org_inv db'" using inv a by (simp add: org_inv_def)
qed (auto simp: assign_role_def bind_res_Inr_iff foreign_authority_def split: option.splits)

interpretation role_status: table_mutation "\<lambda>_. True" "\<lambda>(i, org, s). org" "\<lambda>(i, org, s) _. set_role_definition_status i org s"
proof
  fix x snap db db'
  assume inv: "org_inv db" and m: "(case x of (i, org, s) \<Rightarrow> \<lambda>_. set_role_definition_status i org s) snap db = Inr db'"
  obtain i org s where x: "x = (i, org, s)" by (cases x)
  from m x obtain row where row: "role_row_of i org db = Some row" and s: "s \<in> {''active'', ''inactive''}"
    and db': "db' = db\<lparr>role_rows := map (\<lambda>r. if rr_id r = i then r\<lparr>rr_status := s\<rparr> else r) (role_rows db)\<rparr>"
    by (auto simp: set_role_definition_status_def)
  have one: "rr_organization_id r = org" if "r \<in> set (role_rows db)" "rr_id r = i" for r
    using that role_row_of_Some [OF row] inv by (auto simp: org_inv_def distinct_map inj_on_def)
  show "org_inv db'"
    unfolding db' by (rule org_inv_roles [OF inv]) (use inv role_status_valid [OF _ s] in \<open>auto simp: org_inv_def\<close>)
  show "foreign_authority (case x of (i, org, s) \<Rightarrow> org) db' = foreign_authority (case x of (i, org, s) \<Rightarrow> org) db"
    using one unfolding x db' foreign_authority_def by (auto intro!: filter_map_other)
qed (auto simp: set_role_definition_status_def)

lemma set_assignment_status_Inr:
  assumes "set_assignment_status actor org role s snap db = Inr db'"
  obtains row where "find (\<lambda>a. assignment_key a = (actor, org, role)) (assignments snap) = Some row"
    "s \<in> {''active'', ''inactive'', ''revoked''}" "ra_status row = ''revoked'' \<longrightarrow> s = ''revoked''"
    "db' = (if s = ra_status row then db
       else db\<lparr>assignments := map (\<lambda>a. if assignment_key a = (actor, org, role) then a\<lparr>ra_status := s\<rparr> else a) (assignments db)\<rparr>)"
    "s = ra_status row \<or> (\<exists>a\<in>set (assignments db). assignment_key a = (actor, org, role))"
  using assms by (auto simp: set_assignment_status_def split: option.splits if_splits)

interpretation assignment_status: table_mutation "\<lambda>_. True" "\<lambda>(actor, org, role, s). org" "\<lambda>(actor, org, role, s). set_assignment_status actor org role s"
proof
  fix x snap db db'
  assume m: "(case x of (actor, org, role, s) \<Rightarrow> set_assignment_status actor org role s) snap db = Inr db'"
  obtain actor org role s where x: "x = (actor, org, role, s)" by (cases x)
  from m x have "set_assignment_status actor org role s snap db = Inr db'" by simp
  then obtain row :: role_assignment where s: "s \<in> {''active'', ''inactive'', ''revoked''}"
    and db': "db' = (if s = ra_status row then db
      else db\<lparr>assignments := map (\<lambda>a. if assignment_key a = (actor, org, role) then a\<lparr>ra_status := s\<rparr> else a) (assignments db)\<rparr>)"
    by (rule set_assignment_status_Inr) blast
  show "event_rows db' = event_rows db" by (simp add: db')
  assume inv: "org_inv db"
  have "org_inv (db\<lparr>assignments := map (\<lambda>a. if assignment_key a = (actor, org, role) then a\<lparr>ra_status := s\<rparr> else a) (assignments db)\<rparr>)"
    by (rule org_inv_assignments [OF inv]) (use inv s in \<open>auto simp: org_inv_def check_assignment_Inr\<close>)
  with inv show "org_inv db'" by (simp add: db')
  show "foreign_authority (case x of (actor, org, role, s) \<Rightarrow> org) db' = foreign_authority (case x of (actor, org, role, s) \<Rightarrow> org) db"
    unfolding x db' foreign_authority_def by (auto intro!: filter_map_other)
qed

subsection \<open>Requests and runs\<close>

text \<open>A request carries objects that their constructors have checked.\<close>

fun well_formed :: "role_request \<Rightarrow> bool" where
  "well_formed (CreateRole r) \<longleftrightarrow> check_role r = Inr r \<and> finite (rd_capabilities r)"
| "well_formed (AssignRole a) \<longleftrightarrow> check_assignment a = Inr a"
| "well_formed _ \<longleftrightarrow> True"

lemma transaction_cases:
  assumes "transaction org t db = (r, db')"
  obtains (rolled_back) e where "r = Inl e" "db' = db" | (committed) x where "r = Inr x" "t db = Inr (x, db')"
  using assms by (auto simp: transaction_def in_session_def raise_if_def split: sum.splits if_splits)

lemma authority_change_cases:
  assumes "authority_change pf ready st cx cap res res_org c action agg change env db = (r, db')"
  obtains (failed) e where "r = Inl e" "db' \<in> {env 0 db, env 1 (env 0 db)}"
    | (denied) ev where "r = Inl CommandAuthorizationError" "append_event ev (env 0 db) = Inr db'" "ev_type ev = ''AUTHORIZATION_DENIED''"
    | (changed) d x where "r = Inr x" "change d (env 0 db) (env 1 (env 0 db)) = Inr (x, db')" "od_allowed d"
        "authorize (cx_principal_id cx) (cx_actor_id cx) (cx_organization_id cx) cap (Some res) (Some res_org) db = Inr d"
proof (cases "raise_if (\<not> ready) RuntimeNotReadyError (authority_authorize cx cap (Some res) (Some res_org) db)")
  case (Inl e)
  then show thesis using assms by (intro failed [of e]) (auto simp: authority_change_def)
next
  case (Inr d)
  then have a: "authorize (cx_principal_id cx) (cx_actor_id cx) (cx_organization_id cx) cap (Some res) (Some res_org) db = Inr d"
    by (auto simp: authority_authorize_def in_session_def)
  show thesis
  proof (cases "od_allowed d")
    case True
    then have "transaction (cx_organization_id cx) (change d (env 0 db)) (env 1 (env 0 db)) = (r, db')" using assms Inr by (simp add: authority_change_def)
    then show thesis using True a changed failed by (cases rule: transaction_cases) auto
  next
    case False
    then have "authority_deny pf st d c action agg (env 0 db) = (r, db')" using assms Inr by (simp add: authority_change_def)
    then show thesis
      unfolding authority_deny_def
      by (auto split: prod.splits sum.splits elim!: transaction_cases simp: bind_res_Inr_iff create_authorization_audit_event_def
          intro: denied failed)
  qed
qed

text \<open>Every request is a change by one of the four mutations, followed by its event.\<close>

fun request_action :: "role_request \<Rightarrow> str" where
  "request_action (CreateRole r) = ''role_created''"
| "request_action (AssignRole a) = ''role_assigned''"
| "request_action (ActivateRole i) = ''role_activated''"
| "request_action (DeactivateRole i) = ''role_deactivated''"
| "request_action (ActivateAssignment a i) = ''role_assignment_activated''"
| "request_action (DeactivateAssignment a i) = ''role_assignment_deactivated''"
| "request_action (RevokeAssignment a i) = ''role_revoked''"

fun target_actor :: "role_request \<Rightarrow> str option" where
  "target_actor (AssignRole a) = Some (ra_actor_id a)"
| "target_actor (ActivateAssignment a i) = Some a"
| "target_actor (DeactivateAssignment a i) = Some a"
| "target_actor (RevokeAssignment a i) = Some a"
| "target_actor _ = None"

fun request_organization :: "str \<Rightarrow> role_request \<Rightarrow> str" where
  "request_organization org (CreateRole r) = rd_organization_id r"
| "request_organization org (AssignRole a) = ra_organization_id a"
| "request_organization org _ = org"

fun request_mutation :: "str \<Rightarrow> role_request \<Rightarrow> 'z org_db_scheme \<Rightarrow> 'z org_db_scheme \<Rightarrow> 'z org_db_scheme result" where
  "request_mutation org (CreateRole r) snap db = add_role_definition r db"
| "request_mutation org (AssignRole a) snap db = assign_role a db"
| "request_mutation org (ActivateRole i) snap db = set_role_definition_status i org ''active'' db"
| "request_mutation org (DeactivateRole i) snap db = set_role_definition_status i org ''inactive'' db"
| "request_mutation org (ActivateAssignment a i) snap db = set_assignment_status a org i ''active'' snap db"
| "request_mutation org (DeactivateAssignment a i) snap db = set_assignment_status a org i ''inactive'' snap db"
| "request_mutation org (RevokeAssignment a i) snap db = set_assignment_status a org i ''revoked'' snap db"

lemmas runtime_ops = runtime_activate_role_def runtime_deactivate_role_def runtime_activate_assignment_def runtime_deactivate_assignment_def
  runtime_revoke_assignment_def

lemma discard_change:
  fixes db :: "'z org_db_scheme" and y :: 'y
  shows "discard (authority_change pf ready st cx cap res res_org c action agg (audited pf st c action role target y m) env db)
   = authority_change pf ready st cx cap res res_org c action agg (audited pf st c action role target () m) env db"
proof -
  have "discard (transaction org (audited pf st c action role target y m d snap) db) = transaction org (audited pf st c action role target () m d snap) db"
    for org d and snap db :: "'z org_db_scheme"
    by (auto simp: transaction_def in_session_def raise_if_def audited_def bind_res_def split: sum.split)
  moreover have "discard (authority_deny pf st d c action agg (env 0 db) :: 'y result \<times> 'z org_db_scheme) = authority_deny pf st d c action agg (env 0 db)"
    for d by (auto simp: authority_deny_def split: prod.split sum.split)
  ultimately show ?thesis by (auto simp: authority_change_def split: sum.split)
qed

lemma authority_op_eq:
  "authority_op pf ready st cx rq c env db =
     authority_change pf ready st cx (request_capability rq) (target_role rq) (request_organization (cx_organization_id cx) rq) c
       (request_action rq) ''workflow''
       (audited pf st c (request_action rq) (target_role rq) (target_actor rq) () (request_mutation (cx_organization_id cx) rq)) env db"
proof -
  have m: "request_mutation org (CreateRole r) = (\<lambda>_. add_role_definition r)" "request_mutation org (AssignRole a) = (\<lambda>_. assign_role a)"
    "request_mutation org (ActivateRole i) = (\<lambda>_. set_role_definition_status i org ''active'')"
    "request_mutation org (DeactivateRole i) = (\<lambda>_. set_role_definition_status i org ''inactive'')"
    "request_mutation org (ActivateAssignment b i) = set_assignment_status b org i ''active''"
    "request_mutation org (DeactivateAssignment b i) = set_assignment_status b org i ''inactive''"
    "request_mutation org (RevokeAssignment b i) = set_assignment_status b org i ''revoked''" for org r a b i
    by (simp_all add: fun_eq_iff)
  show ?thesis
    by (cases rq) (simp_all only: authority_op.simps request_capability.simps target_role.simps request_organization.simps request_action.simps
        target_actor.simps m runtime_ops runtime_create_role_definition_def runtime_assign_role_def runtime_set_role_status_def runtime_set_assignment_status_def discard_change)
qed

interpretation request: table_mutation "\<lambda>(org, rq). well_formed rq" "\<lambda>(org, rq). request_organization org rq" "\<lambda>(org, rq). request_mutation org rq"
proof
  fix x snap db db'
  assume m: "(case x of (org, rq) \<Rightarrow> request_mutation org rq) snap db = Inr db'"
  obtain org rq where x: "x = (org, rq)" by (cases x)
  show "event_rows db' = event_rows db"
    using m x role_status.logs_nothing [where x = "(_, _, _)"] assignment_status.logs_nothing [where x = "(_, _, _, _)"]
    by (cases rq) (auto dest: add_role.logs_nothing assign.logs_nothing)
  assume inv: "org_inv db"
  show "(case x of (org, rq) \<Rightarrow> well_formed rq) \<Longrightarrow> org_inv db'"
    using m x role_status.keeps [OF TrueI inv, where x = "(_, _, _)"] assignment_status.keeps [OF TrueI inv, where x = "(_, _, _, _)"]
    by (cases rq) (auto intro: add_role.keeps [OF _ inv] assign.keeps [OF _ inv])
  show "foreign_authority (case x of (org, rq) \<Rightarrow> request_organization org rq) db' = foreign_authority (case x of (org, rq) \<Rightarrow> request_organization org rq) db"
    using m x role_status.own_rows [OF inv, where x = "(_, _, _)"] assignment_status.own_rows [OF inv, where x = "(_, _, _, _)"]
    by (cases rq) (auto dest: add_role.own_rows [OF inv] assign.own_rows [OF inv])
qed

text \<open>
  A run of the organization's tables: organizations and actors are added, capabilities are
  required and authority requests are served, other clients running in the middle of each.
\<close>

definition commits :: "'s \<Rightarrow> 's \<Rightarrow> nat \<Rightarrow> 's \<Rightarrow> 's" where
  "commits db1 db2 n _ = (if n = 0 then db1 else db2)"

lemma commits_simps [simp]: "commits db1 db2 0 db = db1" "commits db1 db2 (Suc n) db = db2"
  by (simp_all add: commits_def)

inductive org_run :: "platform \<Rightarrow> 'z org_db_scheme \<Rightarrow> 'z org_db_scheme \<Rightarrow> bool" for pf where
  start: "org_run pf db db"
| organization: "org_run pf db0 db \<Longrightarrow> runtime_create_organization ready og db = (r, db') \<Longrightarrow> org_run pf db0 db'"
| actor: "org_run pf db0 db \<Longrightarrow> act_type a \<in> set ACTOR_TYPES \<Longrightarrow> runtime_register_actor ready a org db = (r, db') \<Longrightarrow> org_run pf db0 db'"
| capability: "org_run pf db0 db \<Longrightarrow> org_run pf db db1 \<Longrightarrow> org_run pf db1 db2
    \<Longrightarrow> require_capability pf ready st cx cap c ct res res_org agg (commits db1 db2) db = (r', db') \<Longrightarrow> org_run pf db0 db'"
| request: "org_run pf db0 db \<Longrightarrow> org_run pf db db1 \<Longrightarrow> org_run pf db1 db2 \<Longrightarrow> well_formed rq
    \<Longrightarrow> authority_op pf ready st cx rq c (commits db1 db2) db = (r, db') \<Longrightarrow> org_run pf db0 db'"

lemma create_organization_evolves:
  "runtime_create_organization ready og db = (r, db') \<Longrightarrow> evolves db db'"
  by (auto simp: runtime_create_organization_def add_organization_def raise_if_def evolves_def org_inv_def split: if_splits)

lemma register_actor_evolves:
  assumes "runtime_register_actor ready a org db = (r, db')" "act_type a \<in> set ACTOR_TYPES"
  shows "evolves db db'"
proof (cases "ready")
  case True
  then have "transaction org (\<lambda>db.
        raise_if (get_organization org db = None) NotFoundError
        (bind_res (get_actor (act_id a) org db) (\<lambda>found.
           raise_if (found \<noteq> None) RepositoryError
             (bind_res (add_actor (a\<lparr>act_organization_id := org\<rparr>) db) (\<lambda>db'. Inr ((), db')))))) db = (r, db')"
    using assms(1) by (simp add: runtime_register_actor_def)
  then show ?thesis
  proof (cases rule: transaction_cases)
    case (committed x)
    then have "add_actor (a\<lparr>act_organization_id := org\<rparr>) db = Inr db'" by (auto simp: bind_res_Inr_iff)
    then show ?thesis
      using assms(2) by (auto simp: add_actor_def evolves_def org_inv_def image_iff) blast
  qed simp
qed (use assms(1) in \<open>simp add: runtime_register_actor_def\<close>)

lemma authority_change_evolves:
  assumes "authority_change pf ready st cx cap res res_org c action agg change env db = (r, db')"
    and "evolves (env 0 db) (env 1 (env 0 db))"
    and "\<And>d x. change d (env 0 db) (env 1 (env 0 db)) = Inr (x, db') \<Longrightarrow> evolves (env 1 (env 0 db)) db'"
  shows "evolves (env 0 db) db'"
  using assms(1)
proof (cases rule: authority_change_cases)
  case (failed e)
  then show ?thesis using assms(2) by auto
next
  case (denied ev)
  then show ?thesis using append_event_evolves by blast
next
  case (changed d x)
  then show ?thesis using assms(3) evolves_trans [OF assms(2)] by blast
qed

lemma require_capability_evolves:
  assumes "require_capability pf ready st cx cap c ct res res_org agg env db = (r, db')" "evolves (env 0 db) (env 1 (env 0 db))"
  shows "evolves (env 0 db) db'"
proof (cases "ready \<and> (\<exists>v\<in>{c, ct, res, res_org, agg}. blank v)")
  case False
  then have "authority_change pf ready st cx cap res res_org c ct agg
             (\<lambda>d _ db. bind_res (create_authorization_audit_event pf st d c ct True agg) (\<lambda>ev.
                     bind_res (append_event ev db) (\<lambda>db'. Inr (d, db')))) env db = (r, db')"
    using assms(1) by (simp only: require_capability_def if_False)
  then show ?thesis using assms(2) by (rule authority_change_evolves) (auto simp: bind_res_Inr_iff dest: append_event_evolves)
qed (use assms in \<open>simp add: require_capability_def\<close>)

lemma authority_op_evolves:
  assumes "authority_op pf ready st cx rq c env db = (r, db')" "well_formed rq" "evolves (env 0 db) (env 1 (env 0 db))"
  shows "evolves (env 0 db) db'"
  using assms(1,3) unfolding authority_op_eq
proof (rule authority_change_evolves)
  fix d x
  assume "audited pf st c (request_action rq) (target_role rq) (target_actor rq) () (request_mutation (cx_organization_id cx) rq) d
    (env 0 db) (env 1 (env 0 db)) = Inr (x, db')"
  with request.audited_evolves [of "(cx_organization_id cx, rq)" pf st c _ _ _ _ d "env 0 db" "env 1 (env 0 db)" x db'] assms(2)
  show "evolves (env 1 (env 0 db)) db'" by simp
qed

lemma org_run_evolves:
  assumes "org_run pf db db'"
  shows "evolves db db'"
  using assms
proof induction
  case (organization db0 db ready og r db')
  then show ?case using create_organization_evolves evolves_trans by blast
next
  case (actor db0 db a ready org r db')
  then show ?case using register_actor_evolves evolves_trans by blast
next
  case (capability db0 db db1 db2 ready st cx cap c ct res res_org agg r' db')
  then have "evolves db1 db'" using require_capability_evolves [OF capability.hyps(4)] by simp
  then show ?case using capability.IH evolves_trans by blast
next
  case (request db0 db db1 db2 rq ready st cx c r db')
  then have "evolves db1 db'" using authority_op_evolves [OF request.hyps(5,4)] by simp
  then show ?case using request.IH evolves_trans by blast
qed simp

subsection \<open>An organization\<close>

definition demo_org :: org_db where
  "demo_org = \<lparr>organizations = [\<lparr>og_id = ''acme'', og_name = ''Acme'', og_description = []\<rparr>],
     actors = [\<lparr>act_id = ''ada'', act_organization_id = ''acme'', act_type = ''HUMAN'', act_identity = ''ada@acme'', act_status = ''active''\<rparr>,
       \<lparr>act_id = ''bob'', act_organization_id = ''acme'', act_type = ''HUMAN'', act_identity = ''bob@acme'', act_status = ''active''\<rparr>],
     role_rows = [\<lparr>rr_id = ''admin'', rr_organization_id = ''acme'', rr_name = ''Admin'', rr_description = [],
       rr_capabilities = [''authority.role.assign'', ''authority.role.activate'', ''authority.role.revoke'', ''project.create''], rr_status = ''active''\<rparr>],
     assignments = [\<lparr>ra_actor_id = ''ada'', ra_organization_id = ''acme'', ra_role_definition_id = ''admin'', ra_status = ''active''\<rparr>,
       \<lparr>ra_actor_id = ''bob'', ra_organization_id = ''acme'', ra_role_definition_id = ''admin'', ra_status = ''active''\<rparr>],
     event_rows = [], command_rows = []\<rparr>"

definition demo_admin :: org_context where
  "demo_admin = \<lparr>cx_principal_id = ''ada'', cx_actor_id = ''ada'', cx_organization_id = ''acme''\<rparr>"

lemma demo_admin_sel [simp]: "cx_principal_id demo_admin = ''ada''" "cx_actor_id demo_admin = ''ada''" "cx_organization_id demo_admin = ''acme''"
  by (simp_all add: demo_admin_def)

lemma demo_org_sel [simp]:
  "organizations demo_org = [\<lparr>og_id = ''acme'', og_name = ''Acme'', og_description = []\<rparr>]"
  "event_rows demo_org = []" "command_rows demo_org = []"
  by (simp_all add: demo_org_def)

lemma demo_acme [simp]: "\<not> blank ''acme''" "\<not> 128 < length (strip ''acme'')"
  by (simp_all add: blank_def strip_def is_space_def Let_def)

lemma gap_free_Nil [simp]: "gap_free []"
  by (simp add: gap_free_def events_of_def)

lemma demo_org_inv [simp]: "org_inv demo_org"
proof -
  have c: "check_capability ''authority.role.assign'' = Inr ()" "check_capability ''authority.role.revoke'' = Inr ()"
    "check_capability ''authority.role.activate'' = Inr ()" "check_capability ''project.create'' = Inr ()"
    by (simp_all add: check_capability_def strip_def is_space_def Let_def)
  then have "valid_role_row \<lparr>rr_id = ''admin'', rr_organization_id = ''acme'', rr_name = ''Admin'', rr_description = [],
       rr_capabilities = [''authority.role.assign'', ''authority.role.activate'', ''authority.role.revoke'', ''project.create''], rr_status = ''active''\<rparr>"
    by (simp add: valid_role_row_def role_from_row_def check_role_def)
  then show ?thesis by (simp add: org_inv_def demo_org_def ACTOR_TYPES_def check_assignment_Inr)
qed

lemma demo_ada: "active_member ''ada'' ''acme'' demo_org" "holds_capability ''ada'' ''acme'' ''authority.role.revoke'' demo_org"
  by (simp_all add: active_member_def holds_capability_def demo_org_def)

text \<open>The same organization while Bob's assignment is deactivated.\<close>

definition demo_assignments :: "str \<Rightarrow> role_assignment list" where
  "demo_assignments s = [\<lparr>ra_actor_id = ''ada'', ra_organization_id = ''acme'', ra_role_definition_id = ''admin'', ra_status = ''active''\<rparr>,
       \<lparr>ra_actor_id = ''bob'', ra_organization_id = ''acme'', ra_role_definition_id = ''admin'', ra_status = s\<rparr>]"

definition demo_bob :: "str \<Rightarrow> org_db \<Rightarrow> org_db" where
  "demo_bob s db = db\<lparr>assignments := demo_assignments s\<rparr>"

lemma demo_bob_sel [simp]: "event_rows (demo_bob s db) = event_rows db" "assignments (demo_bob s db) = demo_assignments s"
  by (simp_all add: demo_bob_def)

lemma demo_bob_inv: "s \<in> {''active'', ''inactive'', ''revoked''} \<Longrightarrow> org_inv (demo_bob s demo_org)"
  unfolding demo_bob_def
  by (rule org_inv_assignments [OF demo_org_inv]) (auto simp: demo_org_def demo_assignments_def check_assignment_Inr)

lemma demo_bob_ada: "active_member ''ada'' ''acme'' (demo_bob s demo_org)"
  "cap \<in> {''authority.role.activate'', ''authority.role.revoke''} \<Longrightarrow> holds_capability ''ada'' ''acme'' cap (demo_bob s demo_org)"
  by (auto simp: active_member_def holds_capability_def demo_org_def demo_bob_def demo_assignments_def)

text \<open>Ada changes the status of Bob's assignment.\<close>

lemma demo_change:
  assumes "org_inv db" "active_member ''ada'' ''acme'' db" "holds_capability ''ada'' ''acme'' cap db" "cap \<noteq> []"
    and "dict_get AUTHORITY_EVENT_TYPES action = Some ty"
    and "set_assignment_status ''bob'' ''acme'' ''admin'' s (env 0 db) (env 1 (env 0 db)) = Inr db1" "fst st \<notin> ev_id ` set (event_rows db1)"
  obtains db' ev where "runtime_set_assignment_status demo_platform True st demo_admin ''bob'' ''admin'' s cap action c env db = (Inr (), db')"
    "assignments db' = assignments db1" "event_rows db' = event_rows db1 @ [ev]" "ev_id ev = fst st"
proof -
  have "authorization_outcome ''ada'' ''ada'' ''acme'' cap (Some ''admin'') (Some ''acme'') db = ''capability_granted''"
    using assms(1-3) by (simp add: outcome_granted)
  with authorize_outcome [of db "''ada''" "''ada''" "''acme''" cap "Some ''admin''" "Some ''acme''"] assms(1,4)
  obtain d where d: "authorize ''ada'' ''ada'' ''acme'' cap (Some ''admin'') (Some ''acme'') db = Inr d" "od_allowed d"
    by auto
  obtain ev where ev: "create_authority_mutation_audit_event demo_platform st d c action ''admin'' (Some ''bob'') = Inr ev" "ev_id ev = fst st"
    using d(2) assms(5) by (simp add: create_authority_mutation_audit_event_def)
  have "\<not> (\<exists>x\<in>set (event_rows db1). ev_id x = ev_id ev)" using assms(7) ev(2) by force
  then obtain n where db': "append_event ev db1 = Inr (db1\<lparr>event_rows := event_rows db1 @ [ev\<lparr>ev_sequence := n\<rparr>]\<rparr>)"
    by (simp add: append_event_def Let_def raise_if_def)
  show thesis
    by (rule that [of "db1\<lparr>event_rows := event_rows db1 @ [ev\<lparr>ev_sequence := n\<rparr>]\<rparr>" "ev\<lparr>ev_sequence := n\<rparr>"])
      (use d assms(6) ev db' in \<open>simp_all add: runtime_set_assignment_status_def authority_change_def authority_authorize_def
        in_session_def transaction_def audited_def\<close>)
qed

lemma demo_status:
  assumes "s \<in> {''active'', ''inactive'', ''revoked''}" "s0 \<noteq> ''revoked''" "s0 \<noteq> s"
    and "assignments snap = demo_assignments s0" "assignments db = demo_assignments s1"
  shows "set_assignment_status ''bob'' ''acme'' ''admin'' s snap db = Inr (demo_bob s db)"
  using assms by (auto simp: set_assignment_status_def demo_bob_def demo_assignments_def)

text \<open>Ada revokes Bob's role.\<close>

lemma demo_revoke_from:
  assumes "s0 \<in> {''active'', ''inactive''}"
  obtains db' ev where "authority_op demo_platform True (''e1'', 5) demo_admin (RevokeAssignment ''bob'' ''admin'') ''c1'' (\<lambda>_ d. d) (demo_bob s0 demo_org) = (Inr (), db')"
    "assignments db' = demo_assignments ''revoked''" "event_rows db' = [ev]" "ev_id ev = ''e1''"
proof -
  have st: "set_assignment_status ''bob'' ''acme'' ''admin'' ''revoked'' (demo_bob s0 demo_org)
      (demo_bob s0 demo_org) = Inr (demo_bob ''revoked'' (demo_bob s0 demo_org))"
    using assms by (intro demo_status [of _ s0 _ _ s0]) auto
  have inv: "org_inv (demo_bob s0 demo_org)" using assms by (intro demo_bob_inv) auto
  obtain ty where ty: "dict_get AUTHORITY_EVENT_TYPES ''role_revoked'' = Some ty" by (simp add: AUTHORITY_EVENT_TYPES_def)
  show thesis
    by (rule demo_change [where st = "(''e1'', 5)" and c = "''c1''" and env = "\<lambda>_ d. d" and cap = "''authority.role.revoke''", OF inv demo_bob_ada(1) demo_bob_ada(2) _ ty st])
      (auto simp: runtime_revoke_assignment_def intro: that)
qed

lemma demo_bob_active: "demo_bob ''active'' demo_org = demo_org"
  by (simp add: demo_bob_def demo_org_def demo_assignments_def)

lemma commits_alone:
  "authority_op pf ready st cx rq c (commits db db) db = authority_op pf ready st cx rq c (\<lambda>_ d. d) db"
  unfolding authority_op_eq authority_change_def commits_def by simp

lemma demo_revoke:
  obtains db' where "authority_op demo_platform True (''e1'', 5) demo_admin (RevokeAssignment ''bob'' ''admin'') ''c1'' (\<lambda>_ d. d) demo_org = (Inr (), db')"
    "(''bob'', ''acme'', ''admin'') \<in> revoked_keys db'"
  by (rule demo_revoke_from [of "''active''", unfolded demo_bob_active]) (auto simp: revoked_keys_def demo_assignments_def intro!: that)

subsection \<open>Properties\<close>

text \<open>
  C10 (refinement).  On well-formed tables the authorization service has exactly these
  outcomes.  It raises \<open>ValueError\<close> when an identifier is empty, or when the resource has no
  organization and the request is already denied for its principal or its capability, which
  makes the decision invalid.  Otherwise it returns a decision about the request, which
  allows it exactly when the principal is the actor, the resource belongs to the
  organization, and the actor is an active member that holds an active assignment to an
  active role of the organization listing the capability.
\<close>

theorem authorize_exact:
  assumes "org_inv db"
  shows "case authorize pid actor org cap res res_org db of
      Inl e \<Rightarrow> e = ValueError \<and> (pid = [] \<or> actor = [] \<or> org = [] \<or> cap = []
        \<or> res \<noteq> None \<and> res_org = None \<and> (pid \<noteq> actor \<or> check_capability cap \<noteq> Inr ()))
    | Inr d \<Rightarrow> \<not> (pid = [] \<or> actor = [] \<or> org = [] \<or> cap = []
        \<or> res \<noteq> None \<and> res_org = None \<and> (pid \<noteq> actor \<or> check_capability cap \<noteq> Inr ()))
      \<and> od_principal_id d = pid \<and> od_actor_id d = actor \<and> od_organization_id d = org \<and> od_capability_id d = cap
      \<and> od_resource_id d = res \<and> od_resource_organization_id d = res_org
      \<and> (od_allowed d \<longleftrightarrow> pid = actor \<and> (res = None \<or> res_org = Some org) \<and> active_member actor org db \<and> holds_capability actor org cap db)"
proof (cases "actor = [] \<or> org = []")
  case True
  then show ?thesis by (auto simp: authorize_empty [OF assms])
next
  case False
  define code where "code = authorization_outcome pid actor org cap res res_org db"
  let ?d = "\<lparr>od_allowed = (code = ''capability_granted''), od_reason = reason_of code, od_reason_code = code, od_actor_id = actor,
     od_principal_id = pid, od_organization_id = org, od_capability_id = cap, od_resource_id = res, od_resource_organization_id = res_org\<rparr>"
  have late: "res \<noteq> None \<and> res_org = None \<Longrightarrow> code \<noteq> ''resource_not_accessible'' \<longleftrightarrow> pid \<noteq> actor \<or> check_capability cap \<noteq> Inr ()"
    by (auto simp: authorization_outcome_def code_def)
  have canonical: "code \<in> set CANONICAL_REASON_CODES" by (simp add: code_def)
  have granted: "code = ''capability_granted'' \<longleftrightarrow> pid = actor \<and> (res = None \<or> res_org = Some org)
      \<and> active_member actor org db \<and> holds_capability actor org cap db"
    unfolding code_def by (rule outcome_granted [OF assms])
  have "authorize pid actor org cap res res_org db = check_org_decision ?d"
    unfolding code_def using False by (intro authorize_eq [OF assms]) auto
  also have "\<dots> = (if pid = [] \<or> cap = [] \<or> res \<noteq> None \<and> res_org = None \<and> code \<noteq> ''resource_not_accessible''
      then Inl ValueError else Inr ?d)"
    using False canonical by (simp add: check_org_decision_def raise_if_def)
  finally have "authorize pid actor org cap res res_org db = (if pid = [] \<or> cap = [] \<or> res \<noteq> None \<and> res_org = None
      \<and> (pid \<noteq> actor \<or> check_capability cap \<noteq> Inr ()) then Inl ValueError else Inr ?d)"
    using late by metis
  then show ?thesis
    using False granted by (simp split: if_split)
qed

theorem authorize_exact_witness:
  "\<exists>d. authorize ''ada'' ''ada'' ''acme'' ''authority.role.revoke'' (Some ''admin'') (Some ''acme'') demo_org = Inr d \<and> od_allowed d"
  using authorize_exact [of demo_org "''ada''" "''ada''" "''acme''" "''authority.role.revoke''" "Some ''admin''" "Some ''acme''"] demo_ada
  by (auto split: sum.splits)



definition assignment_status_of :: "str \<times> str \<times> str \<Rightarrow> 'z org_db_scheme \<Rightarrow> str option" where
  "assignment_status_of key db = map_option ra_status (find (\<lambda>a. assignment_key a = key) (assignments db))"

lemma assignment_status_of_eq:
  assumes "org_inv db" "a \<in> set (assignments db)" "assignment_key a = key"
  shows "assignment_status_of key db = Some (ra_status a)"
  using find_unique [of assignment_key "assignments db" a key] assms by (simp add: assignment_status_of_def org_inv_def)

text \<open>
  C11 (error).  A revocation that was committed before a status change reads the assignment
  stops that change; one that is committed between its read and its write does not.  If
  activating or deactivating an assignment succeeds although the assignment is revoked
  when the change is written, then another status was read, and the revocation is
  overwritten by the new status, except when the status read was already the new one and
  nothing is written.
\<close>

theorem revocation_overwritten:
  assumes "org_inv (env 1 (env 0 db))" "s \<noteq> ''revoked''"
    and "runtime_set_assignment_status pf ready st cx actor role s cap action c env db = (Inr (), db')"
    and "(actor, cx_organization_id cx, role) \<in> revoked_keys (env 1 (env 0 db))"
  shows "\<exists>s0. assignment_status_of (actor, cx_organization_id cx, role) (env 0 db) = Some s0 \<and> s0 \<noteq> ''revoked''
    \<and> assignment_status_of (actor, cx_organization_id cx, role) db' = Some (if s0 = s then ''revoked'' else s)"
proof -
  let ?k = "(actor, cx_organization_id cx, role)" and ?cur = "env 1 (env 0 db)"
  from assms(3) obtain d db1 ev where m: "set_assignment_status actor (cx_organization_id cx) role s (env 0 db) ?cur = Inr db1"
    "append_event ev db1 = Inr db'"
    unfolding runtime_set_assignment_status_def
    by (rule authority_change_cases) (auto simp: audited_def bind_res_Inr_iff)
  from m(1) obtain row where row: "find (\<lambda>a. assignment_key a = ?k) (assignments (env 0 db)) = Some row"
    "s \<in> {''active'', ''inactive'', ''revoked''}" "ra_status row = ''revoked'' \<longrightarrow> s = ''revoked''"
    "db1 = (if s = ra_status row then ?cur
       else ?cur\<lparr>assignments := map (\<lambda>a. if assignment_key a = ?k then a\<lparr>ra_status := s\<rparr> else a) (assignments ?cur)\<rparr>)"
    by (rule set_assignment_status_Inr) blast
  have inv: "org_inv db1"
    using assignment_status.keeps [where x = "(actor, cx_organization_id cx, role, s)"] assms(1) m(1) by simp
  obtain b where b: "b \<in> set (assignments ?cur)" "assignment_key b = ?k" "ra_status b = ''revoked''"
    using assms(4) by (auto simp: revoked_keys_def)
  have "assignment_status_of ?k db1 = Some (if ra_status row = s then ''revoked'' else s)"
  proof (cases "ra_status row = s")
    case True
    with assignment_status_of_eq [OF assms(1) b(1,2)] b(3) row(4) show ?thesis by simp
  next
    case False
    with b(1,2) row(4) have "b\<lparr>ra_status := s\<rparr> \<in> set (assignments db1)" by (auto simp: image_iff intro!: bexI [of _ b])
    from assignment_status_of_eq [OF inv this] b(2) False show ?thesis by simp
  qed
  moreover have "assignments db' = assignments db1" using m(2) by (auto simp: append_event_def Let_def)
  ultimately show ?thesis using row(1,3) assms(2) by (auto simp: assignment_status_of_def)
qed

theorem revocation_overwritten_witness:
  "\<exists>rev act. authority_op demo_platform True (''e1'', 5) demo_admin (RevokeAssignment ''bob'' ''admin'') ''c1'' (\<lambda>_ d. d) (demo_bob ''inactive'' demo_org) = (Inr (), rev)
     \<and> authority_op demo_platform True (''e2'', 6) demo_admin (ActivateAssignment ''bob'' ''admin'') ''c2'' (commits (demo_bob ''inactive'' demo_org) rev) (demo_bob ''inactive'' demo_org) = (Inr (), act)
     \<and> assignment_status_of (''bob'', ''acme'', ''admin'') act = Some ''active''"
proof -
  let ?db = "demo_bob ''inactive'' demo_org"
  have inv: "org_inv ?db" by (rule demo_bob_inv) simp
  obtain rev ev where rev: "authority_op demo_platform True (''e1'', 5) demo_admin (RevokeAssignment ''bob'' ''admin'') ''c1'' (\<lambda>_ d. d) ?db = (Inr (), rev)"
    "assignments rev = demo_assignments ''revoked''" "event_rows rev = [ev]" "ev_id ev = ''e1''"
    by (rule demo_revoke_from [of "''inactive''"]) auto
  have st: "set_assignment_status ''bob'' ''acme'' ''admin'' ''active'' (commits ?db rev 0 ?db) (commits ?db rev 1 (commits ?db rev 0 ?db)) = Inr (demo_bob ''active'' rev)"
    using demo_status [of "''active''" "''inactive''" ?db rev "''revoked''"] rev(2) by (simp add: commits_def)
  obtain ty where ty: "dict_get AUTHORITY_EVENT_TYPES ''role_assignment_activated'' = Some ty" by (simp add: AUTHORITY_EVENT_TYPES_def)
  obtain act where act: "runtime_set_assignment_status demo_platform True (''e2'', 6) demo_admin ''bob'' ''admin'' ''active''
      ''authority.role.activate'' ''role_assignment_activated'' ''c2'' (commits ?db rev) ?db = (Inr (), act)"
    by (rule demo_change [where st = "(''e2'', 6)" and c = "''c2''" and env = "commits ?db rev" and cap = "''authority.role.activate''", OF inv demo_bob_ada(1) demo_bob_ada(2) _ ty st]) (simp_all add: rev(3,4))
  have "org_inv rev" using authority_op_evolves [OF rev(1)] inv by (simp add: evolves_def)
  moreover have "(''bob'', ''acme'', ''admin'') \<in> revoked_keys rev" by (simp add: revoked_keys_def rev(2) demo_assignments_def)
  moreover have "assignment_status_of (''bob'', ''acme'', ''admin'') ?db = Some ''inactive''" by (simp add: assignment_status_of_def demo_assignments_def)
  ultimately have "assignment_status_of (''bob'', ''acme'', ''admin'') act = Some ''active''"
    using revocation_overwritten [OF _ _ act] by (simp add: commits_def)
  with rev(1) act show ?thesis by (auto simp: runtime_activate_assignment_def)
qed

text \<open>
  C14 (invariant).  Over every run the tables stay well-formed, with valid roles and
  assignments that refer to rows of their own organization, and the event log only grows;
  the events of an aggregate are numbered 1, 2, 3, and so on without gaps, and are read in the order
  they were written.
\<close>

theorem event_log_sound:
  assumes "org_run pf db db'" "org_inv db"
  shows "org_inv db' \<and> prefix (event_rows db) (event_rows db')
    \<and> for_aggregate i org db' = events_of i org (event_rows db')
    \<and> map ev_sequence (for_aggregate i org db') = map int [1..<Suc (length (for_aggregate i org db'))]
    \<and> prefix (for_aggregate i org db) (for_aggregate i org db')"
proof -
  have e: "org_inv db'" "prefix (event_rows db) (event_rows db')"
    using org_run_evolves [OF assms(1)] assms(2) by (simp_all add: evolves_def)
  have g: "gap_free (event_rows db)" "gap_free (event_rows db')" using e(1) assms(2) by (simp_all add: org_inv_def)
  have "prefix (events_of i org (event_rows db)) (events_of i org (event_rows db'))"
    using e(2) by (auto simp: prefix_def)
  then show ?thesis using e g unfolding for_aggregate_eq [OF g(1)] for_aggregate_eq [OF g(2)] gap_free_def by blast
qed

theorem event_log_sound_witness:
  "\<exists>db'. org_run demo_platform demo_org db' \<and> map ev_sequence (for_aggregate ''admin'' ''acme'' db')
      = map int [1..<Suc (length (for_aggregate ''admin'' ''acme'' db'))] \<and> db' \<noteq> demo_org"
proof -
  obtain db' where op: "authority_op demo_platform True (''e1'', 5) demo_admin (RevokeAssignment ''bob'' ''admin'') ''c1'' (\<lambda>_ d. d) demo_org = (Inr (), db')"
    and k: "(''bob'', ''acme'', ''admin'') \<in> revoked_keys db'"
    by (rule demo_revoke)
  have op': "authority_op demo_platform True (''e1'', 5) demo_admin (RevokeAssignment ''bob'' ''admin'') ''c1'' (commits demo_org demo_org) demo_org = (Inr (), db')"
    using op by (simp add: commits_alone)
  have run: "org_run demo_platform demo_org db'"
    by (rule org_run.request [OF org_run.start org_run.start org_run.start _ op']) simp
  have "revoked_keys demo_org = {}" by (simp add: revoked_keys_def demo_org_def)
  then have "db' \<noteq> demo_org" using k by auto
  with event_log_sound [OF run demo_org_inv] run show ?thesis by blast
qed

text \<open>
  Property (error).  A principal may be bound to an actor with another identifier by a trusted
  claim.  For such a context a request for a resource of another organization is denied,
  but a request for a resource that does not exist raises \<open>ValueError\<close>, because the decision
  it would return is not a valid one: the answer tells the two apart.
\<close>

theorem missing_resource_raises:
  assumes "org_inv db" "dict_get (pr_metadata pr) ''actor_id'' = Some (JStr actor)" "pr_id pr \<noteq> actor" "pr_id pr \<noteq> []" "actor \<noteq> []" "cap \<noteq> []"
    and "runtime_establish_context ready pr org actor db = Inr cx" "org \<noteq> []" "other \<noteq> org"
  shows "cx_principal_id cx = pr_id pr \<and> cx_actor_id cx = actor \<and> cx_organization_id cx = org
    \<and> authority_authorize cx cap (Some r) None db = Inl ValueError
    \<and> (\<exists>d. authority_authorize cx cap (Some r) (Some other) db = Inr d \<and> \<not> od_allowed d)"
proof -
  from assms(7) obtain a where a: "get_actor actor org db = Inr (Some a)" "bind_context pr a (Some org) org = Inr cx"
    "\<not> blank org" "length (strip org) \<le> 128"
    by (auto simp: runtime_establish_context_def in_session_def bind_res_Inr_iff split: option.splits)
  then have "act_id a = actor" by (auto simp: get_actor_def find_Some_iff split: option.splits)
  with a(2) have cx: "cx = \<lparr>cx_principal_id = pr_id pr, cx_actor_id = actor, cx_organization_id = org\<rparr>" by (auto simp: bind_context_def)
  have "authorize (pr_id pr) actor org cap (Some r) None db = Inl ValueError"
    using assms(3) by (simp add: authorize_def check_org_decision_def raise_if_def)
  moreover have "authorization_outcome (pr_id pr) actor org cap (Some r) (Some other) db \<noteq> ''capability_granted''"
    using assms(3) by (simp add: outcome_granted [OF assms(1)])
  then obtain d where "authorize (pr_id pr) actor org cap (Some r) (Some other) db = Inr d" "\<not> od_allowed d"
    using authorize_outcome [OF assms(1,4,5,8,6), of "Some r" "Some other"] by auto
  ultimately show ?thesis using a(3,4) by (auto simp: cx authority_authorize_def in_session_def)
qed

theorem missing_resource_raises_witness:
  "\<exists>cx. runtime_establish_context True \<lparr>pr_id = ''sso-7'', pr_metadata = [(''actor_id'', JStr ''ada'')]\<rparr> ''acme'' ''ada'' demo_org = Inr cx
     \<and> authority_authorize cx ''project.launch'' (Some ''p1'') None demo_org = Inl ValueError"
proof -
  have e: "runtime_establish_context True \<lparr>pr_id = ''sso-7'', pr_metadata = [(''actor_id'', JStr ''ada'')]\<rparr> ''acme'' ''ada'' demo_org
    = Inr \<lparr>cx_principal_id = ''sso-7'', cx_actor_id = ''ada'', cx_organization_id = ''acme''\<rparr>"
    by (simp add: runtime_establish_context_def in_session_def get_organization_def get_actor_def demo_org_def bind_context_def ACTOR_TYPES_def)
  from missing_resource_raises [OF demo_org_inv _ _ _ _ _ e, of "''project.launch''" "''x''" "''p1''"] e show ?thesis by auto
qed

end
