(* ===== verification/Work_Units.thy ===== *)
theory Work_Units
  imports Py_Platform
begin

section \<open>Work units (\<open>domain/work_queue.py\<close>, \<open>work_queue_readiness.py\<close>, the repository's codec)\<close>

text \<open>
  The domain side of Work Queue v0: version references, leases and work units with the
  checks of their constructors, the readiness rules, and the two translations of
  \<open>infrastructure/persistence/work_queue_repository.py\<close> between a work unit and its JSON
  payload and database row.  The main lemma is the round trip: a work unit that passes its
  own checks is read back from its payload and from its row with every persisted field as
  written, and with the three fields that are not persisted made anew.

  The fields \<open>description\<close>, \<open>certification\<close> and \<open>used_by\<close> of a capability are checked by
  neither constructor nor codec, so they hold any JSON value.  The records \<open>capability\<close> and
  \<open>work_unit\<close> hold what the database holds: of a capability, all but its own \<open>created_at\<close>,
  \<open>updated_at\<close> and \<open>organization\<close>.  The extension \<open>domain_work_unit\<close> is the object in memory
  with these three: its codecs drop them on writing and read them off the clock, twice, on
  reading.  No operation of the queue looks at them, so its model works on \<open>work_unit\<close>.
\<close>

datatype work_unit_state =
  WU_PENDING | WU_READY | WU_CLAIMED | WU_AWAITING_REVIEW | WU_REJECTED | WU_APPROVED | WU_FAILED

fun wu_state_name :: "work_unit_state \<Rightarrow> str" where
  "wu_state_name WU_PENDING = ''PENDING''"
| "wu_state_name WU_READY = ''READY''"
| "wu_state_name WU_CLAIMED = ''CLAIMED''"
| "wu_state_name WU_AWAITING_REVIEW = ''AWAITING_REVIEW''"
| "wu_state_name WU_REJECTED = ''REJECTED''"
| "wu_state_name WU_APPROVED = ''APPROVED''"
| "wu_state_name WU_FAILED = ''FAILED''"

definition all_wu_states :: "work_unit_state list" where
  "all_wu_states = [WU_PENDING, WU_READY, WU_CLAIMED, WU_AWAITING_REVIEW, WU_REJECTED, WU_APPROVED, WU_FAILED]"

datatype capability_level = BEGINNER | INTERMEDIATE | ADVANCED | EXPERT

fun level_name :: "capability_level \<Rightarrow> str" where
  "level_name BEGINNER = ''BEGINNER''"
| "level_name INTERMEDIATE = ''INTERMEDIATE''"
| "level_name ADVANCED = ''ADVANCED''"
| "level_name EXPERT = ''EXPERT''"

record capability =
  cap_id :: str
  cap_name :: str
  cap_description :: json
  cap_level :: capability_level
  cap_certification :: json
  cap_used_by :: "json list"

text \<open>\<open>CapabilityLevel[name]\<close> and \<open>WorkUnitState[name]\<close>, guarded by \<open>name in __members__\<close>.\<close>

definition level_of_name :: "str \<Rightarrow> capability_level option" where
  "level_of_name n = find (\<lambda>l. level_name l = n) [BEGINNER, INTERMEDIATE, ADVANCED, EXPERT]"

definition state_of_name :: "str \<Rightarrow> work_unit_state option" where
  "state_of_name n = find (\<lambda>s. wu_state_name s = n) all_wu_states"

subsection \<open>Constructors and their checks\<close>

definition canonical_text :: "str \<Rightarrow> bool" where
  "canonical_text s \<longleftrightarrow> s \<noteq> [] \<and> s = strip s"

definition require_canonical_text :: "str \<Rightarrow> str result" where
  "require_canonical_text s = raise_if (\<not> canonical_text s) WorkUnitContractError (Inr s)"

definition require_utc_datetime :: "datetime \<Rightarrow> time result" where
  "require_utc_datetime d = (case d of Naive t \<Rightarrow> Inl WorkUnitContractError | Aware t \<Rightarrow> Inr t)"

record immutable_version_ref =
  vr_kind :: str
  vr_value :: str

definition new_version_ref :: "str \<Rightarrow> str \<Rightarrow> immutable_version_ref result" where
  "new_version_ref k v =
     bind_res (require_canonical_text k) (\<lambda>k.
     bind_res (require_canonical_text v) (\<lambda>v. Inr \<lparr>vr_kind = k, vr_value = v\<rparr>))"

record dependency_version_binding =
  bind_work_unit_id :: str
  bind_version :: immutable_version_ref

definition new_binding :: "str \<Rightarrow> immutable_version_ref \<Rightarrow> dependency_version_binding result" where
  "new_binding i v = bind_res (require_canonical_text i) (\<lambda>i. Inr \<lparr>bind_work_unit_id = i, bind_version = v\<rparr>)"

record worker_lease =
  wl_lease_id :: str
  wl_worker_id :: str
  claimed_at :: time
  wl_expires_at :: time

definition new_worker_lease :: "str \<Rightarrow> str \<Rightarrow> datetime \<Rightarrow> datetime \<Rightarrow> worker_lease result" where
  "new_worker_lease l w c e =
     bind_res (require_canonical_text l) (\<lambda>l.
     bind_res (require_canonical_text w) (\<lambda>w.
     bind_res (require_utc_datetime c) (\<lambda>c.
     bind_res (require_utc_datetime e) (\<lambda>e.
       raise_if (e \<le> c) WorkUnitContractError
         (Inr \<lparr>wl_lease_id = l, wl_worker_id = w, claimed_at = c, wl_expires_at = e\<rparr>)))))"

record work_unit =
  wu_id :: str
  wu_title :: str
  required_capability :: capability
  wu_state :: work_unit_state
  depends_on :: "str list"
  depends_on_snapshot :: "dependency_version_binding list"
  base_version :: "immutable_version_ref option"
  allowed_resources :: "str list"
  acceptance_refs :: "str list"
  delivered_artifact_version :: "immutable_version_ref option"
  claimed_by :: "str option"
  wu_lease :: "worker_lease option"
  previous_worker :: "str option"
  rework_attempts :: int
  wu_created_at :: time
  wu_updated_at :: time

definition canonical_text_tuple :: "str list \<Rightarrow> str list result" where
  "canonical_text_tuple xs =
     raise_if (\<exists>x\<in>set xs. \<not> canonical_text x) WorkUnitContractError
     (raise_if (length xs \<noteq> card (set xs)) WorkUnitContractError (Inr xs))"

definition binding_tuple :: "dependency_version_binding list \<Rightarrow> dependency_version_binding list result" where
  "binding_tuple bs =
     (let ids = map bind_work_unit_id bs
      in raise_if (length ids \<noteq> card (set ids)) WorkUnitContractError (Inr bs))"

text \<open>\<open>WorkUnit.__post_init__\<close>; its timestamps are given as instants here.\<close>

definition check_work_unit :: "work_unit \<Rightarrow> work_unit result" where
  "check_work_unit w =
     bind_res (require_canonical_text (wu_id w)) (\<lambda>_.
     bind_res (require_canonical_text (wu_title w)) (\<lambda>_.
       raise_if (rework_attempts w < 0) WorkUnitContractError
       (raise_if (wu_updated_at w < wu_created_at w) WorkUnitContractError
       (bind_res (canonical_text_tuple (depends_on w)) (\<lambda>_.
        bind_res (binding_tuple (depends_on_snapshot w)) (\<lambda>_.
        bind_res (canonical_text_tuple (allowed_resources w)) (\<lambda>_.
        bind_res (canonical_text_tuple (acceptance_refs w)) (\<lambda>_.
          raise_if (case claimed_by w of None \<Rightarrow> False | Some x \<Rightarrow> \<not> canonical_text x) WorkUnitContractError
          (raise_if (case previous_worker w of None \<Rightarrow> False | Some x \<Rightarrow> \<not> canonical_text x) WorkUnitContractError
            (Inr w))))))))))"

subsection \<open>Readiness\<close>

definition is_ready :: "work_unit \<Rightarrow> (str \<Rightarrow> work_unit option) \<Rightarrow> bool" where
  "is_ready w deps \<longleftrightarrow> wu_state w = WU_PENDING
     \<and> (\<forall>i\<in>set (depends_on w). case deps i of None \<Rightarrow> False | Some d \<Rightarrow> wu_id d = i \<and> wu_state d = WU_APPROVED)"

definition is_worker_eligible :: "work_unit \<Rightarrow> capability list \<Rightarrow> bool" where
  "is_worker_eligible w caps \<longleftrightarrow> \<not> blank (cap_id (required_capability w))
     \<and> (\<exists>c\<in>set caps. \<not> blank (cap_id c) \<and> cap_id c = cap_id (required_capability w))"

subsection \<open>Writing: \<open>_serialize_payload\<close> and \<open>_lease_payload\<close>\<close>

definition version_payload :: "immutable_version_ref \<Rightarrow> json" where
  "version_payload v = JObj [(''kind'', JStr (vr_kind v)), (''value'', JStr (vr_value v))]"

definition lease_payload :: "platform \<Rightarrow> worker_lease \<Rightarrow> json" where
  "lease_payload pf l =
     JObj [(''lease_id'', JStr (wl_lease_id l)), (''worker_id'', JStr (wl_worker_id l)),
           (''claimed_at'', JStr (isoformat pf (claimed_at l))), (''expires_at'', JStr (isoformat pf (wl_expires_at l)))]"

definition capability_payload :: "capability \<Rightarrow> json" where
  "capability_payload c =
     JObj [(''id'', JStr (cap_id c)), (''name'', JStr (cap_name c)), (''description'', cap_description c),
           (''level'', JStr (level_name (cap_level c))), (''certification'', cap_certification c),
           (''used_by'', JArr (cap_used_by c))]"

definition binding_payload :: "dependency_version_binding \<Rightarrow> json" where
  "binding_payload b = JObj [(''work_unit_id'', JStr (bind_work_unit_id b)), (''version'', version_payload (bind_version b))]"

definition null_or :: "('a \<Rightarrow> json) \<Rightarrow> 'a option \<Rightarrow> json" where
  "null_or f v = (case v of None \<Rightarrow> JNull | Some x \<Rightarrow> f x)"

definition serialize_payload :: "platform \<Rightarrow> work_unit \<Rightarrow> json" where
  "serialize_payload pf w =
     JObj [(''id'', JStr (wu_id w)), (''title'', JStr (wu_title w)), (''state'', JStr (wu_state_name (wu_state w))),
           (''required_capability'', capability_payload (required_capability w)),
           (''depends_on'', jstrs (depends_on w)),
           (''depends_on_snapshot'', JArr (map binding_payload (depends_on_snapshot w))),
           (''base_version'', null_or version_payload (base_version w)),
           (''allowed_resources'', jstrs (allowed_resources w)), (''acceptance_refs'', jstrs (acceptance_refs w)),
           (''delivered_artifact_version'', null_or version_payload (delivered_artifact_version w)),
           (''claimed_by'', jopt (claimed_by w)), (''lease'', null_or (lease_payload pf) (wu_lease w)),
           (''previous_worker'', jopt (previous_worker w)), (''rework_attempts'', JInt (rework_attempts w)),
           (''created_at'', JStr (isoformat pf (wu_created_at w))), (''updated_at'', JStr (isoformat pf (wu_updated_at w)))]"

text \<open>
  The row.  The three nullable JSON columns are \<open>None\<close> when they hold an SQL \<open>NULL\<close>, which
  is not the same as a JSON \<open>null\<close> for the test \<open>IS NULL\<close>.
\<close>

record work_unit_row =
  wr_org :: str
  wr_id :: str
  wr_title :: str
  wr_state :: str
  wr_capability :: json
  wr_depends_on :: json
  wr_snapshot :: json
  wr_base_version :: "json option"
  wr_allowed_resources :: json
  wr_acceptance_refs :: json
  wr_delivered :: "json option"
  wr_claimed_by :: "str option"
  wr_lease :: "json option"
  wr_previous_worker :: "str option"
  wr_rework_attempts :: int
  wr_created_at :: time
  wr_updated_at :: time

definition to_model :: "platform \<Rightarrow> str \<Rightarrow> work_unit \<Rightarrow> work_unit_row" where
  "to_model pf org w =
     \<lparr>wr_org = org, wr_id = wu_id w, wr_title = wu_title w, wr_state = wu_state_name (wu_state w),
      wr_capability = capability_payload (required_capability w), wr_depends_on = jstrs (depends_on w),
      wr_snapshot = JArr (map binding_payload (depends_on_snapshot w)),
      wr_base_version = Some (null_or version_payload (base_version w)),
      wr_allowed_resources = jstrs (allowed_resources w), wr_acceptance_refs = jstrs (acceptance_refs w),
      wr_delivered = Some (null_or version_payload (delivered_artifact_version w)),
      wr_claimed_by = claimed_by w, wr_lease = map_option (lease_payload pf) (wu_lease w),
      wr_previous_worker = previous_worker w, wr_rework_attempts = rework_attempts w,
      wr_created_at = wu_created_at w, wr_updated_at = wu_updated_at w\<rparr>"

subsection \<open>Reading: \<open>_from_payload\<close> and \<open>_from_model\<close>\<close>

text \<open>\<open>dict.get\<close> on a JSON object, \<open>None\<close> for a missing key; the order of a literal's keys.\<close>

definition jget :: "(str \<times> json) list \<Rightarrow> str \<Rightarrow> json option" where
  "jget ms k = map_of ms k"

text \<open>\<open>tuple(v)\<close> or \<open>list(v)\<close> of a JSON value.\<close>

fun py_elements :: "json \<Rightarrow> json list result" where
  "py_elements (JArr xs) = Inr xs"
| "py_elements (JStr s) = Inr (map (\<lambda>c. JStr [c]) s)"
| "py_elements (JObj ms) = Inr (map (JStr \<circ> fst) ms)"
| "py_elements _ = Inl TypeError"

text \<open>A JSON value where a constructor requires canonical text.\<close>

fun text_of :: "json \<Rightarrow> str result" where
  "text_of (JStr s) = require_canonical_text s"
| "text_of _ = Inl WorkUnitContractError"

fun seq_res :: "'a result list \<Rightarrow> 'a list result" where
  "seq_res [] = Inr []"
| "seq_res (m # ms) = bind_res m (\<lambda>x. bind_res (seq_res ms) (\<lambda>xs. Inr (x # xs)))"

definition texts_of :: "json option \<Rightarrow> str list result" where
  "texts_of v =
     bind_res (case v of None \<Rightarrow> Inr [] | Some j \<Rightarrow> py_elements j) (\<lambda>xs.
     bind_res (seq_res (map text_of xs)) canonical_text_tuple)"

text \<open>\<open>int(v)\<close>: a string is read as a decimal numeral with optional sign and single underscores.\<close>

fun digits_us :: "str \<Rightarrow> bool" where
  "digits_us [] = False"
| "digits_us [c] = is_digit c"
| "digits_us (c # d # r) = (is_digit c \<and> (if d = CHR ''_'' then digits_us r else digits_us (d # r)))"

definition int_of_str :: "str \<Rightarrow> int result" where
  "int_of_str s =
     (let t = strip s; neg = (t \<noteq> [] \<and> hd t = CHR ''-''); signed = (neg \<or> t \<noteq> [] \<and> hd t = CHR ''+'');
          d = (if signed then tl t else t); n = int (digits_value (filter is_digit d))
      in if digits_us d then Inr (if neg then - n else n) else Inl ValueError)"

fun py_int :: "json \<Rightarrow> int result" where
  "py_int (JInt i) = Inr i"
| "py_int (JBool b) = Inr (if b then 1 else 0)"
| "py_int (JStr s) = int_of_str s"
| "py_int _ = Inl TypeError"

fun falsy_json :: "json \<Rightarrow> bool" where
  "falsy_json JNull = True"
| "falsy_json (JBool b) = (\<not> b)"
| "falsy_json (JInt i) = (i = 0)"
| "falsy_json (JStr s) = (s = [])"
| "falsy_json (JArr xs) = (xs = [])"
| "falsy_json (JObj ms) = (ms = [])"

text \<open>\<open>datetime.fromisoformat\<close>, then UTC for a naive value.\<close>

definition read_time :: "platform \<Rightarrow> json \<Rightarrow> time result" where
  "read_time pf v =
     (case v of
        JStr s \<Rightarrow> (case fromisoformat pf s of None \<Rightarrow> Inl ValueError | Some (Aware t) \<Rightarrow> Inr t | Some (Naive t) \<Rightarrow> Inr t)
      | _ \<Rightarrow> Inl TypeError)"

definition read_version :: "json option \<Rightarrow> immutable_version_ref option result" where
  "read_version v =
     (case v of
        Some (JObj ms) \<Rightarrow>
          (case (jget ms ''kind'', jget ms ''value'') of
             (Some k, Some x) \<Rightarrow>
               bind_res (text_of k) (\<lambda>k. bind_res (text_of x) (\<lambda>x. bind_res (new_version_ref k x) (\<lambda>r. Inr (Some r))))
           | _ \<Rightarrow> Inr None)
      | _ \<Rightarrow> Inr None)"

definition read_binding :: "json \<Rightarrow> dependency_version_binding option result" where
  "read_binding v =
     (case v of
        JObj ms \<Rightarrow>
          (case (jget ms ''work_unit_id'', jget ms ''version'') of
             (Some i, Some (JObj vs)) \<Rightarrow>
               bind_res (read_version (Some (JObj vs))) (\<lambda>r.
                 case r of
                   None \<Rightarrow> Inr None
                 | Some r \<Rightarrow> bind_res (text_of i) (\<lambda>i. bind_res (new_binding i r) (\<lambda>b. Inr (Some b))))
           | _ \<Rightarrow> Inr None)
      | _ \<Rightarrow> Inr None)"

definition read_snapshot :: "json option \<Rightarrow> dependency_version_binding list result" where
  "read_snapshot v =
     (case v of
        Some (JArr xs) \<Rightarrow> bind_res (seq_res (map read_binding xs)) (\<lambda>bs. Inr (map the (filter (\<lambda>b. b \<noteq> None) bs)))
      | _ \<Rightarrow> Inr [])"

definition jget_or :: "(str \<times> json) list \<Rightarrow> str \<Rightarrow> json \<Rightarrow> json" where
  "jget_or ms k d = (case jget ms k of None \<Rightarrow> d | Some v \<Rightarrow> v)"

definition read_lease :: "platform \<Rightarrow> json option \<Rightarrow> worker_lease option result" where
  "read_lease pf v =
     (case v of
        Some (JObj ms) \<Rightarrow>
          (let c = jget_or ms ''claimed_at'' JNull; e = jget_or ms ''expires_at'' JNull
           in if falsy_json c \<or> falsy_json e then Inr None
              else bind_res (read_time pf c) (\<lambda>c.
                   bind_res (read_time pf e) (\<lambda>e.
                   bind_res (text_of (jget_or ms ''lease_id'' (JStr ''lease-unknown''))) (\<lambda>l.
                   bind_res (text_of (jget_or ms ''worker_id'' (JStr ''worker-unknown''))) (\<lambda>w.
                   bind_res (new_worker_lease l w (Aware c) (Aware e)) (\<lambda>x. Inr (Some x)))))))
      | _ \<Rightarrow> Inr None)"

definition nonblank_str :: "json option \<Rightarrow> str result" where
  "nonblank_str v =
     (case v of Some (JStr s) \<Rightarrow> raise_if (blank s) WorkUnitPersistenceError (Inr s) | _ \<Rightarrow> Inl WorkUnitPersistenceError)"

definition read_capability :: "json option \<Rightarrow> capability result" where
  "read_capability v =
     (case v of
        Some (JObj ms) \<Rightarrow>
          bind_res (nonblank_str (jget ms ''id'')) (\<lambda>i.
          bind_res (nonblank_str (jget ms ''name'')) (\<lambda>n.
          bind_res (case jget ms ''level'' of
                      Some (JStr l) \<Rightarrow> (case level_of_name l of None \<Rightarrow> Inl WorkUnitPersistenceError | Some x \<Rightarrow> Inr x)
                    | _ \<Rightarrow> Inl WorkUnitPersistenceError) (\<lambda>l.
          bind_res (py_elements (jget_or ms ''used_by'' (JArr []))) (\<lambda>us.
            Inr \<lparr>cap_id = i, cap_name = n, cap_description = jget_or ms ''description'' (JStr []), cap_level = l,
                 cap_certification = jget_or ms ''certification'' JNull, cap_used_by = us\<rparr>))))
      | _ \<Rightarrow> Inl WorkUnitPersistenceError)"

definition read_state :: "json option \<Rightarrow> work_unit_state result" where
  "read_state v =
     (case (case v of None \<Rightarrow> JStr ''PENDING'' | Some j \<Rightarrow> j) of
        JStr n \<Rightarrow> (case state_of_name n of None \<Rightarrow> Inl WorkUnitPersistenceError | Some s \<Rightarrow> Inr s)
      | JArr _ \<Rightarrow> Inl TypeError
      | JObj _ \<Rightarrow> Inl TypeError
      | _ \<Rightarrow> Inl WorkUnitPersistenceError)"

definition read_opt_text :: "json option \<Rightarrow> str option result" where
  "read_opt_text v =
     (case v of None \<Rightarrow> Inr None | Some JNull \<Rightarrow> Inr None | Some j \<Rightarrow> bind_res (text_of j) (\<lambda>s. Inr (Some s)))"

definition required_key :: "json option \<Rightarrow> json result" where
  "required_key v = (case v of None \<Rightarrow> Inl KeyError | Some j \<Rightarrow> Inr j)"

definition from_payload :: "platform \<Rightarrow> json \<Rightarrow> work_unit result" where
  "from_payload pf v =
     (case v of
        JObj ms \<Rightarrow>
          bind_res (read_capability (jget ms ''required_capability'')) (\<lambda>cap.
          bind_res (read_version (jget ms ''base_version'')) (\<lambda>bv.
          bind_res (read_version (jget ms ''delivered_artifact_version'')) (\<lambda>dv.
          bind_res (read_snapshot (jget ms ''depends_on_snapshot'')) (\<lambda>snap.
          bind_res (read_lease pf (jget ms ''lease'')) (\<lambda>lease.
          bind_res (bind_res (required_key (jget ms ''created_at'')) (read_time pf)) (\<lambda>ca.
          bind_res (bind_res (required_key (jget ms ''updated_at'')) (read_time pf)) (\<lambda>ua.
          bind_res (read_state (jget ms ''state'')) (\<lambda>st.
          bind_res (required_key (jget ms ''id'')) (\<lambda>i.
          bind_res (py_elements (jget_or ms ''depends_on'' (JArr []))) (\<lambda>_.
          bind_res (py_elements (jget_or ms ''allowed_resources'' (JArr []))) (\<lambda>_.
          bind_res (py_elements (jget_or ms ''acceptance_refs'' (JArr []))) (\<lambda>_.
          bind_res (py_int (jget_or ms ''rework_attempts'' (JInt 0))) (\<lambda>ra.
          bind_res (text_of i) (\<lambda>i.
          bind_res (text_of (jget_or ms ''title'' (JStr []))) (\<lambda>ti.
          bind_res (texts_of (jget ms ''depends_on'')) (\<lambda>dep.
          bind_res (texts_of (jget ms ''allowed_resources'')) (\<lambda>res.
          bind_res (texts_of (jget ms ''acceptance_refs'')) (\<lambda>acc.
          bind_res (read_opt_text (jget ms ''claimed_by'')) (\<lambda>cb.
          bind_res (read_opt_text (jget ms ''previous_worker'')) (\<lambda>pw.
            check_work_unit \<lparr>wu_id = i, wu_title = ti, required_capability = cap, wu_state = st, depends_on = dep,
              depends_on_snapshot = snap, base_version = bv, allowed_resources = res, acceptance_refs = acc,
              delivered_artifact_version = dv, claimed_by = cb, wu_lease = lease, previous_worker = pw,
              rework_attempts = ra, wu_created_at = ca, wu_updated_at = ua\<rparr>))))))))))))))))))))
      | _ \<Rightarrow> Inl WorkUnitPersistenceError)"

definition from_model :: "platform \<Rightarrow> work_unit_row \<Rightarrow> work_unit result" where
  "from_model pf r = from_payload pf
     (JObj [(''id'', JStr (wr_id r)), (''title'', JStr (wr_title r)), (''state'', JStr (wr_state r)),
            (''required_capability'', wr_capability r), (''depends_on'', wr_depends_on r),
            (''depends_on_snapshot'', wr_snapshot r), (''base_version'', null_or id (wr_base_version r)),
            (''allowed_resources'', wr_allowed_resources r), (''acceptance_refs'', wr_acceptance_refs r),
            (''delivered_artifact_version'', null_or id (wr_delivered r)), (''claimed_by'', jopt (wr_claimed_by r)),
            (''lease'', null_or id (wr_lease r)), (''previous_worker'', jopt (wr_previous_worker r)),
            (''rework_attempts'', JInt (wr_rework_attempts r)),
            (''created_at'', JStr (isoformat pf (wr_created_at r))), (''updated_at'', JStr (isoformat pf (wr_updated_at r)))])"

text \<open>
  The object in memory: a work unit with the three fields of its required capability that
  \<open>_serialize_payload\<close> and \<open>_to_model\<close> leave out.  \<open>_from_payload\<close> constructs the capability
  without them, so they take the defaults of \<open>Capability\<close>: two readings \<open>t1\<close>, \<open>t2\<close> of the
  local clock and no organization (which is held here by its id).
\<close>

record domain_work_unit = work_unit +
  capability_created_at :: datetime
  capability_updated_at :: datetime
  capability_organization :: "str option"

definition persisted :: "domain_work_unit \<Rightarrow> work_unit" where
  "persisted w = work_unit.truncate w"

definition constructed :: "time \<Rightarrow> time \<Rightarrow> work_unit \<Rightarrow> domain_work_unit" where
  "constructed t1 t2 w = work_unit.extend w (domain_work_unit.fields (Naive t1) (Naive t2) None)"

definition write_payload :: "platform \<Rightarrow> domain_work_unit \<Rightarrow> json" where
  "write_payload pf w = serialize_payload pf (persisted w)"

definition write_model :: "platform \<Rightarrow> str \<Rightarrow> domain_work_unit \<Rightarrow> work_unit_row" where
  "write_model pf org w = to_model pf org (persisted w)"

definition read_payload :: "platform \<Rightarrow> time \<Rightarrow> time \<Rightarrow> json \<Rightarrow> domain_work_unit result" where
  "read_payload pf t1 t2 v = bind_res (from_payload pf v) (\<lambda>w. Inr (constructed t1 t2 w))"

definition read_model :: "platform \<Rightarrow> time \<Rightarrow> time \<Rightarrow> work_unit_row \<Rightarrow> domain_work_unit result" where
  "read_model pf t1 t2 r = bind_res (from_model pf r) (\<lambda>w. Inr (constructed t1 t2 w))"

subsection \<open>The round trip\<close>

definition valid_version :: "immutable_version_ref \<Rightarrow> bool" where
  "valid_version v \<longleftrightarrow> canonical_text (vr_kind v) \<and> canonical_text (vr_value v)"

definition valid_lease :: "worker_lease \<Rightarrow> bool" where
  "valid_lease l \<longleftrightarrow> canonical_text (wl_lease_id l) \<and> canonical_text (wl_worker_id l)
     \<and> claimed_at l < wl_expires_at l \<and> datetime_range (claimed_at l) \<and> datetime_range (wl_expires_at l)"

definition valid_work_unit :: "work_unit \<Rightarrow> bool" where
  "valid_work_unit w \<longleftrightarrow> check_work_unit w = Inr w
     \<and> \<not> blank (cap_id (required_capability w)) \<and> \<not> blank (cap_name (required_capability w))
     \<and> (\<forall>v. base_version w = Some v \<longrightarrow> valid_version v)
     \<and> (\<forall>v. delivered_artifact_version w = Some v \<longrightarrow> valid_version v)
     \<and> (\<forall>b\<in>set (depends_on_snapshot w). canonical_text (bind_work_unit_id b) \<and> valid_version (bind_version b))
     \<and> (\<forall>l. wu_lease w = Some l \<longrightarrow> valid_lease l)
     \<and> datetime_range (wu_created_at w) \<and> datetime_range (wu_updated_at w)"

lemma require_canonical_text_ok [simp]: "canonical_text s \<Longrightarrow> require_canonical_text s = Inr s"
  by (simp add: require_canonical_text_def)

lemma level_roundtrip [simp]: "level_of_name (level_name l) = Some l"
  by (cases l) (simp_all add: level_of_name_def)

lemma state_roundtrip [simp]: "state_of_name (wu_state_name s) = Some s"
  by (cases s) (simp_all add: state_of_name_def all_wu_states_def)

lemma wu_state_name_inject [simp]: "wu_state_name s = wu_state_name s' \<longleftrightarrow> s = s'"
  by (metis option.inject state_roundtrip)

lemma seq_res_map: "(\<And>x. x \<in> set xs \<Longrightarrow> f x = Inr (g x)) \<Longrightarrow> seq_res (map f xs) = Inr (map g xs)"
  by (induction xs) simp_all

lemma canonical_text_tuple_Inr:
  "canonical_text_tuple xs = Inr ys \<longleftrightarrow> ys = xs \<and> (\<forall>x\<in>set xs. canonical_text x) \<and> distinct xs"
  by (auto simp: canonical_text_tuple_def length_card_iff)

lemma check_work_unit_Inr:
  "check_work_unit w = Inr w' \<longleftrightarrow> w' = w \<and> canonical_text (wu_id w) \<and> canonical_text (wu_title w)
     \<and> 0 \<le> rework_attempts w \<and> wu_created_at w \<le> wu_updated_at w
     \<and> (\<forall>x\<in>set (depends_on w). canonical_text x) \<and> distinct (depends_on w)
     \<and> distinct (map bind_work_unit_id (depends_on_snapshot w))
     \<and> (\<forall>x\<in>set (allowed_resources w). canonical_text x) \<and> distinct (allowed_resources w)
     \<and> (\<forall>x\<in>set (acceptance_refs w). canonical_text x) \<and> distinct (acceptance_refs w)
     \<and> (\<forall>x. claimed_by w = Some x \<longrightarrow> canonical_text x) \<and> (\<forall>x. previous_worker w = Some x \<longrightarrow> canonical_text x)"
  unfolding check_work_unit_def binding_tuple_def Let_def bind_res_Inr_iff raise_if_Inr_iff require_canonical_text_def
    canonical_text_tuple_Inr
  using length_card_iff [of "map bind_work_unit_id (depends_on_snapshot w)"]
  by (auto simp: canonical_text_tuple_Inr split: option.splits)

lemma read_version_payload [simp]: "valid_version v \<Longrightarrow> read_version (Some (version_payload v)) = Inr (Some v)"
  by (simp add: read_version_def version_payload_def jget_def new_version_ref_def valid_version_def)

lemma read_version_null:
  "(\<forall>x. v = Some x \<longrightarrow> valid_version x) \<Longrightarrow> read_version (Some (null_or version_payload v)) = Inr v"
  by (cases v) (simp_all add: null_or_def, simp add: read_version_def)

lemma read_capability_payload [simp]:
  "\<not> blank (cap_id c) \<Longrightarrow> \<not> blank (cap_name c) \<Longrightarrow> read_capability (Some (capability_payload c)) = Inr c"
  by (simp add: read_capability_def capability_payload_def jget_def jget_or_def nonblank_str_def)

lemma read_binding_payload [simp]:
  "canonical_text (bind_work_unit_id b) \<Longrightarrow> valid_version (bind_version b) \<Longrightarrow> read_binding (binding_payload b) = Inr (Some b)"
  using read_version_payload [of "bind_version b"]
  by (simp add: read_binding_def binding_payload_def jget_def version_payload_def new_binding_def)

lemma read_snapshot_payload:
  "\<forall>b\<in>set bs. canonical_text (bind_work_unit_id b) \<and> valid_version (bind_version b) \<Longrightarrow>
     read_snapshot (Some (JArr (map binding_payload bs))) = Inr bs"
proof -
  assume "\<forall>b\<in>set bs. canonical_text (bind_work_unit_id b) \<and> valid_version (bind_version b)"
  then have "seq_res (map (read_binding \<circ> binding_payload) bs) = Inr (map Some bs)"
    by (intro seq_res_map) simp
  then show ?thesis by (simp add: read_snapshot_def filter_map comp_def)
qed

lemma read_time_iso [simp]: "iso_inverse pf \<Longrightarrow> datetime_range t \<Longrightarrow> read_time pf (JStr (isoformat pf t)) = Inr t"
  by (simp add: read_time_def iso_inverse_def)

lemma iso_nonempty: "iso_inverse pf \<Longrightarrow> datetime_range t \<Longrightarrow> isoformat pf t \<noteq> []"
  by (auto simp: iso_inverse_def)

lemma read_lease_payload [simp]:
  "iso_inverse pf \<Longrightarrow> valid_lease l \<Longrightarrow> read_lease pf (Some (lease_payload pf l)) = Inr (Some l)"
  by (simp add: read_lease_def lease_payload_def jget_def jget_or_def new_worker_lease_def valid_lease_def
      require_utc_datetime_def iso_nonempty)

lemma read_lease_null:
  "iso_inverse pf \<Longrightarrow> (\<forall>x. l = Some x \<longrightarrow> valid_lease x) \<Longrightarrow> read_lease pf (Some (null_or (lease_payload pf) l)) = Inr l"
  by (cases l) (simp_all add: null_or_def, simp add: read_lease_def)

lemma texts_of_jstrs:
  "\<forall>x\<in>set xs. canonical_text x \<Longrightarrow> distinct xs \<Longrightarrow> texts_of (Some (jstrs xs)) = Inr xs"
proof -
  assume x: "\<forall>x\<in>set xs. canonical_text x" "distinct xs"
  then have "seq_res (map (text_of \<circ> JStr) xs) = Inr (map id xs)"
    by (intro seq_res_map) simp
  with x show ?thesis by (simp add: texts_of_def jstrs_def canonical_text_tuple_Inr comp_def)
qed

lemma read_opt_text_jopt: "(\<forall>x. v = Some x \<longrightarrow> canonical_text x) \<Longrightarrow> read_opt_text (Some (jopt v)) = Inr v"
  by (cases v) (simp_all add: read_opt_text_def jopt_def)

lemma py_elements_jstrs [simp]: "py_elements (jstrs xs) = Inr (map JStr xs)"
  by (simp add: jstrs_def)

lemma read_state_name [simp]: "read_state (Some (JStr (wu_state_name s))) = Inr s"
  by (simp add: read_state_def)

lemma null_or_null [simp]: "null_or id (Some v) = v" "null_or id (map_option f l) = null_or f l"
  by (simp_all add: null_or_def split: option.split)

lemma from_model_payload: "from_model pf (to_model pf org w) = from_payload pf (serialize_payload pf w)"
  by (simp add: from_model_def to_model_def serialize_payload_def)

lemma from_payload_serialize:
  assumes "valid_work_unit w" "iso_inverse pf"
  shows "from_payload pf (serialize_payload pf w) = Inr w"
proof -
  note v = assms(1) [unfolded valid_work_unit_def]
  note c = v [THEN conjunct1, unfolded check_work_unit_Inr]
  have eta: "\<lparr>wu_id = wu_id w, wu_title = wu_title w, required_capability = required_capability w, wu_state = wu_state w,
      depends_on = depends_on w, depends_on_snapshot = depends_on_snapshot w, base_version = base_version w,
      allowed_resources = allowed_resources w, acceptance_refs = acceptance_refs w,
      delivered_artifact_version = delivered_artifact_version w, claimed_by = claimed_by w, wu_lease = wu_lease w,
      previous_worker = previous_worker w, rework_attempts = rework_attempts w, wu_created_at = wu_created_at w,
      wu_updated_at = wu_updated_at w\<rparr> = w"
    by (cases w) simp
  show ?thesis
    unfolding from_payload_def serialize_payload_def
    using v c assms(2)
    by (simp add: jget_def jget_or_def read_version_null read_snapshot_payload read_lease_null texts_of_jstrs
        read_opt_text_jopt required_key_def eta)
qed

subsection \<open>Properties\<close>

lemma constructed_persisted:
  "constructed t1 t2 (persisted w)
     = w\<lparr>capability_created_at := Naive t1, capability_updated_at := Naive t2, capability_organization := None\<rparr>"
  by (cases w) (simp add: constructed_def persisted_def work_unit.truncate_def work_unit.extend_def domain_work_unit.fields_def)

text \<open>
  C40 (roundtrip).  A work unit that satisfies its own contract is read back from its
  revision payload and from its database row with every field as written, except the
  creation time, update time and organization of its required capability: these are the
  readings of the clock at construction and \<open>None\<close>, whatever was written.  So it is read back
  as the same work unit exactly when its capability already had these three values.
\<close>

theorem work_unit_roundtrip:
  assumes "valid_work_unit (persisted w)" "iso_inverse pf"
  shows "read_payload pf t1 t2 (write_payload pf w)
           = Inr (w\<lparr>capability_created_at := Naive t1, capability_updated_at := Naive t2, capability_organization := None\<rparr>)
    \<and> read_model pf t1 t2 (write_model pf org w) = read_payload pf t1 t2 (write_payload pf w)
    \<and> (read_model pf t1 t2 (write_model pf org w) = Inr w
       \<longleftrightarrow> capability_created_at w = Naive t1 \<and> capability_updated_at w = Naive t2 \<and> capability_organization w = None)"
proof -
  have "read_payload pf t1 t2 (write_payload pf w) = Inr (constructed t1 t2 (persisted w))"
    "read_model pf t1 t2 (write_model pf org w) = read_payload pf t1 t2 (write_payload pf w)"
    using from_payload_serialize [OF assms]
    by (simp_all add: read_payload_def read_model_def write_payload_def write_model_def from_model_payload)
  then show ?thesis unfolding constructed_persisted by (cases w) auto
qed

definition demo_capability :: capability where
  "demo_capability = \<lparr>cap_id = ''py'', cap_name = ''Python'', cap_description = JStr [], cap_level = EXPERT,
     cap_certification = JNull, cap_used_by = []\<rparr>"

definition demo_unit :: work_unit where
  "demo_unit = \<lparr>wu_id = ''u1'', wu_title = ''build'', required_capability = demo_capability, wu_state = WU_PENDING,
     depends_on = [], depends_on_snapshot = [], base_version = Some \<lparr>vr_kind = ''git'', vr_value = ''abc''\<rparr>,
     allowed_resources = [''r''], acceptance_refs = [], delivered_artifact_version = None, claimed_by = None,
     wu_lease = None, previous_worker = None, rework_attempts = 0, wu_created_at = 0, wu_updated_at = 0\<rparr>"

lemma demo_unit_valid: "valid_work_unit demo_unit"
  by (simp add: valid_work_unit_def check_work_unit_Inr demo_unit_def demo_capability_def valid_version_def
      canonical_text_def datetime_range_def strip_def blank_iff is_space_def Let_def)

definition demo_domain_unit :: domain_work_unit where
  "demo_domain_unit = (constructed 0 0 demo_unit)\<lparr>capability_organization := Some ''o''\<rparr>"

lemma demo_domain_persisted: "persisted demo_domain_unit = demo_unit"
  by (simp add: demo_domain_unit_def persisted_def constructed_def demo_unit_def work_unit.truncate_def work_unit.extend_def
      domain_work_unit.fields_def)

theorem work_unit_roundtrip_witness:
  "read_model demo_platform 5 6 (write_model demo_platform ''o'' demo_domain_unit) = Inr (constructed 5 6 demo_unit)
     \<and> constructed 5 6 demo_unit \<noteq> demo_domain_unit"
  using work_unit_roundtrip [OF _ demo_platform_iso, of demo_domain_unit 5 6 "''o''"] demo_unit_valid
  by (simp add: demo_domain_persisted constructed_persisted [symmetric])
    (simp add: constructed_def demo_domain_unit_def demo_unit_def work_unit.extend_def domain_work_unit.fields_def)

end
