(* ===== verification/Work_Queue.thy ===== *)
theory Work_Queue
  imports Work_Units
begin

section \<open>Work Queue services (\<open>infrastructure/runtime/work_queue*.py\<close>, the repository)\<close>

text \<open>
  The claim, lease and review services over the tables \<open>work_units\<close> (the current
  projection) and \<open>work_unit_revisions\<close> (its append-only history).  Every service reads a
  row, decides on the work unit it decodes to, and writes with a compare-and-set; the
  revision is appended in the same transaction.  What other clients commit between the
  read and the compare-and-set is an argument \<open>env\<close>; a transaction that is rolled back
  leaves the tables as \<open>env\<close> has made them.  The reads of one transaction see one state of
  the tables.

  Clock readings and drawn \<open>uuid4\<close> values are arguments; a revision is recorded at the
  instant of its transition.
\<close>

record revision_row =
  rv_org :: str
  rv_id :: str
  rv_revision :: int
  rv_payload :: json
  rv_recorded_at :: time

record work_db =
  units :: "work_unit_row list"
  revisions :: "revision_row list"

abbreviation unit_key :: "work_unit_row \<Rightarrow> str \<times> str" where
  "unit_key r \<equiv> (wr_org r, wr_id r)"

definition get_unit_row :: "str \<Rightarrow> str \<Rightarrow> work_db \<Rightarrow> work_unit_row option" where
  "get_unit_row org i db = find (\<lambda>r. unit_key r = (org, i)) (units db)"

subsection \<open>The repository\<close>

definition max_revision :: "str \<Rightarrow> str \<Rightarrow> work_db \<Rightarrow> int" where
  "max_revision org i db = fold (\<lambda>v m. if rv_org v = org \<and> rv_id v = i then max m (rv_revision v) else m) (revisions db) 0"

definition insert_revision :: "platform \<Rightarrow> str \<Rightarrow> work_unit \<Rightarrow> time \<Rightarrow> int \<Rightarrow> work_db \<Rightarrow> work_db result" where
  "insert_revision pf org w ts n db =
     raise_if (\<exists>v\<in>set (revisions db). rv_org v = org \<and> rv_id v = wu_id w \<and> rv_revision v = n) IntegrityError
       (Inr (db\<lparr>revisions := revisions db @
          [\<lparr>rv_org = org, rv_id = wu_id w, rv_revision = n, rv_payload = serialize_payload pf w, rv_recorded_at = ts\<rparr>]\<rparr>))"

definition append_revision :: "platform \<Rightarrow> str \<Rightarrow> work_unit \<Rightarrow> time \<Rightarrow> work_db \<Rightarrow> work_db result" where
  "append_revision pf org w ts db = insert_revision pf org w ts (max_revision org (wu_id w) db + 1) db"

definition add_unit :: "platform \<Rightarrow> str \<Rightarrow> work_unit \<Rightarrow> work_db \<Rightarrow> work_db result" where
  "add_unit pf org w db =
     raise_if (get_unit_row org (wu_id w) db \<noteq> None) WorkUnitConflictError
       (insert_revision pf org w (wu_updated_at w) 1 (db\<lparr>units := units db @ [to_model pf org w]\<rparr>))"

definition get_unit :: "platform \<Rightarrow> str \<Rightarrow> str \<Rightarrow> work_db \<Rightarrow> work_unit option result" where
  "get_unit pf org i db =
     (case get_unit_row org i db of None \<Rightarrow> Inr None | Some r \<Rightarrow> bind_res (from_model pf r) (\<lambda>w. Inr (Some w)))"

text \<open>
  \<open>update\<close> assigns every column of the row object and flushes: a column is written when it
  was assigned another value than was read, and \<open>lease\<close> also when it was assigned the SQL
  \<open>NULL\<close>.  \<open>seen\<close> is the row as the session read it.
\<close>

definition written_json :: "work_unit_row \<Rightarrow> work_unit_row \<Rightarrow> work_unit_row \<Rightarrow> (work_unit_row \<Rightarrow> json option) \<Rightarrow> json option" where
  "written_json seen new cur f = (if null_or id (f new) \<noteq> null_or id (f seen) then f new else f cur)"

definition flush_unit :: "work_unit_row \<Rightarrow> work_unit_row \<Rightarrow> work_unit_row \<Rightarrow> work_unit_row" where
  "flush_unit seen new cur =
     cur\<lparr>wr_title := written seen new cur wr_title, wr_state := written seen new cur wr_state,
         wr_capability := written seen new cur wr_capability, wr_depends_on := written seen new cur wr_depends_on,
         wr_snapshot := written seen new cur wr_snapshot, wr_base_version := written_json seen new cur wr_base_version,
         wr_allowed_resources := written seen new cur wr_allowed_resources,
         wr_acceptance_refs := written seen new cur wr_acceptance_refs,
         wr_delivered := written_json seen new cur wr_delivered, wr_claimed_by := written seen new cur wr_claimed_by,
         wr_lease := (if wr_lease new = None then None else written seen new cur wr_lease),
         wr_previous_worker := written seen new cur wr_previous_worker,
         wr_rework_attempts := written seen new cur wr_rework_attempts,
         wr_created_at := written seen new cur wr_created_at, wr_updated_at := written seen new cur wr_updated_at\<rparr>"

definition update_seen :: "platform \<Rightarrow> str \<Rightarrow> work_unit \<Rightarrow> time \<Rightarrow> work_unit_row \<Rightarrow> work_db \<Rightarrow> work_db result" where
  "update_seen pf org w now seen db =
     (let new = to_model pf org w
      in raise_if ((wr_lease new = None \<or> flush_unit seen new seen \<noteq> seen) \<and> get_unit_row org (wu_id w) db = None) StaleDataError
           (append_revision pf org w now
              (db\<lparr>units := map (\<lambda>x. if unit_key x = (org, wu_id w) then flush_unit seen new x else x) (units db)\<rparr>)))"

definition update_unit :: "platform \<Rightarrow> str \<Rightarrow> work_unit \<Rightarrow> time \<Rightarrow> work_db \<Rightarrow> work_db result" where
  "update_unit pf org w now db =
     (case get_unit_row org (wu_id w) db of
        None \<Rightarrow> Inl WorkUnitPersistenceError
      | Some r \<Rightarrow> update_seen pf org w now r db)"

definition list_for_organization :: "platform \<Rightarrow> str \<Rightarrow> work_db \<Rightarrow> work_unit list result" where
  "list_for_organization pf org db = seq_res (map (from_model pf) (filter (\<lambda>r. wr_org r = org) (units db)))"

definition list_history :: "platform \<Rightarrow> str \<Rightarrow> str \<Rightarrow> work_db \<Rightarrow> work_unit list result" where
  "list_history pf org i db = seq_res (map (\<lambda>v. from_payload pf (rv_payload v))
     (sort_key rv_revision (filter (\<lambda>v. rv_org v = org \<and> rv_id v = i) (revisions db))))"

subsection \<open>Service objects\<close>

record work_service =
  ws_org :: str
  ws_lease_seconds :: int

definition new_claim_service :: "str \<Rightarrow> int \<Rightarrow> work_service result" where
  "new_claim_service org lease =
     raise_if (lease < 1) ValueError
     (raise_if (strip org = [] \<or> length (strip org) > 128) ValueError (Inr \<lparr>ws_org = strip org, ws_lease_seconds = lease\<rparr>))"

definition new_lease_service :: "str \<Rightarrow> int \<Rightarrow> work_service result" where
  "new_lease_service org lease =
     raise_if (lease < 1) ValueError
     (raise_if (strip org = [] \<or> length (strip org) > 128) ValueError (Inr \<lparr>ws_org = strip org, ws_lease_seconds = lease\<rparr>))"

definition new_review_service :: "str \<Rightarrow> int \<Rightarrow> work_service result" where
  "new_review_service org lease =
     raise_if (lease < 1) ValueError
     (raise_if (strip org = [] \<or> length (strip org) > 128) ValueError (Inr \<lparr>ws_org = strip org, ws_lease_seconds = lease\<rparr>))"

text \<open>\<open>UPDATE work_units SET f WHERE P\<close>, by its row count: the update, or \<open>None\<close> for a lost race.\<close>

definition cas_units :: "(work_unit_row \<Rightarrow> bool) \<Rightarrow> (work_unit_row \<Rightarrow> work_unit_row) \<Rightarrow> work_db \<Rightarrow> work_db option" where
  "cas_units P f db =
     (if length (filter P (units db)) = 1
      then Some (db\<lparr>units := map (\<lambda>r. if P r then f r else r) (units db)\<rparr>) else None)"

text \<open>The end of every transition: compare-and-set, then the revision; \<open>None\<close> is a lost race.\<close>

definition cas_and_record ::
  "platform \<Rightarrow> str \<Rightarrow> (work_unit_row \<Rightarrow> bool) \<Rightarrow> (work_unit_row \<Rightarrow> work_unit_row) \<Rightarrow> work_unit \<Rightarrow> time \<Rightarrow> work_db
     \<Rightarrow> (work_unit \<times> work_db) option result" where
  "cas_and_record pf org P f w now db =
     (case cas_units P f db of
        None \<Rightarrow> Inr None
      | Some db' \<Rightarrow> bind_res (append_revision pf org w now db') (\<lambda>db''. Inr (Some (w, db''))))"

text \<open>A fresh lease from now on; the sum may leave the range of \<open>datetime\<close>.\<close>

definition fresh_lease :: "work_service \<Rightarrow> str \<Rightarrow> str \<Rightarrow> time \<Rightarrow> time \<Rightarrow> worker_lease result" where
  "fresh_lease sv uuid worker from now =
     raise_if (\<not> datetime_range (now + seconds (ws_lease_seconds sv))) OverflowError
       (new_worker_lease uuid worker (Aware from) (Aware (now + seconds (ws_lease_seconds sv))))"

subsection \<open>The loop over candidates\<close>

text \<open>
  The three claiming services go over their candidate rows in order: \<open>pick\<close> decodes a row
  and decides whether to try it, \<open>attempt\<close> is the compare-and-set.  A lost race goes on
  with the next candidate and makes the pass contested; a contested pass without success
  is repeated, up to a hundred times.
\<close>

fun try_candidates ::
  "(work_unit_row \<Rightarrow> 'c option result) \<Rightarrow> (nat \<Rightarrow> work_unit_row \<Rightarrow> 'c \<Rightarrow> work_db \<Rightarrow> (work_unit \<times> work_db) option result)
     \<Rightarrow> (nat \<Rightarrow> work_db \<Rightarrow> work_db) \<Rightarrow> nat \<Rightarrow> bool \<Rightarrow> work_unit_row list \<Rightarrow> work_db
     \<Rightarrow> (work_unit option \<times> bool) result \<times> work_db" where
  "try_candidates pick attempt env i contested [] db = (Inr (None, contested), db)"
| "try_candidates pick attempt env i contested (r # rs) db =
     (case pick r of
        Inl e \<Rightarrow> (Inl e, db)
      | Inr None \<Rightarrow> try_candidates pick attempt env (Suc i) contested rs db
      | Inr (Some c) \<Rightarrow>
          (case attempt i r c (env i db) of
             Inl e \<Rightarrow> (Inl e, env i db)
           | Inr None \<Rightarrow> try_candidates pick attempt env (Suc i) True rs (env i db)
           | Inr (Some (w, db')) \<Rightarrow> (Inr (Some w, False), db')))"

fun retry_passes ::
  "nat \<Rightarrow> exn \<Rightarrow> (nat \<Rightarrow> work_db \<Rightarrow> (work_unit option \<times> bool) result \<times> work_db) \<Rightarrow> work_db
     \<Rightarrow> work_unit option result \<times> work_db" where
  "retry_passes 0 give_up pass db = (Inl give_up, db)"
| "retry_passes (Suc n) give_up pass db =
     (case pass n db of
        (Inl e, db') \<Rightarrow> (Inl e, db')
      | (Inr (Some w, _), db') \<Rightarrow> (Inr (Some w), db')
      | (Inr (None, False), db') \<Rightarrow> (Inr None, db')
      | (Inr (None, True), db') \<Rightarrow> retry_passes n give_up pass db')"

text \<open>One pass: select the candidate rows (which may raise), then go over them.\<close>

definition run_pass ::
  "(nat \<Rightarrow> work_db \<Rightarrow> work_unit_row list result) \<Rightarrow> (nat \<Rightarrow> work_db \<Rightarrow> work_unit_row \<Rightarrow> 'c option result)
     \<Rightarrow> (nat \<Rightarrow> nat \<Rightarrow> work_unit_row \<Rightarrow> 'c \<Rightarrow> work_db \<Rightarrow> (work_unit \<times> work_db) option result)
     \<Rightarrow> (nat \<Rightarrow> nat \<Rightarrow> work_db \<Rightarrow> work_db) \<Rightarrow> nat \<Rightarrow> work_db \<Rightarrow> (work_unit option \<times> bool) result \<times> work_db" where
  "run_pass rows pick attempt env n db =
     (case rows n db of
        Inl e \<Rightarrow> (Inl e, db)
      | Inr rs \<Rightarrow> try_candidates (pick n db) (attempt n) (env n) 0 False rs db)"

subsection \<open>Claims (\<open>work_queue.py\<close>)\<close>

definition pending_candidates :: "work_service \<Rightarrow> work_db \<Rightarrow> work_unit_row list" where
  "pending_candidates sv db = sort_key (\<lambda>r. (wr_created_at r, wr_id r))
     (filter (\<lambda>r. wr_org r = ws_org sv \<and> wr_state r = ''PENDING'') (units db))"

definition load_dependencies :: "platform \<Rightarrow> work_service \<Rightarrow> work_unit \<Rightarrow> work_db \<Rightarrow> (str \<Rightarrow> work_unit option) result" where
  "load_dependencies pf sv c db =
     (if depends_on c = [] then Inr (\<lambda>_. None)
      else let rows = filter (\<lambda>r. wr_org r = ws_org sv \<and> wr_id r \<in> set (depends_on c)) (units db)
           in bind_res (seq_res (map (from_model pf) rows)) (\<lambda>ws. Inr (map_of (zip (map wr_id rows) ws))))"

fun approved_snapshot :: "str list \<Rightarrow> (str \<Rightarrow> work_unit option) \<Rightarrow> dependency_version_binding list option result" where
  "approved_snapshot [] deps = Inr (Some [])"
| "approved_snapshot (i # is) deps =
     (case deps i of
        None \<Rightarrow> Inr None
      | Some d \<Rightarrow>
          (case (if wu_id d = i \<and> wu_state d = WU_APPROVED then delivered_artifact_version d else None) of
             None \<Rightarrow> Inr None
           | Some v \<Rightarrow>
               bind_res (new_binding (wu_id d) v) (\<lambda>b.
               bind_res (approved_snapshot is deps) (\<lambda>bs. Inr (map_option ((#) b) bs)))))"

definition claim_pick ::
  "platform \<Rightarrow> work_service \<Rightarrow> capability list \<Rightarrow> work_db \<Rightarrow> work_unit_row
     \<Rightarrow> (work_unit \<times> dependency_version_binding list) option result" where
  "claim_pick pf sv caps db r =
     bind_res (from_model pf r) (\<lambda>c.
       if \<not> is_worker_eligible c caps then Inr None
       else bind_res (load_dependencies pf sv c db) (\<lambda>deps.
              if \<not> is_ready c deps then Inr None
              else bind_res (approved_snapshot (depends_on c) deps) (\<lambda>snap. Inr (map_option (Pair c) snap))))"

definition cas_claim ::
  "platform \<Rightarrow> work_service \<Rightarrow> str \<Rightarrow> time \<Rightarrow> str \<Rightarrow> work_unit \<times> dependency_version_binding list \<Rightarrow> work_db
     \<Rightarrow> (work_unit \<times> work_db) option result" where
  "cas_claim pf sv worker now uuid cs db =
     (let c = fst cs; snap = snd cs
      in bind_res (fresh_lease sv uuid worker now now) (\<lambda>lease.
         case cas_units (\<lambda>r. wr_org r = ws_org sv \<and> wr_id r = wu_id c \<and> wr_state r = ''PENDING''
                              \<and> wr_claimed_by r = None \<and> wr_lease r = None)
                (\<lambda>r. r\<lparr>wr_state := ''CLAIMED'', wr_claimed_by := Some worker, wr_lease := Some (lease_payload pf lease),
                       wr_snapshot := JArr (map binding_payload snap), wr_updated_at := now\<rparr>) db of
           None \<Rightarrow> Inr None
         | Some db' \<Rightarrow>
             bind_res (check_work_unit (c\<lparr>wu_state := WU_CLAIMED, depends_on_snapshot := snap, claimed_by := Some worker,
                                          wu_lease := Some lease, wu_updated_at := now\<rparr>)) (\<lambda>w.
             bind_res (append_revision pf (ws_org sv) w now db') (\<lambda>db''. Inr (Some (w, db''))))))"

text \<open>
  \<open>clock\<close>, \<open>uuids\<close> and \<open>env\<close> take the number of the pass and of the candidate.
\<close>

definition claim_next_ready ::
  "platform \<Rightarrow> work_service \<Rightarrow> str \<Rightarrow> capability list \<Rightarrow> (nat \<Rightarrow> nat \<Rightarrow> time) \<Rightarrow> (nat \<Rightarrow> nat \<Rightarrow> str)
     \<Rightarrow> (nat \<Rightarrow> nat \<Rightarrow> work_db \<Rightarrow> work_db) \<Rightarrow> work_db \<Rightarrow> work_unit option result \<times> work_db" where
  "claim_next_ready pf sv worker caps clock uuids env db =
     (if blank worker then (Inl ValueError, db)
      else retry_passes 100 WorkUnitClaimError
             (run_pass (\<lambda>_ db. Inr (pending_candidates sv db)) (\<lambda>_. claim_pick pf sv caps)
                (\<lambda>n i r. cas_claim pf sv worker (clock n i) (uuids n i)) env) db)"

definition claim_ready ::
  "platform \<Rightarrow> work_service \<Rightarrow> str \<Rightarrow> str \<Rightarrow> capability list \<Rightarrow> (nat \<Rightarrow> nat \<Rightarrow> time) \<Rightarrow> (nat \<Rightarrow> nat \<Rightarrow> str)
     \<Rightarrow> (nat \<Rightarrow> nat \<Rightarrow> work_db \<Rightarrow> work_db) \<Rightarrow> work_db \<Rightarrow> work_unit option result \<times> work_db" where
  "claim_ready pf sv i worker caps clock uuids env db =
     (if blank i then (Inl ValueError, db)
      else if blank worker then (Inl ValueError, db)
      else retry_passes 100 WorkUnitClaimError
             (run_pass (\<lambda>_ db. Inr (take 1 (filter (\<lambda>r. wr_id r = i) (pending_candidates sv db)))) (\<lambda>_. claim_pick pf sv caps)
                (\<lambda>n i r. cas_claim pf sv worker (clock n i) (uuids n i)) env) db)"

subsection \<open>Leases (\<open>work_queue_lease.py\<close>)\<close>

text \<open>\<open>_cas_projection\<close>: the row still has the state and the time stamp that were read.\<close>

definition same_projection :: "work_service \<Rightarrow> work_unit_row \<Rightarrow> work_unit_row \<Rightarrow> bool" where
  "same_projection sv seen r \<longleftrightarrow> wr_org r = ws_org sv \<and> wr_id r = wr_id seen \<and> wr_state r = wr_state seen
     \<and> wr_updated_at r = wr_updated_at seen"

definition lease_valid_for :: "work_unit \<Rightarrow> str \<Rightarrow> str \<Rightarrow> time \<Rightarrow> bool" where
  "lease_valid_for c worker lease now \<longleftrightarrow> wu_state c = WU_CLAIMED \<and> claimed_by c = Some worker
     \<and> (case wu_lease c of
          None \<Rightarrow> False
        | Some l \<Rightarrow> wl_worker_id l = worker \<and> wl_lease_id l = lease \<and> now < wl_expires_at l)"

text \<open>The result of a transition in the caller's terms: the unit or \<open>None\<close>, and the tables after it.\<close>

definition finish :: "(work_unit \<times> work_db) option result \<Rightarrow> work_db \<Rightarrow> work_unit option result \<times> work_db" where
  "finish m db =
     (case m of
        Inl e \<Rightarrow> (Inl e, db)
      | Inr None \<Rightarrow> (Inr None, db)
      | Inr (Some (w, db')) \<Rightarrow> (Inr (Some w), db'))"

definition lease_heartbeat ::
  "platform \<Rightarrow> work_service \<Rightarrow> str \<Rightarrow> str \<Rightarrow> str \<Rightarrow> time \<Rightarrow> (work_db \<Rightarrow> work_db) \<Rightarrow> work_db
     \<Rightarrow> work_unit option result \<times> work_db" where
  "lease_heartbeat pf sv i worker lease now env db =
     (if blank i \<or> blank worker \<or> blank lease then (Inl ValueError, db)
      else case get_unit_row (ws_org sv) i db of
             None \<Rightarrow> (Inr None, db)
           | Some r \<Rightarrow>
               finish (bind_res (from_model pf r) (\<lambda>c.
                 if \<not> lease_valid_for c worker lease now then Inr None
                 else let l = the (wu_lease c)
                      in bind_res (fresh_lease sv (wl_lease_id l) worker (claimed_at l) now) (\<lambda>renewed.
                         bind_res (check_work_unit (c\<lparr>wu_lease := Some renewed, wu_updated_at := now\<rparr>)) (\<lambda>w.
                           cas_and_record pf (ws_org sv) (same_projection sv r)
                             (\<lambda>x. x\<lparr>wr_lease := Some (lease_payload pf renewed), wr_updated_at := now\<rparr>) w now (env db))))) (env db))"

definition recover_pick :: "platform \<Rightarrow> capability list \<Rightarrow> time \<Rightarrow> work_unit_row \<Rightarrow> work_unit option result" where
  "recover_pick pf caps now r =
     bind_res (from_model pf r) (\<lambda>c.
       case wu_lease c of
         None \<Rightarrow> Inr None
       | Some l \<Rightarrow> if wl_expires_at l > now \<or> \<not> is_worker_eligible c caps then Inr None else Inr (Some c))"

definition recover_one ::
  "platform \<Rightarrow> work_service \<Rightarrow> str \<Rightarrow> time \<Rightarrow> str \<Rightarrow> work_unit_row \<Rightarrow> work_unit \<Rightarrow> work_db
     \<Rightarrow> (work_unit \<times> work_db) option result" where
  "recover_one pf sv worker now uuid r c db =
     bind_res (fresh_lease sv uuid worker now now) (\<lambda>lease.
     bind_res (check_work_unit (c\<lparr>claimed_by := Some worker, wu_lease := Some lease, previous_worker := claimed_by c,
                                  wu_updated_at := now\<rparr>)) (\<lambda>w.
       cas_and_record pf (ws_org sv) (same_projection sv r)
         (\<lambda>x. x\<lparr>wr_claimed_by := Some worker, wr_lease := Some (lease_payload pf lease), wr_previous_worker := claimed_by c,
                wr_updated_at := now\<rparr>) w now db))"

definition claimed_candidates :: "work_service \<Rightarrow> work_db \<Rightarrow> work_unit_row list" where
  "claimed_candidates sv db = sort_key (\<lambda>r. (wr_updated_at r, wr_id r))
     (filter (\<lambda>r. wr_org r = ws_org sv \<and> wr_state r = ''CLAIMED'') (units db))"

definition recover_next_expired ::
  "platform \<Rightarrow> work_service \<Rightarrow> str \<Rightarrow> capability list \<Rightarrow> (nat \<Rightarrow> time) \<Rightarrow> (nat \<Rightarrow> nat \<Rightarrow> str)
     \<Rightarrow> (nat \<Rightarrow> nat \<Rightarrow> work_db \<Rightarrow> work_db) \<Rightarrow> work_db \<Rightarrow> work_unit option result \<times> work_db" where
  "recover_next_expired pf sv worker caps clock uuids env db =
     (if blank worker then (Inl ValueError, db)
      else retry_passes 100 WorkQueueLeaseError
             (run_pass (\<lambda>_ db. Inr (claimed_candidates sv db)) (\<lambda>n _. recover_pick pf caps (clock n))
                (\<lambda>n i. recover_one pf sv worker (clock n) (uuids n i)) env) db)"

definition submit_for_review ::
  "platform \<Rightarrow> work_service \<Rightarrow> str \<Rightarrow> str \<Rightarrow> str \<Rightarrow> immutable_version_ref \<Rightarrow> time \<Rightarrow> (work_db \<Rightarrow> work_db) \<Rightarrow> work_db
     \<Rightarrow> work_unit option result \<times> work_db" where
  "submit_for_review pf sv i worker lease artifact now env db =
     (if blank i \<or> blank worker \<or> blank lease then (Inl ValueError, db)
      else case get_unit_row (ws_org sv) i db of
             None \<Rightarrow> (Inr None, db)
           | Some r \<Rightarrow>
               finish (bind_res (from_model pf r) (\<lambda>c.
                 if \<not> lease_valid_for c worker lease now then Inr None
                 else bind_res (check_work_unit (c\<lparr>wu_state := WU_AWAITING_REVIEW,
                        delivered_artifact_version := Some artifact, previous_worker := Some worker, claimed_by := None,
                        wu_lease := None, wu_updated_at := now\<rparr>)) (\<lambda>w.
                      cas_and_record pf (ws_org sv) (same_projection sv r)
                        (\<lambda>x. x\<lparr>wr_state := ''AWAITING_REVIEW'', wr_delivered := Some (version_payload artifact),
                               wr_previous_worker := Some worker, wr_claimed_by := None, wr_lease := None,
                               wr_updated_at := now\<rparr>) w now (env db)))) (env db))"

subsection \<open>Review and rework (\<open>work_queue_review.py\<close>)\<close>

definition review_unit ::
  "platform \<Rightarrow> work_service \<Rightarrow> str \<Rightarrow> str \<Rightarrow> immutable_version_ref \<Rightarrow> work_unit_state \<Rightarrow> time \<Rightarrow> (work_db \<Rightarrow> work_db)
     \<Rightarrow> work_db \<Rightarrow> work_unit option result \<times> work_db" where
  "review_unit pf sv i reviewer artifact verdict now env db =
     (if blank i \<or> blank reviewer then (Inl ValueError, db)
      else if verdict \<notin> {WU_APPROVED, WU_REJECTED} then (Inl ValueError, db)
      else case get_unit_row (ws_org sv) i db of
             None \<Rightarrow> (Inr None, db)
           | Some r \<Rightarrow>
               finish (bind_res (from_model pf r) (\<lambda>c.
                 if wu_state c \<noteq> WU_AWAITING_REVIEW \<or> delivered_artifact_version c \<noteq> Some artifact
                    \<or> claimed_by c \<noteq> None \<or> wu_lease c \<noteq> None then Inr None
                 else if previous_worker c = Some reviewer then Inr None
                 else bind_res (check_work_unit (c\<lparr>wu_state := verdict, wu_updated_at := now\<rparr>)) (\<lambda>w.
                      cas_and_record pf (ws_org sv)
                        (\<lambda>x. wr_org x = ws_org sv \<and> wr_id x = i \<and> wr_state x = ''AWAITING_REVIEW''
                             \<and> wr_updated_at x = wr_updated_at r)
                        (\<lambda>x. x\<lparr>wr_state := wu_state_name verdict, wr_updated_at := now\<rparr>) w now (env db)))) (env db))"

definition approve ::
  "platform \<Rightarrow> work_service \<Rightarrow> str \<Rightarrow> str \<Rightarrow> immutable_version_ref \<Rightarrow> time \<Rightarrow> (work_db \<Rightarrow> work_db) \<Rightarrow> work_db
     \<Rightarrow> work_unit option result \<times> work_db" where
  "approve pf sv i reviewer artifact now env db = review_unit pf sv i reviewer artifact WU_APPROVED now env db"

definition reject ::
  "platform \<Rightarrow> work_service \<Rightarrow> str \<Rightarrow> str \<Rightarrow> immutable_version_ref \<Rightarrow> time \<Rightarrow> (work_db \<Rightarrow> work_db) \<Rightarrow> work_db
     \<Rightarrow> work_unit option result \<times> work_db" where
  "reject pf sv i reviewer artifact now env db = review_unit pf sv i reviewer artifact WU_REJECTED now env db"

definition rework_pick :: "platform \<Rightarrow> capability list \<Rightarrow> str \<Rightarrow> bool \<Rightarrow> work_unit_row \<Rightarrow> work_unit option result" where
  "rework_pick pf caps worker override r =
     bind_res (from_model pf r) (\<lambda>c.
       if \<not> is_worker_eligible c caps then Inr None
       else if rework_attempts c = 0 \<and> \<not> falsy_opt (previous_worker c) \<and> previous_worker c \<noteq> Some worker \<and> \<not> override
       then Inr None
       else Inr (Some c))"

definition rework_claim_one ::
  "platform \<Rightarrow> work_service \<Rightarrow> str \<Rightarrow> time \<Rightarrow> str \<Rightarrow> work_unit_row \<Rightarrow> work_unit \<Rightarrow> work_db
     \<Rightarrow> (work_unit \<times> work_db) option result" where
  "rework_claim_one pf sv worker now uuid r c db =
     bind_res (fresh_lease sv uuid worker now now) (\<lambda>lease.
     bind_res (check_work_unit (c\<lparr>wu_state := WU_CLAIMED, claimed_by := Some worker, wu_lease := Some lease,
        delivered_artifact_version := None, rework_attempts := rework_attempts c + 1, wu_updated_at := now\<rparr>)) (\<lambda>w.
       cas_and_record pf (ws_org sv)
         (\<lambda>x. wr_org x = ws_org sv \<and> wr_id x = wu_id c \<and> wr_state x = ''REJECTED'' \<and> wr_updated_at x = wr_updated_at r)
         (\<lambda>x. x\<lparr>wr_state := ''CLAIMED'', wr_claimed_by := Some worker, wr_lease := Some (lease_payload pf lease),
                wr_delivered := None, wr_rework_attempts := rework_attempts c + 1, wr_updated_at := now\<rparr>) w now db))"

definition rejected_candidates :: "work_service \<Rightarrow> work_db \<Rightarrow> work_unit_row list" where
  "rejected_candidates sv db = sort_key (\<lambda>r. (wr_updated_at r, wr_id r))
     (filter (\<lambda>r. wr_org r = ws_org sv \<and> wr_state r = ''REJECTED'') (units db))"

definition claim_rework ::
  "platform \<Rightarrow> work_service \<Rightarrow> str \<Rightarrow> capability list \<Rightarrow> bool \<Rightarrow> (nat \<Rightarrow> time) \<Rightarrow> (nat \<Rightarrow> nat \<Rightarrow> str)
     \<Rightarrow> (nat \<Rightarrow> nat \<Rightarrow> work_db \<Rightarrow> work_db) \<Rightarrow> work_db \<Rightarrow> work_unit option result \<times> work_db" where
  "claim_rework pf sv worker caps override clock uuids env db =
     (if blank worker then (Inl ValueError, db)
      else retry_passes 100 WorkQueueReviewError
             (run_pass (\<lambda>_ db. Inr (rejected_candidates sv db)) (\<lambda>_ _. rework_pick pf caps worker override)
                (\<lambda>n i. rework_claim_one pf sv worker (clock n) (uuids n i)) env) db)"

subsection \<open>Rows and the units they hold\<close>

definition norm_row :: "work_unit_row \<Rightarrow> work_unit_row" where
  "norm_row r = r\<lparr>wr_base_version := Some (null_or id (wr_base_version r)), wr_delivered := Some (null_or id (wr_delivered r))\<rparr>"

definition represents :: "platform \<Rightarrow> work_unit_row \<Rightarrow> work_unit \<Rightarrow> bool" where
  "represents pf r w \<longleftrightarrow> valid_work_unit w \<and> norm_row r = to_model pf (wr_org r) w"

lemma from_model_norm: "from_model pf (norm_row r) = from_model pf r"
  by (simp add: from_model_def norm_row_def)

lemma represents_read: "represents pf r w \<Longrightarrow> iso_inverse pf \<Longrightarrow> from_model pf r = Inr w"
  using from_payload_serialize [of w pf] from_model_payload [of pf "wr_org r" w] from_model_norm [of pf r]
  by (simp add: represents_def)

lemma represents_iff:
  "represents pf r w \<longleftrightarrow> valid_work_unit w \<and> wr_id r = wu_id w \<and> wr_title r = wu_title w
     \<and> wr_state r = wu_state_name (wu_state w) \<and> wr_capability r = capability_payload (required_capability w)
     \<and> wr_depends_on r = jstrs (depends_on w) \<and> wr_snapshot r = JArr (map binding_payload (depends_on_snapshot w))
     \<and> null_or id (wr_base_version r) = null_or version_payload (base_version w)
     \<and> wr_allowed_resources r = jstrs (allowed_resources w) \<and> wr_acceptance_refs r = jstrs (acceptance_refs w)
     \<and> null_or id (wr_delivered r) = null_or version_payload (delivered_artifact_version w)
     \<and> wr_claimed_by r = claimed_by w \<and> wr_lease r = map_option (lease_payload pf) (wu_lease w)
     \<and> wr_previous_worker r = previous_worker w \<and> wr_rework_attempts r = rework_attempts w
     \<and> wr_created_at r = wu_created_at w \<and> wr_updated_at r = wu_updated_at w"
  by (cases r) (auto simp: represents_def norm_row_def to_model_def)

lemma represents_state: "represents pf r w \<Longrightarrow> wr_state r = wu_state_name st \<longleftrightarrow> wu_state w = st"
  by (simp add: represents_iff)

lemma represents_to_model: "valid_work_unit w \<Longrightarrow> represents pf (to_model pf org w) w"
  by (simp add: represents_iff to_model_def)

subsection \<open>One transition\<close>

lemma length_filter_one:
  assumes "distinct (map k xs)" "x \<in> set xs" "P x" "\<And>y. P y \<Longrightarrow> k y = k x"
  shows "length (filter P xs) = 1" "\<And>y. y \<in> set xs \<Longrightarrow> P y \<longleftrightarrow> k y = k x"
proof -
  have inj: "y = z" if "y \<in> set xs" "z \<in> set xs" "k y = k z" for y z
    using assms(1) that by (meson distinct_map inj_onD)
  show eq: "P y \<longleftrightarrow> k y = k x" if "y \<in> set xs" for y
    using inj [OF that assms(2)] assms(3,4) by blast
  have "filter P xs = filter (\<lambda>y. y = x) xs"
    by (rule filter_cong [OF refl]) (use eq inj [OF _ assms(2)] in blast)
  moreover have "distinct xs" using assms(1) by (simp add: distinct_map)
  ultimately show "length (filter P xs) = 1"
    using assms(2) by (simp add: distinct_length_filter)
qed

definition revision_of :: "platform \<Rightarrow> str \<Rightarrow> work_unit \<Rightarrow> time \<Rightarrow> work_db \<Rightarrow> revision_row" where
  "revision_of pf org w now db = \<lparr>rv_org = org, rv_id = wu_id w, rv_revision = max_revision org (wu_id w) db + 1,
     rv_payload = serialize_payload pf w, rv_recorded_at = now\<rparr>"

definition transition :: "platform \<Rightarrow> str \<Rightarrow> work_unit \<Rightarrow> work_unit \<Rightarrow> time \<Rightarrow> work_db \<Rightarrow> work_db \<Rightarrow> bool" where
  "transition pf org w w' now db db' \<longleftrightarrow>
     (\<exists>r r'. r \<in> set (units db) \<and> wr_org r = org \<and> represents pf r w \<and> represents pf r' w' \<and> unit_key r' = unit_key r
        \<and> units db' = map (\<lambda>x. if unit_key x = unit_key r then r' else x) (units db)
        \<and> revisions db' = revisions db @ [revision_of pf org w' now db])"

lemma fold_max_ge: "m \<le> fold (\<lambda>v m. if P v then max m (f v) else m) vs (m :: int)"
proof (induction vs arbitrary: m)
  case (Cons a vs)
  have "m \<le> max m (f a)" by simp
  also have "\<dots> \<le> fold (\<lambda>v m. if P v then max m (f v) else m) vs (max m (f a))" by (rule Cons.IH)
  finally show ?case using Cons.IH [of m] by simp
qed simp

lemma fold_max_mem: "v \<in> set vs \<Longrightarrow> P v \<Longrightarrow> (f v :: int) \<le> fold (\<lambda>v m. if P v then max m (f v) else m) vs m"
proof (induction vs arbitrary: m)
  case (Cons a vs)
  have "f v \<le> max m (f v)" by simp
  also have "\<dots> \<le> fold (\<lambda>v m. if P v then max m (f v) else m) vs (max m (f v))" by (rule fold_max_ge)
  finally show ?case using Cons by auto
qed simp

lemma max_revision_ge: "v \<in> set (revisions db) \<Longrightarrow> rv_org v = org \<Longrightarrow> rv_id v = i \<Longrightarrow> rv_revision v \<le> max_revision org i db"
  unfolding max_revision_def by (rule fold_max_mem) auto

lemma append_revision_total:
  "append_revision pf org w now db = Inr (db\<lparr>revisions := revisions db @ [revision_of pf org w now db]\<rparr>)"
  unfolding append_revision_def insert_revision_def revision_of_def
  by (auto simp: raise_if_def dest: max_revision_ge)

lemma max_revision_append:
  "max_revision org i (db\<lparr>units := us, revisions := revisions db @ [v]\<rparr>) =
     (if rv_org v = org \<and> rv_id v = i then max (max_revision org i db) (rv_revision v) else max_revision org i db)"
  by (simp add: max_revision_def)

lemma max_revision_units [simp]: "max_revision org i (db\<lparr>units := us\<rparr>) = max_revision org i db"
  by (simp add: max_revision_def)

lemma cas_transition:
  assumes "distinct (map unit_key (units db))" "r \<in> set (units db)" "represents pf r w" "P r"
    and "\<And>x. P x \<Longrightarrow> unit_key x = unit_key r" "represents pf (f r) w'" "unit_key (f r) = unit_key r" "wu_id w' = wu_id w"
    and "cas_units P f db = Some db1" "append_revision pf (wr_org r) w' now db1 = Inr db2"
  shows "transition pf (wr_org r) w w' now db db2"
proof -
  note P = length_filter_one(2) [where k = unit_key and P = P, OF assms(1,2,4,5)]
  have inj: "x = r" if "x \<in> set (units db)" "unit_key x = unit_key r" for x
    using assms(1,2) that by (meson distinct_map inj_onD)
  have u: "units db1 = map (\<lambda>x. if unit_key x = unit_key r then f r else x) (units db)"
  proof -
    have "units db1 = map (\<lambda>x. if P x then f x else x) (units db)"
      using assms(9) by (auto simp: cas_units_def split: if_splits)
    also have "\<dots> = map (\<lambda>x. if unit_key x = unit_key r then f r else x) (units db)"
      by (rule map_cong [OF refl]) (use P inj in metis)
    finally show ?thesis .
  qed
  have "revisions db1 = revisions db" "max_revision (wr_org r) (wu_id w') db1 = max_revision (wr_org r) (wu_id w') db"
    using assms(9) by (auto simp: cas_units_def split: if_splits)
  with assms(10) have d2: "units db2 = units db1" "revisions db2 = revisions db @ [revision_of pf (wr_org r) w' now db]"
    by (auto simp: append_revision_total revision_of_def)
  show ?thesis unfolding transition_def
    by (rule exI [of _ r], rule exI [of _ "f r"]) (use assms(2,3,6,7) u d2 in simp)
qed

lemma cas_and_record_Inr:
  "cas_and_record pf org P f w now db = Inr (Some (w', db')) \<longleftrightarrow>
     w' = w \<and> (\<exists>db1. cas_units P f db = Some db1 \<and> append_revision pf org w now db1 = Inr db')"
  by (auto simp: cas_and_record_def bind_res_Inr_iff split: option.splits)

lemma fresh_lease_Inr:
  "fresh_lease sv u wk t0 now = Inr l \<longleftrightarrow>
     l = \<lparr>wl_lease_id = u, wl_worker_id = wk, claimed_at = t0, wl_expires_at = now + seconds (ws_lease_seconds sv)\<rparr>
     \<and> canonical_text u \<and> canonical_text wk \<and> t0 < now + seconds (ws_lease_seconds sv)
     \<and> datetime_range (now + seconds (ws_lease_seconds sv))"
  by (auto simp: fresh_lease_def new_worker_lease_def require_canonical_text_def require_utc_datetime_def bind_res_Inr_iff)

subsection \<open>The invariant of the tables\<close>

definition unit_inv :: "work_unit \<Rightarrow> bool" where
  "unit_inv w \<longleftrightarrow> (wu_state w = WU_CLAIMED \<longleftrightarrow> wu_lease w \<noteq> None) \<and> claimed_by w = map_option wl_worker_id (wu_lease w)
     \<and> (wu_state w \<in> {WU_AWAITING_REVIEW, WU_REJECTED, WU_APPROVED} \<longrightarrow>
          delivered_artifact_version w \<noteq> None \<and> previous_worker w \<noteq> None)"

text \<open>A unit that has been started has every dependency approved, in the version it was started with.\<close>

definition deps_approved :: "platform \<Rightarrow> work_db \<Rightarrow> str \<Rightarrow> work_unit \<Rightarrow> bool" where
  "deps_approved pf db org w \<longleftrightarrow> map bind_work_unit_id (depends_on_snapshot w) = depends_on w
     \<and> (\<forall>b\<in>set (depends_on_snapshot w). \<exists>r d. r \<in> set (units db) \<and> wr_org r = org \<and> represents pf r d
          \<and> wu_id d = bind_work_unit_id b \<and> wu_state d = WU_APPROVED \<and> delivered_artifact_version d = Some (bind_version b))"

definition current_revision :: "platform \<Rightarrow> work_db \<Rightarrow> str \<Rightarrow> work_unit \<Rightarrow> bool" where
  "current_revision pf db org w \<longleftrightarrow> (\<exists>v\<in>set (revisions db). rv_org v = org \<and> rv_id v = wu_id w
     \<and> rv_revision v = max_revision org (wu_id w) db \<and> rv_payload v = serialize_payload pf w)"

definition db_ok :: "platform \<Rightarrow> work_db \<Rightarrow> bool" where
  "db_ok pf db \<longleftrightarrow> distinct (map unit_key (units db))
     \<and> (\<forall>v\<in>set (revisions db). (rv_org v, rv_id v) \<in> unit_key ` set (units db))
     \<and> (\<forall>r\<in>set (units db). \<exists>w. represents pf r w \<and> unit_inv w
          \<and> (wu_state w \<noteq> WU_PENDING \<longrightarrow> deps_approved pf db (wr_org r) w) \<and> current_revision pf db (wr_org r) w)"

lemma db_okE:
  assumes "db_ok pf db" "r \<in> set (units db)" "represents pf r w" "iso_inverse pf"
  shows "unit_inv w" "wu_state w \<noteq> WU_PENDING \<Longrightarrow> deps_approved pf db (wr_org r) w" "current_revision pf db (wr_org r) w"
proof -
  obtain w' where w': "represents pf r w'" "unit_inv w'" "wu_state w' \<noteq> WU_PENDING \<longrightarrow> deps_approved pf db (wr_org r) w'"
    "current_revision pf db (wr_org r) w'"
    using assms(1,2) by (auto simp: db_ok_def)
  have "w' = w" using represents_read [OF w'(1) assms(4)] represents_read [OF assms(3,4)] by simp
  with w' show "unit_inv w" "wu_state w \<noteq> WU_PENDING \<Longrightarrow> deps_approved pf db (wr_org r) w" "current_revision pf db (wr_org r) w"
    by simp_all
qed

text \<open>
  A transition keeps the invariant when the unit was not approved before and the new unit
  meets its own conditions.
\<close>

lemma transition_ok:
  assumes "db_ok pf db" "transition pf org w w' now db db'" "iso_inverse pf" "wu_state w \<noteq> WU_APPROVED" "unit_inv w'"
    and "wu_state w' \<noteq> WU_PENDING \<longrightarrow> deps_approved pf db org w'" "wu_id w' = wu_id w"
  shows "db_ok pf db'"
proof -
  obtain r r' where r: "r \<in> set (units db)" "wr_org r = org" "represents pf r w" "represents pf r' w'" "unit_key r' = unit_key r"
    and us: "units db' = map (\<lambda>x. if unit_key x = unit_key r then r' else x) (units db)"
    and rv: "revisions db' = revisions db @ [revision_of pf org w' now db]"
    using assms(2) by (auto simp: transition_def)
  have inj: "x = r" if "x \<in> set (units db)" "unit_key x = unit_key r" for x
    using assms(1) r(1) that by (auto simp: db_ok_def distinct_map inj_on_def)
  have keys: "map unit_key (units db') = map unit_key (units db)" unfolding us map_map comp_def using r(5) by auto
  then have d: "distinct (map unit_key (units db'))" using assms(1) by (simp add: db_ok_def)
  from arg_cong [where f = set, OF keys] have "unit_key ` set (units db') = unit_key ` set (units db)" by simp
  moreover have "(org, wu_id w') \<in> unit_key ` set (units db)" using r(1,2,3) assms(7) by (force simp: represents_iff)
  ultimately have rk: "\<forall>v\<in>set (revisions db'). (rv_org v, rv_id v) \<in> unit_key ` set (units db')"
    using assms(1) by (auto simp: rv revision_of_def db_ok_def)
  have max: "max_revision o' i db' = (if o' = org \<and> i = wu_id w' then max_revision o' i db + 1 else max_revision o' i db)" for o' i
    unfolding max_revision_def rv by (auto simp: revision_of_def max_revision_def)
  have keep: "x \<in> set (units db')" if "x \<in> set (units db)" "x \<noteq> r" for x
    using that inj us by (force simp: image_iff)
  have deps: "deps_approved pf db' o' u" if "deps_approved pf db o' u" for o' u
    unfolding deps_approved_def
  proof (intro conjI ballI)
    show "map bind_work_unit_id (depends_on_snapshot u) = depends_on u" using that by (simp add: deps_approved_def)
    fix b assume "b \<in> set (depends_on_snapshot u)"
    with that obtain x dx where x: "x \<in> set (units db)" "wr_org x = o'" "represents pf x dx" "wu_id dx = bind_work_unit_id b"
      "wu_state dx = WU_APPROVED" "delivered_artifact_version dx = Some (bind_version b)"
      by (auto simp: deps_approved_def)
    have "x \<noteq> r"
      using represents_read [OF x(3) assms(3)] represents_read [OF r(3) assms(3)] x(5) assms(4) by auto
    from keep [OF x(1) this] x show "\<exists>r d. r \<in> set (units db') \<and> wr_org r = o' \<and> represents pf r d
        \<and> wu_id d = bind_work_unit_id b \<and> wu_state d = WU_APPROVED \<and> delivered_artifact_version d = Some (bind_version b)"
      by blast
  qed
  have "\<exists>w. represents pf x w \<and> unit_inv w \<and> (wu_state w \<noteq> WU_PENDING \<longrightarrow> deps_approved pf db' (wr_org x) w)
      \<and> current_revision pf db' (wr_org x) w" if x: "x \<in> set (units db')" for x
  proof (cases "x = r'")
    case True
    have "current_revision pf db' org w'"
      unfolding current_revision_def max rv by (auto simp: revision_of_def)
    with True r(2,4,5) assms(5,6) deps show ?thesis by (intro exI [of _ w']) auto
  next
    case False
    with x us have x0: "x \<in> set (units db)" "unit_key x \<noteq> unit_key r" by auto
    then obtain u where u: "represents pf x u" "unit_inv u" "wu_state u \<noteq> WU_PENDING \<longrightarrow> deps_approved pf db (wr_org x) u"
      "current_revision pf db (wr_org x) u"
      using assms(1) by (auto simp: db_ok_def)
    have "\<not> (wr_org x = org \<and> wu_id u = wu_id w')"
      using x0(2) u(1) r(2,3) assms(7) by (auto simp: represents_iff)
    then have "current_revision pf db' (wr_org x) u"
      using u(4) unfolding current_revision_def max rv by auto
    with u deps show ?thesis by blast
  qed
  with d rk show ?thesis by (simp add: db_ok_def)
qed

subsection \<open>What each service does\<close>

text \<open>Without other clients: a pass that does not succeed leaves the tables alone.\<close>

lemma try_candidates_id:
  assumes "try_candidates pick attempt env i cont rs db = (res, db')" "\<And>i d. env i d = d"
  shows "(\<exists>w b j r c. res = Inr (Some w, b) \<and> r \<in> set rs \<and> pick r = Inr (Some c) \<and> attempt j r c db = Inr (Some (w, db')))
    \<or> (db' = db \<and> (\<forall>w b. res \<noteq> Inr (Some w, b)))"
  using assms(1)
proof (induction rs arbitrary: i cont)
  case (Cons r rs)
  have e: "env i db = db" by (rule assms(2))
  show ?case
  proof (cases "pick r")
    case (Inr co)
    show ?thesis
    proof (cases co)
      case None
      with Cons.prems Inr have "try_candidates pick attempt env (Suc i) cont rs db = (res, db')" by (simp add: e)
      from Cons.IH [OF this] show ?thesis unfolding list.set by blast
    next
      case (Some c)
      show ?thesis
      proof (cases "attempt i r c db")
        case (Inr ao)
        show ?thesis
        proof (cases ao)
          case None
          with Cons.prems Inr Some \<open>pick r = Inr co\<close>
          have "try_candidates pick attempt env (Suc i) True rs db = (res, db')" by (simp add: e)
          from Cons.IH [OF this] show ?thesis unfolding list.set by blast
        next
          case (Some x)
          with Cons.prems Inr \<open>co = Some c\<close> \<open>pick r = Inr co\<close>
          have "res = Inr (Some (fst x), False)" "db' = snd x" by (auto simp: e split: prod.splits)
          with Inr Some \<open>co = Some c\<close> \<open>pick r = Inr co\<close> show ?thesis by (cases x) auto
        qed
      qed (use Cons.prems Inr Some e in auto)
    qed
  qed (use Cons.prems in auto)
qed auto

lemma retry_passes_id:
  assumes "retry_passes n e pass db = (res, db')"
    and "\<And>m r db1. pass m db = (r, db1) \<Longrightarrow> (\<exists>w b. r = Inr (Some w, b)) \<or> db1 = db"
  shows "(\<exists>w m b. res = Inr (Some w) \<and> pass m db = (Inr (Some w, b), db')) \<or> (db' = db \<and> (\<forall>w. res \<noteq> Inr (Some w)))"
  using assms(1)
proof (induction n)
  case (Suc n)
  obtain r db1 where p: "pass n db = (r, db1)" by fastforce
  show ?case
  proof (cases r)
    case (Inl e')
    with Suc p assms(2) [OF p] show ?thesis by auto
  next
    case (Inr x)
    obtain wo b where x: "x = (wo, b)" by fastforce
    from Suc.prems have "db1 = db \<or> wo \<noteq> None" using assms(2) [OF p] Inr x by auto
    with Suc p Inr x show ?thesis by (cases wo; cases b) auto
  qed
qed auto

lemma run_pass_id:
  assumes "run_pass rows pick attempt (\<lambda>_ _. id) n db = (res, db')"
  shows "(\<exists>w b j r rs c. res = Inr (Some w, b) \<and> rows n db = Inr rs \<and> r \<in> set rs \<and> pick n db r = Inr (Some c)
      \<and> attempt n j r c db = Inr (Some (w, db'))) \<or> (db' = db \<and> (\<forall>w b. res \<noteq> Inr (Some w, b)))"
proof (cases "rows n db")
  case (Inr rs)
  with assms have t: "try_candidates (pick n db) (attempt n) (\<lambda>_. id) 0 False rs db = (res, db')" by (simp add: run_pass_def)
  from try_candidates_id [OF t id_apply] Inr show ?thesis by blast
qed (use assms in \<open>auto simp: run_pass_def\<close>)

text \<open>
  What the claiming services have in common: when every successful attempt is an instance
  of \<open>step\<close>, so is every successful call, and any other call leaves the tables alone.
\<close>

locale candidate_service =
  fixes pf :: platform
    and rows :: "nat \<Rightarrow> work_db \<Rightarrow> work_unit_row list result"
    and pick :: "nat \<Rightarrow> work_db \<Rightarrow> work_unit_row \<Rightarrow> 'c option result"
    and attempt :: "nat \<Rightarrow> nat \<Rightarrow> work_unit_row \<Rightarrow> 'c \<Rightarrow> work_db \<Rightarrow> (work_unit \<times> work_db) option result"
    and step :: "work_db \<Rightarrow> work_unit \<Rightarrow> work_db \<Rightarrow> bool"
  assumes attempt_step: "db_ok pf db \<Longrightarrow> iso_inverse pf \<Longrightarrow> rows m db = Inr rs \<Longrightarrow> r \<in> set rs \<Longrightarrow> pick m db r = Inr (Some c) \<Longrightarrow>
    attempt m j r c db = Inr (Some (w, db')) \<Longrightarrow> step db w db'"
begin

lemma call_step:
  assumes "db_ok pf db" "iso_inverse pf" "retry_passes n e (run_pass rows pick attempt (\<lambda>_ _. id)) db = (res, db')"
  shows "(db' = db \<and> (\<forall>w. res \<noteq> Inr (Some w))) \<or> (\<exists>w. res = Inr (Some w) \<and> step db w db')"
proof -
  have "(\<exists>w m b. res = Inr (Some w) \<and> run_pass rows pick attempt (\<lambda>_ _. id) m db = (Inr (Some w, b), db'))
      \<or> (db' = db \<and> (\<forall>w. res \<noteq> Inr (Some w)))"
    by (rule retry_passes_id [OF assms(3)]) (use run_pass_id in fast)
  then show ?thesis using run_pass_id attempt_step [OF assms(1,2)] by blast
qed

end

text \<open>The unit after each transition, given the unit before.\<close>

definition leased_by :: "str \<Rightarrow> str \<Rightarrow> worker_lease \<Rightarrow> bool" where
  "leased_by wk u l \<longleftrightarrow> wl_worker_id l = wk \<and> wl_lease_id l = u \<and> valid_lease l"

lemma fresh_lease_by: "fresh_lease sv u wk t0 now = Inr l \<Longrightarrow> datetime_range t0 \<Longrightarrow> leased_by wk u l"
  by (auto simp: fresh_lease_Inr leased_by_def valid_lease_def)

lemma finish_cases:
  assumes "finish m db = (res, db')"
  shows "(\<exists>w. m = Inr (Some (w, db')) \<and> res = Inr (Some w)) \<or> (db' = db \<and> (\<forall>w. res \<noteq> Inr (Some w)))"
  using assms by (auto simp: finish_def split: sum.splits option.splits)

lemma get_unit_row_Some: "get_unit_row org i db = Some r \<Longrightarrow> r \<in> set (units db) \<and> wr_org r = org \<and> wr_id r = i"
  by (auto simp: get_unit_row_def find_Some_iff)

lemma db_ok_row: "db_ok pf db \<Longrightarrow> r \<in> set (units db) \<Longrightarrow> \<exists>w. represents pf r w"
  by (auto simp: db_ok_def)

lemma same_projection_refl: "wr_org r = ws_org sv \<Longrightarrow> same_projection sv r r"
  by (simp add: same_projection_def)

lemma same_projection_key: "wr_org r = ws_org sv \<Longrightarrow> same_projection sv r x \<Longrightarrow> unit_key x = unit_key r"
  by (simp add: same_projection_def)

lemma valid_change:
  assumes "valid_work_unit w" "check_work_unit w' = Inr w''" "datetime_range (wu_updated_at w')"
    and "required_capability w' = required_capability w" "base_version w' = base_version w"
    and "wu_created_at w' = wu_created_at w"
    and "\<forall>v. delivered_artifact_version w' = Some v \<longrightarrow> valid_version v"
    and "\<forall>b\<in>set (depends_on_snapshot w'). canonical_text (bind_work_unit_id b) \<and> valid_version (bind_version b)"
    and "\<forall>l. wu_lease w' = Some l \<longrightarrow> valid_lease l"
  shows "w'' = w' \<and> valid_work_unit w'"
proof -
  have "w'' = w'" using assms(2) by (simp add: check_work_unit_Inr)
  with assms show ?thesis by (auto simp: valid_work_unit_def)
qed

lemma record_transition:
  assumes "db_ok pf db" "r \<in> set (units db)" "represents pf r w" "wr_org r = org" "P r"
    and "\<And>x. P x \<Longrightarrow> unit_key x = unit_key r" "represents pf (f r) w'" "unit_key (f r) = unit_key r" "wu_id w' = wu_id w"
    and "cas_and_record pf org P f w' now db = Inr (Some (w'', db'))"
  shows "transition pf org w w' now db db'"
proof -
  from assms(10) obtain db1 where c: "cas_units P f db = Some db1" "append_revision pf (wr_org r) w' now db1 = Inr db'"
    by (auto simp: cas_and_record_Inr assms(4))
  have "distinct (map unit_key (units db))" using assms(1) by (simp add: db_ok_def)
  from cas_transition [where P = P, OF this assms(2,3,5,6,7,8,9) c] assms(4) show ?thesis by simp
qed

lemma heartbeat_effect:
  assumes "db_ok pf db" "iso_inverse pf" "datetime_range now" "lease_heartbeat pf sv i wk l now id db = (res, db')"
  shows "(db' = db \<and> (\<forall>w. res \<noteq> Inr (Some w)))
    \<or> (\<exists>w x. transition pf (ws_org sv) w (w\<lparr>wu_lease := Some x, wu_updated_at := now\<rparr>) now db db'
         \<and> lease_valid_for w wk l now \<and> leased_by wk l x)"
proof (cases "\<exists>w. res = Inr (Some w)")
  case True
  then obtain w' where w': "res = Inr (Some w')" ..
  with assms(4) obtain r where g: "get_unit_row (ws_org sv) i db = Some r"
    by (auto simp: lease_heartbeat_def split: if_splits option.splits)
  note r = get_unit_row_Some [OF g]
  obtain w where w: "represents pf r w" using db_ok_row [OF assms(1)] r by blast
  note rd = represents_read [OF w assms(2)]
  from assms(4) w' g rd obtain x where lv: "lease_valid_for w wk l now"
    and x: "fresh_lease sv (wl_lease_id (the (wu_lease w))) wk (claimed_at (the (wu_lease w))) now = Inr x"
    and ck: "check_work_unit (w\<lparr>wu_lease := Some x, wu_updated_at := now\<rparr>) = Inr w'"
    and cr: "cas_and_record pf (ws_org sv) (same_projection sv r)
       (\<lambda>y. y\<lparr>wr_lease := Some (lease_payload pf x), wr_updated_at := now\<rparr>) w' now db = Inr (Some (w', db'))"
    by (auto simp: lease_heartbeat_def Let_def bind_res_Inr_iff cas_and_record_Inr dest!: finish_cases split: if_splits)
  from w have v: "valid_work_unit w" by (simp add: represents_iff)
  from lv v have lid: "wl_lease_id (the (wu_lease w)) = l" "datetime_range (claimed_at (the (wu_lease w)))"
    by (auto simp: lease_valid_for_def valid_work_unit_def valid_lease_def split: option.splits)
  have lx: "leased_by wk l x" using fresh_lease_by [OF x] lid by simp
  have w'eq: "w' = w\<lparr>wu_lease := Some x, wu_updated_at := now\<rparr> \<and> valid_work_unit (w\<lparr>wu_lease := Some x, wu_updated_at := now\<rparr>)"
    by (rule valid_change [OF v ck]) (use v lx assms(3) in \<open>simp_all add: valid_work_unit_def leased_by_def\<close>)
  have "transition pf (ws_org sv) w w' now db db'"
    by (rule record_transition [OF assms(1) _ w _ _ _ _ _ _ cr])
       (use r w w'eq in \<open>auto simp: same_projection_def represents_iff\<close>)
  with r lv lx w'eq show ?thesis by auto
qed (use assms(4) in \<open>auto simp: lease_heartbeat_def dest!: finish_cases split: if_splits option.splits\<close>)

lemma submit_effect:
  assumes "db_ok pf db" "iso_inverse pf" "datetime_range now" "valid_version a"
    "submit_for_review pf sv i wk l a now id db = (res, db')"
  shows "(db' = db \<and> (\<forall>w. res \<noteq> Inr (Some w)))
    \<or> (\<exists>w w'. res = Inr (Some w') \<and> transition pf (ws_org sv) w w' now db db' \<and> lease_valid_for w wk l now \<and> wu_id w = i
         \<and> w' = w\<lparr>wu_state := WU_AWAITING_REVIEW, delivered_artifact_version := Some a, previous_worker := Some wk,
                  claimed_by := None, wu_lease := None, wu_updated_at := now\<rparr>)"
proof (cases "\<exists>w. res = Inr (Some w)")
  case True
  then obtain w' where w': "res = Inr (Some w')" ..
  with assms(5) obtain r where g: "get_unit_row (ws_org sv) i db = Some r"
    by (auto simp: submit_for_review_def split: if_splits option.splits)
  note r = get_unit_row_Some [OF g]
  obtain w where w: "represents pf r w" using db_ok_row [OF assms(1)] r by blast
  let ?w = "w\<lparr>wu_state := WU_AWAITING_REVIEW, delivered_artifact_version := Some a, previous_worker := Some wk,
       claimed_by := None, wu_lease := None, wu_updated_at := now\<rparr>"
  from assms(5) w' g represents_read [OF w assms(2)] have lv: "lease_valid_for w wk l now"
    and ck: "check_work_unit ?w = Inr w'"
    and cr: "cas_and_record pf (ws_org sv) (same_projection sv r)
       (\<lambda>x. x\<lparr>wr_state := ''AWAITING_REVIEW'', wr_delivered := Some (version_payload a), wr_previous_worker := Some wk,
              wr_claimed_by := None, wr_lease := None, wr_updated_at := now\<rparr>) w' now db = Inr (Some (w', db'))"
    by (auto simp: submit_for_review_def bind_res_Inr_iff cas_and_record_Inr dest!: finish_cases split: if_splits)
  from w have v: "valid_work_unit w" by (simp add: represents_iff)
  have w'eq: "w' = ?w \<and> valid_work_unit ?w"
    by (rule valid_change [OF v ck]) (use v assms(3,4) in \<open>simp_all add: valid_work_unit_def\<close>)
  have "transition pf (ws_org sv) w w' now db db'"
    by (rule record_transition [OF assms(1) _ w _ _ _ _ _ _ cr])
       (use r w w'eq in \<open>auto simp: same_projection_def represents_iff null_or_def\<close>)
  moreover have "wu_id w = i" using r w by (simp add: represents_iff)
  ultimately show ?thesis using lv w' w'eq by auto
qed (use assms(5) in \<open>auto simp: submit_for_review_def dest!: finish_cases split: if_splits option.splits\<close>)

lemma review_effect:
  assumes "db_ok pf db" "iso_inverse pf" "datetime_range now" "review_unit pf sv i rv a verdict now id db = (res, db')"
  shows "(db' = db \<and> (\<forall>w. res \<noteq> Inr (Some w)))
    \<or> (\<exists>w w'. res = Inr (Some w') \<and> transition pf (ws_org sv) w w' now db db' \<and> wu_id w = i \<and> wu_state w = WU_AWAITING_REVIEW
         \<and> delivered_artifact_version w = Some a \<and> previous_worker w \<noteq> Some rv \<and> verdict \<in> {WU_APPROVED, WU_REJECTED}
         \<and> w' = w\<lparr>wu_state := verdict, wu_updated_at := now\<rparr>)"
proof (cases "\<exists>w. res = Inr (Some w)")
  case True
  then obtain w' where w': "res = Inr (Some w')" ..
  with assms(4) obtain r where g: "get_unit_row (ws_org sv) i db = Some r" and vd: "verdict \<in> {WU_APPROVED, WU_REJECTED}"
    by (auto simp: review_unit_def split: if_splits option.splits)
  note r = get_unit_row_Some [OF g]
  obtain w where w: "represents pf r w" using db_ok_row [OF assms(1)] r by blast
  let ?w = "w\<lparr>wu_state := verdict, wu_updated_at := now\<rparr>"
  from assms(4) w' g represents_read [OF w assms(2)]
  have st: "wu_state w = WU_AWAITING_REVIEW" "delivered_artifact_version w = Some a" "previous_worker w \<noteq> Some rv"
    and ck: "check_work_unit ?w = Inr w'"
    and cr: "cas_and_record pf (ws_org sv) (\<lambda>x. wr_org x = ws_org sv \<and> wr_id x = i \<and> wr_state x = ''AWAITING_REVIEW''
         \<and> wr_updated_at x = wr_updated_at r)
       (\<lambda>x. x\<lparr>wr_state := wu_state_name verdict, wr_updated_at := now\<rparr>) w' now db = Inr (Some (w', db'))"
    by (auto simp: review_unit_def bind_res_Inr_iff cas_and_record_Inr dest!: finish_cases split: if_splits)
  from w have v: "valid_work_unit w" by (simp add: represents_iff)
  have w'eq: "w' = ?w \<and> valid_work_unit ?w"
    by (rule valid_change [OF v ck]) (use v assms(3) in \<open>simp_all add: valid_work_unit_def\<close>)
  have "transition pf (ws_org sv) w w' now db db'"
    by (rule record_transition [OF assms(1) _ w _ _ _ _ _ _ cr])
       (use r w w'eq st in \<open>auto simp: represents_iff\<close>)
  moreover have "wu_id w = i" using r w by (simp add: represents_iff)
  ultimately show ?thesis using st vd w' w'eq by auto
qed (use assms(4) in \<open>auto simp: review_unit_def dest!: finish_cases split: if_splits option.splits\<close>)

definition recovers :: "platform \<Rightarrow> work_service \<Rightarrow> str \<Rightarrow> (nat \<Rightarrow> time) \<Rightarrow> (nat \<Rightarrow> nat \<Rightarrow> str) \<Rightarrow> work_db \<Rightarrow> work_unit \<Rightarrow> work_db \<Rightarrow> bool" where
  "recovers pf sv wk clock uuids db w' db' \<longleftrightarrow>
     (\<exists>w x m j. transition pf (ws_org sv) w w' (clock m) db db' \<and> wu_state w = WU_CLAIMED
        \<and> w' = w\<lparr>claimed_by := Some wk, wu_lease := Some x, previous_worker := claimed_by w, wu_updated_at := clock m\<rparr>
        \<and> wl_expires_at (the (wu_lease w)) \<le> clock m \<and> leased_by wk (uuids m j) x)"

lemma recover_one_effect:
  assumes "db_ok pf db" "iso_inverse pf" "datetime_range (clock m)" "r \<in> set (claimed_candidates sv db)"
    and "recover_pick pf caps (clock m) r = Inr (Some c)" "recover_one pf sv wk (clock m) (uuids m j) r c db = Inr (Some (w', db'))"
  shows "recovers pf sv wk clock uuids db w' db'"
proof -
  have r': "r \<in> set (units db)" "wr_org r = ws_org sv" "wr_state r = ''CLAIMED''" using assms(4) by (auto simp: claimed_candidates_def)
  obtain w where w: "represents pf r w" using db_ok_row [OF assms(1)] r' by blast
  from assms(5) represents_read [OF w assms(2)] have c: "c = w" "wl_expires_at (the (wu_lease w)) \<le> clock m"
    by (auto simp: recover_pick_def split: option.splits if_splits)
  from assms(6) obtain x where x: "fresh_lease sv (uuids m j) wk (clock m) (clock m) = Inr x"
    and ck: "check_work_unit (w\<lparr>claimed_by := Some wk, wu_lease := Some x, previous_worker := claimed_by w, wu_updated_at := clock m\<rparr>) = Inr w'"
    and cr: "cas_and_record pf (ws_org sv) (same_projection sv r)
       (\<lambda>y. y\<lparr>wr_claimed_by := Some wk, wr_lease := Some (lease_payload pf x), wr_previous_worker := claimed_by w,
              wr_updated_at := clock m\<rparr>) w' (clock m) db = Inr (Some (w', db'))"
    unfolding c(1) by (auto simp: recover_one_def bind_res_Inr_iff cas_and_record_Inr)
  have lx: "leased_by wk (uuids m j) x" using fresh_lease_by [OF x assms(3)] .
  from w have v: "valid_work_unit w" by (simp add: represents_iff)
  have w'eq: "w' = w\<lparr>claimed_by := Some wk, wu_lease := Some x, previous_worker := claimed_by w, wu_updated_at := clock m\<rparr>
      \<and> valid_work_unit (w\<lparr>claimed_by := Some wk, wu_lease := Some x, previous_worker := claimed_by w, wu_updated_at := clock m\<rparr>)"
    by (rule valid_change [OF v ck]) (use v lx assms(3) in \<open>simp_all add: valid_work_unit_def leased_by_def\<close>)
  have "transition pf (ws_org sv) w w' (clock m) db db'"
    by (rule record_transition [OF assms(1) _ w _ _ _ _ _ _ cr])
       (use r' w w'eq in \<open>auto simp: same_projection_def represents_iff\<close>)
  moreover have "wu_state w = WU_CLAIMED" using r'(3) represents_state [OF w, of WU_CLAIMED] by simp
  ultimately show ?thesis using c lx w'eq unfolding recovers_def by blast
qed

interpretation recovery: candidate_service pf "\<lambda>_ db. Inr (claimed_candidates sv db)" "\<lambda>n _. recover_pick pf caps (clock n)"
    "\<lambda>n i. recover_one pf sv wk (clock n) (uuids n i)"
    "\<lambda>db w' db'. (\<forall>n. datetime_range (clock n)) \<longrightarrow> recovers pf sv wk clock uuids db w' db'"
  for pf sv caps clock wk uuids
  by unfold_locales (use recover_one_effect in blast)

lemma recover_effect:
  assumes "db_ok pf db" "iso_inverse pf" "\<And>n. datetime_range (clock n)"
    "recover_next_expired pf sv wk caps clock uuids (\<lambda>_ _. id) db = (res, db')"
  shows "(db' = db \<and> (\<forall>w. res \<noteq> Inr (Some w))) \<or> (\<exists>w'. res = Inr (Some w') \<and> recovers pf sv wk clock uuids db w' db')"
proof (cases "blank wk")
  case False
  from recovery.call_step [OF assms(1,2) assms(4) [unfolded recover_next_expired_def if_not_P [OF False]]] assms(3) show ?thesis by blast
qed (use assms(4) in \<open>auto simp: recover_next_expired_def\<close>)

definition reworks :: "platform \<Rightarrow> work_service \<Rightarrow> str \<Rightarrow> work_db \<Rightarrow> work_db \<Rightarrow> bool" where
  "reworks pf sv wk db db' \<longleftrightarrow>
     (\<exists>w x now u. transition pf (ws_org sv) w (w\<lparr>wu_state := WU_CLAIMED, claimed_by := Some wk, wu_lease := Some x,
         delivered_artifact_version := None, rework_attempts := rework_attempts w + 1, wu_updated_at := now\<rparr>) now db db'
         \<and> wu_state w = WU_REJECTED \<and> leased_by wk u x)"

lemma rework_one_effect:
  assumes "db_ok pf db" "iso_inverse pf" "datetime_range (clock m)" "r \<in> set (rejected_candidates sv db)"
    and "rework_pick pf caps wk ov r = Inr (Some c)" "rework_claim_one pf sv wk (clock m) (uuids m j) r c db = Inr (Some (w', db'))"
  shows "reworks pf sv wk db db'"
proof -
  have r': "r \<in> set (units db)" "wr_org r = ws_org sv" "wr_state r = ''REJECTED''" using assms(4) by (auto simp: rejected_candidates_def)
  obtain w where w: "represents pf r w" using db_ok_row [OF assms(1)] r' by blast
  let ?w = "\<lambda>x. w\<lparr>wu_state := WU_CLAIMED, claimed_by := Some wk, wu_lease := Some x,
       delivered_artifact_version := None, rework_attempts := rework_attempts w + 1, wu_updated_at := clock m\<rparr>"
  from assms(5) represents_read [OF w assms(2)] have c: "c = w"
    by (auto simp: rework_pick_def split: if_splits)
  from assms(6) obtain x where x: "fresh_lease sv (uuids m j) wk (clock m) (clock m) = Inr x"
    and ck: "check_work_unit (?w x) = Inr w'"
    and cr: "cas_and_record pf (ws_org sv) (\<lambda>y. wr_org y = ws_org sv \<and> wr_id y = wu_id w \<and> wr_state y = ''REJECTED''
         \<and> wr_updated_at y = wr_updated_at r)
       (\<lambda>y. y\<lparr>wr_state := ''CLAIMED'', wr_claimed_by := Some wk, wr_lease := Some (lease_payload pf x), wr_delivered := None,
              wr_rework_attempts := rework_attempts w + 1, wr_updated_at := clock m\<rparr>) w' (clock m) db = Inr (Some (w', db'))"
    unfolding c by (auto simp: rework_claim_one_def bind_res_Inr_iff cas_and_record_Inr)
  have lx: "leased_by wk (uuids m j) x" using fresh_lease_by [OF x assms(3)] .
  from w have v: "valid_work_unit w" by (simp add: represents_iff)
  have w'eq: "w' = ?w x \<and> valid_work_unit (?w x)"
    by (rule valid_change [OF v ck]) (use v lx assms(3) in \<open>simp_all add: valid_work_unit_def leased_by_def\<close>)
  have "transition pf (ws_org sv) w w' (clock m) db db'"
    by (rule record_transition [OF assms(1) _ w _ _ _ _ _ _ cr])
       (use r' w w'eq in \<open>auto simp: represents_iff null_or_def\<close>)
  moreover have "wu_state w = WU_REJECTED" using r'(3) represents_state [OF w, of WU_REJECTED] by simp
  ultimately show ?thesis using lx w'eq unfolding reworks_def by auto
qed

interpretation rework: candidate_service pf "\<lambda>_ db. Inr (rejected_candidates sv db)" "\<lambda>_ _. rework_pick pf caps wk ov"
    "\<lambda>n i. rework_claim_one pf sv wk (clock n) (uuids n i)"
    "\<lambda>db w' db'. (\<forall>n. datetime_range (clock n)) \<longrightarrow> reworks pf sv wk db db'"
  for pf sv caps clock wk ov uuids
  by unfold_locales (use rework_one_effect [where clock = clock and uuids = uuids] in blast)

lemma rework_effect:
  assumes "db_ok pf db" "iso_inverse pf" "\<And>n. datetime_range (clock n)"
    "claim_rework pf sv wk caps ov clock uuids (\<lambda>_ _. id) db = (res, db')"
  shows "(db' = db \<and> (\<forall>w. res \<noteq> Inr (Some w))) \<or> reworks pf sv wk db db'"
proof (cases "blank wk")
  case False
  from rework.call_step [OF assms(1,2) assms(4) [unfolded claim_rework_def if_not_P [OF False]]] assms(3) show ?thesis by blast
qed (use assms(4) in \<open>auto simp: claim_rework_def\<close>)

subsection \<open>Claims and dependencies\<close>

lemma approved_snapshot_Inr:
  "approved_snapshot is deps = Inr (Some bs) \<Longrightarrow> map bind_work_unit_id bs = is
     \<and> (\<forall>b\<in>set bs. canonical_text (bind_work_unit_id b) \<and> (\<exists>d. deps (bind_work_unit_id b) = Some d
          \<and> wu_id d = bind_work_unit_id b \<and> wu_state d = WU_APPROVED \<and> delivered_artifact_version d = Some (bind_version b)))"
  by (induction "is" arbitrary: bs)
     (auto simp: bind_res_Inr_iff new_binding_def require_canonical_text_def split: option.splits if_splits)

lemma seq_res_Inr: "seq_res (map f xs) = Inr ys \<Longrightarrow> list_all2 (\<lambda>x y. f x = Inr y) xs ys"
  by (induction xs arbitrary: ys) (auto simp: bind_res_Inr_iff)

lemma load_dependencies_Inr:
  assumes "load_dependencies pf sv c db = Inr deps" "deps i = Some d"
  shows "\<exists>r\<in>set (units db). wr_org r = ws_org sv \<and> wr_id r = i \<and> from_model pf r = Inr d"
proof -
  let ?rows = "filter (\<lambda>r. wr_org r = ws_org sv \<and> wr_id r \<in> set (depends_on c)) (units db)"
  from assms obtain ws where ws: "seq_res (map (from_model pf) ?rows) = Inr ws" "map_of (zip (map wr_id ?rows) ws) i = Some d"
    by (auto simp: load_dependencies_def Let_def bind_res_Inr_iff split: if_splits)
  note l = seq_res_Inr [OF ws(1)]
  have "(i, d) \<in> set (zip (map wr_id ?rows) ws)" using ws(2) by (rule map_of_SomeD)
  then obtain n where "n < length ?rows" "n < length ws" "i = wr_id (?rows ! n)" "d = ws ! n"
    by (auto simp: in_set_zip)
  moreover from this l have "from_model pf (?rows ! n) = Inr d" by (simp add: list_all2_conv_all_nth)
  moreover have "?rows ! n \<in> set ?rows" using \<open>n < length ?rows\<close> by (rule nth_mem)
  ultimately show ?thesis by auto
qed

lemma claim_effect:
  assumes "db_ok pf db" "iso_inverse pf" "datetime_range now" "r \<in> set (pending_candidates sv db)"
    "claim_pick pf sv caps db r = Inr (Some c)" "cas_claim pf sv wk now u c db = Inr (Some (w', db'))"
  shows "\<exists>w x snap. transition pf (ws_org sv) w w' now db db' \<and> wu_state w = WU_PENDING \<and> leased_by wk u x
    \<and> w' = w\<lparr>wu_state := WU_CLAIMED, depends_on_snapshot := snap, claimed_by := Some wk, wu_lease := Some x, wu_updated_at := now\<rparr>
    \<and> deps_approved pf db (ws_org sv) w'"
proof -
  have r: "r \<in> set (units db)" "wr_org r = ws_org sv" "wr_state r = ''PENDING''"
    using assms(4) by (auto simp: pending_candidates_def)
  obtain w where w: "represents pf r w" using db_ok_row [OF assms(1)] r by blast
  from w have v: "valid_work_unit w" by (simp add: represents_iff)
  have st: "wu_state w = WU_PENDING" using r(3) represents_state [OF w, of WU_PENDING] by simp
  from assms(5) represents_read [OF w assms(2)] obtain deps snap where ld: "load_dependencies pf sv w db = Inr deps"
    and sn: "approved_snapshot (depends_on w) deps = Inr (Some snap)" and c: "c = (w, snap)"
    by (auto simp: claim_pick_def bind_res_Inr_iff split: if_splits)
  note snap = approved_snapshot_Inr [OF sn]
  have dep: "\<exists>r d. r \<in> set (units db) \<and> wr_org r = ws_org sv \<and> represents pf r d \<and> wu_id d = bind_work_unit_id b
      \<and> wu_state d = WU_APPROVED \<and> delivered_artifact_version d = Some (bind_version b)" if b: "b \<in> set snap" for b
  proof -
    from snap b obtain d where d: "deps (bind_work_unit_id b) = Some d" "wu_id d = bind_work_unit_id b" "wu_state d = WU_APPROVED"
      "delivered_artifact_version d = Some (bind_version b)" by blast
    from load_dependencies_Inr [OF ld d(1)] obtain x where x: "x \<in> set (units db)" "wr_org x = ws_org sv" "from_model pf x = Inr d"
      by blast
    obtain d' where d': "represents pf x d'" using db_ok_row [OF assms(1) x(1)] by blast
    with represents_read [OF d' assms(2)] x(3) have "represents pf x d" by simp
    with x d show ?thesis by blast
  qed
  let ?w = "\<lambda>x. w\<lparr>wu_state := WU_CLAIMED, depends_on_snapshot := snap, claimed_by := Some wk, wu_lease := Some x, wu_updated_at := now\<rparr>"
  let ?P = "\<lambda>y. wr_org y = ws_org sv \<and> wr_id y = wu_id w \<and> wr_state y = ''PENDING'' \<and> wr_claimed_by y = None \<and> wr_lease y = None"
  let ?f = "\<lambda>x y. y\<lparr>wr_state := ''CLAIMED'', wr_claimed_by := Some wk, wr_lease := Some (lease_payload pf x),
       wr_snapshot := JArr (map binding_payload snap), wr_updated_at := now\<rparr>"
  from assms(6) obtain x db1 where x: "fresh_lease sv u wk now now = Inr x" and cu: "cas_units ?P (?f x) db = Some db1"
    and ck: "check_work_unit (?w x) = Inr w'" and ap: "append_revision pf (wr_org r) w' now db1 = Inr db'"
    by (auto simp: cas_claim_def c Let_def bind_res_Inr_iff r(2) split: option.splits)
  have lx: "leased_by wk u x" using fresh_lease_by [OF x assms(3)] .
  have vs: "\<forall>b\<in>set snap. canonical_text (bind_work_unit_id b) \<and> valid_version (bind_version b)"
    using snap dep by (fastforce simp: represents_iff valid_work_unit_def)
  have w'eq: "w' = ?w x \<and> valid_work_unit (?w x)"
    by (rule valid_change [OF v ck]) (use v lx vs assms(3) in \<open>simp_all add: valid_work_unit_def leased_by_def\<close>)
  have inv: "claimed_by w = None" "wu_lease w = None"
    using db_okE(1) [OF assms(1) r(1) w assms(2)] st by (auto simp: unit_inv_def)
  have "transition pf (wr_org r) w w' now db db'"
    by (rule cas_transition [where P = ?P, OF _ r(1) w _ _ _ _ _ cu ap])
       (use assms(1) r w w'eq inv st in \<open>auto simp: db_ok_def represents_iff\<close>)
  moreover have "deps_approved pf db (ws_org sv) w'"
    using w'eq snap dep by (auto simp: deps_approved_def)
  ultimately show ?thesis using r(2) st lx w'eq by (intro exI [of _ w] exI [of _ x] exI [of _ snap]) simp
qed

subsection \<open>Runs\<close>

text \<open>
  Calls of the services one after the other, by any clients.  A call that submits or
  approves a unit is recorded with the unit, the caller and the artifact.  New units are
  pending and unclaimed; clock readings are datetimes; an artifact is a version reference.
\<close>

datatype wq_event =
    Submitted "str \<times> str" str immutable_version_ref
  | Approved "str \<times> str" str immutable_version_ref

inductive wq_step :: "platform \<Rightarrow> work_db \<Rightarrow> wq_event option \<Rightarrow> work_db \<Rightarrow> bool" for pf where
  wq_add: "add_unit pf org w db = Inr db' \<Longrightarrow> valid_work_unit w \<Longrightarrow> wu_state w = WU_PENDING \<Longrightarrow> wu_lease w = None \<Longrightarrow>
    claimed_by w = None \<Longrightarrow> wq_step pf db None db'"
| wq_claim_next: "claim_next_ready pf sv wk caps clock uuids (\<lambda>_ _. id) db = (res, db') \<Longrightarrow>
    (\<forall>n i. datetime_range (clock n i)) \<Longrightarrow> wq_step pf db None db'"
| wq_claim: "claim_ready pf sv i wk caps clock uuids (\<lambda>_ _. id) db = (res, db') \<Longrightarrow>
    (\<forall>n i. datetime_range (clock n i)) \<Longrightarrow> wq_step pf db None db'"
| wq_heartbeat: "lease_heartbeat pf sv i wk l now id db = (res, db') \<Longrightarrow> datetime_range now \<Longrightarrow> wq_step pf db None db'"
| wq_recover: "recover_next_expired pf sv wk caps rclock uuids (\<lambda>_ _. id) db = (res, db') \<Longrightarrow>
    (\<forall>n. datetime_range (rclock n)) \<Longrightarrow> wq_step pf db None db'"
| wq_submit: "submit_for_review pf sv i wk l a now id db = (Inr (Some w), db') \<Longrightarrow> valid_version a \<Longrightarrow> datetime_range now \<Longrightarrow>
    wq_step pf db (Some (Submitted (ws_org sv, i) wk a)) db'"
| wq_no_submit: "submit_for_review pf sv i wk l a now id db = (res, db') \<Longrightarrow> valid_version a \<Longrightarrow> datetime_range now \<Longrightarrow>
    (\<forall>w. res \<noteq> Inr (Some w)) \<Longrightarrow> wq_step pf db None db'"
| wq_approve: "approve pf sv i rv a now id db = (Inr (Some w), db') \<Longrightarrow> datetime_range now \<Longrightarrow>
    wq_step pf db (Some (Approved (ws_org sv, i) rv a)) db'"
| wq_no_approve: "approve pf sv i rv a now id db = (res, db') \<Longrightarrow> datetime_range now \<Longrightarrow>
    (\<forall>w. res \<noteq> Inr (Some w)) \<Longrightarrow> wq_step pf db None db'"
| wq_reject: "reject pf sv i rv a now id db = (res, db') \<Longrightarrow> datetime_range now \<Longrightarrow> wq_step pf db None db'"
| wq_rework: "claim_rework pf sv wk caps ov rclock uuids (\<lambda>_ _. id) db = (res, db') \<Longrightarrow>
    (\<forall>n. datetime_range (rclock n)) \<Longrightarrow> wq_step pf db None db'"

inductive wq_run :: "platform \<Rightarrow> work_db \<Rightarrow> wq_event list \<Rightarrow> bool" for pf where
  wq_start: "wq_run pf \<lparr>units = [], revisions = []\<rparr> []"
| wq_more: "wq_run pf db hist \<Longrightarrow> wq_step pf db e db' \<Longrightarrow> wq_run pf db' (hist @ (case e of None \<Rightarrow> [] | Some x \<Rightarrow> [x]))"

definition event_ok :: "str \<Rightarrow> work_unit \<Rightarrow> work_unit \<Rightarrow> wq_event option \<Rightarrow> bool" where
  "event_ok org w w' e \<longleftrightarrow>
     (case e of
        None \<Rightarrow> wu_state w' \<noteq> WU_AWAITING_REVIEW
      | Some (Submitted k wk a) \<Rightarrow> k = (org, wu_id w) \<and> previous_worker w' = Some wk \<and> delivered_artifact_version w' = Some a
      | Some (Approved k rv a) \<Rightarrow> k = (org, wu_id w) \<and> wu_state w = WU_AWAITING_REVIEW \<and> wu_state w' = WU_APPROVED
          \<and> delivered_artifact_version w = Some a \<and> previous_worker w \<noteq> Some rv)"

definition unit_step :: "platform \<Rightarrow> work_db \<Rightarrow> wq_event option \<Rightarrow> work_db \<Rightarrow> bool" where
  "unit_step pf db e db' \<longleftrightarrow> (\<exists>org w w' now. transition pf org w w' now db db' \<and> wu_state w \<noteq> WU_APPROVED \<and> unit_inv w'
     \<and> wu_id w' = wu_id w \<and> acceptance_refs w' = acceptance_refs w \<and> wu_state w' \<noteq> WU_PENDING \<and> deps_approved pf db org w'
     \<and> event_ok org w w' e)"

lemma transition_unit:
  assumes "db_ok pf db" "iso_inverse pf" "transition pf org w w' now db db'"
  shows "unit_inv w" "wu_state w \<noteq> WU_PENDING \<Longrightarrow> deps_approved pf db org w"
  using assms db_okE [OF assms(1) _ _ assms(2)] by (auto simp: transition_def)

lemma transition_holds_row:
  assumes "transition pf org w w' now db db'"
  shows "\<exists>r'\<in>set (units db'). wr_org r' = org \<and> represents pf r' w'"
proof -
  obtain r r' where r: "r \<in> set (units db)" "wr_org r = org" "represents pf r' w'" "unit_key r' = unit_key r"
    and us: "units db' = map (\<lambda>x. if unit_key x = unit_key r then r' else x) (units db)"
    using assms by (auto simp: transition_def)
  have "(if unit_key r = unit_key r then r' else r) \<in> set (units db')" unfolding us set_map using r(1) by (rule imageI)
  with r show ?thesis by auto
qed

lemma unit_stepI:
  assumes "db_ok pf db" "iso_inverse pf" "transition pf org w w' now db db'" "wu_state w \<notin> {WU_PENDING, WU_APPROVED}"
    and "unit_inv w \<Longrightarrow> unit_inv w'" "wu_id w' = wu_id w" "acceptance_refs w' = acceptance_refs w" "wu_state w' \<noteq> WU_PENDING"
    and "depends_on w' = depends_on w" "depends_on_snapshot w' = depends_on_snapshot w" "event_ok org w w' e"
  shows "unit_step pf db e db'"
proof -
  note t = transition_unit [OF assms(1,2,3)]
  have "deps_approved pf db org w'" using t(2) assms(4,9,10) by (simp add: deps_approved_def)
  with assms t(1) show ?thesis unfolding unit_step_def by blast
qed

lemma claim_one_step:
  assumes "db_ok pf db" "iso_inverse pf" "datetime_range now" "r \<in> set (pending_candidates sv db)"
    "claim_pick pf sv caps db r = Inr (Some c)" "cas_claim pf sv wk now u c db = Inr (Some (w', db'))"
  shows "unit_step pf db None db'"
proof -
  from claim_effect [OF assms] obtain w x snap where
    t: "transition pf (ws_org sv) w w' now db db'" "wu_state w = WU_PENDING" "leased_by wk u x"
    "w' = w\<lparr>wu_state := WU_CLAIMED, depends_on_snapshot := snap, claimed_by := Some wk, wu_lease := Some x, wu_updated_at := now\<rparr>"
    "deps_approved pf db (ws_org sv) w'" by blast
  show ?thesis unfolding unit_step_def
    by (rule exI [of _ "ws_org sv"], rule exI [of _ w], rule exI [of _ w'], rule exI [of _ now])
       (use t in \<open>simp add: unit_inv_def leased_by_def event_ok_def\<close>)
qed

text \<open>\<open>sel\<close> is what a call keeps of the pending candidates.\<close>

interpretation claims: candidate_service pf "\<lambda>_ db. Inr (sel (pending_candidates sv db))" "\<lambda>_. claim_pick pf sv caps"
    "\<lambda>n i r. cas_claim pf sv wk (clock n i) (uuids n i)"
    "\<lambda>db w' db'. (\<forall>n i. datetime_range (clock n i)) \<longrightarrow> (\<forall>rs. set (sel rs) \<subseteq> set rs) \<longrightarrow> unit_step pf db None db'"
  for pf sv caps clock wk uuids sel
  by unfold_locales (use claim_one_step in blast)

lemma recovers_step: "recovers pf sv wk clock uuids db w' db' \<Longrightarrow> db_ok pf db \<Longrightarrow> iso_inverse pf \<Longrightarrow> unit_step pf db None db'"
  unfolding recovers_def by (elim exE conjE, rule unit_stepI, assumption, assumption, assumption) (auto simp: leased_by_def unit_inv_def event_ok_def)

lemma reworks_step: "reworks pf sv wk db db' \<Longrightarrow> db_ok pf db \<Longrightarrow> iso_inverse pf \<Longrightarrow> unit_step pf db None db'"
  unfolding reworks_def by (elim exE conjE, rule unit_stepI, assumption, assumption, assumption) (auto simp: leased_by_def unit_inv_def event_ok_def)

text \<open>Every call leaves the tables alone, adds a pending unit, or makes one transition.\<close>

lemma wq_step_cases:
  assumes "wq_step pf db e db'" "db_ok pf db" "iso_inverse pf"
  shows "db' = db \<and> e = None \<or> unit_step pf db e db'
    \<or> (\<exists>org w. add_unit pf org w db = Inr db' \<and> valid_work_unit w \<and> wu_state w = WU_PENDING \<and> wu_lease w = None
         \<and> claimed_by w = None \<and> e = None)"
  using assms(1)
proof cases
  case (wq_claim_next sv wk caps clock uuids res)
  show ?thesis
  proof (cases "blank wk")
    case False
    from claims.call_step [where sel = "\<lambda>rs. rs", OF assms(2,3) wq_claim_next(2) [unfolded claim_next_ready_def if_not_P [OF False]]]
      wq_claim_next(1,3) show ?thesis by blast
  qed (use wq_claim_next in \<open>simp add: claim_next_ready_def\<close>)
next
  case (wq_claim sv i wk caps clock uuids res)
  show ?thesis
  proof (cases "blank i \<or> blank wk")
    case False
    then have nb: "\<not> blank i" "\<not> blank wk" by simp_all
    have "set (take 1 (filter (\<lambda>r. wr_id r = i) rs)) \<subseteq> set rs" for rs :: "work_unit_row list" by (auto dest: in_set_takeD)
    with claims.call_step [where sel = "\<lambda>rs. take 1 (filter (\<lambda>r. wr_id r = i) rs)", OF assms(2,3)
        wq_claim(2) [unfolded claim_ready_def if_not_P [OF nb(1)] if_not_P [OF nb(2)]]] wq_claim(1,3) show ?thesis by blast
  qed (use wq_claim in \<open>auto simp: claim_ready_def split: if_splits\<close>)
next
  case (wq_heartbeat sv i wk l now res)
  from heartbeat_effect [OF assms(2,3) wq_heartbeat(3,2)] show ?thesis
  proof (elim disjE exE conjE)
    fix w x assume t: "transition pf (ws_org sv) w (w\<lparr>wu_lease := Some x, wu_updated_at := now\<rparr>) now db db'"
      and "lease_valid_for w wk l now" "leased_by wk l x"
    then have "unit_step pf db None db'"
      by (intro unit_stepI [OF assms(2,3) t]) (auto simp: lease_valid_for_def leased_by_def unit_inv_def event_ok_def)
    with wq_heartbeat show ?thesis by simp
  qed (use wq_heartbeat in simp)
next
  case (wq_recover sv wk caps rclock uuids res)
  from recover_effect [OF assms(2,3) _ wq_recover(2)] wq_recover show ?thesis using recovers_step [OF _ assms(2,3)] by blast
next
  case (wq_submit sv i wk l a now w)
  from submit_effect [OF assms(2,3) wq_submit(4,3,2)] obtain u where
    t: "transition pf (ws_org sv) u (u\<lparr>wu_state := WU_AWAITING_REVIEW, delivered_artifact_version := Some a,
      previous_worker := Some wk, claimed_by := None, wu_lease := None, wu_updated_at := now\<rparr>) now db db'"
    and u: "lease_valid_for u wk l now" "wu_id u = i" by auto
  have "unit_step pf db e db'"
    by (rule unit_stepI [OF assms(2,3) t]) (use u wq_submit(1) in \<open>auto simp: lease_valid_for_def unit_inv_def event_ok_def\<close>)
  then show ?thesis by simp
next
  case (wq_no_submit sv i wk l a now res)
  from submit_effect [OF assms(2,3) wq_no_submit(4,3,2)] wq_no_submit(1,5) show ?thesis by auto
next
  case (wq_approve sv i rv a now w)
  from review_effect [OF assms(2,3) wq_approve(3) wq_approve(2) [unfolded approve_def]] obtain u where
    t: "transition pf (ws_org sv) u (u\<lparr>wu_state := WU_APPROVED, wu_updated_at := now\<rparr>) now db db'"
    and u: "wu_id u = i" "wu_state u = WU_AWAITING_REVIEW" "delivered_artifact_version u = Some a" "previous_worker u \<noteq> Some rv"
    by auto
  have "unit_step pf db e db'"
    by (rule unit_stepI [OF assms(2,3) t]) (use u wq_approve(1) in \<open>auto simp: unit_inv_def event_ok_def\<close>)
  then show ?thesis by simp
next
  case (wq_no_approve sv i rv a now res)
  from review_effect [OF assms(2,3) wq_no_approve(3) wq_no_approve(2) [unfolded approve_def]] wq_no_approve(1,4) show ?thesis by auto
next
  case (wq_reject sv i rv a now res)
  from review_effect [OF assms(2,3) wq_reject(3) wq_reject(2) [unfolded reject_def]]
  consider "db' = db" | u where "transition pf (ws_org sv) u (u\<lparr>wu_state := WU_REJECTED, wu_updated_at := now\<rparr>) now db db'"
    "wu_state u = WU_AWAITING_REVIEW" by blast
  then show ?thesis
  proof cases
    case (2 u)
    then have "unit_step pf db None db'"
      by (intro unit_stepI [OF assms(2,3) 2(1)]) (auto simp: unit_inv_def event_ok_def)
    with wq_reject(1) show ?thesis by simp
  qed (use wq_reject(1) in simp)
next
  case (wq_rework sv wk caps ov rclock uuids res)
  from rework_effect [OF assms(2,3) _ wq_rework(2)] wq_rework show ?thesis using reworks_step [OF _ assms(2,3)] by blast
qed auto

subsection \<open>Invariants of runs\<close>

lemma fold_no_hit: "\<forall>v\<in>set vs. \<not> P v \<Longrightarrow> fold (\<lambda>v m. if P v then max m (f v) else m) vs (m :: int) = m"
  by (induction vs) simp_all

lemma add_unit_ok:
  assumes "add_unit pf org w db = Inr db'" "db_ok pf db" "valid_work_unit w" "wu_state w = WU_PENDING" "wu_lease w = None"
    "claimed_by w = None"
  shows "db_ok pf db'" "units db' = units db @ [to_model pf org w]"
proof -
  let ?v = "\<lparr>rv_org = org, rv_id = wu_id w, rv_revision = 1, rv_payload = serialize_payload pf w, rv_recorded_at = wu_updated_at w\<rparr>"
  from assms(1) have g: "get_unit_row org (wu_id w) db = None" and us: "units db' = units db @ [to_model pf org w]"
    and rv: "revisions db' = revisions db @ [?v]"
    by (auto simp: add_unit_def insert_revision_def)
  show "units db' = units db @ [to_model pf org w]" by (rule us)
  have k: "unit_key (to_model pf org w) \<notin> unit_key ` set (units db)"
    using g by (auto simp: get_unit_row_def find_None_iff to_model_def)
  have d: "distinct (map unit_key (units db'))" using assms(2) k by (auto simp: us db_ok_def)
  have fresh: "\<not> (rv_org v = org \<and> rv_id v = wu_id w)" if v: "v \<in> set (revisions db)" for v
  proof
    assume "rv_org v = org \<and> rv_id v = wu_id w"
    moreover have "(rv_org v, rv_id v) \<in> unit_key ` set (units db)" using assms(2) v by (simp add: db_ok_def)
    ultimately show False using k by (simp add: to_model_def)
  qed
  have "max_revision org (wu_id w) db = 0"
    unfolding max_revision_def using fresh by (intro fold_no_hit) blast
  then have max: "max_revision o' i db' = (if o' = org \<and> i = wu_id w then 1 else max_revision o' i db)" for o' i
    by (auto simp: max_revision_def rv)
  have rk: "\<forall>v\<in>set (revisions db'). (rv_org v, rv_id v) \<in> unit_key ` set (units db')"
    using assms(2) by (auto simp: rv us db_ok_def to_model_def)
  have deps: "deps_approved pf db o' u \<Longrightarrow> deps_approved pf db' o' u" for o' u
    unfolding deps_approved_def us by (auto; metis)
  have "\<exists>u. represents pf x u \<and> unit_inv u \<and> (wu_state u \<noteq> WU_PENDING \<longrightarrow> deps_approved pf db' (wr_org x) u)
      \<and> current_revision pf db' (wr_org x) u" if x: "x \<in> set (units db')" for x
  proof (cases "x \<in> set (units db)")
    case True
    then obtain u where u: "represents pf x u" "unit_inv u" "wu_state u \<noteq> WU_PENDING \<longrightarrow> deps_approved pf db (wr_org x) u"
      "current_revision pf db (wr_org x) u"
      using assms(2) by (auto simp: db_ok_def)
    have "unit_key x \<noteq> unit_key (to_model pf org w)"
    proof
      assume eq: "unit_key x = unit_key (to_model pf org w)"
      from True have "unit_key x \<in> unit_key ` set (units db)" by (rule imageI)
      with k show False unfolding eq by contradiction
    qed
    then have "\<not> (wr_org x = org \<and> wu_id u = wu_id w)" using u(1) by (auto simp: represents_iff to_model_def)
    then have "current_revision pf db' (wr_org x) u"
      using u(4) unfolding current_revision_def max rv by auto
    with u deps show ?thesis by blast
  next
    case False
    with x have "x = to_model pf org w" by (simp add: us)
    moreover have "current_revision pf db' org w" unfolding current_revision_def max rv by simp
    moreover have "wr_org (to_model pf org w) = org" by (simp add: to_model_def)
    ultimately show ?thesis
      using represents_to_model [OF assms(3)] assms(4,5,6) by (intro exI [of _ w]) (auto simp: unit_inv_def)
  qed
  with d rk show "db_ok pf db'" by (simp add: db_ok_def)
qed

lemma unit_step_ok: "db_ok pf db \<Longrightarrow> iso_inverse pf \<Longrightarrow> unit_step pf db e db' \<Longrightarrow> db_ok pf db'"
  unfolding unit_step_def by (blast intro: transition_ok)

lemma wq_step_ok: "wq_step pf db e db' \<Longrightarrow> db_ok pf db \<Longrightarrow> iso_inverse pf \<Longrightarrow> db_ok pf db'"
  using wq_step_cases [of pf db e db'] unit_step_ok [of pf db e db'] add_unit_ok(1) by blast

lemma wq_run_ok: "wq_run pf db hist \<Longrightarrow> iso_inverse pf \<Longrightarrow> db_ok pf db"
proof (induction rule: wq_run.induct)
  case (wq_more db hist e db')
  then show ?case by (blast intro: wq_step_ok)
qed (simp add: db_ok_def)

text \<open>The last submission of a unit in the log: worker and artifact.\<close>

fun last_submission :: "str \<times> str \<Rightarrow> wq_event list \<Rightarrow> (str \<times> immutable_version_ref) option" where
  "last_submission k [] = None"
| "last_submission k (e # es) =
     (case last_submission k es of
        Some x \<Rightarrow> Some x
      | None \<Rightarrow> (case e of Submitted k' wk a \<Rightarrow> if k' = k then Some (wk, a) else None | Approved _ _ _ \<Rightarrow> None))"

lemma last_submission_snoc:
  "last_submission k (es @ [e]) =
     (case e of Submitted k' wk a \<Rightarrow> if k' = k then Some (wk, a) else last_submission k es | Approved _ _ _ \<Rightarrow> last_submission k es)"
  by (induction es) (auto split: option.splits wq_event.splits)

definition submissions_ok :: "platform \<Rightarrow> work_db \<Rightarrow> wq_event list \<Rightarrow> bool" where
  "submissions_ok pf db hist \<longleftrightarrow> (\<forall>r\<in>set (units db). \<forall>w. represents pf r w \<longrightarrow> wu_state w = WU_AWAITING_REVIEW \<longrightarrow>
     (\<exists>wk a. last_submission (unit_key r) hist = Some (wk, a) \<and> previous_worker w = Some wk \<and> delivered_artifact_version w = Some a))"

lemma submissions_step:
  assumes "unit_step pf db e db'" "submissions_ok pf db hist" "iso_inverse pf"
  shows "submissions_ok pf db' (hist @ (case e of None \<Rightarrow> [] | Some x \<Rightarrow> [x]))"
proof -
  obtain org w w' now where t: "transition pf org w w' now db db'" and ev: "event_ok org w w' e" and i: "wu_id w' = wu_id w"
    using assms(1) by (auto simp: unit_step_def)
  obtain r r' where r: "wr_org r = org" "represents pf r w" "represents pf r' w'" "unit_key r' = unit_key r"
    and us: "units db' = map (\<lambda>x. if unit_key x = unit_key r then r' else x) (units db)"
    using t by (auto simp: transition_def)
  have kr: "unit_key r = (org, wu_id w)" using r(1,2) by (simp add: represents_iff)
  show ?thesis unfolding submissions_ok_def
  proof (intro ballI allI impI)
    fix x u assume x: "x \<in> set (units db')" "represents pf x u" "wu_state u = WU_AWAITING_REVIEW"
    let ?h = "hist @ (case e of None \<Rightarrow> [] | Some x \<Rightarrow> [x])"
    show "\<exists>wk a. last_submission (unit_key x) ?h = Some (wk, a) \<and> previous_worker u = Some wk \<and> delivered_artifact_version u = Some a"
    proof (cases "x = r'")
      case True
      then have "u = w'" using represents_read [OF x(2) assms(3)] represents_read [OF r(3) assms(3)] by simp
      with x(3) ev obtain wk a where "e = Some (Submitted (org, wu_id w) wk a)" "previous_worker u = Some wk"
        "delivered_artifact_version u = Some a"
        by (auto simp: event_ok_def split: option.splits wq_event.splits)
      with True r(4) kr show ?thesis by (simp add: last_submission_snoc)
    next
      case False
      with x(1) us have x0: "x \<in> set (units db)" "unit_key x \<noteq> unit_key r" by auto
      then have "last_submission (unit_key x) ?h = last_submission (unit_key x) hist"
        using ev kr by (auto simp: event_ok_def last_submission_snoc split: option.splits wq_event.splits)
      with assms(2) x0(1) x(2,3) show ?thesis by (simp add: submissions_ok_def)
    qed
  qed
qed

lemma submissions_add:
  assumes "add_unit pf org w db = Inr db'" "submissions_ok pf db hist" "iso_inverse pf" "valid_work_unit w" "wu_state w = WU_PENDING"
  shows "submissions_ok pf db' hist"
proof -
  have us: "units db' = units db @ [to_model pf org w]" using assms(1) by (auto simp: add_unit_def insert_revision_def)
  have "wu_state u = WU_PENDING" if "represents pf (to_model pf org w) u" for u
    using represents_read [OF that assms(3)] represents_read [OF represents_to_model [OF assms(4)] assms(3)] assms(5) by simp
  with assms(2) show ?thesis by (fastforce simp: submissions_ok_def us)
qed

lemma wq_run_submissions:
  assumes "wq_run pf db hist" "iso_inverse pf"
  shows "submissions_ok pf db hist"
  using assms(1)
proof (induction rule: wq_run.induct)
  case (wq_more db hist e db')
  have ok: "db_ok pf db" using wq_more(1) assms(2) by (rule wq_run_ok)
  from wq_step_cases [OF wq_more(2) ok assms(2)] wq_more(3) assms(2) show ?case
    using submissions_step [of pf db e db' hist] submissions_add [of pf _ _ db db' hist] by auto
qed (simp add: submissions_ok_def)

definition approvals_ok :: "wq_event list \<Rightarrow> bool" where
  "approvals_ok hist \<longleftrightarrow> (\<forall>l1 k rv a l2. hist = l1 @ Approved k rv a # l2 \<longrightarrow>
     (\<exists>wk. last_submission k l1 = Some (wk, a) \<and> wk \<noteq> rv))"

lemma approvals_snoc:
  assumes "approvals_ok hist" "\<And>k rv a. e = Approved k rv a \<Longrightarrow> \<exists>wk. last_submission k hist = Some (wk, a) \<and> wk \<noteq> rv"
  shows "approvals_ok (hist @ [e])"
  unfolding approvals_ok_def
proof (intro allI impI)
  fix l1 k rv a l2 assume h: "hist @ [e] = l1 @ Approved k rv a # l2"
  show "\<exists>wk. last_submission k l1 = Some (wk, a) \<and> wk \<noteq> rv"
  proof (cases l2 rule: rev_cases)
    case Nil
    with h assms(2) show ?thesis by simp
  next
    case (snoc ys y)
    with h have "hist = l1 @ Approved k rv a # ys" by simp
    with assms(1) show ?thesis unfolding approvals_ok_def by blast
  qed
qed

lemma wq_run_approvals:
  assumes "wq_run pf db hist" "iso_inverse pf"
  shows "approvals_ok hist"
  using assms(1)
proof (induction rule: wq_run.induct)
  case (wq_more db hist e db')
  have ok: "db_ok pf db" using wq_more(1) assms(2) by (rule wq_run_ok)
  have sub: "submissions_ok pf db hist" using wq_more(1) assms(2) by (rule wq_run_submissions)
  show ?case
  proof (cases e)
    case (Some x)
    have "approvals_ok (hist @ [x])"
    proof (rule approvals_snoc [OF wq_more(3)])
      fix k rv a assume x: "x = Approved k rv a"
      with Some wq_step_cases [OF wq_more(2) ok assms(2)] have "unit_step pf db e db'" by auto
      then obtain org w w' now where t: "transition pf org w w' now db db'" and ev: "event_ok org w w' e"
        by (auto simp: unit_step_def)
      from ev Some x have w: "k = (org, wu_id w)" "wu_state w = WU_AWAITING_REVIEW" "delivered_artifact_version w = Some a"
        "previous_worker w \<noteq> Some rv"
        by (auto simp: event_ok_def)
      from t obtain r where r: "r \<in> set (units db)" "wr_org r = org" "represents pf r w" by (auto simp: transition_def)
      then have "unit_key r = k" using w(1) by (simp add: represents_iff)
      with sub r(1,3) w(2) obtain wk b where "last_submission k hist = Some (wk, b)" "previous_worker w = Some wk"
        "delivered_artifact_version w = Some b"
        unfolding submissions_ok_def by metis
      with w(3,4) show "\<exists>wk. last_submission k hist = Some (wk, a) \<and> wk \<noteq> rv" by auto
    qed
    with Some show ?thesis by simp
  qed (use wq_more in simp)
qed (simp add: approvals_ok_def)

subsection \<open>A run on one unit\<close>

text \<open>Add, claim by \<open>w\<close>, submit, approve by \<open>rev\<close>; the states of the tables in between.\<close>

definition demo_service :: work_service where
  "demo_service = \<lparr>ws_org = ''o'', ws_lease_seconds = 60\<rparr>"

definition demo_lease :: worker_lease where
  "demo_lease = \<lparr>wl_lease_id = ''l'', wl_worker_id = ''w'', claimed_at = 1, wl_expires_at = 60000001\<rparr>"

definition demo_artifact :: immutable_version_ref where
  "demo_artifact = \<lparr>vr_kind = ''git'', vr_value = ''def''\<rparr>"

definition demo_claimed_unit :: work_unit where
  "demo_claimed_unit = demo_unit\<lparr>wu_state := WU_CLAIMED, depends_on_snapshot := [], claimed_by := Some ''w'',
     wu_lease := Some demo_lease, wu_updated_at := 1\<rparr>"

definition demo_submitted :: work_unit where
  "demo_submitted = demo_claimed_unit\<lparr>wu_state := WU_AWAITING_REVIEW, delivered_artifact_version := Some demo_artifact,
     previous_worker := Some ''w'', claimed_by := None, wu_lease := None, wu_updated_at := 2\<rparr>"

definition demo_row0 :: work_unit_row where
  "demo_row0 = to_model demo_platform ''o'' demo_unit"

definition demo_row1 :: work_unit_row where
  "demo_row1 = demo_row0\<lparr>wr_state := ''CLAIMED'', wr_claimed_by := Some ''w'', wr_lease := Some (lease_payload demo_platform demo_lease),
     wr_snapshot := JArr [], wr_updated_at := 1\<rparr>"

definition demo_row2 :: work_unit_row where
  "demo_row2 = demo_row1\<lparr>wr_state := ''AWAITING_REVIEW'', wr_delivered := Some (version_payload demo_artifact),
     wr_previous_worker := Some ''w'', wr_claimed_by := None, wr_lease := None, wr_updated_at := 2\<rparr>"

lemmas demo_unit_simps = demo_unit_def demo_capability_def demo_claimed_unit_def demo_submitted_def demo_lease_def demo_artifact_def
lemmas demo_valid_simps = valid_work_unit_def check_work_unit_Inr valid_version_def valid_lease_def canonical_text_def
  datetime_range_def strip_def blank_iff is_space_def Let_def

lemma demo_units_valid: "valid_work_unit demo_claimed_unit" "valid_work_unit demo_submitted" "valid_version demo_artifact"
  by (simp_all add: demo_unit_simps demo_valid_simps)

lemma demo_represents:
  "represents demo_platform demo_row0 demo_unit" "represents demo_platform demo_row1 demo_claimed_unit"
  "represents demo_platform demo_row2 demo_submitted"
  using demo_units_valid demo_unit_valid
  by (simp_all add: represents_iff demo_row0_def demo_row1_def demo_row2_def to_model_def demo_claimed_unit_def demo_submitted_def
      demo_unit_def null_or_def)

lemmas demo_reads = demo_represents [THEN represents_read, OF demo_platform_iso]

lemma demo_row_columns:
  "wr_org demo_row0 = ''o''" "wr_id demo_row0 = ''u1''" "wr_state demo_row0 = ''PENDING''" "wr_claimed_by demo_row0 = None"
  "wr_lease demo_row0 = None"
  "wr_org demo_row1 = ''o''" "wr_id demo_row1 = ''u1''" "wr_state demo_row1 = ''CLAIMED''"
  "wr_org demo_row2 = ''o''" "wr_id demo_row2 = ''u1''" "wr_state demo_row2 = ''AWAITING_REVIEW''"
  by (simp_all add: demo_row0_def demo_row1_def demo_row2_def to_model_def demo_unit_def)

lemma demo_add: "\<exists>rs. add_unit demo_platform ''o'' demo_unit \<lparr>units = [], revisions = []\<rparr> = Inr \<lparr>units = [demo_row0], revisions = rs\<rparr>"
  by (simp add: add_unit_def get_unit_row_def insert_revision_def demo_row0_def)

lemma demo_fresh: "fresh_lease demo_service ''l'' ''w'' 1 1 = Inr demo_lease"
  by (simp add: fresh_lease_Inr demo_service_def demo_lease_def demo_valid_simps)

lemma demo_claim_step:
  "\<exists>rs'. claim_next_ready demo_platform demo_service ''w'' [demo_capability] (\<lambda>_ _. 1) (\<lambda>_ _. ''l'') (\<lambda>_ _. id)
     \<lparr>units = [demo_row0], revisions = rs\<rparr> = (Inr (Some demo_claimed_unit), \<lparr>units = [demo_row1], revisions = rs'\<rparr>)"
proof -
  have nb: "\<not> blank ''w''" by (simp add: blank_iff is_space_def Let_def)
  have el: "is_worker_eligible demo_unit [demo_capability]"
    by (simp add: is_worker_eligible_def demo_unit_simps blank_iff is_space_def Let_def)
  have pc: "pending_candidates demo_service \<lparr>units = [demo_row0], revisions = rs\<rparr> = [demo_row0]"
    by (simp add: pending_candidates_def demo_row_columns demo_service_def)
  have pk: "claim_pick demo_platform demo_service [demo_capability] \<lparr>units = [demo_row0], revisions = rs\<rparr> demo_row0
      = Inr (Some (demo_unit, []))"
    using el by (simp add: claim_pick_def demo_reads load_dependencies_def is_ready_def demo_unit_def)
  have ck: "check_work_unit demo_claimed_unit = Inr demo_claimed_unit" using demo_units_valid(1) by (simp add: valid_work_unit_def)
  have "\<exists>rs'. cas_claim demo_platform demo_service ''w'' 1 ''l'' (demo_unit, []) \<lparr>units = [demo_row0], revisions = rs\<rparr>
      = Inr (Some (demo_claimed_unit, \<lparr>units = [demo_row1], revisions = rs'\<rparr>))"
    using ck unfolding cas_claim_def demo_claimed_unit_def
    by (simp add: demo_fresh cas_units_def demo_row_columns append_revision_total demo_row1_def)
       (simp add: demo_service_def demo_unit_def)
  then obtain rs' where cc: "cas_claim demo_platform demo_service ''w'' 1 ''l'' (demo_unit, []) \<lparr>units = [demo_row0], revisions = rs\<rparr>
      = Inr (Some (demo_claimed_unit, \<lparr>units = [demo_row1], revisions = rs'\<rparr>))" by blast
  have n: "(100 :: nat) = Suc 99" by simp
  show ?thesis unfolding claim_next_ready_def n retry_passes.simps run_pass_def pc using nb by (simp add: pk cc)
qed

lemma demo_added_run: "\<exists>rs. wq_run demo_platform \<lparr>units = [demo_row0], revisions = rs\<rparr> []"
proof -
  obtain rs where a: "add_unit demo_platform ''o'' demo_unit \<lparr>units = [], revisions = []\<rparr> = Inr \<lparr>units = [demo_row0], revisions = rs\<rparr>"
    using demo_add by blast
  have "wq_step demo_platform \<lparr>units = [], revisions = []\<rparr> None \<lparr>units = [demo_row0], revisions = rs\<rparr>"
    by (rule wq_add [OF a demo_unit_valid]) (simp_all add: demo_unit_def)
  from wq_more [OF wq_start this] show ?thesis by auto
qed

lemma demo_claimed_run: "\<exists>rs. wq_run demo_platform \<lparr>units = [demo_row1], revisions = rs\<rparr> []"
proof -
  obtain rs0 where r0: "wq_run demo_platform \<lparr>units = [demo_row0], revisions = rs0\<rparr> []" using demo_added_run by blast
  obtain rs1 where c: "claim_next_ready demo_platform demo_service ''w'' [demo_capability] (\<lambda>_ _. 1) (\<lambda>_ _. ''l'') (\<lambda>_ _. id)
     \<lparr>units = [demo_row0], revisions = rs0\<rparr> = (Inr (Some demo_claimed_unit), \<lparr>units = [demo_row1], revisions = rs1\<rparr>)"
    using demo_claim_step by blast
  from wq_more [OF r0 wq_claim_next [OF c]] show ?thesis by (auto simp: datetime_range_def)
qed

lemma demo_submit_step:
  "\<exists>rs'. submit_for_review demo_platform demo_service ''u1'' ''w'' ''l'' demo_artifact 2 id \<lparr>units = [demo_row1], revisions = rs\<rparr>
     = (Inr (Some demo_submitted), \<lparr>units = [demo_row2], revisions = rs'\<rparr>)"
proof -
  let ?db = "\<lparr>units = [demo_row1], revisions = rs\<rparr>"
  have nb: "\<not> blank ''w''" "\<not> blank ''u1''" "\<not> blank ''l''" by (simp_all add: blank_iff is_space_def Let_def)
  have g: "get_unit_row (ws_org demo_service) ''u1'' ?db = Some demo_row1"
    by (simp add: get_unit_row_def demo_row_columns demo_service_def)
  have lv: "lease_valid_for demo_claimed_unit ''w'' ''l'' 2" by (simp add: lease_valid_for_def demo_unit_simps)
  have ck: "check_work_unit demo_submitted = Inr demo_submitted" using demo_units_valid(2) by (simp add: valid_work_unit_def)
  have P: "filter (same_projection demo_service demo_row1) [demo_row1] = [demo_row1]"
    by (simp add: same_projection_def demo_row_columns demo_service_def)
  show ?thesis
    using ck lv nb unfolding submit_for_review_def demo_submitted_def
    by (simp add: g demo_reads cas_and_record_def cas_units_def P append_revision_total finish_def demo_row2_def)
       (simp add: same_projection_def demo_row_columns demo_service_def)
qed

lemma demo_approve_step:
  "\<exists>w db'. approve demo_platform demo_service ''u1'' ''r'' demo_artifact 3 id \<lparr>units = [demo_row2], revisions = rs\<rparr> = (Inr (Some w), db')"
proof -
  let ?db = "\<lparr>units = [demo_row2], revisions = rs\<rparr>"
  have nb: "\<not> blank ''r''" "\<not> blank ''u1''" by (simp_all add: blank_iff is_space_def Let_def)
  have g: "get_unit_row (ws_org demo_service) ''u1'' ?db = Some demo_row2"
    by (simp add: get_unit_row_def demo_row_columns demo_service_def)
  have ck: "check_work_unit (demo_submitted\<lparr>wu_state := WU_APPROVED, wu_updated_at := 3\<rparr>)
      = Inr (demo_submitted\<lparr>wu_state := WU_APPROVED, wu_updated_at := 3\<rparr>)"
    by (simp add: check_work_unit_Inr demo_unit_simps demo_valid_simps)
  have s: "wu_state demo_submitted = WU_AWAITING_REVIEW" "delivered_artifact_version demo_submitted = Some demo_artifact"
    "claimed_by demo_submitted = None" "wu_lease demo_submitted = None" "previous_worker demo_submitted = Some ''w''"
    by (simp_all add: demo_submitted_def)
  show ?thesis
    using ck nb unfolding approve_def review_unit_def
    by (simp add: g demo_reads s cas_and_record_def cas_units_def append_revision_total finish_def)
       (simp add: demo_row_columns demo_service_def)
qed

lemma demo_submitted_run:
  "\<exists>rs. wq_run demo_platform \<lparr>units = [demo_row2], revisions = rs\<rparr> [Submitted (''o'', ''u1'') ''w'' demo_artifact]"
proof -
  have dr: "datetime_range 2" by (simp add: datetime_range_def)
  obtain rs1 where r1: "wq_run demo_platform \<lparr>units = [demo_row1], revisions = rs1\<rparr> []" using demo_claimed_run by blast
  obtain rs2 where sb: "submit_for_review demo_platform demo_service ''u1'' ''w'' ''l'' demo_artifact 2 id
      \<lparr>units = [demo_row1], revisions = rs1\<rparr> = (Inr (Some demo_submitted), \<lparr>units = [demo_row2], revisions = rs2\<rparr>)"
    using demo_submit_step by blast
  from wq_more [OF r1 wq_submit [OF sb demo_units_valid(3) dr]] show ?thesis by (auto simp: demo_service_def)
qed

lemma demo_wq_run:
  "\<exists>db. wq_run demo_platform db [Submitted (''o'', ''u1'') ''w'' demo_artifact, Approved (''o'', ''u1'') ''r'' demo_artifact]"
proof -
  have dr: "datetime_range 3" by (simp add: datetime_range_def)
  obtain rs2 where r2: "wq_run demo_platform \<lparr>units = [demo_row2], revisions = rs2\<rparr> [Submitted (''o'', ''u1'') ''w'' demo_artifact]"
    using demo_submitted_run by blast
  obtain w db' where ap: "approve demo_platform demo_service ''u1'' ''r'' demo_artifact 3 id \<lparr>units = [demo_row2], revisions = rs2\<rparr>
      = (Inr (Some w), db')" using demo_approve_step by blast
  from wq_more [OF r2 wq_approve [OF ap dr]] show ?thesis by (auto simp: demo_service_def)
qed

subsection \<open>Properties\<close>

text \<open>
  C15 (safety).  No unit is ever approved without an independent review: every approval in a
  run is of exactly the artifact that was submitted last for the unit, and the reviewer is
  not the worker who submitted it.
\<close>

theorem independent_review:
  assumes "wq_run pf db (l1 @ Approved k rv a # l2)" "iso_inverse pf"
  shows "\<exists>wk. last_submission k l1 = Some (wk, a) \<and> wk \<noteq> rv"
  using wq_run_approvals [OF assms] unfolding approvals_ok_def by blast

theorem independent_review_witness:
  "\<exists>db wk. wq_run demo_platform db ([Submitted (''o'', ''u1'') ''w'' demo_artifact] @ Approved (''o'', ''u1'') ''r'' demo_artifact # [])
     \<and> last_submission (''o'', ''u1'') [Submitted (''o'', ''u1'') ''w'' demo_artifact] = Some (wk, demo_artifact) \<and> wk \<noteq> ''r''"
proof -
  obtain db where run: "wq_run demo_platform db ([Submitted (''o'', ''u1'') ''w'' demo_artifact] @ Approved (''o'', ''u1'') ''r'' demo_artifact # [])"
    using demo_wq_run by auto
  from independent_review [OF run demo_platform_iso] run show ?thesis by blast
qed

text \<open>
  C21 (invariant).  In every reachable state of the tables each row decodes to a valid work
  unit, its newest revision decodes to the same unit, a unit has a lease exactly while it
  is claimed, and a unit that has been started has all its declared dependencies approved,
  in exactly the versions bound in its snapshot.
\<close>

theorem work_queue_invariant:
  assumes "wq_run pf db hist" "iso_inverse pf" "r \<in> set (units db)"
  shows "\<exists>w. from_model pf r = Inr w \<and> valid_work_unit w \<and> (wu_lease w \<noteq> None \<longleftrightarrow> wu_state w = WU_CLAIMED)
    \<and> (\<exists>v\<in>set (revisions db). rv_org v = wr_org r \<and> rv_id v = wr_id r
         \<and> rv_revision v = max_revision (wr_org r) (wr_id r) db \<and> from_payload pf (rv_payload v) = Inr w)
    \<and> (wu_state w \<noteq> WU_PENDING \<longrightarrow> map bind_work_unit_id (depends_on_snapshot w) = depends_on w
         \<and> (\<forall>b\<in>set (depends_on_snapshot w). \<exists>x\<in>set (units db). \<exists>d. wr_org x = wr_org r \<and> from_model pf x = Inr d
              \<and> wu_id d = bind_work_unit_id b \<and> wu_state d = WU_APPROVED \<and> delivered_artifact_version d = Some (bind_version b)))"
proof -
  from wq_run_ok [OF assms(1,2)] assms(3) obtain w where w: "represents pf r w" "unit_inv w"
    "wu_state w \<noteq> WU_PENDING \<longrightarrow> deps_approved pf db (wr_org r) w" "current_revision pf db (wr_org r) w"
    by (auto simp: db_ok_def)
  from w(1) have i: "wr_id r = wu_id w" "valid_work_unit w" by (simp_all add: represents_iff)
  have dep: "wu_state w \<noteq> WU_PENDING \<longrightarrow> map bind_work_unit_id (depends_on_snapshot w) = depends_on w
      \<and> (\<forall>b\<in>set (depends_on_snapshot w). \<exists>x\<in>set (units db). \<exists>d. wr_org x = wr_org r \<and> from_model pf x = Inr d
           \<and> wu_id d = bind_work_unit_id b \<and> wu_state d = WU_APPROVED \<and> delivered_artifact_version d = Some (bind_version b))"
    using w(3) represents_read [OF _ assms(2)] unfolding deps_approved_def by blast
  have "\<exists>v\<in>set (revisions db). rv_org v = wr_org r \<and> rv_id v = wr_id r
      \<and> rv_revision v = max_revision (wr_org r) (wr_id r) db \<and> from_payload pf (rv_payload v) = Inr w"
    using w(4) from_payload_serialize [OF i(2) assms(2)] unfolding current_revision_def i(1) by metis
  with dep w(2) i(2) represents_read [OF w(1) assms(2)] show ?thesis by (auto simp: unit_inv_def)
qed

theorem work_queue_invariant_witness:
  "\<exists>rs. wq_run demo_platform \<lparr>units = [demo_row0], revisions = rs\<rparr> []
     \<and> (\<exists>w. from_model demo_platform demo_row0 = Inr w \<and> valid_work_unit w \<and> wu_lease w = None)"
proof -
  obtain rs where r: "wq_run demo_platform \<lparr>units = [demo_row0], revisions = rs\<rparr> []" using demo_added_run by blast
  from work_queue_invariant [OF r demo_platform_iso, of demo_row0] r show ?thesis
    by (auto simp: demo_reads demo_unit_def)
qed

text \<open>
  Property (functional).  Without other clients an approval goes through exactly when the unit
  awaits review of that very artifact and the reviewer's name is not the name recorded for
  the worker.
\<close>

theorem approve_iff:
  assumes "wq_run pf db hist" "iso_inverse pf" "get_unit_row (ws_org sv) i db = Some r" "from_model pf r = Inr w"
    and "\<not> blank i" "\<not> blank rv" "wu_created_at w \<le> now"
  shows "(\<exists>w'. fst (approve pf sv i rv a now id db) = Inr (Some w')) \<longleftrightarrow>
    wu_state w = WU_AWAITING_REVIEW \<and> delivered_artifact_version w = Some a \<and> previous_worker w \<noteq> Some rv"
proof -
  have ok: "db_ok pf db" using assms(1,2) by (rule wq_run_ok)
  note r = get_unit_row_Some [OF assms(3)]
  obtain w0 where w0: "represents pf r w0" using db_ok_row [OF ok] r by blast
  with represents_read [OF w0 assms(2)] assms(4) have w: "represents pf r w" by simp
  then have v: "valid_work_unit w" by (simp add: represents_iff)
  have inv: "wu_state w = WU_AWAITING_REVIEW \<Longrightarrow> claimed_by w = None \<and> wu_lease w = None"
    using db_okE(1) [OF ok _ w assms(2)] r by (auto simp: unit_inv_def)
  have ck: "check_work_unit (w\<lparr>wu_state := WU_APPROVED, wu_updated_at := now\<rparr>) = Inr (w\<lparr>wu_state := WU_APPROVED, wu_updated_at := now\<rparr>)"
    using v assms(7) by (simp add: valid_work_unit_def check_work_unit_Inr)
  let ?P = "\<lambda>x. wr_org x = ws_org sv \<and> wr_id x = i \<and> wr_state x = ''AWAITING_REVIEW'' \<and> wr_updated_at x = wr_updated_at r"
  have one: "length (filter ?P (units db)) = 1" if "wu_state w = WU_AWAITING_REVIEW"
    by (rule length_filter_one(1) [where k = unit_key and x = r])
       (use ok r that represents_state [OF w, of WU_AWAITING_REVIEW] in \<open>auto simp: db_ok_def\<close>)
  show ?thesis
    using assms(3-6) ck inv one
    by (auto simp: approve_def review_unit_def cas_and_record_def cas_units_def append_revision_total finish_def)
qed

theorem approve_iff_witness:
  "\<exists>db hist. wq_run demo_platform db hist \<and> (\<exists>w'. fst (approve demo_platform demo_service ''u1'' ''r'' demo_artifact 3 id db) = Inr (Some w'))
     \<and> \<not> (\<exists>w'. fst (approve demo_platform demo_service ''u1'' ''w'' demo_artifact 3 id db) = Inr (Some w'))"
proof -
  obtain rs where run: "wq_run demo_platform \<lparr>units = [demo_row2], revisions = rs\<rparr> [Submitted (''o'', ''u1'') ''w'' demo_artifact]"
    using demo_submitted_run by blast
  let ?db = "\<lparr>units = [demo_row2], revisions = rs\<rparr>"
  have g: "get_unit_row (ws_org demo_service) ''u1'' ?db = Some demo_row2"
    by (simp add: get_unit_row_def demo_row_columns demo_service_def)
  have nb: "\<not> blank ''w''" "\<not> blank ''r''" "\<not> blank ''u1''" by (simp_all add: blank_iff is_space_def Let_def)
  have c: "wu_created_at demo_submitted \<le> 3" by (simp add: demo_unit_simps)
  note iff = approve_iff [OF run demo_platform_iso g demo_reads(3) nb(3) _ c]
  from iff [OF nb(2), of demo_artifact] iff [OF nb(1), of demo_artifact] run show ?thesis
    by (intro exI [of _ ?db] exI) (auto simp: demo_submitted_def)
qed

text \<open>
  The names are compared as they are: the worker's own name with a blank behind it passes
  the check of the reviewer's identity and approves the worker's work.
\<close>

lemma padded_reviewer_approves:
  assumes "wq_run pf db hist" "iso_inverse pf" "get_unit_row (ws_org sv) i db = Some r" "from_model pf r = Inr w" "\<not> blank i"
    and "wu_created_at w \<le> now" "wu_state w = WU_AWAITING_REVIEW" "delivered_artifact_version w = Some a"
    and "previous_worker w = Some wk"
  shows "\<exists>w'. fst (approve pf sv i (wk @ '' '') a now id db) = Inr (Some w')"
proof -
  have "valid_work_unit w"
    using db_ok_row [OF wq_run_ok [OF assms(1,2)]] get_unit_row_Some [OF assms(3)] represents_read [OF _ assms(2)] assms(4)
    by (metis Inr_inject represents_iff)
  then have "canonical_text wk" using assms(9) by (simp add: valid_work_unit_def check_work_unit_Inr)
  then have "\<not> blank wk" by (auto simp: canonical_text_def blank_def)
  then have "\<not> blank (wk @ '' '')" by (auto simp: blank_iff)
  from approve_iff [OF assms(1-5) this assms(6), of a] assms(7-9) show ?thesis by auto
qed

text \<open>
  Property (safety).  Once an expired unit has been recovered by another worker, the old lease
  token is dead: neither a heartbeat nor a submission under it succeeds, whatever the other
  clients do meanwhile, and nothing is written.
\<close>

theorem recovered_lease_dead:
  assumes "wq_run pf db hist" "iso_inverse pf" "\<forall>n. datetime_range (clock n)" "\<forall>n i. uuids n i \<noteq> l"
    and "recover_next_expired pf sv wk caps clock uuids (\<lambda>_ _. id) db = (Inr (Some w'), db')"
  shows "fst (submit_for_review pf sv (wu_id w') old l a now env db') \<in> {Inr None, Inl ValueError}
    \<and> snd (submit_for_review pf sv (wu_id w') old l a now env db') \<in> {db', env db'}
    \<and> fst (lease_heartbeat pf sv (wu_id w') old l now env db') \<in> {Inr None, Inl ValueError}
    \<and> snd (lease_heartbeat pf sv (wu_id w') old l now env db') \<in> {db', env db'}"
proof -
  have ok: "db_ok pf db" using assms(1,2) by (rule wq_run_ok)
  from recover_effect [OF ok assms(2) _ assms(5)] assms(3) obtain w x m j where
    t: "transition pf (ws_org sv) w w' (clock m) db db'" and w': "wu_lease w' = Some x" and x: "leased_by wk (uuids m j) x"
    by (auto simp: recovers_def)
  from transition_holds_row [OF t] obtain r' where r': "r' \<in> set (units db')" "wr_org r' = ws_org sv" "represents pf r' w'" by blast
  from assms(5,3) have "wq_step pf db None db'" by (rule wq_recover)
  then have ok': "db_ok pf db'" using ok assms(2) by (rule wq_step_ok)
  have "get_unit_row (ws_org sv) (wu_id w') db' = Some r'"
  proof -
    from r' have k: "unit_key r' = (ws_org sv, wu_id w')" by (simp add: represents_iff)
    with r'(1) obtain y where y: "get_unit_row (ws_org sv) (wu_id w') db' = Some y"
      by (cases "get_unit_row (ws_org sv) (wu_id w') db'") (auto simp: get_unit_row_def find_None_iff)
    from get_unit_row_Some [OF y] k r'(1) ok' have "y = r'" by (auto simp: db_ok_def distinct_map inj_on_def)
    with y show ?thesis by simp
  qed
  moreover have "\<not> lease_valid_for w' old l now"
    using x assms(4) w' by (simp add: lease_valid_for_def leased_by_def)
  ultimately show ?thesis
    using represents_read [OF r'(3) assms(2)]
    by (simp add: submit_for_review_def lease_heartbeat_def finish_def)
qed

lemma demo_recover_step:
  "\<exists>w' db'. recover_next_expired demo_platform demo_service ''v'' [demo_capability] (\<lambda>_. 70000000) (\<lambda>_ _. ''l2'') (\<lambda>_ _. id)
     \<lparr>units = [demo_row1], revisions = rs\<rparr> = (Inr (Some w'), db') \<and> wu_id w' = ''u1''"
proof -
  have nb: "\<not> blank ''v''" by (simp add: blank_iff is_space_def Let_def)
  have el: "is_worker_eligible demo_claimed_unit [demo_capability]"
    by (simp add: is_worker_eligible_def demo_unit_simps blank_iff is_space_def Let_def)
  have pk: "recover_pick demo_platform [demo_capability] 70000000 demo_row1 = Inr (Some demo_claimed_unit)"
    using el by (simp add: recover_pick_def demo_reads) (simp add: demo_claimed_unit_def demo_lease_def)
  obtain x where x: "fresh_lease demo_service ''l2'' ''v'' 70000000 70000000 = Inr x"
    by (simp add: fresh_lease_Inr demo_service_def demo_valid_simps)
  have ck: "check_work_unit (demo_claimed_unit\<lparr>claimed_by := Some ''v'', wu_lease := Some x, previous_worker := claimed_by demo_claimed_unit,
      wu_updated_at := 70000000\<rparr>) = Inr (demo_claimed_unit\<lparr>claimed_by := Some ''v'', wu_lease := Some x,
      previous_worker := claimed_by demo_claimed_unit, wu_updated_at := 70000000\<rparr>)"
    by (simp add: check_work_unit_Inr demo_unit_simps demo_valid_simps)
  have P: "same_projection demo_service demo_row1 demo_row1" by (simp add: same_projection_def demo_row_columns demo_service_def)
  have "\<exists>db'. recover_one demo_platform demo_service ''v'' 70000000 ''l2'' demo_row1 demo_claimed_unit \<lparr>units = [demo_row1], revisions = rs\<rparr>
      = Inr (Some (demo_claimed_unit\<lparr>claimed_by := Some ''v'', wu_lease := Some x, previous_worker := claimed_by demo_claimed_unit,
          wu_updated_at := 70000000\<rparr>, db'))"
    unfolding recover_one_def x bind_res_simps ck by (simp add: cas_and_record_def cas_units_def P append_revision_total)
  then obtain db' where one: "recover_one demo_platform demo_service ''v'' 70000000 ''l2'' demo_row1 demo_claimed_unit \<lparr>units = [demo_row1], revisions = rs\<rparr>
      = Inr (Some (demo_claimed_unit\<lparr>claimed_by := Some ''v'', wu_lease := Some x, previous_worker := claimed_by demo_claimed_unit,
          wu_updated_at := 70000000\<rparr>, db'))" by blast
  have rows: "claimed_candidates demo_service \<lparr>units = [demo_row1], revisions = rs\<rparr> = [demo_row1]"
    by (simp add: claimed_candidates_def demo_row_columns demo_service_def)
  have n: "(100 :: nat) = Suc 99" by simp
  show ?thesis unfolding recover_next_expired_def n retry_passes.simps run_pass_def rows using nb
    by (simp add: pk one) (simp add: demo_claimed_unit_def demo_unit_def)
qed

theorem recovered_lease_dead_witness:
  "\<exists>db w' db'. recover_next_expired demo_platform demo_service ''v'' [demo_capability] (\<lambda>_. 70000000) (\<lambda>_ _. ''l2'') (\<lambda>_ _. id) db
       = (Inr (Some w'), db')
     \<and> fst (submit_for_review demo_platform demo_service (wu_id w') ''w'' ''l'' demo_artifact 70000001 id db') \<in> {Inr None, Inl ValueError}"
proof -
  obtain rs where run: "wq_run demo_platform \<lparr>units = [demo_row1], revisions = rs\<rparr> []" using demo_claimed_run by blast
  obtain w' db' where rec: "recover_next_expired demo_platform demo_service ''v'' [demo_capability] (\<lambda>_. 70000000) (\<lambda>_ _. ''l2'') (\<lambda>_ _. id)
     \<lparr>units = [demo_row1], revisions = rs\<rparr> = (Inr (Some w'), db')" using demo_recover_step by blast
  have "\<forall>n. datetime_range ((\<lambda>_. 70000000) (n :: nat))" "\<forall>n i. (\<lambda>_ _. ''l2'') (n :: nat) (i :: nat) \<noteq> ''l''"
    by (simp_all add: datetime_range_def)
  from recovered_lease_dead [OF run demo_platform_iso this rec, of "''w''" demo_artifact 70000001 id] rec show ?thesis by blast
qed

end
