(* ===== verification/Project.thy ===== *)
theory Project
  imports Work_Units
begin

section \<open>The project aggregate (\<open>domain/project.py\<close>)\<close>

text \<open>
  A project is created from an intent, launched, given an executable plan (its active
  scope), and ends completed or cancelled, then archived.  The class is immutable: every
  transition builds a new project, whose constructor checks the whole object again.  The
  lemmas show that these checks never refuse a transition whose guards hold, that the
  identity of the project never changes, and what every reachable project looks like.

  A JSON value that a constructor receives in place of a string is a \<^typ>\<open>json\<close> value, so
  that the checks of types are part of the model; numbers with a fraction are not JSON
  values here.  Time stamps are datetimes, naive or aware; the clock reading that replaces
  a missing time stamp is an argument.
\<close>

datatype project_status =
  PS_CREATED | PS_LAUNCH_REQUESTED | PS_ACTIVE | PS_COMPLETION_PENDING | PS_COMPLETED | PS_CANCELLED | PS_ARCHIVED

fun project_status_value :: "project_status \<Rightarrow> str" where
  "project_status_value PS_CREATED = ''created''"
| "project_status_value PS_LAUNCH_REQUESTED = ''launch_requested''"
| "project_status_value PS_ACTIVE = ''active''"
| "project_status_value PS_COMPLETION_PENDING = ''completion_pending''"
| "project_status_value PS_COMPLETED = ''completed''"
| "project_status_value PS_CANCELLED = ''cancelled''"
| "project_status_value PS_ARCHIVED = ''archived''"

definition CONTROL_PLANE_CONTRACT_VERSION :: str where
  "CONTROL_PLANE_CONTRACT_VERSION = ''1.0''"

definition MAX_INTENT_BYTES :: nat where
  "MAX_INTENT_BYTES = 64 * 1024"

subsection \<open>Checks of values\<close>

text \<open>\<open>_normalize_json\<close> returns a copy or refuses an empty key.\<close>

fun safe_json :: "json \<Rightarrow> bool" where
  "safe_json (JObj ms) = (\<forall>(k, v)\<in>set ms. k \<noteq> [] \<and> safe_json v)"
| "safe_json (JArr xs) = (\<forall>x\<in>set xs. safe_json x)"
| "safe_json _ = True"

definition normalize_json :: "json \<Rightarrow> json result" where
  "normalize_json v = raise_if (\<not> safe_json v) ProjectContractError (Inr v)"

definition canonical_json :: "json \<Rightarrow> str" where
  "canonical_json v = dumps True v"

definition project_sha256 :: "platform \<Rightarrow> json \<Rightarrow> str" where
  "project_sha256 pf v = sha256_hex pf (utf8 (canonical_json v))"

definition fingerprint_event_payload :: "platform \<Rightarrow> json \<Rightarrow> str result" where
  "fingerprint_event_payload pf payload = bind_res (normalize_json payload) (\<lambda>v. Inr (project_sha256 pf v))"

fun utc_instant :: "datetime \<Rightarrow> time" where
  "utc_instant (Naive t) = t"
| "utc_instant (Aware t) = t"

definition timestamp :: "platform \<Rightarrow> datetime \<Rightarrow> str" where
  "timestamp pf d = isoformat pf (utc_instant d)"

definition trimmed_text :: "nat \<Rightarrow> str \<Rightarrow> bool" where
  "trimmed_text n s \<longleftrightarrow> \<not> blank s \<and> s = strip s \<and> length s \<le> n"

definition require_text :: "nat \<Rightarrow> str \<Rightarrow> str result" where
  "require_text n s = raise_if (\<not> trimmed_text n s) ProjectContractError (Inr s)"

definition is_sha256 :: "str \<Rightarrow> bool" where
  "is_sha256 s \<longleftrightarrow> length s = 64 \<and> (\<forall>c\<in>set s. c \<in> set ''0123456789abcdef'')"

definition require_sha256 :: "str \<Rightarrow> str result" where
  "require_sha256 s = raise_if (\<not> is_sha256 s) ProjectContractError (Inr s)"

definition require_digest_tuple :: "str list \<Rightarrow> str list result" where
  "require_digest_tuple vs =
     (let c = sort vs
      in raise_if (c = [] \<or> c \<noteq> vs \<or> card (set c) \<noteq> length c) ProjectContractError
         (bind_res (seq_res (map require_sha256 c)) (\<lambda>_. Inr c)))"

subsection \<open>The intent\<close>

record project_intent =
  pi_goal :: str
  pi_description :: str
  pi_priority :: str
  pi_constraints :: "(str \<times> json) list"
  pi_required_capabilities :: "str list"

definition canonical_intent :: "project_intent \<Rightarrow> json" where
  "canonical_intent i =
     JObj [(''goal'', JStr (pi_goal i)), (''description'', JStr (pi_description i)), (''priority'', JStr (pi_priority i)),
           (''constraints'', JObj (pi_constraints i)), (''required_capabilities'', jstrs (pi_required_capabilities i))]"

definition intent_fingerprint :: "platform \<Rightarrow> project_intent \<Rightarrow> str" where
  "intent_fingerprint pf i = project_sha256 pf (canonical_intent i)"

fun unhashable :: "json \<Rightarrow> bool" where
  "unhashable (JArr _) = True"
| "unhashable (JObj _) = True"
| "unhashable _ = False"

text \<open>\<open>dict(v)\<close> of a JSON value: an object, or a sequence of pairs with hashable first components.\<close>

definition pair_of :: "json \<Rightarrow> (json \<times> json) result" where
  "pair_of v = bind_res (py_elements v) (\<lambda>xs.
     case xs of [k, x] \<Rightarrow> raise_if (unhashable k) TypeError (Inr (k, x)) | _ \<Rightarrow> Inl ValueError)"

definition dict_of :: "json \<Rightarrow> (json \<times> json) list result" where
  "dict_of v =
     (case v of
        JObj ms \<Rightarrow> Inr (map (\<lambda>(k, x). (JStr k, x)) ms)
      | _ \<Rightarrow> bind_res (py_elements v) (\<lambda>xs. bind_res (seq_res (map pair_of xs)) (\<lambda>ps.
               Inr (fold (\<lambda>(k, x). dict_set k x) ps []))))"

definition str_key :: "json \<times> json \<Rightarrow> (str \<times> json) result" where
  "str_key m = (case fst m of JStr k \<Rightarrow> Inr (k, snd m) | _ \<Rightarrow> Inl ProjectContractError)"

definition text_arg :: "nat \<Rightarrow> json \<Rightarrow> str result" where
  "text_arg n v = (case v of JStr s \<Rightarrow> require_text n s | _ \<Rightarrow> Inl ProjectContractError)"

definition capability_arg :: "json \<Rightarrow> str result" where
  "capability_arg v = bind_res (text_arg 128 v) (\<lambda>s. raise_if (CHR ''.'' \<notin> set s) ProjectContractError (Inr s))"

definition constraints_arg :: "json \<Rightarrow> (str \<times> json) list result" where
  "constraints_arg v =
     (if falsy_json v then Inr []
      else bind_res (dict_of v) (\<lambda>d.
           bind_res (seq_res (map str_key d)) (\<lambda>ms.
           bind_res (normalize_json (JObj ms)) (\<lambda>_. Inr ms))))"

definition new_intent :: "json \<Rightarrow> json \<Rightarrow> json \<Rightarrow> json \<Rightarrow> json list \<Rightarrow> project_intent result" where
  "new_intent goal description priority constraints capabilities =
     bind_res (text_arg 2000 goal) (\<lambda>g.
     bind_res (case description of JStr s \<Rightarrow> raise_if (length s > 20000) ProjectContractError (Inr s) | _ \<Rightarrow> Inl ProjectContractError) (\<lambda>d.
     bind_res (case priority of
                 JStr s \<Rightarrow> raise_if (s \<notin> {''low'', ''medium'', ''high'', ''critical''}) ProjectContractError (Inr s)
               | JArr _ \<Rightarrow> Inl TypeError | JObj _ \<Rightarrow> Inl TypeError | _ \<Rightarrow> Inl ProjectContractError) (\<lambda>p.
       raise_if (length capabilities > 64) ProjectContractError
       (raise_if (\<exists>c\<in>set capabilities. unhashable c) TypeError
       (raise_if (card (set capabilities) \<noteq> length capabilities) ProjectContractError
       (bind_res (seq_res (map capability_arg capabilities)) (\<lambda>caps.
        bind_res (constraints_arg constraints) (\<lambda>cs.
          let i = \<lparr>pi_goal = g, pi_description = d, pi_priority = p, pi_constraints = cs, pi_required_capabilities = caps\<rparr>
          in raise_if (length (utf8 (canonical_json (canonical_intent i))) > MAX_INTENT_BYTES) ProjectContractError
               (Inr i)))))))))"

text \<open>An intent that its constructor has accepted.\<close>

definition valid_intent :: "project_intent \<Rightarrow> bool" where
  "valid_intent i \<longleftrightarrow> new_intent (JStr (pi_goal i)) (JStr (pi_description i)) (JStr (pi_priority i))
     (JObj (pi_constraints i)) (map JStr (pi_required_capabilities i)) = Inr i"

subsection \<open>The completion record\<close>

record completion_record =
  cr_organization_id :: str
  cr_project_id :: str
  final_project_revision :: int
  onboarding_intent_id :: str
  cr_plan_request_fingerprint :: str
  repository_commit_sha :: str
  delivery_certificate_ids :: "str list"
  traceability_manifest_ids :: "str list"
  integration_evidence_ids :: "str list"
  cr_completed_by :: str
  cr_completed_at :: datetime

definition check_completion_record :: "completion_record \<Rightarrow> completion_record result" where
  "check_completion_record r =
     bind_res (require_text 128 (cr_organization_id r)) (\<lambda>_.
     bind_res (require_text 128 (cr_project_id r)) (\<lambda>_.
       raise_if (final_project_revision r < 0) ProjectContractError
       (bind_res (require_text 128 (onboarding_intent_id r)) (\<lambda>_.
        bind_res (require_sha256 (cr_plan_request_fingerprint r)) (\<lambda>_.
        bind_res (require_sha256 (repository_commit_sha r)) (\<lambda>_.
        bind_res (require_digest_tuple (delivery_certificate_ids r)) (\<lambda>_.
        bind_res (require_digest_tuple (traceability_manifest_ids r)) (\<lambda>_.
        bind_res (require_digest_tuple (integration_evidence_ids r)) (\<lambda>_.
        bind_res (require_text 128 (cr_completed_by r)) (\<lambda>_. Inr r))))))))))"

definition canonical_completion :: "platform \<Rightarrow> completion_record \<Rightarrow> json" where
  "canonical_completion pf r =
     JObj [(''contract_version'', JStr CONTROL_PLANE_CONTRACT_VERSION), (''record_type'', JStr ''ProjectCompletionRecord''),
           (''organization_id'', JStr (cr_organization_id r)), (''project_id'', JStr (cr_project_id r)),
           (''final_project_revision'', JInt (final_project_revision r)),
           (''onboarding_intent_id'', JStr (onboarding_intent_id r)),
           (''plan_request_fingerprint'', JStr (cr_plan_request_fingerprint r)),
           (''repository_commit_sha'', JStr (repository_commit_sha r)),
           (''delivery_certificate_ids'', jstrs (delivery_certificate_ids r)),
           (''traceability_manifest_ids'', jstrs (traceability_manifest_ids r)),
           (''integration_evidence_ids'', jstrs (integration_evidence_ids r)),
           (''completed_by'', JStr (cr_completed_by r)), (''completed_at'', JStr (timestamp pf (cr_completed_at r)))]"

definition completion_record_id :: "platform \<Rightarrow> completion_record \<Rightarrow> str" where
  "completion_record_id pf r = project_sha256 pf (canonical_completion pf r)"

subsection \<open>The project\<close>

record project =
  pj_id :: str
  pj_organization_id :: str
  pj_name :: str
  pj_description :: str
  pj_intent :: project_intent
  pj_status :: project_status
  pj_created_by :: str
  pj_created_at :: datetime
  pj_updated_at :: datetime
  launched_by :: "str option"
  launched_at :: "datetime option"
  launch_request_fingerprint :: "str option"
  launch_command_id :: "str option"
  active_plan_request_fingerprint :: "str option"
  active_scope_activated_by :: "str option"
  active_scope_activated_at :: "datetime option"
  active_scope_command_id :: "str option"
  completion_requested_by :: "str option"
  completion_requested_at :: "datetime option"
  completion_request_command_id :: "str option"
  pj_completion_record_id :: "str option"
  pj_completed_by :: "str option"
  pj_completed_at :: "datetime option"
  cancelled_by :: "str option"
  cancelled_at :: "datetime option"
  cancel_command_id :: "str option"
  cancellation_reason :: "str option"
  archived_by :: "str option"
  archived_at :: "datetime option"
  archive_command_id :: "str option"
  archived_from_status :: "project_status option"
  continued_from_project_id :: "str option"
  pj_revision :: int
  pj_contract_version :: str

text \<open>\<open>immutable_dict\<close>: the content that no transition changes, and its fingerprint.\<close>

definition immutable_dict :: "platform \<Rightarrow> project \<Rightarrow> json" where
  "immutable_dict pf p =
     JObj ([(''contract_version'', JStr (pj_contract_version p)), (''project_id'', JStr (pj_id p)),
            (''organization_id'', JStr (pj_organization_id p)), (''name'', JStr (pj_name p)),
            (''description'', JStr (pj_description p)), (''intent'', canonical_intent (pj_intent p)),
            (''intent_fingerprint'', JStr (intent_fingerprint pf (pj_intent p))),
            (''created_by'', JStr (pj_created_by p)), (''created_at'', JStr (timestamp pf (pj_created_at p)))]
       @ (case continued_from_project_id p of None \<Rightarrow> [] | Some c \<Rightarrow> [(''continued_from_project_id'', JStr c)]))"

definition project_fingerprint :: "platform \<Rightarrow> project \<Rightarrow> str" where
  "project_fingerprint pf p = project_sha256 pf (immutable_dict pf p)"

definition launch_fingerprint :: "platform \<Rightarrow> project \<Rightarrow> str \<Rightarrow> str \<Rightarrow> str" where
  "launch_fingerprint pf p actor command =
     project_sha256 pf (JObj [(''contract_version'', JStr (pj_contract_version p)),
       (''command_type'', JStr ''LaunchProjectCommand''), (''command_id'', JStr command),
       (''organization_id'', JStr (pj_organization_id p)), (''project_id'', JStr (pj_id p)),
       (''project_fingerprint'', JStr (project_fingerprint pf p)), (''requested_by'', JStr actor)])"

text \<open>
  Groups of fields.  \<open>any(fields)\<close> asks for a true value (a non-empty string, a datetime, a
  status), \<open>any(item is None ...)\<close> for a missing one.
\<close>

definition any_launch :: "project \<Rightarrow> bool" where
  "any_launch p \<longleftrightarrow> \<not> falsy_opt (launched_by p) \<or> launched_at p \<noteq> None \<or> \<not> falsy_opt (launch_request_fingerprint p)
     \<or> \<not> falsy_opt (launch_command_id p)"

definition any_scope :: "project \<Rightarrow> bool" where
  "any_scope p \<longleftrightarrow> \<not> falsy_opt (active_plan_request_fingerprint p) \<or> \<not> falsy_opt (active_scope_activated_by p)
     \<or> active_scope_activated_at p \<noteq> None \<or> \<not> falsy_opt (active_scope_command_id p)"

definition any_completion_request :: "project \<Rightarrow> bool" where
  "any_completion_request p \<longleftrightarrow> \<not> falsy_opt (completion_requested_by p) \<or> completion_requested_at p \<noteq> None
     \<or> \<not> falsy_opt (completion_request_command_id p)"

definition any_completed :: "project \<Rightarrow> bool" where
  "any_completed p \<longleftrightarrow> \<not> falsy_opt (pj_completion_record_id p) \<or> \<not> falsy_opt (pj_completed_by p) \<or> pj_completed_at p \<noteq> None"

definition any_cancelled :: "project \<Rightarrow> bool" where
  "any_cancelled p \<longleftrightarrow> \<not> falsy_opt (cancelled_by p) \<or> cancelled_at p \<noteq> None \<or> \<not> falsy_opt (cancel_command_id p)
     \<or> \<not> falsy_opt (cancellation_reason p)"

definition any_archive :: "project \<Rightarrow> bool" where
  "any_archive p \<longleftrightarrow> \<not> falsy_opt (archived_by p) \<or> archived_at p \<noteq> None \<or> \<not> falsy_opt (archive_command_id p)
     \<or> archived_from_status p \<noteq> None"

definition missing_launch :: "project \<Rightarrow> bool" where
  "missing_launch p \<longleftrightarrow> launched_by p = None \<or> launched_at p = None \<or> launch_request_fingerprint p = None \<or> launch_command_id p = None"

definition missing_scope :: "project \<Rightarrow> bool" where
  "missing_scope p \<longleftrightarrow> active_plan_request_fingerprint p = None \<or> active_scope_activated_by p = None
     \<or> active_scope_activated_at p = None \<or> active_scope_command_id p = None"

definition missing_completion_request :: "project \<Rightarrow> bool" where
  "missing_completion_request p \<longleftrightarrow> completion_requested_by p = None \<or> completion_requested_at p = None
     \<or> completion_request_command_id p = None"

definition missing_completed :: "project \<Rightarrow> bool" where
  "missing_completed p \<longleftrightarrow> pj_completion_record_id p = None \<or> pj_completed_by p = None \<or> pj_completed_at p = None"

definition missing_cancelled :: "project \<Rightarrow> bool" where
  "missing_cancelled p \<longleftrightarrow> cancelled_by p = None \<or> cancelled_at p = None \<or> cancel_command_id p = None \<or> cancellation_reason p = None"

definition missing_archive :: "project \<Rightarrow> bool" where
  "missing_archive p \<longleftrightarrow> archived_by p = None \<or> archived_at p = None \<or> archive_command_id p = None \<or> archived_from_status p = None"

text \<open>\<open>value or ""\<close>.\<close>

definition or_empty :: "str option \<Rightarrow> str" where
  "or_empty v = (case v of None \<Rightarrow> [] | Some s \<Rightarrow> s)"

definition validate_completion_request :: "project \<Rightarrow> unit result" where
  "validate_completion_request p =
     bind_res (require_text 128 (or_empty (completion_requested_by p))) (\<lambda>_.
     bind_res (require_text 128 (or_empty (completion_request_command_id p))) (\<lambda>_.
       raise_if (completion_requested_at p = None) ProjectContractError (Inr ())))"

definition validate_completed :: "project \<Rightarrow> unit result" where
  "validate_completed p =
     bind_res (require_sha256 (or_empty (pj_completion_record_id p))) (\<lambda>_.
     bind_res (require_text 128 (or_empty (pj_completed_by p))) (\<lambda>_.
       raise_if (pj_completed_at p = None) ProjectContractError (Inr ())))"

definition validate_cancelled :: "project \<Rightarrow> unit result" where
  "validate_cancelled p =
     bind_res (require_text 128 (or_empty (cancelled_by p))) (\<lambda>_.
     bind_res (require_text 128 (or_empty (cancel_command_id p))) (\<lambda>_.
     bind_res (require_text 2000 (or_empty (cancellation_reason p))) (\<lambda>_.
       raise_if (cancelled_at p = None) ProjectContractError (Inr ()))))"

subsection \<open>The constructor's checks\<close>

text \<open>\<open>Project.__post_init__\<close> in three parts: the status once the scope is complete, the launch, the fields.\<close>

definition check_terminal :: "project \<Rightarrow> unit result" where
  "check_terminal p =
     (case pj_status p of
        PS_ACTIVE \<Rightarrow>
          raise_if (any_completion_request p \<or> any_completed p \<or> any_cancelled p \<or> any_archive p) ProjectContractError
          (raise_if (pj_revision p < 2) ProjectContractError (Inr ()))
      | PS_COMPLETION_PENDING \<Rightarrow>
          raise_if (missing_completion_request p) ProjectContractError
          (raise_if (any_completed p \<or> any_cancelled p \<or> any_archive p) ProjectContractError
            (validate_completion_request p))
      | PS_COMPLETED \<Rightarrow>
          raise_if (missing_completion_request p \<or> missing_completed p) ProjectContractError
          (raise_if (any_cancelled p \<or> any_archive p) ProjectContractError
            (bind_res (validate_completion_request p) (\<lambda>_. validate_completed p)))
      | PS_CANCELLED \<Rightarrow>
          raise_if (any_completion_request p \<or> any_completed p \<or> any_archive p) ProjectContractError
          (raise_if (missing_cancelled p) ProjectContractError (validate_cancelled p))
      | PS_ARCHIVED \<Rightarrow>
          raise_if (missing_archive p) ProjectContractError
          (bind_res (require_text 128 (or_empty (archived_by p))) (\<lambda>_.
           bind_res (require_text 128 (or_empty (archive_command_id p))) (\<lambda>_.
             case archived_from_status p of
               Some PS_COMPLETED \<Rightarrow>
                 raise_if (missing_completion_request p \<or> missing_completed p \<or> any_cancelled p) ProjectContractError
                 (bind_res (validate_completion_request p) (\<lambda>_. validate_completed p))
             | Some PS_CANCELLED \<Rightarrow>
                 raise_if (any_completion_request p \<or> any_completed p \<or> missing_cancelled p) ProjectContractError
                 (validate_cancelled p)
             | _ \<Rightarrow> Inl ProjectContractError)))
      | _ \<Rightarrow> Inr ())"

definition check_lifecycle :: "platform \<Rightarrow> project \<Rightarrow> unit result" where
  "check_lifecycle pf p =
     (if pj_status p = PS_CREATED
      then raise_if (any_launch p \<or> any_scope p \<or> any_completion_request p \<or> any_completed p \<or> any_cancelled p \<or> any_archive p)
             ProjectContractError (raise_if (pj_revision p \<noteq> 0) ProjectContractError (Inr ()))
      else
        raise_if (missing_launch p) ProjectContractError
        (bind_res (require_text 128 (or_empty (launched_by p))) (\<lambda>_.
         bind_res (require_sha256 (or_empty (launch_request_fingerprint p))) (\<lambda>_.
         bind_res (require_text 128 (or_empty (launch_command_id p))) (\<lambda>_.
           raise_if (launch_request_fingerprint p
               \<noteq> Some (launch_fingerprint pf p (or_empty (launched_by p)) (or_empty (launch_command_id p)))) ProjectContractError
           (if pj_status p = PS_LAUNCH_REQUESTED
            then raise_if (any_scope p \<or> any_completion_request p \<or> any_completed p \<or> any_cancelled p \<or> any_archive p)
                   ProjectContractError (raise_if (pj_revision p \<noteq> 1) ProjectContractError (Inr ()))
            else
              raise_if (missing_scope p) ProjectContractError
              (bind_res (require_sha256 (or_empty (active_plan_request_fingerprint p))) (\<lambda>_.
               bind_res (require_text 128 (or_empty (active_scope_activated_by p))) (\<lambda>_.
               bind_res (require_text 128 (or_empty (active_scope_command_id p))) (\<lambda>_. check_terminal p))))))))))"

definition check_continuation :: "project \<Rightarrow> unit result" where
  "check_continuation p =
     (case continued_from_project_id p of
        None \<Rightarrow> Inr ()
      | Some c \<Rightarrow> bind_res (require_text 128 c) (\<lambda>_. raise_if (c = pj_id p) ProjectContractError (Inr ())))"

definition check_project :: "platform \<Rightarrow> project \<Rightarrow> project result" where
  "check_project pf p =
     bind_res (require_text 128 (pj_id p)) (\<lambda>_.
     bind_res (require_text 128 (pj_organization_id p)) (\<lambda>_.
     bind_res (require_text 255 (pj_name p)) (\<lambda>_.
       raise_if (length (pj_description p) > 20000) ProjectContractError
       (bind_res (require_text 128 (pj_created_by p)) (\<lambda>_.
        bind_res (check_continuation p) (\<lambda>_.
          raise_if (pj_contract_version p \<noteq> CONTROL_PLANE_CONTRACT_VERSION) ProjectContractError
          (raise_if (pj_revision p < 0) ProjectContractError
            (bind_res (check_lifecycle pf p) (\<lambda>_. Inr p)))))))))"

subsection \<open>Transitions\<close>

text \<open>\<open>timestamp or datetime.now(timezone.utc)\<close>.\<close>

definition or_now :: "time \<Rightarrow> datetime option \<Rightarrow> datetime" where
  "or_now now ts = (case ts of None \<Rightarrow> Aware now | Some d \<Rightarrow> d)"

definition create_project ::
  "platform \<Rightarrow> time \<Rightarrow> str \<Rightarrow> str \<Rightarrow> str \<Rightarrow> str \<Rightarrow> project_intent \<Rightarrow> str \<Rightarrow> datetime option \<Rightarrow> str option \<Rightarrow> project result" where
  "create_project pf now i org name description intent actor ts cont =
     check_project pf
       \<lparr>pj_id = i, pj_organization_id = org, pj_name = name, pj_description = description, pj_intent = intent,
        pj_status = PS_CREATED, pj_created_by = actor, pj_created_at = or_now now ts, pj_updated_at = or_now now ts,
        launched_by = None, launched_at = None, launch_request_fingerprint = None, launch_command_id = None,
        active_plan_request_fingerprint = None, active_scope_activated_by = None, active_scope_activated_at = None,
        active_scope_command_id = None, completion_requested_by = None, completion_requested_at = None,
        completion_request_command_id = None, pj_completion_record_id = None, pj_completed_by = None,
        pj_completed_at = None, cancelled_by = None, cancelled_at = None, cancel_command_id = None,
        cancellation_reason = None, archived_by = None, archived_at = None, archive_command_id = None,
        archived_from_status = None, continued_from_project_id = cont, pj_revision = 0,
        pj_contract_version = CONTROL_PLANE_CONTRACT_VERSION\<rparr>"

definition ordinary_work_allowed :: "project \<Rightarrow> bool" where
  "ordinary_work_allowed p \<longleftrightarrow> pj_status p = PS_ACTIVE"

definition request_launch :: "platform \<Rightarrow> time \<Rightarrow> str \<Rightarrow> str \<Rightarrow> str \<Rightarrow> datetime option \<Rightarrow> project \<Rightarrow> project result" where
  "request_launch pf now actor command expected ts p =
     raise_if (pj_status p \<noteq> PS_CREATED) ProjectStateError
     (raise_if (expected \<noteq> project_fingerprint pf p) ProjectFingerprintError
     (bind_res (require_text 128 actor) (\<lambda>_.
      bind_res (require_text 128 command) (\<lambda>_.
        check_project pf (p\<lparr>pj_status := PS_LAUNCH_REQUESTED, launched_by := Some actor, launched_at := Some (or_now now ts),
          launch_request_fingerprint := Some (launch_fingerprint pf p actor command), launch_command_id := Some command,
          pj_updated_at := or_now now ts, pj_revision := pj_revision p + 1\<rparr>)))))"

definition activate_scope :: "platform \<Rightarrow> time \<Rightarrow> str \<Rightarrow> str \<Rightarrow> str \<Rightarrow> int \<Rightarrow> datetime option \<Rightarrow> project \<Rightarrow> project result" where
  "activate_scope pf now actor command plan expected ts p =
     raise_if (pj_status p \<notin> {PS_LAUNCH_REQUESTED, PS_ACTIVE}) ProjectStateError
     (raise_if (expected \<noteq> pj_revision p) ProjectStateError
     (bind_res (require_text 128 actor) (\<lambda>_.
      bind_res (require_text 128 command) (\<lambda>_.
      bind_res (require_sha256 plan) (\<lambda>_.
        check_project pf (p\<lparr>pj_status := PS_ACTIVE, active_plan_request_fingerprint := Some plan,
          active_scope_activated_by := Some actor, active_scope_activated_at := Some (or_now now ts),
          active_scope_command_id := Some command, pj_updated_at := or_now now ts, pj_revision := pj_revision p + 1\<rparr>))))))"

definition request_completion :: "platform \<Rightarrow> time \<Rightarrow> str \<Rightarrow> str \<Rightarrow> int \<Rightarrow> str \<Rightarrow> datetime option \<Rightarrow> project \<Rightarrow> project result" where
  "request_completion pf now actor command expected plan ts p =
     raise_if (pj_status p \<noteq> PS_ACTIVE) ProjectStateError
     (raise_if (expected \<noteq> pj_revision p) ProjectStateError
     (bind_res (require_sha256 plan) (\<lambda>_.
        raise_if (active_plan_request_fingerprint p \<noteq> Some plan) ProjectFingerprintError
        (bind_res (require_text 128 actor) (\<lambda>_.
         bind_res (require_text 128 command) (\<lambda>_.
           check_project pf (p\<lparr>pj_status := PS_COMPLETION_PENDING, completion_requested_by := Some actor,
             completion_requested_at := Some (or_now now ts), completion_request_command_id := Some command,
             pj_updated_at := or_now now ts, pj_revision := pj_revision p + 1\<rparr>)))))))"

definition complete_project :: "platform \<Rightarrow> completion_record \<Rightarrow> int \<Rightarrow> project \<Rightarrow> project result" where
  "complete_project pf rec expected p =
     raise_if (pj_status p \<noteq> PS_COMPLETION_PENDING) ProjectStateError
     (raise_if (expected \<noteq> pj_revision p) ProjectStateError
     (raise_if (cr_organization_id rec \<noteq> pj_organization_id p \<or> cr_project_id rec \<noteq> pj_id p) ProjectFingerprintError
     (raise_if (final_project_revision rec \<noteq> pj_revision p) ProjectFingerprintError
     (raise_if (Some (cr_plan_request_fingerprint rec) \<noteq> active_plan_request_fingerprint p) ProjectFingerprintError
       (check_project pf (p\<lparr>pj_status := PS_COMPLETED, pj_completion_record_id := Some (completion_record_id pf rec),
          pj_completed_by := Some (cr_completed_by rec), pj_completed_at := Some (cr_completed_at rec),
          pj_updated_at := cr_completed_at rec, pj_revision := pj_revision p + 1\<rparr>))))))"

definition cancel_project :: "platform \<Rightarrow> time \<Rightarrow> str \<Rightarrow> str \<Rightarrow> str \<Rightarrow> int \<Rightarrow> datetime option \<Rightarrow> project \<Rightarrow> project result" where
  "cancel_project pf now actor command reason expected ts p =
     raise_if (pj_status p \<notin> {PS_ACTIVE, PS_COMPLETION_PENDING}) ProjectStateError
     (raise_if (expected \<noteq> pj_revision p) ProjectStateError
     (bind_res (require_text 128 actor) (\<lambda>_.
      bind_res (require_text 128 command) (\<lambda>_.
      bind_res (require_text 2000 reason) (\<lambda>_.
        check_project pf (p\<lparr>pj_status := PS_CANCELLED, completion_requested_by := None, completion_requested_at := None,
          completion_request_command_id := None, cancelled_by := Some actor, cancelled_at := Some (or_now now ts),
          cancel_command_id := Some command, cancellation_reason := Some reason, pj_updated_at := or_now now ts,
          pj_revision := pj_revision p + 1\<rparr>))))))"

definition archive_project :: "platform \<Rightarrow> time \<Rightarrow> str \<Rightarrow> str \<Rightarrow> int \<Rightarrow> datetime option \<Rightarrow> project \<Rightarrow> project result" where
  "archive_project pf now actor command expected ts p =
     raise_if (pj_status p \<notin> {PS_COMPLETED, PS_CANCELLED}) ProjectStateError
     (raise_if (expected \<noteq> pj_revision p) ProjectStateError
     (bind_res (require_text 128 actor) (\<lambda>_.
      bind_res (require_text 128 command) (\<lambda>_.
        check_project pf (p\<lparr>pj_status := PS_ARCHIVED, archived_by := Some actor, archived_at := Some (or_now now ts),
          archive_command_id := Some command, archived_from_status := Some (pj_status p), pj_updated_at := or_now now ts,
          pj_revision := pj_revision p + 1\<rparr>)))))"

subsection \<open>What a well-formed project looks like\<close>

lemma require_text_Inr [simp]: "require_text n s = Inr x \<longleftrightarrow> x = s \<and> trimmed_text n s"
  by (auto simp: require_text_def)

lemma require_sha256_Inr [simp]: "require_sha256 s = Inr x \<longleftrightarrow> x = s \<and> is_sha256 s"
  by (auto simp: require_sha256_def)

lemma not_trimmed_Nil [simp]: "\<not> trimmed_text n []" "\<not> is_sha256 []"
  by (simp_all add: trimmed_text_def is_sha256_def)

lemma or_empty_simps [simp]: "or_empty (Some s) = s" "or_empty None = []"
  by (simp_all add: or_empty_def)

definition text_present :: "nat \<Rightarrow> str option \<Rightarrow> bool" where
  "text_present n v \<longleftrightarrow> trimmed_text n (or_empty v)"

definition launch_ok :: "platform \<Rightarrow> project \<Rightarrow> bool" where
  "launch_ok pf p \<longleftrightarrow> text_present 128 (launched_by p) \<and> launched_at p \<noteq> None \<and> text_present 128 (launch_command_id p)
     \<and> is_sha256 (or_empty (launch_request_fingerprint p))
     \<and> launch_request_fingerprint p = Some (launch_fingerprint pf p (or_empty (launched_by p)) (or_empty (launch_command_id p)))"

definition scope_ok :: "project \<Rightarrow> bool" where
  "scope_ok p \<longleftrightarrow> is_sha256 (or_empty (active_plan_request_fingerprint p)) \<and> text_present 128 (active_scope_activated_by p)
     \<and> active_scope_activated_at p \<noteq> None \<and> text_present 128 (active_scope_command_id p)"

definition completion_request_ok :: "project \<Rightarrow> bool" where
  "completion_request_ok p \<longleftrightarrow> text_present 128 (completion_requested_by p) \<and> completion_requested_at p \<noteq> None
     \<and> text_present 128 (completion_request_command_id p)"

definition completed_ok :: "project \<Rightarrow> bool" where
  "completed_ok p \<longleftrightarrow> is_sha256 (or_empty (pj_completion_record_id p)) \<and> text_present 128 (pj_completed_by p) \<and> pj_completed_at p \<noteq> None"

definition cancelled_ok :: "project \<Rightarrow> bool" where
  "cancelled_ok p \<longleftrightarrow> text_present 128 (cancelled_by p) \<and> cancelled_at p \<noteq> None \<and> text_present 128 (cancel_command_id p)
     \<and> text_present 2000 (cancellation_reason p)"

definition archive_ok :: "project \<Rightarrow> bool" where
  "archive_ok p \<longleftrightarrow> text_present 128 (archived_by p) \<and> archived_at p \<noteq> None \<and> text_present 128 (archive_command_id p)"

definition lifecycle_ok :: "platform \<Rightarrow> project \<Rightarrow> bool" where
  "lifecycle_ok pf p \<longleftrightarrow>
     (case pj_status p of
        PS_CREATED \<Rightarrow> \<not> any_launch p \<and> \<not> any_scope p \<and> \<not> any_completion_request p \<and> \<not> any_completed p \<and> \<not> any_cancelled p
          \<and> \<not> any_archive p \<and> pj_revision p = 0
      | PS_LAUNCH_REQUESTED \<Rightarrow> launch_ok pf p \<and> \<not> any_scope p \<and> \<not> any_completion_request p \<and> \<not> any_completed p
          \<and> \<not> any_cancelled p \<and> \<not> any_archive p \<and> pj_revision p = 1
      | PS_ACTIVE \<Rightarrow> launch_ok pf p \<and> scope_ok p \<and> \<not> any_completion_request p \<and> \<not> any_completed p \<and> \<not> any_cancelled p
          \<and> \<not> any_archive p \<and> 2 \<le> pj_revision p
      | PS_COMPLETION_PENDING \<Rightarrow> launch_ok pf p \<and> scope_ok p \<and> completion_request_ok p \<and> \<not> any_completed p
          \<and> \<not> any_cancelled p \<and> \<not> any_archive p
      | PS_COMPLETED \<Rightarrow> launch_ok pf p \<and> scope_ok p \<and> completion_request_ok p \<and> completed_ok p \<and> \<not> any_cancelled p \<and> \<not> any_archive p
      | PS_CANCELLED \<Rightarrow> launch_ok pf p \<and> scope_ok p \<and> \<not> any_completion_request p \<and> \<not> any_completed p \<and> cancelled_ok p \<and> \<not> any_archive p
      | PS_ARCHIVED \<Rightarrow> launch_ok pf p \<and> scope_ok p \<and> archive_ok p
          \<and> (archived_from_status p = Some PS_COMPLETED \<and> completion_request_ok p \<and> completed_ok p \<and> \<not> any_cancelled p
             \<or> archived_from_status p = Some PS_CANCELLED \<and> \<not> any_completion_request p \<and> \<not> any_completed p \<and> cancelled_ok p))"

definition identity_ok :: "project \<Rightarrow> bool" where
  "identity_ok p \<longleftrightarrow> trimmed_text 128 (pj_id p) \<and> trimmed_text 128 (pj_organization_id p) \<and> trimmed_text 255 (pj_name p)
     \<and> length (pj_description p) \<le> 20000 \<and> trimmed_text 128 (pj_created_by p)
     \<and> (\<forall>c. continued_from_project_id p = Some c \<longrightarrow> trimmed_text 128 c \<and> c \<noteq> pj_id p)
     \<and> pj_contract_version p = CONTROL_PLANE_CONTRACT_VERSION"

lemma present_iff:
  "trimmed_text n (or_empty v) \<longleftrightarrow> (\<exists>s. v = Some s \<and> trimmed_text n s)"
  "is_sha256 (or_empty v) \<longleftrightarrow> (\<exists>s. v = Some s \<and> is_sha256 s)"
  by (cases v; simp)+

lemma validate_Inr:
  "missing_completion_request p \<or> validate_completion_request p \<noteq> Inr () \<longleftrightarrow> \<not> completion_request_ok p"
  "missing_completed p \<or> validate_completed p \<noteq> Inr () \<longleftrightarrow> \<not> completed_ok p"
  "missing_cancelled p \<or> validate_cancelled p \<noteq> Inr () \<longleftrightarrow> \<not> cancelled_ok p"
  by (auto simp: missing_completion_request_def validate_completion_request_def completion_request_ok_def
      missing_completed_def validate_completed_def completed_ok_def missing_cancelled_def validate_cancelled_def cancelled_ok_def
      text_present_def bind_res_Inr_iff)

lemma check_terminal_Inr:
  "check_terminal p = Inr () \<longleftrightarrow>
     (case pj_status p of
        PS_ACTIVE \<Rightarrow> \<not> any_completion_request p \<and> \<not> any_completed p \<and> \<not> any_cancelled p \<and> \<not> any_archive p \<and> 2 \<le> pj_revision p
      | PS_COMPLETION_PENDING \<Rightarrow> completion_request_ok p \<and> \<not> any_completed p \<and> \<not> any_cancelled p \<and> \<not> any_archive p
      | PS_COMPLETED \<Rightarrow> completion_request_ok p \<and> completed_ok p \<and> \<not> any_cancelled p \<and> \<not> any_archive p
      | PS_CANCELLED \<Rightarrow> \<not> any_completion_request p \<and> \<not> any_completed p \<and> cancelled_ok p \<and> \<not> any_archive p
      | PS_ARCHIVED \<Rightarrow> archive_ok p
          \<and> (archived_from_status p = Some PS_COMPLETED \<and> completion_request_ok p \<and> completed_ok p \<and> \<not> any_cancelled p
             \<or> archived_from_status p = Some PS_CANCELLED \<and> \<not> any_completion_request p \<and> \<not> any_completed p \<and> cancelled_ok p)
      | _ \<Rightarrow> True)"
proof (cases "pj_status p")
  case PS_ARCHIVED
  have "missing_archive p \<longleftrightarrow> \<not> (archived_by p \<noteq> None \<and> archived_at p \<noteq> None \<and> archive_command_id p \<noteq> None \<and> archived_from_status p \<noteq> None)"
    by (auto simp: missing_archive_def)
  with PS_ARCHIVED show ?thesis
    using validate_Inr [of p]
    by (cases "archived_from_status p")
       (auto simp: check_terminal_def archive_ok_def text_present_def bind_res_Inr_iff split: project_status.splits)
qed (use validate_Inr [of p] in \<open>auto simp: check_terminal_def bind_res_Inr_iff\<close>)

lemma check_lifecycle_Inr: "check_lifecycle pf p = Inr () \<longleftrightarrow> lifecycle_ok pf p"
proof -
  have m: "missing_launch p \<longleftrightarrow> launched_by p = None \<or> launched_at p = None \<or> launch_request_fingerprint p = None \<or> launch_command_id p = None"
    by (simp add: missing_launch_def)
  have l: "\<not> missing_launch p \<and> trimmed_text 128 (or_empty (launched_by p)) \<and> is_sha256 (or_empty (launch_request_fingerprint p))
      \<and> trimmed_text 128 (or_empty (launch_command_id p))
      \<and> launch_request_fingerprint p = Some (launch_fingerprint pf p (or_empty (launched_by p)) (or_empty (launch_command_id p)))
      \<longleftrightarrow> launch_ok pf p"
    by (auto simp: m launch_ok_def text_present_def present_iff)
  have s: "\<not> missing_scope p \<and> is_sha256 (or_empty (active_plan_request_fingerprint p))
      \<and> trimmed_text 128 (or_empty (active_scope_activated_by p)) \<and> trimmed_text 128 (or_empty (active_scope_command_id p)) \<longleftrightarrow> scope_ok p"
    by (auto simp: missing_scope_def scope_ok_def text_present_def present_iff)
  show ?thesis
    unfolding lifecycle_ok_def l [symmetric] s [symmetric]
    by (cases "pj_status p") (auto simp: check_lifecycle_def bind_res_Inr_iff check_terminal_Inr)
qed

lemma check_project_Inr: "check_project pf p = Inr q \<longleftrightarrow> q = p \<and> identity_ok p \<and> 0 \<le> pj_revision p \<and> lifecycle_ok pf p"
proof -
  have "check_continuation p = Inr () \<longleftrightarrow> (\<forall>c. continued_from_project_id p = Some c \<longrightarrow> trimmed_text 128 c \<and> c \<noteq> pj_id p)"
    by (auto simp: check_continuation_def bind_res_Inr_iff split: option.splits)
  then show ?thesis
    by (auto simp: check_project_def identity_ok_def check_lifecycle_Inr bind_res_Inr_iff)
qed

definition valid_project :: "platform \<Rightarrow> project \<Rightarrow> bool" where
  "valid_project pf p \<longleftrightarrow> check_project pf p = Inr p"

lemma valid_project_iff: "valid_project pf p \<longleftrightarrow> identity_ok p \<and> 0 \<le> pj_revision p \<and> lifecycle_ok pf p"
  by (simp add: valid_project_def check_project_Inr)

subsection \<open>Every transition that its guards allow goes through\<close>

text \<open>Documented behaviour of \<open>hexdigest\<close>: 64 lower-case hexadecimal digits.\<close>

definition sha256_digests :: "platform \<Rightarrow> bool" where
  "sha256_digests pf \<longleftrightarrow> (\<forall>m. is_sha256 (sha256_hex pf m))"

lemma digest_is_sha256:
  assumes "sha256_digests pf"
  shows "is_sha256 (launch_fingerprint pf p a c)" "is_sha256 (completion_record_id pf rec)"
  using assms by (simp_all add: sha256_digests_def launch_fingerprint_def completion_record_id_def project_sha256_def)

definition same_identity :: "project \<Rightarrow> project \<Rightarrow> bool" where
  "same_identity p q \<longleftrightarrow> pj_id p = pj_id q \<and> pj_organization_id p = pj_organization_id q \<and> pj_name p = pj_name q
     \<and> pj_description p = pj_description q \<and> pj_intent p = pj_intent q \<and> pj_created_by p = pj_created_by q
     \<and> pj_created_at p = pj_created_at q \<and> continued_from_project_id p = continued_from_project_id q
     \<and> pj_contract_version p = pj_contract_version q"

lemma same_identity_fingerprint:
  assumes "same_identity p q"
  shows "project_fingerprint pf p = project_fingerprint pf q" "launch_fingerprint pf p a c = launch_fingerprint pf q a c"
    "identity_ok p \<longleftrightarrow> identity_ok q"
  using assms by (simp_all add: same_identity_def project_fingerprint_def immutable_dict_def launch_fingerprint_def identity_ok_def)

lemma same_identity_refl [simp]: "same_identity p p"
  and same_identity_trans: "same_identity p q \<Longrightarrow> same_identity q r \<Longrightarrow> same_identity p r"
  by (simp_all add: same_identity_def)

text \<open>The projects the transitions build.\<close>

definition launched :: "platform \<Rightarrow> str \<Rightarrow> str \<Rightarrow> datetime \<Rightarrow> project \<Rightarrow> project" where
  "launched pf actor command at_time p = p\<lparr>pj_status := PS_LAUNCH_REQUESTED, launched_by := Some actor, launched_at := Some at_time,
     launch_request_fingerprint := Some (launch_fingerprint pf p actor command), launch_command_id := Some command,
     pj_updated_at := at_time, pj_revision := pj_revision p + 1\<rparr>"

definition activated :: "str \<Rightarrow> str \<Rightarrow> str \<Rightarrow> datetime \<Rightarrow> project \<Rightarrow> project" where
  "activated actor command plan at_time p = p\<lparr>pj_status := PS_ACTIVE, active_plan_request_fingerprint := Some plan,
     active_scope_activated_by := Some actor, active_scope_activated_at := Some at_time,
     active_scope_command_id := Some command, pj_updated_at := at_time, pj_revision := pj_revision p + 1\<rparr>"

definition completing :: "str \<Rightarrow> str \<Rightarrow> datetime \<Rightarrow> project \<Rightarrow> project" where
  "completing actor command at_time p = p\<lparr>pj_status := PS_COMPLETION_PENDING, completion_requested_by := Some actor,
     completion_requested_at := Some at_time, completion_request_command_id := Some command,
     pj_updated_at := at_time, pj_revision := pj_revision p + 1\<rparr>"

definition completed_with :: "platform \<Rightarrow> completion_record \<Rightarrow> project \<Rightarrow> project" where
  "completed_with pf rec p = p\<lparr>pj_status := PS_COMPLETED, pj_completion_record_id := Some (completion_record_id pf rec),
     pj_completed_by := Some (cr_completed_by rec), pj_completed_at := Some (cr_completed_at rec),
     pj_updated_at := cr_completed_at rec, pj_revision := pj_revision p + 1\<rparr>"

definition cancelled :: "str \<Rightarrow> str \<Rightarrow> str \<Rightarrow> datetime \<Rightarrow> project \<Rightarrow> project" where
  "cancelled actor command reason at_time p = p\<lparr>pj_status := PS_CANCELLED, completion_requested_by := None, completion_requested_at := None,
     completion_request_command_id := None, cancelled_by := Some actor, cancelled_at := Some at_time,
     cancel_command_id := Some command, cancellation_reason := Some reason, pj_updated_at := at_time,
     pj_revision := pj_revision p + 1\<rparr>"

definition archived :: "str \<Rightarrow> str \<Rightarrow> datetime \<Rightarrow> project \<Rightarrow> project" where
  "archived actor command at_time p = p\<lparr>pj_status := PS_ARCHIVED, archived_by := Some actor, archived_at := Some at_time,
     archive_command_id := Some command, archived_from_status := Some (pj_status p), pj_updated_at := at_time,
     pj_revision := pj_revision p + 1\<rparr>"

lemmas successor_defs = launched_def activated_def completing_def completed_with_def cancelled_def archived_def
lemmas group_defs = launch_ok_def scope_ok_def completion_request_ok_def completed_ok_def cancelled_ok_def archive_ok_def
  any_launch_def any_scope_def any_completion_request_def any_completed_def any_cancelled_def any_archive_def text_present_def

lemma successor_identity [simp]:
  "same_identity (launched pf a c t p) p" "same_identity (activated a c plan t p) p" "same_identity (completing a c t p) p"
  "same_identity (completed_with pf rec p) p" "same_identity (cancelled a c rs t p) p" "same_identity (archived a c t p) p"
  by (simp_all add: same_identity_def successor_defs)

lemma successor_status [simp]:
  "pj_status (launched pf a c t p) = PS_LAUNCH_REQUESTED" "pj_status (activated a c plan t p) = PS_ACTIVE"
  "pj_status (completing a c t p) = PS_COMPLETION_PENDING" "pj_status (completed_with pf rec p) = PS_COMPLETED"
  "pj_status (cancelled a c rs t p) = PS_CANCELLED" "pj_status (archived a c t p) = PS_ARCHIVED"
  by (simp_all add: successor_defs)

lemma successor_revision [simp]:
  "pj_revision (launched pf a c t p) = pj_revision p + 1" "pj_revision (activated a c plan t p) = pj_revision p + 1"
  "pj_revision (completing a c t p) = pj_revision p + 1" "pj_revision (completed_with pf rec p) = pj_revision p + 1"
  "pj_revision (cancelled a c rs t p) = pj_revision p + 1" "pj_revision (archived a c t p) = pj_revision p + 1"
  by (simp_all add: successor_defs)

lemmas successor_fingerprint = successor_identity [THEN same_identity_fingerprint(2)] successor_identity [THEN same_identity_fingerprint(3)]

text \<open>A transition writes one group of fields and leaves the others alone.\<close>

lemma successor_keeps [simp]:
  "any_scope (launched pf a c t p) = any_scope p" "scope_ok (launched pf a c t p) = scope_ok p"
  "any_completion_request (launched pf a c t p) = any_completion_request p" "completion_request_ok (launched pf a c t p) = completion_request_ok p"
  "any_completed (launched pf a c t p) = any_completed p" "completed_ok (launched pf a c t p) = completed_ok p"
  "any_cancelled (launched pf a c t p) = any_cancelled p" "cancelled_ok (launched pf a c t p) = cancelled_ok p"
  "any_archive (launched pf a c t p) = any_archive p" "any_completion_request (activated a c plan t p) = any_completion_request p"
  "completion_request_ok (activated a c plan t p) = completion_request_ok p" "any_completed (activated a c plan t p) = any_completed p"
  "completed_ok (activated a c plan t p) = completed_ok p" "any_cancelled (activated a c plan t p) = any_cancelled p"
  "cancelled_ok (activated a c plan t p) = cancelled_ok p" "any_archive (activated a c plan t p) = any_archive p"
  "any_scope (completing a c t p) = any_scope p" "scope_ok (completing a c t p) = scope_ok p"
  "any_completed (completing a c t p) = any_completed p" "completed_ok (completing a c t p) = completed_ok p"
  "any_cancelled (completing a c t p) = any_cancelled p" "cancelled_ok (completing a c t p) = cancelled_ok p"
  "any_archive (completing a c t p) = any_archive p" "any_scope (completed_with pf rec p) = any_scope p"
  "scope_ok (completed_with pf rec p) = scope_ok p" "any_completion_request (completed_with pf rec p) = any_completion_request p"
  "completion_request_ok (completed_with pf rec p) = completion_request_ok p" "any_cancelled (completed_with pf rec p) = any_cancelled p"
  "cancelled_ok (completed_with pf rec p) = cancelled_ok p" "any_archive (completed_with pf rec p) = any_archive p"
  "any_scope (cancelled a c rs t p) = any_scope p" "scope_ok (cancelled a c rs t p) = scope_ok p"
  "any_completed (cancelled a c rs t p) = any_completed p" "completed_ok (cancelled a c rs t p) = completed_ok p"
  "any_archive (cancelled a c rs t p) = any_archive p" "any_scope (archived a c t p) = any_scope p"
  "scope_ok (archived a c t p) = scope_ok p" "any_completion_request (archived a c t p) = any_completion_request p"
  "completion_request_ok (archived a c t p) = completion_request_ok p" "any_completed (archived a c t p) = any_completed p"
  "completed_ok (archived a c t p) = completed_ok p" "any_cancelled (archived a c t p) = any_cancelled p"
  "cancelled_ok (archived a c t p) = cancelled_ok p"
  by (simp_all add: group_defs successor_defs)

lemma successor_keeps_launch [simp]:
  "launch_ok pf (activated a c plan t p) = launch_ok pf p" "launch_ok pf (completing a c t p) = launch_ok pf p"
  "launch_ok pf (completed_with pf' rec p) = launch_ok pf p" "launch_ok pf (cancelled a c rs t p) = launch_ok pf p"
  "launch_ok pf (archived a c t p) = launch_ok pf p"
  unfolding launch_ok_def successor_fingerprint by (simp_all add: successor_defs)

lemma successor_writes:
  "sha256_digests pf \<Longrightarrow> trimmed_text 128 a \<Longrightarrow> trimmed_text 128 c \<Longrightarrow> launch_ok pf (launched pf a c t p)"
  "trimmed_text 128 a \<Longrightarrow> trimmed_text 128 c \<Longrightarrow> is_sha256 plan \<Longrightarrow> scope_ok (activated a c plan t p)"
  "trimmed_text 128 a \<Longrightarrow> trimmed_text 128 c \<Longrightarrow> completion_request_ok (completing a c t p)"
  "sha256_digests pf \<Longrightarrow> trimmed_text 128 (cr_completed_by rec) \<Longrightarrow> completed_ok (completed_with pf rec p)"
  "trimmed_text 128 a \<Longrightarrow> trimmed_text 128 c \<Longrightarrow> trimmed_text 2000 rs \<Longrightarrow> cancelled_ok (cancelled a c rs t p)"
  "trimmed_text 128 a \<Longrightarrow> trimmed_text 128 c \<Longrightarrow> archive_ok (archived a c t p)"
  "\<not> any_completion_request (cancelled a c rs t p)" "archived_from_status (archived a c t p) = Some (pj_status p)"
  unfolding launch_ok_def successor_fingerprint
  by (simp_all add: group_defs successor_defs digest_is_sha256)

lemma successor_valid:
  assumes "valid_project pf p"
  shows "sha256_digests pf \<Longrightarrow> pj_status p = PS_CREATED \<Longrightarrow> trimmed_text 128 a \<Longrightarrow> trimmed_text 128 c \<Longrightarrow>
           valid_project pf (launched pf a c t p)"
    and "pj_status p \<in> {PS_LAUNCH_REQUESTED, PS_ACTIVE} \<Longrightarrow> trimmed_text 128 a \<Longrightarrow> trimmed_text 128 c \<Longrightarrow> is_sha256 plan \<Longrightarrow>
           valid_project pf (activated a c plan t p)"
    and "pj_status p = PS_ACTIVE \<Longrightarrow> trimmed_text 128 a \<Longrightarrow> trimmed_text 128 c \<Longrightarrow> valid_project pf (completing a c t p)"
    and "sha256_digests pf \<Longrightarrow> pj_status p = PS_COMPLETION_PENDING \<Longrightarrow> trimmed_text 128 (cr_completed_by rec) \<Longrightarrow>
           valid_project pf (completed_with pf rec p)"
    and "pj_status p \<in> {PS_ACTIVE, PS_COMPLETION_PENDING} \<Longrightarrow> trimmed_text 128 a \<Longrightarrow> trimmed_text 128 c \<Longrightarrow> trimmed_text 2000 rs \<Longrightarrow>
           valid_project pf (cancelled a c rs t p)"
    and "pj_status p \<in> {PS_COMPLETED, PS_CANCELLED} \<Longrightarrow> trimmed_text 128 a \<Longrightarrow> trimmed_text 128 c \<Longrightarrow> valid_project pf (archived a c t p)"
  using assms unfolding valid_project_iff lifecycle_ok_def
  by (simp_all add: successor_fingerprint successor_writes) (auto simp: successor_writes split: project_status.splits)

lemma complete_record_by: "check_completion_record rec = Inr rec \<Longrightarrow> trimmed_text 128 (cr_completed_by rec)"
  by (simp add: check_completion_record_def bind_res_Inr_iff)

lemma check_successor: "valid_project pf q \<Longrightarrow> check_project pf q = Inr q"
  by (simp add: valid_project_def)

lemma request_launch_Inr:
  assumes "valid_project pf p" "sha256_digests pf"
  shows "request_launch pf now a c e ts p = Inr q \<longleftrightarrow> pj_status p = PS_CREATED \<and> e = project_fingerprint pf p
    \<and> trimmed_text 128 a \<and> trimmed_text 128 c \<and> q = launched pf a c (or_now now ts) p"
  using check_successor [OF successor_valid(1) [OF assms, of a c "or_now now ts"]]
  by (auto simp: request_launch_def launched_def [symmetric] bind_res_Inr_iff)

lemma activate_scope_Inr:
  assumes "valid_project pf p"
  shows "activate_scope pf now a c plan e ts p = Inr q \<longleftrightarrow> pj_status p \<in> {PS_LAUNCH_REQUESTED, PS_ACTIVE} \<and> e = pj_revision p
    \<and> trimmed_text 128 a \<and> trimmed_text 128 c \<and> is_sha256 plan \<and> q = activated a c plan (or_now now ts) p"
  using check_successor [OF successor_valid(2) [OF assms, of a c plan "or_now now ts"]]
  by (auto simp: activate_scope_def activated_def [symmetric] bind_res_Inr_iff)

lemma request_completion_Inr:
  assumes "valid_project pf p"
  shows "request_completion pf now a c e plan ts p = Inr q \<longleftrightarrow> pj_status p = PS_ACTIVE \<and> e = pj_revision p
    \<and> active_plan_request_fingerprint p = Some plan \<and> trimmed_text 128 a \<and> trimmed_text 128 c
    \<and> q = completing a c (or_now now ts) p"
proof -
  have "pj_status p = PS_ACTIVE \<Longrightarrow> active_plan_request_fingerprint p = Some plan \<Longrightarrow> is_sha256 plan"
    using assms by (auto simp: valid_project_iff lifecycle_ok_def scope_ok_def)
  with check_successor [OF successor_valid(3) [OF assms, of a c "or_now now ts"]] show ?thesis
    by (auto simp: request_completion_def completing_def [symmetric] bind_res_Inr_iff)
qed

lemma complete_project_Inr:
  assumes "valid_project pf p" "sha256_digests pf" "check_completion_record rec = Inr rec"
  shows "complete_project pf rec e p = Inr q \<longleftrightarrow> pj_status p = PS_COMPLETION_PENDING \<and> e = pj_revision p
    \<and> cr_organization_id rec = pj_organization_id p \<and> cr_project_id rec = pj_id p \<and> final_project_revision rec = pj_revision p
    \<and> active_plan_request_fingerprint p = Some (cr_plan_request_fingerprint rec) \<and> q = completed_with pf rec p"
  using check_successor [OF successor_valid(4) [OF assms(1,2), of rec]] complete_record_by [OF assms(3)]
  by (auto simp: complete_project_def completed_with_def [symmetric])

lemma cancel_project_Inr:
  assumes "valid_project pf p"
  shows "cancel_project pf now a c rs e ts p = Inr q \<longleftrightarrow> pj_status p \<in> {PS_ACTIVE, PS_COMPLETION_PENDING} \<and> e = pj_revision p
    \<and> trimmed_text 128 a \<and> trimmed_text 128 c \<and> trimmed_text 2000 rs \<and> q = cancelled a c rs (or_now now ts) p"
  using check_successor [OF successor_valid(5) [OF assms, of a c rs "or_now now ts"]]
  by (auto simp: cancel_project_def cancelled_def [symmetric] bind_res_Inr_iff)

lemma archive_project_Inr:
  assumes "valid_project pf p"
  shows "archive_project pf now a c e ts p = Inr q \<longleftrightarrow> pj_status p \<in> {PS_COMPLETED, PS_CANCELLED} \<and> e = pj_revision p
    \<and> trimmed_text 128 a \<and> trimmed_text 128 c \<and> q = archived a c (or_now now ts) p"
  using check_successor [OF successor_valid(6) [OF assms, of a c "or_now now ts"]]
  by (auto simp: archive_project_def archived_def [symmetric] bind_res_Inr_iff)

lemmas transition_Inr = request_launch_Inr activate_scope_Inr request_completion_Inr complete_project_Inr cancel_project_Inr archive_project_Inr

subsection \<open>Histories\<close>

text \<open>A project and the earlier versions of it, newest first, from its creation on.\<close>

inductive project_step :: "platform \<Rightarrow> project \<Rightarrow> project \<Rightarrow> bool" for pf p where
  step_launch: "request_launch pf now a c e ts p = Inr q \<Longrightarrow> project_step pf p q"
| step_activate: "activate_scope pf now a c plan n ts p = Inr q \<Longrightarrow> project_step pf p q"
| step_request: "request_completion pf now a c n plan ts p = Inr q \<Longrightarrow> project_step pf p q"
| step_complete: "complete_project pf rec n p = Inr q \<Longrightarrow> check_completion_record rec = Inr rec \<Longrightarrow> project_step pf p q"
| step_cancel: "cancel_project pf now a c rs n ts p = Inr q \<Longrightarrow> project_step pf p q"
| step_archive: "archive_project pf now a c n ts p = Inr q \<Longrightarrow> project_step pf p q"

inductive project_history :: "platform \<Rightarrow> project list \<Rightarrow> bool" for pf where
  created: "create_project pf now i org name description intent actor ts cont = Inr p \<Longrightarrow> project_history pf [p]"
| changed: "project_history pf (p # ps) \<Longrightarrow> project_step pf p q \<Longrightarrow> project_history pf (q # p # ps)"

inductive_simps project_history_Nil: "project_history pf []"
inductive_cases project_history_ConsE: "project_history pf (p # ps)"

definition successor_states :: "project_status \<Rightarrow> project_status set" where
  "successor_states st =
     (case st of
        PS_CREATED \<Rightarrow> {PS_LAUNCH_REQUESTED}
      | PS_LAUNCH_REQUESTED \<Rightarrow> {PS_ACTIVE}
      | PS_ACTIVE \<Rightarrow> {PS_ACTIVE, PS_COMPLETION_PENDING, PS_CANCELLED}
      | PS_COMPLETION_PENDING \<Rightarrow> {PS_COMPLETED, PS_CANCELLED}
      | PS_COMPLETED \<Rightarrow> {PS_ARCHIVED}
      | PS_CANCELLED \<Rightarrow> {PS_ARCHIVED}
      | PS_ARCHIVED \<Rightarrow> {})"

lemma project_step_facts:
  assumes "project_step pf p q" "valid_project pf p" "sha256_digests pf"
  shows "valid_project pf q" "same_identity q p" "pj_revision q = pj_revision p + 1" "pj_status q \<in> successor_states (pj_status p)"
  using assms(1)
  by (cases; auto simp: transition_Inr assms(2,3) successor_valid [OF assms(2)] complete_record_by successor_states_def)+

lemma create_project_facts:
  "create_project pf now i org name description intent actor ts cont = Inr p \<Longrightarrow>
     valid_project pf p \<and> pj_status p = PS_CREATED \<and> pj_revision p = 0 \<and> pj_id p = i \<and> pj_organization_id p = org
     \<and> pj_intent p = intent \<and> continued_from_project_id p = cont \<and> pj_created_at p = or_now now ts"
  by (auto simp: create_project_def check_project_Inr valid_project_iff)

lemma project_history_valid:
  "project_history pf (p # ps) \<Longrightarrow> sha256_digests pf \<Longrightarrow>
     (\<forall>q\<in>set (p # ps). valid_project pf q \<and> same_identity p q) \<and> pj_revision p = int (length ps)"
proof (induction ps arbitrary: p)
  case Nil
  from Nil.prems(1) show ?case by (rule project_history_ConsE) (auto dest: create_project_facts)
next
  case (Cons r ps)
  from Cons.prems(1) obtain h: "project_history pf (r # ps)" and st: "project_step pf r p"
    by (rule project_history_ConsE) auto
  note ih = Cons.IH [OF h Cons.prems(2)]
  note f = project_step_facts [OF st _ Cons.prems(2)]
  from ih f show ?case by (auto intro: same_identity_trans)
qed

lemma project_history_suffix: "project_history pf (xs @ p # ys) \<Longrightarrow> project_history pf (p # ys)"
proof (induction xs)
  case (Cons x xs)
  then show ?case by (cases xs) (auto elim: project_history_ConsE)
qed simp

text \<open>The statuses in the order of the life cycle; the two ways to end are on one level.\<close>

fun status_rank :: "project_status \<Rightarrow> nat" where
  "status_rank PS_CREATED = 0"
| "status_rank PS_LAUNCH_REQUESTED = 1"
| "status_rank PS_ACTIVE = 2"
| "status_rank PS_COMPLETION_PENDING = 3"
| "status_rank PS_COMPLETED = 4"
| "status_rank PS_CANCELLED = 4"
| "status_rank PS_ARCHIVED = 5"

lemma successor_rank:
  "st' \<in> successor_states st \<Longrightarrow> status_rank st < status_rank st' \<or> st = PS_ACTIVE \<and> st' = PS_ACTIVE"
  by (cases st) (auto simp: successor_states_def)

lemma history_forward:
  "project_history pf (p # ys @ q # zs) \<Longrightarrow> sha256_digests pf \<Longrightarrow>
     status_rank (pj_status q) < status_rank (pj_status p) \<or> pj_status q = PS_ACTIVE \<and> pj_status p = PS_ACTIVE"
proof (induction ys arbitrary: p)
  case Nil
  then obtain h: "project_history pf (q # zs)" and st: "project_step pf q p" by (auto elim: project_history_ConsE)
  have "valid_project pf q" using project_history_valid [OF h Nil.prems(2)] by simp
  from project_step_facts(4) [OF st this Nil.prems(2)] show ?case by (rule successor_rank)
next
  case (Cons y ys)
  then obtain h: "project_history pf (y # ys @ q # zs)" and st: "project_step pf y p" by (auto elim: project_history_ConsE)
  have "valid_project pf y" using project_history_valid [OF h Cons.prems(2)] by simp
  from successor_rank [OF project_step_facts(4) [OF st this Cons.prems(2)]] Cons.IH [OF h Cons.prems(2)]
  show ?case by auto
qed

lemma history_predecessor:
  assumes "project_history pf (p # ps)" "sha256_digests pf" "pj_status p \<noteq> PS_CREATED"
  obtains q qs where "ps = q # qs" "project_history pf (q # qs)" "project_step pf q p" "valid_project pf q"
proof (cases ps)
  case Nil
  with assms(1,3) show thesis by (auto elim!: project_history_ConsE dest: create_project_facts)
next
  case (Cons q qs)
  with assms(1) have "project_history pf (q # qs)" "project_step pf q p" by (auto elim: project_history_ConsE)
  moreover from project_history_valid [OF this(1) assms(2)] have "valid_project pf q" by simp
  ultimately show thesis using Cons that by blast
qed

lemma step_to_completed:
  assumes "project_step pf q p" "valid_project pf q" "sha256_digests pf" "pj_status p = PS_COMPLETED"
  shows "\<exists>rec. check_completion_record rec = Inr rec \<and> pj_status q = PS_COMPLETION_PENDING
    \<and> cr_organization_id rec = pj_organization_id q \<and> cr_project_id rec = pj_id q \<and> final_project_revision rec = pj_revision q
    \<and> active_plan_request_fingerprint q = Some (cr_plan_request_fingerprint rec) \<and> p = completed_with pf rec q"
  using assms(1,4) by cases (auto simp: transition_Inr assms(2,3))

lemma step_to_pending:
  assumes "project_step pf q p" "valid_project pf q" "sha256_digests pf" "pj_status p = PS_COMPLETION_PENDING"
  shows "pj_status q = PS_ACTIVE \<and> active_plan_request_fingerprint p = active_plan_request_fingerprint q"
  using assms(1,4) by cases (auto simp: transition_Inr assms(2,3) completing_def)

subsection \<open>A project that is completed\<close>

definition project_platform :: platform where
  "project_platform = demo_platform\<lparr>sha256_hex := (\<lambda>m. take 64 (hexlify m @ replicate 64 (CHR ''0'')))\<rparr>"

lemma hexlify_all: "(\<And>d. d < 16 \<Longrightarrow> P (hex_digit d)) \<Longrightarrow> \<forall>c\<in>set (hexlify m). P c"
proof -
  assume P: "\<And>d. d < 16 \<Longrightarrow> P (hex_digit d)"
  have "(of_char c :: nat) div 16 < 16" for c :: char using of_char_lt_256 [of c] by (simp add: div_less_iff_less_mult)
  with P show ?thesis by (auto simp: hexlify_def Let_def)
qed

lemma project_platform_digests [simp]: "sha256_digests project_platform"
proof -
  have "\<forall>d\<in>set [0..<16]. hex_digit d \<in> set ''0123456789abcdef''" by code_simp
  then have h: "\<forall>c\<in>set (hexlify m). c \<in> set ''0123456789abcdef''" for m
    by (intro hexlify_all) (simp del: list.set)
  have z: "CHR ''0'' \<in> set ''0123456789abcdef''" by simp
  have "is_sha256 (take 64 (hexlify m @ replicate 64 (CHR ''0'')))" for m
    unfolding is_sha256_def
  proof (intro conjI ballI)
    fix c assume "c \<in> set (take 64 (hexlify m @ replicate 64 (CHR ''0'')))"
    then have "c \<in> set (hexlify m) \<or> c = CHR ''0''" by (auto dest: in_set_takeD)
    with h z show "c \<in> set ''0123456789abcdef''" by blast
  qed simp
  then show ?thesis by (simp add: sha256_digests_def project_platform_def)
qed

lemma project_platform_iso [simp]: "iso_inverse project_platform"
  using demo_platform_iso by (simp add: iso_inverse_def project_platform_def)

definition demo_plan :: str where
  "demo_plan = replicate 64 (CHR ''a'')"

definition demo_intent :: project_intent where
  "demo_intent = \<lparr>pi_goal = ''ship'', pi_description = [], pi_priority = ''high'', pi_constraints = [(''k'', JInt 1)],
     pi_required_capabilities = [''code.write'']\<rparr>"

definition demo_created :: project where
  "demo_created = projr (create_project project_platform 0 ''p1'' ''o'' ''Demo'' [] demo_intent ''ada'' None None)"

definition demo_launched :: project where
  "demo_launched = launched project_platform ''ada'' ''c1'' (Aware 1) demo_created"

definition demo_active :: project where
  "demo_active = activated ''ada'' ''c2'' demo_plan (Aware 2) demo_launched"

definition demo_pending :: project where
  "demo_pending = completing ''ada'' ''c3'' (Aware 3) demo_active"

definition demo_proof :: completion_record where
  "demo_proof = \<lparr>cr_organization_id = ''o'', cr_project_id = ''p1'', final_project_revision = 3, onboarding_intent_id = ''i1'',
     cr_plan_request_fingerprint = demo_plan, repository_commit_sha = demo_plan, delivery_certificate_ids = [demo_plan],
     traceability_manifest_ids = [demo_plan], integration_evidence_ids = [demo_plan], cr_completed_by = ''ada'',
     cr_completed_at = Aware 4\<rparr>"

definition demo_done :: project where
  "demo_done = completed_with project_platform demo_proof demo_pending"

lemmas trimmed_simps = trimmed_text_def blank_iff strip_def is_space_def Let_def

lemma demo_texts:
  "trimmed_text 128 ''ada''" "trimmed_text 128 ''c1''" "trimmed_text 128 ''c2''" "trimmed_text 128 ''c3''" "trimmed_text 128 ''o''"
  "trimmed_text 128 ''p1''" "trimmed_text 255 ''Demo''" "trimmed_text 128 ''i1''" "is_sha256 demo_plan"
  by (simp_all add: trimmed_simps is_sha256_def demo_plan_def)

lemma demo_creates: "create_project project_platform 0 ''p1'' ''o'' ''Demo'' [] demo_intent ''ada'' None None = Inr demo_created"
proof -
  obtain p where "create_project project_platform 0 ''p1'' ''o'' ''Demo'' [] demo_intent ''ada'' None None = Inr p"
    unfolding create_project_def check_project_Inr
    by (simp add: identity_ok_def demo_texts lifecycle_ok_def group_defs)
  then show ?thesis by (simp add: demo_created_def)
qed

lemma demo_created_fields: "pj_id demo_created = ''p1''" "pj_organization_id demo_created = ''o''" "pj_revision demo_created = 0"
  using create_project_facts [OF demo_creates] by simp_all

lemma demo_proof_ok: "check_completion_record demo_proof = Inr demo_proof"
  by (simp add: check_completion_record_def demo_proof_def demo_texts require_digest_tuple_def bind_res_Inr_iff)

lemma demo_histories:
  "project_history project_platform [demo_created]"
  "project_history project_platform [demo_launched, demo_created]"
  "project_history project_platform [demo_active, demo_launched, demo_created]"
  "project_history project_platform [demo_pending, demo_active, demo_launched, demo_created]"
  "project_history project_platform [demo_done, demo_pending, demo_active, demo_launched, demo_created]"
proof -
  note sha = project_platform_digests
  show h0: "project_history project_platform [demo_created]" using demo_creates by (rule created)
  have v0: "valid_project project_platform demo_created" "pj_status demo_created = PS_CREATED"
    using create_project_facts [OF demo_creates] by simp_all
  have "request_launch project_platform 0 ''ada'' ''c1'' (project_fingerprint project_platform demo_created) (Some (Aware 1)) demo_created = Inr demo_launched"
    using v0 by (simp add: request_launch_Inr [OF v0(1) sha] demo_texts demo_launched_def or_now_def)
  from changed [OF h0 step_launch [OF this]] show h1: "project_history project_platform [demo_launched, demo_created]" .
  have v1: "valid_project project_platform demo_launched" using project_history_valid [OF h1 sha] by simp
  have "activate_scope project_platform 0 ''ada'' ''c2'' demo_plan (pj_revision demo_launched) (Some (Aware 2)) demo_launched = Inr demo_active"
    by (simp add: activate_scope_Inr [OF v1] demo_texts demo_active_def or_now_def) (simp add: demo_launched_def)
  from changed [OF h1 step_activate [OF this]] show h2: "project_history project_platform [demo_active, demo_launched, demo_created]" .
  have v2: "valid_project project_platform demo_active" using project_history_valid [OF h2 sha] by simp
  have "request_completion project_platform 0 ''ada'' ''c3'' (pj_revision demo_active) demo_plan (Some (Aware 3)) demo_active = Inr demo_pending"
    by (simp add: request_completion_Inr [OF v2] demo_texts demo_pending_def or_now_def) (simp add: demo_active_def activated_def)
  from changed [OF h2 step_request [OF this]] show h3: "project_history project_platform [demo_pending, demo_active, demo_launched, demo_created]" .
  have v3: "valid_project project_platform demo_pending" and r3: "pj_revision demo_pending = 3"
    using project_history_valid [OF h3 sha] by simp_all
  have f: "pj_id demo_pending = ''p1''" "pj_organization_id demo_pending = ''o''" "active_plan_request_fingerprint demo_pending = Some demo_plan"
    by (simp_all add: demo_pending_def demo_active_def demo_launched_def demo_created_fields successor_defs)
  have "complete_project project_platform demo_proof 3 demo_pending = Inr demo_done"
    unfolding complete_project_Inr [OF v3 sha demo_proof_ok]
    by (simp add: r3 f demo_done_def) (simp add: demo_proof_def demo_pending_def)
  from changed [OF h3 step_complete [OF this demo_proof_ok]]
  show "project_history project_platform [demo_done, demo_pending, demo_active, demo_launched, demo_created]" .
qed

subsection \<open>Properties\<close>

text \<open>
  C28 (functional).  On a project that satisfies its contract every transition returns exactly
  when its own guards hold (the status, the revision the caller expects, the fingerprint it
  was planned on and the form of the arguments), and then the intended successor: the
  constructor, which checks the whole object again, refuses none of them.
\<close>

theorem project_transitions_exact:
  assumes "valid_project pf p" "sha256_digests pf" "check_completion_record rec = Inr rec"
  shows "(request_launch pf now a c e ts p = Inr q \<longleftrightarrow> pj_status p = PS_CREATED \<and> e = project_fingerprint pf p
      \<and> trimmed_text 128 a \<and> trimmed_text 128 c \<and> q = launched pf a c (or_now now ts) p)
    \<and> (activate_scope pf now a c plan n ts p = Inr q \<longleftrightarrow> pj_status p \<in> {PS_LAUNCH_REQUESTED, PS_ACTIVE} \<and> n = pj_revision p
      \<and> trimmed_text 128 a \<and> trimmed_text 128 c \<and> is_sha256 plan \<and> q = activated a c plan (or_now now ts) p)
    \<and> (request_completion pf now a c n plan ts p = Inr q \<longleftrightarrow> pj_status p = PS_ACTIVE \<and> n = pj_revision p
      \<and> active_plan_request_fingerprint p = Some plan \<and> trimmed_text 128 a \<and> trimmed_text 128 c
      \<and> q = completing a c (or_now now ts) p)
    \<and> (complete_project pf rec n p = Inr q \<longleftrightarrow> pj_status p = PS_COMPLETION_PENDING \<and> n = pj_revision p
      \<and> cr_organization_id rec = pj_organization_id p \<and> cr_project_id rec = pj_id p \<and> final_project_revision rec = pj_revision p
      \<and> active_plan_request_fingerprint p = Some (cr_plan_request_fingerprint rec) \<and> q = completed_with pf rec p)
    \<and> (cancel_project pf now a c rs n ts p = Inr q \<longleftrightarrow> pj_status p \<in> {PS_ACTIVE, PS_COMPLETION_PENDING} \<and> n = pj_revision p
      \<and> trimmed_text 128 a \<and> trimmed_text 128 c \<and> trimmed_text 2000 rs \<and> q = cancelled a c rs (or_now now ts) p)
    \<and> (archive_project pf now a c n ts p = Inr q \<longleftrightarrow> pj_status p \<in> {PS_COMPLETED, PS_CANCELLED} \<and> n = pj_revision p
      \<and> trimmed_text 128 a \<and> trimmed_text 128 c \<and> q = archived a c (or_now now ts) p)"
  by (intro conjI request_launch_Inr activate_scope_Inr request_completion_Inr complete_project_Inr cancel_project_Inr
      archive_project_Inr assms)

theorem project_transitions_exact_witness:
  "\<exists>q. complete_project project_platform demo_proof 3 demo_pending = Inr q \<and> pj_status q = PS_COMPLETED
     \<and> request_launch project_platform 0 ''ada'' ''c1'' [] None demo_pending \<noteq> Inr q"
proof -
  have v: "valid_project project_platform demo_pending" and r: "pj_revision demo_pending = 3"
    using project_history_valid [OF demo_histories(4)] by simp_all
  have f: "pj_id demo_pending = ''p1''" "pj_organization_id demo_pending = ''o''" "active_plan_request_fingerprint demo_pending = Some demo_plan"
    "pj_status demo_pending = PS_COMPLETION_PENDING"
    by (simp_all add: demo_pending_def demo_active_def demo_launched_def demo_created_fields successor_defs)
  note ex = project_transitions_exact [OF v project_platform_digests demo_proof_ok, of 0 "''ada''" "''c1''" "[]" None demo_done]
  have "complete_project project_platform demo_proof 3 demo_pending = Inr demo_done"
    using ex by (simp add: r f demo_done_def) (simp add: demo_proof_def)
  moreover have "pj_status demo_done = PS_COMPLETED" by (simp add: demo_done_def)
  moreover have "request_launch project_platform 0 ''ada'' ''c1'' [] None demo_pending \<noteq> Inr demo_done" using ex f by simp
  ultimately show ?thesis by blast
qed

text \<open>
  C17 (invariant).  Over the whole life of a project every version satisfies the contract, its
  identity and its fingerprint never change, the revision counts the transitions, and the
  status only moves forward; only an active project may be given a new plan.  In
  particular ordinary work, once frozen by a completion request or ended, never resumes.
\<close>

theorem project_lifecycle:
  assumes "project_history pf (xs @ p # ys @ q # zs)" "sha256_digests pf"
  shows "valid_project pf p \<and> project_fingerprint pf p = project_fingerprint pf q \<and> same_identity p q
    \<and> pj_revision p = pj_revision q + 1 + int (length ys)
    \<and> (status_rank (pj_status q) < status_rank (pj_status p) \<or> pj_status q = PS_ACTIVE \<and> pj_status p = PS_ACTIVE)
    \<and> (ordinary_work_allowed p \<longrightarrow> pj_status q \<in> {PS_CREATED, PS_LAUNCH_REQUESTED, PS_ACTIVE})"
proof -
  have hp: "project_history pf (p # ys @ q # zs)" using assms(1) by (rule project_history_suffix)
  have hq: "project_history pf (q # zs)" using project_history_suffix [of pf "p # ys" q zs] hp by simp
  note vp = project_history_valid [OF hp assms(2)] and vq = project_history_valid [OF hq assms(2)]
  note fw = history_forward [OF hp assms(2)]
  have "same_identity p q" using vp by simp
  moreover have "ordinary_work_allowed p \<Longrightarrow> pj_status q \<in> {PS_CREATED, PS_LAUNCH_REQUESTED, PS_ACTIVE}"
    using fw by (cases "pj_status q") (auto simp: ordinary_work_allowed_def)
  ultimately show ?thesis using vp vq fw same_identity_fingerprint(1) by auto
qed

theorem project_lifecycle_witness:
  "project_history project_platform ([] @ demo_done # [demo_pending] @ demo_active # [demo_launched, demo_created])
   \<and> pj_revision demo_done = pj_revision demo_active + 2"
proof -
  have h: "project_history project_platform ([] @ demo_done # [demo_pending] @ demo_active # [demo_launched, demo_created])"
    using demo_histories(5) by simp
  from project_lifecycle [OF h project_platform_digests] h show ?thesis by simp
qed

text \<open>
  C18 (safety).  A project is completed only with a valid completion record that names this very
  project, the revision at which completion was verified and the plan that was active; that
  plan was the active one when completion was requested, and nothing changed it since.
\<close>

theorem completion_is_bound:
  assumes "project_history pf (p # ps)" "sha256_digests pf" "pj_status p = PS_COMPLETED"
  shows "\<exists>q r qs rec. ps = q # r # qs \<and> pj_status q = PS_COMPLETION_PENDING \<and> pj_status r = PS_ACTIVE
    \<and> check_completion_record rec = Inr rec \<and> pj_completion_record_id p = Some (completion_record_id pf rec)
    \<and> cr_organization_id rec = pj_organization_id p \<and> cr_project_id rec = pj_id p \<and> final_project_revision rec = int (length (r # qs))
    \<and> active_plan_request_fingerprint r = Some (cr_plan_request_fingerprint rec)
    \<and> active_plan_request_fingerprint p = Some (cr_plan_request_fingerprint rec)"
proof -
  obtain q qs where q: "ps = q # qs" "project_history pf (q # qs)" "project_step pf q p" "valid_project pf q"
    using assms by (auto elim: history_predecessor)
  from step_to_completed [OF q(3,4) assms(2,3)] obtain rec where rec: "check_completion_record rec = Inr rec"
    "pj_status q = PS_COMPLETION_PENDING" "cr_organization_id rec = pj_organization_id q" "cr_project_id rec = pj_id q"
    "final_project_revision rec = pj_revision q" "active_plan_request_fingerprint q = Some (cr_plan_request_fingerprint rec)"
    "p = completed_with pf rec q" by blast
  have "pj_status q \<noteq> PS_CREATED" using rec(2) by simp
  with q(2) assms(2) obtain r rs where r: "qs = r # rs" "project_step pf r q" "valid_project pf r"
    by (rule history_predecessor)
  from step_to_pending [OF r(2,3) assms(2) rec(2)] project_history_valid [OF q(2) assms(2)] q(1) r(1) rec
  show ?thesis by (intro exI [of _ q] exI [of _ r] exI [of _ rs] exI [of _ rec]) (simp add: completed_with_def)
qed

theorem completion_is_bound_witness:
  "\<exists>rec. project_history project_platform [demo_done, demo_pending, demo_active, demo_launched, demo_created]
     \<and> pj_completion_record_id demo_done = Some (completion_record_id project_platform rec) \<and> final_project_revision rec = 3"
proof -
  have "pj_status demo_done = PS_COMPLETED" by (simp add: demo_done_def)
  from completion_is_bound [OF demo_histories(5) project_platform_digests this] demo_histories(5) show ?thesis by auto
qed

end
