(* ===== verification/Project_Store.thy ===== *)
theory Project_Store
  imports Project
begin

section \<open>The project repository (\<open>infrastructure/persistence/project_scope_repository.py\<close>)\<close>

text \<open>
  The table \<open>projects\<close> with one row per project, the translations between rows and
  projects, and the append-only table of completion records.  Reading a project recomputes
  its fingerprints and compares them with the stored ones.  \<open>update\<close> looks for the row at the
  expected revision and writes the columns that commands change.

  A time column holds an instant; it is read back as an aware datetime, on SQLite as a naive
  one (flag \<open>sq\<close>).  Time stamps are written in UTC.
\<close>

record project_row =
  rw_id :: str
  rw_organization_id :: str
  rw_name :: str
  rw_description :: str
  rw_status :: str
  rw_contract_version :: str
  rw_intent :: json
  rw_intent_fingerprint :: str
  rw_project_fingerprint :: str
  rw_created_by :: str
  rw_launched_by :: "str option"
  rw_launch_request_fingerprint :: "str option"
  rw_launch_command_id :: "str option"
  rw_active_plan_request_fingerprint :: "str option"
  rw_active_scope_activated_by :: "str option"
  rw_active_scope_activated_at :: "time option"
  rw_active_scope_command_id :: "str option"
  rw_completion_requested_by :: "str option"
  rw_completion_requested_at :: "time option"
  rw_completion_request_command_id :: "str option"
  rw_completion_record_id :: "str option"
  rw_completed_by :: "str option"
  rw_completed_at :: "time option"
  rw_cancelled_by :: "str option"
  rw_cancelled_at :: "time option"
  rw_cancel_command_id :: "str option"
  rw_cancellation_reason :: "str option"
  rw_archived_by :: "str option"
  rw_archived_at :: "time option"
  rw_archive_command_id :: "str option"
  rw_archived_from_status :: "str option"
  rw_continued_from_project_id :: "str option"
  rw_created_at :: time
  rw_updated_at :: time
  rw_launched_at :: "time option"
  rw_revision :: int

definition column_time :: "bool \<Rightarrow> time \<Rightarrow> datetime" where
  "column_time sq t = (if sq then Naive t else Aware t)"

definition project_to_model :: "platform \<Rightarrow> project \<Rightarrow> project_row" where
  "project_to_model pf p =
     \<lparr>rw_id = pj_id p, rw_organization_id = pj_organization_id p, rw_name = pj_name p,
      rw_description = pj_description p, rw_status = project_status_value (pj_status p),
      rw_contract_version = pj_contract_version p, rw_intent = canonical_intent (pj_intent p),
      rw_intent_fingerprint = intent_fingerprint pf (pj_intent p), rw_project_fingerprint = project_fingerprint pf p,
      rw_created_by = pj_created_by p, rw_launched_by = launched_by p,
      rw_launch_request_fingerprint = launch_request_fingerprint p, rw_launch_command_id = launch_command_id p,
      rw_active_plan_request_fingerprint = active_plan_request_fingerprint p,
      rw_active_scope_activated_by = active_scope_activated_by p,
      rw_active_scope_activated_at = map_option utc_instant (active_scope_activated_at p),
      rw_active_scope_command_id = active_scope_command_id p, rw_completion_requested_by = completion_requested_by p,
      rw_completion_requested_at = map_option utc_instant (completion_requested_at p),
      rw_completion_request_command_id = completion_request_command_id p,
      rw_completion_record_id = pj_completion_record_id p, rw_completed_by = pj_completed_by p,
      rw_completed_at = map_option utc_instant (pj_completed_at p), rw_cancelled_by = cancelled_by p,
      rw_cancelled_at = map_option utc_instant (cancelled_at p), rw_cancel_command_id = cancel_command_id p,
      rw_cancellation_reason = cancellation_reason p, rw_archived_by = archived_by p,
      rw_archived_at = map_option utc_instant (archived_at p), rw_archive_command_id = archive_command_id p,
      rw_archived_from_status = map_option project_status_value (archived_from_status p),
      rw_continued_from_project_id = continued_from_project_id p, rw_created_at = utc_instant (pj_created_at p),
      rw_updated_at = utc_instant (pj_updated_at p), rw_launched_at = map_option utc_instant (launched_at p),
      rw_revision = pj_revision p\<rparr>"

definition status_of_value :: "str \<Rightarrow> project_status result" where
  "status_of_value v =
     (case find (\<lambda>s. project_status_value s = v)
        [PS_CREATED, PS_LAUNCH_REQUESTED, PS_ACTIVE, PS_COMPLETION_PENDING, PS_COMPLETED, PS_CANCELLED, PS_ARCHIVED] of
        None \<Rightarrow> Inl ValueError | Some s \<Rightarrow> Inr s)"

text \<open>\<open>row.intent["goal"]\<close>, \<open>row.intent.get(key, default)\<close>; a column that is not an object has neither.\<close>

definition read_intent :: "json \<Rightarrow> project_intent result" where
  "read_intent v =
     (case v of
        JObj ms \<Rightarrow>
          (case jget ms ''goal'' of
             None \<Rightarrow> Inl KeyError
           | Some g \<Rightarrow>
               let get = (\<lambda>k d. case jget ms k of None \<Rightarrow> d | Some x \<Rightarrow> x)
               in bind_res (py_elements (get ''required_capabilities'' (JArr []))) (\<lambda>caps.
                    new_intent g (get ''description'' (JStr [])) (get ''priority'' (JStr ''medium'')) (get ''constraints'' (JObj [])) caps))
      | _ \<Rightarrow> Inl TypeError)"

definition project_from_model :: "platform \<Rightarrow> bool \<Rightarrow> project_row \<Rightarrow> project result" where
  "project_from_model pf sq r =
     bind_res (read_intent (rw_intent r)) (\<lambda>i.
     bind_res (status_of_value (rw_status r)) (\<lambda>st.
     bind_res (case rw_archived_from_status r of None \<Rightarrow> Inr None | Some v \<Rightarrow> bind_res (status_of_value v) (\<lambda>s. Inr (Some s))) (\<lambda>af.
       check_project pf
          \<lparr>pj_id = rw_id r, pj_organization_id = rw_organization_id r, pj_name = rw_name r,
           pj_description = rw_description r, pj_intent = i, pj_status = st, pj_created_by = rw_created_by r,
           pj_created_at = column_time sq (rw_created_at r), pj_updated_at = column_time sq (rw_updated_at r),
           launched_by = rw_launched_by r, launched_at = map_option (column_time sq) (rw_launched_at r),
           launch_request_fingerprint = rw_launch_request_fingerprint r, launch_command_id = rw_launch_command_id r,
           active_plan_request_fingerprint = rw_active_plan_request_fingerprint r,
           active_scope_activated_by = rw_active_scope_activated_by r,
           active_scope_activated_at = map_option (column_time sq) (rw_active_scope_activated_at r),
           active_scope_command_id = rw_active_scope_command_id r,
           completion_requested_by = rw_completion_requested_by r,
           completion_requested_at = map_option (column_time sq) (rw_completion_requested_at r),
           completion_request_command_id = rw_completion_request_command_id r,
           pj_completion_record_id = rw_completion_record_id r, pj_completed_by = rw_completed_by r,
           pj_completed_at = map_option (column_time sq) (rw_completed_at r), cancelled_by = rw_cancelled_by r,
           cancelled_at = map_option (column_time sq) (rw_cancelled_at r),
           cancel_command_id = rw_cancel_command_id r, cancellation_reason = rw_cancellation_reason r,
           archived_by = rw_archived_by r, archived_at = map_option (column_time sq) (rw_archived_at r),
           archive_command_id = rw_archive_command_id r, archived_from_status = af,
           continued_from_project_id = rw_continued_from_project_id r, pj_revision = rw_revision r,
           pj_contract_version = rw_contract_version r\<rparr>)))"

subsection \<open>Operations\<close>

definition add_project :: "platform \<Rightarrow> project \<Rightarrow> project_row list \<Rightarrow> project_row list result" where
  "add_project pf p db =
     raise_if (\<exists>r\<in>set db. rw_id r = pj_id p) IntegrityError
     (raise_if (case continued_from_project_id p of
                  None \<Rightarrow> False
                | Some c \<Rightarrow> \<not> (\<exists>r\<in>set db. rw_organization_id r = pj_organization_id p \<and> rw_id r = c)) IntegrityError
       (Inr (db @ [project_to_model pf p])))"

definition project_row_of :: "str \<Rightarrow> str \<Rightarrow> project_row list \<Rightarrow> project_row option" where
  "project_row_of i org db = find (\<lambda>r. rw_id r = i \<and> rw_organization_id r = org) db"

definition get_for_organization :: "platform \<Rightarrow> bool \<Rightarrow> str \<Rightarrow> str \<Rightarrow> project_row list \<Rightarrow> project option result" where
  "get_for_organization pf sq i org db =
     (case project_row_of i org db of
        None \<Rightarrow> Inr None
      | Some r \<Rightarrow>
          bind_res (project_from_model pf sq r) (\<lambda>p.
            raise_if (rw_intent_fingerprint r \<noteq> intent_fingerprint pf (pj_intent p)) RepositoryError
            (raise_if (rw_project_fingerprint r \<noteq> project_fingerprint pf p) RepositoryError (Inr (Some p)))))"

definition get_organization_id :: "str \<Rightarrow> project_row list \<Rightarrow> str option" where
  "get_organization_id i db = map_option rw_organization_id (find (\<lambda>r. rw_id r = i) db)"

text \<open>The assignments of \<open>update\<close>.\<close>

definition assign_columns :: "project \<Rightarrow> project_row \<Rightarrow> project_row" where
  "assign_columns p r =
     r\<lparr>rw_status := project_status_value (pj_status p), rw_launched_by := launched_by p,
       rw_launched_at := map_option utc_instant (launched_at p),
       rw_launch_request_fingerprint := launch_request_fingerprint p, rw_launch_command_id := launch_command_id p,
       rw_active_plan_request_fingerprint := active_plan_request_fingerprint p,
       rw_active_scope_activated_by := active_scope_activated_by p,
       rw_active_scope_activated_at := map_option utc_instant (active_scope_activated_at p),
       rw_active_scope_command_id := active_scope_command_id p,
       rw_completion_requested_by := completion_requested_by p,
       rw_completion_requested_at := map_option utc_instant (completion_requested_at p),
       rw_completion_request_command_id := completion_request_command_id p,
       rw_completion_record_id := pj_completion_record_id p, rw_completed_by := pj_completed_by p,
       rw_completed_at := map_option utc_instant (pj_completed_at p), rw_cancelled_by := cancelled_by p,
       rw_cancelled_at := map_option utc_instant (cancelled_at p), rw_cancel_command_id := cancel_command_id p,
       rw_cancellation_reason := cancellation_reason p, rw_archived_by := archived_by p,
       rw_archived_at := map_option utc_instant (archived_at p), rw_archive_command_id := archive_command_id p,
       rw_archived_from_status := map_option project_status_value (archived_from_status p),
       rw_continued_from_project_id := continued_from_project_id p, rw_updated_at := utc_instant (pj_updated_at p),
       rw_revision := pj_revision p\<rparr>"

text \<open>
  \<open>update\<close> reads the row at the expected revision, assigns its columns, and the flush writes
  it by primary key.  These are two statements, but no other command on the project commits
  between them: every caller has already flushed events of the project in the same
  transaction, and their sequence numbers are unique for the aggregate (\<open>EventModel\<close>), so of
  two commands that overlap the second is refused there or reads the row after the first.
\<close>

definition update_project ::
  "project \<Rightarrow> int \<Rightarrow> project_row list \<Rightarrow> project_row list result" where
  "update_project p expected db =
     (case find (\<lambda>r. rw_id r = pj_id p \<and> rw_organization_id r = pj_organization_id p \<and> rw_revision r = expected) db of
        None \<Rightarrow> Inl RepositoryError
      | Some seen \<Rightarrow> Inr (map (\<lambda>r. if rw_id r = rw_id seen then assign_columns p r else r) db))"

subsection \<open>Completion records\<close>

record completion_row =
  cw_id :: str
  cw_record :: completion_record

text \<open>
  The row holds the columns of the record and its identifier; reading compares the
  identifier with the digest of the columns.
\<close>

definition completion_from_model :: "platform \<Rightarrow> bool \<Rightarrow> completion_row \<Rightarrow> completion_record result" where
  "completion_from_model pf sq r =
     bind_res (check_completion_record ((cw_record r)\<lparr>cr_completed_at := column_time sq (utc_instant (cr_completed_at (cw_record r)))\<rparr>)) (\<lambda>rec.
       raise_if (completion_record_id pf rec \<noteq> cw_id r) RepositoryError (Inr rec))"

definition completion_for_project :: "str \<Rightarrow> str \<Rightarrow> completion_row list \<Rightarrow> completion_row option" where
  "completion_for_project i org db = find (\<lambda>r. cr_project_id (cw_record r) = i \<and> cr_organization_id (cw_record r) = org) db"

definition get_completion :: "platform \<Rightarrow> bool \<Rightarrow> str \<Rightarrow> str \<Rightarrow> completion_row list \<Rightarrow> completion_record option result" where
  "get_completion pf sq i org db =
     (case find (\<lambda>r. cw_id r = i \<and> cr_organization_id (cw_record r) = org) db of
        None \<Rightarrow> Inr None
      | Some r \<Rightarrow> bind_res (completion_from_model pf sq r) (\<lambda>rec. Inr (Some rec)))"

text \<open>Two records are equal when their fields are; a naive and an aware time stamp are not.\<close>

definition add_completion :: "platform \<Rightarrow> bool \<Rightarrow> completion_record \<Rightarrow> completion_row list \<Rightarrow> completion_row list result" where
  "add_completion pf sq rec db =
     (case find (\<lambda>r. cw_id r = completion_record_id pf rec) db of
        Some r \<Rightarrow> bind_res (completion_from_model pf sq r) (\<lambda>old. raise_if (old \<noteq> rec) RepositoryError (Inr db))
      | None \<Rightarrow>
          (case completion_for_project (cr_project_id rec) (cr_organization_id rec) db of
             Some r \<Rightarrow> bind_res (completion_from_model pf sq r) (\<lambda>old.
               raise_if (completion_record_id pf old \<noteq> completion_record_id pf rec) RepositoryError
                 (Inr (db @ [\<lparr>cw_id = completion_record_id pf rec, cw_record = rec\<rparr>])))
           | None \<Rightarrow> Inr (db @ [\<lparr>cw_id = completion_record_id pf rec, cw_record = rec\<rparr>])))"

subsection \<open>Reading back what was written\<close>

definition redated :: "bool \<Rightarrow> datetime \<Rightarrow> datetime" where
  "redated sq d = column_time sq (utc_instant d)"

definition redate :: "bool \<Rightarrow> project \<Rightarrow> project" where
  "redate sq p =
     p\<lparr>launched_at := map_option (redated sq) (launched_at p),
       active_scope_activated_at := map_option (redated sq) (active_scope_activated_at p),
       completion_requested_at := map_option (redated sq) (completion_requested_at p),
       pj_completed_at := map_option (redated sq) (pj_completed_at p),
       cancelled_at := map_option (redated sq) (cancelled_at p),
       archived_at := map_option (redated sq) (archived_at p), pj_created_at := redated sq (pj_created_at p),
       pj_updated_at := redated sq (pj_updated_at p)\<rparr>"

lemma utc_instant_column [simp]: "utc_instant (column_time sq t) = t" "utc_instant (redated sq d) = utc_instant d"
  by (simp_all add: column_time_def redated_def)

lemma redate_fingerprint [simp]:
  "project_fingerprint pf (redate sq p) = project_fingerprint pf p" "launch_fingerprint pf (redate sq p) a c = launch_fingerprint pf p a c"
  by (simp_all add: project_fingerprint_def immutable_dict_def launch_fingerprint_def redate_def timestamp_def)

lemma redate_valid [simp]: "valid_project pf (redate sq p) \<longleftrightarrow> valid_project pf p"
proof -
  have "identity_ok (redate sq p) = identity_ok p" "pj_revision (redate sq p) = pj_revision p" "pj_status (redate sq p) = pj_status p"
    "archived_from_status (redate sq p) = archived_from_status p"
    by (simp_all add: redate_def identity_ok_def)
  moreover have "launch_ok pf (redate sq p) = launch_ok pf p"
    unfolding launch_ok_def redate_fingerprint by (simp add: redate_def)
  moreover have "scope_ok (redate sq p) = scope_ok p" "completion_request_ok (redate sq p) = completion_request_ok p"
    "completed_ok (redate sq p) = completed_ok p" "cancelled_ok (redate sq p) = cancelled_ok p" "archive_ok (redate sq p) = archive_ok p"
    "any_launch (redate sq p) = any_launch p" "any_scope (redate sq p) = any_scope p"
    "any_completion_request (redate sq p) = any_completion_request p" "any_completed (redate sq p) = any_completed p"
    "any_cancelled (redate sq p) = any_cancelled p" "any_archive (redate sq p) = any_archive p"
    by (simp_all add: group_defs redate_def)
  ultimately show ?thesis by (cases "pj_status p") (simp_all add: valid_project_iff lifecycle_ok_def)
qed

lemma status_of_value_inverse [simp]: "status_of_value (project_status_value s) = Inr s"
  by (cases s) (simp_all add: status_of_value_def)

lemma read_canonical_intent: "valid_intent i \<Longrightarrow> read_intent (canonical_intent i) = Inr i"
  by (simp add: read_intent_def canonical_intent_def valid_intent_def jget_def jstrs_def)

lemma from_to_model:
  assumes "valid_project pf p" "valid_intent (pj_intent p)"
  shows "project_from_model pf sq (project_to_model pf p) = Inr (redate sq p)"
proof -
  have "(case map_option project_status_value (archived_from_status p) of None \<Rightarrow> Inr None
      | Some v \<Rightarrow> bind_res (status_of_value v) (\<lambda>s. Inr (Some s))) = (Inr (archived_from_status p) :: project_status option result)"
    by (cases "archived_from_status p") simp_all
  moreover have "check_project pf (redate sq p) = Inr (redate sq p)" using assms(1) by (simp flip: valid_project_def)
  moreover have "redated sq = (\<lambda>d. column_time sq (utc_instant d))" by (rule ext) (simp add: redated_def)
  ultimately show ?thesis
    using read_canonical_intent [OF assms(2)] unfolding project_from_model_def project_to_model_def redate_def
    by (cases p) (simp add: option.map_comp comp_def)
qed

lemma project_row_of_Some: "project_row_of i org db = Some r \<Longrightarrow> r \<in> set db \<and> rw_id r = i \<and> rw_organization_id r = org"
  by (auto simp: project_row_of_def find_Some_iff)

lemma find_append_None: "\<forall>x\<in>set xs. \<not> P x \<Longrightarrow> find P (xs @ ys) = find P ys"
  by (induction xs) simp_all

lemma add_then_row: "add_project pf p db = Inr db' \<Longrightarrow>
    project_row_of (pj_id p) (pj_organization_id p) db' = Some (project_to_model pf p)"
  by (auto simp: add_project_def project_row_of_def find_append_None project_to_model_def)

lemma get_to_model:
  assumes "project_row_of i org db = Some (project_to_model pf p)" "valid_project pf p" "valid_intent (pj_intent p)"
  shows "get_for_organization pf sq i org db = Inr (Some (redate sq p))"
  using assms by (simp add: get_for_organization_def from_to_model) (simp add: project_to_model_def redate_def)

subsection \<open>The fingerprint determines the identity\<close>

lemma canon_keys: "canon (JObj ms) = canon (JObj ns) \<Longrightarrow> fst ` set ms = fst ` set ns"
  by (drule set_canon_JObj, drule arg_cong [where f = "image fst"]) (simp add: image_image case_prod_beta)

lemma immutable_dict_inject:
  assumes "canon (immutable_dict pf p) = canon (immutable_dict pf q)"
  shows "pj_id p = pj_id q \<and> pj_organization_id p = pj_organization_id q \<and> pj_name p = pj_name q \<and> pj_description p = pj_description q
    \<and> canon (canonical_intent (pj_intent p)) = canon (canonical_intent (pj_intent q)) \<and> pj_created_by p = pj_created_by q
    \<and> timestamp pf (pj_created_at p) = timestamp pf (pj_created_at q) \<and> continued_from_project_id p = continued_from_project_id q
    \<and> pj_contract_version p = pj_contract_version q"
proof (cases "continued_from_project_id p = None \<longleftrightarrow> continued_from_project_id q = None")
  case True
  show ?thesis
  proof (cases "continued_from_project_id p")
    case None
    with True show ?thesis
      using assms unfolding immutable_dict_def by (subst (asm) canon_JObj_inject) simp_all
  next
    case (Some c)
    with True obtain d where "continued_from_project_id q = Some d" by auto
    with Some show ?thesis
      using assms unfolding immutable_dict_def by (subst (asm) canon_JObj_inject) simp_all
  qed
next
  case False
  have "''continued_from_project_id'' \<in> fst ` set ms \<longleftrightarrow> ''continued_from_project_id'' \<in> fst ` set ns"
    if "canon (JObj ms) = canon (JObj ns)" for ms ns using canon_keys [OF that] by simp
  from this [OF assms [unfolded immutable_dict_def]] False show ?thesis
    by (cases "continued_from_project_id p"; cases "continued_from_project_id q") simp_all
qed

lemma timestamp_inject:
  assumes "iso_inverse pf" "datetime_range (utc_instant d)" "datetime_range (utc_instant e)" "timestamp pf d = timestamp pf e"
  shows "utc_instant d = utc_instant e"
proof -
  have "fromisoformat pf (timestamp pf d) = Some (Aware (utc_instant d))" "fromisoformat pf (timestamp pf e) = Some (Aware (utc_instant e))"
    using assms(1-3) by (simp_all add: iso_inverse_def timestamp_def)
  with assms(4) show ?thesis by simp
qed

subsection \<open>Two commands at one revision\<close>

definition fails_with :: "exn \<Rightarrow> 'a result \<Rightarrow> bool" where
  "fails_with e m \<longleftrightarrow> (\<forall>x. m = Inl x \<longrightarrow> x = e)"

lemma fails_with_intros [intro!]:
  "fails_with e (Inr x)" "fails_with e (Inl e)" "fails_with e k \<Longrightarrow> fails_with e (raise_if c e k)"
  "fails_with e m \<Longrightarrow> (\<And>x. fails_with e (f x)) \<Longrightarrow> fails_with e (bind_res m f)"
  by (auto simp: fails_with_def raise_if_def bind_res_def split: sum.splits)

lemma checks_fail_with [intro!]:
  "fails_with ProjectContractError (require_text n s)" "fails_with ProjectContractError (require_sha256 s)"
  "fails_with ProjectContractError (validate_completion_request p)" "fails_with ProjectContractError (validate_completed p)"
  "fails_with ProjectContractError (validate_cancelled p)" "fails_with ProjectContractError (check_continuation p)"
  unfolding require_text_def require_sha256_def validate_completion_request_def validate_completed_def validate_cancelled_def check_continuation_def
  by (auto split: option.split)

lemma check_terminal_fails [intro!]: "fails_with ProjectContractError (check_terminal p)"
  unfolding check_terminal_def by (auto split: project_status.split option.split)

lemma check_project_Inl: "check_project pf p = Inl e \<Longrightarrow> e = ProjectContractError"
proof -
  have "fails_with ProjectContractError (check_lifecycle pf p)" unfolding check_lifecycle_def by auto
  then have "fails_with ProjectContractError (check_project pf p)" unfolding check_project_def by auto
  then show "check_project pf p = Inl e \<Longrightarrow> e = ProjectContractError" by (simp add: fails_with_def)
qed

lemma assign_to_model: "same_identity q p \<Longrightarrow> assign_columns q (project_to_model pf p) = project_to_model pf q"
  using same_identity_fingerprint(1) [of q p pf]
  by (simp add: assign_columns_def project_to_model_def same_identity_def)

lemma to_model_keys [simp]:
  "rw_id (project_to_model pf p) = pj_id p" "rw_organization_id (project_to_model pf p) = pj_organization_id p"
  "rw_revision (project_to_model pf p) = pj_revision p"
  by (simp_all add: project_to_model_def)

lemma update_alone:
  assumes "same_identity q p"
  shows "update_project q (pj_revision p) [project_to_model pf p] = Inr [project_to_model pf q]"
proof -
  have "pj_id q = pj_id p" "pj_organization_id q = pj_organization_id p" using assms by (simp_all add: same_identity_def)
  then show ?thesis
    by (simp add: update_project_def assign_to_model [OF assms])
qed

lemma find_map_same: "(\<And>x. x \<in> set xs \<Longrightarrow> P (f x) = P x) \<Longrightarrow> find P (map f xs) = map_option f (find P xs)"
  by (induction xs) auto

lemma update_then_row:
  assumes "project_row_of (pj_id p) (pj_organization_id p) db = Some (project_to_model pf p)" "same_identity q p" "distinct (map rw_id db)"
    and "update_project q (pj_revision p) db = Inr db'"
  shows "project_row_of (pj_id q) (pj_organization_id q) db' = Some (project_to_model pf q)"
proof -
  let ?r = "project_to_model pf p"
  note r = project_row_of_Some [OF assms(1)]
  have k: "pj_id q = pj_id p" "pj_organization_id q = pj_organization_id p" using assms(2) by (simp_all add: same_identity_def)
  have inj: "x = ?r" if "x \<in> set db" "rw_id x = pj_id p" for x
    using assms(3) r that by (metis distinct_map inj_onD)
  have "find (\<lambda>x. rw_id x = pj_id q \<and> rw_organization_id x = pj_organization_id q \<and> rw_revision x = pj_revision p) db = Some ?r"
  proof -
    have "find (\<lambda>x. rw_id x = pj_id q \<and> rw_organization_id x = pj_organization_id q \<and> rw_revision x = pj_revision p) db
        = find (\<lambda>x. rw_id x = pj_id p \<and> rw_organization_id x = pj_organization_id p) db"
    proof (rule find_cong [OF refl])
      have "rw_revision ?r = pj_revision p" by (simp add: project_to_model_def)
      then show "(rw_id x = pj_id q \<and> rw_organization_id x = pj_organization_id q \<and> rw_revision x = pj_revision p)
          = (rw_id x = pj_id p \<and> rw_organization_id x = pj_organization_id p)" if "x \<in> set db" for x
        using inj [OF that] k by auto
    qed
    with assms(1) show ?thesis by (simp add: project_row_of_def)
  qed
  with assms(4) r have db': "db' = map (\<lambda>x. if rw_id x = rw_id ?r then assign_columns q x else x) db"
    by (simp add: update_project_def)
  have "project_row_of (pj_id p) (pj_organization_id p) db'
      = map_option (\<lambda>x. if rw_id x = rw_id ?r then assign_columns q x else x) (project_row_of (pj_id p) (pj_organization_id p) db)"
    unfolding project_row_of_def db' by (rule find_map_same) (simp add: assign_columns_def)
  with assms(1) show ?thesis by (simp add: k assign_to_model [OF assms(2)])
qed

subsection \<open>Properties\<close>

lemma demo_intent_valid: "valid_intent demo_intent"
proof -
  have "length (utf8 (canonical_json (canonical_intent demo_intent))) < 300" by code_simp
  then have "length (utf8 (canonical_json (canonical_intent demo_intent))) \<le> MAX_INTENT_BYTES" by (simp add: MAX_INTENT_BYTES_def)
  moreover have t: "require_text 2000 ''ship'' = Inr ''ship''" "require_text 128 ''code.write'' = Inr ''code.write''"
    by (simp_all add: require_text_def trimmed_simps)
  ultimately show ?thesis
    by (simp add: valid_intent_def new_intent_def text_arg_def capability_arg_def constraints_arg_def dict_of_def str_key_def
        normalize_json_def demo_intent_def not_less t Let_def)
qed

lemma demo_intents: "pj_intent demo_created = demo_intent" "pj_intent demo_active = demo_intent"
proof -
  show "pj_intent demo_created = demo_intent"
    using create_project_facts [OF demo_creates] by simp
  then show "pj_intent demo_active = demo_intent" by (simp add: demo_active_def demo_launched_def successor_defs)
qed

text \<open>
  Property (roundtrip).  A project that was added is read back as it was written, field by field, its
  time stamps up to the form the database returns them in, and so is every version of it
  that a lone client stores after that.
\<close>

theorem project_store_roundtrip:
  assumes "valid_project pf p" "valid_intent (pj_intent p)" "add_project pf p db = Inr db1" "distinct (map rw_id db)"
    and "valid_project pf q" "same_identity q p" "update_project q (pj_revision p) db1 = Inr db2"
  shows "get_for_organization pf sq (pj_id p) (pj_organization_id p) db1 = Inr (Some (redate sq p))
    \<and> get_for_organization pf sq (pj_id p) (pj_organization_id p) db2 = Inr (Some (redate sq q))"
proof -
  note r = add_then_row [OF assms(3)]
  have "rw_id (project_to_model pf p) = pj_id p" by (simp add: project_to_model_def)
  then have "distinct (map rw_id db1)" using assms(3,4) by (fastforce simp: add_project_def)
  from update_then_row [OF r assms(6) this assms(7)] have r2: "project_row_of (pj_id p) (pj_organization_id p) db2 = Some (project_to_model pf q)"
    using assms(6) by (simp add: same_identity_def)
  have "valid_intent (pj_intent q)" using assms(2,6) by (simp add: same_identity_def)
  with get_to_model [OF r assms(1,2)] get_to_model [OF r2 assms(5)] show ?thesis by simp
qed

theorem project_store_roundtrip_witness:
  "\<exists>db1 db2. add_project project_platform demo_active [] = Inr db1 \<and> update_project demo_pending 2 db1 = Inr db2
     \<and> get_for_organization project_platform True ''p1'' ''o'' db2 = Inr (Some (redate True demo_pending))"
proof -
  have v: "valid_project project_platform demo_active" "valid_project project_platform demo_pending" "pj_revision demo_active = 2"
    using project_history_valid [OF demo_histories(3)] project_history_valid [OF demo_histories(4)] by simp_all
  have f: "continued_from_project_id demo_active = None" "pj_id demo_active = ''p1''" "pj_organization_id demo_active = ''o''"
    using create_project_facts [OF demo_creates]
    by (simp_all add: demo_active_def demo_launched_def demo_created_fields successor_defs)
  have si: "same_identity demo_pending demo_active" by (simp add: demo_pending_def)
  have a: "add_project project_platform demo_active [] = Inr [project_to_model project_platform demo_active]"
    by (simp add: add_project_def f)
  have u: "update_project demo_pending (pj_revision demo_active) [project_to_model project_platform demo_active]
      = Inr [project_to_model project_platform demo_pending]"
    using si by (rule update_alone)
  from project_store_roundtrip [OF v(1) _ a _ v(2) si u, of True] show ?thesis
    using a u demo_intent_valid by (auto simp: demo_intents f v(3))
qed

text \<open>
  Property (safety).  A row whose project fingerprint is the one of some project \<open>q\<close> is only ever read
  as a project with the identity of \<open>q\<close>: changing the name, the intent, the creator or any
  other immutable column behind the repository's back makes reading fail, unless SHA-256
  collides on the two immutable texts.
\<close>

theorem project_tamper_evident:
  assumes "get_for_organization pf sq i org db = Inr (Some p)" "project_row_of i org db = Some r"
    and "rw_project_fingerprint r = project_fingerprint pf q"
    and "iso_inverse pf" "datetime_range (utc_instant (pj_created_at p))" "datetime_range (utc_instant (pj_created_at q))"
  shows "pj_id p = pj_id q \<and> pj_organization_id p = pj_organization_id q \<and> pj_name p = pj_name q \<and> pj_description p = pj_description q
      \<and> canon (canonical_intent (pj_intent p)) = canon (canonical_intent (pj_intent q)) \<and> pj_created_by p = pj_created_by q
      \<and> utc_instant (pj_created_at p) = utc_instant (pj_created_at q) \<and> continued_from_project_id p = continued_from_project_id q
    \<or> sha_collides pf (immutable_dict pf p) (immutable_dict pf q)"
proof -
  have "project_fingerprint pf p = project_fingerprint pf q"
    using assms(1-3) by (auto simp: get_for_organization_def bind_res_Inr_iff)
  then have "canon (immutable_dict pf p) = canon (immutable_dict pf q) \<or> sha_collides pf (immutable_dict pf p) (immutable_dict pf q)"
    by (simp add: project_fingerprint_def project_sha256_def canonical_json_def digest_inject)
  then show ?thesis
  proof
    assume "canon (immutable_dict pf p) = canon (immutable_dict pf q)"
    from immutable_dict_inject [OF this] timestamp_inject [OF assms(4-6)] show ?thesis by blast
  qed blast
qed

theorem project_tamper_evident_witness:
  "\<exists>p. get_for_organization project_platform False ''p1'' ''o'' [project_to_model project_platform demo_created] = Inr (Some p)
     \<and> (pj_name p = pj_name demo_created \<or> sha_collides project_platform (immutable_dict project_platform p) (immutable_dict project_platform demo_created))"
proof -
  have v: "valid_project project_platform demo_created" using create_project_facts [OF demo_creates] by simp
  have rw: "project_row_of ''p1'' ''o'' [project_to_model project_platform demo_created] = Some (project_to_model project_platform demo_created)"
    by (simp add: project_row_of_def project_to_model_def demo_created_fields)
  have g: "get_for_organization project_platform False ''p1'' ''o'' [project_to_model project_platform demo_created]
      = Inr (Some (redate False demo_created))"
    by (rule get_to_model [OF rw v]) (simp add: demo_intents demo_intent_valid)
  have fp: "rw_project_fingerprint (project_to_model project_platform demo_created) = project_fingerprint project_platform demo_created"
    by (simp add: project_to_model_def)
  have d: "datetime_range (utc_instant (pj_created_at (redate False demo_created)))" "datetime_range (utc_instant (pj_created_at demo_created))"
    using create_project_facts [OF demo_creates] by (simp_all add: redate_def datetime_range_def or_now_def)
  from project_tamper_evident [OF g rw fp project_platform_iso d] g show ?thesis by blast
qed

end
