(* ===== verification/Work_Scope.thy ===== *)
theory Work_Scope
  imports Work_Queue Project_Store
begin

section \<open>Work bound to a project's plan (\<open>infrastructure/runtime/work_queue_scope.py\<close>)\<close>

text \<open>
  A work unit is bound to one plan of one project by two of its acceptance references.  The
  scoped services claim, renew, submit and recover only while that plan is the active one of
  the stored project, and a newer plan fences the units that are still claimed under an
  older one.

  The projects table is an argument; where a service looks at it in every pass, it is a
  function of the pass.  A validator that raises counts as a refusal.
\<close>

definition PROJECT_REF_PREFIX :: str where
  "PROJECT_REF_PREFIX = ''project_scope:project:''"

definition PLAN_REF_PREFIX :: str where
  "PLAN_REF_PREFIX = ''project_scope:plan:''"

definition scope_text :: "str \<Rightarrow> str result" where
  "scope_text s = raise_if (s = [] \<or> s \<noteq> strip s) WorkUnitContractError (raise_if (length s > 128) WorkUnitContractError (Inr s))"

definition plan_fingerprint :: "str \<Rightarrow> str result" where
  "plan_fingerprint s =
     raise_if (length s \<noteq> 64 \<or> (\<exists>c\<in>set s. c \<notin> set ''0123456789abcdef'')) WorkUnitContractError (Inr s)"

type_synonym scope = "str \<times> str"

definition refs_after :: "str \<Rightarrow> str list \<Rightarrow> str list" where
  "refs_after p refs = map (drop (length p)) (filter (startswith p) refs)"

definition work_unit_scope :: "work_unit \<Rightarrow> scope option result" where
  "work_unit_scope w =
     (let projects = refs_after PROJECT_REF_PREFIX (acceptance_refs w); plans = refs_after PLAN_REF_PREFIX (acceptance_refs w)
      in if projects = [] \<and> plans = [] then Inr None
         else raise_if (length projects \<noteq> 1 \<or> length plans \<noteq> 1) WorkUnitContractError
           (bind_res (scope_text (hd projects)) (\<lambda>p. bind_res (plan_fingerprint (hd plans)) (\<lambda>f. Inr (Some (p, f))))))"

definition bind_work_unit_scope :: "str \<Rightarrow> str \<Rightarrow> work_unit \<Rightarrow> work_unit result" where
  "bind_work_unit_scope project plan w =
     bind_res (scope_text project) (\<lambda>project.
     bind_res (plan_fingerprint plan) (\<lambda>plan.
     bind_res (work_unit_scope w) (\<lambda>existing.
       if existing = Some (project, plan) then Inr w
       else raise_if (existing \<noteq> None) WorkUnitContractError
         (check_work_unit (w\<lparr>acceptance_refs := acceptance_refs w @ [PROJECT_REF_PREFIX @ project, PLAN_REF_PREFIX @ plan]\<rparr>)))))"

subsection \<open>Is the scope current?\<close>

type_synonym scope_validator = "str \<Rightarrow> str \<Rightarrow> str \<Rightarrow> bool result"

definition database_scope_validator :: "platform \<Rightarrow> bool \<Rightarrow> project_row list \<Rightarrow> scope_validator" where
  "database_scope_validator pf sq projects org project plan =
     (case get_for_organization pf sq project org projects of
        Inl e \<Rightarrow> Inr False
      | Inr p \<Rightarrow> Inr (case p of
          None \<Rightarrow> False
        | Some p \<Rightarrow> pj_status p = PS_ACTIVE \<and> active_plan_request_fingerprint p = Some plan))"

record scoped_service =
  sc_base :: work_service
  sc_project :: str
  sc_plan :: str

definition new_scoped_claim_service :: "str \<Rightarrow> str \<Rightarrow> str \<Rightarrow> int \<Rightarrow> scoped_service result" where
  "new_scoped_claim_service org project plan lease =
     bind_res (new_claim_service org lease) (\<lambda>sv.
     bind_res (scope_text project) (\<lambda>p. bind_res (plan_fingerprint plan) (\<lambda>f. Inr \<lparr>sc_base = sv, sc_project = p, sc_plan = f\<rparr>)))"

definition new_scoped_lease_service :: "str \<Rightarrow> str \<Rightarrow> str \<Rightarrow> int \<Rightarrow> scoped_service result" where
  "new_scoped_lease_service org project plan lease =
     bind_res (new_lease_service org lease) (\<lambda>sv.
     bind_res (scope_text project) (\<lambda>p. bind_res (plan_fingerprint plan) (\<lambda>f. Inr \<lparr>sc_base = sv, sc_project = p, sc_plan = f\<rparr>)))"

definition scope_is_current :: "scope_validator \<Rightarrow> scoped_service \<Rightarrow> bool" where
  "scope_is_current valid sc = (case valid (ws_org (sc_base sc)) (sc_project sc) (sc_plan sc) of Inl e \<Rightarrow> False | Inr b \<Rightarrow> b)"

definition bound_to :: "scoped_service \<Rightarrow> scope option" where
  "bound_to sc = Some (sc_project sc, sc_plan sc)"

subsection \<open>Claims\<close>

text \<open>The loop of \<open>_pending_candidates\<close>: a contract error skips the row, any other error is raised.\<close>

fun keep_scoped :: "platform \<Rightarrow> scoped_service \<Rightarrow> work_unit_row list \<Rightarrow> work_unit_row list result" where
  "keep_scoped pf sc [] = Inr []"
| "keep_scoped pf sc (r # rs) =
     (case bind_res (from_model pf r) work_unit_scope of
        Inl e \<Rightarrow> if e = WorkUnitContractError then keep_scoped pf sc rs else Inl e
      | Inr b \<Rightarrow> bind_res (keep_scoped pf sc rs) (\<lambda>ks. Inr (if b = bound_to sc then r # ks else ks)))"

definition scoped_candidates :: "platform \<Rightarrow> scoped_service \<Rightarrow> scope_validator \<Rightarrow> work_db \<Rightarrow> work_unit_row list result" where
  "scoped_candidates pf sc valid db =
     (if \<not> scope_is_current valid sc then Inr [] else keep_scoped pf sc (pending_candidates (sc_base sc) db))"

definition scoped_claim_next_ready ::
  "platform \<Rightarrow> scoped_service \<Rightarrow> (nat \<Rightarrow> scope_validator) \<Rightarrow> str \<Rightarrow> capability list \<Rightarrow> (nat \<Rightarrow> nat \<Rightarrow> time) \<Rightarrow> (nat \<Rightarrow> nat \<Rightarrow> str)
     \<Rightarrow> (nat \<Rightarrow> nat \<Rightarrow> work_db \<Rightarrow> work_db) \<Rightarrow> work_db \<Rightarrow> work_unit option result \<times> work_db" where
  "scoped_claim_next_ready pf sc valid worker caps clock uuids env db =
     (if blank worker then (Inl ValueError, db)
      else retry_passes 100 WorkUnitClaimError
             (run_pass (\<lambda>n. scoped_candidates pf sc (valid n)) (\<lambda>_. claim_pick pf (sc_base sc) caps)
                (\<lambda>n i r. cas_claim pf (sc_base sc) worker (clock n i) (uuids n i)) env) db)"

definition scoped_claim_ready ::
  "platform \<Rightarrow> scoped_service \<Rightarrow> (nat \<Rightarrow> scope_validator) \<Rightarrow> str \<Rightarrow> str \<Rightarrow> capability list \<Rightarrow> (nat \<Rightarrow> nat \<Rightarrow> time)
     \<Rightarrow> (nat \<Rightarrow> nat \<Rightarrow> str) \<Rightarrow> (nat \<Rightarrow> nat \<Rightarrow> work_db \<Rightarrow> work_db) \<Rightarrow> work_db \<Rightarrow> work_unit option result \<times> work_db" where
  "scoped_claim_ready pf sc valid i worker caps clock uuids env db =
     (if blank i then (Inl ValueError, db)
      else if blank worker then (Inl ValueError, db)
      else retry_passes 100 WorkUnitClaimError
             (run_pass (\<lambda>n db. bind_res (scoped_candidates pf sc (valid n) db) (\<lambda>rs. Inr (take 1 (filter (\<lambda>r. wr_id r = i) rs))))
                (\<lambda>_. claim_pick pf (sc_base sc) caps)
                (\<lambda>n i r. cas_claim pf (sc_base sc) worker (clock n i) (uuids n i)) env) db)"

subsection \<open>Leases\<close>

definition scoped_heartbeat ::
  "platform \<Rightarrow> scoped_service \<Rightarrow> scope_validator \<Rightarrow> str \<Rightarrow> str \<Rightarrow> str \<Rightarrow> time \<Rightarrow> (work_db \<Rightarrow> work_db) \<Rightarrow> work_db
     \<Rightarrow> work_unit option result \<times> work_db" where
  "scoped_heartbeat pf sc valid i worker lease now env db =
     (if \<not> scope_is_current valid sc then (Inr None, db) else lease_heartbeat pf (sc_base sc) i worker lease now env db)"

definition scoped_submit_for_review ::
  "platform \<Rightarrow> scoped_service \<Rightarrow> scope_validator \<Rightarrow> str \<Rightarrow> str \<Rightarrow> str \<Rightarrow> immutable_version_ref \<Rightarrow> time \<Rightarrow> (work_db \<Rightarrow> work_db)
     \<Rightarrow> work_db \<Rightarrow> work_unit option result \<times> work_db" where
  "scoped_submit_for_review pf sc valid i worker lease artifact now env db =
     (if \<not> scope_is_current valid sc then (Inr None, db)
      else submit_for_review pf (sc_base sc) i worker lease artifact now env db)"

definition scoped_recover_pick :: "platform \<Rightarrow> scoped_service \<Rightarrow> capability list \<Rightarrow> time \<Rightarrow> work_unit_row \<Rightarrow> work_unit option result" where
  "scoped_recover_pick pf sc caps now r =
     bind_res (from_model pf r) (\<lambda>c.
       case work_unit_scope c of
         Inl e \<Rightarrow> Inr None
       | Inr b \<Rightarrow>
           if b \<noteq> bound_to sc \<or> (case wu_lease c of None \<Rightarrow> True | Some l \<Rightarrow> wl_expires_at l > now) \<or> \<not> is_worker_eligible c caps
           then Inr None else Inr (Some c))"

definition scoped_recover_next_expired ::
  "platform \<Rightarrow> scoped_service \<Rightarrow> scope_validator \<Rightarrow> str \<Rightarrow> capability list \<Rightarrow> (nat \<Rightarrow> time) \<Rightarrow> (nat \<Rightarrow> nat \<Rightarrow> str)
     \<Rightarrow> (nat \<Rightarrow> nat \<Rightarrow> work_db \<Rightarrow> work_db) \<Rightarrow> work_db \<Rightarrow> work_unit option result \<times> work_db" where
  "scoped_recover_next_expired pf sc valid worker caps clock uuids env db =
     (if blank worker then (Inl ValueError, db)
      else if \<not> scope_is_current valid sc then (Inr None, db)
      else retry_passes 100 WorkQueueLeaseError
             (run_pass (\<lambda>_ db. Inr (claimed_candidates (sc_base sc) db)) (\<lambda>n _. scoped_recover_pick pf sc caps (clock n))
                (\<lambda>n i. recover_one pf (sc_base sc) worker (clock n) (uuids n i)) env) db)"

subsection \<open>Cancellation of superseded work\<close>

definition superseded :: "str \<Rightarrow> str \<Rightarrow> work_unit \<Rightarrow> bool" where
  "superseded project plan w \<longleftrightarrow>
     (case work_unit_scope w of
        Inr (Some (p, f)) \<Rightarrow> p = project \<and> f \<noteq> plan \<and> wu_state w = WU_CLAIMED
      | _ \<Rightarrow> False)"

definition cancelled_unit :: "time \<Rightarrow> work_unit \<Rightarrow> work_unit" where
  "cancelled_unit now w = w\<lparr>wu_state := WU_FAILED, previous_worker := claimed_by w, claimed_by := None, wu_lease := None, wu_updated_at := now\<rparr>"

text \<open>
  The loop over the units that were listed.  \<open>update\<close> reads the row again, since nothing
  keeps the listed row objects alive; an error in the middle rolls everything back.
\<close>

fun cancel_superseded ::
  "platform \<Rightarrow> str \<Rightarrow> str \<Rightarrow> str \<Rightarrow> time \<Rightarrow> work_unit list \<Rightarrow> work_db \<Rightarrow> (int \<times> work_db) result" where
  "cancel_superseded pf org project plan now [] db = Inr (0, db)"
| "cancel_superseded pf org project plan now (w # ws) db =
     (if \<not> superseded project plan w then cancel_superseded pf org project plan now ws db
      else bind_res (check_work_unit (cancelled_unit now w)) (\<lambda>w'.
           bind_res (update_unit pf org w' now db) (\<lambda>db'.
           bind_res (cancel_superseded pf org project plan now ws db') (\<lambda>(n, db''). Inr (n + 1, db'')))))"

text \<open>\<open>env\<close> is what other clients commit between the listing and the writes.\<close>

definition request_superseded_scope_cancellation ::
  "platform \<Rightarrow> str \<Rightarrow> str \<Rightarrow> str \<Rightarrow> time \<Rightarrow> (work_db \<Rightarrow> work_db) \<Rightarrow> work_db \<Rightarrow> int result \<times> work_db" where
  "request_superseded_scope_cancellation pf org project plan now env db =
     (case bind_res (scope_text project) (\<lambda>project. bind_res (plan_fingerprint plan) (\<lambda>plan. Inr (project, plan))) of
        Inl e \<Rightarrow> (Inl e, db)
      | Inr (project, plan) \<Rightarrow>
          (case list_for_organization pf org db of
             Inl e \<Rightarrow> (Inl e, db)
           | Inr ws \<Rightarrow>
               (case cancel_superseded pf org project plan now ws (env db) of
                  Inl e \<Rightarrow> (Inl e, env db)
                | Inr (n, db') \<Rightarrow> (Inr n, db'))))"

subsection \<open>Binding\<close>

lemma strip_fixed: "s = strip s \<longleftrightarrow> s = [] \<or> \<not> is_space (hd s) \<and> \<not> is_space (last s)"
proof
  assume eq: "s = strip s"
  let ?d = "dropWhile is_space s"
  have "length (strip s) \<le> length ?d" unfolding strip_def length_rev
    using length_dropWhile_le [of is_space "rev ?d"] by simp
  with eq length_dropWhile_le [of is_space s] have "length ?d = length s" by simp
  then have d: "?d = s" by (metis append.simps(1) append_same_eq length_append add_cancel_left_left length_0_conv takeWhile_dropWhile_id)
  with eq have "dropWhile is_space (rev s) = rev s" unfolding strip_def by (metis rev_rev_ident)
  with d show "s = [] \<or> \<not> is_space (hd s) \<and> \<not> is_space (last s)" unfolding dropWhile_eq_self_iff hd_rev by auto
next
  assume "s = [] \<or> \<not> is_space (hd s) \<and> \<not> is_space (last s)"
  then have "dropWhile is_space s = s" "dropWhile is_space (rev s) = rev s" by (auto simp: dropWhile_eq_self_iff hd_rev)
  then show "s = strip s" by (simp add: strip_def)
qed

lemma canonical_append: "canonical_text s \<Longrightarrow> p \<noteq> [] \<Longrightarrow> \<not> is_space (hd p) \<Longrightarrow> canonical_text (p @ s)"
  by (auto simp: canonical_text_def strip_fixed)

lemma scope_text_Inr [simp]: "scope_text s = Inr x \<longleftrightarrow> x = s \<and> canonical_text s \<and> length s \<le> 128"
  by (auto simp: scope_text_def canonical_text_def)

lemma plan_fingerprint_Inr [simp]: "plan_fingerprint s = Inr x \<longleftrightarrow> x = s \<and> is_sha256 s"
  by (auto simp: plan_fingerprint_def is_sha256_def)

lemma sha256_canonical: "is_sha256 s \<Longrightarrow> canonical_text s"
proof -
  assume s: "is_sha256 s"
  then have "s \<noteq> []" using not_trimmed_Nil(2) by metis
  moreover have "\<forall>c\<in>set ''0123456789abcdef''. \<not> is_space c" by (simp add: is_space_def Let_def)
  with s have "\<not> is_space c" if "c \<in> set s" for c using that unfolding is_sha256_def by blast
  ultimately show ?thesis by (simp add: canonical_text_def strip_fixed)
qed

lemma work_unit_scope_Inr:
  "work_unit_scope w = Inr (Some (p, f)) \<longleftrightarrow> refs_after PROJECT_REF_PREFIX (acceptance_refs w) = [p]
     \<and> refs_after PLAN_REF_PREFIX (acceptance_refs w) = [f] \<and> canonical_text p \<and> length p \<le> 128 \<and> is_sha256 f"
  by (auto simp: work_unit_scope_def Let_def bind_res_Inr_iff length_Suc_conv)

lemma work_unit_scope_None:
  "work_unit_scope w = Inr None \<longleftrightarrow> refs_after PROJECT_REF_PREFIX (acceptance_refs w) = [] \<and> refs_after PLAN_REF_PREFIX (acceptance_refs w) = []"
  by (auto simp: work_unit_scope_def Let_def bind_res_Inr_iff)

lemma work_unit_scope_Inl: "work_unit_scope w = Inl e \<Longrightarrow> e = WorkUnitContractError"
  by (auto simp: work_unit_scope_def Let_def bind_res_def raise_if_def scope_text_def plan_fingerprint_def split: if_splits)

lemma work_unit_scope_cong: "acceptance_refs w = acceptance_refs w' \<Longrightarrow> work_unit_scope w = work_unit_scope w'"
  by (simp add: work_unit_scope_def)

lemma prefixes_apart [simp]: "\<not> startswith PROJECT_REF_PREFIX (PLAN_REF_PREFIX @ s)" "\<not> startswith PLAN_REF_PREFIX (PROJECT_REF_PREFIX @ s)"
  by (simp_all add: startswith_def PROJECT_REF_PREFIX_def PLAN_REF_PREFIX_def)

lemma prefix_heads: "PROJECT_REF_PREFIX \<noteq> [] \<and> \<not> is_space (hd PROJECT_REF_PREFIX)" "PLAN_REF_PREFIX \<noteq> [] \<and> \<not> is_space (hd PLAN_REF_PREFIX)"
  by (simp_all add: PROJECT_REF_PREFIX_def PLAN_REF_PREFIX_def is_space_def Let_def)

lemma refs_after_simps [simp]:
  "refs_after p [] = []"
  "refs_after p (xs @ ys) = refs_after p xs @ refs_after p ys"
  "refs_after p (x # xs) = (if startswith p x then drop (length p) x # refs_after p xs else refs_after p xs)"
  by (simp_all add: refs_after_def)

lemma refs_after_empty: "refs_after p xs = [] \<Longrightarrow> p @ s \<notin> set xs"
  by (auto simp: refs_after_def filter_empty_conv)

lemma bind_scope_Inr:
  assumes "check_work_unit w = Inr w"
  shows "bind_work_unit_scope project plan w = Inr w' \<longleftrightarrow> canonical_text project \<and> length project \<le> 128 \<and> is_sha256 plan
    \<and> (work_unit_scope w = Inr (Some (project, plan)) \<and> w' = w
       \<or> work_unit_scope w = Inr None
         \<and> w' = w\<lparr>acceptance_refs := acceptance_refs w @ [PROJECT_REF_PREFIX @ project, PLAN_REF_PREFIX @ plan]\<rparr>)"
proof -
  let ?w = "w\<lparr>acceptance_refs := acceptance_refs w @ [PROJECT_REF_PREFIX @ project, PLAN_REF_PREFIX @ plan]\<rparr>"
  have ck: "check_work_unit ?w = Inr ?w" if "canonical_text project" "is_sha256 plan" "work_unit_scope w = Inr None"
  proof -
    have "canonical_text (PROJECT_REF_PREFIX @ project)" "canonical_text (PLAN_REF_PREFIX @ plan)"
      using that(1) sha256_canonical [OF that(2)] by (simp_all add: canonical_append prefix_heads)
    moreover have "PROJECT_REF_PREFIX @ project \<notin> set (acceptance_refs w)" "PLAN_REF_PREFIX @ plan \<notin> set (acceptance_refs w)"
      using that(3) by (simp_all add: work_unit_scope_None refs_after_empty)
    moreover have "PROJECT_REF_PREFIX @ project \<noteq> PLAN_REF_PREFIX @ plan" by (metis prefixes_apart(2) startswith_append)
    ultimately show ?thesis using assms by (auto simp: check_work_unit_Inr)
  qed
  show ?thesis
  proof (cases "canonical_text project \<and> length project \<le> 128 \<and> is_sha256 plan")
    case True
    then have arg: "scope_text project = Inr project" "plan_fingerprint plan = Inr plan" by simp_all
    show ?thesis
    proof (cases "work_unit_scope w")
      case (Inr b)
      with True ck show ?thesis
        by (cases b) (auto simp: bind_work_unit_scope_def arg simp del: scope_text_Inr plan_fingerprint_Inr)
    qed (simp add: bind_work_unit_scope_def bind_res_Inr_iff)
  next
    case False
    then show ?thesis unfolding bind_work_unit_scope_def bind_res_Inr_iff by auto
  qed
qed

lemma check_fixed: "check_work_unit w = Inr w' \<Longrightarrow> check_work_unit w' = Inr w'"
  by (auto simp: check_work_unit_Inr)

lemma bind_scope_valid:
  assumes "valid_work_unit w" "bind_work_unit_scope project plan w = Inr w'"
  shows "valid_work_unit w'"
proof -
  have ck: "check_work_unit w = Inr w" using assms(1) by (simp add: valid_work_unit_def)
  have "check_work_unit w' = Inr w'"
    using assms(2) ck by (auto simp: bind_work_unit_scope_def bind_res_Inr_iff simp del: raise_if_simps intro: check_fixed split: if_splits)
  with assms show ?thesis by (auto simp: bind_scope_Inr [OF ck] valid_work_unit_def)
qed

lemma bound_scope:
  assumes "work_unit_scope w = Inr None" "canonical_text project" "length project \<le> 128" "is_sha256 plan"
  shows "work_unit_scope (w\<lparr>acceptance_refs := acceptance_refs w @ [PROJECT_REF_PREFIX @ project, PLAN_REF_PREFIX @ plan]\<rparr>)
    = Inr (Some (project, plan))"
  using assms by (simp add: work_unit_scope_Inr work_unit_scope_None)

subsection \<open>What a successful call has done, whatever other clients do\<close>

lemma try_candidates_Some:
  "try_candidates pick attempt env i cont rs db = (Inr (Some w, b), db') \<Longrightarrow>
     \<exists>j r c d. r \<in> set rs \<and> pick r = Inr (Some c) \<and> attempt j r c d = Inr (Some (w, db'))"
proof (induction rs arbitrary: i cont db)
  case (Cons r rs)
  consider e where "pick r = Inl e" | "pick r = Inr None" | c where "pick r = Inr (Some c)"
    by (metis obj_sumE option.exhaust)
  then show ?case
  proof cases
    case 2
    with Cons.prems Cons.IH show ?thesis by fastforce
  next
    case (3 c)
    consider e where "attempt i r c (env i db) = Inl e" | "attempt i r c (env i db) = Inr None"
      | w' db1 where "attempt i r c (env i db) = Inr (Some (w', db1))"
      by (metis obj_sumE option.exhaust surj_pair)
    then show ?thesis
    proof cases
      case 2
      with Cons.prems 3 have "try_candidates pick attempt env (Suc i) True rs (env i db) = (Inr (Some w, b), db')" by simp
      from Cons.IH [OF this] show ?thesis by auto
    qed (use Cons.prems 3 in auto)
  qed (use Cons.prems in simp)
qed simp

lemma retry_passes_Some:
  "retry_passes n e pass db = (Inr (Some w), db') \<Longrightarrow> \<exists>m d b. m < n \<and> pass m d = (Inr (Some w, b), db')"
proof (induction n arbitrary: db)
  case (Suc n)
  obtain res d where p: "pass n db = (res, d)" by fastforce
  show ?case
  proof (cases res)
    case (Inr x)
    obtain wo b where x: "x = (wo, b)" by fastforce
    show ?thesis
    proof (cases "wo = None \<and> b")
      case True
      with Suc.prems p Inr x have "retry_passes n e pass d = (Inr (Some w), db')" by simp
      from Suc.IH [OF this] show ?thesis using less_SucI by blast
    next
      case False
      with Suc.prems p Inr x have "pass n db = (Inr (Some w, b), db')" by (cases wo; cases b) simp_all
      then show ?thesis by blast
    qed
  qed (use Suc.prems p in simp)
qed simp

lemma retry_run_pass_Some:
  assumes "retry_passes n e (run_pass rows pick attempt env) db = (Inr (Some w), db')"
  shows "\<exists>m d rs r c j d'. m < n \<and> rows m d = Inr rs \<and> r \<in> set rs \<and> pick m d r = Inr (Some c) \<and> attempt m j r c d' = Inr (Some (w, db'))"
proof -
  from retry_passes_Some [OF assms] obtain m d b where m: "m < n" "run_pass rows pick attempt env m d = (Inr (Some w, b), db')" by blast
  then obtain rs where rs: "rows m d = Inr rs" "try_candidates (pick m d) (attempt m) (env m) 0 False rs d = (Inr (Some w, b), db')"
    by (auto simp: run_pass_def split: sum.splits)
  from try_candidates_Some [OF rs(2)] m(1) rs(1) show ?thesis by blast
qed

lemma cas_claim_Some:
  "cas_claim pf sv wk now u c db = Inr (Some (w, db')) \<Longrightarrow>
     acceptance_refs w = acceptance_refs (fst c) \<and> wu_state w = WU_CLAIMED \<and> claimed_by w = Some wk"
  by (auto simp: cas_claim_def Let_def bind_res_Inr_iff check_work_unit_Inr split: option.splits)

lemma recover_one_Some:
  "recover_one pf sv wk now u r c db = Inr (Some (w, db')) \<Longrightarrow>
     acceptance_refs w = acceptance_refs c \<and> wu_state w = wu_state c \<and> claimed_by w = Some wk"
  by (auto simp: recover_one_def bind_res_Inr_iff cas_and_record_Inr check_work_unit_Inr)

lemma claim_pick_Some: "claim_pick pf sv caps db r = Inr (Some c) \<Longrightarrow> from_model pf r = Inr (fst c)"
  by (auto simp: claim_pick_def bind_res_Inr_iff split: if_splits)

lemma keep_scoped_Inr:
  "keep_scoped pf sc rs = Inr ks \<Longrightarrow> r \<in> set ks \<Longrightarrow>
     r \<in> set rs \<and> (\<exists>w. from_model pf r = Inr w \<and> work_unit_scope w = Inr (bound_to sc))"
  by (induction rs arbitrary: ks) (auto simp: bind_res_Inr_iff split: sum.splits if_splits)

lemma scoped_candidates_Inr:
  assumes "scoped_candidates pf sc valid db = Inr rs" "r \<in> set rs"
  shows "scope_is_current valid sc" "r \<in> set (pending_candidates (sc_base sc) db)"
    "\<exists>w. from_model pf r = Inr w \<and> work_unit_scope w = Inr (bound_to sc)"
  using assms keep_scoped_Inr [of pf sc "pending_candidates (sc_base sc) db" rs r]
  by (auto simp: scoped_candidates_def split: if_splits)

lemma scope_is_current_database:
  "scope_is_current (database_scope_validator pf sq projects) sc \<longleftrightarrow>
     (\<exists>p. get_for_organization pf sq (sc_project sc) (ws_org (sc_base sc)) projects = Inr (Some p)
        \<and> pj_status p = PS_ACTIVE \<and> active_plan_request_fingerprint p = Some (sc_plan sc))"
  by (auto simp: scope_is_current_def database_scope_validator_def split: sum.splits option.splits)

text \<open>A claim of one candidate among rows that are bound to the scope.\<close>

lemma scoped_claim_Some:
  assumes "retry_passes n e (run_pass rows (\<lambda>_. claim_pick pf (sc_base sc) caps)
      (\<lambda>n i r. cas_claim pf (sc_base sc) wk (clock n i) (uuids n i)) env) db = (Inr (Some w), db')"
    and rows: "\<And>m d rs. rows m d = Inr rs \<Longrightarrow> \<exists>ks. scoped_candidates pf sc (valid m) d = Inr ks \<and> set rs \<subseteq> set ks"
  shows "work_unit_scope w = Inr (bound_to sc) \<and> wu_state w = WU_CLAIMED \<and> claimed_by w = Some wk \<and> (\<exists>m<n. scope_is_current (valid m) sc)"
proof -
  from retry_run_pass_Some [OF assms(1)] obtain m d rs r c j d' where m: "m < n" "rows m d = Inr rs" "r \<in> set rs"
    and pk: "claim_pick pf (sc_base sc) caps d r = Inr (Some c)"
    and at: "cas_claim pf (sc_base sc) wk (clock m j) (uuids m j) c d' = Inr (Some (w, db'))" by blast
  from rows [OF m(2)] m(3) obtain ks where ks: "scoped_candidates pf sc (valid m) d = Inr ks" "r \<in> set ks" by blast
  note k = scoped_candidates_Inr [OF ks]
  from k(3) claim_pick_Some [OF pk] have "work_unit_scope (fst c) = Inr (bound_to sc)" by simp
  with cas_claim_Some [OF at] have "work_unit_scope w = Inr (bound_to sc)"
    using work_unit_scope_cong [of w "fst c"] by simp
  with cas_claim_Some [OF at] m(1) k(1) show ?thesis by blast
qed

lemma scoped_claim_next_Some:
  assumes "scoped_claim_next_ready pf sc valid wk caps clock uuids env db = (Inr (Some w), db')"
  shows "work_unit_scope w = Inr (bound_to sc) \<and> wu_state w = WU_CLAIMED \<and> claimed_by w = Some wk \<and> (\<exists>m<100. scope_is_current (valid m) sc)"
proof (rule scoped_claim_Some)
  show "retry_passes 100 WorkUnitClaimError (run_pass (\<lambda>n. scoped_candidates pf sc (valid n)) (\<lambda>_. claim_pick pf (sc_base sc) caps)
      (\<lambda>n i r. cas_claim pf (sc_base sc) wk (clock n i) (uuids n i)) env) db = (Inr (Some w), db')"
    using assms unfolding scoped_claim_next_ready_def by (simp split: if_splits)
qed blast

lemma scoped_claim_ready_Some:
  assumes "scoped_claim_ready pf sc valid i wk caps clock uuids env db = (Inr (Some w), db')"
  shows "work_unit_scope w = Inr (bound_to sc) \<and> wu_state w = WU_CLAIMED \<and> claimed_by w = Some wk \<and> (\<exists>m<100. scope_is_current (valid m) sc)"
proof (rule scoped_claim_Some)
  show "retry_passes 100 WorkUnitClaimError (run_pass
      (\<lambda>n db. bind_res (scoped_candidates pf sc (valid n) db) (\<lambda>rs. Inr (take 1 (filter (\<lambda>r. wr_id r = i) rs))))
      (\<lambda>_. claim_pick pf (sc_base sc) caps)
      (\<lambda>n i r. cas_claim pf (sc_base sc) wk (clock n i) (uuids n i)) env) db = (Inr (Some w), db')"
    using assms unfolding scoped_claim_ready_def by (simp split: if_splits)
qed (auto simp: bind_res_Inr_iff dest!: in_set_takeD)

lemma scoped_recover_pick_Some:
  "scoped_recover_pick pf sc caps now r = Inr (Some c) \<Longrightarrow>
     work_unit_scope c = Inr (bound_to sc) \<and> recover_pick pf caps now r = Inr (Some c)"
proof -
  assume pk: "scoped_recover_pick pf sc caps now r = Inr (Some c)"
  then obtain w where w: "from_model pf r = Inr w" by (cases "from_model pf r") (simp_all add: scoped_recover_pick_def)
  with pk show ?thesis
    by (cases "work_unit_scope w") (auto simp: scoped_recover_pick_def recover_pick_def split: option.splits if_splits)
qed

lemma scoped_recover_Some:
  assumes "scoped_recover_next_expired pf sc valid wk caps clock uuids env db = (Inr (Some w), db')"
  shows "work_unit_scope w = Inr (bound_to sc) \<and> claimed_by w = Some wk \<and> scope_is_current valid sc"
proof -
  have cur: "scope_is_current valid sc" using assms by (auto simp: scoped_recover_next_expired_def split: if_splits)
  have "retry_passes 100 WorkQueueLeaseError (run_pass (\<lambda>_ db. Inr (claimed_candidates (sc_base sc) db))
      (\<lambda>n _. scoped_recover_pick pf sc caps (clock n))
      (\<lambda>n i. recover_one pf (sc_base sc) wk (clock n) (uuids n i)) env) db = (Inr (Some w), db')"
    using assms unfolding scoped_recover_next_expired_def by (simp split: if_splits)
  from retry_run_pass_Some [OF this] obtain m r c j d' where pk: "scoped_recover_pick pf sc caps (clock m) r = Inr (Some c)"
    and at: "recover_one pf (sc_base sc) wk (clock m) (uuids m j) r c d' = Inr (Some (w, db'))" by blast
  from scoped_recover_pick_Some [OF pk] recover_one_Some [OF at] work_unit_scope_cong [of w c] cur show ?thesis by simp
qed

subsection \<open>The scoped services keep the invariant of the tables\<close>

lemma bind_res_Inr [simp]: "bind_res m Inr = m"
  by (cases m) simp_all

interpretation scoped_claims: candidate_service pf "\<lambda>n db. bind_res (scoped_candidates pf sc (valid n) db) (\<lambda>rs. Inr (sel rs))"
    "\<lambda>_. claim_pick pf (sc_base sc) caps" "\<lambda>n i r. cas_claim pf (sc_base sc) wk (clock n i) (uuids n i)"
    "\<lambda>db w' db'. (\<forall>n i. datetime_range (clock n i)) \<longrightarrow> (\<forall>rs. set (sel rs) \<subseteq> set rs) \<longrightarrow> unit_step pf db None db'"
  for pf sc valid caps clock wk uuids sel
proof (unfold_locales, intro impI)
  fix db m rs r c j w db'
  assume ok: "db_ok pf db" "iso_inverse pf" and rs: "bind_res (scoped_candidates pf sc (valid m) db) (\<lambda>rs. Inr (sel rs)) = Inr rs" "r \<in> set rs"
    and cl: "claim_pick pf (sc_base sc) caps db r = Inr (Some c)" "cas_claim pf (sc_base sc) wk (clock m j) (uuids m j) c db = Inr (Some (w, db'))"
    and dt: "\<forall>n i. datetime_range (clock n i)" and sel: "\<forall>rs. set (sel rs) \<subseteq> set rs"
  from rs sel obtain ks where ks: "scoped_candidates pf sc (valid m) db = Inr ks" "r \<in> set ks" by (auto simp: bind_res_Inr_iff)
  from claim_one_step [OF ok _ scoped_candidates_Inr(2) [OF ks] cl] dt show "unit_step pf db None db'" by blast
qed

interpretation scoped_recovery: candidate_service pf "\<lambda>_ db. Inr (claimed_candidates (sc_base sc) db)"
    "\<lambda>n _. scoped_recover_pick pf sc caps (clock n)" "\<lambda>n i. recover_one pf (sc_base sc) wk (clock n) (uuids n i)"
    "\<lambda>db w' db'. (\<forall>n. datetime_range (clock n)) \<longrightarrow> recovers pf (sc_base sc) wk clock uuids db w' db'"
  for pf sc caps clock wk uuids
  by unfold_locales (use recover_one_effect scoped_recover_pick_Some in blast)

lemma scoped_claim_next_step:
  assumes "db_ok pf db" "iso_inverse pf" "\<forall>n i. datetime_range (clock n i)"
    and "scoped_claim_next_ready pf sc valid wk caps clock uuids (\<lambda>_ _. id) db = (res, db')"
  shows "db' = db \<or> unit_step pf db None db'"
proof (cases "blank wk")
  case False
  have r: "retry_passes 100 WorkUnitClaimError (run_pass (\<lambda>n db. bind_res (scoped_candidates pf sc (valid n) db) (\<lambda>rs. Inr rs))
      (\<lambda>_. claim_pick pf (sc_base sc) caps) (\<lambda>n i r. cas_claim pf (sc_base sc) wk (clock n i) (uuids n i)) (\<lambda>_ _. id)) db = (res, db')"
    using assms(4) False by (simp add: scoped_claim_next_ready_def)
  from scoped_claims.call_step [where sel = "\<lambda>rs. rs", OF assms(1,2) r] assms(3) show ?thesis by blast
qed (use assms(4) in \<open>simp add: scoped_claim_next_ready_def\<close>)

lemma scoped_claim_ready_step:
  assumes "db_ok pf db" "iso_inverse pf" "\<forall>n i. datetime_range (clock n i)"
    and "scoped_claim_ready pf sc valid i wk caps clock uuids (\<lambda>_ _. id) db = (res, db')"
  shows "db' = db \<or> unit_step pf db None db'"
proof (cases "blank i \<or> blank wk")
  case False
  then have nb: "\<not> blank i" "\<not> blank wk" by simp_all
  have "set (take 1 (filter (\<lambda>r. wr_id r = i) rs)) \<subseteq> set rs" for rs :: "work_unit_row list" by (auto dest!: in_set_takeD)
  with scoped_claims.call_step [where sel = "\<lambda>rs. take 1 (filter (\<lambda>r. wr_id r = i) rs)", OF assms(1,2)
      assms(4) [unfolded scoped_claim_ready_def if_not_P [OF nb(1)] if_not_P [OF nb(2)]]] assms(3) show ?thesis by blast
qed (use assms(4) in \<open>auto simp: scoped_claim_ready_def split: if_splits\<close>)

lemma scoped_recover_step:
  assumes "db_ok pf db" "iso_inverse pf" "\<forall>n. datetime_range (clock n)"
    and "scoped_recover_next_expired pf sc valid wk caps clock uuids (\<lambda>_ _. id) db = (res, db')"
  shows "db' = db \<or> unit_step pf db None db'"
proof (cases "blank wk \<or> \<not> scope_is_current valid sc")
  case False
  then have nb: "\<not> blank wk" "\<not> \<not> scope_is_current valid sc" by simp_all
  from scoped_recovery.call_step [OF assms(1,2)
      assms(4) [unfolded scoped_recover_next_expired_def if_not_P [OF nb(1)] if_not_P [OF nb(2)]]] assms(3)
  show ?thesis using recovers_step [OF _ assms(1,2)] by blast
qed (use assms(4) in \<open>auto simp: scoped_recover_next_expired_def split: if_splits\<close>)

subsection \<open>Cancellation\<close>

lemma superseded_iff: "superseded project plan w \<longleftrightarrow> (\<exists>f. work_unit_scope w = Inr (Some (project, f)) \<and> f \<noteq> plan) \<and> wu_state w = WU_CLAIMED"
  by (auto simp: superseded_def split: sum.splits option.splits)

lemma flush_unit_key [simp]: "unit_key (flush_unit r n x) = unit_key x" "wr_org (flush_unit r n x) = wr_org x" "wr_id (flush_unit r n x) = wr_id x"
  by (simp_all add: flush_unit_def)

lemma written_alone [simp]: "written seen new seen f = f new"
  by (simp add: written_def)

lemma flush_represents:
  assumes "represents pf r w" "valid_work_unit w'" "wu_id w' = wu_id w"
  shows "represents pf (flush_unit r (to_model pf (wr_org r) w') r) w'"
  using assms by (auto simp: represents_iff flush_unit_def written_def written_json_def to_model_def null_or_def split: option.splits)

lemma cancelled_valid:
  assumes "valid_work_unit w" "datetime_range now" "wu_created_at w \<le> now"
  shows "check_work_unit (cancelled_unit now w) = Inr (cancelled_unit now w)" "valid_work_unit (cancelled_unit now w)"
  using assms by (simp_all add: valid_work_unit_def check_work_unit_Inr cancelled_unit_def)

lemma check_cancelled: "check_work_unit (cancelled_unit now w) = Inr w' \<Longrightarrow> w' = cancelled_unit now w \<and> wu_created_at w \<le> now"
  by (simp add: check_work_unit_Inr cancelled_unit_def)

lemma update_seen_Inr:
  "update_seen pf org w now seen db = Inr db' \<longleftrightarrow>
     \<not> ((wr_lease (to_model pf org w) = None \<or> flush_unit seen (to_model pf org w) seen \<noteq> seen) \<and> get_unit_row org (wu_id w) db = None)
     \<and> db' = db\<lparr>units := map (\<lambda>x. if unit_key x = (org, wu_id w) then flush_unit seen (to_model pf org w) x else x) (units db),
              revisions := revisions db @ [revision_of pf org w now db]\<rparr>"
  by (auto simp: update_seen_def Let_def append_revision_total revision_of_def)

lemma get_unit_row_ok: "db_ok pf db \<Longrightarrow> r \<in> set (units db) \<Longrightarrow> get_unit_row (wr_org r) (wr_id r) db = Some r"
proof -
  assume ok: "db_ok pf db" and r: "r \<in> set (units db)"
  then obtain y where y: "get_unit_row (wr_org r) (wr_id r) db = Some y"
    by (cases "get_unit_row (wr_org r) (wr_id r) db") (auto simp: get_unit_row_def find_None_iff)
  from get_unit_row_Some [OF y] r ok have "y = r" by (auto simp: db_ok_def distinct_map inj_on_def)
  with y show ?thesis by simp
qed

lemma update_unit_total:
  assumes "db_ok pf db" "r \<in> set (units db)" "represents pf r w" "valid_work_unit w'" "wu_id w' = wu_id w"
  shows "\<exists>db'. update_unit pf (wr_org r) w' now db = Inr db' \<and> transition pf (wr_org r) w w' now db db'
    \<and> units db' = map (\<lambda>x. if x = r then flush_unit r (to_model pf (wr_org r) w') r else x) (units db)"
proof -
  let ?f = "flush_unit r (to_model pf (wr_org r) w')"
  have k: "unit_key r = (wr_org r, wu_id w')" using assms(3,5) by (simp add: represents_iff)
  have inj: "x = r" if "x \<in> set (units db)" "unit_key x = unit_key r" for x
    using assms(1,2) that by (auto simp: db_ok_def distinct_map inj_on_def)
  have us: "map (\<lambda>x. if unit_key x = unit_key r then ?f x else x) (units db) = map (\<lambda>x. if x = r then ?f r else x) (units db)"
    "map (\<lambda>x. if unit_key x = unit_key r then ?f r else x) (units db) = map (\<lambda>x. if x = r then ?f r else x) (units db)"
    using inj by (auto simp: map_eq_conv)
  have g: "get_unit_row (wr_org r) (wu_id w') db = Some r" using get_unit_row_ok [OF assms(1,2)] k by simp
  then obtain db' where u: "update_seen pf (wr_org r) w' now r db = Inr db'" by (simp add: update_seen_Inr)
  then have db': "units db' = map (\<lambda>x. if x = r then ?f r else x) (units db)" "revisions db' = revisions db @ [revision_of pf (wr_org r) w' now db]"
    using us(1) by (simp_all add: update_seen_Inr k)
  have "transition pf (wr_org r) w w' now db db'" unfolding transition_def
    by (rule exI [of _ r], rule exI [of _ "?f r"]) (use assms(2,3) flush_represents [OF assms(3-5)] db' us(2) in simp)
  with u g db'(1) show ?thesis by (auto simp: update_unit_def)
qed

definition cancelled_row :: "platform \<Rightarrow> str \<Rightarrow> str \<Rightarrow> time \<Rightarrow> (work_unit_row \<times> work_unit) list \<Rightarrow> work_unit_row \<Rightarrow> work_unit_row" where
  "cancelled_row pf project plan now rws x =
     (case map_of rws x of
        Some w \<Rightarrow> if superseded project plan w then flush_unit x (to_model pf (wr_org x) (cancelled_unit now w)) x else x
      | None \<Rightarrow> x)"

abbreviation unit_steps :: "platform \<Rightarrow> work_db \<Rightarrow> work_db \<Rightarrow> bool" where
  "unit_steps pf \<equiv> (\<lambda>a b. unit_step pf a None b)\<^sup>*\<^sup>*"

lemma cancelled_step:
  assumes "db_ok pf db" "iso_inverse pf" "transition pf org w (cancelled_unit now w) now db db'" "wu_state w = WU_CLAIMED"
  shows "unit_step pf db None db'"
  by (rule unit_stepI [OF assms(1-3)]) (use assms(4) in \<open>auto simp: cancelled_unit_def unit_inv_def event_ok_def\<close>)

lemma cancel_superseded_total:
  assumes "db_ok pf db" "iso_inverse pf" "datetime_range now" "distinct (map (unit_key \<circ> fst) rws)"
    and "\<And>r w. (r, w) \<in> set rws \<Longrightarrow> r \<in> set (units db) \<and> wr_org r = org \<and> represents pf r w \<and> (superseded project plan w \<longrightarrow> wu_created_at w \<le> now)"
  shows "\<exists>db'. cancel_superseded pf org project plan now (map snd rws) db = Inr (int (length (filter (\<lambda>x. superseded project plan (snd x)) rws)), db')
    \<and> unit_steps pf db db' \<and> units db' = map (cancelled_row pf project plan now rws) (units db)"
  using assms
proof (induction rws arbitrary: db)
  case (Cons rw rws)
  obtain r w where rw: "rw = (r, w)" by fastforce
  have r: "r \<in> set (units db)" "wr_org r = org" "represents pf r w" using Cons.prems(5) rw by auto
  have d: "distinct (map (unit_key \<circ> fst) rws)" using Cons.prems(4) by (simp add: comp_def)
  have notin: "x \<notin> fst ` set rws" if "unit_key x = unit_key r" for x
    using Cons.prems(4) rw that by (force simp: image_iff)
  show ?case
  proof (cases "superseded project plan w")
    case False
    from Cons.IH [OF Cons.prems(1-3) d] Cons.prems(5) obtain db' where
      c: "cancel_superseded pf org project plan now (map snd rws) db = Inr (int (length (filter (\<lambda>x. superseded project plan (snd x)) rws)), db')"
      "unit_steps pf db db'" "units db' = map (cancelled_row pf project plan now rws) (units db)"
      by (metis list.set_intros(2))
    have "cancelled_row pf project plan now (rw # rws) x = cancelled_row pf project plan now rws x" for x
      using False notin [of r] by (auto simp: cancelled_row_def rw map_of_eq_None_iff [THEN iffD2])
    with c False show ?thesis by (auto simp: rw)
  next
    case True
    have v: "valid_work_unit w" using r(3) by (simp add: represents_iff)
    have cr: "wu_created_at w \<le> now" using Cons.prems(5) rw True by auto
    note cv = cancelled_valid [OF v Cons.prems(3) cr]
    let ?w = "cancelled_unit now w" and ?r = "flush_unit r (to_model pf org (cancelled_unit now w)) r"
    have "wu_id ?w = wu_id w" by (simp add: cancelled_unit_def)
    from update_unit_total [OF Cons.prems(1) r(1,3) cv(2) this, of now] obtain db1 where
      u: "update_unit pf org ?w now db = Inr db1" "transition pf org w ?w now db db1"
      and us: "units db1 = map (\<lambda>x. if x = r then ?r else x) (units db)" unfolding r(2) by blast
    have st: "unit_step pf db None db1" using cancelled_step [OF Cons.prems(1,2) u(2)] True by (simp add: superseded_iff)
    then have ok1: "db_ok pf db1" using unit_step_ok Cons.prems(1,2) by blast
    have keep: "x \<in> set (units db1)" if "(x, y) \<in> set rws" for x y
      using Cons.prems(5) [of x y] that notin [of x] rw us by (force simp: image_iff)
    from Cons.IH [OF ok1 Cons.prems(2,3) d] Cons.prems(5) keep obtain db' where
      c: "cancel_superseded pf org project plan now (map snd rws) db1 = Inr (int (length (filter (\<lambda>x. superseded project plan (snd x)) rws)), db')"
      "unit_steps pf db1 db'" "units db' = map (cancelled_row pf project plan now rws) (units db1)"
      by (metis list.set_intros(2))
    have "map_of rws ?r = None" "map_of rws r = None" using notin [of ?r] notin [of r] by (simp_all add: map_of_eq_None_iff)
    then have "cancelled_row pf project plan now rws (if x = r then ?r else x) = cancelled_row pf project plan now (rw # rws) x" for x
      using True r(2) by (simp add: cancelled_row_def rw)
    with c(3) us have "units db' = map (cancelled_row pf project plan now (rw # rws)) (units db)" by (simp add: comp_def)
    with c st True u(1) cv(1) show ?thesis by (auto simp: rw intro: converse_rtranclp_into_rtranclp)
  qed
qed (auto simp: cancelled_row_def intro!: map_idI [symmetric])

lemma cancel_superseded_created:
  "cancel_superseded pf org project plan now ws db = Inr (n, db') \<Longrightarrow> w \<in> set ws \<Longrightarrow> superseded project plan w \<Longrightarrow> wu_created_at w \<le> now"
  by (induction ws arbitrary: db n) (auto simp: bind_res_Inr_iff dest: check_cancelled split: if_splits)

definition unit_of :: "platform \<Rightarrow> work_unit_row \<Rightarrow> work_unit" where
  "unit_of pf r = projr (from_model pf r)"

lemma unit_of_represents:
  assumes "db_ok pf db" "iso_inverse pf" "r \<in> set (units db)"
  shows "represents pf r (unit_of pf r)" "from_model pf r = Inr (unit_of pf r)"
  using db_ok_row [OF assms(1,3)] represents_read [OF _ assms(2)] by (auto simp: unit_of_def)

abbreviation rows_of :: "str \<Rightarrow> work_db \<Rightarrow> work_unit_row list" where
  "rows_of org db \<equiv> filter (\<lambda>r. wr_org r = org) (units db)"

lemma listed_units:
  assumes "db_ok pf db" "iso_inverse pf"
  shows "list_for_organization pf org db = Inr (map (unit_of pf) (rows_of org db))"
  using unit_of_represents(2) [OF assms] by (auto simp: list_for_organization_def intro: seq_res_map)

lemma request_cancellation:
  assumes "db_ok pf db" "iso_inverse pf" "canonical_text project" "length project \<le> 128" "is_sha256 plan"
  shows "request_superseded_scope_cancellation pf org project plan now env db =
    (case cancel_superseded pf org project plan now (map (unit_of pf) (rows_of org db)) (env db) of
       Inl e \<Rightarrow> (Inl e, env db) | Inr (n, db') \<Rightarrow> (Inr n, db'))"
proof -
  have "scope_text project = Inr project" "plan_fingerprint plan = Inr plan" using assms(3-5) by simp_all
  then show ?thesis unfolding request_superseded_scope_cancellation_def listed_units [OF assms(1,2)]
    by (simp del: scope_text_Inr plan_fingerprint_Inr)
qed

lemma request_cancellation_args:
  "request_superseded_scope_cancellation pf org project plan now env db = (Inr n, db') \<Longrightarrow>
     canonical_text project \<and> length project \<le> 128 \<and> is_sha256 plan"
  by (cases "scope_text project"; cases "plan_fingerprint plan") (auto simp: request_superseded_scope_cancellation_def)

lemma cancellation_total:
  assumes "db_ok pf db" "iso_inverse pf" "datetime_range now" "canonical_text project" "length project \<le> 128" "is_sha256 plan"
    and "\<And>r. r \<in> set (rows_of org db) \<Longrightarrow> superseded project plan (unit_of pf r) \<Longrightarrow> wu_created_at (unit_of pf r) \<le> now"
  shows "\<exists>db'. request_superseded_scope_cancellation pf org project plan now id db
      = (Inr (int (length (filter (\<lambda>r. superseded project plan (unit_of pf r)) (rows_of org db)))), db')
    \<and> unit_steps pf db db'
    \<and> units db' = map (\<lambda>r. if wr_org r = org \<and> superseded project plan (unit_of pf r)
         then flush_unit r (to_model pf org (cancelled_unit now (unit_of pf r))) r else r) (units db)"
proof -
  let ?rws = "map (\<lambda>r. (r, unit_of pf r)) (rows_of org db)"
  have d: "distinct (map (unit_key \<circ> fst) ?rws)" using assms(1) by (simp add: db_ok_def comp_def distinct_map_filter)
  have p: "r \<in> set (units db) \<and> wr_org r = org \<and> represents pf r w \<and> (superseded project plan w \<longrightarrow> wu_created_at w \<le> now)"
    if "(r, w) \<in> set ?rws" for r w
    using that assms(7) unit_of_represents(1) [OF assms(1,2)] by auto
  from cancel_superseded_total [OF assms(1-3) d p] obtain db' where
    c: "cancel_superseded pf org project plan now (map snd ?rws) db
        = Inr (int (length (filter (\<lambda>x. superseded project plan (snd x)) ?rws)), db')"
    "unit_steps pf db db'" "units db' = map (cancelled_row pf project plan now ?rws) (units db)" by blast
  have n: "length (filter (\<lambda>x. superseded project plan (snd x)) ?rws) = length (filter (\<lambda>r. superseded project plan (unit_of pf r)) (rows_of org db))"
    by (simp add: filter_map comp_def)
  have "cancelled_row pf project plan now ?rws r = (if wr_org r = org \<and> superseded project plan (unit_of pf r)
      then flush_unit r (to_model pf org (cancelled_unit now (unit_of pf r))) r else r)" if "r \<in> set (units db)" for r
    using that by (auto simp: cancelled_row_def map_of_map_restrict restrict_map_def)
  then have "units db' = map (\<lambda>r. if wr_org r = org \<and> superseded project plan (unit_of pf r)
      then flush_unit r (to_model pf org (cancelled_unit now (unit_of pf r))) r else r) (units db)"
    unfolding c(3) by (intro map_cong refl) blast
  with c(1,2) n show ?thesis by (simp add: request_cancellation [OF assms(1,2,4-6)] comp_def)
qed

lemma cancellation_steps:
  assumes "db_ok pf db" "iso_inverse pf" "datetime_range now"
    and "request_superseded_scope_cancellation pf org project plan now id db = (res, db')"
  shows "unit_steps pf db db'"
proof (cases res)
  case (Inl e)
  with assms(4) show ?thesis
    by (auto simp: request_superseded_scope_cancellation_def split: sum.splits prod.splits)
next
  case (Inr n)
  have arg: "canonical_text project" "length project \<le> 128" "is_sha256 plan"
    using request_cancellation_args assms(4) Inr by blast+
  have c: "cancel_superseded pf org project plan now (map (unit_of pf) (rows_of org db)) db = Inr (n, db')"
    using assms(4) Inr by (auto simp: request_cancellation [OF assms(1,2) arg] split: sum.splits)
  have "wu_created_at (unit_of pf r) \<le> now" if "r \<in> set (rows_of org db)" "superseded project plan (unit_of pf r)" for r
    using cancel_superseded_created [OF c _ that(2)] that(1) by auto
  from cancellation_total [where org = org, OF assms(1-3) arg this] assms(4) show ?thesis by auto
qed

text \<open>A cancellation with other clients in between: the row of a superseded unit, and the other rows.\<close>

lemma get_after_update:
  assumes "update_unit pf org w now db = Inr db'"
  shows "\<exists>x. get_unit_row org (wu_id w) db = Some x \<and> get_unit_row org (wu_id w) db' = Some (flush_unit x (to_model pf org w) x)"
    "i \<noteq> wu_id w \<Longrightarrow> get_unit_row org i db' = get_unit_row org i db"
proof -
  obtain x where x: "get_unit_row org (wu_id w) db = Some x" and u: "update_seen pf org w now x db = Inr db'"
    using assms by (auto simp: update_unit_def split: option.splits)
  let ?g = "\<lambda>y. if unit_key y = (org, wu_id w) then flush_unit x (to_model pf org w) y else y"
  have us: "units db' = map ?g (units db)" using u by (simp add: update_seen_Inr)
  have g: "get_unit_row org j db' = map_option ?g (get_unit_row org j db)" for j
    unfolding get_unit_row_def us by (rule find_map_same) simp
  show "\<exists>x. get_unit_row org (wu_id w) db = Some x \<and> get_unit_row org (wu_id w) db' = Some (flush_unit x (to_model pf org w) x)"
    using g [of "wu_id w"] x get_unit_row_Some [OF x] by simp
  show "get_unit_row org i db' = get_unit_row org i db" if "i \<noteq> wu_id w"
    using g [of i] that by (cases "get_unit_row org i db") (auto dest: get_unit_row_Some)
qed

lemma cancelled_id [simp]: "wu_id (cancelled_unit now w) = wu_id w"
  by (simp add: cancelled_unit_def)

lemma cancel_superseded_Cons:
  assumes "cancel_superseded pf org project plan now (w # ws) db = Inr (n, db')" "superseded project plan w"
  shows "\<exists>db1 m. update_unit pf org (cancelled_unit now w) now db = Inr db1 \<and> cancel_superseded pf org project plan now ws db1 = Inr (m, db')"
  using assms by (auto simp: bind_res_Inr_iff dest: check_cancelled)

lemma cancel_superseded_other:
  "cancel_superseded pf org project plan now ws db = Inr (n, db') \<Longrightarrow> i \<notin> wu_id ` set ws \<Longrightarrow> get_unit_row org i db' = get_unit_row org i db"
proof (induction ws arbitrary: db n)
  case (Cons w ws)
  show ?case
  proof (cases "superseded project plan w")
    case True
    from cancel_superseded_Cons [OF Cons.prems(1) this] obtain db1 m where u: "update_unit pf org (cancelled_unit now w) now db = Inr db1"
      and c: "cancel_superseded pf org project plan now ws db1 = Inr (m, db')" by blast
    from get_after_update(2) [OF u, of i] Cons.IH [OF c] Cons.prems(2) show ?thesis by auto
  qed (use Cons in simp)
qed simp

lemma cancel_superseded_hit:
  assumes "cancel_superseded pf org project plan now ws db = Inr (n, db')" "distinct (map wu_id ws)" "w \<in> set ws" "superseded project plan w"
  shows "\<exists>x. get_unit_row org (wu_id w) db' = Some (flush_unit x (to_model pf org (cancelled_unit now w)) x)"
  using assms(1-3)
proof (induction ws arbitrary: db n)
  case (Cons v ws)
  show ?case
  proof (cases "v = w")
    case True
    with Cons.prems(1) assms(4) obtain db1 m where u: "update_unit pf org (cancelled_unit now w) now db = Inr db1"
      and c: "cancel_superseded pf org project plan now ws db1 = Inr (m, db')"
      using cancel_superseded_Cons [of pf org project plan now v ws db n db'] by blast
    have "wu_id w \<notin> wu_id ` set ws" using Cons.prems(2) True by simp
    from cancel_superseded_other [OF c this] get_after_update(1) [OF u] show ?thesis by auto
  next
    case False
    then have m: "w \<in> set ws" using Cons.prems(3) by simp
    show ?thesis
    proof (cases "superseded project plan v")
      case True
      from cancel_superseded_Cons [OF Cons.prems(1) this] obtain db1 k where "cancel_superseded pf org project plan now ws db1 = Inr (k, db')" by blast
      from Cons.IH [OF this _ m] Cons.prems(2) show ?thesis by simp
    qed (use Cons m in simp)
  qed
qed simp

lemma from_model_no_lease: "from_model pf r = Inr c \<Longrightarrow> wr_lease r = None \<Longrightarrow> wu_lease c = None"
  by (auto simp: from_model_def from_payload_def jget_def null_or_def read_lease_def bind_res_Inr_iff check_work_unit_Inr)

lemma no_lease_dead:
  assumes "get_unit_row (ws_org sv) i db = Some r" "wr_lease r = None"
  shows "fst (lease_heartbeat pf sv i wk l t env db) \<noteq> Inr (Some u)" "fst (submit_for_review pf sv i wk l a t env db) \<noteq> Inr (Some u)"
proof -
  have "\<not> lease_valid_for c wk l t" if "from_model pf r = Inr c" for c
    using from_model_no_lease [OF that assms(2)] by (simp add: lease_valid_for_def)
  with assms(1) show "fst (lease_heartbeat pf sv i wk l t env db) \<noteq> Inr (Some u)"
    "fst (submit_for_review pf sv i wk l a t env db) \<noteq> Inr (Some u)"
    by (cases "from_model pf r"; auto simp: lease_heartbeat_def submit_for_review_def finish_def)+
qed

subsection \<open>Runs of all services\<close>

inductive sq_step :: "platform \<Rightarrow> work_db \<Rightarrow> work_db \<Rightarrow> bool" for pf where
  sq_plain: "wq_step pf db e db' \<Longrightarrow> sq_step pf db db'"
| sq_claim_next: "scoped_claim_next_ready pf sc valid wk caps clock uuids (\<lambda>_ _. id) db = (res, db') \<Longrightarrow>
    (\<forall>n i. datetime_range (clock n i)) \<Longrightarrow> sq_step pf db db'"
| sq_claim: "scoped_claim_ready pf sc valid i wk caps clock uuids (\<lambda>_ _. id) db = (res, db') \<Longrightarrow>
    (\<forall>n i. datetime_range (clock n i)) \<Longrightarrow> sq_step pf db db'"
| sq_heartbeat: "scoped_heartbeat pf sc v i wk l now id db = (res, db') \<Longrightarrow> datetime_range now \<Longrightarrow> sq_step pf db db'"
| sq_submit: "scoped_submit_for_review pf sc v i wk l a now id db = (res, db') \<Longrightarrow> valid_version a \<Longrightarrow> datetime_range now \<Longrightarrow>
    sq_step pf db db'"
| sq_recover: "scoped_recover_next_expired pf sc v wk caps rclock uuids (\<lambda>_ _. id) db = (res, db') \<Longrightarrow>
    (\<forall>n. datetime_range (rclock n)) \<Longrightarrow> sq_step pf db db'"
| sq_cancel: "request_superseded_scope_cancellation pf org project plan now id db = (res, db') \<Longrightarrow> datetime_range now \<Longrightarrow>
    sq_step pf db db'"

definition sq_run :: "platform \<Rightarrow> work_db \<Rightarrow> bool" where
  "sq_run pf db \<longleftrightarrow> (sq_step pf)\<^sup>*\<^sup>* \<lparr>units = [], revisions = []\<rparr> db"

text \<open>A step is a sequence of transitions of single units, or adds a unit.\<close>

lemma submit_wq_step:
  assumes "submit_for_review pf sv i wk l a now id db = (res, db')" "valid_version a" "datetime_range now"
  shows "\<exists>e. wq_step pf db e db'"
  using wq_submit [OF _ assms(2,3)] wq_no_submit [OF assms] assms(1) by (metis (no_types))

lemma sq_step_cases:
  assumes "sq_step pf db db'" "db_ok pf db" "iso_inverse pf"
  shows "db' = db \<or> (\<exists>e. wq_step pf db e db') \<or> unit_steps pf db db'"
  using assms(1)
proof cases
  case (sq_claim_next sc valid wk caps clock uuids res)
  from scoped_claim_next_step [OF assms(2,3) sq_claim_next(2,1)] show ?thesis by blast
next
  case (sq_claim sc valid i wk caps clock uuids res)
  from scoped_claim_ready_step [OF assms(2,3) sq_claim(2,1)] show ?thesis by blast
next
  case (sq_heartbeat sc v i wk l now res)
  then show ?thesis using wq_heartbeat [OF _ sq_heartbeat(2), of pf "sc_base sc" i wk l db res db']
    by (cases "scope_is_current v sc") (auto simp: scoped_heartbeat_def)
next
  case (sq_submit sc v i wk l a now res)
  then show ?thesis using submit_wq_step [OF _ sq_submit(2,3), of pf "sc_base sc" i wk l db res db']
    by (cases "scope_is_current v sc") (auto simp: scoped_submit_for_review_def)
next
  case (sq_recover sc v wk caps rclock uuids res)
  from scoped_recover_step [OF assms(2,3) sq_recover(2,1)] show ?thesis by blast
next
  case (sq_cancel org project plan now res)
  from cancellation_steps [OF assms(2,3) sq_cancel(2,1)] show ?thesis by blast
qed blast

lemma unit_steps_ok: "unit_steps pf db db' \<Longrightarrow> db_ok pf db \<Longrightarrow> iso_inverse pf \<Longrightarrow> db_ok pf db'"
  by (induction rule: rtranclp_induct) (auto dest: unit_step_ok)

lemma sq_step_ok: "sq_step pf db db' \<Longrightarrow> db_ok pf db \<Longrightarrow> iso_inverse pf \<Longrightarrow> db_ok pf db'"
  using sq_step_cases [of pf db db'] wq_step_ok unit_steps_ok by blast

lemma sq_steps_ok: "(sq_step pf)\<^sup>*\<^sup>* db db' \<Longrightarrow> db_ok pf db \<Longrightarrow> iso_inverse pf \<Longrightarrow> db_ok pf db'"
  by (induction rule: rtranclp_induct) (auto dest: sq_step_ok)

lemma sq_run_ok: "sq_run pf db \<Longrightarrow> iso_inverse pf \<Longrightarrow> db_ok pf db"
  unfolding sq_run_def by (erule sq_steps_ok) (simp_all add: db_ok_def)

text \<open>No step changes the acceptance references of a unit.\<close>

definition keeps_refs :: "platform \<Rightarrow> work_db \<Rightarrow> work_db \<Rightarrow> bool" where
  "keeps_refs pf db db' \<longleftrightarrow> (\<forall>r\<in>set (units db). \<forall>w. represents pf r w \<longrightarrow>
     (\<exists>r'\<in>set (units db'). unit_key r' = unit_key r \<and> (\<exists>w'. represents pf r' w' \<and> acceptance_refs w' = acceptance_refs w)))"

lemma keeps_refs_refl: "keeps_refs pf db db"
  by (auto simp: keeps_refs_def)

lemma keeps_refs_trans: "keeps_refs pf a b \<Longrightarrow> keeps_refs pf b c \<Longrightarrow> keeps_refs pf a c"
  unfolding keeps_refs_def by metis

lemma unit_step_refs:
  assumes "unit_step pf db e db'" "iso_inverse pf" "db_ok pf db"
  shows "keeps_refs pf db db'"
proof -
  obtain org w w' now where t: "transition pf org w w' now db db'" and a: "acceptance_refs w' = acceptance_refs w"
    using assms(1) by (auto simp: unit_step_def)
  obtain r r' where r: "represents pf r w" "represents pf r' w'" "unit_key r' = unit_key r" "r \<in> set (units db)"
    and us: "units db' = map (\<lambda>x. if unit_key x = unit_key r then r' else x) (units db)"
    using t by (auto simp: transition_def)
  show ?thesis unfolding keeps_refs_def
  proof (intro ballI allI impI)
    fix x u assume x: "x \<in> set (units db)" "represents pf x u"
    show "\<exists>x'\<in>set (units db'). unit_key x' = unit_key x \<and> (\<exists>u'. represents pf x' u' \<and> acceptance_refs u' = acceptance_refs u)"
    proof (cases "unit_key x = unit_key r")
      case True
      with assms(3) x(1) r(4) have "x = r" by (auto simp: db_ok_def distinct_map inj_on_def)
      with represents_read [OF x(2) assms(2)] represents_read [OF r(1) assms(2)] have "u = w" by simp
      moreover have "r' \<in> set (units db')" unfolding us set_map using r(4) by (force simp: image_iff)
      ultimately show ?thesis using r(2,3) a True by metis
    next
      case False
      then have "x \<in> set (units db')" using x(1) us by (force simp: image_iff)
      with x(2) show ?thesis by blast
    qed
  qed
qed

lemma wq_step_refs:
  assumes "wq_step pf db e db'" "iso_inverse pf" "db_ok pf db"
  shows "keeps_refs pf db db'"
  using wq_step_cases [OF assms(1,3,2)]
proof (elim disjE exE conjE)
  fix org w assume "add_unit pf org w db = Inr db'"
  then have "units db' = units db @ [to_model pf org w]" by (auto simp: add_unit_def insert_revision_def)
  then show ?thesis by (auto simp: keeps_refs_def)
qed (use unit_step_refs [OF _ assms(2,3)] keeps_refs_refl in simp_all)

lemma unit_steps_refs: "unit_steps pf db db' \<Longrightarrow> iso_inverse pf \<Longrightarrow> db_ok pf db \<Longrightarrow> keeps_refs pf db db'"
proof (induction rule: rtranclp_induct)
  case (step b c)
  then show ?case using unit_steps_ok unit_step_refs keeps_refs_trans by blast
qed (simp add: keeps_refs_refl)

lemma sq_steps_refs: "(sq_step pf)\<^sup>*\<^sup>* db db' \<Longrightarrow> iso_inverse pf \<Longrightarrow> db_ok pf db \<Longrightarrow> keeps_refs pf db db'"
proof (induction rule: rtranclp_induct)
  case (step b c)
  have ok: "db_ok pf b" using sq_steps_ok [OF step(1)] step(4,5) by blast
  have "keeps_refs pf b c"
    using sq_step_cases [OF step(2) ok step(4)] wq_step_refs [OF _ step(4) ok] unit_steps_refs [OF _ step(4) ok] keeps_refs_refl by blast
  with step show ?case using keeps_refs_trans by blast
qed (simp add: keeps_refs_refl)

subsection \<open>A bound unit and its scope\<close>

definition demo_bound :: work_unit where
  "demo_bound = demo_unit\<lparr>acceptance_refs := [PROJECT_REF_PREFIX @ ''p1'', PLAN_REF_PREFIX @ demo_plan]\<rparr>"

definition demo_scope :: scoped_service where
  "demo_scope = \<lparr>sc_base = demo_service, sc_project = ''p1'', sc_plan = demo_plan\<rparr>"

definition demo_new_plan :: str where
  "demo_new_plan = replicate 64 (CHR ''b'')"

definition demo_bound_row :: work_unit_row where
  "demo_bound_row = to_model project_platform ''o'' demo_bound"

definition demo_bound_claimed :: work_unit where
  "demo_bound_claimed = demo_bound\<lparr>wu_state := WU_CLAIMED, depends_on_snapshot := [], claimed_by := Some ''w'',
     wu_lease := Some demo_lease, wu_updated_at := 1\<rparr>"

definition demo_claimed_row :: work_unit_row where
  "demo_claimed_row = demo_bound_row\<lparr>wr_state := ''CLAIMED'', wr_claimed_by := Some ''w'',
     wr_lease := Some (lease_payload project_platform demo_lease), wr_snapshot := JArr [], wr_updated_at := 1\<rparr>"

lemma demo_scope_args: "canonical_text ''p1''" "is_sha256 demo_plan" "is_sha256 demo_new_plan" "demo_plan \<noteq> demo_new_plan"
  by (simp_all add: canonical_text_def strip_fixed is_space_def Let_def is_sha256_def demo_plan_def demo_new_plan_def)

lemma demo_unit_unbound: "work_unit_scope demo_unit = Inr None"
  by (simp add: work_unit_scope_None demo_unit_def)

lemma demo_binds: "bind_work_unit_scope ''p1'' demo_plan demo_unit = Inr demo_bound"
  using demo_unit_valid by (simp add: bind_scope_Inr valid_work_unit_def demo_scope_args demo_unit_unbound demo_bound_def)
    (simp add: demo_unit_def)

lemma demo_bound_scope: "work_unit_scope demo_bound = Inr (Some (''p1'', demo_plan))" "work_unit_scope demo_bound_claimed = Inr (Some (''p1'', demo_plan))"
proof -
  show b: "work_unit_scope demo_bound = Inr (Some (''p1'', demo_plan))"
    using bound_scope [OF demo_unit_unbound, of "''p1''" demo_plan] demo_scope_args by (simp add: demo_bound_def) (simp add: demo_unit_def)
  then show "work_unit_scope demo_bound_claimed = Inr (Some (''p1'', demo_plan))"
    using work_unit_scope_cong [of demo_bound_claimed demo_bound] by (simp add: demo_bound_claimed_def)
qed

lemma demo_bound_valid: "valid_work_unit demo_bound" "valid_work_unit demo_bound_claimed"
proof -
  show v: "valid_work_unit demo_bound" using demo_unit_valid demo_binds by (rule bind_scope_valid)
  have "valid_lease demo_lease" by (simp add: demo_lease_def demo_valid_simps)
  moreover have "canonical_text ''w''" by (simp add: canonical_text_def strip_fixed is_space_def Let_def)
  ultimately show "valid_work_unit demo_bound_claimed" using v
    by (auto simp: valid_work_unit_def check_work_unit_Inr demo_bound_claimed_def datetime_range_def) (simp add: demo_bound_def demo_unit_def)
qed

lemma demo_bound_represents:
  "represents project_platform demo_bound_row demo_bound" "represents project_platform demo_claimed_row demo_bound_claimed"
  using demo_bound_valid by (simp_all add: represents_iff demo_bound_row_def demo_claimed_row_def to_model_def demo_bound_claimed_def null_or_def)

lemmas demo_bound_reads = demo_bound_represents [THEN represents_read, OF project_platform_iso]

lemma demo_bound_columns:
  "wr_org demo_bound_row = ''o''" "wr_id demo_bound_row = ''u1''" "wr_state demo_bound_row = ''PENDING''"
  "wr_claimed_by demo_bound_row = None" "wr_lease demo_bound_row = None"
  "wr_org demo_claimed_row = ''o''" "wr_id demo_claimed_row = ''u1''" "wr_state demo_claimed_row = ''CLAIMED''"
  by (simp_all add: demo_bound_row_def demo_claimed_row_def to_model_def demo_bound_def demo_unit_def)

abbreviation demo_projects :: "project_row list" where
  "demo_projects \<equiv> [project_to_model project_platform demo_active]"

lemma demo_active_facts:
  "valid_project project_platform demo_active" "pj_id demo_active = ''p1''" "pj_organization_id demo_active = ''o''" "pj_revision demo_active = 2"
  "pj_status demo_active = PS_ACTIVE" "active_plan_request_fingerprint demo_active = Some demo_plan" "valid_intent (pj_intent demo_active)"
  using project_history_valid [OF demo_histories(3)] demo_intent_valid
  by (simp_all add: demo_intents) (simp_all add: demo_active_def demo_launched_def demo_created_fields successor_defs)

lemma demo_scope_current: "scope_is_current (database_scope_validator project_platform True demo_projects) demo_scope"
proof -
  have "project_row_of ''p1'' ''o'' demo_projects = Some (project_to_model project_platform demo_active)"
    by (simp add: project_row_of_def) (simp add: project_to_model_def demo_active_facts)
  from get_to_model [OF this demo_active_facts(1,7)] show ?thesis
    by (simp add: scope_is_current_database demo_scope_def demo_service_def) (simp add: redate_def demo_active_facts)
qed

lemma demo_scoped_claim:
  "\<exists>rs'. scoped_claim_next_ready project_platform demo_scope (\<lambda>_. database_scope_validator project_platform True demo_projects) ''w''
     [demo_capability] (\<lambda>_ _. 1) (\<lambda>_ _. ''l'') (\<lambda>_ _. id) \<lparr>units = [demo_bound_row], revisions = rs\<rparr>
     = (Inr (Some demo_bound_claimed), \<lparr>units = [demo_claimed_row], revisions = rs'\<rparr>)"
proof -
  let ?db = "\<lparr>units = [demo_bound_row], revisions = rs\<rparr>"
  have nb: "\<not> blank ''w''" by (simp add: blank_iff is_space_def Let_def)
  have el: "is_worker_eligible demo_bound [demo_capability]"
    by (simp add: is_worker_eligible_def demo_bound_def demo_unit_def demo_capability_def blank_iff is_space_def Let_def)
  have base: "sc_base demo_scope = demo_service" by (simp add: demo_scope_def)
  have pc: "scoped_candidates project_platform demo_scope (database_scope_validator project_platform True demo_projects) ?db = Inr [demo_bound_row]"
    using demo_scope_current
    by (simp add: scoped_candidates_def pending_candidates_def demo_bound_columns demo_bound_reads demo_bound_scope bound_to_def demo_scope_def demo_service_def)
  have pk: "claim_pick project_platform demo_service [demo_capability] ?db demo_bound_row = Inr (Some (demo_bound, []))"
    using el by (simp add: claim_pick_def demo_bound_reads load_dependencies_def is_ready_def) (simp add: demo_bound_def demo_unit_def)
  have ck: "check_work_unit demo_bound_claimed = Inr demo_bound_claimed" using demo_bound_valid(2) by (simp add: valid_work_unit_def)
  have "\<exists>rs'. cas_claim project_platform demo_service ''w'' 1 ''l'' (demo_bound, []) ?db
      = Inr (Some (demo_bound_claimed, \<lparr>units = [demo_claimed_row], revisions = rs'\<rparr>))"
    using ck unfolding cas_claim_def demo_bound_claimed_def
    by (simp add: demo_fresh cas_units_def demo_bound_columns append_revision_total demo_claimed_row_def)
       (simp add: demo_service_def demo_bound_def demo_unit_def)
  then obtain rs' where cc: "cas_claim project_platform demo_service ''w'' 1 ''l'' (demo_bound, []) ?db
      = Inr (Some (demo_bound_claimed, \<lparr>units = [demo_claimed_row], revisions = rs'\<rparr>))" by blast
  have n: "(100 :: nat) = Suc 99" by simp
  show ?thesis unfolding scoped_claim_next_ready_def n retry_passes.simps run_pass_def pc base using nb by (simp add: pk cc)
qed

lemma demo_scoped_runs:
  "\<exists>rs. sq_run project_platform \<lparr>units = [demo_bound_row], revisions = rs\<rparr>"
  "\<exists>rs. sq_run project_platform \<lparr>units = [demo_claimed_row], revisions = rs\<rparr>"
proof -
  have "\<exists>rs. add_unit project_platform ''o'' demo_bound \<lparr>units = [], revisions = []\<rparr> = Inr \<lparr>units = [demo_bound_row], revisions = rs\<rparr>"
    by (simp add: add_unit_def get_unit_row_def insert_revision_def demo_bound_row_def)
  then obtain rs where a: "add_unit project_platform ''o'' demo_bound \<lparr>units = [], revisions = []\<rparr>
      = Inr \<lparr>units = [demo_bound_row], revisions = rs\<rparr>" by blast
  have "wq_step project_platform \<lparr>units = [], revisions = []\<rparr> None \<lparr>units = [demo_bound_row], revisions = rs\<rparr>"
    by (rule wq_add [OF a demo_bound_valid(1)]) (simp_all add: demo_bound_def demo_unit_def)
  then have r: "sq_run project_platform \<lparr>units = [demo_bound_row], revisions = rs\<rparr>"
    unfolding sq_run_def by (blast intro: sq_plain)
  then show "\<exists>rs. sq_run project_platform \<lparr>units = [demo_bound_row], revisions = rs\<rparr>" by blast
  obtain rs' where c: "scoped_claim_next_ready project_platform demo_scope (\<lambda>_. database_scope_validator project_platform True demo_projects) ''w''
     [demo_capability] (\<lambda>_ _. 1) (\<lambda>_ _. ''l'') (\<lambda>_ _. id) \<lparr>units = [demo_bound_row], revisions = rs\<rparr>
     = (Inr (Some demo_bound_claimed), \<lparr>units = [demo_claimed_row], revisions = rs'\<rparr>)" using demo_scoped_claim by blast
  have "sq_step project_platform \<lparr>units = [demo_bound_row], revisions = rs\<rparr> \<lparr>units = [demo_claimed_row], revisions = rs'\<rparr>"
    using c by (rule sq_claim_next) (simp add: datetime_range_def)
  with r show "\<exists>rs. sq_run project_platform \<lparr>units = [demo_claimed_row], revisions = rs\<rparr>"
    unfolding sq_run_def by (blast intro: rtranclp.rtrancl_into_rtrancl)
qed

lemma demo_superseded: "superseded ''p1'' demo_new_plan demo_bound_claimed" "unit_of project_platform demo_claimed_row = demo_bound_claimed"
  using demo_scope_args(4) by (simp_all add: superseded_iff demo_bound_scope unit_of_def demo_bound_reads) (simp add: demo_bound_claimed_def)

lemma demo_claimed_created: "wu_created_at demo_bound_claimed = 0"
  by (simp add: demo_bound_claimed_def demo_bound_def demo_unit_def)

subsection \<open>Properties\<close>

text \<open>
  Property (roundtrip).  Binding a valid unit succeeds exactly for a canonical project identifier, a SHA-256
  plan fingerprint and a unit that is unbound or already bound to this very scope; the bound
  unit is valid, reads back the scope, is left alone by the same binding and refuses every
  other one.
\<close>

theorem scope_binding_roundtrip:
  assumes "valid_work_unit w"
  shows "((\<exists>w'. bind_work_unit_scope project plan w = Inr w') \<longleftrightarrow> canonical_text project \<and> length project \<le> 128 \<and> is_sha256 plan
      \<and> work_unit_scope w \<in> {Inr None, Inr (Some (project, plan))})
    \<and> (\<forall>w'. bind_work_unit_scope project plan w = Inr w' \<longrightarrow> valid_work_unit w' \<and> work_unit_scope w' = Inr (Some (project, plan))
      \<and> bind_work_unit_scope project plan w' = Inr w'
      \<and> (\<forall>p f. (p, f) \<noteq> (project, plan) \<longrightarrow> bind_work_unit_scope p f w' = Inl WorkUnitContractError))"
proof (intro conjI allI impI)
  have ck: "check_work_unit w = Inr w" using assms by (simp add: valid_work_unit_def)
  show "(\<exists>w'. bind_work_unit_scope project plan w = Inr w') \<longleftrightarrow> canonical_text project \<and> length project \<le> 128 \<and> is_sha256 plan
      \<and> work_unit_scope w \<in> {Inr None, Inr (Some (project, plan))}"
    by (auto simp: bind_scope_Inr [OF ck])
  fix w' assume b: "bind_work_unit_scope project plan w = Inr w'"
  show v: "valid_work_unit w'" using assms b by (rule bind_scope_valid)
  then have ck': "check_work_unit w' = Inr w'" by (simp add: valid_work_unit_def)
  from b have arg: "canonical_text project" "length project \<le> 128" "is_sha256 plan" by (simp_all add: bind_scope_Inr [OF ck])
  show sc: "work_unit_scope w' = Inr (Some (project, plan))"
    using b bound_scope [OF _ arg, of w] by (auto simp: bind_scope_Inr [OF ck])
  show "bind_work_unit_scope project plan w' = Inr w'" using sc arg by (simp add: bind_scope_Inr [OF ck'])
  fix p f assume "(p, f) \<noteq> (project, plan)"
  then show "bind_work_unit_scope p f w' = Inl WorkUnitContractError"
    using sc by (auto simp: bind_work_unit_scope_def bind_res_def raise_if_def scope_text_def plan_fingerprint_def)
qed

theorem scope_binding_roundtrip_witness:
  "bind_work_unit_scope ''p1'' demo_plan demo_unit = Inr demo_bound \<and> work_unit_scope demo_bound = Inr (Some (''p1'', demo_plan))
     \<and> bind_work_unit_scope ''p1'' demo_new_plan demo_bound = Inl WorkUnitContractError"
  using scope_binding_roundtrip [OF demo_unit_valid, of "''p1''" demo_plan] demo_binds demo_scope_args(4) by simp

text \<open>
  C19 (safety).  A unit that a scoped service claims or recovers is bound to exactly the service's project
  and plan, whatever other clients do meanwhile, and the stored project was active with that
  plan when the candidates were selected.
\<close>

theorem scoped_claim_in_scope:
  assumes "scoped_claim_next_ready pf sc (\<lambda>n. database_scope_validator pf sq (projects n)) wk caps clock uuids env db = (Inr (Some w), db')
    \<or> scoped_claim_ready pf sc (\<lambda>n. database_scope_validator pf sq (projects n)) i wk caps clock uuids env db = (Inr (Some w), db')
    \<or> scoped_recover_next_expired pf sc (database_scope_validator pf sq (projects 0)) wk caps rclock uuids env db = (Inr (Some w), db')"
  shows "work_unit_scope w = Inr (Some (sc_project sc, sc_plan sc)) \<and> claimed_by w = Some wk
    \<and> (\<exists>n<100. \<exists>p. get_for_organization pf sq (sc_project sc) (ws_org (sc_base sc)) (projects n) = Inr (Some p)
         \<and> pj_status p = PS_ACTIVE \<and> active_plan_request_fingerprint p = Some (sc_plan sc))"
proof -
  from assms have "work_unit_scope w = Inr (bound_to sc) \<and> claimed_by w = Some wk
      \<and> (\<exists>n<100. scope_is_current (database_scope_validator pf sq (projects n)) sc)"
  proof (elim disjE)
    assume "scoped_recover_next_expired pf sc (database_scope_validator pf sq (projects 0)) wk caps rclock uuids env db = (Inr (Some w), db')"
    from scoped_recover_Some [OF this] show ?thesis by (intro conjI exI [of _ 0]) simp_all
  qed (auto dest: scoped_claim_next_Some scoped_claim_ready_Some)
  then show ?thesis by (simp only: scope_is_current_database bound_to_def)
qed

theorem scoped_claim_in_scope_witness:
  "\<exists>db w db'. scoped_claim_next_ready project_platform demo_scope (\<lambda>_. database_scope_validator project_platform True demo_projects) ''w''
     [demo_capability] (\<lambda>_ _. 1) (\<lambda>_ _. ''l'') (\<lambda>_ _. id) db = (Inr (Some w), db') \<and> work_unit_scope w = Inr (Some (''p1'', demo_plan))"
proof -
  obtain rs' where c: "scoped_claim_next_ready project_platform demo_scope (\<lambda>_. database_scope_validator project_platform True demo_projects) ''w''
     [demo_capability] (\<lambda>_ _. 1) (\<lambda>_ _. ''l'') (\<lambda>_ _. id) \<lparr>units = [demo_bound_row], revisions = []\<rparr>
     = (Inr (Some demo_bound_claimed), \<lparr>units = [demo_claimed_row], revisions = rs'\<rparr>)" using demo_scoped_claim by blast
  from scoped_claim_in_scope [OF disjI1 [OF c]] c show ?thesis by (auto simp: demo_scope_def)
qed

text \<open>
  Property (invariant).  The binding of a work unit never changes: no sequence of calls of the plain and the
  scoped services and of cancellations changes the scope a stored unit reads back, and every
  row decodes to a valid unit that has a lease exactly while it is claimed.
\<close>

theorem scope_is_immutable:
  assumes "sq_run pf db" "iso_inverse pf" "(sq_step pf)\<^sup>*\<^sup>* db db'" "r \<in> set (units db)" "from_model pf r = Inr w"
  shows "\<exists>r'\<in>set (units db'). unit_key r' = unit_key r \<and> (\<exists>w'. from_model pf r' = Inr w' \<and> work_unit_scope w' = work_unit_scope w
    \<and> valid_work_unit w' \<and> (wu_state w' = WU_CLAIMED \<longleftrightarrow> wu_lease w' \<noteq> None))"
proof -
  have ok: "db_ok pf db" using assms(1,2) by (rule sq_run_ok)
  then have ok': "db_ok pf db'" using assms(2,3) sq_steps_ok by blast
  have "represents pf r w" using unit_of_represents [OF ok assms(2,4)] assms(5) by simp
  then obtain r' w' where r': "r' \<in> set (units db')" "unit_key r' = unit_key r" "represents pf r' w'" "acceptance_refs w' = acceptance_refs w"
    using sq_steps_refs [OF assms(3,2) ok] assms(4) unfolding keeps_refs_def by blast
  have "valid_work_unit w'" using r'(3) by (simp add: represents_iff)
  with r' work_unit_scope_cong [OF r'(4)] represents_read [OF r'(3) assms(2)] db_okE(1) [OF ok' r'(1,3) assms(2)]
  show ?thesis by (intro bexI [of _ r']) (auto simp: unit_inv_def)
qed

theorem scope_is_immutable_witness:
  "\<exists>rs rs' w'. sq_run project_platform \<lparr>units = [demo_bound_row], revisions = rs\<rparr>
     \<and> (sq_step project_platform)\<^sup>*\<^sup>* \<lparr>units = [demo_bound_row], revisions = rs\<rparr> \<lparr>units = [demo_claimed_row], revisions = rs'\<rparr>
     \<and> from_model project_platform demo_claimed_row = Inr w' \<and> work_unit_scope w' = work_unit_scope demo_bound"
proof -
  obtain rs where r: "sq_run project_platform \<lparr>units = [demo_bound_row], revisions = rs\<rparr>" using demo_scoped_runs(1) by blast
  obtain rs' where c: "scoped_claim_next_ready project_platform demo_scope (\<lambda>_. database_scope_validator project_platform True demo_projects) ''w''
     [demo_capability] (\<lambda>_ _. 1) (\<lambda>_ _. ''l'') (\<lambda>_ _. id) \<lparr>units = [demo_bound_row], revisions = rs\<rparr>
     = (Inr (Some demo_bound_claimed), \<lparr>units = [demo_claimed_row], revisions = rs'\<rparr>)" using demo_scoped_claim by blast
  have s: "(sq_step project_platform)\<^sup>*\<^sup>* \<lparr>units = [demo_bound_row], revisions = rs\<rparr> \<lparr>units = [demo_claimed_row], revisions = rs'\<rparr>"
    by (rule r_into_rtranclp, rule sq_claim_next [OF c]) (simp add: datetime_range_def)
  from scope_is_immutable [OF r project_platform_iso s _ demo_bound_reads(1)] r s show ?thesis by auto
qed

text \<open>
  Property (functional).  Cancellation for a new plan, without other clients and with a clock that is not behind
  the units: it succeeds, returns the number of the organization's units that are claimed
  under another plan of the project, turns exactly these into failed units without claim or
  lease, and leaves every other unit as it was.
\<close>

theorem cancellation_exact:
  assumes "sq_run pf db" "iso_inverse pf" "datetime_range now" "canonical_text project" "length project \<le> 128" "is_sha256 plan"
    and "\<forall>r\<in>set (units db). \<forall>w. from_model pf r = Inr w \<longrightarrow> wu_created_at w \<le> now"
  shows "\<exists>db'. request_superseded_scope_cancellation pf org project plan now id db
      = (Inr (int (length (filter (\<lambda>r. wr_org r = org \<and> (case from_model pf r of Inl e \<Rightarrow> False | Inr w \<Rightarrow> superseded project plan w)) (units db)))), db')
    \<and> list_all2 (\<lambda>r r'. unit_key r' = unit_key r \<and> (\<exists>w. from_model pf r = Inr w
         \<and> from_model pf r' = Inr (if wr_org r = org \<and> superseded project plan w then cancelled_unit now w else w))) (units db) (units db')"
proof -
  have ok: "db_ok pf db" using assms(1,2) by (rule sq_run_ok)
  note u = unit_of_represents [OF ok assms(2)]
  let ?f = "\<lambda>r. if wr_org r = org \<and> superseded project plan (unit_of pf r)
      then flush_unit r (to_model pf org (cancelled_unit now (unit_of pf r))) r else r"
  have "wu_created_at (unit_of pf r) \<le> now" if "r \<in> set (rows_of org db)" for r using assms(7) u(2) that by auto
  from cancellation_total [where org = org, OF ok assms(2-6) this] obtain db' where
    c: "request_superseded_scope_cancellation pf org project plan now id db
      = (Inr (int (length (filter (\<lambda>r. superseded project plan (unit_of pf r)) (rows_of org db)))), db')"
    "units db' = map ?f (units db)" by blast
  have n: "filter (\<lambda>r. superseded project plan (unit_of pf r)) (rows_of org db)
      = filter (\<lambda>r. wr_org r = org \<and> (case from_model pf r of Inl e \<Rightarrow> False | Inr w \<Rightarrow> superseded project plan w)) (units db)"
    unfolding filter_filter by (rule filter_cong) (auto simp: u(2))
  have "unit_key (?f r) = unit_key r \<and> from_model pf (?f r)
      = Inr (if wr_org r = org \<and> superseded project plan (unit_of pf r) then cancelled_unit now (unit_of pf r) else unit_of pf r)"
    if r: "r \<in> set (units db)" for r
  proof (cases "wr_org r = org \<and> superseded project plan (unit_of pf r)")
    case True
    have "valid_work_unit (unit_of pf r)" using u(1) [OF r] by (simp add: represents_iff)
    from cancelled_valid(2) [OF this assms(3)] assms(7) r u(2) [OF r]
    have "valid_work_unit (cancelled_unit now (unit_of pf r))" by simp
    from represents_read [OF flush_represents [OF u(1) [OF r] this] assms(2)] True show ?thesis by (auto simp: cancelled_unit_def)
  qed (use u(2) [OF r] in auto)
  then have "list_all2 (\<lambda>r r'. unit_key r' = unit_key r \<and> (\<exists>w. from_model pf r = Inr w
      \<and> from_model pf r' = Inr (if wr_org r = org \<and> superseded project plan w then cancelled_unit now w else w))) (units db) (units db')"
    unfolding c(2) list.rel_map(2) by (intro list.rel_refl_strong) (use u(2) in auto)
  with c(1) n show ?thesis by auto
qed

theorem cancellation_exact_witness:
  "\<exists>rs db'. sq_run project_platform \<lparr>units = [demo_claimed_row], revisions = rs\<rparr>
     \<and> request_superseded_scope_cancellation project_platform ''o'' ''p1'' demo_new_plan 5 id \<lparr>units = [demo_claimed_row], revisions = rs\<rparr> = (Inr 1, db')"
proof -
  obtain rs where r: "sq_run project_platform \<lparr>units = [demo_claimed_row], revisions = rs\<rparr>" using demo_scoped_runs(2) by blast
  have c: "\<forall>x\<in>set (units \<lparr>units = [demo_claimed_row], revisions = rs\<rparr>). \<forall>w. from_model project_platform x = Inr w \<longrightarrow> wu_created_at w \<le> 5"
    by (auto simp: demo_bound_reads demo_claimed_created)
  from cancellation_exact [where org = "''o''" and project = "''p1''" and plan = demo_new_plan, OF r project_platform_iso _ _ _ _ c] r
  show ?thesis by (auto simp: datetime_range_def demo_scope_args demo_bound_reads demo_superseded demo_bound_columns)
qed

text \<open>
  C22 (safety).  Whatever other clients commit between the listing and the writes of a cancellation
  that succeeds, a unit that was listed as claimed under another plan ends up failed, and no
  lease on it works any more: neither a heartbeat nor a submission goes through.
\<close>

theorem cancelled_lease_dead:
  assumes "sq_run pf db" "iso_inverse pf" "get_unit_row (ws_org sv) i db = Some r" "from_model pf r = Inr w" "superseded project plan w"
    and "request_superseded_scope_cancellation pf (ws_org sv) project plan now env db = (Inr n, db')"
  shows "(\<exists>x. get_unit_row (ws_org sv) i db' = Some x \<and> wr_state x = ''FAILED'' \<and> wr_claimed_by x = None \<and> wr_lease x = None)
    \<and> fst (lease_heartbeat pf sv i wk l t env' db') \<noteq> Inr (Some u) \<and> fst (submit_for_review pf sv i wk l a t env' db') \<noteq> Inr (Some u)"
proof -
  have ok: "db_ok pf db" using assms(1,2) by (rule sq_run_ok)
  note r = get_unit_row_Some [OF assms(3)]
  let ?ws = "map (unit_of pf) (rows_of (ws_org sv) db)"
  have w: "unit_of pf r = w" "represents pf r w" using unit_of_represents [OF ok assms(2), of r] r assms(4) by auto
  have arg: "canonical_text project" "length project \<le> 128" "is_sha256 plan" using request_cancellation_args [OF assms(6)] by simp_all
  have c: "cancel_superseded pf (ws_org sv) project plan now ?ws (env db) = Inr (n, db')"
    using assms(6) by (auto simp: request_cancellation [OF ok assms(2) arg] split: sum.splits)
  have ids: "map wu_id ?ws = map wr_id (rows_of (ws_org sv) db)"
    using unit_of_represents(1) [OF ok assms(2)] by (auto simp: represents_iff)
  have "distinct (map wr_id (rows_of (ws_org sv) db))"
    using ok by (auto simp: db_ok_def distinct_map inj_on_def)
  then have d: "distinct (map wu_id ?ws)" unfolding ids .
  have "w \<in> set ?ws" using r w(1) by force
  from cancel_superseded_hit [OF c d this assms(5)] w(2) r obtain x where
    x: "get_unit_row (ws_org sv) i db' = Some (flush_unit x (to_model pf (ws_org sv) (cancelled_unit now w)) x)"
    by (auto simp: represents_iff)
  let ?x = "flush_unit x (to_model pf (ws_org sv) (cancelled_unit now w)) x"
  have "wr_state ?x = ''FAILED''" "wr_claimed_by ?x = None" "wr_lease ?x = None"
    by (auto simp: flush_unit_def written_def to_model_def cancelled_unit_def)
  with x no_lease_dead [OF x] show ?thesis by auto
qed

theorem cancelled_lease_dead_witness:
  "\<exists>rs n db'. request_superseded_scope_cancellation project_platform ''o'' ''p1'' demo_new_plan 5 id \<lparr>units = [demo_claimed_row], revisions = rs\<rparr> = (Inr n, db')
     \<and> fst (submit_for_review project_platform demo_service ''u1'' ''w'' ''l'' demo_artifact 6 id db') \<noteq> Inr (Some demo_bound_claimed)"
proof -
  obtain rs where r: "sq_run project_platform \<lparr>units = [demo_claimed_row], revisions = rs\<rparr>" using demo_scoped_runs(2) by blast
  let ?db = "\<lparr>units = [demo_claimed_row], revisions = rs\<rparr>"
  have ok: "db_ok project_platform ?db" using r project_platform_iso by (rule sq_run_ok)
  have o: "ws_org demo_service = ''o''" by (simp add: demo_service_def)
  have g: "get_unit_row (ws_org demo_service) ''u1'' ?db = Some demo_claimed_row" by (simp add: get_unit_row_def demo_bound_columns o)
  have cr: "wu_created_at (unit_of project_platform x) \<le> 5" if "x \<in> set (rows_of ''o'' ?db)" for x
    using that by (auto simp: demo_superseded demo_claimed_created split: if_splits)
  have "\<exists>n db'. request_superseded_scope_cancellation project_platform ''o'' ''p1'' demo_new_plan 5 id ?db = (Inr n, db')"
    using cancellation_total [where org = "''o''" and project = "''p1''" and plan = demo_new_plan, OF ok project_platform_iso _ _ _ _ cr]
    by (auto simp: datetime_range_def demo_scope_args)
  then obtain n db' where c: "request_superseded_scope_cancellation project_platform (ws_org demo_service) ''p1'' demo_new_plan 5 id ?db = (Inr n, db')"
    unfolding o by blast
  from cancelled_lease_dead [OF r project_platform_iso g demo_bound_reads(2) demo_superseded(1) c] c show ?thesis unfolding o by blast
qed

lemma stale_claims_nothing:
  assumes "\<not> scope_is_current valid sc" "\<not> blank wk"
  shows "scoped_claim_next_ready pf sc (\<lambda>_. valid) wk caps clock uuids env db = (Inr None, db)"
    "scoped_recover_next_expired pf sc valid wk caps rclock uuids env db = (Inr None, db)"
  using assms by (simp_all add: scoped_claim_next_ready_def scoped_recover_next_expired_def eval_nat_numeral run_pass_def scoped_candidates_def)

lemma activated_current:
  assumes "valid_project pf p" "valid_intent (pj_intent p)" "project_row_of (pj_id p) (pj_organization_id p) ps = Some (project_to_model pf p)"
    and "distinct (map rw_id ps)" "activate_scope pf now a c plan (pj_revision p) ts p = Inr q" "update_project q (pj_revision p) ps = Inr ps'"
    and "sc_project sc = pj_id p" "ws_org (sc_base sc) = pj_organization_id p"
  shows "scope_is_current (database_scope_validator pf sq ps') sc \<longleftrightarrow> sc_plan sc = plan"
proof -
  have q: "q = activated a c plan (or_now now ts) p" and v: "valid_project pf q"
    using assms(5) activate_scope_Inr [OF assms(1)] successor_valid(2) [OF assms(1)] by auto
  have si: "same_identity q p" by (simp add: q)
  then have k: "pj_id q = pj_id p" "pj_organization_id q = pj_organization_id p" "valid_intent (pj_intent q)"
    using assms(2) by (simp_all add: same_identity_def)
  from get_to_model [OF update_then_row [OF assms(3) si assms(4,6)] v k(3)] show ?thesis
    unfolding scope_is_current_database assms(7,8) k(1,2) by (auto simp: redate_def q activated_def)
qed

text \<open>
  Property (safety).  Activating a plan of a stored project switches the scope: from then on a service is current
  exactly when it carries the new plan, and a service of any other plan of the project
  claims nothing, recovers nothing, renews nothing and submits nothing.
\<close>

theorem activation_switches_scope:
  assumes "valid_project pf p" "valid_intent (pj_intent p)" "project_row_of (pj_id p) (pj_organization_id p) ps = Some (project_to_model pf p)"
    and "distinct (map rw_id ps)" "activate_scope pf now a c plan (pj_revision p) ts p = Inr q" "update_project q (pj_revision p) ps = Inr ps'"
    and "sc_project sc = pj_id p" "ws_org (sc_base sc) = pj_organization_id p" "\<not> blank wk"
  shows "(scope_is_current (database_scope_validator pf sq ps') sc \<longleftrightarrow> sc_plan sc = plan)
    \<and> (sc_plan sc \<noteq> plan \<longrightarrow>
         scoped_claim_next_ready pf sc (\<lambda>_. database_scope_validator pf sq ps') wk caps clock uuids env db = (Inr None, db)
       \<and> scoped_recover_next_expired pf sc (database_scope_validator pf sq ps') wk caps rclock uuids env db = (Inr None, db)
       \<and> scoped_heartbeat pf sc (database_scope_validator pf sq ps') i wk l t e db = (Inr None, db)
       \<and> scoped_submit_for_review pf sc (database_scope_validator pf sq ps') i wk l art t e db = (Inr None, db))"
  using activated_current [OF assms(1-8), of sq] stale_claims_nothing [OF _ assms(9)]
  by (simp add: scoped_heartbeat_def scoped_submit_for_review_def)

definition demo_replanned :: project where
  "demo_replanned = activated ''ada'' ''c3'' demo_new_plan (Aware 3) demo_active"

lemma demo_replan:
  "activate_scope project_platform 0 ''ada'' ''c3'' demo_new_plan (pj_revision demo_active) (Some (Aware 3)) demo_active = Inr demo_replanned"
  "update_project demo_replanned (pj_revision demo_active) demo_projects = Inr [project_to_model project_platform demo_replanned]"
  "project_row_of (pj_id demo_active) (pj_organization_id demo_active) demo_projects = Some (project_to_model project_platform demo_active)"
  using update_alone [of demo_replanned demo_active project_platform]
  by (simp_all add: activate_scope_Inr [OF demo_active_facts(1)] demo_active_facts(5) demo_texts demo_scope_args demo_replanned_def or_now_def
      project_row_of_def)

theorem activation_switches_scope_witness:
  "scoped_submit_for_review project_platform demo_scope
     (database_scope_validator project_platform True [project_to_model project_platform demo_replanned]) ''u1'' ''w'' ''l'' demo_artifact 2 id \<lparr>units = [demo_claimed_row], revisions = []\<rparr>
     = (Inr None, \<lparr>units = [demo_claimed_row], revisions = []\<rparr>)"
proof -
  have nb: "\<not> blank ''w''" by (simp add: blank_iff is_space_def Let_def)
  have k: "sc_project demo_scope = pj_id demo_active" "ws_org (sc_base demo_scope) = pj_organization_id demo_active" "sc_plan demo_scope \<noteq> demo_new_plan"
    using demo_scope_args(4) by (simp_all add: demo_scope_def demo_service_def demo_active_facts)
  from activation_switches_scope [OF demo_active_facts(1,7) demo_replan(3) _ demo_replan(1,2) k(1,2) nb, of True] k(3) show ?thesis by simp
qed

end
