(* ===== verification/Project_Commands.thy ===== *)
theory Project_Commands
  imports Org_Authority Work_Scope
begin

section \<open>Project commands (\<open>runtime/project_runtime.py\<close>, \<open>project_scope_runtime.py\<close>, \<open>project_lifecycle_runtime.py\<close>)\<close>

text \<open>
  The control plane's commands on projects.  A command is authorized, answered from its
  receipt when it was executed before, and otherwise applied to the stored project; the
  project, the audit events and the receipt are written in one transaction.  Completion
  first verifies the stored evidence (\<open>runtime/project_completion_evidence.py\<close>).

  The tables are those of the organization (\<open>Org_Authority\<close>), of projects and completion
  records (\<open>Project_Store\<close>), of work units (\<open>Work_Queue\<close>) and of the evidence.  \<open>env\<close> is what
  other clients commit between the reads of a transaction and its writes.  The writes of a
  command start with its events, whose unique sequence numbers keep other commands on the
  same project out until it commits.  \<open>sq\<close> says whether the database returns naive time stamps, \<open>uid\<close> is \<open>uuid5\<close> in the URL name space,
  \<open>sts\<close> gives the identifiers and time stamps of events.  A locked database
  (\<open>OperationalError\<close>) is not modelled.
\<close>

subsection \<open>Tables and commands\<close>

record certificate_row =
  dc_certificate_id :: str
  dc_organization_id :: str
  dc_candidate_id :: str
  dc_result :: str
  dc_candidate_payload :: "(str, json) dict"

record manifest_row =
  tm_manifest_id :: str
  tm_organization_id :: str
  tm_certificate_id :: str
  tm_candidate_id :: str
  tm_plan_request_fingerprint :: str
  tm_status :: str

record receipt_row =
  ir_organization_id :: str
  ir_receipt_id :: str
  ir_status :: str
  ir_payload :: "(str, json) dict"
  ir_fingerprint :: str

record runtime_db = org_db +
  project_rows :: "project_row list"
  completion_rows :: "completion_row list"
  work_tables :: work_db
  certificate_rows :: "certificate_row list"
  manifest_rows :: "manifest_row list"
  receipt_rows :: "receipt_row list"

record completion_evidence =
  ce_onboarding_intent_id :: str
  ce_repository_commit_sha :: str
  ce_delivery_certificate_id :: str
  ce_traceability_manifest_id :: str
  ce_integration_receipt_id :: str

datatype project_command =
    CreateProjectCommand (command_id: str) (command_organization: str) (command_name: str) (command_description: str)
      (command_intent: project_intent)
  | LaunchProjectCommand (command_id: str) (command_organization: str) (target_project: str) (expected_fingerprint: str)
  | ActivateProjectScopeCommand (command_id: str) (command_organization: str) (target_project: str) (command_plan: str)
      (expected_revision: int)
  | RequestProjectCompletionCommand (command_id: str) (command_organization: str) (target_project: str)
      (expected_revision: int) (command_plan: str)
  | CompleteProjectCommand (command_id: str) (command_organization: str) (target_project: str)
      (expected_revision: int) (command_plan: str) (command_evidence: completion_evidence)
  | CancelProjectCommand (command_id: str) (command_organization: str) (target_project: str)
      (expected_revision: int) (command_reason: str)
  | ArchiveProjectCommand (command_id: str) (command_organization: str) (target_project: str) (expected_revision: int)
  | ContinueProjectCommand (command_id: str) (command_organization: str) (source_project: str) (expected_revision: int)
      (command_name: str) (command_description: str) (command_intent: project_intent)

definition ids_ok :: "str list \<Rightarrow> bool" where
  "ids_ok xs \<longleftrightarrow> (\<forall>x\<in>set xs. trimmed_text 128 x)"

text \<open>The constructors' checks (\<open>__post_init__\<close>).\<close>

definition create_command_ok :: "str \<Rightarrow> str \<Rightarrow> str \<Rightarrow> str \<Rightarrow> project_intent \<Rightarrow> bool" where
  "create_command_ok c org name desc intent \<longleftrightarrow> ids_ok [c, org] \<and> trimmed_text 255 name \<and> length desc \<le> 20000"

definition launch_command_ok :: "str \<Rightarrow> str \<Rightarrow> str \<Rightarrow> str \<Rightarrow> bool" where
  "launch_command_ok c org i fp \<longleftrightarrow> ids_ok [c, org, i] \<and> is_sha256 fp"

definition activate_command_ok :: "str \<Rightarrow> str \<Rightarrow> str \<Rightarrow> str \<Rightarrow> int \<Rightarrow> bool" where
  "activate_command_ok c org i plan n \<longleftrightarrow> ids_ok [c, org, i] \<and> is_sha256 plan \<and> 1 \<le> n"

definition completion_request_command_ok :: "str \<Rightarrow> str \<Rightarrow> str \<Rightarrow> int \<Rightarrow> str \<Rightarrow> bool" where
  "completion_request_command_ok c org i n plan \<longleftrightarrow> ids_ok [c, org, i] \<and> 0 \<le> n \<and> is_sha256 plan"

definition complete_command_ok :: "str \<Rightarrow> str \<Rightarrow> str \<Rightarrow> int \<Rightarrow> str \<Rightarrow> completion_evidence \<Rightarrow> bool" where
  "complete_command_ok c org i n plan e \<longleftrightarrow> ids_ok [c, org, i] \<and> 0 \<le> n \<and> is_sha256 plan"

definition cancel_command_ok :: "str \<Rightarrow> str \<Rightarrow> str \<Rightarrow> int \<Rightarrow> str \<Rightarrow> bool" where
  "cancel_command_ok c org i n reason \<longleftrightarrow> ids_ok [c, org, i] \<and> trimmed_text 2000 reason \<and> 0 \<le> n"

definition archive_command_ok :: "str \<Rightarrow> str \<Rightarrow> str \<Rightarrow> int \<Rightarrow> bool" where
  "archive_command_ok c org i n \<longleftrightarrow> ids_ok [c, org, i] \<and> 0 \<le> n"

definition continue_command_ok :: "str \<Rightarrow> str \<Rightarrow> str \<Rightarrow> int \<Rightarrow> str \<Rightarrow> str \<Rightarrow> project_intent \<Rightarrow> bool" where
  "continue_command_ok c org i n name desc intent \<longleftrightarrow> ids_ok [c, org, i] \<and> trimmed_text 255 name \<and> length desc \<le> 20000 \<and> 0 \<le> n"

fun valid_command :: "project_command \<Rightarrow> bool" where
  "valid_command (CreateProjectCommand c org name desc intent) \<longleftrightarrow> create_command_ok c org name desc intent"
| "valid_command (LaunchProjectCommand c org i fp) \<longleftrightarrow> launch_command_ok c org i fp"
| "valid_command (ActivateProjectScopeCommand c org i plan n) \<longleftrightarrow> activate_command_ok c org i plan n"
| "valid_command (RequestProjectCompletionCommand c org i n plan) \<longleftrightarrow> completion_request_command_ok c org i n plan"
| "valid_command (CompleteProjectCommand c org i n plan e) \<longleftrightarrow> complete_command_ok c org i n plan e"
| "valid_command (CancelProjectCommand c org i n reason) \<longleftrightarrow> cancel_command_ok c org i n reason"
| "valid_command (ArchiveProjectCommand c org i n) \<longleftrightarrow> archive_command_ok c org i n"
| "valid_command (ContinueProjectCommand c org i n name desc intent) \<longleftrightarrow> continue_command_ok c org i n name desc intent"

definition check_command :: "project_command \<Rightarrow> project_command result" where
  "check_command c = raise_if (\<not> valid_command c) ProjectContractError (Inr c)"

fun command_type :: "project_command \<Rightarrow> str" where
  "command_type (CreateProjectCommand _ _ _ _ _) = ''CreateProjectCommand''"
| "command_type (LaunchProjectCommand _ _ _ _) = ''LaunchProjectCommand''"
| "command_type (ActivateProjectScopeCommand _ _ _ _ _) = ''ActivateProjectScopeCommand''"
| "command_type (RequestProjectCompletionCommand _ _ _ _ _) = ''RequestProjectCompletionCommand''"
| "command_type (CompleteProjectCommand _ _ _ _ _ _) = ''CompleteProjectCommand''"
| "command_type (CancelProjectCommand _ _ _ _ _) = ''CancelProjectCommand''"
| "command_type (ArchiveProjectCommand _ _ _ _) = ''ArchiveProjectCommand''"
| "command_type (ContinueProjectCommand _ _ _ _ _ _ _) = ''ContinueProjectCommand''"

fun command_capability :: "project_command \<Rightarrow> str" where
  "command_capability (CreateProjectCommand _ _ _ _ _) = ''project.create''"
| "command_capability (LaunchProjectCommand _ _ _ _) = ''project.launch''"
| "command_capability (ActivateProjectScopeCommand _ _ _ _ _) = ''project.scope.activate''"
| "command_capability (RequestProjectCompletionCommand _ _ _ _ _) = ''project.complete''"
| "command_capability (CompleteProjectCommand _ _ _ _ _ _) = ''project.complete''"
| "command_capability (CancelProjectCommand _ _ _ _ _) = ''project.cancel''"
| "command_capability (ArchiveProjectCommand _ _ _ _) = ''project.archive''"
| "command_capability (ContinueProjectCommand _ _ _ _ _ _ _) = ''project.create''"

definition new_project_id :: "(str \<Rightarrow> str) \<Rightarrow> project_command \<Rightarrow> str" where
  "new_project_id uid c = uid (''dor:'' @ command_organization c @ '':project:'' @ command_id c)"

definition evidence_payload :: "completion_evidence \<Rightarrow> json" where
  "evidence_payload e = JObj [(''onboarding_intent_id'', JStr (ce_onboarding_intent_id e)),
     (''repository_commit_sha'', JStr (ce_repository_commit_sha e)), (''delivery_certificate_id'', JStr (ce_delivery_certificate_id e)),
     (''traceability_manifest_id'', JStr (ce_traceability_manifest_id e)), (''integration_receipt_id'', JStr (ce_integration_receipt_id e))]"

definition create_payload :: "platform \<Rightarrow> str \<Rightarrow> str \<Rightarrow> str \<Rightarrow> str \<Rightarrow> project_intent \<Rightarrow> json" where
  "create_payload pf c org name desc intent =
     JObj [(''contract_version'', JStr ''1.0''), (''command_type'', JStr ''CreateProjectCommand''), (''organization_id'', JStr org),
       (''name'', JStr name), (''description'', JStr desc), (''intent'', canonical_intent intent),
       (''intent_fingerprint'', JStr (intent_fingerprint pf intent))]"

definition launch_payload :: "platform \<Rightarrow> str \<Rightarrow> str \<Rightarrow> str \<Rightarrow> str \<Rightarrow> json" where
  "launch_payload pf c org i fp =
     JObj [(''contract_version'', JStr ''1.0''), (''command_type'', JStr ''LaunchProjectCommand''), (''organization_id'', JStr org),
       (''project_id'', JStr i), (''expected_project_fingerprint'', JStr fp)]"

definition activate_payload :: "platform \<Rightarrow> str \<Rightarrow> str \<Rightarrow> str \<Rightarrow> str \<Rightarrow> int \<Rightarrow> json" where
  "activate_payload pf c org i plan n =
     JObj [(''contract_version'', JStr ''1.0''), (''command_type'', JStr ''ActivateProjectScopeCommand''), (''organization_id'', JStr org),
       (''project_id'', JStr i), (''plan_request_fingerprint'', JStr plan), (''expected_revision'', JInt n)]"

definition completion_request_payload :: "platform \<Rightarrow> str \<Rightarrow> str \<Rightarrow> str \<Rightarrow> int \<Rightarrow> str \<Rightarrow> json" where
  "completion_request_payload pf c org i n plan =
     JObj [(''command_id'', JStr c), (''organization_id'', JStr org), (''project_id'', JStr i), (''expected_revision'', JInt n),
       (''expected_plan_request_fingerprint'', JStr plan)]"

definition complete_payload :: "platform \<Rightarrow> str \<Rightarrow> str \<Rightarrow> str \<Rightarrow> int \<Rightarrow> str \<Rightarrow> completion_evidence \<Rightarrow> json" where
  "complete_payload pf c org i n plan e =
     JObj [(''command_id'', JStr c), (''organization_id'', JStr org), (''project_id'', JStr i), (''expected_revision'', JInt n),
       (''expected_plan_request_fingerprint'', JStr plan), (''evidence'', evidence_payload e)]"

definition cancel_payload :: "platform \<Rightarrow> str \<Rightarrow> str \<Rightarrow> str \<Rightarrow> int \<Rightarrow> str \<Rightarrow> json" where
  "cancel_payload pf c org i n reason =
     JObj [(''command_id'', JStr c), (''organization_id'', JStr org), (''project_id'', JStr i), (''expected_revision'', JInt n),
       (''reason'', JStr reason)]"

definition archive_payload :: "platform \<Rightarrow> str \<Rightarrow> str \<Rightarrow> str \<Rightarrow> int \<Rightarrow> json" where
  "archive_payload pf c org i n =
     JObj [(''command_id'', JStr c), (''organization_id'', JStr org), (''project_id'', JStr i), (''expected_revision'', JInt n)]"

definition continue_payload :: "platform \<Rightarrow> str \<Rightarrow> str \<Rightarrow> str \<Rightarrow> int \<Rightarrow> str \<Rightarrow> str \<Rightarrow> project_intent \<Rightarrow> json" where
  "continue_payload pf c org i n name desc intent =
     JObj [(''command_id'', JStr c), (''organization_id'', JStr org), (''source_project_id'', JStr i), (''expected_source_revision'', JInt n),
       (''name'', JStr name), (''description'', JStr desc), (''intent'', canonical_intent intent),
       (''intent_fingerprint'', JStr (intent_fingerprint pf intent))]"

fun command_payload :: "platform \<Rightarrow> project_command \<Rightarrow> json" where
  "command_payload pf (CreateProjectCommand c org name desc intent) = create_payload pf c org name desc intent"
| "command_payload pf (LaunchProjectCommand c org i fp) = launch_payload pf c org i fp"
| "command_payload pf (ActivateProjectScopeCommand c org i plan n) = activate_payload pf c org i plan n"
| "command_payload pf (RequestProjectCompletionCommand c org i n plan) = completion_request_payload pf c org i n plan"
| "command_payload pf (CompleteProjectCommand c org i n plan e) = complete_payload pf c org i n plan e"
| "command_payload pf (CancelProjectCommand c org i n reason) = cancel_payload pf c org i n reason"
| "command_payload pf (ArchiveProjectCommand c org i n) = archive_payload pf c org i n"
| "command_payload pf (ContinueProjectCommand c org i n name desc intent) = continue_payload pf c org i n name desc intent"

record command_result =
  rs_command_id :: str
  rs_project :: project
  rs_replayed :: bool

subsection \<open>Completion evidence\<close>

text \<open>The loop of \<open>_require_quiescent_scope\<close> over the units of the organization.\<close>

fun quiescent_units :: "str \<Rightarrow> str \<Rightarrow> work_unit list \<Rightarrow> unit result" where
  "quiescent_units i plan [] = Inr ()"
| "quiescent_units i plan (w # ws) =
     (case work_unit_scope w of
        Inl e \<Rightarrow> Inl ProjectCompletionEvidenceError
      | Inr b \<Rightarrow> if b \<noteq> Some (i, plan) then quiescent_units i plan ws
                 else raise_if (wu_state w \<notin> {WU_APPROVED, WU_FAILED}) ProjectCompletionEvidenceError (quiescent_units i plan ws))"

definition require_quiescent_scope :: "platform \<Rightarrow> str \<Rightarrow> str \<Rightarrow> str \<Rightarrow> runtime_db \<Rightarrow> unit result" where
  "require_quiescent_scope pf i org plan db =
     bind_res (list_for_organization pf org (work_tables db)) (quiescent_units i plan)"

definition require_delivery_certificate :: "str \<Rightarrow> str \<Rightarrow> str \<Rightarrow> str \<Rightarrow> runtime_db \<Rightarrow> certificate_row result" where
  "require_delivery_certificate org i plan certificate db =
     (case find (\<lambda>r. dc_organization_id r = org \<and> dc_certificate_id r = certificate) (certificate_rows db) of
        None \<Rightarrow> Inl ProjectCompletionEvidenceError
      | Some r \<Rightarrow>
          raise_if (map lower_char (dc_result r) \<noteq> ''pass'') ProjectCompletionEvidenceError
          (raise_if (dict_get (dc_candidate_payload r) ''project_id'' \<noteq> Some (JStr i)) ProjectCompletionEvidenceError
          (raise_if (dict_get (dc_candidate_payload r) ''plan_request_fingerprint'' \<noteq> Some (JStr plan)) ProjectCompletionEvidenceError
          (raise_if (dict_get (dc_candidate_payload r) ''candidate_id'' \<noteq> Some (JStr (dc_candidate_id r))) ProjectCompletionEvidenceError
            (Inr r)))))"

definition require_traceability_manifest :: "str \<Rightarrow> str \<Rightarrow> str \<Rightarrow> str \<Rightarrow> str \<Rightarrow> runtime_db \<Rightarrow> manifest_row result" where
  "require_traceability_manifest org plan manifest certificate candidate db =
     (case find (\<lambda>r. tm_organization_id r = org \<and> tm_manifest_id r = manifest) (manifest_rows db) of
        None \<Rightarrow> Inl ProjectCompletionEvidenceError
      | Some r \<Rightarrow>
          raise_if (map lower_char (tm_status r) \<noteq> ''complete'') ProjectCompletionEvidenceError
          (raise_if (tm_plan_request_fingerprint r \<noteq> plan \<or> tm_certificate_id r \<noteq> certificate \<or> tm_candidate_id r \<noteq> candidate)
             ProjectCompletionEvidenceError (Inr r)))"

text \<open>\<open>payload.get(key) or []\<close>.\<close>

definition get_or_empty :: "(str, json) dict \<Rightarrow> str \<Rightarrow> json" where
  "get_or_empty d k = (case dict_get d k of None \<Rightarrow> JArr [] | Some v \<Rightarrow> if falsy_json v then JArr [] else v)"

text \<open>\<open>set(v)\<close>: the elements must be hashable.\<close>

definition set_of :: "json \<Rightarrow> json list result" where
  "set_of v = bind_res (py_elements v) (\<lambda>xs. raise_if (\<exists>x\<in>set xs. unhashable x) TypeError (Inr xs))"

definition require_integration_receipt :: "str \<Rightarrow> str \<Rightarrow> str \<Rightarrow> runtime_db \<Rightarrow> receipt_row result" where
  "require_integration_receipt org receipt candidate db =
     (case find (\<lambda>r. ir_organization_id r = org \<and> ir_receipt_id r = receipt) (receipt_rows db) of
        None \<Rightarrow> Inl ProjectCompletionEvidenceError
      | Some r \<Rightarrow>
          raise_if (map lower_char (ir_status r) \<noteq> ''succeeded'') ProjectCompletionEvidenceError
          (bind_res (dict_of (get_or_empty (ir_payload r) ''suite_attestation'')) (\<lambda>attestation.
           raise_if (map_of attestation (JStr ''status'') \<noteq> Some (JStr ''passed'')) ProjectCompletionEvidenceError
           (bind_res (set_of (get_or_empty (ir_payload r) ''integrated_candidate_ids'')) (\<lambda>integrated.
            raise_if (JStr candidate \<notin> set integrated) ProjectCompletionEvidenceError
            (raise_if (ir_fingerprint r \<noteq> ir_receipt_id r) ProjectCompletionEvidenceError (Inr r)))))))"

text \<open>
  \<open>str(payload.get("integration_head_sha", ""))\<close>.  The text of a list or an object starts
  with a bracket, so that the check for a Git digest fails; \<open>None\<close> stands for it.
\<close>

definition head_text :: "(str, json) dict \<Rightarrow> str option" where
  "head_text d =
     (case dict_get d ''integration_head_sha'' of
        None \<Rightarrow> Some [] | Some JNull \<Rightarrow> Some ''None'' | Some (JBool b) \<Rightarrow> Some (if b then ''True'' else ''False'')
      | Some (JInt n) \<Rightarrow> Some (int_str n) | Some (JStr s) \<Rightarrow> Some s | Some _ \<Rightarrow> None)"

definition is_sha1 :: "str \<Rightarrow> bool" where
  "is_sha1 s \<longleftrightarrow> length s = 40 \<and> (\<forall>c\<in>set s. c \<in> set ''0123456789abcdef'')"

definition verify_evidence :: "platform \<Rightarrow> project \<Rightarrow> completion_evidence \<Rightarrow> str \<Rightarrow> datetime \<Rightarrow> runtime_db \<Rightarrow> completion_record result" where
  "verify_evidence pf p e by_actor at_time db =
     raise_if (pj_status p \<noteq> PS_COMPLETION_PENDING) ProjectCompletionEvidenceError
     (case active_plan_request_fingerprint p of
        None \<Rightarrow> Inl ProjectCompletionEvidenceError
      | Some plan \<Rightarrow>
          bind_res (require_quiescent_scope pf (pj_id p) (pj_organization_id p) plan db) (\<lambda>_.
          bind_res (require_delivery_certificate (pj_organization_id p) (pj_id p) plan (ce_delivery_certificate_id e) db) (\<lambda>certificate.
          bind_res (require_traceability_manifest (pj_organization_id p) plan (ce_traceability_manifest_id e)
            (dc_certificate_id certificate) (dc_candidate_id certificate) db) (\<lambda>manifest.
          bind_res (require_integration_receipt (pj_organization_id p) (ce_integration_receipt_id e) (dc_candidate_id certificate) db) (\<lambda>receipt.
            raise_if (head_text (ir_payload receipt) \<noteq> Some (ce_repository_commit_sha e)) ProjectCompletionEvidenceError
            (raise_if (\<not> is_sha1 (ce_repository_commit_sha e)) ProjectCompletionEvidenceError
            (raise_if (dict_get (dc_candidate_payload certificate) ''intent_id'' \<noteq> Some (JStr (ce_onboarding_intent_id e))) ProjectCompletionEvidenceError
              (check_completion_record
                 \<lparr>cr_organization_id = pj_organization_id p, cr_project_id = pj_id p, final_project_revision = pj_revision p,
                  onboarding_intent_id = ce_onboarding_intent_id e, cr_plan_request_fingerprint = plan,
                  repository_commit_sha = sha256_hex pf (ce_repository_commit_sha e),
                  delivery_certificate_ids = [dc_certificate_id certificate], traceability_manifest_ids = [tm_manifest_id manifest],
                  integration_evidence_ids = [ir_receipt_id receipt], cr_completed_by = by_actor, cr_completed_at = at_time\<rparr>))))))))"

subsection \<open>The transaction of a command\<close>

definition project_event :: "stamp \<Rightarrow> str \<Rightarrow> project \<Rightarrow> str \<Rightarrow> str \<Rightarrow> (str \<times> json) list \<Rightarrow> event_row" where
  "project_event st ty p actor c meta =
     \<lparr>ev_id = fst st, ev_type = ty, ev_aggregate_id = pj_id p, ev_aggregate_type = ''project'',
      ev_organization_id = pj_organization_id p, ev_actor_id = actor, ev_timestamp = snd st, ev_correlation_id = c,
      ev_metadata = JObj meta, ev_sequence = 0\<rparr>"

fun append_events :: "event_row list \<Rightarrow> 'z org_db_scheme \<Rightarrow> 'z org_db_scheme result" where
  "append_events [] db = Inr db"
| "append_events (e # es) db = bind_res (append_event e db) (append_events es)"

definition command_receipt :: "platform \<Rightarrow> org_context \<Rightarrow> project_command \<Rightarrow> project \<Rightarrow> time \<Rightarrow> command_row" where
  "command_receipt pf cx c p now =
     \<lparr>cm_id = command_id c, cm_organization_id = cx_organization_id cx, cm_actor_id = cx_actor_id cx, cm_type = command_type c,
      cm_payload = command_payload pf c, cm_aggregate_id = Some (pj_id p), cm_created_at = now\<rparr>"

text \<open>The writes of a command that creates a project, and of one that changes a project.\<close>

definition store_new ::
  "platform \<Rightarrow> (nat \<Rightarrow> stamp) \<Rightarrow> org_context \<Rightarrow> project_command \<Rightarrow> org_decision \<Rightarrow> time \<Rightarrow> project \<Rightarrow> event_row list \<Rightarrow> runtime_db
     \<Rightarrow> (command_result \<times> runtime_db) result" where
  "store_new pf sts cx c d now p evs db =
     bind_res (add_project pf p (project_rows db)) (\<lambda>rows.
     bind_res (create_authorization_audit_event pf (sts 0) d (command_id c) (command_type c) True ''project'') (\<lambda>audit.
     bind_res (append_events (audit # evs) (db\<lparr>project_rows := rows\<rparr>)) (\<lambda>db1.
     bind_res (add_command (command_receipt pf cx c p now) db1) (\<lambda>db2.
       Inr (\<lparr>rs_command_id = command_id c, rs_project = p, rs_replayed = False\<rparr>, db2)))))"

definition store_changed ::
  "platform \<Rightarrow> (nat \<Rightarrow> stamp) \<Rightarrow> org_context \<Rightarrow> project_command \<Rightarrow> org_decision \<Rightarrow> time \<Rightarrow> int \<Rightarrow> project \<Rightarrow> event_row list \<Rightarrow> runtime_db
     \<Rightarrow> (command_result \<times> runtime_db) result" where
  "store_changed pf sts cx c d now expected p evs db =
     bind_res (create_authorization_audit_event pf (sts 0) d (command_id c) (command_type c) True ''project'') (\<lambda>audit.
     bind_res (append_events (audit # evs) db) (\<lambda>db1.
     bind_res (update_project p expected (project_rows db1)) (\<lambda>rows.
     bind_res (add_command (command_receipt pf cx c p now) (db1\<lparr>project_rows := rows\<rparr>)) (\<lambda>db2.
       Inr (\<lparr>rs_command_id = command_id c, rs_project = p, rs_replayed = False\<rparr>, db2)))))"

definition read_project :: "platform \<Rightarrow> bool \<Rightarrow> exn \<Rightarrow> str \<Rightarrow> str \<Rightarrow> runtime_db \<Rightarrow> project result" where
  "read_project pf sq missing i org db =
     bind_res (get_for_organization pf sq i org (project_rows db)) (\<lambda>p. case p of None \<Rightarrow> Inl missing | Some p \<Rightarrow> Inr p)"

definition same_command :: "platform \<Rightarrow> org_context \<Rightarrow> project_command \<Rightarrow> command_row \<Rightarrow> bool" where
  "same_command pf cx c row \<longleftrightarrow> cm_organization_id row = cx_organization_id cx \<and> cm_actor_id row = cx_actor_id cx
     \<and> cm_type row = command_type c \<and> canon (py_num (cm_payload row)) = canon (py_num (command_payload pf c))"

definition replay :: "platform \<Rightarrow> bool \<Rightarrow> org_context \<Rightarrow> project_command \<Rightarrow> exn \<Rightarrow> str \<Rightarrow> command_row \<Rightarrow> runtime_db \<Rightarrow> command_result result" where
  "replay pf sq cx c missing i row db =
     raise_if (\<not> same_command pf cx c row) CommandConflictError
       (bind_res (read_project pf sq missing i (cx_organization_id cx) db) (\<lambda>p.
          Inr \<lparr>rs_command_id = command_id c, rs_project = p, rs_replayed = True\<rparr>))"

text \<open>
  What a command does when it is not a repetition: the reads of \<open>db\<close>, then the writes on
  \<open>env db\<close>.  Launch and activation take the time inside the aggregate, the others pass it.
\<close>

definition create_fresh ::
  "platform \<Rightarrow> bool \<Rightarrow> (str \<Rightarrow> str) \<Rightarrow> time \<Rightarrow> (nat \<Rightarrow> stamp) \<Rightarrow> org_context \<Rightarrow> org_decision \<Rightarrow> (runtime_db \<Rightarrow> runtime_db) \<Rightarrow> str \<Rightarrow> str \<Rightarrow> str \<Rightarrow> str \<Rightarrow> project_intent
     \<Rightarrow> runtime_db \<Rightarrow> (command_result \<times> runtime_db) result" where
  "create_fresh pf sq uid now sts cx d env c org name desc intent db =
     bind_res (create_project pf now (new_project_id uid (CreateProjectCommand c org name desc intent)) (cx_organization_id cx) name desc intent (cx_actor_id cx) None None) (\<lambda>p.
           store_new pf sts cx (CreateProjectCommand c org name desc intent) d now p
             [project_event (sts 1) ''PROJECT_CREATED'' p (cx_actor_id cx) c
                [(''contract_version'', JStr (pj_contract_version p)), (''project_id'', JStr (pj_id p)),
                 (''project_fingerprint'', JStr (project_fingerprint pf p)), (''intent_fingerprint'', JStr (intent_fingerprint pf (pj_intent p))),
                 (''status'', JStr (project_status_value (pj_status p)))]] (env db))"

definition launch_fresh ::
  "platform \<Rightarrow> bool \<Rightarrow> (str \<Rightarrow> str) \<Rightarrow> time \<Rightarrow> (nat \<Rightarrow> stamp) \<Rightarrow> org_context \<Rightarrow> org_decision \<Rightarrow> (runtime_db \<Rightarrow> runtime_db) \<Rightarrow> str \<Rightarrow> str \<Rightarrow> str \<Rightarrow> str
     \<Rightarrow> runtime_db \<Rightarrow> (command_result \<times> runtime_db) result" where
  "launch_fresh pf sq uid now sts cx d env c org i fp db =
     bind_res (read_project pf sq ProjectNotFoundError i (cx_organization_id cx) db) (\<lambda>p.
     bind_res (request_launch pf now (cx_actor_id cx) c fp None p) (\<lambda>q.
       store_changed pf sts cx (LaunchProjectCommand c org i fp) d now (pj_revision p) q
         [project_event (sts 1) ''PROJECT_LAUNCH_REQUESTED'' q (cx_actor_id cx) c
            [(''contract_version'', JStr (pj_contract_version q)), (''project_id'', JStr (pj_id q)),
             (''project_fingerprint'', JStr (project_fingerprint pf q)), (''launch_request_fingerprint'', jopt (launch_request_fingerprint q)),
             (''status'', JStr (project_status_value (pj_status q))), (''execution_started'', JBool False)]] (env db)))"

definition activate_fresh ::
  "platform \<Rightarrow> bool \<Rightarrow> (str \<Rightarrow> str) \<Rightarrow> time \<Rightarrow> (nat \<Rightarrow> stamp) \<Rightarrow> org_context \<Rightarrow> org_decision \<Rightarrow> (runtime_db \<Rightarrow> runtime_db) \<Rightarrow> str \<Rightarrow> str \<Rightarrow> str \<Rightarrow> str \<Rightarrow> int
     \<Rightarrow> runtime_db \<Rightarrow> (command_result \<times> runtime_db) result" where
  "activate_fresh pf sq uid now sts cx d env c org i plan n db =
     bind_res (read_project pf sq ProjectScopeNotFoundError i (cx_organization_id cx) db) (\<lambda>p.
       raise_if (pj_revision p \<noteq> n) ProjectStateError
       (bind_res (activate_scope pf now (cx_actor_id cx) c plan n None p) (\<lambda>q.
          store_changed pf sts cx (ActivateProjectScopeCommand c org i plan n) d now n q
            [project_event (sts 1) ''PROJECT_SCOPE_ACTIVATED'' q (cx_actor_id cx) c
               [(''contract_version'', JStr (pj_contract_version q)), (''project_id'', JStr (pj_id q)),
                (''plan_request_fingerprint'', jopt (active_plan_request_fingerprint q)),
                (''superseded_plan_request_fingerprint'', jopt (active_plan_request_fingerprint p)),
                (''status'', JStr (project_status_value (pj_status q))), (''revision'', JInt (pj_revision q))]] (env db))))"

definition completion_request_fresh ::
  "platform \<Rightarrow> bool \<Rightarrow> (str \<Rightarrow> str) \<Rightarrow> time \<Rightarrow> (nat \<Rightarrow> stamp) \<Rightarrow> org_context \<Rightarrow> org_decision \<Rightarrow> (runtime_db \<Rightarrow> runtime_db) \<Rightarrow> str \<Rightarrow> str \<Rightarrow> str \<Rightarrow> int \<Rightarrow> str
     \<Rightarrow> runtime_db \<Rightarrow> (command_result \<times> runtime_db) result" where
  "completion_request_fresh pf sq uid now sts cx d env c org i n plan db =
     bind_res (read_project pf sq ProjectNotFoundError i (cx_organization_id cx) db) (\<lambda>p.
       raise_if (pj_revision p \<noteq> n) ProjectContractError
       (bind_res (request_completion pf now (cx_actor_id cx) c n plan (Some (Aware now)) p) (\<lambda>q.
          store_changed pf sts cx (RequestProjectCompletionCommand c org i n plan) d now (pj_revision p) q
            [project_event (sts 1) ''PROJECT_COMPLETION_REQUESTED'' q (cx_actor_id cx) c
               [(''project_id'', JStr (pj_id q)), (''status'', JStr (project_status_value (pj_status q))),
                (''project_revision'', JInt (pj_revision q)), (''plan_request_fingerprint'', JStr plan)]] (env db))))"

definition complete_fresh ::
  "platform \<Rightarrow> bool \<Rightarrow> (str \<Rightarrow> str) \<Rightarrow> time \<Rightarrow> (nat \<Rightarrow> stamp) \<Rightarrow> org_context \<Rightarrow> org_decision \<Rightarrow> (runtime_db \<Rightarrow> runtime_db) \<Rightarrow> str \<Rightarrow> str \<Rightarrow> str \<Rightarrow> int \<Rightarrow> str \<Rightarrow> completion_evidence
     \<Rightarrow> runtime_db \<Rightarrow> (command_result \<times> runtime_db) result" where
  "complete_fresh pf sq uid now sts cx d env c org i n plan e db =
     bind_res (read_project pf sq ProjectNotFoundError i (cx_organization_id cx) db) (\<lambda>p.
       raise_if (pj_revision p \<noteq> n) ProjectContractError
       (raise_if (active_plan_request_fingerprint p \<noteq> Some plan) ProjectContractError
       (bind_res (verify_evidence pf p e (cx_actor_id cx) (Aware now) db) (\<lambda>rec.
        bind_res (get_for_organization pf sq i (cx_organization_id cx) (project_rows (env db))) (\<lambda>cur.
          case cur of
            None \<Rightarrow> Inl ProjectContractError
          | Some cur \<Rightarrow>
              raise_if (pj_revision cur \<noteq> n \<or> active_plan_request_fingerprint cur \<noteq> Some plan) ProjectContractError
              (bind_res (add_completion pf sq rec (completion_rows (env db))) (\<lambda>recs.
               bind_res (complete_project pf rec n cur) (\<lambda>q.
                 store_changed pf sts cx (CompleteProjectCommand c org i n plan e) d now (pj_revision p) q
                   [project_event (sts 1) ''PROJECT_COMPLETED'' q (cx_actor_id cx) c
                      [(''project_id'', JStr (pj_id q)), (''status'', JStr (project_status_value (pj_status q))),
                       (''project_revision'', JInt (pj_revision q)), (''completion_record_id'', JStr (completion_record_id pf rec))]]
                   ((env db)\<lparr>completion_rows := recs\<rparr>)))))))))"

definition cancel_fresh ::
  "platform \<Rightarrow> bool \<Rightarrow> (str \<Rightarrow> str) \<Rightarrow> time \<Rightarrow> (nat \<Rightarrow> stamp) \<Rightarrow> org_context \<Rightarrow> org_decision \<Rightarrow> (runtime_db \<Rightarrow> runtime_db) \<Rightarrow> str \<Rightarrow> str \<Rightarrow> str \<Rightarrow> int \<Rightarrow> str
     \<Rightarrow> runtime_db \<Rightarrow> (command_result \<times> runtime_db) result" where
  "cancel_fresh pf sq uid now sts cx d env c org i n reason db =
     bind_res (read_project pf sq ProjectNotFoundError i (cx_organization_id cx) db) (\<lambda>p.
       raise_if (pj_revision p \<noteq> n) ProjectContractError
       (bind_res (cancel_project pf now (cx_actor_id cx) c reason n (Some (Aware now)) p) (\<lambda>q.
          store_changed pf sts cx (CancelProjectCommand c org i n reason) d now (pj_revision p) q
            [project_event (sts 1) ''PROJECT_CANCELLED'' q (cx_actor_id cx) c
               [(''project_id'', JStr (pj_id q)), (''status'', JStr (project_status_value (pj_status q))),
                (''project_revision'', JInt (pj_revision q)), (''reason'', JStr reason)]] (env db))))"

definition archive_fresh ::
  "platform \<Rightarrow> bool \<Rightarrow> (str \<Rightarrow> str) \<Rightarrow> time \<Rightarrow> (nat \<Rightarrow> stamp) \<Rightarrow> org_context \<Rightarrow> org_decision \<Rightarrow> (runtime_db \<Rightarrow> runtime_db) \<Rightarrow> str \<Rightarrow> str \<Rightarrow> str \<Rightarrow> int
     \<Rightarrow> runtime_db \<Rightarrow> (command_result \<times> runtime_db) result" where
  "archive_fresh pf sq uid now sts cx d env c org i n db =
     bind_res (read_project pf sq ProjectNotFoundError i (cx_organization_id cx) db) (\<lambda>p.
       raise_if (pj_revision p \<noteq> n) ProjectContractError
       (bind_res (archive_project pf now (cx_actor_id cx) c n (Some (Aware now)) p) (\<lambda>q.
          store_changed pf sts cx (ArchiveProjectCommand c org i n) d now (pj_revision p) q
            [project_event (sts 1) ''PROJECT_ARCHIVED'' q (cx_actor_id cx) c
               [(''project_id'', JStr (pj_id q)), (''status'', JStr (project_status_value (pj_status q))),
                (''project_revision'', JInt (pj_revision q)),
                (''archived_from_status'', jopt (map_option project_status_value (archived_from_status q)))]] (env db))))"

definition continue_fresh ::
  "platform \<Rightarrow> bool \<Rightarrow> (str \<Rightarrow> str) \<Rightarrow> time \<Rightarrow> (nat \<Rightarrow> stamp) \<Rightarrow> org_context \<Rightarrow> org_decision \<Rightarrow> (runtime_db \<Rightarrow> runtime_db) \<Rightarrow> str \<Rightarrow> str \<Rightarrow> str \<Rightarrow> int \<Rightarrow> str \<Rightarrow> str \<Rightarrow> project_intent
     \<Rightarrow> runtime_db \<Rightarrow> (command_result \<times> runtime_db) result" where
  "continue_fresh pf sq uid now sts cx d env c org i n name desc intent db =
     bind_res (read_project pf sq ProjectNotFoundError i (cx_organization_id cx) db) (\<lambda>src.
           raise_if (\<not> (pj_status src = PS_COMPLETED \<or> pj_status src = PS_ARCHIVED \<and> archived_from_status src = Some PS_COMPLETED)) ProjectContractError
           (raise_if (pj_revision src \<noteq> n) ProjectContractError
           (bind_res (get_for_organization pf sq (new_project_id uid (ContinueProjectCommand c org i n name desc intent)) (cx_organization_id cx) (project_rows db)) (\<lambda>old.
              raise_if (old \<noteq> None) CommandConflictError
              (bind_res (create_project pf now (new_project_id uid (ContinueProjectCommand c org i n name desc intent)) (cx_organization_id cx) name desc intent (cx_actor_id cx)
                 (Some (Aware now)) (Some (pj_id src))) (\<lambda>p.
                 store_new pf sts cx (ContinueProjectCommand c org i n name desc intent) d now p
                   [project_event (sts 1) ''PROJECT_CREATED'' p (cx_actor_id cx) c
                      [(''project_id'', JStr (pj_id p)), (''project_fingerprint'', JStr (project_fingerprint pf p)),
                       (''status'', JStr (project_status_value (pj_status p)))],
                    project_event (sts 2) ''PROJECT_CONTINUED'' p (cx_actor_id cx) c
                      [(''project_id'', JStr (pj_id p)), (''continued_from_project_id'', JStr (pj_id src)),
                       (''source_completion_record_id'', jopt (pj_completion_record_id src)), (''source_revision'', JInt (pj_revision src))]]
                   (env db)))))))"

fun fresh_command ::
  "platform \<Rightarrow> bool \<Rightarrow> (str \<Rightarrow> str) \<Rightarrow> time \<Rightarrow> (nat \<Rightarrow> stamp) \<Rightarrow> org_context \<Rightarrow> org_decision \<Rightarrow> (runtime_db \<Rightarrow> runtime_db) \<Rightarrow> project_command
     \<Rightarrow> runtime_db \<Rightarrow> (command_result \<times> runtime_db) result" where
  "fresh_command pf sq uid now sts cx d env (CreateProjectCommand c org name desc intent) = create_fresh pf sq uid now sts cx d env c org name desc intent"
| "fresh_command pf sq uid now sts cx d env (LaunchProjectCommand c org i fp) = launch_fresh pf sq uid now sts cx d env c org i fp"
| "fresh_command pf sq uid now sts cx d env (ActivateProjectScopeCommand c org i plan n) = activate_fresh pf sq uid now sts cx d env c org i plan n"
| "fresh_command pf sq uid now sts cx d env (RequestProjectCompletionCommand c org i n plan) = completion_request_fresh pf sq uid now sts cx d env c org i n plan"
| "fresh_command pf sq uid now sts cx d env (CompleteProjectCommand c org i n plan e) = complete_fresh pf sq uid now sts cx d env c org i n plan e"
| "fresh_command pf sq uid now sts cx d env (CancelProjectCommand c org i n reason) = cancel_fresh pf sq uid now sts cx d env c org i n reason"
| "fresh_command pf sq uid now sts cx d env (ArchiveProjectCommand c org i n) = archive_fresh pf sq uid now sts cx d env c org i n"
| "fresh_command pf sq uid now sts cx d env (ContinueProjectCommand c org i n name desc intent) = continue_fresh pf sq uid now sts cx d env c org i n name desc intent"

text \<open>What a repeated command reads its project by, and the error when it is gone.\<close>

fun replay_id :: "project_command \<Rightarrow> command_row \<Rightarrow> str" where
  "replay_id (CreateProjectCommand _ _ _ _ _) row = or_empty (cm_aggregate_id row)"
| "replay_id (LaunchProjectCommand _ _ _ _) row = or_empty (cm_aggregate_id row)"
| "replay_id (ActivateProjectScopeCommand _ _ _ _ _) row = or_empty (cm_aggregate_id row)"
| "replay_id (ContinueProjectCommand _ _ _ _ _ _ _) row = or_empty (cm_aggregate_id row)"
| "replay_id c row = target_project c"

fun missing_error :: "project_command \<Rightarrow> exn" where
  "missing_error (ActivateProjectScopeCommand _ _ _ _ _) = ProjectScopeNotFoundError"
| "missing_error _ = ProjectNotFoundError"

text \<open>The resource that is authorized, and the organization it belongs to.\<close>

fun command_resource :: "(str \<Rightarrow> str) \<Rightarrow> project_command \<Rightarrow> str" where
  "command_resource uid (CreateProjectCommand c org name desc intent) = new_project_id uid (CreateProjectCommand c org name desc intent)"
| "command_resource uid (ContinueProjectCommand c org i n name desc intent) = i"
| "command_resource uid c = target_project c"

fun resource_organization :: "org_context \<Rightarrow> project_command \<Rightarrow> runtime_db \<Rightarrow> str option" where
  "resource_organization cx (CreateProjectCommand c org name desc intent) db = Some (cx_organization_id cx)"
| "resource_organization cx (ContinueProjectCommand c org i n name desc intent) db = get_organization_id i (project_rows db)"
| "resource_organization cx c db = get_organization_id (target_project c) (project_rows db)"

definition authorize_command :: "(str \<Rightarrow> str) \<Rightarrow> org_context \<Rightarrow> project_command \<Rightarrow> runtime_db \<Rightarrow> org_decision result" where
  "authorize_command uid cx c db =
     authorize (cx_principal_id cx) (cx_actor_id cx) (cx_organization_id cx) (command_capability c)
       (Some (command_resource uid c)) (resource_organization cx c db) db"

text \<open>Denied (\<open>Inl\<close>), or the result with the tables after the commit.\<close>

definition command_transaction ::
  "platform \<Rightarrow> bool \<Rightarrow> (str \<Rightarrow> str) \<Rightarrow> time \<Rightarrow> (nat \<Rightarrow> stamp) \<Rightarrow> org_context \<Rightarrow> (runtime_db \<Rightarrow> runtime_db) \<Rightarrow> project_command \<Rightarrow> runtime_db
     \<Rightarrow> (org_decision + command_result \<times> runtime_db) result" where
  "command_transaction pf sq uid now sts cx env c db =
     in_session (cx_organization_id cx)
       (bind_res (authorize_command uid cx c db) (\<lambda>d.
          if \<not> od_allowed d then Inr (Inl d)
          else case get_command (command_id c) db of
                 Some row \<Rightarrow> bind_res (replay pf sq cx c (missing_error c) (replay_id c row) row db) (\<lambda>r. Inr (Inr (r, env db)))
               | None \<Rightarrow> bind_res (fresh_command pf sq uid now sts cx d env c db) (\<lambda>x. Inr (Inr x))))"

subsection \<open>The runtime's methods\<close>

definition record_denial :: "platform \<Rightarrow> stamp \<Rightarrow> org_decision \<Rightarrow> project_command \<Rightarrow> runtime_db \<Rightarrow> command_result result \<times> runtime_db" where
  "record_denial pf st d c db = authority_deny pf st d (command_id c) (command_type c) ''project'' db"

definition organization_mismatch ::
  "platform \<Rightarrow> stamp \<Rightarrow> (str \<Rightarrow> str) \<Rightarrow> org_context \<Rightarrow> project_command \<Rightarrow> runtime_db \<Rightarrow> command_result result \<times> runtime_db" where
  "organization_mismatch pf st uid cx c db =
     (case check_org_decision
             \<lparr>od_allowed = False, od_reason = ''Command organization does not match runtime context'',
              od_reason_code = ''command_organization_mismatch'', od_actor_id = cx_actor_id cx, od_principal_id = cx_principal_id cx,
              od_organization_id = cx_organization_id cx, od_capability_id = command_capability c,
              od_resource_id = Some (command_resource uid c), od_resource_organization_id = Some (cx_organization_id cx)\<rparr> of
        Inl e \<Rightarrow> (Inl e, db)
      | Inr d \<Rightarrow> record_denial pf st d c db)"

definition audited_once ::
  "platform \<Rightarrow> bool \<Rightarrow> (str \<Rightarrow> str) \<Rightarrow> time \<Rightarrow> (nat \<Rightarrow> stamp) \<Rightarrow> org_context \<Rightarrow> (runtime_db \<Rightarrow> runtime_db) \<Rightarrow> project_command \<Rightarrow> runtime_db
     \<Rightarrow> command_result result \<times> runtime_db" where
  "audited_once pf sq uid now sts cx env c db =
     (case command_transaction pf sq uid now sts cx env c db of
        Inl e \<Rightarrow> (Inl e, env db)
      | Inr (Inl d) \<Rightarrow> record_denial pf (sts 0) d c (env db)
      | Inr (Inr (r, db')) \<Rightarrow> (Inr r, db'))"

text \<open>\<open>_create_project_once\<close> and \<open>_launch_project_once\<close>.\<close>

definition project_once ::
  "platform \<Rightarrow> bool \<Rightarrow> (str \<Rightarrow> str) \<Rightarrow> bool \<Rightarrow> time \<Rightarrow> (nat \<Rightarrow> stamp) \<Rightarrow> org_context \<Rightarrow> (runtime_db \<Rightarrow> runtime_db) \<Rightarrow> project_command \<Rightarrow> runtime_db
     \<Rightarrow> command_result result \<times> runtime_db" where
  "project_once pf sq uid ready now sts cx env c db =
     (if \<not> ready then (Inl RuntimeNotReadyError, env db)
      else if command_organization c \<noteq> cx_organization_id cx then organization_mismatch pf (sts 0) uid cx c (env db)
      else audited_once pf sq uid now sts cx env c db)"

text \<open>The retry loop: an attempt that fails in a way that may be a race is made again, three times in all.\<close>

fun retry_command :: "(exn \<Rightarrow> 's \<Rightarrow> bool) \<Rightarrow> (nat \<Rightarrow> 's \<Rightarrow> 'a result \<times> 's) \<Rightarrow> nat \<Rightarrow> nat \<Rightarrow> 's \<Rightarrow> 'a result \<times> 's" where
  "retry_command retryable once attempt 0 db = (Inl RuntimeError, db)"
| "retry_command retryable once attempt (Suc n) db =
     (case once attempt db of
        (Inr x, db') \<Rightarrow> (Inr x, db')
      | (Inl e, db') \<Rightarrow> if retryable e db \<and> n \<noteq> 0 then retry_command retryable once (Suc attempt) n db' else (Inl e, db'))"

definition COMMAND_RETRY_LIMIT :: nat where
  "COMMAND_RETRY_LIMIT = 3"

definition runtime_create_project ::
  "platform \<Rightarrow> bool \<Rightarrow> (str \<Rightarrow> str) \<Rightarrow> bool \<Rightarrow> (nat \<Rightarrow> time) \<Rightarrow> (nat \<Rightarrow> nat \<Rightarrow> stamp) \<Rightarrow> org_context \<Rightarrow> (nat \<Rightarrow> runtime_db \<Rightarrow> runtime_db) \<Rightarrow> project_command
     \<Rightarrow> runtime_db \<Rightarrow> command_result result \<times> runtime_db" where
  "runtime_create_project pf sq uid ready now sts cx env c db =
     retry_command (\<lambda>e _. e = IntegrityError) (\<lambda>n. project_once pf sq uid ready (now n) (sts n) cx (env n) c) 0 COMMAND_RETRY_LIMIT db"

text \<open>
  A launch is also repeated after a \<open>RepositoryError\<close> whose message names a revision
  conflict, which only \<open>update\<close> raises; the same error from reading the project is not.
\<close>

definition read_by_command :: "platform \<Rightarrow> bool \<Rightarrow> org_context \<Rightarrow> project_command \<Rightarrow> runtime_db \<Rightarrow> project option result" where
  "read_by_command pf sq cx c db =
     get_for_organization pf sq (case get_command (command_id c) db of None \<Rightarrow> target_project c | Some row \<Rightarrow> replay_id c row)
       (cx_organization_id cx) (project_rows db)"

definition runtime_launch_project ::
  "platform \<Rightarrow> bool \<Rightarrow> (str \<Rightarrow> str) \<Rightarrow> bool \<Rightarrow> (nat \<Rightarrow> time) \<Rightarrow> (nat \<Rightarrow> nat \<Rightarrow> stamp) \<Rightarrow> org_context \<Rightarrow> (nat \<Rightarrow> runtime_db \<Rightarrow> runtime_db) \<Rightarrow> project_command
     \<Rightarrow> runtime_db \<Rightarrow> command_result result \<times> runtime_db" where
  "runtime_launch_project pf sq uid ready now sts cx env c db =
     retry_command (\<lambda>e db. e = IntegrityError \<or> e = RepositoryError \<and> read_by_command pf sq cx c db \<noteq> Inl RepositoryError)
       (\<lambda>n. project_once pf sq uid ready (now n) (sts n) cx (env n) c) 0 COMMAND_RETRY_LIMIT db"

text \<open>
  \<open>_activate_once\<close>: when another plan was active, the work claimed under it is cancelled
  afterwards, in transactions of its own (\<open>wnow\<close>, \<open>wenv\<close>); a failure of that is ignored.
\<close>

definition superseded_plan :: "platform \<Rightarrow> bool \<Rightarrow> org_context \<Rightarrow> project_command \<Rightarrow> runtime_db \<Rightarrow> str option" where
  "superseded_plan pf sq cx c db =
     (case get_for_organization pf sq (target_project c) (cx_organization_id cx) (project_rows db) of
        Inr (Some p) \<Rightarrow> active_plan_request_fingerprint p | _ \<Rightarrow> None)"

definition activate_once ::
  "platform \<Rightarrow> bool \<Rightarrow> (str \<Rightarrow> str) \<Rightarrow> time \<Rightarrow> (nat \<Rightarrow> stamp) \<Rightarrow> org_context \<Rightarrow> (runtime_db \<Rightarrow> runtime_db) \<Rightarrow> time \<Rightarrow> (work_db \<Rightarrow> work_db) \<Rightarrow> project_command
     \<Rightarrow> runtime_db \<Rightarrow> command_result result \<times> runtime_db" where
  "activate_once pf sq uid now sts cx env wnow wenv c db =
     (case audited_once pf sq uid now sts cx env c db of
        (Inl e, db') \<Rightarrow> (Inl e, db')
      | (Inr r, db') \<Rightarrow>
          (Inr r,
           if \<not> rs_replayed r \<and> superseded_plan pf sq cx c db \<noteq> None
              \<and> superseded_plan pf sq cx c db \<noteq> active_plan_request_fingerprint (rs_project r)
           then db'\<lparr>work_tables := snd (request_superseded_scope_cancellation pf (cx_organization_id cx) (pj_id (rs_project r))
                  (or_empty (active_plan_request_fingerprint (rs_project r))) wnow wenv (work_tables db'))\<rparr>
           else db'))"

definition runtime_activate ::
  "platform \<Rightarrow> bool \<Rightarrow> (str \<Rightarrow> str) \<Rightarrow> bool \<Rightarrow> (nat \<Rightarrow> time) \<Rightarrow> (nat \<Rightarrow> nat \<Rightarrow> stamp) \<Rightarrow> org_context \<Rightarrow> (nat \<Rightarrow> runtime_db \<Rightarrow> runtime_db)
     \<Rightarrow> (nat \<Rightarrow> time) \<Rightarrow> (nat \<Rightarrow> work_db \<Rightarrow> work_db) \<Rightarrow> project_command \<Rightarrow> runtime_db \<Rightarrow> command_result result \<times> runtime_db" where
  "runtime_activate pf sq uid ready now sts cx env wnow wenv c db =
     (if \<not> ready then (Inl RuntimeNotReadyError, env 0 db)
      else if command_organization c \<noteq> cx_organization_id cx then organization_mismatch pf (sts 0 0) uid cx c (env 0 db)
      else retry_command (\<lambda>e _. e \<in> {IntegrityError, RepositoryError})
             (\<lambda>n. activate_once pf sq uid (now n) (sts n) cx (env n) (wnow n) (wenv n) c) 0 COMMAND_RETRY_LIMIT db)"

text \<open>\<open>_execute\<close> and \<open>continue_project\<close>: one attempt, and a denial leaves no event.\<close>

definition runtime_execute ::
  "platform \<Rightarrow> bool \<Rightarrow> (str \<Rightarrow> str) \<Rightarrow> bool \<Rightarrow> time \<Rightarrow> (nat \<Rightarrow> stamp) \<Rightarrow> org_context \<Rightarrow> (runtime_db \<Rightarrow> runtime_db) \<Rightarrow> project_command
     \<Rightarrow> runtime_db \<Rightarrow> command_result result \<times> runtime_db" where
  "runtime_execute pf sq uid ready now sts cx env c db =
     (if \<not> ready then (Inl RuntimeNotReadyError, env db)
      else if command_organization c \<noteq> cx_organization_id cx then (Inl PermissionError, env db)
      else case command_transaction pf sq uid now sts cx env c db of
             Inl e \<Rightarrow> (Inl e, env db)
           | Inr (Inl d) \<Rightarrow> (Inl CommandAuthorizationError, env db)
           | Inr (Inr (r, db')) \<Rightarrow> (Inr r, db'))"

fun run_command ::
  "platform \<Rightarrow> bool \<Rightarrow> (str \<Rightarrow> str) \<Rightarrow> bool \<Rightarrow> (nat \<Rightarrow> time) \<Rightarrow> (nat \<Rightarrow> nat \<Rightarrow> stamp) \<Rightarrow> org_context \<Rightarrow> (nat \<Rightarrow> runtime_db \<Rightarrow> runtime_db)
     \<Rightarrow> (nat \<Rightarrow> time) \<Rightarrow> (nat \<Rightarrow> work_db \<Rightarrow> work_db) \<Rightarrow> project_command \<Rightarrow> runtime_db \<Rightarrow> command_result result \<times> runtime_db" where
  "run_command pf sq uid ready now sts cx env wnow wenv (CreateProjectCommand c org name desc intent) db =
     runtime_create_project pf sq uid ready now sts cx env (CreateProjectCommand c org name desc intent) db"
| "run_command pf sq uid ready now sts cx env wnow wenv (LaunchProjectCommand c org i fp) db =
     runtime_launch_project pf sq uid ready now sts cx env (LaunchProjectCommand c org i fp) db"
| "run_command pf sq uid ready now sts cx env wnow wenv (ActivateProjectScopeCommand c org i plan n) db =
     runtime_activate pf sq uid ready now sts cx env wnow wenv (ActivateProjectScopeCommand c org i plan n) db"
| "run_command pf sq uid ready now sts cx env wnow wenv c db = runtime_execute pf sq uid ready (now 0) (sts 0) cx (env 0) c db"

subsection \<open>Queries\<close>

definition authorize_read :: "org_context \<Rightarrow> str \<Rightarrow> runtime_db \<Rightarrow> unit result" where
  "authorize_read cx i db =
     in_session (cx_organization_id cx)
       (bind_res (authorize (cx_principal_id cx) (cx_actor_id cx) (cx_organization_id cx) ''project.read'' (Some i)
          (get_organization_id i (project_rows db)) db) (\<lambda>d. raise_if (\<not> od_allowed d) CommandAuthorizationError (Inr ())))"

text \<open>The read happens in a second session; \<open>env\<close> is what others commit before it.\<close>

definition runtime_get_project ::
  "platform \<Rightarrow> bool \<Rightarrow> bool \<Rightarrow> org_context \<Rightarrow> str \<Rightarrow> (runtime_db \<Rightarrow> runtime_db) \<Rightarrow> runtime_db \<Rightarrow> project result" where
  "runtime_get_project pf sq ready cx i env db =
     raise_if (\<not> ready) RuntimeNotReadyError
     (bind_res (authorize_read cx i db) (\<lambda>_.
        in_session (cx_organization_id cx) (read_project pf sq ProjectNotFoundError i (cx_organization_id cx) (env db))))"

definition runtime_get_events ::
  "platform \<Rightarrow> bool \<Rightarrow> bool \<Rightarrow> org_context \<Rightarrow> str \<Rightarrow> int \<Rightarrow> int \<Rightarrow> bool \<Rightarrow> (nat \<Rightarrow> runtime_db \<Rightarrow> runtime_db) \<Rightarrow> runtime_db \<Rightarrow> event_row list result" where
  "runtime_get_events pf sq ready cx i after_seq limit audit env db =
     raise_if (after_seq < 0 \<or> \<not> (1 \<le> limit \<and> limit \<le> 100)) ValueError
     (bind_res (runtime_get_project pf sq ready cx i (env 0) db) (\<lambda>_.
        in_session (cx_organization_id cx)
          (let events = for_aggregate i (cx_organization_id cx) (env 1 (env 0 db));
               shown = (if audit then events else filter (\<lambda>e. ev_type e \<notin> {''AUTHORIZATION_GRANTED'', ''AUTHORIZATION_DENIED''}) events)
           in Inr (take (nat limit) (filter (\<lambda>e. after_seq < ev_sequence e) shown)))))"

definition require_active_scope :: "platform \<Rightarrow> bool \<Rightarrow> str \<Rightarrow> str \<Rightarrow> str \<Rightarrow> runtime_db \<Rightarrow> project result" where
  "require_active_scope pf sq org i plan db =
     raise_if (\<not> trimmed_text 128 org \<or> \<not> trimmed_text 128 i \<or> \<not> is_sha256 plan) ProjectContractError
     (bind_res (read_project pf sq ActiveProjectScopeError i org db) (\<lambda>p.
        raise_if (pj_status p \<noteq> PS_ACTIVE) ActiveProjectScopeError
        (raise_if (active_plan_request_fingerprint p \<noteq> Some plan) ActiveProjectScopeError (Inr p))))"

subsection \<open>Stored projects\<close>

definition stored :: "platform \<Rightarrow> project_row \<Rightarrow> bool" where
  "stored pf r \<longleftrightarrow> (\<exists>p. valid_project pf p \<and> valid_intent (pj_intent p) \<and> r = project_to_model pf p)"

definition runtime_inv :: "platform \<Rightarrow> runtime_db \<Rightarrow> bool" where
  "runtime_inv pf db \<longleftrightarrow> org_inv db \<and> distinct (map rw_id (project_rows db)) \<and> (\<forall>r\<in>set (project_rows db). stored pf r)
     \<and> distinct (map cm_id (command_rows db))"

text \<open>A row and what it becomes after a number of transitions.\<close>

inductive row_path :: "platform \<Rightarrow> nat \<Rightarrow> project_row \<Rightarrow> project_row \<Rightarrow> bool" for pf where
  path_refl: "row_path pf 0 r r"
| path_step: "row_path pf n r (project_to_model pf p) \<Longrightarrow> valid_project pf p \<Longrightarrow> valid_intent (pj_intent p) \<Longrightarrow> project_step pf p q
    \<Longrightarrow> row_path pf (Suc n) r (project_to_model pf q)"

inductive_cases row_path_0E: "row_path pf 0 r r'"

lemma to_model_redate [simp]: "project_to_model pf (redate sq p) = project_to_model pf p"
  unfolding project_to_model_def redate_fingerprint by (simp add: redate_def option.map_comp comp_def)

lemma stored_step:
  assumes "sha256_digests pf" "valid_project pf p" "valid_intent (pj_intent p)" "project_step pf p q"
  shows "stored pf (project_to_model pf q)" "rw_id (project_to_model pf q) = rw_id (project_to_model pf p)"
    "rw_organization_id (project_to_model pf q) = rw_organization_id (project_to_model pf p)" "rw_revision (project_to_model pf q) = rw_revision (project_to_model pf p) + 1"
    "same_identity q p"
  using project_step_facts [OF assms(4,2,1)] assms(3) by (auto simp: stored_def same_identity_def)

lemma row_path_facts:
  assumes "row_path pf n r r'" "sha256_digests pf"
  shows "rw_id r' = rw_id r \<and> rw_organization_id r' = rw_organization_id r \<and> rw_revision r' = rw_revision r + int n \<and> (stored pf r \<longrightarrow> stored pf r')"
  using assms(1) by induction (auto dest: stored_step [OF assms(2)])

lemma row_path_same: "row_path pf n r r' \<Longrightarrow> sha256_digests pf \<Longrightarrow> rw_revision r' = rw_revision r \<Longrightarrow> r' = r"
  using row_path_facts [of pf n r r'] by (cases n) (auto elim: row_path_0E)

lemma row_path_trans: "row_path pf m r' r'' \<Longrightarrow> row_path pf n r r' \<Longrightarrow> row_path pf (n + m) r r''"
  by (induction rule: row_path.induct) (auto intro: path_step)

text \<open>On stored rows reading never raises.\<close>

lemma read_stored:
  assumes "runtime_inv pf db"
  obtains "project_row_of i org (project_rows db) = None" "get_for_organization pf sq i org (project_rows db) = Inr None"
  | p where "project_row_of i org (project_rows db) = Some (project_to_model pf p)" "get_for_organization pf sq i org (project_rows db) = Inr (Some p)"
      "valid_project pf p" "valid_intent (pj_intent p)" "pj_id p = i" "pj_organization_id p = org" "project_to_model pf p \<in> set (project_rows db)"
proof (cases "project_row_of i org (project_rows db)")
  case None
  then show thesis using that(1) by (simp add: get_for_organization_def)
next
  case (Some r)
  note m = project_row_of_Some [OF Some]
  then obtain p where p: "valid_project pf p" "valid_intent (pj_intent p)" "r = project_to_model pf p"
    using assms by (auto simp: runtime_inv_def stored_def)
  have "pj_intent (redate sq p) = pj_intent p" "pj_id (redate sq p) = pj_id p" "pj_organization_id (redate sq p) = pj_organization_id p"
    by (simp_all add: redate_def)
  then show thesis
    using that(2) [of "redate sq p"] Some m p get_to_model [of i org "project_rows db" pf p sq] by simp
qed

lemma get_project_Inr:
  assumes "runtime_inv pf db" "get_for_organization pf sq i org (project_rows db) = Inr (Some p)"
  shows "valid_project pf p" "valid_intent (pj_intent p)" "pj_id p = i" "pj_organization_id p = org" "project_to_model pf p \<in> set (project_rows db)"
proof -
  have "valid_project pf p \<and> valid_intent (pj_intent p) \<and> pj_id p = i \<and> pj_organization_id p = org \<and> project_to_model pf p \<in> set (project_rows db)"
    by (rule read_stored [OF assms(1), of i org sq]) (use assms(2) in simp_all)
  then show "valid_project pf p" "valid_intent (pj_intent p)" "pj_id p = i" "pj_organization_id p = org" "project_to_model pf p \<in> set (project_rows db)"
    by simp_all
qed

lemma read_project_Inr:
  "read_project pf sq e i org db = Inr p \<longleftrightarrow> get_for_organization pf sq i org (project_rows db) = Inr (Some p)"
  by (auto simp: read_project_def bind_res_Inr_iff split: option.splits)

subsection \<open>How the runtime's tables evolve\<close>

definition rt_evolves :: "platform \<Rightarrow> runtime_db \<Rightarrow> runtime_db \<Rightarrow> bool" where
  "rt_evolves pf db db' \<longleftrightarrow> (runtime_inv pf db \<longrightarrow> runtime_inv pf db' \<and> evolves db db' \<and> prefix (command_rows db) (command_rows db')
     \<and> (\<forall>r\<in>set (project_rows db). \<exists>n. \<exists>r'\<in>set (project_rows db'). row_path pf n r r'))"

lemma rt_evolves_refl [simp]: "rt_evolves pf db db"
  by (auto simp: rt_evolves_def intro: path_refl)

lemma rt_evolves_trans:
  assumes "rt_evolves pf db db1" "rt_evolves pf db1 db2"
  shows "rt_evolves pf db db2"
  unfolding rt_evolves_def
proof (intro impI conjI)
  assume inv: "runtime_inv pf db"
  note a = assms(1) [unfolded rt_evolves_def, rule_format, OF inv]
  then have inv1: "runtime_inv pf db1" by blast
  note b = assms(2) [unfolded rt_evolves_def, rule_format, OF inv1]
  show "runtime_inv pf db2" using b by blast
  show "evolves db db2" using a b evolves_trans by blast
  show "prefix (command_rows db) (command_rows db2)" using a b prefix_order.trans by blast
  show "\<forall>r\<in>set (project_rows db). \<exists>n. \<exists>r'\<in>set (project_rows db2). row_path pf n r r'"
  proof
    fix r assume "r \<in> set (project_rows db)"
    then obtain n r1 where r1: "r1 \<in> set (project_rows db1)" "row_path pf n r r1" using a by blast
    then obtain m r2 where "r2 \<in> set (project_rows db2)" "row_path pf m r1 r2" using b by blast
    with r1(2) show "\<exists>n. \<exists>r'\<in>set (project_rows db2). row_path pf n r r'" using row_path_trans by blast
  qed
qed

lemma rt_evolves_inv: "rt_evolves pf db db' \<Longrightarrow> runtime_inv pf db \<Longrightarrow> runtime_inv pf db'"
  by (simp add: rt_evolves_def)

text \<open>A row that still has its revision has not changed.\<close>

lemma row_unchanged:
  assumes "rt_evolves pf db db'" "runtime_inv pf db" "sha256_digests pf" "r \<in> set (project_rows db)"
    and "r' \<in> set (project_rows db')" "rw_id r' = rw_id r" "rw_revision r' = rw_revision r"
  shows "r' = r"
proof -
  obtain n r1 where r1: "r1 \<in> set (project_rows db')" "row_path pf n r r1" using assms(1,2,4) by (auto simp: rt_evolves_def)
  have "distinct (map rw_id (project_rows db'))" using rt_evolves_inv [OF assms(1,2)] by (simp add: runtime_inv_def)
  then have "r1 = r'" using r1(1) assms(5,6) row_path_facts [OF r1(2) assms(3)] by (auto simp: distinct_map inj_on_def)
  with r1(2) assms(3,7) show ?thesis using row_path_same by blast
qed

end
