(* ===== verification/Command_Safety.thy ===== *)
theory Command_Safety
  imports Project_Commands
begin

section \<open>What a project command does\<close>

text \<open>
  The effect of one command on the tables, and the properties of the commands of
  \<open>Project_Commands\<close>: what every outcome leaves behind, that a command identifier is applied
  once, that stored projects only move along the life cycle, what a completed project rests
  on and what the activation of a new plan cuts off.
\<close>

subsection \<open>The effect of a command\<close>

fun command_events :: "project_command \<Rightarrow> str list" where
  "command_events (CreateProjectCommand _ _ _ _ _) = [''PROJECT_CREATED'']"
| "command_events (LaunchProjectCommand _ _ _ _) = [''PROJECT_LAUNCH_REQUESTED'']"
| "command_events (ActivateProjectScopeCommand _ _ _ _ _) = [''PROJECT_SCOPE_ACTIVATED'']"
| "command_events (RequestProjectCompletionCommand _ _ _ _ _) = [''PROJECT_COMPLETION_REQUESTED'']"
| "command_events (CompleteProjectCommand _ _ _ _ _ _) = [''PROJECT_COMPLETED'']"
| "command_events (CancelProjectCommand _ _ _ _ _) = [''PROJECT_CANCELLED'']"
| "command_events (ArchiveProjectCommand _ _ _ _) = [''PROJECT_ARCHIVED'']"
| "command_events (ContinueProjectCommand _ _ _ _ _ _ _) = [''PROJECT_CREATED'', ''PROJECT_CONTINUED'']"

fun command_project :: "(str \<Rightarrow> str) \<Rightarrow> project_command \<Rightarrow> str" where
  "command_project uid (CreateProjectCommand c org name desc intent) = new_project_id uid (CreateProjectCommand c org name desc intent)"
| "command_project uid (ContinueProjectCommand c org i n name desc intent) = new_project_id uid (ContinueProjectCommand c org i n name desc intent)"
| "command_project uid c = target_project c"

fun intent_built :: "project_command \<Rightarrow> bool" where
  "intent_built (CreateProjectCommand c org name desc intent) \<longleftrightarrow> valid_intent intent"
| "intent_built (ContinueProjectCommand c org i n name desc intent) \<longleftrightarrow> valid_intent intent"
| "intent_built c \<longleftrightarrow> True"

text \<open>One project appears, or one project takes one step of its life cycle.\<close>

definition rows_step :: "platform \<Rightarrow> project_row list \<Rightarrow> project \<Rightarrow> project_row list \<Rightarrow> bool" where
  "rows_step pf rows q rows' \<longleftrightarrow>
     rows' = rows @ [project_to_model pf q] \<and> pj_id q \<notin> rw_id ` set rows \<and> valid_project pf q \<and> valid_intent (pj_intent q)
       \<and> pj_status q = PS_CREATED
   \<or> (\<exists>p. project_to_model pf p \<in> set rows \<and> valid_project pf p \<and> valid_intent (pj_intent p) \<and> project_step pf p q
       \<and> rows' = map (\<lambda>r. if rw_id r = pj_id q then project_to_model pf q else r) rows)"

definition written_by :: "org_context \<Rightarrow> project_command \<Rightarrow> event_row \<Rightarrow> bool" where
  "written_by cx c e \<longleftrightarrow> ev_organization_id e = cx_organization_id cx \<and> ev_actor_id e = cx_actor_id cx \<and> ev_correlation_id e = command_id c"

definition applied :: "platform \<Rightarrow> org_context \<Rightarrow> project_command \<Rightarrow> runtime_db \<Rightarrow> project \<Rightarrow> runtime_db \<Rightarrow> bool" where
  "applied pf cx c db q db' \<longleftrightarrow>
     get_command (command_id c) db = None \<and> pj_organization_id q = cx_organization_id cx
     \<and> (\<exists>rows evs now recs w. rows_step pf (project_rows db) q rows
          \<and> map ev_type evs = ''AUTHORIZATION_GRANTED'' # command_events c \<and> (\<forall>e\<in>set evs. written_by cx c e)
          \<and> (is_CompleteProjectCommand c \<or> recs = completion_rows db) \<and> (is_ActivateProjectScopeCommand c \<or> w = work_tables db)
          \<and> db' = db\<lparr>event_rows := event_rows db @ evs, command_rows := command_rows db @ [command_receipt pf cx c q now],
                     project_rows := rows, completion_rows := recs, work_tables := w\<rparr>)"

lemma appliedI:
  assumes "get_command (command_id c) db = None" "pj_organization_id q = cx_organization_id cx" "rows_step pf (project_rows db) q rows"
    and "map ev_type evs = ''AUTHORIZATION_GRANTED'' # command_events c" "\<forall>e\<in>set evs. written_by cx c e"
    and "is_CompleteProjectCommand c \<or> recs = completion_rows db" "is_ActivateProjectScopeCommand c \<or> w = work_tables db"
    and "db' = db\<lparr>event_rows := event_rows db @ evs, command_rows := command_rows db @ [command_receipt pf cx c q now],
           project_rows := rows, completion_rows := recs, work_tables := w\<rparr>"
  shows "applied pf cx c db q db'"
  unfolding applied_def by (intro conjI exI) (rule assms)+

lemma appliedE:
  assumes "applied pf cx c db q db'"
  obtains rows evs now recs w where "get_command (command_id c) db = None" "pj_organization_id q = cx_organization_id cx"
    "rows_step pf (project_rows db) q rows" "map ev_type evs = ''AUTHORIZATION_GRANTED'' # command_events c" "\<forall>e\<in>set evs. written_by cx c e"
    "is_CompleteProjectCommand c \<or> recs = completion_rows db" "is_ActivateProjectScopeCommand c \<or> w = work_tables db"
    "db' = db\<lparr>event_rows := event_rows db @ evs, command_rows := command_rows db @ [command_receipt pf cx c q now],
       project_rows := rows, completion_rows := recs, work_tables := w\<rparr>"
  using assms unfolding applied_def by (elim conjE exE) (rule that)

lemma org_inv_tables [simp]:
  "org_inv (db\<lparr>project_rows := r\<rparr>) = org_inv db" "org_inv (db\<lparr>completion_rows := cr\<rparr>) = org_inv db"
  "org_inv (db\<lparr>work_tables := w\<rparr>) = org_inv db" "org_inv (db\<lparr>command_rows := cs\<rparr>) = org_inv db"
  by (simp_all add: org_inv_def)

lemma project_event_sel [simp]:
  "ev_type (project_event st ty p a c m) = ty" "ev_organization_id (project_event st ty p a c m) = pj_organization_id p"
  "ev_actor_id (project_event st ty p a c m) = a" "ev_correlation_id (project_event st ty p a c m) = c"
  by (simp_all add: project_event_def)

lemma append_events_Inr:
  "append_events es db = Inr db' \<Longrightarrow> org_inv db \<Longrightarrow>
     \<exists>evs. db' = db\<lparr>event_rows := event_rows db @ evs\<rparr> \<and> list_all2 (\<lambda>e e'. \<exists>n. e' = e\<lparr>ev_sequence := n\<rparr>) es evs \<and> evolves db db'"
proof (induction es arbitrary: db)
  case Nil
  then show ?case by simp
next
  case (Cons e es)
  from Cons.prems(1) obtain db1 where a: "append_event e db = Inr db1" "append_events es db1 = Inr db'" by (auto simp: bind_res_Inr_iff)
  have "gap_free (event_rows db)" using Cons.prems(2) by (simp add: org_inv_def)
  from append_event_eq [OF a(1) this] obtain n where n: "db1 = db\<lparr>event_rows := event_rows db @ [e\<lparr>ev_sequence := n\<rparr>]\<rparr>" by blast
  have ev: "evolves db db1" using a(1) by (rule append_event_evolves)
  then have "org_inv db1" using Cons.prems(2) by (simp add: evolves_def)
  from Cons.IH [OF a(2) this] obtain evs where evs: "db' = db1\<lparr>event_rows := event_rows db1 @ evs\<rparr>"
    "list_all2 (\<lambda>e e'. \<exists>n. e' = e\<lparr>ev_sequence := n\<rparr>) es evs" "evolves db1 db'" by blast
  show ?case
    using evs ev evolves_trans [of db db1 db'] n
    by (intro exI [of _ "e\<lparr>ev_sequence := n\<rparr> # evs"]) auto
qed

lemma list_all2_same:
  assumes "list_all2 (\<lambda>e e'. \<exists>n. e' = e\<lparr>ev_sequence := n\<rparr>) es evs"
  shows "map ev_type evs = map ev_type es \<and> ((\<forall>e\<in>set evs. written_by cx c e) \<longleftrightarrow> (\<forall>e\<in>set es. written_by cx c e))"
  using assms by induction (auto simp: written_by_def)

lemma audit_event_sel:
  assumes "create_authorization_audit_event pf st d i ty al agg = Inr e"
  shows "ev_type e = (if al then ''AUTHORIZATION_GRANTED'' else ''AUTHORIZATION_DENIED'')" "ev_organization_id e = od_organization_id d"
    "ev_actor_id e = od_actor_id d" "ev_correlation_id e = i" "al = od_allowed d"
  using assms by (auto simp: create_authorization_audit_event_def)

definition decided_for :: "org_context \<Rightarrow> org_decision \<Rightarrow> bool" where
  "decided_for cx d \<longleftrightarrow> od_actor_id d = cx_actor_id cx \<and> od_organization_id d = cx_organization_id cx"

lemma audited_events:
  assumes "create_authorization_audit_event pf st d (command_id c) ty True agg = Inr audit" "append_events (audit # es) db = Inr db'" "org_inv db"
    and "decided_for cx d" "map ev_type es = command_events c" "\<forall>e\<in>set es. written_by cx c e"
  shows "\<exists>evs. db' = db\<lparr>event_rows := event_rows db @ evs\<rparr> \<and> map ev_type evs = ''AUTHORIZATION_GRANTED'' # command_events c
    \<and> (\<forall>e\<in>set evs. written_by cx c e) \<and> evolves db db'"
proof -
  from append_events_Inr [OF assms(2,3)] obtain evs where evs: "db' = db\<lparr>event_rows := event_rows db @ evs\<rparr>" "evolves db db'"
    "list_all2 (\<lambda>e e'. \<exists>n. e' = e\<lparr>ev_sequence := n\<rparr>) (audit # es) evs" by blast
  have "written_by cx c audit" using audit_event_sel [OF assms(1)] assms(4) by (simp add: written_by_def decided_for_def)
  then show ?thesis
    using evs list_all2_same [OF evs(3), of cx c] audit_event_sel(1) [OF assms(1)] assms(5,6) by (intro exI [of _ evs]) simp
qed

lemma evolves_tables:
  assumes "evolves db db'"
  shows "evolves db (db'\<lparr>command_rows := cs, project_rows := rows\<rparr>)" "evolves (db\<lparr>project_rows := rows\<rparr>) (db'\<lparr>project_rows := rows'\<rparr>)"
  using assms by (simp_all add: evolves_def revoked_keys_def)

lemma add_command_Inr: "add_command c db = Inr db' \<longleftrightarrow> get_command (cm_id c) db = None \<and> db' = db\<lparr>command_rows := command_rows db @ [c]\<rparr>"
  by (auto simp: add_command_def)

lemma receipt_sel [simp]:
  "cm_id (command_receipt pf cx c p now) = command_id c" "cm_aggregate_id (command_receipt pf cx c p now) = Some (pj_id p)"
  by (simp_all add: command_receipt_def)

lemma get_command_tables [simp]:
  "get_command i (db\<lparr>event_rows := es\<rparr>) = get_command i db" "get_command i (db\<lparr>project_rows := rows\<rparr>) = get_command i db"
  "get_command i (db\<lparr>completion_rows := recs\<rparr>) = get_command i db"
  by (simp_all add: get_command_def)


lemma store_new_applied:
  assumes "store_new pf sts cx c d now p es db = Inr (r, db')" "org_inv db" "decided_for cx d"
    and "map ev_type es = command_events c" "\<forall>e\<in>set es. written_by cx c e"
    and "valid_project pf p" "valid_intent (pj_intent p)" "pj_status p = PS_CREATED" "pj_organization_id p = cx_organization_id cx"
  shows "applied pf cx c db p db' \<and> evolves db db' \<and> r = \<lparr>rs_command_id = command_id c, rs_project = p, rs_replayed = False\<rparr>"
proof -
  from assms(1) obtain rows audit db1 where rows: "add_project pf p (project_rows db) = Inr rows"
    and a: "create_authorization_audit_event pf (sts 0) d (command_id c) (command_type c) True ''project'' = Inr audit"
      "append_events (audit # es) (db\<lparr>project_rows := rows\<rparr>) = Inr db1"
    and cmd: "add_command (command_receipt pf cx c p now) db1 = Inr db'" and r: "r = \<lparr>rs_command_id = command_id c, rs_project = p, rs_replayed = False\<rparr>"
    unfolding store_new_def by (auto simp: bind_res_Inr_iff)
  from audited_events [OF a _ assms(3-5)] assms(2) obtain evs where evs: "db1 = db\<lparr>project_rows := rows, event_rows := event_rows db @ evs\<rparr>"
    "map ev_type evs = ''AUTHORIZATION_GRANTED'' # command_events c" "\<forall>e\<in>set evs. written_by cx c e" "evolves (db\<lparr>project_rows := rows\<rparr>) db1"
    by auto
  have db': "db' = db\<lparr>event_rows := event_rows db @ evs, command_rows := command_rows db @ [command_receipt pf cx c p now],
      project_rows := rows, completion_rows := completion_rows db, work_tables := work_tables db\<rparr>" "get_command (command_id c) db = None"
    using cmd evs(1) by (simp_all add: add_command_Inr)
  have "rows_step pf (project_rows db) p rows" using rows assms(6-8) by (auto simp: rows_step_def add_project_def)
  moreover have "evolves db db'"
    using evolves_tables(2) [OF evs(4), of "project_rows db" rows] unfolding db' evs(1) by (simp add: evolves_def org_inv_def revoked_keys_def)
  ultimately show ?thesis using appliedI [OF db'(2) assms(9) _ evs(2,3) _ _ db'(1)] r by blast
qed

lemma update_project_row:
  assumes "update_project q (pj_revision p) rows = Inr rows'" "distinct (map rw_id rows)" "same_identity q p"
    and "\<forall>r\<in>set rows. rw_id r = pj_id p \<longrightarrow> rw_revision r = pj_revision p \<longrightarrow> r = project_to_model pf p"
  shows "project_to_model pf p \<in> set rows \<and> rows' = map (\<lambda>r. if rw_id r = pj_id q then project_to_model pf q else r) rows"
proof -
  have k: "pj_id q = pj_id p" "pj_organization_id q = pj_organization_id p" using assms(3) by (simp_all add: same_identity_def)
  from assms(1) obtain seen where seen: "find (\<lambda>r. rw_id r = pj_id q \<and> rw_organization_id r = pj_organization_id q \<and> rw_revision r = pj_revision p) rows = Some seen"
    "rows' = map (\<lambda>r. if rw_id r = rw_id seen then assign_columns q r else r) rows"
    by (auto simp: update_project_def split: option.splits)
  then have s: "seen \<in> set rows" "seen = project_to_model pf p" using assms(4) k by (auto simp: find_Some_iff)
  have "(if rw_id r = rw_id seen then assign_columns q r else r) = (if rw_id r = pj_id q then project_to_model pf q else r)"
    if "r \<in> set rows" for r
  proof (cases "rw_id r = rw_id seen")
    case True
    then have "r = seen" using assms(2) s(1) that by (auto simp: distinct_map inj_on_def)
    then show ?thesis by (simp add: s(2) assign_to_model [OF assms(3)] k)
  qed (simp add: s(2) k)
  then show ?thesis using s seen(2) by simp
qed

lemma store_changed_applied:
  assumes "store_changed pf sts cx c d now (pj_revision p) q es db = Inr (r, db')" "runtime_inv pf db" "sha256_digests pf" "decided_for cx d"
    and "map ev_type es = command_events c" "\<forall>e\<in>set es. written_by cx c e"
    and "valid_project pf p" "valid_intent (pj_intent p)" "project_step pf p q" "pj_organization_id p = cx_organization_id cx"
    and "\<forall>r\<in>set (project_rows db). rw_id r = pj_id p \<longrightarrow> rw_revision r = pj_revision p \<longrightarrow> r = project_to_model pf p"
  shows "applied pf cx c db q db' \<and> evolves db db' \<and> completion_rows db' = completion_rows db
    \<and> r = \<lparr>rs_command_id = command_id c, rs_project = q, rs_replayed = False\<rparr>"
proof -
  from assms(1) obtain audit db1 rows where
    a: "create_authorization_audit_event pf (sts 0) d (command_id c) (command_type c) True ''project'' = Inr audit"
      "append_events (audit # es) db = Inr db1" and rows: "update_project q (pj_revision p) (project_rows db1) = Inr rows"
    and cmd: "add_command (command_receipt pf cx c q now) (db1\<lparr>project_rows := rows\<rparr>) = Inr db'"
    and r: "r = \<lparr>rs_command_id = command_id c, rs_project = q, rs_replayed = False\<rparr>"
    unfolding store_changed_def by (auto simp: bind_res_Inr_iff)
  have inv: "org_inv db" "distinct (map rw_id (project_rows db))" using assms(2) by (simp_all add: runtime_inv_def)
  from audited_events [OF a inv(1) assms(4-6)] obtain evs where evs: "db1 = db\<lparr>event_rows := event_rows db @ evs\<rparr>"
    "map ev_type evs = ''AUTHORIZATION_GRANTED'' # command_events c" "\<forall>e\<in>set evs. written_by cx c e" "evolves db db1"
    by auto
  note f = project_step_facts [OF assms(9,7,3)]
  have rw: "project_to_model pf p \<in> set (project_rows db) \<and> rows = map (\<lambda>r. if rw_id r = pj_id q then project_to_model pf q else r) (project_rows db)"
    using update_project_row [OF _ inv(2) f(2) assms(11)] rows by (simp add: evs(1))
  have db': "db' = db\<lparr>event_rows := event_rows db @ evs, command_rows := command_rows db @ [command_receipt pf cx c q now],
      project_rows := rows, completion_rows := completion_rows db, work_tables := work_tables db\<rparr>" "get_command (command_id c) db = None"
    using cmd evs(1) by (simp_all add: add_command_Inr)
  have "rows_step pf (project_rows db) q rows" unfolding rows_step_def using rw assms(7-9) by blast
  moreover have "evolves db db'"
    using evolves_tables(1) [OF evs(4)] unfolding db' evs(1) by (simp add: evolves_def org_inv_def revoked_keys_def)
  moreover have "pj_organization_id q = cx_organization_id cx" using f(2) assms(10) by (simp add: same_identity_def)
  moreover have "completion_rows db' = completion_rows db" by (simp add: db'(1))
  ultimately show ?thesis using appliedI [OF db'(2) _ _ evs(2,3) _ _ db'(1)] r by blast
qed


lemma applied_more:
  assumes "applied pf cx c (db\<lparr>completion_rows := recs\<rparr>) q db'" "is_CompleteProjectCommand c"
  shows "applied pf cx c db q db'"
  using assms(1) by (rule appliedE) (rule appliedI; simp add: assms(2))

lemma applied_work:
  assumes "applied pf cx c db q db'" "is_ActivateProjectScopeCommand c"
  shows "applied pf cx c db q (db'\<lparr>work_tables := w\<rparr>)"
  using assms(1) by (rule appliedE) (rule appliedI; simp add: assms(2))

lemma rows_step_facts:
  assumes "rows_step pf rows q rows'" "distinct (map rw_id rows)" "\<forall>r\<in>set rows. stored pf r" "sha256_digests pf"
  shows "distinct (map rw_id rows') \<and> (\<forall>r\<in>set rows'. stored pf r) \<and> (\<forall>r\<in>set rows. \<exists>n. \<exists>r'\<in>set rows'. row_path pf n r r')
    \<and> project_to_model pf q \<in> set rows'"
proof -
  consider (new) "rows' = rows @ [project_to_model pf q]" "pj_id q \<notin> rw_id ` set rows" "valid_project pf q" "valid_intent (pj_intent q)"
    | (old) p where "project_to_model pf p \<in> set rows" "valid_project pf p" "valid_intent (pj_intent p)" "project_step pf p q"
        "rows' = map (\<lambda>r. if rw_id r = pj_id q then project_to_model pf q else r) rows"
    using assms(1) unfolding rows_step_def by blast
  then show ?thesis
  proof cases
    case new
    then have "stored pf (project_to_model pf q)" by (auto simp: stored_def)
    then show ?thesis using assms(2,3) new(1,2) by (auto intro: path_refl)
  next
    case old
    note st = stored_step [OF assms(4) old(2-4)]
    have k: "rw_id (project_to_model pf p) = pj_id q" using st(2) by simp
    have "map rw_id rows' = map rw_id rows" using k by (simp add: old(5))
    moreover have "\<exists>n. \<exists>r'\<in>set rows'. row_path pf n r r'" if "r \<in> set rows" for r
    proof (cases "rw_id r = pj_id q")
      case True
      then have "r = project_to_model pf p" using assms(2) old(1) that k by (auto simp: distinct_map inj_on_def)
      then have "row_path pf 1 r (project_to_model pf q)" using path_step [OF path_refl old(2-4)] by simp
      then show ?thesis using that True old(5) by force
    next
      case False
      then have "r \<in> set rows'" using that by (force simp: old(5))
      then show ?thesis using path_refl by blast
    qed
    moreover have "project_to_model pf q \<in> set rows'" using old(1) k by (force simp: old(5))
    moreover have "\<forall>r\<in>set rows'. stored pf r" using assms(3) st(1) by (auto simp: old(5))
    ultimately show ?thesis using assms(2) by simp
  qed
qed

lemma find_append_fresh: "get_command i db = None \<longleftrightarrow> i \<notin> cm_id ` set (command_rows db)"
  by (auto simp: get_command_def find_None_iff)

lemma applied_evolves:
  assumes "applied pf cx c db q db'" "evolves db db'" "sha256_digests pf"
  shows "rt_evolves pf db db'"
  unfolding rt_evolves_def
proof
  assume inv: "runtime_inv pf db"
  from assms(1) obtain rows evs now recs w where a: "rows_step pf (project_rows db) q rows" "get_command (command_id c) db = None"
    "db' = db\<lparr>event_rows := event_rows db @ evs, command_rows := command_rows db @ [command_receipt pf cx c q now],
       project_rows := rows, completion_rows := recs, work_tables := w\<rparr>"
    unfolding applied_def by blast
  note f = rows_step_facts [OF a(1) _ _ assms(3)]
  have "org_inv db'" using assms(2) inv by (simp add: evolves_def runtime_inv_def)
  then show "runtime_inv pf db' \<and> evolves db db' \<and> prefix (command_rows db) (command_rows db')
    \<and> (\<forall>r\<in>set (project_rows db). \<exists>n. \<exists>r'\<in>set (project_rows db'). row_path pf n r r')"
    using f inv assms(2) a(2) by (simp add: a(3) runtime_inv_def find_append_fresh)
qed

lemma applied_stored:
  assumes "applied pf cx c db q db'" "runtime_inv pf db" "sha256_digests pf"
  shows "project_to_model pf q \<in> set (project_rows db') \<and> pj_organization_id q = cx_organization_id cx"
  using assms(1)
proof (rule appliedE)
  fix rows evs now recs w
  assume "rows_step pf (project_rows db) q rows" "pj_organization_id q = cx_organization_id cx"
    and "db' = db\<lparr>event_rows := event_rows db @ evs, command_rows := command_rows db @ [command_receipt pf cx c q now],
       project_rows := rows, completion_rows := recs, work_tables := w\<rparr>"
  then show ?thesis using rows_step_facts [OF _ _ _ assms(3)] assms(2) by (simp add: runtime_inv_def)
qed

lemma rt_evolves_completion [simp]: "rt_evolves pf db (db\<lparr>completion_rows := recs\<rparr>)"
  by (auto simp: rt_evolves_def runtime_inv_def evolves_def revoked_keys_def intro: path_refl)

lemma changed_applied:
  assumes "get_for_organization pf sq i (cx_organization_id cx) (project_rows db) = Inr (Some p)" "project_step pf p q"
    and "store_changed pf sts cx c d now (pj_revision p) q es db1 = Inr (r, db')" "runtime_inv pf db" "rt_evolves pf db db1"
    and "sha256_digests pf" "decided_for cx d" "map ev_type es = command_events c"
    and "pj_organization_id q = cx_organization_id cx \<Longrightarrow> \<forall>e\<in>set es. written_by cx c e"
  shows "applied pf cx c db1 q db' \<and> evolves db1 db' \<and> completion_rows db' = completion_rows db1
    \<and> r = \<lparr>rs_command_id = command_id c, rs_project = q, rs_replayed = False\<rparr> \<and> pj_id q = i"
proof -
  note g = get_project_Inr [OF assms(4,1)]
  have q: "pj_id q = i" "pj_organization_id q = cx_organization_id cx"
    using project_step_facts(2) [OF assms(2) g(1) assms(6)] g(3,4) by (simp_all add: same_identity_def)
  have "\<forall>r\<in>set (project_rows db1). rw_id r = pj_id p \<longrightarrow> rw_revision r = pj_revision p \<longrightarrow> r = project_to_model pf p"
    using row_unchanged [OF assms(5,4,6) g(5)] by simp
  from store_changed_applied [OF assms(3) rt_evolves_inv [OF assms(5,4)] assms(6,7,8) assms(9) [OF q(2)] g(1,2) assms(2) g(4) this] q(1)
  show ?thesis by blast
qed

lemma check_completion_same: "check_completion_record x = Inr y \<Longrightarrow> check_completion_record y = Inr y"
  by (auto simp: check_completion_record_def bind_res_Inr_iff)

lemma verify_evidence_checks: "verify_evidence pf p e a t db = Inr rec \<Longrightarrow> check_completion_record rec = Inr rec"
  unfolding verify_evidence_def by (auto simp: bind_res_Inr_iff split: option.splits intro: check_completion_same)

text \<open>Every command but the creating ones reads its project and writes one successor of it.\<close>

lemma fresh_changed:
  assumes "fresh_command pf sq uid now sts cx d env c db = Inr (r, db')"
    and "\<not> is_CreateProjectCommand c" "\<not> is_ContinueProjectCommand c" "\<not> is_CompleteProjectCommand c"
  obtains p q es where "get_for_organization pf sq (target_project c) (cx_organization_id cx) (project_rows db) = Inr (Some p)" "project_step pf p q"
    "store_changed pf sts cx c d now (pj_revision p) q es (env db) = Inr (r, db')" "map ev_type es = command_events c"
    "pj_organization_id q = cx_organization_id cx \<Longrightarrow> \<forall>e\<in>set es. written_by cx c e"
proof (cases c)
  case (LaunchProjectCommand i org t fp)
  with assms(1) show thesis
    by (auto simp: launch_fresh_def bind_res_Inr_iff read_project_Inr written_by_def intro!: step_launch that)
next
  case (ActivateProjectScopeCommand i org t plan n)
  with assms(1) show thesis
    by (auto simp: activate_fresh_def bind_res_Inr_iff read_project_Inr written_by_def intro!: step_activate that)
next
  case (RequestProjectCompletionCommand i org t n plan)
  with assms(1) show thesis
    by (auto simp: completion_request_fresh_def bind_res_Inr_iff read_project_Inr written_by_def intro!: step_request that)
next
  case (CancelProjectCommand i org t n reason)
  with assms(1) show thesis
    by (auto simp: cancel_fresh_def bind_res_Inr_iff read_project_Inr written_by_def intro!: step_cancel that)
next
  case (ArchiveProjectCommand i org t n)
  with assms(1) show thesis
    by (auto simp: archive_fresh_def bind_res_Inr_iff read_project_Inr written_by_def intro!: step_archive that)
qed (use assms(2-4) in simp_all)

lemma fresh_completed:
  assumes "complete_fresh pf sq uid now sts cx d env i org t n plan e db = Inr (r, db')"
  obtains p cur rec recs q es where "get_for_organization pf sq t (cx_organization_id cx) (project_rows db) = Inr (Some p)" "pj_revision p = n"
    "active_plan_request_fingerprint p = Some plan" "verify_evidence pf p e (cx_actor_id cx) (Aware now) db = Inr rec"
    "get_for_organization pf sq t (cx_organization_id cx) (project_rows (env db)) = Inr (Some cur)" "pj_revision cur = n"
    "add_completion pf sq rec (completion_rows (env db)) = Inr recs" "complete_project pf rec n cur = Inr q" "project_step pf cur q"
    "store_changed pf sts cx (CompleteProjectCommand i org t n plan e) d now n q es ((env db)\<lparr>completion_rows := recs\<rparr>) = Inr (r, db')"
    "map ev_type es = [''PROJECT_COMPLETED'']"
    "pj_organization_id q = cx_organization_id cx \<Longrightarrow> \<forall>ev\<in>set es. written_by cx (CompleteProjectCommand i org t n plan e) ev"
proof -
  let ?es = "\<lambda>q rec. [project_event (sts 1) ''PROJECT_COMPLETED'' q (cx_actor_id cx) i
      [(''project_id'', JStr (pj_id q)), (''status'', JStr (project_status_value (pj_status q))),
       (''project_revision'', JInt (pj_revision q)), (''completion_record_id'', JStr (completion_record_id pf rec))]]"
  obtain p rec cur recs q where f: "get_for_organization pf sq t (cx_organization_id cx) (project_rows db) = Inr (Some p)" "pj_revision p = n"
    "active_plan_request_fingerprint p = Some plan" "verify_evidence pf p e (cx_actor_id cx) (Aware now) db = Inr rec"
    "get_for_organization pf sq t (cx_organization_id cx) (project_rows (env db)) = Inr (Some cur)" "pj_revision cur = n"
    "add_completion pf sq rec (completion_rows (env db)) = Inr recs" "complete_project pf rec n cur = Inr q"
    "store_changed pf sts cx (CompleteProjectCommand i org t n plan e) d now n q (?es q rec) ((env db)\<lparr>completion_rows := recs\<rparr>) = Inr (r, db')"
    using assms unfolding complete_fresh_def by (auto simp: bind_res_Inr_iff read_project_Inr split: option.splits)
  from f(8) verify_evidence_checks [OF f(4)] have "project_step pf cur q" by (rule step_complete)
  with f show thesis by (intro that [of p rec cur recs q "?es q rec"]) (simp_all add: written_by_def)
qed

lemma fresh_created:
  assumes "fresh_command pf sq uid now sts cx d env c db = Inr (r, db')" "is_CreateProjectCommand c \<or> is_ContinueProjectCommand c"
  obtains p es desc ts cont where
    "create_project pf now (new_project_id uid c) (cx_organization_id cx) (command_name c) desc (command_intent c) (cx_actor_id cx) ts cont = Inr p"
    "store_new pf sts cx c d now p es (env db) = Inr (r, db')" "map ev_type es = command_events c"
    "pj_organization_id p = cx_organization_id cx \<Longrightarrow> \<forall>e\<in>set es. written_by cx c e"
proof (cases c)
  case (CreateProjectCommand i org name desc intent)
  then show thesis
    using assms(1) by (auto simp: create_fresh_def bind_res_Inr_iff written_by_def intro!: that)
next
  case (ContinueProjectCommand i org t n name desc intent)
  then show thesis
    using assms(1) by (auto simp: continue_fresh_def bind_res_Inr_iff written_by_def intro!: that)
qed (use assms(2) in simp_all)

lemma fresh_applied:
  assumes "fresh_command pf sq uid now sts cx d env c db = Inr (r, db')" "runtime_inv pf db" "rt_evolves pf db (env db)" "sha256_digests pf"
    and "decided_for cx d" "intent_built c"
  shows "applied pf cx c (env db) (rs_project r) db' \<and> evolves (env db) db' \<and> \<not> rs_replayed r \<and> rs_command_id r = command_id c
    \<and> pj_id (rs_project r) = command_project uid c"
proof -
  have inv: "runtime_inv pf (env db)" "org_inv (env db)" using rt_evolves_inv [OF assms(3,2)] by (simp_all add: runtime_inv_def)
  consider (create) "is_CreateProjectCommand c \<or> is_ContinueProjectCommand c" "command_project uid c = new_project_id uid c" "valid_intent (command_intent c)"
    | (complete) i org t n plan e where "c = CompleteProjectCommand i org t n plan e"
    | (change) "\<not> is_CreateProjectCommand c" "\<not> is_ContinueProjectCommand c" "\<not> is_CompleteProjectCommand c" "command_project uid c = target_project c"
    using assms(6) by (cases c) simp_all
  then show ?thesis
  proof cases
    case create
    from assms(1) create(1) show ?thesis
    proof (rule fresh_created)
      fix p es desc ts cont
      assume p: "create_project pf now (new_project_id uid c) (cx_organization_id cx) (command_name c) desc (command_intent c) (cx_actor_id cx) ts cont = Inr p"
        "store_new pf sts cx c d now p es (env db) = Inr (r, db')" "map ev_type es = command_events c"
        "pj_organization_id p = cx_organization_id cx \<Longrightarrow> \<forall>e\<in>set es. written_by cx c e"
      note f = create_project_facts [OF p(1)]
      then have "valid_intent (pj_intent p)" using create(3) by simp
      from store_new_applied [OF p(2) inv(2) assms(5) p(3) p(4) _ this] f show ?thesis by (simp add: create(2))
    qed
  next
    case complete
    with assms(1) have "complete_fresh pf sq uid now sts cx d env i org t n plan e db = Inr (r, db')" by simp
    then show ?thesis
    proof (rule fresh_completed)
      fix p :: project and cur :: project and rec recs q es
      assume n: "pj_revision cur = n"
      assume g: "get_for_organization pf sq t (cx_organization_id cx) (project_rows (env db)) = Inr (Some cur)" "project_step pf cur q"
        "store_changed pf sts cx (CompleteProjectCommand i org t n plan e) d now n q es ((env db)\<lparr>completion_rows := recs\<rparr>) = Inr (r, db')"
        "map ev_type es = [''PROJECT_COMPLETED'']"
        "pj_organization_id q = cx_organization_id cx \<Longrightarrow> \<forall>ev\<in>set es. written_by cx (CompleteProjectCommand i org t n plan e) ev"
      have g3: "store_changed pf sts cx (CompleteProjectCommand i org t n plan e) d now (pj_revision cur) q es ((env db)\<lparr>completion_rows := recs\<rparr>) = Inr (r, db')"
        using g(3) n by simp
      from changed_applied [OF g(1,2) g3 inv(1) rt_evolves_completion assms(4,5) _ g(5)] g(4)
      show ?thesis by (auto simp: complete evolves_def revoked_keys_def intro: applied_more)
    qed
  next
    case change
    from assms(1) change(1-3) show ?thesis
    proof (rule fresh_changed)
      fix p q es
      assume g: "get_for_organization pf sq (target_project c) (cx_organization_id cx) (project_rows db) = Inr (Some p)" "project_step pf p q"
        "store_changed pf sts cx c d now (pj_revision p) q es (env db) = Inr (r, db')" "map ev_type es = command_events c"
        "pj_organization_id q = cx_organization_id cx \<Longrightarrow> \<forall>e\<in>set es. written_by cx c e"
      from changed_applied [OF g(1-3) assms(2-5) g(4,5)] show ?thesis by (simp add: change(4))
    qed
  qed
qed

subsection \<open>The outcomes of a command\<close>

definition may_command :: "org_context \<Rightarrow> project_command \<Rightarrow> runtime_db \<Rightarrow> bool" where
  "may_command cx c db \<longleftrightarrow> cx_principal_id cx = cx_actor_id cx \<and> resource_organization cx c db = Some (cx_organization_id cx)
     \<and> active_member (cx_actor_id cx) (cx_organization_id cx) db
     \<and> holds_capability (cx_actor_id cx) (cx_organization_id cx) (command_capability c) db"

definition denied :: "org_context \<Rightarrow> project_command \<Rightarrow> runtime_db \<Rightarrow> runtime_db \<Rightarrow> bool" where
  "denied cx c db db' \<longleftrightarrow> (\<exists>e. db' = db\<lparr>event_rows := event_rows db @ [e]\<rparr> \<and> ev_type e = ''AUTHORIZATION_DENIED'' \<and> written_by cx c e)"

definition answered_from :: "platform \<Rightarrow> bool \<Rightarrow> org_context \<Rightarrow> project_command \<Rightarrow> runtime_db \<Rightarrow> project \<Rightarrow> bool" where
  "answered_from pf sq cx c db p \<longleftrightarrow> (\<exists>row. get_command (command_id c) db = Some row \<and> same_command pf cx c row
     \<and> get_for_organization pf sq (replay_id c row) (cx_organization_id cx) (project_rows db) = Inr (Some p))"

text \<open>The states other clients lead to.\<close>

inductive env_reach :: "(nat \<Rightarrow> 's \<Rightarrow> 's) \<Rightarrow> 's \<Rightarrow> 's \<Rightarrow> bool" for env where
  here: "env_reach env s s"
| there: "env_reach env s t \<Longrightarrow> env_reach env s (env n t)"

lemma env_reach_trans: "env_reach env t u \<Longrightarrow> env_reach env s t \<Longrightarrow> env_reach env s u"
  by (induction rule: env_reach.induct) (auto intro: env_reach.intros)

lemma env_reach_once [simp]: "env_reach env s (env n s)"
  by (rule there [OF here])

fun command_outcome ::
  "platform \<Rightarrow> bool \<Rightarrow> (str \<Rightarrow> str) \<Rightarrow> org_context \<Rightarrow> (nat \<Rightarrow> runtime_db \<Rightarrow> runtime_db) \<Rightarrow> project_command \<Rightarrow> runtime_db \<Rightarrow> command_result result \<times> runtime_db \<Rightarrow> bool" where
  "command_outcome pf sq uid cx env c db (Inl e, db') \<longleftrightarrow>
     (\<exists>db0. env_reach env db db0 \<and> (db' = db0 \<or> denied cx c db0 db' \<and> e = CommandAuthorizationError))"
| "command_outcome pf sq uid cx env c db (Inr r, db') \<longleftrightarrow>
     (\<exists>db0 db1. env_reach env db db0 \<and> env_reach env db0 db1 \<and> may_command cx c db0 \<and> rs_command_id r = command_id c
        \<and> (if rs_replayed r then db' = db1 \<and> answered_from pf sq cx c db0 (rs_project r)
            else applied pf cx c db1 (rs_project r) db' \<and> pj_id (rs_project r) = command_project uid c))"

lemma outcome_trans:
  assumes "env_reach env db db1" "command_outcome pf sq uid cx env c db1 (res, db')"
  shows "command_outcome pf sq uid cx env c db (res, db')"
proof (cases res)
  case (Inl e)
  with assms show ?thesis by (auto dest: env_reach_trans)
next
  case (Inr r)
  with assms(2) obtain db0 db2 where "env_reach env db1 db0" "env_reach env db0 db2" "may_command cx c db0" "rs_command_id r = command_id c"
    "if rs_replayed r then db' = db2 \<and> answered_from pf sq cx c db0 (rs_project r)
     else applied pf cx c db2 (rs_project r) db' \<and> pj_id (rs_project r) = command_project uid c" by auto
  moreover from this(1) have "env_reach env db db0" using assms(1) by (rule env_reach_trans)
  ultimately show ?thesis unfolding Inr command_outcome.simps by blast
qed

lemma outcome_once:
  assumes "may_command cx c db" "rs_command_id r = command_id c"
    and "if rs_replayed r then db' = env n db \<and> answered_from pf sq cx c db (rs_project r)
         else applied pf cx c (env n db) (rs_project r) db' \<and> pj_id (rs_project r) = command_project uid c"
  shows "command_outcome pf sq uid cx env c db (Inr r, db')"
  unfolding command_outcome.simps using assms here [of env db] env_reach_once [of env db n] by blast

lemma in_session_Inr: "in_session org k = Inr x \<Longrightarrow> k = Inr x"
  by (auto simp: in_session_def raise_if_def split: if_splits)

lemma in_session_id: "\<not> blank org \<Longrightarrow> length (strip org) \<le> 128 \<Longrightarrow> in_session org x = x"
  by (simp add: in_session_def)

lemma authorize_command_facts:
  assumes "authorize_command uid cx c db = Inr d" "runtime_inv pf db"
  shows "decided_for cx d \<and> (od_allowed d \<longrightarrow> may_command cx c db)"
proof -
  note a = assms(1) [unfolded authorize_command_def]
  have "org_inv db" using assms(2) by (simp add: runtime_inv_def)
  from authorize_allowed [OF a this] authorize_fields [OF a] show ?thesis by (simp add: decided_for_def may_command_def)
qed

lemma transaction_outcome:
  assumes "command_transaction pf sq uid now sts cx (env n) c db = Inr x" "runtime_inv pf db" "rt_evolves pf db (env n db)"
    and "sha256_digests pf" "intent_built c"
  shows "case x of Inl d \<Rightarrow> decided_for cx d
    | Inr (r, db') \<Rightarrow> command_outcome pf sq uid cx env c db (Inr r, db') \<and> rt_evolves pf db db'"
proof -
  note t = in_session_Inr [OF assms(1) [unfolded command_transaction_def]]
  then obtain d where d: "authorize_command uid cx c db = Inr d" by (auto simp: bind_res_Inr_iff)
  note a = authorize_command_facts [OF d assms(2)]
  show ?thesis
  proof (cases x)
    case (Inl d')
    then show ?thesis using t a d by (auto split: if_splits option.splits simp: bind_res_Inr_iff)
  next
    case (Inr y)
    obtain r db' where y: "y = (r, db')" by (cases y)
    with t d Inr have al: "od_allowed d" by (auto split: if_splits)
    show ?thesis
    proof (cases "get_command (command_id c) db")
      case None
      then have "fresh_command pf sq uid now sts cx d (env n) c db = Inr (r, db')" using t d Inr y al by (auto simp: bind_res_Inr_iff)
      from fresh_applied [OF this assms(2-4) _ assms(5)] a
      have f: "applied pf cx c (env n db) (rs_project r) db' \<and> evolves (env n db) db' \<and> \<not> rs_replayed r \<and> rs_command_id r = command_id c
        \<and> pj_id (rs_project r) = command_project uid c" by blast
      then have "rt_evolves pf db db'" using applied_evolves assms(3,4) rt_evolves_trans by blast
      moreover have "command_outcome pf sq uid cx env c db (Inr r, db')"
        by (rule outcome_once [where n = n]) (use f a al in simp_all)
      ultimately show ?thesis by (simp add: Inr y)
    next
      case (Some row)
      then have "replay pf sq cx c (missing_error c) (replay_id c row) row db = Inr r" "db' = env n db"
        using t d Inr y al by (auto simp: bind_res_Inr_iff)
      moreover from this(1) have "answered_from pf sq cx c db (rs_project r) \<and> rs_replayed r \<and> rs_command_id r = command_id c"
        using Some by (auto simp: replay_def answered_from_def bind_res_Inr_iff read_project_Inr)
      ultimately have "command_outcome pf sq uid cx env c db (Inr r, db')"
        by (intro outcome_once [where n = n]) (use a al in simp_all)
      then show ?thesis using assms(3) \<open>db' = env n db\<close> by (simp add: Inr y)
    qed
  qed
qed

lemma rt_evolves_event:
  assumes "append_event ev db = Inr db'"
  shows "rt_evolves pf db db'"
  unfolding rt_evolves_def
proof
  assume inv: "runtime_inv pf db"
  then have "gap_free (event_rows db)" by (simp add: runtime_inv_def org_inv_def)
  from append_event_eq [OF assms this] obtain n where n: "db' = db\<lparr>event_rows := event_rows db @ [ev\<lparr>ev_sequence := n\<rparr>]\<rparr>" by blast
  have "evolves db db'" using assms by (rule append_event_evolves)
  then show "runtime_inv pf db' \<and> evolves db db' \<and> prefix (command_rows db) (command_rows db')
    \<and> (\<forall>r\<in>set (project_rows db). \<exists>n. \<exists>r'\<in>set (project_rows db'). row_path pf n r r')"
    using inv by (auto simp: n runtime_inv_def evolves_def intro: path_refl)
qed

text \<open>What is asked of the other clients: they keep to the same rules.\<close>

definition fair :: "platform \<Rightarrow> (nat \<Rightarrow> runtime_db \<Rightarrow> runtime_db) \<Rightarrow> bool" where
  "fair pf env \<longleftrightarrow> (\<forall>n db. rt_evolves pf db (env n db))"

abbreviation sound :: "platform \<Rightarrow> bool \<Rightarrow> (str \<Rightarrow> str) \<Rightarrow> org_context \<Rightarrow> (nat \<Rightarrow> runtime_db \<Rightarrow> runtime_db) \<Rightarrow> project_command \<Rightarrow> runtime_db \<Rightarrow> command_result result \<times> runtime_db \<Rightarrow> bool" where
  "sound pf sq uid cx env c db x \<equiv> command_outcome pf sq uid cx env c db x \<and> rt_evolves pf db (snd x)"

lemma fair_step:
  assumes "fair pf env"
  shows "rt_evolves pf db (env n db)" "runtime_inv pf db \<Longrightarrow> runtime_inv pf (env n db)"
proof -
  show ev: "rt_evolves pf db (env n db)" using assms by (simp add: fair_def)
  show "runtime_inv pf db \<Longrightarrow> runtime_inv pf (env n db)" by (rule rt_evolves_inv [OF ev])
qed

lemma outcome_error: "command_outcome pf sq uid cx env c db (Inl e, env n db)"
  unfolding command_outcome.simps using env_reach_once [of env db n] by blast

lemma env_alone:
  assumes "fair pf env"
  shows "sound pf sq uid cx env c db (Inl e, env n db)"
  using outcome_error fair_step(1) [OF assms] by simp

lemma denial_sound:
  assumes "fair pf env" "runtime_inv pf db" "decided_for cx d"
  shows "sound pf sq uid cx env c db (authority_deny pf st d (command_id c) ty agg (env n db))"
proof -
  obtain res :: "command_result result" and db' where x: "authority_deny pf st d (command_id c) ty agg (env n db) = (res, db')" by fastforce
  note inv = fair_step(2) [OF assms(1,2), of n] and ev = fair_step(1) [OF assms(1), of db n]
  consider (failed) e where "res = Inl e" "db' = env n db"
    | (logged) ev where "create_authorization_audit_event pf st d (command_id c) ty False agg = Inr ev" "append_event ev (env n db) = Inr db'"
        "res = Inl CommandAuthorizationError"
    using x unfolding authority_deny_def transaction_def in_session_def
    by (auto simp: bind_res_Inr_iff raise_if_def split: sum.splits if_splits prod.splits)
  then show ?thesis
  proof cases
    case failed
    then show ?thesis using env_alone [OF assms(1)] x by simp
  next
    case logged
    have "gap_free (event_rows (env n db))" using inv by (simp add: runtime_inv_def org_inv_def)
    from append_event_eq [OF logged(2) this] obtain m where m: "db' = (env n db)\<lparr>event_rows := event_rows (env n db) @ [ev\<lparr>ev_sequence := m\<rparr>]\<rparr>" by blast
    have "denied cx c (env n db) db'"
      unfolding denied_def using m audit_event_sel [OF logged(1)] assms(3)
      by (intro exI [of _ "ev\<lparr>ev_sequence := m\<rparr>"]) (simp add: written_by_def decided_for_def)
    then have "command_outcome pf sq uid cx env c db (Inl CommandAuthorizationError, db')"
      unfolding command_outcome.simps using env_reach_once [of env db n] by blast
    then show ?thesis using logged(3) rt_evolves_trans [OF ev rt_evolves_event [OF logged(2)]] x by simp
  qed
qed

lemma audited_sound:
  assumes "fair pf env" "sha256_digests pf" "intent_built c" "runtime_inv pf db"
  shows "sound pf sq uid cx env c db (audited_once pf sq uid now sts cx (env n) c db)"
proof (cases "command_transaction pf sq uid now sts cx (env n) c db")
  case (Inl e)
  then show ?thesis using env_alone [OF assms(1)] by (simp add: audited_once_def)
next
  case (Inr x)
  note t = transaction_outcome [of pf sq uid now sts cx env n c db x, OF Inr assms(4) fair_step(1) [OF assms(1)] assms(2,3)]
  show ?thesis
  proof (cases x)
    case (Inl d)
    with t denial_sound [OF assms(1,4)] show ?thesis by (simp add: audited_once_def Inr record_denial_def)
  next
    case y: (Inr y)
    with t show ?thesis by (cases y) (simp add: audited_once_def Inr)
  qed
qed

lemma mismatch_sound:
  assumes "fair pf env" "runtime_inv pf db"
  shows "sound pf sq uid cx env c db (organization_mismatch pf st uid cx c (env n db))"
proof -
  let ?d = "\<lparr>od_allowed = False, od_reason = ''Command organization does not match runtime context'',
              od_reason_code = ''command_organization_mismatch'', od_actor_id = cx_actor_id cx, od_principal_id = cx_principal_id cx,
              od_organization_id = cx_organization_id cx, od_capability_id = command_capability c,
              od_resource_id = Some (command_resource uid c), od_resource_organization_id = Some (cx_organization_id cx)\<rparr>"
  show ?thesis
  proof (cases "check_org_decision ?d")
    case (Inl e)
    then show ?thesis using env_alone [OF assms(1)] by (simp add: organization_mismatch_def)
  next
    case (Inr d)
    then have "d = ?d" by (simp add: check_org_decision_Inr)
    then have df: "decided_for cx d" by (simp add: decided_for_def)
    with denial_sound [OF assms] show ?thesis by (simp add: organization_mismatch_def Inr record_denial_def)
  qed
qed

lemma retry_sound:
  assumes "fair pf env" "\<And>k db. runtime_inv pf db \<Longrightarrow> sound pf sq uid cx env c db (once k db)" "\<And>db. \<not> retryable CommandAuthorizationError db"
  shows "runtime_inv pf db \<Longrightarrow> sound pf sq uid cx env c db (retry_command retryable once k n db)"
proof (induction n arbitrary: k db)
  case 0
  then show ?case using here by auto
next
  case (Suc n)
  note o = assms(2) [OF Suc.prems, of k]
  obtain res db' where x: "once k db = (res, db')" by fastforce
  show ?case
  proof (cases res)
    case (Inr r)
    then show ?thesis using o x by simp
  next
    case (Inl e)
    show ?thesis
    proof (cases "retryable e db \<and> n \<noteq> 0")
      case True
      then have "env_reach env db db'" using o x Inl assms(3) by auto
      moreover have ev: "rt_evolves pf db db'" using o x by simp
      moreover note Suc.IH [OF rt_evolves_inv [OF ev Suc.prems], of "Suc k"]
      ultimately show ?thesis
        using x Inl True outcome_trans rt_evolves_trans by (cases "retry_command retryable once (Suc k) n db'") auto
    next
      case False
      then have "retry_command retryable once k (Suc n) db = (res, db')" using x Inl by auto
      then show ?thesis using o x by simp
    qed
  qed
qed

lemma project_once_sound:
  assumes "fair pf env" "sha256_digests pf" "intent_built c" "runtime_inv pf db"
  shows "sound pf sq uid cx env c db (project_once pf sq uid ready now sts cx (env n) c db)"
  using env_alone [OF assms(1)] mismatch_sound [OF assms(1,4)] audited_sound [OF assms] unfolding project_once_def by simp

lemma activate_once_sound:
  assumes "fair pf env" "sha256_digests pf" "runtime_inv pf db" "is_ActivateProjectScopeCommand c"
  shows "sound pf sq uid cx env c db (activate_once pf sq uid now sts cx (env n) wnow wenv c db)"
proof -
  have "intent_built c" using assms(4) by (cases c) simp_all
  note o = audited_sound [OF assms(1,2) this assms(3), of sq uid cx now sts n]
  obtain res db' where x: "audited_once pf sq uid now sts cx (env n) c db = (res, db')" by fastforce
  have w: "rt_evolves pf db' (db'\<lparr>work_tables := w\<rparr>)" for w
    by (auto simp: rt_evolves_def runtime_inv_def evolves_def revoked_keys_def intro: path_refl)
  show ?thesis
  proof (cases res)
    case (Inl e)
    then show ?thesis using o x by (simp add: activate_once_def)
  next
    case (Inr r)
    have "command_outcome pf sq uid cx env c db (Inr r, db'\<lparr>work_tables := w\<rparr>)" if "\<not> rs_replayed r" for w
      using o x Inr that applied_work [OF _ assms(4)] by auto blast
    then show ?thesis using o x Inr rt_evolves_trans [OF _ w] by (simp add: activate_once_def)
  qed
qed

lemma run_command_sound:
  assumes "fair pf env" "sha256_digests pf" "intent_built c" "runtime_inv pf db"
  shows "sound pf sq uid cx env c db (run_command pf sq uid ready now sts cx env wnow wenv c db)"
proof -
  let ?run = "run_command pf sq uid ready now sts cx env wnow wenv c db"
  consider (create) "?run = runtime_create_project pf sq uid ready now sts cx env c db"
    | (launch) "?run = runtime_launch_project pf sq uid ready now sts cx env c db"
    | (activate) "?run = runtime_activate pf sq uid ready now sts cx env wnow wenv c db" "is_ActivateProjectScopeCommand c"
    | (other) "?run = runtime_execute pf sq uid ready (now 0) (sts 0) cx (env 0) c db"
    by (cases c) simp_all
  then show ?thesis
  proof cases
    case create
    show ?thesis unfolding create runtime_create_project_def
      by (rule retry_sound [OF assms(1) project_once_sound [OF assms(1-3)] _ assms(4)]) simp_all
  next
    case launch
    show ?thesis unfolding launch runtime_launch_project_def
      by (rule retry_sound [OF assms(1) project_once_sound [OF assms(1-3)] _ assms(4)]) simp_all
  next
    case activate
    have "sound pf sq uid cx env c db (retry_command (\<lambda>e _. e \<in> {IntegrityError, RepositoryError})
        (\<lambda>n. activate_once pf sq uid (now n) (sts n) cx (env n) (wnow n) (wenv n) c) 0 COMMAND_RETRY_LIMIT db)"
      by (rule retry_sound [OF assms(1) activate_once_sound [OF assms(1,2) _ activate(2)] _ assms(4)]) simp_all
    then show ?thesis
      using env_alone [OF assms(1)] mismatch_sound [OF assms(1,4)] unfolding activate(1) runtime_activate_def
      by (auto simp del: command_outcome.simps)
  next
    case other
    show ?thesis
    proof (cases "ready \<and> command_organization c = cx_organization_id cx")
      case True
      show ?thesis
      proof (cases "command_transaction pf sq uid (now 0) (sts 0) cx (env 0) c db")
        case (Inl e)
        then show ?thesis using env_alone [OF assms(1)] True unfolding other by (simp add: runtime_execute_def del: command_outcome.simps)
      next
        case (Inr x)
        note t = transaction_outcome [of pf sq uid "now 0" "sts 0" cx env 0 c db x, OF Inr assms(4) fair_step(1) [OF assms(1)] assms(2,3)]
        show ?thesis
          using t Inr True env_alone [OF assms(1)] unfolding other
          by (cases x) (auto simp: runtime_execute_def simp del: command_outcome.simps)
      qed
    next
      case False
      then show ?thesis using env_alone [OF assms(1)] unfolding other by (auto simp: runtime_execute_def simp del: command_outcome.simps)
    qed
  qed
qed

subsection \<open>Runs of commands\<close>

text \<open>
  A run is made of commands of any actors, each one interleaved with other runs, and of the
  transactions of other parts of the system, which write neither projects nor receipts.
\<close>

inductive command_run :: "platform \<Rightarrow> runtime_db \<Rightarrow> runtime_db \<Rightarrow> bool" for pf where
  run_none: "command_run pf db db"
| run_other: "command_run pf db db1 \<Longrightarrow> evolves db1 db2 \<Longrightarrow> project_rows db2 = project_rows db1 \<Longrightarrow> command_rows db2 = command_rows db1
    \<Longrightarrow> command_run pf db db2"
| run_one: "command_run pf db db1 \<Longrightarrow> (\<And>n d. command_run pf d (env n d)) \<Longrightarrow> intent_built c
    \<Longrightarrow> run_command pf sq uid ready now sts cx env wnow wenv c db1 = (res, db2) \<Longrightarrow> command_run pf db db2"

lemma command_run_evolves:
  assumes "command_run pf db db'" "sha256_digests pf"
  shows "rt_evolves pf db db'"
  using assms(1)
proof induction
  case (run_other db db1 db2)
  have "rt_evolves pf db1 db2" using run_other.hyps(2-4) by (auto simp: rt_evolves_def runtime_inv_def evolves_def intro: path_refl)
  with run_other.IH show ?case by (rule rt_evolves_trans)
next
  case (run_one db db1 env c sq uid ready now sts cx wnow wenv res db2)
  have "fair pf env" using run_one.IH(2) by (simp add: fair_def)
  from run_command_sound [OF this assms(2) run_one.hyps(3), of db1 sq uid cx ready now sts wnow wenv] run_one.hyps(4)
  have "rt_evolves pf db1 db2" by (auto simp: rt_evolves_def)
  with run_one.IH(1) show ?case by (rule rt_evolves_trans)
qed simp

lemma env_reach_evolves:
  assumes "env_reach env db db'" "fair pf env"
  shows "rt_evolves pf db db'"
  using assms(1) by induction (auto intro: rt_evolves_trans fair_step [OF assms(2)])

lemma find_append_Some: "find P xs = Some x \<Longrightarrow> find P (xs @ ys) = Some x"
  by (induction xs) (auto split: if_splits)

lemma find_prefix: "prefix xs ys \<Longrightarrow> find P xs = Some x \<Longrightarrow> find P ys = Some x"
  by (auto simp: prefix_def find_append_Some)

lemma receipt_stays:
  assumes "rt_evolves pf db db'" "runtime_inv pf db" "get_command i db = Some row"
  shows "get_command i db' = Some row"
  using assms find_prefix by (auto simp: rt_evolves_def get_command_def)

text \<open>Commands of one type with equal payloads are answered with the same project.\<close>

lemma replay_id_payload:
  assumes "canon (py_num (command_payload pf c')) = canon (py_num (command_payload pf c))" "command_type c' = command_type c"
  shows "replay_id c' row = replay_id c row"
  using assms
  by (cases c; cases c')
    (simp_all add: completion_request_payload_def complete_payload_def cancel_payload_def archive_payload_def canon_JObj_inject)

lemma outcome_receipt:
  assumes "command_outcome pf sq uid cx env c db (Inr r, db')" "fair pf env" "runtime_inv pf db"
  obtains row where "get_command (command_id c) db' = Some row" "cm_organization_id row = cx_organization_id cx"
    "cm_actor_id row = cx_actor_id cx" "cm_type row = command_type c" "replay_id c row = pj_id (rs_project r)"
    "canon (py_num (cm_payload row)) = canon (py_num (command_payload pf c))"
proof -
  from assms(1) obtain db0 db1 where o: "env_reach env db db0" "env_reach env db0 db1"
    "if rs_replayed r then db' = db1 \<and> answered_from pf sq cx c db0 (rs_project r)
     else applied pf cx c db1 (rs_project r) db' \<and> pj_id (rs_project r) = command_project uid c" by auto
  have inv: "runtime_inv pf db0" using rt_evolves_inv [OF env_reach_evolves [OF o(1) assms(2)] assms(3)] .
  show thesis
  proof (cases "rs_replayed r")
    case True
    with o(3) obtain row where row: "get_command (command_id c) db0 = Some row" "same_command pf cx c row"
      "get_for_organization pf sq (replay_id c row) (cx_organization_id cx) (project_rows db0) = Inr (Some (rs_project r))" "db' = db1"
      by (auto simp: answered_from_def)
    from receipt_stays [OF env_reach_evolves [OF o(2) assms(2)] inv row(1)] get_project_Inr(3) [OF inv row(3)] row(2,4)
    show thesis by (intro that [of row]) (simp_all add: same_command_def)
  next
    case False
    with o(3) have a: "applied pf cx c db1 (rs_project r) db'" "pj_id (rs_project r) = command_project uid c" by simp_all
    from a(1) show thesis
    proof (rule appliedE)
      fix rows evs now recs w
      assume n: "get_command (command_id c) db1 = None"
      assume "db' = db1\<lparr>event_rows := event_rows db1 @ evs, command_rows := command_rows db1 @ [command_receipt pf cx c (rs_project r) now],
        project_rows := rows, completion_rows := recs, work_tables := w\<rparr>"
      then have "get_command (command_id c) db' = Some (command_receipt pf cx c (rs_project r) now)"
        using n by (simp add: get_command_def find_append_None find_None_iff)
      moreover have "replay_id c (command_receipt pf cx c (rs_project r) now) = pj_id (rs_project r)"
        using a(2) by (cases c) simp_all
      moreover have "cm_payload (command_receipt pf cx c (rs_project r) now) = command_payload pf c"
        by (simp add: command_receipt_def)
      ultimately show thesis
        by (intro that [of "command_receipt pf cx c (rs_project r) now"]) (simp_all, simp_all add: command_receipt_def)
    qed
  qed
qed

subsection \<open>An organization with one project\<close>

lemma authorized_when_allowed:
  assumes "runtime_inv pf db" "may_command cx c db" "cx_actor_id cx \<noteq> []" "cx_organization_id cx \<noteq> []"
  obtains d where "authorize_command uid cx c db = Inr d" "od_allowed d" "decided_for cx d"
proof -
  have inv: "org_inv db" using assms(1) by (simp add: runtime_inv_def)
  have n: "command_capability c \<noteq> []" by (cases c) simp_all
  have m: "cx_principal_id cx = cx_actor_id cx" "resource_organization cx c db = Some (cx_organization_id cx)"
    "active_member (cx_actor_id cx) (cx_organization_id cx) db" "holds_capability (cx_actor_id cx) (cx_organization_id cx) (command_capability c) db"
    using assms(2) by (simp_all add: may_command_def)
  then have "authorization_outcome (cx_principal_id cx) (cx_actor_id cx) (cx_organization_id cx) (command_capability c) (Some (command_resource uid c))
      (resource_organization cx c db) db = ''capability_granted''"
    unfolding outcome_granted [OF inv] by simp
  with authorize_outcome [OF inv _ assms(3,4) n, of "cx_principal_id cx" "Some (command_resource uid c)" "resource_organization cx c db"] assms(3) m
  obtain d where "authorize_command uid cx c db = Inr d" "od_allowed d" unfolding authorize_command_def by auto
  with authorize_command_facts [OF this(1) assms(1)] show thesis by (intro that [of d]) simp_all
qed

definition demo_head :: str where
  "demo_head = replicate 40 (CHR ''a'')"

definition demo_completion_evidence :: completion_evidence where
  "demo_completion_evidence = \<lparr>ce_onboarding_intent_id = ''i1'', ce_repository_commit_sha = demo_head, ce_delivery_certificate_id = demo_plan,
     ce_traceability_manifest_id = demo_plan, ce_integration_receipt_id = demo_plan\<rparr>"

definition demo_runtime :: "project \<Rightarrow> runtime_db" where
  "demo_runtime p = \<lparr>organizations = [],
     actors = [\<lparr>act_id = ''ada'', act_organization_id = ''o'', act_type = ''HUMAN'', act_identity = ''ada@o'', act_status = ''active''\<rparr>],
     role_rows = [\<lparr>rr_id = ''lead'', rr_organization_id = ''o'', rr_name = ''Lead'', rr_description = [],
       rr_capabilities = [''project.scope.activate'', ''project.complete'', ''project.cancel''], rr_status = ''active''\<rparr>],
     assignments = [\<lparr>ra_actor_id = ''ada'', ra_organization_id = ''o'', ra_role_definition_id = ''lead'', ra_status = ''active''\<rparr>],
     event_rows = [], command_rows = [], project_rows = [project_to_model project_platform p], completion_rows = [],
     work_tables = \<lparr>units = [], revisions = []\<rparr>,
     certificate_rows = [\<lparr>dc_certificate_id = demo_plan, dc_organization_id = ''o'', dc_candidate_id = ''k1'', dc_result = ''PASS'',
       dc_candidate_payload = [(''project_id'', JStr ''p1''), (''plan_request_fingerprint'', JStr demo_plan), (''candidate_id'', JStr ''k1''), (''intent_id'', JStr ''i1'')]\<rparr>],
     manifest_rows = [\<lparr>tm_manifest_id = demo_plan, tm_organization_id = ''o'', tm_certificate_id = demo_plan, tm_candidate_id = ''k1'',
       tm_plan_request_fingerprint = demo_plan, tm_status = ''COMPLETE''\<rparr>],
     receipt_rows = [\<lparr>ir_organization_id = ''o'', ir_receipt_id = demo_plan, ir_status = ''SUCCEEDED'',
       ir_payload = [(''suite_attestation'', JObj [(''status'', JStr ''passed'')]), (''integrated_candidate_ids'', JArr [JStr ''k1'']), (''integration_head_sha'', JStr demo_head)],
       ir_fingerprint = demo_plan\<rparr>]\<rparr>"

definition demo_lead :: org_context where
  "demo_lead = \<lparr>cx_principal_id = ''ada'', cx_actor_id = ''ada'', cx_organization_id = ''o''\<rparr>"

lemma demo_lead_sel [simp]: "cx_principal_id demo_lead = ''ada''" "cx_actor_id demo_lead = ''ada''" "cx_organization_id demo_lead = ''o''"
  by (simp_all add: demo_lead_def)

definition demo_sts :: "nat \<Rightarrow> nat \<Rightarrow> stamp" where
  "demo_sts k n = (replicate n (CHR ''e''), 0)"

lemma demo_runtime_sel [simp]:
  "event_rows (demo_runtime p) = []" "command_rows (demo_runtime p) = []" "project_rows (demo_runtime p) = [project_to_model project_platform p]"
  "work_tables (demo_runtime p) = \<lparr>units = [], revisions = []\<rparr>" "completion_rows (demo_runtime p) = []"
  by (simp_all add: demo_runtime_def)

lemma demo_runtime_inv:
  assumes "valid_project project_platform p" "valid_intent (pj_intent p)"
  shows "runtime_inv project_platform (demo_runtime p)"
proof -
  have c: "check_capability ''project.scope.activate'' = Inr ()" "check_capability ''project.complete'' = Inr ()" "check_capability ''project.cancel'' = Inr ()"
    by (simp_all add: check_capability_def strip_def is_space_def Let_def)
  then have "valid_role_row \<lparr>rr_id = ''lead'', rr_organization_id = ''o'', rr_name = ''Lead'', rr_description = [],
       rr_capabilities = [''project.scope.activate'', ''project.complete'', ''project.cancel''], rr_status = ''active''\<rparr>"
    by (simp add: valid_role_row_def role_from_row_def check_role_def)
  then have "org_inv (demo_runtime p)" by (simp add: org_inv_def demo_runtime_def ACTOR_TYPES_def check_assignment_Inr)
  moreover have "stored project_platform (project_to_model project_platform p)" using assms by (auto simp: stored_def)
  ultimately show ?thesis by (simp add: runtime_inv_def)
qed

lemma fair_alone [simp]: "fair pf (\<lambda>_. id)"
  by (simp add: fair_def)

lemma demo_in_session [simp]: "in_session ''o'' x = x"
  by (rule in_session_id) (simp_all add: trimmed_simps)

text \<open>Ada leads the organization: what the role lists she may do to its project.\<close>

lemma demo_may:
  assumes "pj_id p = ''p1''" "pj_organization_id p = ''o''"
    and "resource_organization demo_lead c (demo_runtime p) = get_organization_id ''p1'' (project_rows (demo_runtime p))"
    and "command_capability c \<in> {''project.scope.activate'', ''project.complete'', ''project.cancel''}"
  shows "may_command demo_lead c (demo_runtime p)"
proof -
  have "active_member ''ada'' ''o'' (demo_runtime p)" by (simp add: active_member_def demo_runtime_def)
  moreover have "holds_capability ''ada'' ''o'' (command_capability c) (demo_runtime p)" using assms(4) by (simp add: holds_capability_def demo_runtime_def)
  moreover have "get_organization_id ''p1'' (project_rows (demo_runtime p)) = Some ''o''" using assms(1,2) by (simp add: get_organization_id_def)
  ultimately show ?thesis using assms(3) by (simp add: may_command_def)
qed

lemma store_alone:
  assumes "od_allowed d" "event_rows db = []" "command_rows db = []" "project_rows db = [project_to_model pf p]" "same_identity q p" "ev_id ev \<noteq> fst (sts 0)"
  obtains evs where "store_changed pf sts cx c d now (pj_revision p) q [ev] db = Inr (\<lparr>rs_command_id = command_id c, rs_project = q, rs_replayed = False\<rparr>,
    db\<lparr>event_rows := evs, project_rows := [project_to_model pf q], command_rows := [command_receipt pf cx c q now]\<rparr>)"
proof -
  obtain audit where au: "create_authorization_audit_event pf (sts 0) d (command_id c) (command_type c) True ''project'' = Inr audit" "ev_id audit = fst (sts 0)"
    using assms(1) by (simp add: create_authorization_audit_event_def)
  have "\<exists>evs. append_events [audit, ev] db = Inr (db\<lparr>event_rows := evs\<rparr>)"
    using assms(2,6) au(2) by (simp add: append_event_def Let_def) blast
  then obtain evs where "append_events [audit, ev] db = Inr (db\<lparr>event_rows := evs\<rparr>)" by blast
  then show thesis
    using assms(3,4) update_alone [OF assms(5), of pf] au(1)
    by (intro that [of evs]) (simp add: store_changed_def add_command_Inr add_command_def get_command_def)
qed

lemma demo_project_reads:
  assumes "valid_project project_platform p" "valid_intent (pj_intent p)" "pj_id p = ''p1''" "pj_organization_id p = ''o''"
  shows "get_for_organization project_platform True ''p1'' ''o'' [project_to_model project_platform p] = Inr (Some (redate True p))"
  using assms by (intro get_to_model) (simp_all add: project_row_of_def)

lemma redate_keys [simp]:
  "pj_id (redate sq p) = pj_id p" "pj_organization_id (redate sq p) = pj_organization_id p" "pj_revision (redate sq p) = pj_revision p"
  "pj_status (redate sq p) = pj_status p" "active_plan_request_fingerprint (redate sq p) = active_plan_request_fingerprint p"
  "pj_intent (redate sq p) = pj_intent p"
  by (simp_all add: redate_def)

text \<open>She cancels the project.\<close>

definition demo_cancel :: project_command where
  "demo_cancel = CancelProjectCommand ''c9'' ''o'' ''p1'' 2 ''stop''"

definition demo_cancelled :: project where
  "demo_cancelled = cancelled ''ada'' ''c9'' ''stop'' (Aware 5) (redate True demo_active)"

definition demo_after :: "event_row list \<Rightarrow> runtime_db" where
  "demo_after evs = (demo_runtime demo_active)\<lparr>event_rows := evs, project_rows := [project_to_model project_platform demo_cancelled],
     command_rows := [command_receipt project_platform demo_lead demo_cancel demo_cancelled 5]\<rparr>"

lemma demo_cancelled_facts:
  "cancel_project project_platform 5 ''ada'' ''c9'' ''stop'' 2 (Some (Aware 5)) (redate True demo_active) = Inr demo_cancelled"
  "valid_project project_platform demo_cancelled" "pj_id demo_cancelled = ''p1''" "pj_organization_id demo_cancelled = ''o''"
  "valid_intent (pj_intent demo_cancelled)" "same_identity demo_cancelled (redate True demo_active)"
proof -
  have v: "valid_project project_platform (redate True demo_active)" by (simp add: demo_active_facts)
  have t: "trimmed_text 128 ''c9''" "trimmed_text 2000 ''stop''" by (simp_all add: trimmed_simps)
  show c: "cancel_project project_platform 5 ''ada'' ''c9'' ''stop'' 2 (Some (Aware 5)) (redate True demo_active) = Inr demo_cancelled"
    by (simp add: cancel_project_Inr [OF v] demo_active_facts t demo_texts demo_cancelled_def or_now_def)
  show "same_identity demo_cancelled (redate True demo_active)" by (simp add: demo_cancelled_def)
  then show "pj_id demo_cancelled = ''p1''" "pj_organization_id demo_cancelled = ''o''" "valid_intent (pj_intent demo_cancelled)"
    by (simp_all add: same_identity_def demo_active_facts)
  show "valid_project project_platform demo_cancelled"
    using project_step_facts(1) [OF step_cancel [OF c] v project_platform_digests] .
qed

lemma demo_cancel_run:
  obtains evs where "run_command project_platform True id True (\<lambda>_. 5) demo_sts demo_lead (\<lambda>_. id) (\<lambda>_. 0) (\<lambda>_. id) demo_cancel (demo_runtime demo_active)
    = (Inr \<lparr>rs_command_id = ''c9'', rs_project = demo_cancelled, rs_replayed = False\<rparr>, demo_after evs)"
proof -
  let ?db = "demo_runtime demo_active"
  note a = demo_active_facts and f = demo_cancelled_facts
  have may: "may_command demo_lead demo_cancel ?db" by (rule demo_may) (simp_all add: a demo_cancel_def)
  from authorized_when_allowed [OF demo_runtime_inv [OF a(1,7)] may, of id] obtain d where
    d: "authorize_command id demo_lead demo_cancel ?db = Inr d" "od_allowed d" by auto
  let ?ev = "project_event (demo_sts 0 1) ''PROJECT_CANCELLED'' demo_cancelled ''ada'' ''c9''
               [(''project_id'', JStr (pj_id demo_cancelled)), (''status'', JStr (project_status_value (pj_status demo_cancelled))),
                (''project_revision'', JInt (pj_revision demo_cancelled)), (''reason'', JStr ''stop'')]"
  have rows: "project_rows ?db = [project_to_model project_platform (redate True demo_active)]" by simp
  have id: "ev_id ?ev \<noteq> fst (demo_sts 0 0)" by (simp add: project_event_def demo_sts_def)
  from store_alone [OF d(2) demo_runtime_sel(1,2) rows f(6), of ?ev "demo_sts 0" demo_lead demo_cancel 5] id
  obtain evs where st: "store_changed project_platform (demo_sts 0) demo_lead demo_cancel d 5 2 demo_cancelled [?ev] ?db
    = Inr (\<lparr>rs_command_id = ''c9'', rs_project = demo_cancelled, rs_replayed = False\<rparr>, demo_after evs)"
    by (auto simp: a demo_after_def demo_cancel_def)
  have "command_transaction project_platform True id 5 (demo_sts 0) demo_lead id demo_cancel ?db
    = Inr (Inr (\<lparr>rs_command_id = ''c9'', rs_project = demo_cancelled, rs_replayed = False\<rparr>, demo_after evs))"
    using d st f(1) demo_project_reads [OF a(1,7,2,3)]
    by (simp add: command_transaction_def get_command_def demo_cancel_def cancel_fresh_def read_project_def a)
  then show thesis by (intro that [of evs]) (simp add: demo_cancel_def runtime_execute_def)
qed

lemma demo_cancel_again:
  assumes "runtime_inv project_platform (demo_after evs)"
  shows "run_command project_platform True id True (\<lambda>_. 6) demo_sts demo_lead (\<lambda>_. id) (\<lambda>_. 0) (\<lambda>_. id) demo_cancel (demo_after evs)
    = (Inr \<lparr>rs_command_id = ''c9'', rs_project = redate True demo_cancelled, rs_replayed = True\<rparr>, demo_after evs)"
proof -
  note f = demo_cancelled_facts
  have may: "may_command demo_lead demo_cancel (demo_after evs)"
    by (simp add: may_command_def demo_cancel_def get_organization_id_def demo_after_def f active_member_def holds_capability_def demo_runtime_def)
  from authorized_when_allowed [OF assms may, of id] obtain d where
    d: "authorize_command id demo_lead demo_cancel (demo_after evs) = Inr d" "od_allowed d" by auto
  have "get_command ''c9'' (demo_after evs) = Some (command_receipt project_platform demo_lead demo_cancel demo_cancelled 5)"
    by (simp add: get_command_def demo_after_def demo_cancel_def)
  moreover have "same_command project_platform demo_lead demo_cancel (command_receipt project_platform demo_lead demo_cancel demo_cancelled 5)"
    by (simp add: same_command_def command_receipt_def)
  moreover have "project_rows (demo_after evs) = [project_to_model project_platform demo_cancelled]" by (simp add: demo_after_def)
  ultimately show ?thesis
    using d demo_project_reads [OF f(2,5,3,4)] unfolding demo_cancel_def
    by (simp add: runtime_execute_def command_transaction_def replay_def read_project_def)
qed

text \<open>A new plan is activated.\<close>

definition demo_activate :: project_command where
  "demo_activate = ActivateProjectScopeCommand ''c9'' ''o'' ''p1'' demo_new_plan 2"

lemma demo_activate_run:
  obtains r db' where "run_command project_platform True id True (\<lambda>_. 5) demo_sts demo_lead (\<lambda>_. id) (\<lambda>_. 5) (\<lambda>_. id) demo_activate (demo_runtime demo_active) = (Inr r, db')"
    "\<not> rs_replayed r"
proof -
  let ?db = "demo_runtime demo_active"
  define q where "q = activated ''ada'' ''c9'' demo_new_plan (or_now 5 None) (redate True demo_active)"
  note a = demo_active_facts
  have v: "valid_project project_platform (redate True demo_active)" by (simp add: a)
  have si: "same_identity q (redate True demo_active)" by (simp add: q_def)
  have t: "trimmed_text 128 ''c9''" by (simp add: trimmed_simps)
  have q: "activate_scope project_platform 5 ''ada'' ''c9'' demo_new_plan 2 None (redate True demo_active) = Inr q"
    using demo_scope_args by (simp add: activate_scope_Inr [OF v] a t demo_texts q_def)
  have may: "may_command demo_lead demo_activate ?db" by (rule demo_may) (simp_all add: a demo_activate_def)
  from authorized_when_allowed [OF demo_runtime_inv [OF a(1,7)] may, of id] obtain d where
    d: "authorize_command id demo_lead demo_activate ?db = Inr d" "od_allowed d" by auto
  let ?ev = "project_event (demo_sts 0 1) ''PROJECT_SCOPE_ACTIVATED'' q ''ada'' ''c9''
               [(''contract_version'', JStr (pj_contract_version q)), (''project_id'', JStr (pj_id q)),
                (''plan_request_fingerprint'', jopt (active_plan_request_fingerprint q)),
                (''superseded_plan_request_fingerprint'', jopt (active_plan_request_fingerprint (redate True demo_active))),
                (''status'', JStr (project_status_value (pj_status q))), (''revision'', JInt (pj_revision q))]"
  have rows: "project_rows ?db = [project_to_model project_platform (redate True demo_active)]" by simp
  have id: "ev_id ?ev \<noteq> fst (demo_sts 0 0)" by (simp add: project_event_def demo_sts_def)
  from store_alone [OF d(2) demo_runtime_sel(1,2) rows si, of ?ev "demo_sts 0" demo_lead demo_activate 5] id
  obtain db1 where st: "store_changed project_platform (demo_sts 0) demo_lead demo_activate d 5 2 q [?ev] ?db
    = Inr (\<lparr>rs_command_id = ''c9'', rs_project = q, rs_replayed = False\<rparr>, db1)"
    by (auto simp: a demo_activate_def)
  have "command_transaction project_platform True id 5 (demo_sts 0) demo_lead id demo_activate ?db
    = Inr (Inr (\<lparr>rs_command_id = ''c9'', rs_project = q, rs_replayed = False\<rparr>, db1))"
    using d st q demo_project_reads [OF a(1,7,2,3)]
    by (simp add: command_transaction_def get_command_def demo_activate_def activate_fresh_def read_project_def a)
  then obtain db' where "activate_once project_platform True id 5 (demo_sts 0) demo_lead id 5 id demo_activate ?db
    = (Inr \<lparr>rs_command_id = ''c9'', rs_project = q, rs_replayed = False\<rparr>, db')"
    by (simp add: activate_once_def audited_once_def)
  then show thesis
    by (intro that [of "\<lparr>rs_command_id = ''c9'', rs_project = q, rs_replayed = False\<rparr>" db'])
      (simp_all add: demo_activate_def runtime_activate_def COMMAND_RETRY_LIMIT_def eval_nat_numeral)
qed

text \<open>The project is completed on its evidence.\<close>

definition demo_complete :: project_command where
  "demo_complete = CompleteProjectCommand ''c9'' ''o'' ''p1'' 3 demo_plan demo_completion_evidence"

definition demo_record :: completion_record where
  "demo_record = \<lparr>cr_organization_id = ''o'', cr_project_id = ''p1'', final_project_revision = 3, onboarding_intent_id = ''i1'',
     cr_plan_request_fingerprint = demo_plan, repository_commit_sha = sha256_hex project_platform demo_head, delivery_certificate_ids = [demo_plan],
     traceability_manifest_ids = [demo_plan], integration_evidence_ids = [demo_plan], cr_completed_by = ''ada'', cr_completed_at = Aware 5\<rparr>"

lemma demo_pending_facts:
  "valid_project project_platform demo_pending" "pj_id demo_pending = ''p1''" "pj_organization_id demo_pending = ''o''" "pj_revision demo_pending = 3"
  "pj_status demo_pending = PS_COMPLETION_PENDING" "active_plan_request_fingerprint demo_pending = Some demo_plan" "valid_intent (pj_intent demo_pending)"
  using project_history_valid [OF demo_histories(4)] demo_intent_valid demo_active_facts
  by (simp_all add: demo_pending_def) (simp_all add: completing_def demo_active_facts)

lemma demo_record_ok: "check_completion_record demo_record = Inr demo_record"
  using project_platform_digests [unfolded sha256_digests_def]
  by (simp add: check_completion_record_def demo_record_def demo_texts require_digest_tuple_def bind_res_Inr_iff)

lemma demo_evidence_verified: "verify_evidence project_platform (redate True demo_pending) demo_completion_evidence ''ada'' (Aware 5) (demo_runtime demo_pending) = Inr demo_record"
proof -
  let ?db = "demo_runtime demo_pending"
  have l: "lower_char (CHR ''P'') = CHR ''p''" "lower_char (CHR ''A'') = CHR ''a''" "lower_char (CHR ''S'') = CHR ''s''" "lower_char (CHR ''C'') = CHR ''c''" "lower_char (CHR ''O'') = CHR ''o''" "lower_char (CHR ''M'') = CHR ''m''" "lower_char (CHR ''L'') = CHR ''l''" "lower_char (CHR ''E'') = CHR ''e''" "lower_char (CHR ''T'') = CHR ''t''" "lower_char (CHR ''U'') = CHR ''u''" "lower_char (CHR ''D'') = CHR ''d''" "lower_char (CHR ''N'') = CHR ''n''"
    by code_simp+
  have s: "is_sha1 demo_head" by (simp add: is_sha1_def demo_head_def)
  have q: "require_quiescent_scope project_platform ''p1'' ''o'' demo_plan ?db = Inr ()"
    by (simp add: require_quiescent_scope_def list_for_organization_def)
  obtain cert where c: "require_delivery_certificate ''o'' ''p1'' demo_plan demo_plan ?db = Inr cert" "dc_certificate_id cert = demo_plan"
    "dc_candidate_id cert = ''k1''" "dict_get (dc_candidate_payload cert) ''intent_id'' = Some (JStr ''i1'')"
    by (simp add: require_delivery_certificate_def demo_runtime_def l)
  obtain man where m: "require_traceability_manifest ''o'' demo_plan demo_plan demo_plan ''k1'' ?db = Inr man" "tm_manifest_id man = demo_plan"
    by (simp add: require_traceability_manifest_def demo_runtime_def l)
  obtain rct where r: "require_integration_receipt ''o'' demo_plan ''k1'' ?db = Inr rct" "ir_receipt_id rct = demo_plan"
    "head_text (ir_payload rct) = Some demo_head"
    by (simp add: require_integration_receipt_def demo_runtime_def l get_or_empty_def dict_of_def set_of_def head_text_def)
  show ?thesis
    using demo_record_ok by (simp add: verify_evidence_def demo_pending_facts q c m r s demo_completion_evidence_def demo_record_def)
qed

lemma demo_complete_run:
  obtains r db' where "run_command project_platform True id True (\<lambda>_. 5) demo_sts demo_lead (\<lambda>_. id) (\<lambda>_. 5) (\<lambda>_. id) demo_complete (demo_runtime demo_pending) = (Inr r, db')"
    "\<not> rs_replayed r"
proof -
  let ?db = "demo_runtime demo_pending" and ?p = "redate True demo_pending"
  define q where "q = completed_with project_platform demo_record ?p"
  note a = demo_pending_facts
  have v: "valid_project project_platform ?p" by (simp add: a)
  have q: "complete_project project_platform demo_record 3 ?p = Inr q"
    by (simp add: complete_project_Inr [OF v project_platform_digests demo_record_ok] a q_def) (simp add: demo_record_def)
  have si: "same_identity q ?p" by (simp add: q_def)
  have may: "may_command demo_lead demo_complete ?db" by (rule demo_may) (simp_all add: a demo_complete_def)
  from authorized_when_allowed [OF demo_runtime_inv [OF a(1,7)] may, of id] obtain d where
    d: "authorize_command id demo_lead demo_complete ?db = Inr d" "od_allowed d" by auto
  obtain recs where ad: "add_completion project_platform True demo_record [] = Inr recs"
    by (simp add: add_completion_def completion_for_project_def)
  let ?ev = "project_event (demo_sts 0 1) ''PROJECT_COMPLETED'' q ''ada'' ''c9''
               [(''project_id'', JStr (pj_id q)), (''status'', JStr (project_status_value (pj_status q))),
                (''project_revision'', JInt (pj_revision q)), (''completion_record_id'', JStr (completion_record_id project_platform demo_record))]"
  have rows: "project_rows (?db\<lparr>completion_rows := recs\<rparr>) = [project_to_model project_platform ?p]" by simp
  have es: "event_rows (?db\<lparr>completion_rows := recs\<rparr>) = []" "command_rows (?db\<lparr>completion_rows := recs\<rparr>) = []" by simp_all
  have id: "ev_id ?ev \<noteq> fst (demo_sts 0 0)" by (simp add: project_event_def demo_sts_def)
  from store_alone [OF d(2) es rows si, of ?ev "demo_sts 0" demo_lead demo_complete 5] id
  obtain db' where st: "store_changed project_platform (demo_sts 0) demo_lead demo_complete d 5 3 q [?ev] (?db\<lparr>completion_rows := recs\<rparr>)
    = Inr (\<lparr>rs_command_id = ''c9'', rs_project = q, rs_replayed = False\<rparr>, db')"
    by (auto simp: a demo_complete_def)
  have "command_transaction project_platform True id 5 (demo_sts 0) demo_lead id demo_complete ?db
    = Inr (Inr (\<lparr>rs_command_id = ''c9'', rs_project = q, rs_replayed = False\<rparr>, db'))"
    using d st q ad demo_evidence_verified demo_project_reads [OF a(1,7,2,3)]
    by (simp add: command_transaction_def get_command_def demo_complete_def complete_fresh_def read_project_def a)
  then show thesis
    by (intro that [of "\<lparr>rs_command_id = ''c9'', rs_project = q, rs_replayed = False\<rparr>" db']) (simp_all add: demo_complete_def runtime_execute_def)
qed

lemma demo_active_inv: "runtime_inv project_platform (demo_runtime demo_active)"
  by (rule demo_runtime_inv) (simp_all add: demo_active_facts)

definition demo_archive :: project_command where
  "demo_archive = ArchiveProjectCommand ''c9'' ''o'' ''p1'' 2"

definition demo_launch :: project_command where
  "demo_launch = LaunchProjectCommand ''c9'' ''o'' ''p1'' demo_plan"

lemma refused_when_not_held:
  assumes "runtime_inv pf db" "\<not> holds_capability (cx_actor_id cx) (cx_organization_id cx) (command_capability c) db"
    and "cx_principal_id cx \<noteq> []" "cx_actor_id cx \<noteq> []" "cx_organization_id cx \<noteq> []" "resource_organization cx c db \<noteq> None"
  obtains d where "authorize_command uid cx c db = Inr d" "\<not> od_allowed d"
proof -
  have inv: "org_inv db" using assms(1) by (simp add: runtime_inv_def)
  have n: "command_capability c \<noteq> []" by (cases c) simp_all
  let ?code = "authorization_outcome (cx_principal_id cx) (cx_actor_id cx) (cx_organization_id cx) (command_capability c) (Some (command_resource uid c))
      (resource_organization cx c db) db"
  have "?code \<noteq> ''capability_granted''" unfolding outcome_granted [OF inv] using assms(2) by simp
  with authorize_outcome [OF inv assms(3-5) n, of "Some (command_resource uid c)" "resource_organization cx c db"] assms(6)
  show thesis by (auto simp: authorize_command_def intro: that)
qed

lemma demo_refused:
  obtains d where "authorize_command id demo_lead demo_archive (demo_runtime demo_active) = Inr d" "\<not> od_allowed d"
proof (rule refused_when_not_held [OF demo_active_inv, of demo_lead demo_archive id])
  show "\<not> holds_capability (cx_actor_id demo_lead) (cx_organization_id demo_lead) (command_capability demo_archive) (demo_runtime demo_active)"
    by (simp add: holds_capability_def demo_runtime_def demo_archive_def)
  show "resource_organization demo_lead demo_archive (demo_runtime demo_active) \<noteq> None" by (simp add: demo_archive_def get_organization_id_def demo_active_facts)
qed (use that in simp_all)

lemma demo_refused_launch:
  obtains d where "authorize_command id demo_lead demo_launch (demo_runtime demo_active) = Inr d" "\<not> od_allowed d"
proof (rule refused_when_not_held [OF demo_active_inv, of demo_lead demo_launch id])
  show "\<not> holds_capability (cx_actor_id demo_lead) (cx_organization_id demo_lead) (command_capability demo_launch) (demo_runtime demo_active)"
    by (simp add: holds_capability_def demo_runtime_def demo_launch_def)
  show "resource_organization demo_lead demo_launch (demo_runtime demo_active) \<noteq> None" by (simp add: demo_launch_def get_organization_id_def demo_active_facts)
qed (use that in simp_all)

subsection \<open>Properties\<close>

text \<open>
  C3 (functional).  Every run of a command, with its retries, ends in one of four ways.
  It fails and leaves what other clients committed; it is refused and leaves in addition
  one event of the refusal; it is answered from its receipt and changes nothing; or it is
  applied: the actor was an active member holding the capability of the command for a
  project of its own organization, exactly one project was created or took one legal step
  of its life cycle, and the events of the command and one receipt were appended.
\<close>

theorem command_outcomes:
  assumes "fair pf env" "sha256_digests pf" "intent_built c" "runtime_inv pf db"
  shows "command_outcome pf sq uid cx env c db (run_command pf sq uid ready now sts cx env wnow wenv c db)"
  using run_command_sound [OF assms] by simp

theorem command_outcomes_witness:
  "\<exists>r db'. run_command project_platform True id True (\<lambda>_. 5) demo_sts demo_lead (\<lambda>_. id) (\<lambda>_. 0) (\<lambda>_. id) demo_cancel (demo_runtime demo_active) = (Inr r, db')
     \<and> command_outcome project_platform True id demo_lead (\<lambda>_. id) demo_cancel (demo_runtime demo_active) (Inr r, db')"
proof -
  obtain evs where run: "run_command project_platform True id True (\<lambda>_. 5) demo_sts demo_lead (\<lambda>_. id) (\<lambda>_. 0) (\<lambda>_. id) demo_cancel (demo_runtime demo_active)
    = (Inr \<lparr>rs_command_id = ''c9'', rs_project = demo_cancelled, rs_replayed = False\<rparr>, demo_after evs)" by (rule demo_cancel_run)
  have "intent_built demo_cancel" by (simp add: demo_cancel_def)
  from command_outcomes [OF fair_alone project_platform_digests this demo_active_inv, of True id demo_lead True "\<lambda>_. 5" demo_sts "\<lambda>_. 0" "\<lambda>_. id"]
  show ?thesis unfolding run by blast
qed

text \<open>
  C8 (type).  In every run of commands, by any actors and however interleaved, the stored
  projects stay projects: every one can be read back and satisfies its contract, no row
  disappears, and each row is reached from the earlier one by legal steps of the life cycle
  alone, one revision per step.
\<close>

theorem commands_keep_projects:
  assumes "command_run pf db db'" "runtime_inv pf db" "sha256_digests pf"
  shows "runtime_inv pf db'
    \<and> (\<forall>r\<in>set (project_rows db). \<exists>n. \<exists>r'\<in>set (project_rows db'). row_path pf n r r' \<and> rw_id r' = rw_id r \<and> rw_revision r' = rw_revision r + int n)
    \<and> (\<forall>i org. \<exists>o'. get_for_organization pf sq i org (project_rows db') = Inr o' \<and> (\<forall>p. o' = Some p \<longrightarrow> valid_project pf p \<and> pj_id p = i \<and> pj_organization_id p = org))"
proof (intro conjI ballI allI)
  note ev = command_run_evolves [OF assms(1,3)]
  show inv: "runtime_inv pf db'" by (rule rt_evolves_inv [OF ev assms(2)])
  fix r
  assume "r \<in> set (project_rows db)"
  then obtain n r' where "r' \<in> set (project_rows db')" "row_path pf n r r'" using ev assms(2) by (auto simp: rt_evolves_def)
  then show "\<exists>n. \<exists>r'\<in>set (project_rows db'). row_path pf n r r' \<and> rw_id r' = rw_id r \<and> rw_revision r' = rw_revision r + int n"
    using row_path_facts [OF _ assms(3)] by blast
next
  fix i org
  have inv: "runtime_inv pf db'" by (rule rt_evolves_inv [OF command_run_evolves [OF assms(1,3)] assms(2)])
  show "\<exists>o'. get_for_organization pf sq i org (project_rows db') = Inr o' \<and> (\<forall>p. o' = Some p \<longrightarrow> valid_project pf p \<and> pj_id p = i \<and> pj_organization_id p = org)"
    using read_stored [OF inv, of i org sq] get_project_Inr [OF inv] by metis
qed

theorem commands_keep_projects_witness:
  "\<exists>evs. command_run project_platform (demo_runtime demo_active) (demo_after evs) \<and> runtime_inv project_platform (demo_after evs)"
proof -
  obtain evs where run: "run_command project_platform True id True (\<lambda>_. 5) demo_sts demo_lead (\<lambda>_. id) (\<lambda>_. 0) (\<lambda>_. id) demo_cancel (demo_runtime demo_active)
    = (Inr \<lparr>rs_command_id = ''c9'', rs_project = demo_cancelled, rs_replayed = False\<rparr>, demo_after evs)" by (rule demo_cancel_run)
  have "command_run project_platform (demo_runtime demo_active) (demo_after evs)"
    by (rule run_one [OF run_none _ _ run]) (simp_all add: run_none demo_cancel_def)
  with commands_keep_projects [OF this demo_active_inv project_platform_digests] show ?thesis by blast
qed

text \<open>
  C6 (safety).  A command identifier is applied at most once.  After a command succeeded,
  whatever runs in between, a command with the same identifier only succeeds by being
  answered from the receipt: for the same organization and actor, for the same type of
  command and the same payload (as Python compares two JSON values), without a change of
  its own, and with the same project.
\<close>

theorem command_applied_once:
  assumes "run_command pf sq uid ready now sts cx env wnow wenv c db = (Inr r, db1)" "fair pf env" "intent_built c"
    and "runtime_inv pf db" "sha256_digests pf" "command_run pf db1 db2"
    and "run_command pf sq' uid' ready' now' sts' cx' env' wnow' wenv' c' db2 = (Inr r', db3)" "fair pf env'" "intent_built c'"
    and "command_id c' = command_id c"
  shows "rs_replayed r' \<and> env_reach env' db2 db3 \<and> cx_organization_id cx' = cx_organization_id cx \<and> cx_actor_id cx' = cx_actor_id cx
    \<and> command_type c' = command_type c \<and> canon (py_num (command_payload pf c')) = canon (py_num (command_payload pf c))
    \<and> pj_id (rs_project r') = pj_id (rs_project r)"
proof -
  have s1: "command_outcome pf sq uid cx env c db (Inr r, db1)" "runtime_inv pf db1"
    using run_command_sound [OF assms(2,5,3,4), of sq uid cx ready now sts wnow wenv] rt_evolves_inv [OF _ assms(4)]
    unfolding assms(1) by auto
  from outcome_receipt [OF s1(1) assms(2,4)] obtain row where row: "get_command (command_id c) db1 = Some row"
    "cm_organization_id row = cx_organization_id cx" "cm_actor_id row = cx_actor_id cx" "cm_type row = command_type c"
    "replay_id c row = pj_id (rs_project r)" "canon (py_num (cm_payload row)) = canon (py_num (command_payload pf c))" .
  note ev2 = command_run_evolves [OF assms(6,5)]
  have inv2: "runtime_inv pf db2" by (rule rt_evolves_inv [OF ev2 s1(2)])
  have "command_outcome pf sq' uid' cx' env' c' db2 (Inr r', db3)"
    using run_command_sound [OF assms(8,5,9) inv2, of sq' uid' cx' ready' now' sts' wnow' wenv'] unfolding assms(7) by simp
  then obtain db0 dbe where o: "env_reach env' db2 db0" "env_reach env' db0 dbe"
    "if rs_replayed r' then db3 = dbe \<and> answered_from pf sq' cx' c' db0 (rs_project r')
     else applied pf cx' c' dbe (rs_project r') db3 \<and> pj_id (rs_project r') = command_project uid' c'" by auto
  note e0 = env_reach_evolves [OF o(1) assms(8)] and e1 = env_reach_evolves [OF o(2) assms(8)]
  note inv0 = rt_evolves_inv [OF e0 inv2]
  have g: "get_command (command_id c') db0 = Some row" "get_command (command_id c') dbe = Some row"
    using receipt_stays [OF e1 inv0] receipt_stays [OF e0 inv2 receipt_stays [OF ev2 s1(2) row(1)]] assms(10) by simp_all
  then have rep: "rs_replayed r'" using o(3) by (auto simp: applied_def split: if_splits)
  with o(3) g(1) have a: "same_command pf cx' c' row" "db3 = dbe"
    "get_for_organization pf sq' (replay_id c' row) (cx_organization_id cx') (project_rows db0) = Inr (Some (rs_project r'))"
    by (auto simp: answered_from_def)
  have "pj_id (rs_project r') = replay_id c' row" by (rule get_project_Inr(3) [OF inv0 a(3)])
  moreover have "canon (py_num (command_payload pf c')) = canon (py_num (command_payload pf c))" "command_type c' = command_type c"
    using a(1) row(4,6) by (simp_all add: same_command_def)
  moreover note replay_id_payload [OF this, of row]
  ultimately show ?thesis using rep a(1,2) row env_reach_trans [OF o(2,1)] by (auto simp: same_command_def)
qed

theorem command_applied_once_witness:
  "\<exists>r db1 r' db3. run_command project_platform True id True (\<lambda>_. 5) demo_sts demo_lead (\<lambda>_. id) (\<lambda>_. 0) (\<lambda>_. id) demo_cancel (demo_runtime demo_active) = (Inr r, db1)
     \<and> run_command project_platform True id True (\<lambda>_. 6) demo_sts demo_lead (\<lambda>_. id) (\<lambda>_. 0) (\<lambda>_. id) demo_cancel db1 = (Inr r', db3)
     \<and> rs_replayed r' \<and> pj_id (rs_project r') = pj_id (rs_project r)"
proof -
  obtain evs where run: "run_command project_platform True id True (\<lambda>_. 5) demo_sts demo_lead (\<lambda>_. id) (\<lambda>_. 0) (\<lambda>_. id) demo_cancel (demo_runtime demo_active)
    = (Inr \<lparr>rs_command_id = ''c9'', rs_project = demo_cancelled, rs_replayed = False\<rparr>, demo_after evs)" by (rule demo_cancel_run)
  have b: "intent_built demo_cancel" by (simp add: demo_cancel_def)
  have "runtime_inv project_platform (demo_after evs)"
    using run_command_sound [OF fair_alone project_platform_digests b demo_active_inv, of True id demo_lead True "\<lambda>_. 5" demo_sts "\<lambda>_. 0" "\<lambda>_. id"]
      rt_evolves_inv [OF _ demo_active_inv] unfolding run by simp
  note again = demo_cancel_again [OF this]
  from command_applied_once [OF run fair_alone b demo_active_inv project_platform_digests run_none again fair_alone b] run again
  show ?thesis by blast
qed

text \<open>What the stored evidence has to say before a project of plan \<open>plan\<close> is completed.\<close>

definition scope_quiet :: "platform \<Rightarrow> str \<Rightarrow> str \<Rightarrow> str \<Rightarrow> runtime_db \<Rightarrow> bool" where
  "scope_quiet pf org i plan db \<longleftrightarrow> (\<exists>ws. list_for_organization pf org (work_tables db) = Inr ws
     \<and> (\<forall>w\<in>set ws. work_unit_scope w = Inr (Some (i, plan)) \<longrightarrow> wu_state w \<in> {WU_APPROVED, WU_FAILED}))"

definition certifies :: "str \<Rightarrow> str \<Rightarrow> str \<Rightarrow> certificate_row \<Rightarrow> bool" where
  "certifies org i plan r \<longleftrightarrow> dc_organization_id r = org \<and> map lower_char (dc_result r) = ''pass''
     \<and> dict_get (dc_candidate_payload r) ''project_id'' = Some (JStr i)
     \<and> dict_get (dc_candidate_payload r) ''plan_request_fingerprint'' = Some (JStr plan)"

definition traces :: "str \<Rightarrow> str \<Rightarrow> certificate_row \<Rightarrow> manifest_row \<Rightarrow> bool" where
  "traces org plan cert r \<longleftrightarrow> tm_organization_id r = org \<and> map lower_char (tm_status r) = ''complete'' \<and> tm_plan_request_fingerprint r = plan
     \<and> tm_certificate_id r = dc_certificate_id cert \<and> tm_candidate_id r = dc_candidate_id cert"

definition integrates :: "str \<Rightarrow> certificate_row \<Rightarrow> receipt_row \<Rightarrow> bool" where
  "integrates org cert r \<longleftrightarrow> ir_organization_id r = org \<and> map lower_char (ir_status r) = ''succeeded''
     \<and> (\<exists>xs. set_of (get_or_empty (ir_payload r) ''integrated_candidate_ids'') = Inr xs \<and> JStr (dc_candidate_id cert) \<in> set xs)"

definition evidence_for :: "platform \<Rightarrow> str \<Rightarrow> str \<Rightarrow> str \<Rightarrow> completion_evidence \<Rightarrow> runtime_db \<Rightarrow> bool" where
  "evidence_for pf org i plan e db \<longleftrightarrow> scope_quiet pf org i plan db
     \<and> (\<exists>cert\<in>set (certificate_rows db). \<exists>man\<in>set (manifest_rows db). \<exists>rct\<in>set (receipt_rows db).
          dc_certificate_id cert = ce_delivery_certificate_id e \<and> tm_manifest_id man = ce_traceability_manifest_id e
        \<and> ir_receipt_id rct = ce_integration_receipt_id e \<and> certifies org i plan cert \<and> traces org plan cert man \<and> integrates org cert rct
        \<and> head_text (ir_payload rct) = Some (ce_repository_commit_sha e))"

lemma quiescent_units_Inr:
  "quiescent_units i plan ws = Inr () \<Longrightarrow> w \<in> set ws \<Longrightarrow> work_unit_scope w = Inr (Some (i, plan)) \<Longrightarrow> wu_state w \<in> {WU_APPROVED, WU_FAILED}"
  by (induction ws) (auto split: sum.splits if_splits)

lemma require_scope_Inr: "require_quiescent_scope pf i org plan db = Inr () \<Longrightarrow> scope_quiet pf org i plan db"
  using quiescent_units_Inr by (auto simp: require_quiescent_scope_def scope_quiet_def bind_res_Inr_iff)

lemma require_certificate_Inr:
  "require_delivery_certificate org i plan certificate db = Inr r \<Longrightarrow> r \<in> set (certificate_rows db) \<and> certifies org i plan r \<and> dc_certificate_id r = certificate"
  by (auto simp: require_delivery_certificate_def certifies_def find_Some_iff split: option.splits)

lemma require_manifest_Inr:
  "require_traceability_manifest org plan manifest (dc_certificate_id cert) (dc_candidate_id cert) db = Inr r \<Longrightarrow>
     r \<in> set (manifest_rows db) \<and> traces org plan cert r \<and> tm_manifest_id r = manifest"
  by (auto simp: require_traceability_manifest_def traces_def find_Some_iff split: option.splits)

lemma require_receipt_Inr:
  "require_integration_receipt org receipt (dc_candidate_id cert) db = Inr r \<Longrightarrow> r \<in> set (receipt_rows db) \<and> integrates org cert r \<and> ir_receipt_id r = receipt"
  by (auto simp: require_integration_receipt_def integrates_def find_Some_iff bind_res_Inr_iff split: option.splits)

lemma verify_evidence_Inr:
  assumes "verify_evidence pf p e a t db = Inr rec" "active_plan_request_fingerprint p = Some plan"
  shows "evidence_for pf (pj_organization_id p) (pj_id p) plan e db" "delivery_certificate_ids rec = [ce_delivery_certificate_id e]"
    "traceability_manifest_ids rec = [ce_traceability_manifest_id e]" "integration_evidence_ids rec = [ce_integration_receipt_id e]"
    "cr_completed_by rec = a" "cr_project_id rec = pj_id p" "final_project_revision rec = pj_revision p" "cr_plan_request_fingerprint rec = plan"
proof -
  from assms obtain cert man rct where f: "require_quiescent_scope pf (pj_id p) (pj_organization_id p) plan db = Inr ()"
    "require_delivery_certificate (pj_organization_id p) (pj_id p) plan (ce_delivery_certificate_id e) db = Inr cert"
    "require_traceability_manifest (pj_organization_id p) plan (ce_traceability_manifest_id e) (dc_certificate_id cert) (dc_candidate_id cert) db = Inr man"
    "require_integration_receipt (pj_organization_id p) (ce_integration_receipt_id e) (dc_candidate_id cert) db = Inr rct"
    "head_text (ir_payload rct) = Some (ce_repository_commit_sha e)"
    "rec = \<lparr>cr_organization_id = pj_organization_id p, cr_project_id = pj_id p, final_project_revision = pj_revision p,
        onboarding_intent_id = ce_onboarding_intent_id e, cr_plan_request_fingerprint = plan,
        repository_commit_sha = sha256_hex pf (ce_repository_commit_sha e), delivery_certificate_ids = [dc_certificate_id cert],
        traceability_manifest_ids = [tm_manifest_id man], integration_evidence_ids = [ir_receipt_id rct], cr_completed_by = a, cr_completed_at = t\<rparr>"
    unfolding verify_evidence_def by (auto simp: bind_res_Inr_iff check_completion_record_def)
  note c = require_certificate_Inr [OF f(2)] and m = require_manifest_Inr [OF f(3)] and r = require_receipt_Inr [OF f(4)]
  show "evidence_for pf (pj_organization_id p) (pj_id p) plan e db"
    unfolding evidence_for_def using require_scope_Inr [OF f(1)] c m r f(5) by blast
  show "delivery_certificate_ids rec = [ce_delivery_certificate_id e]" "traceability_manifest_ids rec = [ce_traceability_manifest_id e]"
    "integration_evidence_ids rec = [ce_integration_receipt_id e]" "cr_completed_by rec = a" "cr_project_id rec = pj_id p"
    "final_project_revision rec = pj_revision p" "cr_plan_request_fingerprint rec = plan"
    using c m r by (simp_all add: f(6))
qed

lemma add_completion_stores: "add_completion pf sq rec db = Inr db' \<Longrightarrow> \<exists>row\<in>set db'. cw_id row = completion_record_id pf rec"
  by (auto simp: add_completion_def bind_res_Inr_iff find_Some_iff split: option.splits)

lemma transaction_fresh:
  assumes "command_transaction pf sq uid now sts cx env c db = Inr (Inr (r, db'))" "\<not> rs_replayed r"
  obtains d where "authorize_command uid cx c db = Inr d" "od_allowed d" "fresh_command pf sq uid now sts cx d env c db = Inr (r, db')"
  using in_session_Inr [OF assms(1) [unfolded command_transaction_def]] assms(2) that
  by (auto simp: bind_res_Inr_iff replay_def split: if_splits option.splits)

text \<open>
  C4 (safety).  A project is only completed on evidence: when a completion command is
  applied, the work of the active plan is settled, and the tables hold a certificate that
  passes, a manifest that is complete and a receipt of the integrated candidate that
  succeeded, all of the same organization, project, plan and candidate.  The record of that
  evidence is stored, and the project, which is completed at the revision after the
  expected one, points to it.
\<close>

theorem completion_requires_evidence:
  assumes "run_command pf sq uid ready now sts cx env wnow wenv (CompleteProjectCommand i org t n plan e) db = (Inr r, db')"
    and "\<not> rs_replayed r" "fair pf env" "sha256_digests pf" "runtime_inv pf db"
  shows "evidence_for pf org t plan e db
    \<and> (\<exists>rec. delivery_certificate_ids rec = [ce_delivery_certificate_id e] \<and> traceability_manifest_ids rec = [ce_traceability_manifest_id e]
         \<and> integration_evidence_ids rec = [ce_integration_receipt_id e] \<and> cr_completed_by rec = cx_actor_id cx
         \<and> cr_project_id rec = t \<and> cr_plan_request_fingerprint rec = plan \<and> final_project_revision rec = n
         \<and> (\<exists>row\<in>set (completion_rows db'). cw_id row = completion_record_id pf rec)
         \<and> pj_completion_record_id (rs_project r) = Some (completion_record_id pf rec))
    \<and> pj_status (rs_project r) = PS_COMPLETED \<and> pj_revision (rs_project r) = n + 1 \<and> pj_id (rs_project r) = t"
proof -
  let ?c = "CompleteProjectCommand i org t n plan e"
  have org: "org = cx_organization_id cx" and tr: "command_transaction pf sq uid (now 0) (sts 0) cx (env 0) ?c db = Inr (Inr (r, db'))"
    using assms(1) by (auto simp: runtime_execute_def split: if_splits sum.splits)
  from tr assms(2) obtain d where d: "authorize_command uid cx ?c db = Inr d"
    "complete_fresh pf sq uid (now 0) (sts 0) cx d (env 0) i org t n plan e db = Inr (r, db')"
    by (rule transaction_fresh) simp
  note df = authorize_command_facts [OF d(1) assms(5)]
  note ev = fair_step(1) [OF assms(3), of db 0] and inv = fair_step(2) [OF assms(3,5), of 0]
  from d(2) show ?thesis
  proof (rule fresh_completed)
    fix p cur :: project and rec recs q es
    assume g: "get_for_organization pf sq t (cx_organization_id cx) (project_rows db) = Inr (Some p)" "pj_revision p = n"
      "active_plan_request_fingerprint p = Some plan" "verify_evidence pf p e (cx_actor_id cx) (Aware (now 0)) db = Inr rec"
      and c: "get_for_organization pf sq t (cx_organization_id cx) (project_rows (env 0 db)) = Inr (Some cur)" "pj_revision cur = n"
      "add_completion pf sq rec (completion_rows (env 0 db)) = Inr recs" "complete_project pf rec n cur = Inr q" "project_step pf cur q"
      "store_changed pf (sts 0) cx ?c d (now 0) n q es ((env 0 db)\<lparr>completion_rows := recs\<rparr>) = Inr (r, db')"
      "map ev_type es = [''PROJECT_COMPLETED'']" "pj_organization_id q = cx_organization_id cx \<Longrightarrow> \<forall>ev\<in>set es. written_by cx ?c ev"
    note gp = get_project_Inr [OF assms(5) g(1)] and gc = get_project_Inr [OF inv c(1)]
    note v = verify_evidence_Inr [OF g(4,3)]
    have sc: "store_changed pf (sts 0) cx ?c d (now 0) (pj_revision cur) q es ((env 0 db)\<lparr>completion_rows := recs\<rparr>) = Inr (r, db')"
      using c(2,6) by simp
    have ty: "map ev_type es = command_events ?c" using c(7) by simp
    from changed_applied [OF _ c(5) sc inv rt_evolves_completion assms(4) conjunct1 [OF df] ty c(8)] c(1)
    have a: "completion_rows db' = recs" "rs_project r = q" "pj_id q = t" by auto
    have "q = completed_with pf rec cur" using c(4) unfolding complete_project_Inr [OF gc(1) assms(4) verify_evidence_checks [OF g(4)]] by simp
    moreover have "\<exists>row\<in>set (completion_rows db'). cw_id row = completion_record_id pf rec" using add_completion_stores [OF c(3)] a(1) by simp
    moreover have "pj_completion_record_id (completed_with pf rec cur) = Some (completion_record_id pf rec)" by (simp add: completed_with_def)
    ultimately show ?thesis using v gp g(2) c(2) a by (auto simp: org)
  qed
qed

theorem completion_requires_evidence_witness:
  "\<exists>r db'. run_command project_platform True id True (\<lambda>_. 5) demo_sts demo_lead (\<lambda>_. id) (\<lambda>_. 5) (\<lambda>_. id) demo_complete (demo_runtime demo_pending) = (Inr r, db')
     \<and> pj_status (rs_project r) = PS_COMPLETED \<and> evidence_for project_platform ''o'' ''p1'' demo_plan demo_completion_evidence (demo_runtime demo_pending)"
proof -
  obtain r db' where run: "run_command project_platform True id True (\<lambda>_. 5) demo_sts demo_lead (\<lambda>_. id) (\<lambda>_. 5) (\<lambda>_. id) demo_complete (demo_runtime demo_pending) = (Inr r, db')"
    and fresh: "\<not> rs_replayed r" by (rule demo_complete_run)
  have "runtime_inv project_platform (demo_runtime demo_pending)" by (rule demo_runtime_inv) (simp_all add: demo_pending_facts)
  from completion_requires_evidence [OF run [unfolded demo_complete_def] fresh fair_alone project_platform_digests this] run show ?thesis by blast
qed

lemma retry_success:
  "retry_command retryable once k n db = (Inr r, db') \<Longrightarrow> \<exists>k d x. once k d = (Inr r, x)"
  by (induction n arbitrary: k db) (fastforce split: prod.splits sum.splits if_splits)+

lemma activate_fields: "activate_scope pf now a c plan n ts p = Inr q \<Longrightarrow> pj_status q = PS_ACTIVE \<and> active_plan_request_fingerprint q = Some plan"
  by (auto simp: activate_scope_def bind_res_Inr_iff check_project_Inr)

lemma activation_result:
  assumes "run_command pf sq uid ready now sts cx env wnow wenv (ActivateProjectScopeCommand i org t plan n) db = (Inr r, db')" "\<not> rs_replayed r"
  shows "org = cx_organization_id cx" "pj_status (rs_project r) = PS_ACTIVE" "active_plan_request_fingerprint (rs_project r) = Some plan"
proof -
  let ?c = "ActivateProjectScopeCommand i org t plan n"
  from assms(1) show "org = cx_organization_id cx"
    by (auto simp: runtime_activate_def organization_mismatch_def record_denial_def authority_deny_def split: if_splits sum.splits prod.splits)
  have "\<exists>x. retry_command (\<lambda>e _. e \<in> {IntegrityError, RepositoryError}) (\<lambda>n. activate_once pf sq uid (now n) (sts n) cx (env n) (wnow n) (wenv n) ?c)
      0 COMMAND_RETRY_LIMIT db = (Inr r, x)"
    using assms(1)
    by (auto simp: runtime_activate_def organization_mismatch_def record_denial_def authority_deny_def split: if_splits sum.splits prod.splits)
  then obtain y where y: "retry_command (\<lambda>e _. e \<in> {IntegrityError, RepositoryError})
      (\<lambda>n. activate_once pf sq uid (now n) (sts n) cx (env n) (wnow n) (wenv n) ?c) 0 COMMAND_RETRY_LIMIT db = (Inr r, y)" by blast
  from retry_success [OF this] obtain x k d where "activate_once pf sq uid (now k) (sts k) cx (env k) (wnow k) (wenv k) ?c d = (Inr r, x)" by blast
  then obtain x where "command_transaction pf sq uid (now k) (sts k) cx (env k) ?c d = Inr (Inr (r, x))"
    by (auto simp: activate_once_def audited_once_def record_denial_def authority_deny_def split: sum.splits prod.splits)
  from this assms(2) obtain d' where "activate_fresh pf sq uid (now k) (sts k) cx d' (env k) i org t plan n d = Inr (r, x)"
    by (rule transaction_fresh) simp
  then obtain p q where "activate_scope pf (now k) (cx_actor_id cx) i plan n None p = Inr q" "rs_project r = q"
    by (auto simp: activate_fresh_def bind_res_Inr_iff store_changed_def)
  then show "pj_status (rs_project r) = PS_ACTIVE" "active_plan_request_fingerprint (rs_project r) = Some plan"
    using activate_fields by auto
qed

text \<open>
  C5 (safety).  When the activation of a plan is applied, the work of every other plan of
  the project is cut off: over the tables it leaves, a service of the project is current
  exactly when it carries the new plan, and any other service claims nothing and recovers
  nothing.
\<close>

theorem activation_fences_old_work:
  assumes "run_command pf sq uid ready now sts cx env wnow wenv (ActivateProjectScopeCommand i org t plan n) db = (Inr r, db')" "\<not> rs_replayed r"
    and "fair pf env" "sha256_digests pf" "runtime_inv pf db" "sc_project sc = t" "ws_org (sc_base sc) = org" "\<not> blank wk"
  shows "(scope_is_current (database_scope_validator pf sq (project_rows db')) sc \<longleftrightarrow> sc_plan sc = plan)
    \<and> (sc_plan sc \<noteq> plan \<longrightarrow>
         scoped_claim_next_ready pf sc (\<lambda>_. database_scope_validator pf sq (project_rows db')) wk caps clock uuids wenv' w = (Inr None, w)
       \<and> scoped_recover_next_expired pf sc (database_scope_validator pf sq (project_rows db')) wk caps rclock uuids wenv' w = (Inr None, w))"
proof -
  let ?c = "ActivateProjectScopeCommand i org t plan n"
  note f = activation_result [OF assms(1,2)]
  have "intent_built ?c" by simp
  from run_command_sound [OF assms(3,4) this assms(5), of sq uid cx ready now sts wnow wenv]
  obtain db0 db1 where e: "env_reach env db db0" "env_reach env db0 db1" and ap: "applied pf cx ?c db1 (rs_project r) db'" "pj_id (rs_project r) = t"
    and inv: "runtime_inv pf db'"
    unfolding assms(1) using assms(2) rt_evolves_inv [OF _ assms(5)] by auto
  have rt: "rt_evolves pf db db1" by (rule env_reach_evolves [OF env_reach_trans [OF e(2,1)] assms(3)])
  have inv1: "runtime_inv pf db1" by (rule rt_evolves_inv [OF rt assms(5)])
  have mem: "project_to_model pf (rs_project r) \<in> set (project_rows db')" "pj_organization_id (rs_project r) = org"
    using applied_stored [OF ap(1) inv1 assms(4)] f(1) by simp_all
  have "\<exists>p. get_for_organization pf sq t org (project_rows db') = Inr (Some p) \<and> project_to_model pf p = project_to_model pf (rs_project r)"
  proof (rule read_stored [OF inv, of t org sq])
    assume "project_row_of t org (project_rows db') = None"
    then have "\<forall>r\<in>set (project_rows db'). \<not> (rw_id r = t \<and> rw_organization_id r = org)" by (simp add: project_row_of_def find_None_iff)
    from bspec [OF this mem(1)] show ?thesis using mem(2) ap(2) by simp
  next
    fix p
    assume p: "get_for_organization pf sq t org (project_rows db') = Inr (Some p)" "pj_id p = t" "project_to_model pf p \<in> set (project_rows db')"
    have "distinct (map rw_id (project_rows db'))" using inv by (simp add: runtime_inv_def)
    then have "project_to_model pf p = project_to_model pf (rs_project r)"
      using p(2,3) mem(1) ap(2) by (auto simp: distinct_map inj_on_def)
    then show ?thesis using p(1) by blast
  qed
  then obtain p where p: "get_for_organization pf sq t org (project_rows db') = Inr (Some p)" "project_to_model pf p = project_to_model pf (rs_project r)" by blast
  have "project_status_value (pj_status p) = project_status_value PS_ACTIVE" "active_plan_request_fingerprint p = Some plan"
    using arg_cong [OF p(2), of rw_status] arg_cong [OF p(2), of rw_active_plan_request_fingerprint] f(2,3) by (simp_all add: project_to_model_def)
  moreover from this(1) have "pj_status p = PS_ACTIVE" by (cases "pj_status p") simp_all
  ultimately have "scope_is_current (database_scope_validator pf sq (project_rows db')) sc \<longleftrightarrow> sc_plan sc = plan"
    unfolding scope_is_current_database assms(6,7) using p(1) by auto
  then show ?thesis using stale_claims_nothing [OF _ assms(8)] by simp
qed

theorem activation_fences_old_work_witness:
  "\<exists>r db'. run_command project_platform True id True (\<lambda>_. 5) demo_sts demo_lead (\<lambda>_. id) (\<lambda>_. 5) (\<lambda>_. id) demo_activate (demo_runtime demo_active) = (Inr r, db')
     \<and> scoped_claim_next_ready project_platform demo_scope (\<lambda>_. database_scope_validator project_platform True (project_rows db')) ''w'' [demo_capability]
         (\<lambda>_ _. 1) (\<lambda>_ _. ''l'') (\<lambda>_ _. id) \<lparr>units = [demo_bound_row], revisions = []\<rparr> = (Inr None, \<lparr>units = [demo_bound_row], revisions = []\<rparr>)"
proof -
  obtain r db' where run: "run_command project_platform True id True (\<lambda>_. 5) demo_sts demo_lead (\<lambda>_. id) (\<lambda>_. 5) (\<lambda>_. id) demo_activate (demo_runtime demo_active) = (Inr r, db')"
    and fresh: "\<not> rs_replayed r" by (rule demo_activate_run)
  have nb: "\<not> blank ''w''" by (simp add: blank_iff is_space_def Let_def)
  have k: "sc_project demo_scope = ''p1''" "ws_org (sc_base demo_scope) = ''o''" "sc_plan demo_scope \<noteq> demo_new_plan"
    using demo_scope_args(4) by (simp_all add: demo_scope_def demo_service_def)
  from activation_fences_old_work [OF run [unfolded demo_activate_def] fresh fair_alone project_platform_digests demo_active_inv k(1,2) nb] k(3) run
  show ?thesis by blast
qed

text \<open>
  Property (error).  A refused command leaves one event of the refusal when it creates or launches
  a project or activates a plan.  The other commands, completion, cancellation, archival and
  continuation, are refused without a trace.
\<close>

theorem refusals_logged_by_type:
  assumes "ready" "command_organization c = cx_organization_id cx" "authorize_command uid cx c db = Inr d" "\<not> od_allowed d" "runtime_inv pf db"
    and "\<not> blank (cx_organization_id cx)" "length (strip (cx_organization_id cx)) \<le> 128" "fst (sts 0 0) \<notin> ev_id ` set (event_rows (env 0 db))"
    and "rt_evolves pf db (env 0 db)"
  shows "\<exists>db'. run_command pf sq uid ready now sts cx env wnow wenv c db = (Inl CommandAuthorizationError, db')
    \<and> (if is_CreateProjectCommand c \<or> is_LaunchProjectCommand c \<or> is_ActivateProjectScopeCommand c then denied cx c (env 0 db) db' else db' = env 0 db)"
proof -
  note ses = in_session_id [OF assms(6,7)]
  have t: "command_transaction pf sq uid (now 0) (sts 0) cx (env 0) c db = Inr (Inl d)"
    using assms(3,4) by (simp add: command_transaction_def ses)
  note df = conjunct1 [OF authorize_command_facts [OF assms(3,5)]]
  have "\<exists>db'. authority_deny pf (sts 0 0) d (command_id c) (command_type c) ''project'' (env 0 db) = (Inl CommandAuthorizationError :: command_result result, db') \<and> denied cx c (env 0 db) db'"
  proof -
    obtain ev where ev: "create_authorization_audit_event pf (sts 0 0) d (command_id c) (command_type c) False ''project'' = Inr ev" "ev_id ev = fst (sts 0 0)"
      using assms(4) by (simp add: create_authorization_audit_event_def)
    have "\<not> (\<exists>x\<in>set (event_rows (env 0 db)). ev_id x = ev_id ev)" using assms(8) ev(2) by (metis image_eqI)
    then obtain db' where db': "append_event ev (env 0 db) = Inr db'" by (simp add: append_event_def Let_def)
    have "authority_deny pf (sts 0 0) d (command_id c) (command_type c) ''project'' (env 0 db) = (Inl CommandAuthorizationError :: command_result result, db')"
      using ev(1) db' df by (simp add: authority_deny_def transaction_def decided_for_def ses)
    moreover have "gap_free (event_rows (env 0 db))" using rt_evolves_inv [OF assms(9,5)] by (simp add: runtime_inv_def org_inv_def)
    from append_event_eq [OF db' this] obtain m where "db' = (env 0 db)\<lparr>event_rows := event_rows (env 0 db) @ [ev\<lparr>ev_sequence := m\<rparr>]\<rparr>" by blast
    then have "denied cx c (env 0 db) db'"
      unfolding denied_def using audit_event_sel [OF ev(1)] df
      by (intro exI [of _ "ev\<lparr>ev_sequence := m\<rparr>"]) (simp add: written_by_def decided_for_def)
    ultimately show ?thesis by blast
  qed
  then show ?thesis
    using t assms(1,2)
    by (cases c) (auto simp: runtime_create_project_def runtime_launch_project_def runtime_activate_def runtime_execute_def project_once_def
        audited_once_def activate_once_def record_denial_def COMMAND_RETRY_LIMIT_def eval_nat_numeral)
qed

theorem refusals_logged_by_type_witness:
  "\<exists>db'. run_command project_platform True id True (\<lambda>_. 5) demo_sts demo_lead (\<lambda>_. id) (\<lambda>_. 5) (\<lambda>_. id) demo_archive (demo_runtime demo_active)
      = (Inl CommandAuthorizationError, demo_runtime demo_active)
     \<and> run_command project_platform True id True (\<lambda>_. 5) demo_sts demo_lead (\<lambda>_. id) (\<lambda>_. 5) (\<lambda>_. id) demo_launch (demo_runtime demo_active)
      = (Inl CommandAuthorizationError, db')
     \<and> denied demo_lead demo_launch (demo_runtime demo_active) db'"
proof -
  note inv = demo_active_inv
  have o: "\<not> blank (cx_organization_id demo_lead)" "length (strip (cx_organization_id demo_lead)) \<le> 128" by (simp_all add: trimmed_simps)
  obtain d1 where d1: "authorize_command id demo_lead demo_archive (demo_runtime demo_active) = Inr d1" "\<not> od_allowed d1" by (rule demo_refused)
  obtain d2 where d2: "authorize_command id demo_lead demo_launch (demo_runtime demo_active) = Inr d2" "\<not> od_allowed d2" by (rule demo_refused_launch)
  from refusals_logged_by_type [of True demo_archive demo_lead, OF _ _ d1 inv o, of demo_sts "\<lambda>_. id" True "\<lambda>_. 5" "\<lambda>_. 5" "\<lambda>_. id"]
    refusals_logged_by_type [of True demo_launch demo_lead, OF _ _ d2 inv o, of demo_sts "\<lambda>_. id" True "\<lambda>_. 5" "\<lambda>_. 5" "\<lambda>_. id"]
  show ?thesis by (simp add: demo_archive_def demo_launch_def)
qed

end
