(* ===== verification/Fenced_Effects.thy ===== *)
theory Fenced_Effects
  imports Py_Platform
begin

section \<open>Terminal side effects: one run per key, and the receipt that is replayed\<close>

text \<open>
  \<open>services/side_effects.py\<close> runs a deployment, an image push or a pull request once per
  idempotency key: a store hands out a fencing token for the key, the operation runs, and its
  receipt is stored and replayed from then on.  There are two stores, the dictionary of
  \<open>InMemorySideEffectStore\<close> and the table of \<open>SQLAlchemySideEffectStore\<close>
  (\<open>infrastructure/persistence/side_effect_store.py\<close>), whose claims carry a lease.

  The interface of a store is a record of its three methods.  A call takes the reading of the
  clock and the token that \<open>secrets.token_hex\<close> returned, neither of which is assumed to be
  fresh or monotone.  The key is the triple of organization, action and idempotency key; the
  row level security context of the session is not modelled.  Instants are UTC microseconds.
\<close>

type_synonym jobj = "(str \<times> json) list"

datatype 'r claim = Owned str | Replayed 'r

record ('k, 's, 'r) claim_store =
  store_claim :: "time \<Rightarrow> str \<Rightarrow> 's \<Rightarrow> 'k \<Rightarrow> str \<Rightarrow> 's \<times> 'r claim result"
  store_complete :: "time \<Rightarrow> 's \<Rightarrow> 'k \<Rightarrow> str \<Rightarrow> str \<Rightarrow> 'r \<Rightarrow> 's \<times> unit result"
  store_fail :: "time \<Rightarrow> 's \<Rightarrow> 'k \<Rightarrow> str \<Rightarrow> str \<Rightarrow> exn \<Rightarrow> 's \<times> unit result"

subsection \<open>The store in memory\<close>

type_synonym effect_key = "str \<times> str \<times> str"

record effect_row =
  er_fingerprint :: str
  er_status :: str
  er_fencing_token :: str
  er_result :: "jobj option"       \<comment> \<open>\<open>None\<close>: the row has no such key yet\<close>

type_synonym effect_rows = "(effect_key, effect_row) dict"

definition effect_claim :: "time \<Rightarrow> str \<Rightarrow> effect_rows \<Rightarrow> effect_key \<Rightarrow> str \<Rightarrow> effect_rows \<times> jobj claim result" where
  "effect_claim now token rows key request_fingerprint =
     (case dict_get rows key of
        Some row \<Rightarrow>
          (rows,
           if er_fingerprint row \<noteq> request_fingerprint then Inl SideEffectConflictError
           else if er_status row = ''completed''
             then (case er_result row of Some r \<Rightarrow> Inr (Replayed r) | None \<Rightarrow> Inl KeyError)
           else Inl SideEffectInProgressError)
      | None \<Rightarrow>
          (dict_set key
             \<lparr>er_fingerprint = request_fingerprint, er_status = ''in_progress'',
              er_fencing_token = token, er_result = None\<rparr> rows,
           Inr (Owned token)))"

definition effect_owned :: "effect_rows \<Rightarrow> effect_key \<Rightarrow> str \<Rightarrow> str \<Rightarrow> effect_row result" where
  "effect_owned rows key request_fingerprint token =
     (case dict_get rows key of
        None \<Rightarrow> Inl SideEffectInProgressError
      | Some row \<Rightarrow>
          if er_fingerprint row \<noteq> request_fingerprint \<or> er_fencing_token row \<noteq> token
             \<or> er_status row \<noteq> ''in_progress''
          then Inl SideEffectInProgressError else Inr row)"

definition effect_complete :: "time \<Rightarrow> effect_rows \<Rightarrow> effect_key \<Rightarrow> str \<Rightarrow> str \<Rightarrow> jobj \<Rightarrow> effect_rows \<times> unit result" where
  "effect_complete now rows key request_fingerprint token r =
     (case effect_owned rows key request_fingerprint token of
        Inl e \<Rightarrow> (rows, Inl e)
      | Inr row \<Rightarrow> (dict_set key (row\<lparr>er_status := ''completed'', er_result := Some r\<rparr>) rows, Inr ()))"

definition effect_fail :: "time \<Rightarrow> effect_rows \<Rightarrow> effect_key \<Rightarrow> str \<Rightarrow> str \<Rightarrow> exn \<Rightarrow> effect_rows \<times> unit result" where
  "effect_fail now rows key request_fingerprint token failure_class =
     (case effect_owned rows key request_fingerprint token of
        Inl e \<Rightarrow> (rows, Inl e)
      | Inr _ \<Rightarrow> (AList.delete key rows, Inr ()))"

definition in_memory_side_effect_store :: "(effect_key, effect_rows, jobj) claim_store" where
  "in_memory_side_effect_store =
     \<lparr>store_claim = effect_claim, store_complete = effect_complete, store_fail = effect_fail\<rparr>"

subsection \<open>The table\<close>

text \<open>
  One row per primary key (organization, action, idempotency key).  A failure class is kept
  as the exception; the column holds the name of its class.
\<close>

record terminal_side_effect =
  te_request_fingerprint :: str
  te_status :: str
  te_fencing_token :: str
  te_lease_expires_at :: time
  te_result :: "jobj option"
  te_failure_class :: "exn option"
  te_created_at :: time
  te_updated_at :: time

type_synonym effect_table = "(effect_key, terminal_side_effect) dict"

text \<open>\<open>now + timedelta(seconds=self._lease_seconds)\<close>\<close>

definition lease_end :: "int \<Rightarrow> time \<Rightarrow> time result" where
  "lease_end lease_seconds now =
     raise_if (\<not> datetime_range (now + seconds lease_seconds)) OverflowError (Inr (now + seconds lease_seconds))"

text \<open>
  A claim is up to three statements: the \<open>INSERT\<close> in a transaction of its own, and after an
  \<open>IntegrityError\<close> a \<open>SELECT\<close> and an \<open>UPDATE\<close> that compares the token only.  \<open>e1\<close> and \<open>e2\<close>
  stand for what other workers commit between them.
\<close>

definition sql_effect_insert :: "time \<Rightarrow> time \<Rightarrow> str \<Rightarrow> effect_table \<Rightarrow> effect_key \<Rightarrow> str \<Rightarrow> effect_table result" where
  "sql_effect_insert now until token rows key request_fingerprint =
     (case dict_get rows key of
        Some _ \<Rightarrow> Inl IntegrityError
      | None \<Rightarrow>
          Inr (dict_set key
            \<lparr>te_request_fingerprint = request_fingerprint, te_status = ''in_progress'',
             te_fencing_token = token, te_lease_expires_at = until, te_result = None,
             te_failure_class = None, te_created_at = now, te_updated_at = now\<rparr> rows))"

text \<open>The receipt to replay, or the token of a row that may be recovered.\<close>

definition sql_effect_select :: "time \<Rightarrow> effect_table \<Rightarrow> effect_key \<Rightarrow> str \<Rightarrow> (jobj + str) result" where
  "sql_effect_select now rows key request_fingerprint =
     (case dict_get rows key of
        None \<Rightarrow> Inl AssertionError
      | Some row \<Rightarrow>
          if te_request_fingerprint row \<noteq> request_fingerprint then Inl SideEffectConflictError
          else if te_status row = ''completed''
            then Inr (Inl (case te_result row of None \<Rightarrow> [] | Some r \<Rightarrow> r))
          else if te_status row = ''in_progress'' \<and> te_lease_expires_at row > now
            then Inl SideEffectInProgressError
          else Inr (Inr (te_fencing_token row)))"

definition sql_effect_recover :: "time \<Rightarrow> time \<Rightarrow> str \<Rightarrow> effect_table \<Rightarrow> effect_key \<Rightarrow> str \<Rightarrow> effect_table \<times> jobj claim result" where
  "sql_effect_recover now until token rows key old_token =
     (case dict_get rows key of
        Some row \<Rightarrow>
          if te_fencing_token row = old_token
          then (dict_set key
                  (row\<lparr>te_status := ''in_progress'', te_fencing_token := token,
                       te_lease_expires_at := until, te_failure_class := None,
                       te_updated_at := now\<rparr>) rows,
                Inr (Owned token))
          else (rows, Inl SideEffectInProgressError)
      | None \<Rightarrow> (rows, Inl SideEffectInProgressError))"

definition sql_effect_claim ::
    "int \<Rightarrow> (effect_table \<Rightarrow> effect_table) \<Rightarrow> (effect_table \<Rightarrow> effect_table) \<Rightarrow> time \<Rightarrow> str \<Rightarrow> effect_table
     \<Rightarrow> effect_key \<Rightarrow> str \<Rightarrow> effect_table \<times> jobj claim result" where
  "sql_effect_claim lease_seconds e1 e2 now token rows key request_fingerprint =
     (case lease_end lease_seconds now of
        Inl e \<Rightarrow> (rows, Inl e)
      | Inr until \<Rightarrow>
          (case sql_effect_insert now until token rows key request_fingerprint of
             Inr rows' \<Rightarrow> (rows', Inr (Owned token))
           | Inl _ \<Rightarrow>
               (case sql_effect_select now (e1 rows) key request_fingerprint of
                  Inl e \<Rightarrow> (e1 rows, Inl e)
                | Inr (Inl r) \<Rightarrow> (e1 rows, Inr (Replayed r))
                | Inr (Inr old_token) \<Rightarrow>
                    sql_effect_recover now until token (e2 (e1 rows)) key old_token)))"

definition sql_effect_finish ::
    "time \<Rightarrow> effect_table \<Rightarrow> effect_key \<Rightarrow> str \<Rightarrow> str \<Rightarrow> str \<Rightarrow> jobj option \<Rightarrow> exn option
     \<Rightarrow> effect_table \<times> unit result" where
  "sql_effect_finish now rows key request_fingerprint token status r failure_class =
     (case dict_get rows key of
        Some row \<Rightarrow>
          if te_request_fingerprint row = request_fingerprint \<and> te_fencing_token row = token
             \<and> te_status row = ''in_progress''
          then (dict_set key
                  (row\<lparr>te_status := status, te_result := r, te_failure_class := failure_class,
                       te_lease_expires_at := now, te_updated_at := now\<rparr>) rows,
                Inr ())
          else (rows, Inl SideEffectInProgressError)
      | None \<Rightarrow> (rows, Inl SideEffectInProgressError))"

definition sql_effect_complete :: "time \<Rightarrow> effect_table \<Rightarrow> effect_key \<Rightarrow> str \<Rightarrow> str \<Rightarrow> jobj \<Rightarrow> effect_table \<times> unit result" where
  "sql_effect_complete now rows key request_fingerprint token r =
     sql_effect_finish now rows key request_fingerprint token ''completed'' (Some r) None"

definition sql_effect_fail :: "time \<Rightarrow> effect_table \<Rightarrow> effect_key \<Rightarrow> str \<Rightarrow> str \<Rightarrow> exn \<Rightarrow> effect_table \<times> unit result" where
  "sql_effect_fail now rows key request_fingerprint token failure_class =
     sql_effect_finish now rows key request_fingerprint token ''failed'' None (Some failure_class)"

text \<open>
  The store as the coordinator calls it; \<open>e1\<close> and \<open>e2\<close> are what other workers commit inside
  a claim.  A claim that nobody interrupts is the case \<open>id\<close> of both.
\<close>

definition sql_effect_store ::
    "int \<Rightarrow> (effect_table \<Rightarrow> effect_table) \<Rightarrow> (effect_table \<Rightarrow> effect_table) \<Rightarrow> (effect_key, effect_table, jobj) claim_store" where
  "sql_effect_store lease_seconds e1 e2 =
     \<lparr>store_claim = sql_effect_claim lease_seconds e1 e2, store_complete = sql_effect_complete,
      store_fail = sql_effect_fail\<rparr>"

definition sqlalchemy_side_effect_store ::
    "int \<Rightarrow> (effect_table \<Rightarrow> effect_table) \<Rightarrow> (effect_table \<Rightarrow> effect_table)
     \<Rightarrow> (effect_key, effect_table, jobj) claim_store result" where
  "sqlalchemy_side_effect_store lease_seconds e1 e2 =
     raise_if (lease_seconds < 1) ValueError (Inr (sql_effect_store lease_seconds e1 e2))"

subsection \<open>The coordinator\<close>

definition canonical_fingerprint :: "platform \<Rightarrow> jobj \<Rightarrow> str" where
  "canonical_fingerprint pf value = sha256_hex pf (utf8 (dumps False (JObj value)))"

text \<open>
  \<open>execute\<close> on the store \<open>s\<close> and the outside world \<open>w\<close>.  \<open>operation\<close> is the external mutation,
  \<open>e\<close> what other workers do to the store while it runs; \<open>now\<close> and \<open>now'\<close> are the two readings
  of the clock.
\<close>

definition coordinator_execute ::
    "('k, 's, jobj) claim_store \<Rightarrow> platform \<Rightarrow> time \<Rightarrow> time \<Rightarrow> str \<Rightarrow> 'k \<Rightarrow> jobj
     \<Rightarrow> ('w \<Rightarrow> 'w \<times> jobj result) \<Rightarrow> ('s \<Rightarrow> 's) \<Rightarrow> 's \<Rightarrow> 'w \<Rightarrow> ('s \<times> 'w) \<times> (jobj \<times> bool) result" where
  "coordinator_execute S pf now now' token key request_data operation e s w =
     (let fingerprint = canonical_fingerprint pf request_data in
      case store_claim S now token s key fingerprint of
        (s1, Inl ex) \<Rightarrow> ((s1, w), Inl ex)
      | (s1, Inr (Replayed r)) \<Rightarrow> ((s1, w), Inr (r, True))
      | (s1, Inr (Owned t)) \<Rightarrow>
          (case operation w of
             (w', Inl ex) \<Rightarrow>
               (case store_fail S now' (e s1) key fingerprint t ex of
                  (s2, Inl ex') \<Rightarrow> ((s2, w'), Inl ex')
                | (s2, Inr _) \<Rightarrow> ((s2, w'), Inl ex))
           | (w', Inr r) \<Rightarrow>
               (case store_complete S now' (e s1) key fingerprint t r of
                  (s2, Inl ex) \<Rightarrow> ((s2, w'), Inl ex)
                | (s2, Inr _) \<Rightarrow> ((s2, w'), Inr (r, False)))))"

subsection \<open>What a key is, seen from outside\<close>

text \<open>
  A key is free, busy under a fingerprint and a token, or done with its receipt.  A failed
  row of the table is free: it can be claimed again, by its own fingerprint.
\<close>

datatype 'r slot = Free | Busy str str | Done str 'r

definition effect_slot :: "effect_rows \<Rightarrow> effect_key \<Rightarrow> jobj slot" where
  "effect_slot rows key =
     (case dict_get rows key of
        None \<Rightarrow> Free
      | Some row \<Rightarrow>
          (case (er_status row = ''completed'', er_result row) of
             (True, Some r) \<Rightarrow> Done (er_fingerprint row) r
           | _ \<Rightarrow> Busy (er_fingerprint row) (er_fencing_token row)))"

definition sql_effect_slot :: "effect_table \<Rightarrow> effect_key \<Rightarrow> jobj slot" where
  "sql_effect_slot rows key =
     (case dict_get rows key of
        None \<Rightarrow> Free
      | Some row \<Rightarrow>
          if te_status row = ''completed''
          then Done (te_request_fingerprint row) (case te_result row of None \<Rightarrow> [] | Some r \<Rightarrow> r)
          else if te_status row = ''in_progress''
          then Busy (te_request_fingerprint row) (te_fencing_token row)
          else Free)"

subsection \<open>Workers that share a store\<close>

text \<open>
  An invocation of \<open>execute\<close> that owns a token: before its operation, after it returned, or
  after it raised.  \<open>performed\<close> is the list of operations that returned, the external
  mutations that happened; \<open>takeovers\<close> lists the keys that were claimed while busy.
\<close>

datatype ('k, 'r) invocation =
    Holding 'k str str
  | Ran 'k str str 'r
  | Failing 'k str str exn

datatype ('k, 'r) event =
    Claim_Key time str 'k str
  | Operate "('k, 'r) invocation" "'r result"
  | Settle time "('k, 'r) invocation"
  | Crash "('k, 'r) invocation"

record ('k, 's, 'r) effect_system =
  sys_store :: 's
  active :: "('k, 'r) invocation multiset"
  performed :: "('k \<times> 'r) list"
  takeovers :: "'k list"

definition effect_event ::
    "('k, 's, 'r) claim_store \<Rightarrow> ('s \<Rightarrow> 'k \<Rightarrow> 'r slot) \<Rightarrow> ('k, 'r) event \<Rightarrow> ('k, 's, 'r) effect_system
     \<Rightarrow> ('k, 's, 'r) effect_system" where
  "effect_event S slot ev y =
     (case ev of
        Claim_Key now token k fp \<Rightarrow>
          (case store_claim S now token (sys_store y) k fp of
             (s', Inr (Owned t)) \<Rightarrow>
               y\<lparr>sys_store := s', active := add_mset (Holding k fp t) (active y),
                 takeovers := (if slot (sys_store y) k = Free then [] else [k]) @ takeovers y\<rparr>
           | (s', _) \<Rightarrow> y\<lparr>sys_store := s'\<rparr>)
      | Operate i out \<Rightarrow>
          (case i of
             Holding k fp t \<Rightarrow>
               if i \<in># active y
               then (case out of
                       Inr r \<Rightarrow> y\<lparr>active := add_mset (Ran k fp t r) (active y - {#i#}),
                                  performed := performed y @ [(k, r)]\<rparr>
                     | Inl ex \<Rightarrow> y\<lparr>active := add_mset (Failing k fp t ex) (active y - {#i#})\<rparr>)
               else y
           | _ \<Rightarrow> y)
      | Settle now i \<Rightarrow>
          if i \<in># active y
          then (case i of
                  Ran k fp t r \<Rightarrow>
                    y\<lparr>sys_store := fst (store_complete S now (sys_store y) k fp t r), active := active y - {#i#}\<rparr>
                | Failing k fp t ex \<Rightarrow>
                    y\<lparr>sys_store := fst (store_fail S now (sys_store y) k fp t ex), active := active y - {#i#}\<rparr>
                | Holding _ _ _ \<Rightarrow> y)
          else y
      | Crash i \<Rightarrow> y\<lparr>active := active y - {#i#}\<rparr>)"

definition effect_run ::
    "('k, 's, 'r) claim_store \<Rightarrow> ('s \<Rightarrow> 'k \<Rightarrow> 'r slot) \<Rightarrow> ('k, 'r) event list \<Rightarrow> ('k, 's, 'r) effect_system
     \<Rightarrow> ('k, 's, 'r) effect_system" where
  "effect_run S slot evs y = foldl (\<lambda>y ev. effect_event S slot ev y) y evs"

lemma effect_run_simps [simp]:
  "effect_run S slot [] y = y"
  "effect_run S slot (ev # evs) y = effect_run S slot evs (effect_event S slot ev y)"
  "effect_run S slot (evs @ evs') y = effect_run S slot evs' (effect_run S slot evs y)"
  by (simp_all add: effect_run_def)

text \<open>Nobody is active yet, over any store.\<close>

definition idle :: "'s \<Rightarrow> ('k, 's, 'r) effect_system" where
  "idle s = \<lparr>sys_store = s, active = {#}, performed = [], takeovers = []\<rparr>"

text \<open>The invocations of a key whose operation has not returned.\<close>

fun not_run :: "'k \<Rightarrow> ('k, 'r) invocation \<Rightarrow> bool" where
  "not_run k (Holding k' _ _) \<longleftrightarrow> k' = k"
| "not_run k (Failing k' _ _ _) \<longleftrightarrow> k' = k"
| "not_run k (Ran _ _ _ _) \<longleftrightarrow> False"

definition unrun :: "('k, 'r) invocation multiset \<Rightarrow> 'k \<Rightarrow> nat" where
  "unrun M k = size (filter_mset (not_run k) M)"

lemma unrun_simps [simp]:
  "unrun {#} k = 0"
  "unrun (add_mset i M) k = (if not_run k i then Suc (unrun M k) else unrun M k)"
  by (simp_all add: unrun_def)

lemma unrun_split: "i \<in># M \<Longrightarrow> unrun M k = unrun (M - {#i#}) k + (if not_run k i then 1 else 0)"
  using unrun_simps(2) [of i "M - {#i#}" k] by (simp split: if_splits)

lemma unrun_remove: "unrun (M - {#i#}) k \<le> unrun M k"
  by (simp add: unrun_def size_mset_mono multiset_filter_mono)

definition times_performed :: "('k, 's, 'r) effect_system \<Rightarrow> 'k \<Rightarrow> nat" where
  "times_performed y k = length (filter (\<lambda>(k', r). k' = k) (performed y))"

lemma times_performed_simps [simp]:
  "times_performed (y\<lparr>sys_store := s\<rparr>) k = times_performed y k"
  "times_performed (y\<lparr>active := M\<rparr>) k = times_performed y k"
  "times_performed (y\<lparr>takeovers := ks\<rparr>) k = times_performed y k"
  "times_performed (y\<lparr>performed := performed y @ [(k', r)]\<rparr>) k = times_performed y k + (if k' = k then 1 else 0)"
  "times_performed (y\<lparr>active := M, performed := performed y @ [(k', r)]\<rparr>) k = times_performed y k + (if k' = k then 1 else 0)"
  by (simp_all add: times_performed_def)

subsection \<open>The contract of a store\<close>

text \<open>
  What the coordinator relies on: a claim hands out a token only for a key that is not done,
  replays the receipt of a key that is (unless the clock is out of range, \<open>\<not> ok now\<close>), and
  only the current token settles a key.
\<close>

locale receipt_store =
  fixes S :: "('k, 's, 'r) claim_store"
    and slot :: "'s \<Rightarrow> 'k \<Rightarrow> 'r slot"
    and ok :: "time \<Rightarrow> bool"
  assumes claim_owned: "\<And>now tok s k fp s' t. store_claim S now tok s k fp = (s', Inr (Owned t)) \<Longrightarrow>
      (\<forall>fp' r. slot s k \<noteq> Done fp' r) \<and> slot s' = (slot s)(k := Busy fp t)"
    and claim_unchanged: "\<And>now tok s k fp s' c. store_claim S now tok s k fp = (s', c) \<Longrightarrow>
      \<forall>t. c \<noteq> Inr (Owned t) \<Longrightarrow> slot s' = slot s"
    and claim_replayed: "\<And>now tok s k fp s' r. store_claim S now tok s k fp = (s', Inr (Replayed r)) \<Longrightarrow>
      slot s k = Done fp r"
    and claim_done: "\<And>now tok s k fp r. slot s k = Done fp r \<Longrightarrow> ok now \<Longrightarrow>
      store_claim S now tok s k fp = (s, Inr (Replayed r))"
    and completed: "\<And>now s k fp t r s' c. store_complete S now s k fp t r = (s', c) \<Longrightarrow>
      (if c = Inr () then slot s k = Busy fp t \<and> slot s' = (slot s)(k := Done fp r) else slot s' = slot s)"
    and failed: "\<And>now s k fp t ex s' c. store_fail S now s k fp t ex = (s', c) \<Longrightarrow>
      (if c = Inr () then slot s k = Busy fp t \<and> slot s' = (slot s)(k := Free) else slot s' = slot s)"
begin

lemma settled:
  "slot (fst (store_complete S now s k fp t r)) = slot s
   \<or> slot s k = Busy fp t \<and> slot (fst (store_complete S now s k fp t r)) = (slot s)(k := Done fp r)"
  "slot (fst (store_fail S now s k fp t ex)) = slot s
   \<or> slot s k = Busy fp t \<and> slot (fst (store_fail S now s k fp t ex)) = (slot s)(k := Free)"
  using completed [of now s k fp t r] failed [of now s k fp t ex]
  by (metis prod.collapse)+

text \<open>How an event changes the slots.\<close>

lemma event_claim_cases:
  obtains (owned) s' t where "store_claim S now tok (sys_store y) k fp = (s', Inr (Owned t))"
      "\<forall>fp' r. slot (sys_store y) k \<noteq> Done fp' r" "slot s' = (slot (sys_store y))(k := Busy fp t)"
      "effect_event S slot (Claim_Key now tok k fp) y =
         y\<lparr>sys_store := s', active := add_mset (Holding k fp t) (active y),
           takeovers := (if slot (sys_store y) k = Free then [] else [k]) @ takeovers y\<rparr>"
  | (other) s' where "slot s' = slot (sys_store y)"
      "effect_event S slot (Claim_Key now tok k fp) y = y\<lparr>sys_store := s'\<rparr>"
proof -
  obtain s' c where c: "store_claim S now tok (sys_store y) k fp = (s', c)" by fastforce
  show thesis
  proof (cases "\<exists>t. c = Inr (Owned t)")
    case True
    then obtain t where "c = Inr (Owned t)" ..
    with c claim_owned [OF c [unfolded this]] show ?thesis
      by (intro owned [of s' t]) (auto simp: effect_event_def)
  next
    case False
    with c claim_unchanged [OF c] show ?thesis
      by (intro other [of s']) (auto simp: effect_event_def split: sum.splits claim.splits)
  qed
qed

lemma done_final_event:
  assumes "slot (sys_store y) k = Done fp r"
  shows "slot (sys_store (effect_event S slot ev y)) k = Done fp r"
proof (cases ev)
  case (Claim_Key now tok k' fp')
  show ?thesis unfolding Claim_Key
    by (rule event_claim_cases [of now tok y k' fp']) (use assms in auto)
next
  case (Operate i out)
  with assms show ?thesis
    by (auto simp: effect_event_def split: invocation.splits sum.splits)
next
  case (Settle now i)
  show ?thesis
  proof (cases i)
    case (Ran k' fp' t r')
    with Settle assms settled(1) [of now "sys_store y" k' fp' t r'] show ?thesis
      by (auto simp: effect_event_def)
  next
    case (Failing k' fp' t ex)
    with Settle assms settled(2) [of now "sys_store y" k' fp' t ex] show ?thesis
      by (auto simp: effect_event_def)
  qed (use Settle assms in \<open>simp add: effect_event_def\<close>)
qed (use assms in \<open>simp add: effect_event_def\<close>)

lemma done_final: "slot (sys_store y) k = Done fp r \<Longrightarrow> slot (sys_store (effect_run S slot evs y)) k = Done fp r"
  by (induction evs arbitrary: y) (simp_all add: done_final_event)

text \<open>
  A key is performed at most once, plus once for every takeover: an operation that has not
  returned yet is paid for by the busy slot or by the takeover that gave it the key.
\<close>

definition accounted :: "('k, 's, 'r) effect_system \<Rightarrow> bool" where
  "accounted y \<longleftrightarrow> (\<forall>k. times_performed y k + unrun (active y) k
     \<le> count_list (takeovers y) k + (if slot (sys_store y) k = Free then 0 else 1))"

definition receipts_real :: "('k, 's, 'r) effect_system \<Rightarrow> bool" where
  "receipts_real y \<longleftrightarrow>
     (\<forall>k fp t r. Ran k fp t r \<in># active y \<longrightarrow> (k, r) \<in> set (performed y))
     \<and> (\<forall>k fp r. slot (sys_store y) k = Done fp r \<longrightarrow> (k, r) \<in> set (performed y))"

lemma accounted_event:
  assumes "accounted y"
  shows "accounted (effect_event S slot ev y)"
proof -
  let ?b = "\<lambda>y k. if slot (sys_store y) k = Free then 0 else (1::nat)"
  have bound: "times_performed y k + unrun (active y) k \<le> count_list (takeovers y) k + ?b y k" for k
    using assms by (simp add: accounted_def)
  show ?thesis
  proof (cases ev)
    case (Claim_Key now tok k' fp)
    show ?thesis unfolding Claim_Key
    proof (rule event_claim_cases [of now tok y k' fp])
      fix s' t
      assume s': "slot s' = (slot (sys_store y))(k' := Busy fp t)"
        and ev: "effect_event S slot (Claim_Key now tok k' fp) y =
          y\<lparr>sys_store := s', active := add_mset (Holding k' fp t) (active y),
            takeovers := (if slot (sys_store y) k' = Free then [] else [k']) @ takeovers y\<rparr>"
      show "accounted (effect_event S slot (Claim_Key now tok k' fp) y)"
        unfolding accounted_def
      proof
        fix k
        show "times_performed (effect_event S slot (Claim_Key now tok k' fp) y) k
            + unrun (active (effect_event S slot (Claim_Key now tok k' fp) y)) k
          \<le> count_list (takeovers (effect_event S slot (Claim_Key now tok k' fp) y)) k
            + ?b (effect_event S slot (Claim_Key now tok k' fp) y) k"
          using bound [of k] unfolding ev by (auto simp: s')
      qed
    next
      fix s' assume "slot s' = slot (sys_store y)"
        "effect_event S slot (Claim_Key now tok k' fp) y = y\<lparr>sys_store := s'\<rparr>"
      with bound show "accounted (effect_event S slot (Claim_Key now tok k' fp) y)"
        by (simp add: accounted_def)
    qed
  next
    case (Operate i out)
    show ?thesis
    proof (cases i)
      case (Holding k' fp t)
      show ?thesis unfolding accounted_def
      proof
        fix k
        show "times_performed (effect_event S slot ev y) k + unrun (active (effect_event S slot ev y)) k
          \<le> count_list (takeovers (effect_event S slot ev y)) k + ?b (effect_event S slot ev y) k"
          using bound [of k] unrun_split [of i "active y" k]
          by (cases out; cases "i \<in># active y"; cases "k' = k")
            (simp_all add: Operate Holding effect_event_def)
      qed
    qed (use bound in \<open>simp_all add: Operate accounted_def effect_event_def\<close>)
  next
    case (Settle now i)
    show ?thesis
    proof (cases "i \<in># active y")
      case True
      note split = unrun_split [OF True]
      show ?thesis
      proof (cases i)
        case (Ran k' fp t r)
        have "times_performed y k + unrun (active y - {#i#}) k \<le> count_list (takeovers y) k
          + (if slot (fst (store_complete S now (sys_store y) k' fp t r)) k = Free then 0 else 1)" for k
          using bound [of k] split [of k] settled(1) [of now "sys_store y" k' fp t r] Ran
          by (auto split: if_splits)
        with True Ran show ?thesis
          unfolding Settle accounted_def effect_event_def by (simp)
      next
        case (Failing k' fp t ex)
        have "times_performed y k + unrun (active y - {#i#}) k \<le> count_list (takeovers y) k
          + (if slot (fst (store_fail S now (sys_store y) k' fp t ex)) k = Free then 0 else 1)" for k
          using bound [of k] split [of k] settled(2) [of now "sys_store y" k' fp t ex] Failing
          by (auto split: if_splits)
        with True Failing show ?thesis
          unfolding Settle accounted_def effect_event_def by (simp)
      qed (use bound True in \<open>simp add: Settle accounted_def effect_event_def\<close>)
    qed (use bound in \<open>simp add: Settle accounted_def effect_event_def\<close>)
  next
    case (Crash i)
    show ?thesis unfolding accounted_def
    proof
      fix k
      show "times_performed (effect_event S slot ev y) k + unrun (active (effect_event S slot ev y)) k
        \<le> count_list (takeovers (effect_event S slot ev y)) k + ?b (effect_event S slot ev y) k"
        using bound [of k] unrun_remove [of "active y" i k] by (simp add: Crash effect_event_def)
    qed
  qed
qed

lemma receipts_real_event:
  assumes "receipts_real y"
  shows "receipts_real (effect_event S slot ev y)"
proof (cases ev)
  case (Claim_Key now tok k' fp)
  show ?thesis unfolding Claim_Key
    by (rule event_claim_cases [of now tok y k' fp])
      (use assms in \<open>auto simp: receipts_real_def split: if_splits\<close>)
next
  case (Operate i out)
  with assms show ?thesis
    by (cases i) (auto simp: receipts_real_def effect_event_def dest: in_diffD split: sum.splits)
next
  case (Settle now i)
  show ?thesis
  proof (cases i)
    case (Ran k' fp t r)
    with assms Settle settled(1) [of now "sys_store y" k' fp t r] show ?thesis
      by (auto simp: receipts_real_def effect_event_def dest: in_diffD split: if_splits)
  next
    case (Failing k' fp t ex)
    with assms Settle settled(2) [of now "sys_store y" k' fp t ex] show ?thesis
      by (auto simp: receipts_real_def effect_event_def dest: in_diffD split: if_splits)
  qed (use assms Settle in \<open>simp add: effect_event_def\<close>)
next
  case (Crash i)
  with assms show ?thesis
    by (auto simp: receipts_real_def effect_event_def dest: in_diffD)
qed

lemma run_accounted: "accounted y \<Longrightarrow> accounted (effect_run S slot evs y)"
  by (induction evs arbitrary: y) (simp_all add: accounted_event)

lemma run_receipts_real: "receipts_real y \<Longrightarrow> receipts_real (effect_run S slot evs y)"
  by (induction evs arbitrary: y) (simp_all add: receipts_real_event)

lemma performed_bound:
  assumes "\<forall>k. slot s k = Free"
  shows "times_performed (effect_run S slot evs (idle s)) k \<le> 1 + count_list (takeovers (effect_run S slot evs (idle s))) k"
proof -
  have "accounted (idle s)" using assms by (simp add: accounted_def idle_def times_performed_def)
  from run_accounted [OF this, of evs] show ?thesis
    unfolding accounted_def by (auto split: if_splits dest!: spec [of _ k])
qed

lemma replay_performed:
  assumes "\<forall>k. slot s k = Free"
    and "store_claim S now tok (sys_store (effect_run S slot evs (idle s))) k fp = (s', Inr (Replayed r))"
  shows "(k, r) \<in> set (performed (effect_run S slot evs (idle s)))"
proof -
  have "receipts_real (idle s)" using assms(1) by (simp add: receipts_real_def idle_def)
  from run_receipts_real [OF this, of evs] claim_replayed [OF assms(2)] show ?thesis
    by (auto simp: receipts_real_def)
qed

text \<open>A claim that cannot take a busy key over never makes a takeover.\<close>

lemma no_takeovers:
  assumes "\<And>now tok s k fp s' t. store_claim S now tok s k fp = (s', Inr (Owned t)) \<Longrightarrow> slot s k = Free"
  shows "takeovers y = [] \<Longrightarrow> takeovers (effect_run S slot evs y) = []"
proof (induction evs arbitrary: y)
  case (Cons ev evs)
  have "takeovers (effect_event S slot ev y) = []"
  proof (cases ev)
    case (Claim_Key now tok k fp)
    with assms [of now tok "sys_store y" k fp] Cons.prems show ?thesis
      by (auto simp: effect_event_def split: prod.split sum.split claim.split)
  qed (use Cons.prems in \<open>auto simp: effect_event_def split: invocation.split sum.split\<close>)
  with Cons.IH show ?case by simp
qed simp

lemma receipt_replayed:
  assumes "store_complete S now s0 k fp t r = (sys_store y, Inr ())" and "ok now2"
  shows "store_claim S now2 tok (sys_store (effect_run S slot evs y)) k fp
    = (sys_store (effect_run S slot evs y), Inr (Replayed r))"
proof -
  from completed [OF assms(1)] have "slot (sys_store y) k = Done fp r" by simp
  from done_final [OF this, of evs] show ?thesis by (rule claim_done) (rule assms(2))
qed

end

text \<open>The coordinator over a store that keeps the contract.\<close>

locale effect_coordinator = receipt_store S slot ok
  for S :: "('k, 's, jobj) claim_store" and slot :: "'s \<Rightarrow> 'k \<Rightarrow> jobj slot" and ok :: "time \<Rightarrow> bool"
begin

text \<open>A receipt that was handed out is handed out again, whatever happens in between.\<close>

lemma execute_replays:
  assumes "coordinator_execute S pf now now' token k req operation e s w = ((sys_store y, w1), Inr (r, False))"
    and "ok now2"
  shows "coordinator_execute S pf now2 now3 token' k req operation' e' (sys_store (effect_run S slot evs y)) w2
    = ((sys_store (effect_run S slot evs y), w2), Inr (r, True))"
proof -
  from assms(1) obtain t s0 where
    "store_complete S now' s0 k (canonical_fingerprint pf req) t r = (sys_store y, Inr ())"
    by (auto simp: coordinator_execute_def Let_def split: prod.splits sum.splits claim.splits)
  from receipt_replayed [OF this assms(2)] show ?thesis
    by (simp add: coordinator_execute_def Let_def)
qed

end

subsection \<open>Both stores keep the contract\<close>

lemma effect_complete_cases:
  "effect_complete now rows k fp t r =
     (if effect_slot rows k = Busy fp t \<and> map_option er_status (dict_get rows k) = Some ''in_progress''
      then (dict_set k ((the (dict_get rows k))\<lparr>er_status := ''completed'', er_result := Some r\<rparr>) rows, Inr ())
      else (rows, Inl SideEffectInProgressError))"
  by (auto simp: effect_complete_def effect_owned_def effect_slot_def split: option.splits bool.splits)

lemma effect_fail_cases:
  "effect_fail now rows k fp t ex =
     (if effect_slot rows k = Busy fp t \<and> map_option er_status (dict_get rows k) = Some ''in_progress''
      then (AList.delete k rows, Inr ())
      else (rows, Inl SideEffectInProgressError))"
  by (auto simp: effect_fail_def effect_owned_def effect_slot_def split: option.splits bool.splits)

lemma effect_claim_Owned:
  "effect_claim now tok rows k fp = (rows', Inr (Owned t)) \<longleftrightarrow>
     effect_slot rows k = Free \<and> t = tok
     \<and> rows' = dict_set k \<lparr>er_fingerprint = fp, er_status = ''in_progress'', er_fencing_token = tok, er_result = None\<rparr> rows"
  by (auto simp: effect_claim_def effect_slot_def split: option.splits bool.splits if_splits)

lemma effect_slot_set [simp]:
  "effect_slot (dict_set k row rows) = (effect_slot rows)(k :=
     (case (er_status row = ''completed'', er_result row) of
        (True, Some r) \<Rightarrow> Done (er_fingerprint row) r
      | _ \<Rightarrow> Busy (er_fingerprint row) (er_fencing_token row)))"
  by (simp add: effect_slot_def fun_eq_iff)

lemma effect_slot_delete [simp]: "effect_slot (AList.delete k rows) = (effect_slot rows)(k := Free)"
  by (simp add: effect_slot_def fun_eq_iff delete_conv')

lemma effect_slot_Busy:
  "effect_slot rows k = Busy fp t \<Longrightarrow> \<exists>row. dict_get rows k = Some row \<and> er_fingerprint row = fp \<and> er_fencing_token row = t"
  by (auto simp: effect_slot_def split: option.splits bool.splits)

lemma effect_claim_other:
  "effect_claim now tok rows k fp = (rows', c) \<Longrightarrow> \<forall>t. c \<noteq> Inr (Owned t) \<Longrightarrow> rows' = rows"
  by (auto simp: effect_claim_def split: option.splits if_splits)

lemma effect_claim_Replayed:
  "effect_claim now tok rows k fp = (rows', Inr (Replayed r)) \<Longrightarrow> effect_slot rows k = Done fp r"
  by (auto simp: effect_claim_def effect_slot_def split: option.splits if_splits)

lemma effect_claim_Done:
  "effect_slot rows k = Done fp r \<Longrightarrow> effect_claim now tok rows k fp = (rows, Inr (Replayed r))"
  by (auto simp: effect_claim_def effect_slot_def split: option.splits bool.splits)

lemma in_memory_side_effect_store_sel [simp]:
  "store_claim in_memory_side_effect_store = effect_claim"
  "store_complete in_memory_side_effect_store = effect_complete"
  "store_fail in_memory_side_effect_store = effect_fail"
  by (simp_all add: in_memory_side_effect_store_def)

lemma sql_effect_store_sel [simp]:
  "store_claim (sql_effect_store lease e1 e2) = sql_effect_claim lease e1 e2"
  "store_complete (sql_effect_store lease e1 e2) = sql_effect_complete"
  "store_fail (sql_effect_store lease e1 e2) = sql_effect_fail"
  by (simp_all add: sql_effect_store_def)

lemma effect_complete_slot:
  assumes "effect_complete now rows k fp t r = (rows', c)"
  shows "if c = Inr () then effect_slot rows k = Busy fp t \<and> effect_slot rows' = (effect_slot rows)(k := Done fp r)
    else effect_slot rows' = effect_slot rows"
  using assms by (auto simp: effect_complete_cases dest!: effect_slot_Busy split: if_splits)

lemma effect_fail_slot:
  assumes "effect_fail now rows k fp t ex = (rows', c)"
  shows "if c = Inr () then effect_slot rows k = Busy fp t \<and> effect_slot rows' = (effect_slot rows)(k := Free)
    else effect_slot rows' = effect_slot rows"
  using assms by (auto simp: effect_fail_cases split: if_splits)

interpretation mem_effects: effect_coordinator in_memory_side_effect_store effect_slot "\<lambda>now. True"
proof unfold_locales
  fix now :: time and tok s k fp s' t
  assume "store_claim in_memory_side_effect_store now tok s k fp = (s', Inr (Owned t))"
  then show "(\<forall>fp' r. effect_slot s k \<noteq> Done fp' r) \<and> effect_slot s' = (effect_slot s)(k := Busy fp t)"
    by (simp add: effect_claim_Owned)
next
  fix now :: time and tok s k fp s' c
  assume "store_claim in_memory_side_effect_store now tok s k fp = (s', c)" "\<forall>t. c \<noteq> Inr (Owned t)"
  then show "effect_slot s' = effect_slot s" by (auto dest: effect_claim_other)
next
  fix now :: time and tok s k fp s' r
  assume "store_claim in_memory_side_effect_store now tok s k fp = (s', Inr (Replayed r))"
  then show "effect_slot s k = Done fp r" by (auto dest: effect_claim_Replayed)
next
  fix now :: time and tok s k fp r
  assume "effect_slot s k = Done fp r"
  then show "store_claim in_memory_side_effect_store now tok s k fp = (s, Inr (Replayed r))"
    by (simp add: effect_claim_Done)
next
  fix now :: time and s k fp t r s' c
  assume "store_complete in_memory_side_effect_store now s k fp t r = (s', c)"
  then show "if c = Inr () then effect_slot s k = Busy fp t \<and> effect_slot s' = (effect_slot s)(k := Done fp r)
    else effect_slot s' = effect_slot s"
    unfolding in_memory_side_effect_store_sel by (rule effect_complete_slot)
next
  fix now :: time and s k fp t ex s' c
  assume "store_fail in_memory_side_effect_store now s k fp t ex = (s', c)"
  then show "if c = Inr () then effect_slot s k = Busy fp t \<and> effect_slot s' = (effect_slot s)(k := Free)
    else effect_slot s' = effect_slot s"
    unfolding in_memory_side_effect_store_sel by (rule effect_fail_slot)
qed

lemma sql_effect_slot_set [simp]:
  "sql_effect_slot (dict_set k row rows) = (sql_effect_slot rows)(k :=
     (if te_status row = ''completed''
      then Done (te_request_fingerprint row) (case te_result row of None \<Rightarrow> [] | Some r \<Rightarrow> r)
      else if te_status row = ''in_progress''
      then Busy (te_request_fingerprint row) (te_fencing_token row)
      else Free))"
  by (simp add: sql_effect_slot_def fun_eq_iff)

lemma sql_effect_finish_cases:
  "sql_effect_finish now rows k fp t st r fc =
     (if sql_effect_slot rows k = Busy fp t
      then (dict_set k ((the (dict_get rows k))\<lparr>te_status := st, te_result := r, te_failure_class := fc,
              te_lease_expires_at := now, te_updated_at := now\<rparr>) rows, Inr ())
      else (rows, Inl SideEffectInProgressError))"
  by (auto simp: sql_effect_finish_def sql_effect_slot_def split: option.splits)

lemma sql_effect_insert_cases:
  "sql_effect_insert now until tok rows k fp = Inr rows' \<longleftrightarrow> dict_get rows k = None
     \<and> rows' = dict_set k \<lparr>te_request_fingerprint = fp, te_status = ''in_progress'', te_fencing_token = tok,
          te_lease_expires_at = until, te_result = None, te_failure_class = None, te_created_at = now,
          te_updated_at = now\<rparr> rows"
  by (auto simp: sql_effect_insert_def split: option.splits)

lemma sql_effect_select_cases:
  assumes "sql_effect_select now rows k fp = Inr (Inr old)"
  shows "\<exists>row. dict_get rows k = Some row \<and> te_request_fingerprint row = fp \<and> te_fencing_token row = old
    \<and> te_status row \<noteq> ''completed'' \<and> (te_status row = ''in_progress'' \<longrightarrow> te_lease_expires_at row \<le> now)"
  using assms by (auto simp: sql_effect_select_def split: option.splits if_splits)

lemma sql_effect_claim_Owned:
  assumes "sql_effect_claim lease id id now tok rows k fp = (rows', Inr (Owned t))"
  shows "(\<forall>fp' r. sql_effect_slot rows k \<noteq> Done fp' r) \<and> sql_effect_slot rows' = (sql_effect_slot rows)(k := Busy fp t)"
proof -
  obtain until where until: "lease_end lease now = Inr until"
    using assms by (cases "lease_end lease now") (simp_all add: sql_effect_claim_def)
  show ?thesis
  proof (cases "sql_effect_insert now until tok rows k fp")
    case (Inr rows1)
    with assms until have "rows' = rows1" "t = tok" by (simp_all add: sql_effect_claim_def)
    with Inr show ?thesis
      by (simp add: sql_effect_insert_cases) (simp add: sql_effect_slot_def)
  next
    case (Inl e)
    with assms until obtain old where old: "sql_effect_select now rows k fp = Inr (Inr old)"
      and rec: "sql_effect_recover now until tok rows k old = (rows', Inr (Owned t))"
      by (auto simp: sql_effect_claim_def split: sum.splits)
    from sql_effect_select_cases [OF old] obtain row where row: "dict_get rows k = Some row"
      "te_request_fingerprint row = fp" "te_fencing_token row = old" "te_status row \<noteq> ''completed''" by auto
    with rec have "t = tok" "rows' = dict_set k (row\<lparr>te_status := ''in_progress'', te_fencing_token := tok,
        te_lease_expires_at := until, te_failure_class := None, te_updated_at := now\<rparr>) rows"
      by (auto simp: sql_effect_recover_def)
    with row show ?thesis by (simp add: sql_effect_slot_def [of rows])
  qed
qed

lemma sql_effect_claim_other:
  assumes "sql_effect_claim lease id id now tok rows k fp = (rows', c)" "\<forall>t. c \<noteq> Inr (Owned t)"
  shows "rows' = rows"
  using assms
  by (auto simp: sql_effect_claim_def sql_effect_insert_def sql_effect_select_def sql_effect_recover_def
      split: sum.splits option.splits if_splits)

lemma sql_effect_claim_Replayed:
  assumes "sql_effect_claim lease id id now tok rows k fp = (rows', Inr (Replayed r))"
  shows "sql_effect_slot rows k = Done fp r"
  using assms
  by (auto simp: sql_effect_claim_def sql_effect_insert_def sql_effect_select_def sql_effect_recover_def
      sql_effect_slot_def split: sum.splits option.splits if_splits)

lemma sql_effect_claim_Done:
  assumes "sql_effect_slot rows k = Done fp r" "datetime_range (now + seconds lease)"
  shows "sql_effect_claim lease id id now tok rows k fp = (rows, Inr (Replayed r))"
  using assms
  by (auto simp: sql_effect_claim_def lease_end_def sql_effect_insert_def sql_effect_select_def
      sql_effect_slot_def split: option.splits if_splits)

lemma sql_effect_slot_Busy:
  "sql_effect_slot rows k = Busy fp t \<Longrightarrow>
     \<exists>row. dict_get rows k = Some row \<and> te_request_fingerprint row = fp \<and> te_fencing_token row = t"
  by (auto simp: sql_effect_slot_def split: option.splits if_splits)

lemma sql_effect_complete_slot:
  assumes "sql_effect_complete now rows k fp t r = (rows', c)"
  shows "if c = Inr () then sql_effect_slot rows k = Busy fp t \<and> sql_effect_slot rows' = (sql_effect_slot rows)(k := Done fp r)
    else sql_effect_slot rows' = sql_effect_slot rows"
  using assms by (auto simp: sql_effect_complete_def sql_effect_finish_cases dest!: sql_effect_slot_Busy split: if_splits)

lemma sql_effect_fail_slot:
  assumes "sql_effect_fail now rows k fp t ex = (rows', c)"
  shows "if c = Inr () then sql_effect_slot rows k = Busy fp t \<and> sql_effect_slot rows' = (sql_effect_slot rows)(k := Free)
    else sql_effect_slot rows' = sql_effect_slot rows"
  using assms by (auto simp: sql_effect_fail_def sql_effect_finish_cases split: if_splits)

interpretation sql_effects:
  effect_coordinator "sql_effect_store lease id id" sql_effect_slot "\<lambda>now. datetime_range (now + seconds lease)" for lease
proof unfold_locales
  fix now tok s k fp s' t
  assume "store_claim (sql_effect_store lease id id) now tok s k fp = (s', Inr (Owned t))"
  then show "(\<forall>fp' r. sql_effect_slot s k \<noteq> Done fp' r) \<and> sql_effect_slot s' = (sql_effect_slot s)(k := Busy fp t)"
    unfolding sql_effect_store_sel by (rule sql_effect_claim_Owned)
next
  fix now tok s k fp s' c
  assume "store_claim (sql_effect_store lease id id) now tok s k fp = (s', c)" "\<forall>t. c \<noteq> Inr (Owned t)"
  then show "sql_effect_slot s' = sql_effect_slot s" by (auto dest: sql_effect_claim_other)
next
  fix now tok s k fp s' r
  assume "store_claim (sql_effect_store lease id id) now tok s k fp = (s', Inr (Replayed r))"
  then show "sql_effect_slot s k = Done fp r" by (auto dest: sql_effect_claim_Replayed)
next
  fix now tok s k fp r
  assume "sql_effect_slot s k = Done fp r" "datetime_range (now + seconds lease)"
  then show "store_claim (sql_effect_store lease id id) now tok s k fp = (s, Inr (Replayed r))"
    by (simp add: sql_effect_claim_Done)
next
  fix now s k fp t r s' c
  assume "store_complete (sql_effect_store lease id id) now s k fp t r = (s', c)"
  then show "if c = Inr () then sql_effect_slot s k = Busy fp t \<and> sql_effect_slot s' = (sql_effect_slot s)(k := Done fp r)
    else sql_effect_slot s' = sql_effect_slot s"
    unfolding sql_effect_store_sel by (rule sql_effect_complete_slot)
next
  fix now s k fp t ex s' c
  assume "store_fail (sql_effect_store lease id id) now s k fp t ex = (s', c)"
  then show "if c = Inr () then sql_effect_slot s k = Busy fp t \<and> sql_effect_slot s' = (sql_effect_slot s)(k := Free)
    else sql_effect_slot s' = sql_effect_slot s"
    unfolding sql_effect_store_sel by (rule sql_effect_fail_slot)
qed

subsection \<open>The properties\<close>

text \<open>
  C7 (effect_runs_once).  Whatever any number of workers do, in any order and with crashes
  at any point, the operation of a key returns at most once over the store in memory, and over
  the table, each claim taken as one step, at most once more than the key was claimed while
  another worker still held it.
\<close>

theorem effect_runs_once:
  "times_performed (effect_run in_memory_side_effect_store effect_slot evs (idle [])) k \<le> 1 \<and>
   times_performed (effect_run (sql_effect_store lease id id) sql_effect_slot evs' (idle [])) k'
     \<le> 1 + count_list (takeovers (effect_run (sql_effect_store lease id id) sql_effect_slot evs' (idle []))) k'"
proof
  have "takeovers (effect_run in_memory_side_effect_store effect_slot evs (idle [])) = []"
    by (rule mem_effects.no_takeovers) (simp_all add: effect_claim_Owned idle_def)
  with mem_effects.performed_bound [of "[]" evs k]
  show "times_performed (effect_run in_memory_side_effect_store effect_slot evs (idle [])) k \<le> 1"
    by (simp add: effect_slot_def)
  show "times_performed (effect_run (sql_effect_store lease id id) sql_effect_slot evs' (idle [])) k'
     \<le> 1 + count_list (takeovers (effect_run (sql_effect_store lease id id) sql_effect_slot evs' (idle []))) k'"
    by (rule sql_effects.performed_bound) (simp add: sql_effect_slot_def)
qed

text \<open>
  C31 (execute_is_a_run).  A call of \<open>execute\<close> that gets the token of its key does to
  the store what the protocol does: the claim, whatever the events \<open>evs\<close> of other workers do
  meanwhile, its operation and its settlement; an operation that returns is performed once.
\<close>

theorem execute_is_a_run:
  assumes "fp = canonical_fingerprint pf req"
    and "store_claim S now token (sys_store y) k fp = (s1, Inr (Owned t))"
    and "operation w = (w', out)"
    and "Holding k fp t \<in># active (effect_run S slot (Claim_Key now token k fp # evs) y)"
    and "e s1 = sys_store (effect_run S slot (Claim_Key now token k fp # evs) y)"
    and "z = effect_run S slot (Claim_Key now token k fp # evs @
           [Operate (Holding k fp t) out,
            Settle now' (case out of Inr r \<Rightarrow> Ran k fp t r | Inl ex \<Rightarrow> Failing k fp t ex)]) y"
  shows "fst (coordinator_execute S pf now now' token k req operation e (sys_store y) w) = (sys_store z, w')
    \<and> performed z = performed (effect_run S slot (Claim_Key now token k fp # evs) y)
        @ (case out of Inr r \<Rightarrow> [(k, r)] | Inl _ \<Rightarrow> [])"
proof -
  define y2 where "y2 = effect_run S slot (Claim_Key now token k fp # evs) y"
  have z: "z = effect_event S slot (Settle now' (case out of Inr r \<Rightarrow> Ran k fp t r | Inl ex \<Rightarrow> Failing k fp t ex))
      (effect_event S slot (Operate (Holding k fp t) out) y2)"
    using assms(6) by (simp add: y2_def)
  from assms(1-3,4,5) show ?thesis
    unfolding y2_def [symmetric] z
    by (cases out)
      (simp_all add: coordinator_execute_def Let_def effect_event_def split: prod.splits sum.splits)
qed

text \<open>A key and a request on which the hypotheses of the properties hold.\<close>

abbreviation demo_effect_key :: effect_key where
  "demo_effect_key \<equiv> (''org'', ''deploy'', ''key'')"

definition demo_fp :: str where
  "demo_fp = canonical_fingerprint demo_platform [(''image'', JStr ''v1'')]"

theorem execute_is_a_run_witness:
  "performed (effect_run in_memory_side_effect_store effect_slot
      [Claim_Key 0 ''t'' demo_effect_key demo_fp, Claim_Key 1 ''u'' demo_effect_key demo_fp,
       Operate (Holding demo_effect_key demo_fp ''t'') (Inr []), Settle 2 (Ran demo_effect_key demo_fp ''t'' [])] (idle []))
    = [(demo_effect_key, [])]"
  using execute_is_a_run [of demo_fp demo_platform "[(''image'', JStr ''v1'')]" in_memory_side_effect_store 0 "''t''"
      "idle []" demo_effect_key _ "''t''" "\<lambda>w :: nat. (Suc w, Inr [])" 0 1 "Inr []" effect_slot
      "[Claim_Key 1 ''u'' demo_effect_key demo_fp]" id _ 2]
  by (simp add: demo_fp_def effect_event_def effect_claim_def idle_def)

text \<open>
  C20 (receipt_replayed_forever).  Once a call of \<open>execute\<close> over the store in memory returned
  a receipt of its own run, every later call for the same key and request returns that
  receipt as a replay and does not touch the outside world, whatever other workers did in
  between.  (The lock of the store makes each of its methods one step.)
\<close>

theorem receipt_replayed_forever:
  assumes "coordinator_execute in_memory_side_effect_store pf now now' token k req operation e rows w
      = ((rows1, w1), Inr (r, False))"
    and "rows2 = sys_store (effect_run in_memory_side_effect_store effect_slot evs (idle rows1))"
  shows "coordinator_execute in_memory_side_effect_store pf now2 now3 token' k req operation' e' rows2 w2
      = ((rows2, w2), Inr (r, True))"
  using mem_effects.execute_replays [of pf now now' token k req operation e rows w "idle rows1" w1 r
      now2 now3 token' operation' e' evs w2] assms
  by (simp add: idle_def)

theorem receipt_replayed_forever_witness:
  "\<exists>rows1. coordinator_execute in_memory_side_effect_store demo_platform 0 1 ''t'' demo_effect_key [] (\<lambda>w :: nat. (Suc w, Inr [])) id [] 0
      = ((rows1, 1), Inr ([], False))
    \<and> coordinator_execute in_memory_side_effect_store demo_platform 5 6 ''u'' demo_effect_key [] (\<lambda>w. (w + 7, Inr [(''a'', JNull)])) id rows1 1
      = ((rows1, 1), Inr ([], True))"
proof -
  have "\<exists>rows1. coordinator_execute in_memory_side_effect_store demo_platform 0 1 ''t'' demo_effect_key [] (\<lambda>w :: nat. (Suc w, Inr [])) id [] 0
      = ((rows1, 1), Inr ([], False))"
    by (simp add: coordinator_execute_def effect_claim_def effect_complete_def effect_owned_def)
  then obtain rows1 where run: "coordinator_execute in_memory_side_effect_store demo_platform 0 1 ''t'' demo_effect_key [] (\<lambda>w :: nat. (Suc w, Inr [])) id [] 0
      = ((rows1, 1), Inr ([], False))" ..
  from receipt_replayed_forever [OF run, of rows1 "[]" 5 6 "''u''" "\<lambda>w. (w + 7, Inr [(''a'', JNull)])" id 1] run
  show ?thesis by (auto simp: idle_def)
qed

subsection \<open>The table, one statement at a time\<close>

text \<open>
  The statements that workers run on the table, in the order in which the database commits
  them.  The second component holds the workers that are inside a claim, between the
  \<open>SELECT\<close> that showed them an expired or failed row and the \<open>UPDATE\<close> that takes it over:
  the key and the token they read.
\<close>

datatype table_statement =
    Insert_Row time time str effect_key str
  | Select_Row time effect_key str
  | Recover_Row time time str effect_key str
  | Finish_Row time effect_key str str str "jobj option" "exn option"

type_synonym table_state = "effect_table \<times> (effect_key \<times> str) multiset"

fun table_step :: "table_statement \<Rightarrow> table_state \<Rightarrow> table_state" where
  "table_step (Insert_Row now until token k fp) (rows, P) =
     (case sql_effect_insert now until token rows k fp of Inl _ \<Rightarrow> (rows, P) | Inr rows' \<Rightarrow> (rows', P))"
| "table_step (Select_Row now k fp) (rows, P) =
     (case sql_effect_select now rows k fp of Inr (Inr old) \<Rightarrow> (rows, add_mset (k, old) P) | _ \<Rightarrow> (rows, P))"
| "table_step (Recover_Row now until token k old) (rows, P) =
     (if (k, old) \<in># P then (fst (sql_effect_recover now until token rows k old), P - {#(k, old)#}) else (rows, P))"
| "table_step (Finish_Row now k fp token status r failure) (rows, P) =
     (fst (sql_effect_finish now rows k fp token status r failure), P)"

definition table_run :: "table_statement list \<Rightarrow> table_state \<Rightarrow> table_state" where
  "table_run = fold table_step"

lemma table_run_simps [simp]:
  "table_run [] st = st" "table_run (c # ss) st = table_run ss (table_step c st)"
  "table_run (ss @ ss') st = table_run ss' (table_run ss st)"
  by (simp_all add: table_run_def)

text \<open>A claim is such a sequence of statements, with those of other workers in between.\<close>

lemma claim_is_statements:
  assumes "lease_end lease now = Inr until" "dict_get rows k \<noteq> None"
    and "table_run ss1 (rows, P) = (rows1, P1)" "table_run ss2 (table_step (Select_Row now k fp) (rows1, P1)) = (rows2, P2)"
    and "\<And>old. sql_effect_select now rows1 k fp = Inr (Inr old) \<Longrightarrow> (k, old) \<in># P2"
  shows "fst (sql_effect_claim lease (\<lambda>_. rows1) (\<lambda>_. rows2) now token rows k fp)
    = (case sql_effect_select now rows1 k fp of
         Inr (Inr old) \<Rightarrow> fst (table_run ([Insert_Row now until token k fp] @ ss1 @ [Select_Row now k fp] @ ss2
           @ [Recover_Row now until token k old]) (rows, P))
       | _ \<Rightarrow> fst (table_run ([Insert_Row now until token k fp] @ ss1 @ [Select_Row now k fp]) (rows, P)))"
proof -
  have ins: "sql_effect_insert now until token rows k fp = Inl IntegrityError"
    using assms(2) by (auto simp: sql_effect_insert_def)
  have first: "table_run ([Insert_Row now until token k fp] @ ss1) (rows, P) = (rows1, P1)"
    using assms(3) by (simp add: ins)
  show ?thesis
  proof (cases "sql_effect_select now rows1 k fp")
    case (Inl e)
    with assms(1) ins first show ?thesis by (simp add: sql_effect_claim_def)
  next
    case (Inr c)
    show ?thesis
    proof (cases c)
      case (Inl r)
      with Inr assms(1) ins first show ?thesis by (simp add: sql_effect_claim_def)
    next
      case (Inr old)
      with \<open>sql_effect_select now rows1 k fp = Inr c\<close> have sel: "sql_effect_select now rows1 k fp = Inr (Inr old)" by simp
      with assms(1,4) assms(5) [OF sel] ins first show ?thesis by (simp add: sql_effect_claim_def)
    qed
  qed
qed

text \<open>A row that is completed and whose token no worker inside a claim has read.\<close>

definition settled_row :: "effect_key \<Rightarrow> str \<Rightarrow> str \<Rightarrow> jobj \<Rightarrow> table_state \<Rightarrow> bool" where
  "settled_row k fp t r st \<longleftrightarrow> (\<exists>row. dict_get (fst st) k = Some row \<and> te_request_fingerprint row = fp
     \<and> te_fencing_token row = t \<and> te_status row = ''completed'' \<and> te_result row = Some r) \<and> (k, t) \<notin># snd st"

lemma settled_row_step:
  assumes "settled_row k fp t r st"
  shows "settled_row k fp t r (table_step c st)"
proof -
  obtain rows P where st: "st = (rows, P)" by (cases st)
  with assms obtain row where row: "dict_get rows k = Some row" "te_request_fingerprint row = fp" "te_fencing_token row = t"
    "te_status row = ''completed''" "te_result row = Some r" "(k, t) \<notin># P"
    by (auto simp: settled_row_def)
  show ?thesis
  proof (cases c)
    case (Insert_Row now until token k' fp')
    with st row show ?thesis
      by (cases "dict_get rows k'"; cases "k' = k") (auto simp: settled_row_def sql_effect_insert_def)
  next
    case (Select_Row now k' fp')
    show ?thesis
    proof (cases "k' = k")
      case True
      with Select_Row st row show ?thesis
        by (cases "fp' = fp") (simp_all add: settled_row_def sql_effect_select_def)
    next
      case False
      with Select_Row st row show ?thesis
        by (simp add: settled_row_def split: sum.split)
    qed
  next
    case (Recover_Row now until token k' old)
    have "settled_row k fp t r (rows', P - M)" if "dict_get rows' k = Some row" for rows' M
      using that row by (auto simp: settled_row_def dest: in_diffD)
    with Recover_Row st row assms show ?thesis
      by (cases "k' = k"; cases "dict_get rows k'") (auto simp: sql_effect_recover_def)
  next
    case (Finish_Row now k' fp' token status r' failure)
    with st row assms show ?thesis
      by (cases "k' = k"; cases "dict_get rows k'") (auto simp: settled_row_def sql_effect_finish_def)
  qed
qed

lemma settled_row_run: "settled_row k fp t r st \<Longrightarrow> settled_row k fp t r (table_run ss st)"
  by (induction ss arbitrary: st) (simp_all add: settled_row_step)

text \<open>
  C34 (table_receipt_final).  Over the table a stored receipt is lost only through a worker
  that was already inside a claim: if no worker had read the token of the row before the
  receipt was stored, then after any statements of any workers, and with any more of them
  inside its claim, a call for the same key and request returns the receipt as a replay and
  does not touch the outside world.
\<close>

theorem table_receipt_final:
  assumes "sql_effect_complete now1 rows k (canonical_fingerprint pf req) t r = (rows1, Inr ())" "(k, t) \<notin># P"
    and "table_run ss (rows1, P) = (rows2, P2)" "table_run ss' (rows2, P2) = (rows3, P3)"
    and "datetime_range (now + seconds lease)"
  shows "coordinator_execute (sql_effect_store lease (\<lambda>_. rows3) e2) pf now now' token k req operation e rows2 w
    = ((rows3, w), Inr (r, True))"
proof -
  let ?fp = "canonical_fingerprint pf req"
  have "settled_row k ?fp t r (rows1, P)"
    using assms(1,2) by (auto simp: settled_row_def sql_effect_complete_def sql_effect_finish_def split: option.splits if_splits)
  then have s2: "settled_row k ?fp t r (rows2, P2)" using settled_row_run assms(3) by metis
  then have "settled_row k ?fp t r (rows3, P3)" using settled_row_run assms(4) by metis
  with s2 have "sql_effect_claim lease (\<lambda>_. rows3) e2 now token rows2 k ?fp = (rows3, Inr (Replayed r))"
    using assms(5) by (auto simp: settled_row_def sql_effect_claim_def lease_end_def sql_effect_insert_def sql_effect_select_def)
  then show ?thesis by (simp add: coordinator_execute_def Let_def)
qed

theorem table_receipt_final_witness:
  "\<exists>rows1 rows2 P2. table_run [Insert_Row 0 9 ''u'' demo_effect_key demo_fp, Select_Row 99 demo_effect_key demo_fp] (rows1, {#}) = (rows2, P2)
    \<and> coordinator_execute (sql_effect_store 1800 (\<lambda>_. rows2) id) demo_platform 100 101 ''v'' demo_effect_key [(''image'', JStr ''v1'')]
        (\<lambda>w :: nat. (Suc w, Inr [])) id rows2 0 = ((rows2, 0), Inr ([(''ok'', JNull)], True))"
proof -
  let ?rows = "[(demo_effect_key, \<lparr>te_request_fingerprint = demo_fp, te_status = ''in_progress'', te_fencing_token = ''t'',
     te_lease_expires_at = 1000000, te_result = None, te_failure_class = None, te_created_at = 0, te_updated_at = 0\<rparr>)]"
  obtain rows1 where 1: "sql_effect_complete 5 ?rows demo_effect_key (canonical_fingerprint demo_platform [(''image'', JStr ''v1'')])
      ''t'' [(''ok'', JNull)] = (rows1, Inr ())"
    by (simp add: sql_effect_complete_def sql_effect_finish_def demo_fp_def)
  obtain rows2 P2 where 2: "table_run [Insert_Row 0 9 ''u'' demo_effect_key demo_fp, Select_Row 99 demo_effect_key demo_fp] (rows1, {#}) = (rows2, P2)"
    by (metis prod.collapse)
  have 3: "table_run [] (rows2, P2) = (rows2, P2)" by simp
  from table_receipt_final [OF 1 _ 2 3, of 100 1800 id 101 "''v''" "\<lambda>w. (Suc w, Inr [])" id 0]
  have "coordinator_execute (sql_effect_store 1800 (\<lambda>_. rows2) id) demo_platform 100 101 ''v'' demo_effect_key [(''image'', JStr ''v1'')]
        (\<lambda>w :: nat. (Suc w, Inr [])) id rows2 0 = ((rows2, 0), Inr ([(''ok'', JNull)], True))"
    by (simp add: datetime_range_def)
  with 2 show ?thesis by blast
qed

text \<open>
  C29 (completed_receipt_lost).  A claim that finds a lease expired compares only the
  fencing token when it takes the row over.  The owner may complete the row in between: the
  stored receipt is then overwritten, the operation runs a second time and the second receipt
  replaces the first.
\<close>

theorem completed_receipt_lost:
  assumes "fp = canonical_fingerprint pf req"
    and "dict_get rows k = Some row" "te_request_fingerprint row = fp"
    and "te_status row = ''in_progress''" "te_fencing_token row = t" "te_lease_expires_at row \<le> now"
    and "lease_end lease now = Inr until"
    and "operation w = (w', Inr r')"
    and "others = (\<lambda>rows. fst (sql_effect_complete now1 rows k fp t r))"
    and "S = sql_effect_store lease id others"
  shows "sql_effect_slot (others rows) k = Done fp r
    \<and> (\<exists>rows'. coordinator_execute S pf now now' token k req operation id rows w = ((rows', w'), Inr (r', False))
         \<and> sql_effect_slot rows' k = Done fp r')"
proof -
  have others: "others rows = dict_set k (row\<lparr>te_status := ''completed'', te_result := Some r, te_failure_class := None,
      te_lease_expires_at := now1, te_updated_at := now1\<rparr>) rows"
    using assms(2-5,9) by (simp add: sql_effect_complete_def sql_effect_finish_def)
  have claim: "sql_effect_claim lease id others now token rows k fp =
      (dict_set k (row\<lparr>te_result := Some r, te_status := ''in_progress'', te_fencing_token := token,
         te_lease_expires_at := until, te_failure_class := None, te_updated_at := now\<rparr>) (others rows), Inr (Owned token))"
    using assms(2-7)
    by (simp add: sql_effect_claim_def sql_effect_insert_def sql_effect_select_def sql_effect_recover_def others)
  show ?thesis
    using assms(1,3,8,10) claim
    by (simp add: others coordinator_execute_def Let_def sql_effect_complete_def sql_effect_finish_def sql_effect_store_def)
qed

theorem completed_receipt_lost_witness:
  "\<exists>rows t. sql_effect_slot (fst (sql_effect_complete 5 rows demo_effect_key demo_fp t [(''first'', JNull)])) demo_effect_key
        = Done demo_fp [(''first'', JNull)]
    \<and> (\<exists>rows'. coordinator_execute (sql_effect_store 1 id
            (\<lambda>rows. fst (sql_effect_complete 5 rows demo_effect_key demo_fp t [(''first'', JNull)])))
          demo_platform 1000000 7 ''u'' demo_effect_key [(''image'', JStr ''v1'')] (\<lambda>w :: nat. (Suc w, Inr [(''second'', JNull)])) id rows 1
        = ((rows', 2), Inr ([(''second'', JNull)], False))
        \<and> sql_effect_slot rows' demo_effect_key = Done demo_fp [(''second'', JNull)])"
proof -
  let ?row = "\<lparr>te_request_fingerprint = demo_fp, te_status = ''in_progress'', te_fencing_token = ''t'',
     te_lease_expires_at = 1000000, te_result = None, te_failure_class = None, te_created_at = 0, te_updated_at = 0\<rparr>"
  have "lease_end 1 1000000 = Inr 2000000" by (simp add: lease_end_def datetime_range_def)
  from completed_receipt_lost [OF demo_fp_def _ _ _ _ _ this _ refl refl, of "[(demo_effect_key, ?row)]" demo_effect_key ?row "''t''"
      "\<lambda>w :: nat. (Suc w, Inr [(''second'', JNull)])" 1 2 "[(''second'', JNull)]" 5 "[(''first'', JNull)]" 7 "''u''"]
  show ?thesis by (intro exI [of _ "[(demo_effect_key, ?row)]"] exI [of _ "''t''"]) simp
qed

text \<open>
  Property (failed_key_binding).  After an operation failed, the store in memory forgets the
  key, which can be bound to other input; the table keeps it bound and refuses other input.
\<close>

theorem failed_key_binding:
  assumes "fp' \<noteq> fp"
    and "effect_claim now token [] k fp = (rows, Inr (Owned t))"
    and "effect_fail now1 rows k fp t ex = (rows1, Inr ())"
    and "sql_effect_claim lease id id now token [] k fp = (table, Inr (Owned t))"
    and "sql_effect_fail now1 table k fp t ex = (table1, Inr ())"
    and "datetime_range (now2 + seconds lease)"
  shows "snd (effect_claim now2 token' rows1 k fp') = Inr (Owned token')
    \<and> sql_effect_claim lease id id now2 token' table1 k fp' = (table1, Inl SideEffectConflictError)"
proof -
  have "rows1 = []"
    using assms(2,3) by (auto simp: effect_claim_def effect_fail_def effect_owned_def)
  moreover obtain row where "dict_get table1 k = Some row" "te_request_fingerprint row = fp"
    using assms(4,5)
    by (auto simp: sql_effect_claim_def sql_effect_insert_def sql_effect_fail_def sql_effect_finish_def
        split: sum.splits)
  ultimately show ?thesis
    using assms(1,6)
    by (simp add: effect_claim_def sql_effect_claim_def lease_end_def sql_effect_insert_def sql_effect_select_def)
qed

theorem failed_key_binding_witness:
  "\<exists>rows table. snd (effect_claim 9 ''u'' rows demo_effect_key ''other'') = Inr (Owned ''u'')
     \<and> sql_effect_claim 1800 id id 9 ''u'' table demo_effect_key ''other'' = (table, Inl SideEffectConflictError)"
proof -
  obtain rows where 1: "effect_claim 0 ''t'' [] demo_effect_key ''fp'' = (rows, Inr (Owned ''t''))"
    by (simp add: effect_claim_def)
  obtain rows1 where 2: "effect_fail 1 rows demo_effect_key ''fp'' ''t'' TimeoutError = (rows1, Inr ())"
    using 1 by (auto simp: effect_claim_def effect_fail_def effect_owned_def)
  obtain table where 3: "sql_effect_claim 1800 id id 0 ''t'' [] demo_effect_key ''fp'' = (table, Inr (Owned ''t''))"
    by (simp add: sql_effect_claim_def lease_end_def datetime_range_def sql_effect_insert_def)
  obtain table1 where 4: "sql_effect_fail 1 table demo_effect_key ''fp'' ''t'' TimeoutError = (table1, Inr ())"
    using 3 by (auto simp: sql_effect_claim_def lease_end_def datetime_range_def sql_effect_insert_def
        sql_effect_fail_def sql_effect_finish_def)
  from failed_key_binding [OF _ 1 2 3 4, of "''other''" 9 "''u''"] show ?thesis
    by (auto simp: datetime_range_def)
qed

end
