(* ===== verification/Llm_Safety.thy ===== *)
theory Llm_Safety
  imports Governed_Llm
begin

section \<open>Governed model calls: the stores keep the contract, the calls keep their bounds\<close>

text \<open>
  The two replay stores of \<open>Governed_Llm\<close> are instances of the contract of \<open>Fenced_Effects\<close>; what
  \<open>generate\<close> does with a claim, what reaches the provider and how often, and what a replay
  answers follow from it.
\<close>

subsection \<open>The store in memory\<close>

definition llm_slot :: "llm_rows \<Rightarrow> llm_key \<Rightarrow> llm_receipt slot" where
  "llm_slot rows key =
     (case dict_get rows key of
        None \<Rightarrow> Free
      | Some row \<Rightarrow>
          (case (lw_status row = ''completed'', lw_receipt row) of
             (True, Some r) \<Rightarrow> Done (lw_prompt_fingerprint row) r
           | _ \<Rightarrow> Busy (lw_prompt_fingerprint row) (lw_fencing_token row)))"

lemma llm_slot_set [simp]:
  "llm_slot (dict_set k row rows) = (llm_slot rows)(k :=
     (case (lw_status row = ''completed'', lw_receipt row) of
        (True, Some r) \<Rightarrow> Done (lw_prompt_fingerprint row) r
      | _ \<Rightarrow> Busy (lw_prompt_fingerprint row) (lw_fencing_token row)))"
  by (simp add: llm_slot_def fun_eq_iff)

lemma llm_slot_delete [simp]: "llm_slot (AList.delete k rows) = (llm_slot rows)(k := Free)"
  by (simp add: llm_slot_def fun_eq_iff delete_conv')

lemma llm_owned_Inr:
  "llm_owned rows k fp t = Inr row \<Longrightarrow>
     dict_get rows k = Some row \<and> lw_prompt_fingerprint row = fp \<and> llm_slot rows k = Busy fp t"
  by (auto simp: llm_owned_def llm_slot_def split: option.splits if_splits)

lemma llm_claim_Owned:
  "llm_claim now tok rows k fp = (rows', Inr (Owned t)) \<longleftrightarrow>
     llm_slot rows k = Free \<and> t = tok
     \<and> rows' = dict_set k \<lparr>lw_prompt_fingerprint = fp, lw_status = ''in_progress'', lw_fencing_token = tok, lw_receipt = None\<rparr> rows"
  by (auto simp: llm_claim_def llm_slot_def split: option.splits bool.splits if_splits)

lemma llm_claim_other: "llm_claim now tok rows k fp = (rows', c) \<Longrightarrow> \<forall>t. c \<noteq> Inr (Owned t) \<Longrightarrow> rows' = rows"
  by (auto simp: llm_claim_def split: option.splits if_splits)

lemma llm_claim_Replayed: "llm_claim now tok rows k fp = (rows', Inr (Replayed r)) \<Longrightarrow> llm_slot rows k = Done fp r"
  by (auto simp: llm_claim_def llm_slot_def split: option.splits if_splits)

lemma llm_claim_Done: "llm_slot rows k = Done fp r \<Longrightarrow> llm_claim now tok rows k fp = (rows, Inr (Replayed r))"
  by (auto simp: llm_claim_def llm_slot_def split: option.splits bool.splits)

interpretation mem_llm: receipt_store in_memory_llm_store llm_slot "\<lambda>now. True"
proof unfold_locales
  fix now :: time and tok s k fp s' t
  assume "store_claim in_memory_llm_store now tok s k fp = (s', Inr (Owned t))"
  then show "(\<forall>fp' r. llm_slot s k \<noteq> Done fp' r) \<and> llm_slot s' = (llm_slot s)(k := Busy fp t)"
    by (simp add: llm_claim_Owned)
next
  fix now :: time and tok s k fp s' c
  assume "store_claim in_memory_llm_store now tok s k fp = (s', c)" "\<forall>t. c \<noteq> Inr (Owned t)"
  then show "llm_slot s' = llm_slot s" by (auto dest: llm_claim_other)
next
  fix now :: time and tok s k fp s' r
  assume "store_claim in_memory_llm_store now tok s k fp = (s', Inr (Replayed r))"
  then show "llm_slot s k = Done fp r" by (auto dest: llm_claim_Replayed)
next
  fix now :: time and tok s k fp r
  assume "llm_slot s k = Done fp r"
  then show "store_claim in_memory_llm_store now tok s k fp = (s, Inr (Replayed r))"
    by (simp add: llm_claim_Done)
next
  fix now :: time and s k fp t r s' c
  assume "store_complete in_memory_llm_store now s k fp t r = (s', c)"
  then show "if c = Inr () then llm_slot s k = Busy fp t \<and> llm_slot s' = (llm_slot s)(k := Done fp r)
    else llm_slot s' = llm_slot s"
    by (cases "llm_owned s k fp t") (auto simp: llm_complete_def dest: llm_owned_Inr)
next
  fix now :: time and s k fp t ex s' c
  assume "store_fail in_memory_llm_store now s k fp t ex = (s', c)"
  then show "if c = Inr () then llm_slot s k = Busy fp t \<and> llm_slot s' = (llm_slot s)(k := Free)
    else llm_slot s' = llm_slot s"
    by (cases "llm_owned s k fp t") (auto simp: llm_fail_def dest: llm_owned_Inr)
qed

subsection \<open>The table\<close>

definition gc_slot :: "governed_llm_call \<Rightarrow> llm_receipt slot" where
  "gc_slot row =
     (if gc_status row = ''completed'' \<and> gc_provenance row \<noteq> None
      then Done (gc_prompt_fingerprint row) (case gc_value row of None \<Rightarrow> [] | Some v \<Rightarrow> v, the (gc_provenance row))
      else if gc_status row = ''in_progress'' \<or> gc_status row = ''completed''
      then Busy (gc_prompt_fingerprint row) (gc_fencing_token row)
      else Free)"

definition sql_llm_slot :: "llm_table \<Rightarrow> llm_key \<Rightarrow> llm_receipt slot" where
  "sql_llm_slot rows key = (case dict_get rows key of None \<Rightarrow> Free | Some row \<Rightarrow> gc_slot row)"

lemma sql_llm_slot_set [simp]: "sql_llm_slot (dict_set k row rows) = (sql_llm_slot rows)(k := gc_slot row)"
  by (simp add: sql_llm_slot_def fun_eq_iff)

lemma sql_llm_finish_cases:
  "sql_llm_finish now rows k fp t st v p fc =
     (if sql_llm_slot rows k = Busy fp t \<and> map_option gc_status (dict_get rows k) = Some ''in_progress''
      then (dict_set k ((the (dict_get rows k))\<lparr>gc_status := st, gc_value := v, gc_provenance := p,
              gc_failure_class := fc, gc_lease_expires_at := now, gc_updated_at := now\<rparr>) rows, Inr ())
      else (rows, Inl LLMCallInProgressError))"
  by (auto simp: sql_llm_finish_def sql_llm_slot_def gc_slot_def split: option.splits)

lemma sql_llm_slot_Busy:
  "sql_llm_slot rows k = Busy fp t \<Longrightarrow>
     \<exists>row. dict_get rows k = Some row \<and> gc_prompt_fingerprint row = fp \<and> gc_fencing_token row = t"
  by (auto simp: sql_llm_slot_def gc_slot_def split: option.splits if_splits)

lemma sql_llm_complete_slot:
  assumes "sql_llm_complete now rows k fp t r = (rows', c)"
  shows "if c = Inr () then sql_llm_slot rows k = Busy fp t \<and> sql_llm_slot rows' = (sql_llm_slot rows)(k := Done fp r)
    else sql_llm_slot rows' = sql_llm_slot rows"
  using assms
  by (auto simp: sql_llm_complete_def sql_llm_finish_cases gc_slot_def dest!: sql_llm_slot_Busy split: if_splits)

lemma sql_llm_fail_slot:
  assumes "sql_llm_fail now rows k fp t ex = (rows', c)"
  shows "if c = Inr () then sql_llm_slot rows k = Busy fp t \<and> sql_llm_slot rows' = (sql_llm_slot rows)(k := Free)
    else sql_llm_slot rows' = sql_llm_slot rows"
  using assms by (auto simp: sql_llm_fail_def sql_llm_finish_cases gc_slot_def split: if_splits)

lemma sql_llm_insert_cases:
  "sql_llm_insert now until tok rows k fp = Inr rows' \<longleftrightarrow> dict_get rows k = None
     \<and> rows' = dict_set k \<lparr>gc_prompt_fingerprint = fp, gc_status = ''in_progress'', gc_fencing_token = tok,
          gc_lease_expires_at = until, gc_value = None, gc_provenance = None, gc_failure_class = None,
          gc_created_at = now, gc_updated_at = now\<rparr> rows"
  by (auto simp: sql_llm_insert_def split: option.splits)

lemma sql_llm_select_cases:
  assumes "sql_llm_select now rows k fp = Inr (Inr old)"
  shows "\<exists>row. dict_get rows k = Some row \<and> gc_prompt_fingerprint row = fp \<and> gc_fencing_token row = old
    \<and> gc_status row \<noteq> ''completed''"
  using assms by (auto simp: sql_llm_select_def split: option.splits if_splits)

lemma sql_llm_claim_Owned:
  assumes "sql_llm_claim lease id id now tok rows k fp = (rows', Inr (Owned t))"
  shows "(\<forall>fp' r. sql_llm_slot rows k \<noteq> Done fp' r) \<and> sql_llm_slot rows' = (sql_llm_slot rows)(k := Busy fp t)"
proof -
  obtain until where until: "lease_end lease now = Inr until"
    using assms by (cases "lease_end lease now") (simp_all add: sql_llm_claim_def)
  show ?thesis
  proof (cases "sql_llm_insert now until tok rows k fp")
    case (Inr rows1)
    with assms until have "rows' = rows1" "t = tok" by (simp_all add: sql_llm_claim_def)
    with Inr show ?thesis
      by (simp add: sql_llm_insert_cases gc_slot_def) (simp add: sql_llm_slot_def)
  next
    case (Inl e)
    with assms until obtain old where old: "sql_llm_select now rows k fp = Inr (Inr old)"
      and rec: "sql_llm_recover now until tok rows k old = (rows', Inr (Owned t))"
      by (auto simp: sql_llm_claim_def split: sum.splits)
    from sql_llm_select_cases [OF old] obtain row where row: "dict_get rows k = Some row"
      "gc_prompt_fingerprint row = fp" "gc_fencing_token row = old" "gc_status row \<noteq> ''completed''" by auto
    with rec have "t = tok" "rows' = dict_set k (row\<lparr>gc_status := ''in_progress'', gc_fencing_token := tok,
        gc_lease_expires_at := until, gc_failure_class := None, gc_updated_at := now\<rparr>) rows"
      by (auto simp: sql_llm_recover_def)
    with row show ?thesis by (simp add: gc_slot_def sql_llm_slot_def [of rows])
  qed
qed

lemma sql_llm_claim_other:
  assumes "sql_llm_claim lease id id now tok rows k fp = (rows', c)" "\<forall>t. c \<noteq> Inr (Owned t)"
  shows "rows' = rows"
  using assms
  by (auto simp: sql_llm_claim_def sql_llm_insert_def sql_llm_select_def sql_llm_recover_def
      split: sum.splits option.splits if_splits)

lemma sql_llm_claim_Replayed:
  assumes "sql_llm_claim lease id id now tok rows k fp = (rows', Inr (Replayed r))"
  shows "sql_llm_slot rows k = Done fp r"
  using assms
  by (auto simp: sql_llm_claim_def sql_llm_insert_def sql_llm_select_def sql_llm_recover_def
      sql_llm_slot_def gc_slot_def split: sum.splits option.splits if_splits)

lemma sql_llm_claim_Done:
  assumes "sql_llm_slot rows k = Done fp r" "datetime_range (now + seconds lease)"
  shows "sql_llm_claim lease id id now tok rows k fp = (rows, Inr (Replayed r))"
  using assms
  by (auto simp: sql_llm_claim_def lease_end_def sql_llm_insert_def sql_llm_select_def
      sql_llm_slot_def gc_slot_def split: option.splits if_splits)

interpretation sql_llm:
  receipt_store "sql_llm_store lease" sql_llm_slot "\<lambda>now. datetime_range (now + seconds lease)" for lease
proof unfold_locales
  fix now tok s k fp s' t
  assume "store_claim (sql_llm_store lease) now tok s k fp = (s', Inr (Owned t))"
  then show "(\<forall>fp' r. sql_llm_slot s k \<noteq> Done fp' r) \<and> sql_llm_slot s' = (sql_llm_slot s)(k := Busy fp t)"
    unfolding sql_llm_store_sel by (rule sql_llm_claim_Owned)
next
  fix now tok s k fp s' c
  assume "store_claim (sql_llm_store lease) now tok s k fp = (s', c)" "\<forall>t. c \<noteq> Inr (Owned t)"
  then show "sql_llm_slot s' = sql_llm_slot s" by (auto dest: sql_llm_claim_other)
next
  fix now tok s k fp s' r
  assume "store_claim (sql_llm_store lease) now tok s k fp = (s', Inr (Replayed r))"
  then show "sql_llm_slot s k = Done fp r" by (auto dest: sql_llm_claim_Replayed)
next
  fix now tok s k fp r
  assume "sql_llm_slot s k = Done fp r" "datetime_range (now + seconds lease)"
  then show "store_claim (sql_llm_store lease) now tok s k fp = (s, Inr (Replayed r))"
    by (simp add: sql_llm_claim_Done)
next
  fix now s k fp t r s' c
  assume "store_complete (sql_llm_store lease) now s k fp t r = (s', c)"
  then show "if c = Inr () then sql_llm_slot s k = Busy fp t \<and> sql_llm_slot s' = (sql_llm_slot s)(k := Done fp r)
    else sql_llm_slot s' = sql_llm_slot s"
    unfolding sql_llm_store_sel by (rule sql_llm_complete_slot)
next
  fix now s k fp t ex s' c
  assume "store_fail (sql_llm_store lease) now s k fp t ex = (s', c)"
  then show "if c = Inr () then sql_llm_slot s k = Busy fp t \<and> sql_llm_slot s' = (sql_llm_slot s)(k := Free)
    else sql_llm_slot s' = sql_llm_slot s"
    unfolding sql_llm_store_sel by (rule sql_llm_fail_slot)
qed

subsection \<open>Redaction\<close>

text \<open>Other values in the secret-bearing fields, at any depth.\<close>

fun scramble :: "(str \<Rightarrow> json \<Rightarrow> json) \<Rightarrow> json \<Rightarrow> json" where
  "scramble f (JObj ms) = JObj (map (\<lambda>(k, v). (k, if secret_key k then f k v else scramble f v)) ms)"
| "scramble f (JArr xs) = JArr (map (scramble f) xs)"
| "scramble f v = v"

abbreviation scramble_members :: "(str \<Rightarrow> json \<Rightarrow> json) \<Rightarrow> jobj \<Rightarrow> jobj" where
  "scramble_members f ms \<equiv> map (\<lambda>(k, v). (k, if secret_key k then f k v else scramble f v)) ms"

lemma redact_scramble [simp]: "redact (scramble f v) = redact v"
proof (induction v rule: redact.induct)
  case (1 ms)
  have "map (\<lambda>(k, v). (k, if secret_key k then JStr ''[REDACTED]'' else redact v)) (scramble_members f ms)
      = map (\<lambda>(k, v). (k, if secret_key k then JStr ''[REDACTED]'' else redact v)) ms"
    using 1 by fastforce
  then show ?case by (simp del: map_map)
qed simp_all

lemma build_prompt_scramble:
  "build_prompt (q\<lparr>lq_untrusted_input := scramble_members f (lq_untrusted_input q)\<rparr>) = build_prompt q"
  using redact_scramble [of f "JObj (lq_untrusted_input q)"] by (simp add: build_prompt_def del: redact.simps)

text \<open>Values without a secret-bearing field; the keys of a dictionary are distinct.\<close>

fun public_json :: "json \<Rightarrow> bool" where
  "public_json (JObj ms) \<longleftrightarrow> distinct (map fst ms) \<and> (\<forall>(k, v)\<in>set ms. \<not> secret_key k \<and> public_json v)"
| "public_json (JArr xs) \<longleftrightarrow> (\<forall>v\<in>set xs. public_json v)"
| "public_json v \<longleftrightarrow> True"

lemma dict_rebuild:
  "distinct (map fst (acc @ ms)) \<Longrightarrow> foldl (\<lambda>acc (k, v). dict_set k v acc) acc ms = acc @ ms"
proof (induction ms arbitrary: acc)
  case (Cons m ms)
  obtain k v where m: "m = (k, v)" by fastforce
  with Cons.prems have "k \<notin> fst ` set acc" by auto
  then have "dict_set k v acc = acc @ [(k, v)]" by (induction acc) auto
  with Cons m show ?case by simp
qed simp

lemma redact_public: "public_json v \<Longrightarrow> redact v = v"
proof (induction v rule: redact.induct)
  case (1 ms)
  have "map (\<lambda>(k, v). (k, if secret_key k then JStr ''[REDACTED]'' else redact v)) ms = ms"
    using 1 by (intro map_idI) fastforce
  with 1 show ?case by (simp add: dict_rebuild)
qed (simp_all add: map_idI)

subsection \<open>What a call does\<close>

lemma accept_response_Inr:
  assumes "accept_response pf loads provider q fp response = Inr r"
  shows "lp_completion_tokens (snd r) \<le> lq_max_output_tokens q"
    "loads (lr_text response) = Some (JObj (fst r))" "lp_prompt_fingerprint (snd r) = fp"
    "lp_output_fingerprint (snd r) = digest pf (lr_text response)"
  using assms
  by (auto simp: accept_response_def Let_def split: option.splits json.splits if_splits)

text \<open>A call that touches the world passed every check and owns its key.\<close>

lemma governed_generate_called:
  assumes "governed_generate S pf loads p now now' token q e s w = ((s', w'), out)" "w' \<noteq> w"
  shows "dict_get (lq_output_schema q) ''type'' = Some (JStr ''object'')" "lq_model q = pr_model p"
    "estimate_tokens (build_prompt q) \<le> lq_max_input_tokens q"
    "\<exists>s1 t. store_claim S now token s (lq_organization_id q, lq_idempotency_key q) (digest pf (build_prompt q))
       = (s1, Inr (Owned t))"
    "w' = fst (pr_generate p (build_prompt q) (lq_output_schema q) w)"
  using assms
  by (auto simp: governed_generate_def Let_def split: prod.splits sum.splits claim.splits if_splits)

text \<open>A proposal of its own run.\<close>

lemma governed_generate_fresh:
  assumes "governed_generate S pf loads p now now' token q e s w = ((s', w'), Inr (r, False))"
  shows "\<exists>response s0 t. pr_generate p (build_prompt q) (lq_output_schema q) w = (w', Inr response)
    \<and> accept_response pf loads (pr_provider p) q (digest pf (build_prompt q)) response = Inr r
    \<and> store_complete S now' s0 (lq_organization_id q, lq_idempotency_key q) (digest pf (build_prompt q)) t r = (s', Inr ())"
  using assms
  by (auto simp: governed_generate_def Let_def bind_res_Inr_iff
      split: prod.splits sum.splits claim.splits if_splits)

text \<open>A replay asks the claim only.\<close>

lemma governed_generate_replay:
  assumes "dict_get (lq_output_schema q) ''type'' = Some (JStr ''object'')" "lq_model q = pr_model p"
    and "estimate_tokens (build_prompt q) \<le> lq_max_input_tokens q"
    and "store_claim S now token s (lq_organization_id q, lq_idempotency_key q) (digest pf (build_prompt q))
       = (s, Inr (Replayed r))"
  shows "governed_generate S pf loads p now now' token q e s w = ((s, w), Inr (r, True))"
  using assms by (simp add: governed_generate_def Let_def)

subsection \<open>How often the provider is asked\<close>

text \<open>The adapter with a counter of the requests it sends.\<close>

definition counted :: "'w llm_adapter \<Rightarrow> ('w \<times> nat) llm_adapter" where
  "counted a =
     \<lparr>ad_provider = ad_provider a, ad_model = ad_model a, ad_max_retries = ad_max_retries a,
      ad_generate = (\<lambda>prompt schema (w, n).
        case ad_generate a prompt schema w of (w', r) \<Rightarrow> ((w', Suc n), r)),
      ad_record_usage = map_option (\<lambda>record_usage provider model i j (w, n).
        case record_usage provider model i j w of (w', r) \<Rightarrow> ((w', n), r)) (ad_record_usage a)\<rparr>"

lemma counted_attempt:
  assumes "adapter_attempt loads conforms (counted a) prompt schema (w, n) = ((w', m), out)"
  shows "m = Suc n"
  using assms
  by (auto simp: adapter_attempt_def counted_def split: prod.splits sum.splits option.splits)

lemma counted_loop:
  assumes "adapter_loop (adapter_attempt loads conforms (counted a) prompt schema) k (w, n) = ((w', m), out)"
  shows "n \<le> m \<and> m \<le> n + k"
  using assms
proof (induction k arbitrary: w n)
  case (Suc k)
  obtain w1 n1 out1 where
    att: "adapter_attempt loads conforms (counted a) prompt schema (w, n) = ((w1, n1), out1)"
    by (metis prod.collapse)
  from counted_attempt [OF att] have "n1 = Suc n" .
  with Suc.prems Suc.IH [of w1 n1] att show ?case
    by (auto split: sum.splits if_splits)
qed simp

lemma adapter_loop_Inr:
  assumes "adapter_loop attempt k w = (w', Inr response)"
  shows "\<exists>w0. attempt w0 = (w', Inr response)"
  using assms
  by (induction k arbitrary: w) (auto split: prod.splits sum.splits if_splits)

lemma adapter_generate_Inr:
  assumes "adapter_generate loads conforms a prompt schema w = (w', Inr response)"
  shows "\<exists>text value. loads text = Some value \<and> conforms schema value \<and> lr_text response = dumps True value"
proof -
  obtain w0 where "adapter_attempt loads conforms a prompt schema w0 = (w', Inr response)"
    using adapter_loop_Inr [OF assms [unfolded adapter_generate_def]] by blast
  then obtain response0 where "recover_json loads conforms schema response0 = Inr response"
    by (auto simp: adapter_attempt_def split: prod.splits sum.splits)
  then show ?thesis by (auto simp: recover_json_def split: option.splits) blast
qed

text \<open>As for the side effects, a key is called at most once, but for takeovers.\<close>

lemma llm_called_once:
  "times_performed (effect_run in_memory_llm_store llm_slot evs (idle [])) k \<le> 1"
  "times_performed (effect_run (sql_llm_store lease) sql_llm_slot evs (idle [])) k
     \<le> 1 + count_list (takeovers (effect_run (sql_llm_store lease) sql_llm_slot evs (idle []))) k"
proof -
  have "takeovers (effect_run in_memory_llm_store llm_slot evs (idle [])) = []"
    by (rule mem_llm.no_takeovers) (simp_all add: llm_claim_Owned idle_def)
  with mem_llm.performed_bound [of "[]" evs k]
  show "times_performed (effect_run in_memory_llm_store llm_slot evs (idle [])) k \<le> 1"
    by (simp add: llm_slot_def)
  show "times_performed (effect_run (sql_llm_store lease) sql_llm_slot evs (idle [])) k
     \<le> 1 + count_list (takeovers (effect_run (sql_llm_store lease) sql_llm_slot evs (idle []))) k"
    by (rule sql_llm.performed_bound) (simp add: sql_llm_slot_def)
qed

subsection \<open>A request and an adapter on which the hypotheses hold\<close>

definition demo_loads :: "str \<Rightarrow> json option" where
  "demo_loads s = (if s = ''{}'' then Some (JObj []) else None)"

definition demo_llm_request :: llm_request where
  "demo_llm_request =
     \<lparr>lq_organization_id = ''org'', lq_actor_id = ''ann'', lq_idempotency_key = ''key'', lq_purpose = ''plan'',
      lq_model = ''mock'', lq_instructions = ''plan it'',
      lq_untrusted_input = [(''Api-Key'', JStr ''k''), (''note'', JStr ''n'')],
      lq_output_schema = [(''type'', JStr ''object'')], lq_max_input_tokens = 100, lq_max_output_tokens = 10\<rparr>"

definition demo_llm_adapter :: "(unit \<times> nat) llm_adapter" where
  "demo_llm_adapter = counted (mock_llm_adapter ''{}'' ''mock'' 3)"

text \<open>A validator for the schema \<open>{"type": "object"}\<close>.\<close>

definition demo_conforms :: "jobj \<Rightarrow> json \<Rightarrow> bool" where
  "demo_conforms schema v = (case v of JObj _ \<Rightarrow> True | _ \<Rightarrow> False)"

abbreviation demo_provider :: "(unit \<times> nat) llm_provider" where
  "demo_provider \<equiv> adapter_provider demo_loads demo_conforms demo_llm_adapter"

lemma demo_prompt_tokens: "estimate_tokens (build_prompt demo_llm_request) \<le> 100"
  by code_simp

lemma demo_generate:
  "pr_generate demo_provider prompt schema ((), n) =
     (((), Suc n), Inr \<lparr>lr_text = ''{}'', lr_model = ''mock'', lr_prompt_tokens = count_words False prompt,
        lr_completion_tokens = 1, lr_total_tokens = count_words False prompt + 1, lr_request_id = None\<rparr>)"
  by (simp add: adapter_provider_def demo_llm_adapter_def adapter_generate_def adapter_attempt_def counted_def
      mock_llm_adapter_def mock_generate_def recover_json_def demo_loads_def demo_conforms_def dumps_def numeral_eq_Suc is_space_def)

lemma demo_provider_sel [simp]: "pr_model demo_provider = ''mock''"
  by (simp add: adapter_provider_def demo_llm_adapter_def counted_def mock_llm_adapter_def)

lemma demo_llm_request_sel [simp]:
  "lq_model demo_llm_request = ''mock''" "lq_max_input_tokens demo_llm_request = 100"
  "lq_max_output_tokens demo_llm_request = 10"
  "dict_get (lq_output_schema demo_llm_request) ''type'' = Some (JStr ''object'')"
  "lq_organization_id demo_llm_request = ''org''" "lq_idempotency_key demo_llm_request = ''key''"
  by (simp_all add: demo_llm_request_def)

lemma demo_call:
  "\<exists>rows p. governed_generate (sql_llm_store 180) demo_platform demo_loads demo_provider 0 1 ''t'' demo_llm_request id [] ((), 0)
     = ((rows, ((), 1)), Inr (([], p), False))"
  using demo_prompt_tokens
  by (simp add: governed_generate_def Let_def demo_generate accept_response_def demo_loads_def
      sql_llm_claim_def lease_end_def datetime_range_def sql_llm_insert_def sql_llm_complete_def sql_llm_finish_def)

subsection \<open>The properties\<close>

text \<open>
  C12 (llm_call_governed).  Whatever a call does to the outside world it does by one call of
  the provider with the prompt of the request, after the model and the input budget were checked
  and with a token just handed out for the key and this prompt; a proposal it returns is the
  object the response holds, within the output budget and with the fingerprints of both texts.
\<close>

theorem llm_call_governed:
  assumes "governed_generate S pf loads p now now' token q e s w = ((s', w'), out)" "w' \<noteq> w"
  shows "lq_model q = pr_model p \<and> estimate_tokens (build_prompt q) \<le> lq_max_input_tokens q
    \<and> (\<exists>s1 t. store_claim S now token s (lq_organization_id q, lq_idempotency_key q) (digest pf (build_prompt q))
         = (s1, Inr (Owned t)))
    \<and> w' = fst (pr_generate p (build_prompt q) (lq_output_schema q) w)
    \<and> (\<forall>r b. out = Inr (r, b) \<longrightarrow> \<not> b
         \<and> (\<exists>response. pr_generate p (build_prompt q) (lq_output_schema q) w = (w', Inr response)
              \<and> loads (lr_text response) = Some (JObj (fst r))
              \<and> lp_completion_tokens (snd r) \<le> lq_max_output_tokens q
              \<and> lp_prompt_fingerprint (snd r) = digest pf (build_prompt q)
              \<and> lp_output_fingerprint (snd r) = digest pf (lr_text response)))"
proof -
  have fresh: "\<not> b" if "out = Inr (r, b)" for r b
    using assms that
    by (auto simp: governed_generate_def Let_def split: prod.splits sum.splits claim.splits if_splits)
  have kept: "\<exists>response. pr_generate p (build_prompt q) (lq_output_schema q) w = (w', Inr response)
      \<and> loads (lr_text response) = Some (JObj (fst r))
      \<and> lp_completion_tokens (snd r) \<le> lq_max_output_tokens q
      \<and> lp_prompt_fingerprint (snd r) = digest pf (build_prompt q)
      \<and> lp_output_fingerprint (snd r) = digest pf (lr_text response)"
    if "out = Inr (r, b)" for r b
  proof -
    have "out = Inr (r, False)" using fresh [OF that] that by simp
    from governed_generate_fresh [OF assms(1) [unfolded this]] obtain response where
      "pr_generate p (build_prompt q) (lq_output_schema q) w = (w', Inr response)"
      "accept_response pf loads (pr_provider p) q (digest pf (build_prompt q)) response = Inr r" by blast
    with accept_response_Inr [OF this(2)] show ?thesis by blast
  qed
  show ?thesis
    by (intro conjI allI impI governed_generate_called [OF assms]) (erule fresh, erule kept)
qed

theorem llm_call_governed_witness:
  "\<exists>rows r. governed_generate (sql_llm_store 180) demo_platform demo_loads demo_provider 0 1 ''t'' demo_llm_request id [] ((), 0)
       = ((rows, ((), 1)), Inr (r, False))
     \<and> estimate_tokens (build_prompt demo_llm_request) \<le> 100 \<and> lp_completion_tokens (snd r) \<le> 10"
proof -
  obtain rows p where
    "governed_generate (sql_llm_store 180) demo_platform demo_loads demo_provider 0 1 ''t'' demo_llm_request id [] ((), 0)
     = ((rows, ((), 1)), Inr (([], p), False))"
    using demo_call by blast
  from llm_call_governed [OF this] this show ?thesis by auto
qed

text \<open>
  C13 (secrets_never_reach_provider).  The values of secret-bearing fields of the input, at
  any depth, have no influence on a call: not on the prompt, the fingerprint, the claim, what the
  provider is asked and what is returned.  Input without such fields is passed on unchanged.
\<close>

theorem secrets_never_reach_provider:
  "governed_generate S pf loads p now now' token
      (q\<lparr>lq_untrusted_input := scramble_members f (lq_untrusted_input q)\<rparr>) e s w
    = governed_generate S pf loads p now now' token q e s w
   \<and> (public_json v \<longrightarrow> redact v = v)"
proof
  define ms where "ms = scramble_members f (lq_untrusted_input q)"
  have prompt: "build_prompt (q\<lparr>lq_untrusted_input := ms\<rparr>) = build_prompt q"
    unfolding ms_def by (rule build_prompt_scramble)
  have "accept_response pf loads (pr_provider p) (q\<lparr>lq_untrusted_input := ms\<rparr>) =
      accept_response pf loads (pr_provider p) q"
    by (intro ext) (simp add: accept_response_def)
  with prompt show "governed_generate S pf loads p now now' token
      (q\<lparr>lq_untrusted_input := scramble_members f (lq_untrusted_input q)\<rparr>) e s w
    = governed_generate S pf loads p now now' token q e s w"
    unfolding ms_def [symmetric] by (simp add: governed_generate_def Let_def)
qed (simp add: redact_public)

theorem secrets_never_reach_provider_witness:
  "redact (JObj [(''note'', JStr ''n'')]) = JObj [(''note'', JStr ''n'')]
   \<and> redact (JObj [(''Api-Key'', JStr ''k'')]) = JObj [(''Api-Key'', JStr ''[REDACTED]'')]"
proof -
  have "public_json (JObj [(''note'', JStr ''n'')])" by code_simp
  then have "redact (JObj [(''note'', JStr ''n'')]) = JObj [(''note'', JStr ''n'')]"
    using secrets_never_reach_provider
      [where v = "JObj [(''note'', JStr ''n'')]" and q = demo_llm_request and p = demo_provider and S = in_memory_llm_store] by blast
  moreover have "secret_key ''Api-Key''" by code_simp
  ultimately show ?thesis by simp
qed

text \<open>
  C30 (replay_ignores_schema).  The fingerprint of a call covers the prompt only.  Once a
  proposal is stored, the same key answers it to every request with the same prompt, for another
  actor, another output schema and a smaller output budget: the value is not checked again.
\<close>

theorem replay_ignores_schema:
  assumes "governed_generate (sql_llm_store lease) pf loads p now now' token q e rows w = ((rows1, w1), Inr (r, False))"
    and "dict_get schema ''type'' = Some (JStr ''object'')" "datetime_range (now2 + seconds lease)"
    and "rows2 = sys_store (effect_run (sql_llm_store lease) sql_llm_slot evs (idle rows1))"
  shows "governed_generate (sql_llm_store lease) pf loads p now2 now3 token'
      (q\<lparr>lq_actor_id := actor, lq_output_schema := schema, lq_max_output_tokens := budget\<rparr>) e' rows2 w2
    = ((rows2, w2), Inr (r, True))"
proof -
  let ?q = "q\<lparr>lq_actor_id := actor, lq_output_schema := schema, lq_max_output_tokens := budget\<rparr>"
  have prompt: "build_prompt ?q = build_prompt q" by (simp add: build_prompt_def)
  from governed_generate_fresh [OF assms(1)] obtain s0 t where
    "store_complete (sql_llm_store lease) now' s0 (lq_organization_id q, lq_idempotency_key q)
       (digest pf (build_prompt q)) t r = (sys_store (idle rows1 :: (llm_key, llm_table, llm_receipt) effect_system), Inr ())"
    by (auto simp: idle_def)
  from sql_llm.receipt_replayed [OF this assms(3), of token' evs] assms(4)
  have "store_claim (sql_llm_store lease) now2 token' rows2 (lq_organization_id q, lq_idempotency_key q)
      (digest pf (build_prompt q)) = (rows2, Inr (Replayed r))" by simp
  moreover have "lq_model q = pr_model p" "estimate_tokens (build_prompt q) \<le> lq_max_input_tokens q"
    using assms(1) by (auto simp: governed_generate_def Let_def split: if_splits)
  ultimately show ?thesis
    using assms(2) by (intro governed_generate_replay) (simp_all add: prompt)
qed

theorem replay_ignores_schema_witness:
  "\<exists>rows r. governed_generate (sql_llm_store 180) demo_platform demo_loads demo_provider 0 1 ''t'' demo_llm_request id [] ((), 0)
       = ((rows, ((), 1)), Inr (r, False))
     \<and> governed_generate (sql_llm_store 180) demo_platform demo_loads demo_provider 5 6 ''u''
         (demo_llm_request\<lparr>lq_actor_id := ''bob'',
            lq_output_schema := [(''type'', JStr ''object''), (''required'', JArr [JStr ''answer''])],
            lq_max_output_tokens := 1\<rparr>) id rows ((), 1)
       = ((rows, ((), 1)), Inr (r, True))"
proof -
  obtain rows p where
    run: "governed_generate (sql_llm_store 180) demo_platform demo_loads demo_provider 0 1 ''t'' demo_llm_request id [] ((), 0)
     = ((rows, ((), 1)), Inr (([], p), False))"
    using demo_call by blast
  from run replay_ignores_schema [OF run,
      where schema = "[(''type'', JStr ''object''), (''required'', JArr [JStr ''answer''])]" and ?now2.0 = 5 and ?rows2.0 = rows
        and evs = "[]" and ?now3.0 = 6 and token' = "''u''" and actor = "''bob''" and budget = 1 and e' = id and ?w2.0 = "((), 1)"]
  show ?thesis by (auto simp: datetime_range_def idle_def)
qed

text \<open>
  C32 (provider_requests_bounded).  A governed call over an adapter that was set up with a
  number of retries sends at most one request more than that, and none when it is a replay.
\<close>

theorem provider_requests_bounded:
  assumes "base_llm_adapter retries timeout max_output a = Inr a'"
    and "governed_generate S pf loads (adapter_provider loads' conforms (counted a')) now now' token q e s (w, n)
      = ((s', w', m), out)"
  shows "n \<le> m \<and> m \<le> n + nat retries + 1 \<and> (\<forall>r. out = Inr (r, True) \<longrightarrow> m = n)"
proof -
  have retries: "nat (ad_max_retries (counted a') + 1) = nat retries + 1"
    using assms(1) by (auto simp: base_llm_adapter_def counted_def nat_add_distrib split: if_splits)
  show ?thesis
  proof (cases "(w', m) = (w, n)")
    case False
    from governed_generate_called(5) [OF assms(2) this]
    have "(w', m) = fst (adapter_generate loads' conforms (counted a') (build_prompt q) (lq_output_schema q) (w, n))"
      by (simp add: adapter_provider_def)
    then obtain o' where "adapter_loop (adapter_attempt loads' conforms (counted a') (build_prompt q) (lq_output_schema q))
        (nat retries + 1) (w, n) = ((w', m), o')"
      unfolding adapter_generate_def retries by (metis prod.collapse)
    from counted_loop [OF this] have "n \<le> m \<and> m \<le> n + nat retries + 1" by simp
    moreover have "out \<noteq> Inr (r, True)" for r
      using assms(2) False
      by (auto simp: governed_generate_def Let_def split: prod.splits sum.splits claim.splits if_splits)
    ultimately show ?thesis by blast
  qed simp
qed

theorem provider_requests_bounded_witness:
  "\<exists>rows m out. governed_generate (sql_llm_store 180) demo_platform demo_loads demo_provider 0 1 ''t'' demo_llm_request id [] ((), 0)
      = ((rows, ((), m)), out) \<and> m \<le> 4"
proof -
  obtain rows p where
    run: "governed_generate (sql_llm_store 180) demo_platform demo_loads demo_provider 0 1 ''t'' demo_llm_request id [] ((), 0)
     = ((rows, ((), 1)), Inr (([], p), False))"
    using demo_call by blast
  have "base_llm_adapter 3 60000000 4096 (mock_llm_adapter ''{}'' ''mock'' 3 :: unit llm_adapter)
      = Inr (mock_llm_adapter ''{}'' ''mock'' 3)"
    by (simp add: base_llm_adapter_def mock_llm_adapter_def)
  from provider_requests_bounded [OF this run [unfolded demo_llm_adapter_def]] run show ?thesis by fastforce
qed

text \<open>
  C33 (proposal_conforms).  Over the base adapter a proposal of its own run conforms to the
  schema of its request, if reading a printed JSON value gives it back with sorted keys and the
  validator does not depend on the order of keys.
\<close>

theorem proposal_conforms:
  assumes "\<forall>text v. loads text = Some v \<longrightarrow> loads (dumps True v) = Some (canon v)"
    and "\<forall>schema v. conforms schema (canon v) = conforms schema v"
    and run: "governed_generate S pf loads (adapter_provider loads conforms a) now now' token q e s w
      = ((s', w'), Inr (r, False))"
  shows "conforms (lq_output_schema q) (JObj (fst r))"
proof -
  from governed_generate_fresh [OF run] obtain response where
    gen: "adapter_generate loads conforms a (build_prompt q) (lq_output_schema q) w = (w', Inr response)"
    and acc: "accept_response pf loads (ad_provider a) q (digest pf (build_prompt q)) response = Inr r"
    by (auto simp: adapter_provider_def)
  from adapter_generate_Inr [OF gen] obtain raw v where
    "loads raw = Some v" "conforms (lq_output_schema q) v" "lr_text response = dumps True v" by blast
  with accept_response_Inr(2) [OF acc] assms(1,2) show ?thesis by (metis option.inject)
qed

theorem proposal_conforms_witness:
  "\<exists>rows r. governed_generate (sql_llm_store 180) demo_platform demo_loads demo_provider 0 1 ''t'' demo_llm_request id [] ((), 0)
      = ((rows, ((), 1)), Inr (r, False))
    \<and> demo_conforms (lq_output_schema demo_llm_request) (JObj (fst r))"
proof -
  obtain rows p where
    run: "governed_generate (sql_llm_store 180) demo_platform demo_loads demo_provider 0 1 ''t'' demo_llm_request id [] ((), 0)
     = ((rows, ((), 1)), Inr (([], p), False))"
    using demo_call by blast
  have "\<forall>text v. demo_loads text = Some v \<longrightarrow> demo_loads (dumps True v) = Some (canon v)"
    by (simp add: demo_loads_def dumps_def)
  moreover have "\<forall>schema v. demo_conforms schema (canon v) = demo_conforms schema v"
    by (auto simp: demo_conforms_def elim: canon.elims split: json.splits)
  ultimately show ?thesis using proposal_conforms [OF _ _ run] run by blast
qed

end
