(* ===== verification/Spec2Isabelle.thy ===== *)
theory Spec2Isabelle
  imports Quality_Router Authority_Engine Execution_Engine Orchestrator Runtime_Queue Command_Safety Llm_Safety
begin

text \<open>
  \<^bold>\<open>The program.\<close>  The repository is a code generation platform.  Its core, which this
  development models, is the control plane that lets software agents act only on decided,
  authorised and accounted-for requests, and the two database queues that hand work to
  them.  A request passes through these parts:

  \<^item> \<^bold>\<open>epistemics\<close> (\<open>phase4/epistemics\<close>) keeps a hypothesis with a confidence that evidence
    moves up and down;
  \<^item> the \<^bold>\<open>council\<close> (\<open>phase4/council\<close>: \<open>models\<close>, \<open>dispute\<close>, \<open>session\<close>) votes on the hypothesis
    in rounds; an open dispute blocks the vote;
  \<^item> \<^bold>\<open>authority\<close> (\<open>phase4/authority\<close>) takes the readiness report of the session, evaluates
    the policy (deny before allow, fail closed) and signs a decision and a short-lived grant;
  \<^item> \<^bold>\<open>execution\<close> (\<open>phase4/execution\<close>) verifies that the grant is bound to the request, claims
    the execution in a replay ledger with fencing tokens and runs the adapter;
  \<^item> \<^bold>\<open>outcome\<close> (\<open>phase4/outcome\<close>) records what the execution led to;
  \<^item> \<^bold>\<open>planner\<close> and \<^bold>\<open>orchestrator\<close> (\<open>phase4/planner\<close>, \<open>phase4/orchestrator\<close>) propose and bound
    repairs of failed outcomes;
  \<^item> \<^bold>\<open>adaptation\<close> (\<open>phase4/adaptation\<close>) classifies failures, forces a change of strategy after
    repeated ones and routes tasks to model tiers;
  \<^item> the \<^bold>\<open>runtime queue\<close> (\<open>infrastructure/runtime/queue.py\<close>) and the \<^bold>\<open>work queue\<close>
    (\<open>domain/work_queue.py\<close>, \<open>domain/work_queue_readiness.py\<close>,
    \<open>infrastructure/persistence/work_queue_repository.py\<close>,
    \<open>infrastructure/runtime/work_queue_{claim,lease,review}.py\<close>) lease messages and work units
    to workers, with retries, recovery and review;
  \<^item> a \<^bold>\<open>project\<close> (\<open>domain/project.py\<close>, \<open>infrastructure/persistence/project_scope_repository.py\<close>)
    has a life cycle from its intent to a verified completion, and its active plan is the
    \<^bold>\<open>scope\<close> (\<open>infrastructure/runtime/work_queue_scope.py\<close>) in which work units may be worked on;
  \<^item> the \<^bold>\<open>organization\<close> (\<open>domain/authority.py\<close>, \<open>services/authorization_service.py\<close>,
    \<open>runtime/authority.py\<close>) has actors, roles and assignments, from which every operation of the
    control plane is authorized, and an event log that records it;
  \<^item> \<^bold>\<open>project commands\<close> (\<open>runtime/project_runtime.py\<close>, \<open>project_scope_runtime.py\<close>,
    \<open>project_lifecycle_runtime.py\<close>, \<open>project_completion_evidence.py\<close>) are how members act on
    projects: authorized, answered from a receipt when repeated, and stored with their events;
  \<^item> \<^bold>\<open>side effects\<close> (\<open>services/side_effects.py\<close>,
    \<open>infrastructure/persistence/side_effect_store.py\<close>) runs a deployment or a pull request once per
    idempotency key and replays its receipt; \<^bold>\<open>governed model calls\<close> (\<open>services/governed_llm.py\<close>,
    \<open>services/llm_replay.py\<close>, \<open>infrastructure/persistence/llm_replay_store.py\<close>, the base adapter of
    \<open>services/llm_adapters.py\<close>) do the same for calls of a language model, with redacted input,
    budgets and a schema.

  \<^bold>\<open>The theories.\<close>  A Python class is a \<^theory_text>\<open>record\<close>, an enumeration a \<^theory_text>\<open>datatype\<close>, a method a
  function from the state to a result and the new state, and an exception a value \<open>Inl e\<close> of
  the result type.  The constructors' checks (\<open>__post_init__\<close>) are functions \<open>check_...\<close> or
  \<open>new_...\<close> that return the record or the exception.  Names follow the code; fields that
  would clash carry the initials of their class.

  \<^item> \<open>Py_Prelude\<close>: strings and \<open>strip\<close>, exceptions and results, dictionaries in insertion
    order, decimal printing.  \<open>Py_Json\<close>: \<open>json.dumps\<close> with sorted keys; the encoding is
    injective (the basis of every identity and signature).  \<open>Py_Float\<close>: IEEE 754 doubles as
    rationals with rounding to nearest even, \<open>round\<close> and \<open>ldexp\<close>.  \<open>Py_Fnmatch\<close>: shell
    patterns.  \<open>Py_Platform\<close>: environment variables, clock instants in microseconds, and what
    is not in the repository (below).
  \<^item> \<open>Epistemics\<close>: confidence is a probability on the four-decimal grid, the status agrees
    with the thresholds, evidence moves it the right way in spite of rounding.
  \<^item> \<open>Council_Dispute\<close>, \<open>Council_Session\<close>: the session as a state machine, its invariant over
    all reachable states, bounded rounds, the wedge of a dispute that is raised again.
  \<^item> \<open>Adaptation\<close>, \<open>Quality_Router\<close>: classification, counting and pivots; the tier and
    verification gates.
  \<^item> \<open>Authority_Adapter\<close>, \<open>Authority_Models\<close>, \<open>Authority_Grants\<close>, \<open>Authority_Engine\<close>: readiness
    reports; requests, rules and policies; keys, signatures and grants; evaluation, which is
    shown to implement the policy \<open>permitted\<close>, and the audit trail.
  \<^item> \<open>Execution_Models\<close>, \<open>Replay_Ledger\<close>, \<open>Durable_Ledger\<close>, \<open>Execution_Engine\<close>: the locale
    \<open>replay_ledger\<close> states what the engine needs of a ledger (every call refines the
    abstract map of \<open>spec_call\<close>) and derives exclusion, fencing and finality from it; it is
    interpreted on the in-memory ledger and on the SQL ledger, which are therefore
    equivalent.  The engine is proved for both: no adapter runs without a bound grant and a
    fresh claim, a success is never run again, and a run is recorded unless its claim was lost
    or the database failed, which the engine answers by abandoning the claim.
  \<^item> \<open>Outcome_Engine\<close>, \<open>Planner\<close>, \<open>Orchestrator\<close>: identities, idempotent stores, the gates, the
    backoff and the repair loop, for any adapter.
  \<^item> \<open>Runtime_Queue\<close>: the table of messages as a list of rows; every operation; the step
    relation \<open>queue_step\<close> of all clients and its runs, over which deliveries are counted.
  \<^item> \<open>Work_Units\<close>, \<open>Work_Queue\<close>: domain checks, the JSON and row translations and their round
    trip, with the three fields of a capability that it does not keep; the repository, claim, lease and review services over the tables \<open>work_units\<close> and
    \<open>work_unit_revisions\<close>, their runs and the invariant of the tables.  The locale
    \<open>candidate_service\<close> is the loop that claim, recovery and rework share (select candidates,
    skip the rejected, compare and set the first); it is interpreted on the three plain
    services and, in \<open>Work_Scope\<close>, on the two scoped ones.
  \<^item> \<open>Project\<close>, \<open>Project_Store\<close>: intents, completion records, the project with every check of its
    constructor, the six transitions and their histories; the rows, their round trip and
    tamper evidence, and the update that checks the revision.
  \<^item> \<open>Work_Scope\<close>: the binding of units to a project and plan, the validator that asks the
    stored project, the scoped claim and lease services, and the cancellation of superseded
    work, with the runs of all services together.
  \<^item> \<open>Org_Authority\<close>: the tables of an organization, authorization, which is shown to decide by
    the predicates \<open>active_member\<close> and \<open>holds_capability\<close>, the event log, the operations of the
    authority runtime and their runs, with what others commit between the reads and the
    writes of an operation, and the revocation that is overwritten there.  The locale \<open>table_mutation\<close> states what the runtime needs
    of a change of the role tables; it is interpreted on the five changes there are.
  \<^item> \<open>Project_Commands\<close>: the eight commands over all those tables, each with its reads, its
    writes, its receipt and the retries of its method.  \<open>Command_Safety\<close>: the four outcomes of
    a command (\<open>command_outcome\<close>), and from them that identifiers are applied once, that stored
    projects only take legal steps (\<open>row_path\<close>), that completion rests on evidence and that an
    activation cuts off the services of other plans in \<open>Work_Scope\<close>.
  \<^item> \<open>Fenced_Effects\<close>: the two stores of receipts, the coordinator and the protocol of workers
    that share a store (\<open>effect_event\<close>: claims, operations, settlements and crashes in any order).
    The locale \<open>receipt_store\<close> states what is needed of a store by what a key is (\<open>slot\<close>) and
    bounds how often an operation runs; \<open>effect_coordinator\<close> extends it by the coordinator.
    The claim of the table is also taken apart into its statements (\<open>table_step\<close>), among which
    those of other workers come: a receipt is final but for a worker already inside a claim.
    \<open>Governed_Llm\<close>, \<open>Llm_Safety\<close>: the governed call, its two stores as further instances of
    \<open>receipt_store\<close>, what reaches the provider and how often, and what a replay answers.
  \<^item> This theory: the properties that join council, authority and execution.

  \<^bold>\<open>Parameters and hypotheses.\<close>  Digests (SHA-256, HMAC) and the ISO 8601 codec are fields
  of the record \<open>platform\<close>.  The hypotheses on them are \<open>hex_digests\<close> (a MAC is a non-empty
  ASCII string, a SHA-256 digest is not blank), \<open>sha256_digests\<close> (a digest has 64
  lower-case hexadecimal digits) and \<open>iso_inverse\<close> (\<open>fromisoformat\<close> reads what \<open>isoformat\<close> writes); collision
  freedom is never assumed, a collision on the texts at hand is a case of the statement
  (\<open>sha_collides\<close>, \<open>mac_collides\<close>).
  \<open>uuid5\<close> is an argument (\<open>uid\<close>) without a hypothesis; \<open>sq\<close> says whether the database
  returns naive time stamps.  Clock readings, \<open>uuid4\<close> values and \<open>secrets.token_hex\<close> are arguments.  What other clients of
  a database commit between a read and a write of one operation is an argument \<open>env\<close>; SQL
  statements are atomic, and a row locked by \<open>FOR UPDATE\<close> is not changed by \<open>env\<close>.  Adapters
  and audit sinks are arbitrary functions on a state of their own.  The \<open>demo_\<close> definitions
  are the concrete inputs of the witnesses; \<open>demo_platform\<close> and \<open>project_platform\<close> satisfy the
  hypotheses.  \<open>json.loads\<close> of a model response, the JSON schema validator and what a vendor's
  adapter sends are parameters of the governed call.

  \<^bold>\<open>Bounds.\<close>  There is no fuel beyond what the code itself counts: the claim and recovery loops
  make at most 100 passes in the code, and \<open>run_loop\<close> takes at most \<open>max_steps\<close> steps.  A
  project command makes at most three attempts.  All other loops run over lists.  Integers are Python's and unbounded; instants are bounded by
  \<open>datetime_range\<close>, with \<open>OverflowError\<close> beyond.

  \<^bold>\<open>Not modelled.\<close>  The metrics of the work queue, the workflow commands of the
  runtime, the swarm task queue, the council's provider configuration, routing and store,
  the HTTP adapters of the model vendors, the planner service, the agent registry and the
  release phases are not modelled.  Of the database, a locked file (\<open>OperationalError\<close>) and row
  level security of PostgreSQL are not.  The pipeline and its executors, the implementation agent,
  the project audit, the HTTP API, dashboards, command line and the services for GitHub and
  Redmine drive subprocesses, language models and networks and are left out, as are the
  SQLAlchemy declarations beyond the tables above.  Threads appear only as interleavings of
  whole database statements; locks of the in-memory classes make their methods atomic.
\<close>

section \<open>From deliberation to execution\<close>

lemma issue_grant_Inr:
  assumes "issue_grant pf now now' fresh req report eng = (Inr g, eng')"
  obtains d where "evaluate_request pf now req report eng = (Inr d, eng')" "ad_decision d = ALLOW"
    "from_decision pf now' fresh d DEFAULT_GRANT_TTL_SECONDS None = Inr g"
  using assms by (auto simp: issue_grant_def split: prod.splits sum.splits if_splits)

lemma issue_grant_permitted:
  assumes "issue_grant pf now now' fresh req report eng = (Inr g, eng')"
  shows "permitted (set (rules (ae_policy eng))) (max_allowed_risk eng) req report
    \<and> grant_fields g = \<lparr>bf_request_id = ar_request_id req, bf_agent_identity = ar_agent_identity req,
       bf_action = ar_action req, bf_resource = ar_resource req, bf_context_packet_id = ar_context_packet_id req,
       bf_parameters = ar_parameters req, bf_organization_id = ar_organization_id req,
       bf_actor_id = ar_actor_id req, bf_capability = ar_capability req\<rparr>"
proof -
  obtain d where ev: "evaluate_request pf now req report eng = (Inr d, eng')" and d: "ad_decision d = ALLOW"
    and g: "from_decision pf now' fresh d DEFAULT_GRANT_TTL_SECONDS None = Inr g"
    using assms by (rule issue_grant_Inr)
  have "build_decision pf now (ae_policy eng) (max_allowed_risk eng) req report = Inr d"
    using ev by (simp add: evaluate_request_Inr)
  then have b: "ad_request_id d = ar_request_id req" "ad_agent_identity d = ar_agent_identity req"
    "ad_action d = ar_action req" "ad_resource d = ar_resource req"
    "ad_context_packet_id d = ar_context_packet_id req" "ad_parameters d = ar_parameters req"
    "ad_organization_id d = ar_organization_id req" "ad_actor_id d = ar_actor_id req"
    "ad_capability d = ar_capability req"
    "(ad_decision d, ad_reason d) = decide_request (ae_policy eng) (max_allowed_risk eng) req report"
    by (auto elim: build_decisionE)
  from b(10) d have "permitted (set (rules (ae_policy eng))) (max_allowed_risk eng) req report"
    by (metis decide_request_allow fst_conv)
  moreover from g have "grant_fields g = \<lparr>bf_request_id = ad_request_id d, bf_agent_identity = ad_agent_identity d,
       bf_action = ad_action d, bf_resource = ad_resource d, bf_context_packet_id = ad_context_packet_id d,
       bf_parameters = ad_parameters d, bf_organization_id = ad_organization_id d,
       bf_actor_id = ad_actor_id d, bf_capability = ad_capability d\<rparr>"
    by (rule from_decisionE)
  ultimately show ?thesis using b by simp
qed

text \<open>
  C1 (council, epistemics and authority together).  When the authority engine issues a
  grant for a request together with the readiness report of a deliberation session that
  has gone through any legal sequence of operations, then that session is decided: it is
  DECISION_READY, no dispute against its hypothesis is open, the approvals of its final
  round reach the threshold, the hypothesis is ACTIVE or SUPPORTED, its evidence was
  checked against the current revision and the risk is within the engine's limit; and the
  policy allows the request by some rule and denies it by none.
\<close>

theorem grant_requires_decided_council:
  assumes "reachable s"
    and "issue_grant pf now now' fresh req (Some (council_evaluate rid at_report s cur risk revs)) eng = (Inr g, eng')"
  shows "s_state s = DECISION_READY
    \<and> \<not> has_active_disputes (protocol s) (hypothesis_id (s_hypothesis s))
    \<and> approval_threshold s \<le> approval_ratio (round_votes s) \<and> round_votes s \<noteq> []
    \<and> hyp_status (s_hypothesis s) \<in> {ACTIVE, SUPPORTED}
    \<and> evidence_check revs cur (supporting_evidence (s_hypothesis s))
    \<and> risk_order risk \<le> risk_order (max_allowed_risk eng)
    \<and> (\<exists>r\<in>set (rules (ae_policy eng)). matches r req \<and> effect r = ALLOW)
    \<and> \<not> (\<exists>r\<in>set (rules (ae_policy eng)). matches r req \<and> effect r = DENY)"
proof -
  have "decided_ok s" using reachable_inv [OF assms(1)] by (simp add: session_inv_def)
  with issue_grant_permitted [OF assms(2)] show ?thesis
    by (auto simp: permitted_def gate_passes_def decided_ok_def has_active_disputes_def)
qed

text \<open>
  C2 (authority and execution together).  If an adapter acts on the world under a grant
  that the authority engine issued, then the policy permitted the request that was
  authorised, the executed request agrees with it in every bound field (identifier,
  agent, action, resource, context packet, parameters, organization, actor and capability),
  and the engine's check of the grant, which precedes the adapter run, took place no earlier
  than the grant was issued and less than 300 seconds later.
\<close>

theorem execution_within_authority:
  assumes "hex_digests pf" "iso_inverse pf" "datetime_range now'"
    and "issue_grant pf now now' fresh req report eng = (Inr g, eng')"
    and "execute pf ops clk env tok xreq (Grant g) ee w = ((r, ee'), w')" "w' \<noteq> w"
  shows "permitted (set (rules (ae_policy eng))) (max_allowed_risk eng) req report
    \<and> xr_request_id xreq = ar_request_id req \<and> xr_agent_identity xreq = ar_agent_identity req
    \<and> xr_action xreq = ar_action req \<and> xr_resource xreq = ar_resource req
    \<and> xr_context_packet_id xreq = ar_context_packet_id req \<and> xr_parameters xreq = ar_parameters req
    \<and> Some (xr_organization_id xreq) = ar_organization_id req
    \<and> xr_actor_id xreq = ar_actor_id req \<and> xr_capability xreq = ar_capability req
    \<and> now' \<le> clk 0 \<and> clk 0 < now' + seconds 300"
proof -
  obtain d where g: "from_decision pf now' fresh d DEFAULT_GRANT_TTL_SECONDS None = Inr g"
    using assms(4) by (rule issue_grant_Inr)
  from g obtain t where t: "aware_utc now' None = Inr t" "datetime_range (t + seconds DEFAULT_GRANT_TTL_SECONDS)"
    "issued_at g = isoformat pf t" "expires_at g = isoformat pf (t + seconds DEFAULT_GRANT_TTL_SECONDS)"
    by (rule from_decisionE)
  have "binds pf (clk 0) g (request_fields xreq) None = Inr True"
    using assms(5)
  proof (cases rule: execute_cases)
    case refused
    with assms(6) show ?thesis by simp
  next
    case claimed
    from admit_Inr [OF claimed(1)] show ?thesis by auto
  qed
  then have "grant_fields g = request_fields xreq" and v: "verify_grant pf (clk 0) g None = Inr True"
    by (simp_all add: binds_True)
  moreover have "now' \<le> clk 0 \<and> clk 0 < now' + seconds 300"
    using v t assms(2,3)
    by (auto simp: verify_grant_True aware_utc_def parse_isoformat DEFAULT_GRANT_TTL_SECONDS_def)
  ultimately show ?thesis
    using issue_grant_permitted [OF assms(4)] by (simp add: request_fields_def)
qed

subsection \<open>A run through all the parts\<close>

lemma issue_grant_ok:
  assumes "check_request req = Inr req" "check_policy (ae_policy eng) = Inr (ae_policy eng)"
    and "load_signing_key pf = Inr key" "hex_digests pf" "iso_inverse pf" "datetime_range now"
    and "\<forall>d k. fst (ae_sink eng d k) = Inr ()" "datetime_range (now' + seconds 300)"
    and "permitted (set (rules (ae_policy eng))) (max_allowed_risk eng) req report"
  shows "\<exists>g eng'. issue_grant pf now now' fresh req report eng = (Inr g, eng')
    \<and> g_policy_id g = policy_id (ae_policy eng) \<and> g_policy_version g = policy_version (ae_policy eng)
    \<and> g_decision g = ''allow''"
proof -
  obtain d where d: "build_decision pf now (ae_policy eng) (max_allowed_risk eng) req report = Inr d"
    using build_decision_ok [OF assms(1-3,5,6)] by blast
  obtain k where "ae_sink eng d (ae_sink_state eng) = (Inr (), k)"
    using assms(7) by (metis prod.collapse)
  with d obtain eng' where ev: "evaluate_request pf now req report eng = (Inr d, eng')"
    by (simp add: evaluate_request_Inr)
  from d have f: "(ad_decision d, ad_reason d) = decide_request (ae_policy eng) (max_allowed_risk eng) req report"
    "provenance_issuer d = ISSUER_ID" "ad_policy_id d = policy_id (ae_policy eng)"
    "ad_policy_version d = policy_version (ae_policy eng)"
    and sig: "signature_for pf ''authority-decision'' (decision_payload d) = Inr (provenance_signature d)"
    by (auto elim: build_decisionE)
  have al: "ad_decision d = ALLOW" using assms(9) f(1) by (metis decide_request_allow fst_conv)
  have "decision_has_valid_provenance pf d = Inr True"
    using signature_for_hex [OF assms(4) sig] sig f(2) by (simp add: decision_provenance_True)
  from from_decision_ok [OF this al, of DEFAULT_GRANT_TTL_SECONDS now' fresh] assms(8)
  obtain g where g: "from_decision pf now' fresh d DEFAULT_GRANT_TTL_SECONDS None = Inr g"
    by (auto simp: DEFAULT_GRANT_TTL_SECONDS_def)
  moreover from g have "g_policy_id g = ad_policy_id d" "g_policy_version g = ad_policy_version d" "g_decision g = ''allow''"
    by (auto simp: from_decision_def bind_res_Inr_iff Let_def)
  ultimately show ?thesis using ev al f(3,4) by (simp add: issue_grant_def)
qed

definition demo_council :: session where
  "demo_council = council_run
     (projr (new_session 0 ''u0'' (demo_hypothesis\<lparr>hyp_status := ACTIVE\<rparr>) 2 (fl (3/5))
        (new_protocol default_belief_engine) (Some ''s1'')))
     [CastVote 1 ''ada'' True None, ConcludeRound 2]"

abbreviation demo_report :: decision_readiness where
  "demo_report \<equiv> council_evaluate ''rep'' 3 demo_council ''rev1'' RMEDIUM None"

lemma demo_council_reachable: "reachable demo_council"
  unfolding demo_council_def
  by (rule reachable_run, rule reachable.init [where now = 0 and fresh = "''u0''" and h = "demo_hypothesis\<lparr>hyp_status := ACTIVE\<rparr>"
        and rounds = 2 and threshold = "fl (3/5)" and eng = default_belief_engine and sid = "Some ''s1''"])
    (simp add: new_session_def)

lemma demo_council_gate: "gate_passes RHIGH (Some demo_report)"
proof -
  have "s_state demo_council = DECISION_READY"
    "get_open_disputes_for_hypothesis (protocol demo_council) (hypothesis_id (s_hypothesis demo_council)) = []"
    "hyp_status (s_hypothesis demo_council) = ACTIVE"
    "evidence_check None ''rev1'' (supporting_evidence (s_hypothesis demo_council))"
    by code_simp+
  then show ?thesis by (simp add: gate_passes_def)
qed

lemma demo_issue:
  "\<exists>g e. issue_grant demo_platform 5 1000000 ''g1'' (demo_request ''svc/web'') (Some demo_report) demo_engine = (Inr g, e)
     \<and> demo_usable g"
proof -
  have p: "permitted (set (rules demo_policy)) RHIGH (demo_request ''svc/web'') (Some demo_report)"
    using demo_permitted(1) demo_council_gate by (simp add: permitted_def)
  have "datetime_range (1000000 + seconds 300)" by (simp add: datetime_range_def)
  then obtain g e where g: "issue_grant demo_platform 5 1000000 ''g1'' (demo_request ''svc/web'') (Some demo_report) demo_engine = (Inr g, e)"
    and f: "g_policy_id g = policy_id demo_policy" "g_policy_version g = policy_version demo_policy" "g_decision g = ''allow''"
    using issue_grant_ok [OF demo_request_ok [OF demo_not_blank(1)] _ demo_key demo_platform_digests demo_platform_iso
        demo_range(1), of demo_engine 1000000 "Some demo_report" "''g1''"] p
    by (auto simp: demo_policy_ok recording_sink_def)
  have fields: "grant_fields g = request_fields demo_xreq"
    using issue_grant_permitted [OF g] by (simp add: demo_request_def demo_xreq_def request_fields_def)
  have "verify_grant demo_platform 2000000 g None = Inr True"
    using g
  proof (rule issue_grant_Inr)
    fix d assume fd: "from_decision demo_platform 1000000 ''g1'' d DEFAULT_GRANT_TTL_SECONDS None = Inr g"
    from fd show ?thesis
      by (rule from_decisionE)
        (auto simp: verify_grant_True aware_utc_def parse_timestamp_def DEFAULT_GRANT_TTL_SECONDS_def
          dest: signature_for_hex [OF demo_platform_digests])
  qed
  moreover have "check_decision (grant_decision g) = Inr (grant_decision g)"
    using fields f(1,2)
    by (auto simp: check_decision_def grant_decision_def grant_fields_def request_fields_def demo_xreq_def
        demo_policy_def blank_iff is_space_def unique_keys_iff)
  ultimately show ?thesis using g f(3) fields by (auto simp: demo_usable_def)
qed

theorem grant_requires_decided_council_witness:
  "\<exists>g e. issue_grant demo_platform 5 1000000 ''g1'' (demo_request ''svc/web'') (Some demo_report) demo_engine = (Inr g, e)
     \<and> s_state demo_council = DECISION_READY"
proof -
  obtain g e where g: "issue_grant demo_platform 5 1000000 ''g1'' (demo_request ''svc/web'') (Some demo_report) demo_engine = (Inr g, e)"
    using demo_issue by blast
  from grant_requires_decided_council [OF demo_council_reachable g] g show ?thesis by blast
qed

theorem execution_within_authority_witness:
  "\<exists>g e x ee. issue_grant demo_platform 5 1000000 ''g1'' (demo_request ''svc/web'') (Some demo_report) demo_engine = (Inr g, e)
     \<and> execute demo_platform sql_ops demo_clk alone ''T'' demo_xreq (Grant g) demo_exec_engine 0 = ((Inr x, ee), 1)
     \<and> xr_resource demo_xreq = ar_resource (demo_request ''svc/web'')"
proof -
  obtain g e where g: "issue_grant demo_platform 5 1000000 ''g1'' (demo_request ''svc/web'') (Some demo_report) demo_engine = (Inr g, e)"
    "demo_usable g" using demo_issue by blast
  obtain x ee where x: "execute demo_platform sql_ops demo_clk alone ''T'' demo_xreq (Grant g) demo_exec_engine 0 = ((Inr x, ee), 1)"
    using demo_execution_of [OF g(2)] by blast
  from execution_within_authority [OF demo_platform_digests demo_platform_iso demo_range(2) g(1) x] g(1) x
  show ?thesis by auto
qed

end
